(* ===== verification/Js_Prelude.thy ===== *)
theory Js_Prelude
  imports Main "HOL-Library.Word" "HOL-Library.Sublist" "HOL-Library.Code_Target_Nat"
begin

text \<open>
  Shared vocabulary of the development: JavaScript strings as sequences of
  16-bit code units with the string operations the sources call
  (\<^verbatim>\<open>startsWith\<close>, \<^verbatim>\<open>slice\<close>, \<^verbatim>\<open>indexOf\<close>, \<^verbatim>\<open>includes\<close>, \<^verbatim>\<open>trim\<close>, \<^verbatim>\<open>split\<close>,
  \<^verbatim>\<open>join\<close>, \<^verbatim>\<open>padStart\<close>), the errors a call can throw, and the sum type that
  carries a thrown error through pure code. The named collections
  \<open>js_simps\<close> (string literals and string operations) and \<open>res_simps\<close> (the
  error monad) are the rewrite rules that component proofs add to \<open>simp\<close>.
\<close>

named_theorems js_simps "rewrite rules for JavaScript strings and values"
named_theorems res_simps "rewrite rules for computations that may throw"

section \<open>Strings\<close>

type_synonym cunit = "16 word"
type_synonym jsstr = "cunit list"

text \<open>An ASCII literal of the source.\<close>

definition js :: "string \<Rightarrow> jsstr" where
  "js s = map of_char s"

lemma of_char_16_inject [simp]:
  "(of_char a :: 16 word) = of_char b \<longleftrightarrow> a = b"
proof
  assume eq: "(of_char a :: 16 word) = of_char b"
  have "unat (of_char c :: 16 word) = of_char c" for c :: char
  proof -
    have "(of_char c :: 16 word) = of_nat (of_char c)"
      by (simp only: of_nat_of_char)
    moreover have "(of_char c :: nat) < 2 ^ LENGTH(16)"
      using less_trans [OF nat_of_char_less_256 [of c], of 65536] by simp
    ultimately show ?thesis
      by (simp only: unat_of_nat mod_less)
  qed
  with eq have "(of_char a :: nat) = of_char b"
    by metis
  then show "a = b" by simp
qed simp

lemma js_inject [simp]: "js a = js b \<longleftrightarrow> a = b"
proof
  assume "js a = js b"
  then show "a = b"
    by (auto simp: js_def inj_on_def intro: map_injective)
qed simp

lemma js_Nil [simp]: "js [] = []"
  by (simp add: js_def)

lemma js_eq_Nil [simp]: "js s = [] \<longleftrightarrow> s = []" "[] = js s \<longleftrightarrow> s = []"
  by (auto simp: js_def)

lemma js_append [js_simps]: "js (a @ b) = js a @ js b"
  by (simp add: js_def)

lemma length_js [simp]: "length (js s) = length s"
  by (simp add: js_def)

subsection \<open>Searching and slicing\<close>

fun js_startsWith :: "jsstr \<Rightarrow> jsstr \<Rightarrow> bool" where
  "js_startsWith s [] = True"
| "js_startsWith [] (p # ps) = False"
| "js_startsWith (c # cs) (p # ps) = (c = p \<and> js_startsWith cs ps)"

lemma js_startsWith_prefix [js_simps]: "js_startsWith s p \<longleftrightarrow> prefix p s"
  by (induction s p rule: js_startsWith.induct) auto

text \<open>\<^verbatim>\<open>s.indexOf(p)\<close>: the first position at which \<open>p\<close> occurs, \<open>None\<close> for \<open>-1\<close>.\<close>

fun js_indexOf :: "jsstr \<Rightarrow> jsstr \<Rightarrow> nat option" where
  "js_indexOf [] p = (if p = [] then Some 0 else None)"
| "js_indexOf (c # cs) p =
     (if js_startsWith (c # cs) p then Some 0 else map_option Suc (js_indexOf cs p))"

definition js_includes :: "jsstr \<Rightarrow> jsstr \<Rightarrow> bool" where
  "js_includes s p \<longleftrightarrow> js_indexOf s p \<noteq> None"

lemma js_indexOf_Some:
  "js_indexOf s p = Some i \<Longrightarrow> s = take i s @ p @ drop (i + length p) s"
proof (induction s arbitrary: i)
  case Nil
  then show ?case by (simp split: if_splits)
next
  case (Cons c cs)
  then show ?case
    by (auto simp: js_startsWith_prefix prefix_def split: if_splits)
qed

lemma js_indexOf_append: "js_indexOf (a @ p @ b) p \<noteq> None"
proof (induction a)
  case Nil
  have "js_startsWith (p @ b) p"
    by (simp add: js_startsWith_prefix)
  then show ?case
    by (cases "p @ b") auto
next
  case (Cons c a)
  then show ?case by auto
qed

lemma js_includes_sublist: "js_includes s p \<longleftrightarrow> sublist p s"
proof
  assume "js_includes s p"
  then obtain i where "js_indexOf s p = Some i"
    by (auto simp: js_includes_def)
  from js_indexOf_Some [OF this] show "sublist p s"
    unfolding sublist_def by blast
next
  assume "sublist p s"
  then obtain a b where "s = a @ p @ b"
    unfolding sublist_def by blast
  then show "js_includes s p"
    unfolding js_includes_def by (simp only: js_indexOf_append) simp
qed

lemma js_indexOf_None: "js_indexOf s p = None \<longleftrightarrow> \<not> sublist p s"
  using js_includes_sublist [of s p] unfolding js_includes_def by blast

lemma js_includes_unit [js_simps]: "js_includes s [c] \<longleftrightarrow> c \<in> set s"
  by (auto simp: js_includes_sublist sublist_def in_set_conv_decomp)

text \<open>The first occurrence is minimal: nothing of the text before it starts the pattern.\<close>

lemma js_indexOf_first:
  "js_indexOf s p = Some i \<Longrightarrow> j < i \<Longrightarrow> \<not> prefix p (drop j s)"
proof (induction s arbitrary: i j)
  case Nil
  then show ?case by (simp split: if_splits)
next
  case (Cons c cs)
  then show ?case
    by (cases j) (auto simp: js_startsWith_prefix split: if_splits)
qed

subsection \<open>White space\<close>

text \<open>The white space and line terminator code units that \<^verbatim>\<open>String.prototype.trim\<close>
  and the regular-expression class \<^verbatim>\<open>\s\<close> share.\<close>

definition js_ws :: "cunit \<Rightarrow> bool" where
  "js_ws c \<longleftrightarrow> c \<in> set [0x9, 0xA, 0xB, 0xC, 0xD, 0x20, 0xA0, 0x1680, 0x2000, 0x2001, 0x2002,
     0x2003, 0x2004, 0x2005, 0x2006, 0x2007, 0x2008, 0x2009, 0x200A, 0x2028, 0x2029, 0x202F,
     0x205F, 0x3000, 0xFEFF]"

definition js_trimStart :: "jsstr \<Rightarrow> jsstr" where
  "js_trimStart s = dropWhile js_ws s"

definition js_trim :: "jsstr \<Rightarrow> jsstr" where
  "js_trim s = rev (dropWhile js_ws (rev (dropWhile js_ws s)))"

lemma js_trim_Nil [simp]: "js_trim [] = []"
  by (simp add: js_trim_def)

lemma js_trim_id:
  assumes "s \<noteq> [] \<Longrightarrow> \<not> js_ws (hd s)" and "s \<noteq> [] \<Longrightarrow> \<not> js_ws (last s)"
  shows "js_trim s = s"
proof (cases s)
  case (Cons c cs)
  then have "dropWhile js_ws s = s"
    using assms(1) by simp
  moreover have "\<not> js_ws (hd (rev s))"
    using assms(2) Cons by (simp add: hd_rev del: rev.simps)
  then have "dropWhile js_ws (rev s) = rev s"
    by (cases "rev s") auto
  ultimately show ?thesis
    by (simp add: js_trim_def)
qed simp

lemma js_trim_hd: "js_trim s \<noteq> [] \<Longrightarrow> \<not> js_ws (hd (js_trim s))"
proof -
  assume ne: "js_trim s \<noteq> []"
  let ?d = "dropWhile js_ws s"
  have "js_trim s = rev (dropWhile js_ws (rev ?d))"
    by (simp add: js_trim_def)
  moreover have "prefix (rev (dropWhile js_ws (rev ?d))) ?d"
    using suffix_dropWhile [of js_ws "rev ?d"] by (simp add: suffix_to_prefix)
  ultimately have "hd (js_trim s) = hd ?d"
    using ne by (metis append_is_Nil_conv hd_append2 prefix_def)
  moreover have "?d \<noteq> []"
    using ne unfolding js_trim_def by (metis dropWhile.simps(1) rev.simps(1))
  ultimately show ?thesis
    using hd_dropWhile by metis
qed

lemma js_trim_last: "js_trim s \<noteq> [] \<Longrightarrow> \<not> js_ws (last (js_trim s))"
  by (simp add: js_trim_def last_rev hd_dropWhile)

lemma js_trim_idem [js_simps]: "js_trim (js_trim s) = js_trim s"
  by (rule js_trim_id) (rule js_trim_hd, assumption, rule js_trim_last, assumption)

lemma js_trim_eq_Nil: "js_trim s = [] \<longleftrightarrow> list_all js_ws s"
proof
  assume "js_trim s = []"
  then have "dropWhile js_ws (rev (dropWhile js_ws s)) = []" by (simp add: js_trim_def)
  then have "list_all js_ws (dropWhile js_ws s)" by (simp add: dropWhile_eq_Nil_conv list_all_iff)
  then have "dropWhile js_ws s = []"
    by (metis hd_dropWhile list.pred_inject(2) list.exhaust_sel)
  then show "list_all js_ws s" by (simp add: dropWhile_eq_Nil_conv list_all_iff)
next
  assume "list_all js_ws s"
  then have "dropWhile js_ws s = []" unfolding dropWhile_eq_Nil_conv list_all_iff .
  then show "js_trim s = []" unfolding js_trim_def by (metis dropWhile.simps(1) rev.simps(1))
qed

lemma set_js_trim: "set (js_trim s) \<subseteq> set s"
  unfolding js_trim_def by (auto dest!: set_dropWhileD)

subsection \<open>Splitting, joining, padding\<close>

text \<open>\<^verbatim>\<open>s.split(c)\<close> for a separator of one code unit: never an empty list.\<close>

fun js_split :: "cunit \<Rightarrow> jsstr \<Rightarrow> jsstr list" where
  "js_split c [] = [[]]"
| "js_split c (x # xs) =
     (if x = c then [] # js_split c xs
      else case js_split c xs of [] \<Rightarrow> [[x]] | w # ws \<Rightarrow> (x # w) # ws)"

lemma js_split_ne [simp]: "js_split c s \<noteq> []"
  by (induction s) (auto split: list.splits)

fun js_join :: "jsstr \<Rightarrow> jsstr list \<Rightarrow> jsstr" where
  "js_join sep [] = []"
| "js_join sep [w] = w"
| "js_join sep (w # ws) = w @ sep @ js_join sep ws"

lemma js_join_hd: "y \<noteq> [] \<Longrightarrow> js_join p (y # ys) \<noteq> [] \<and> hd (js_join p (y # ys)) = hd y"
  by (cases ys) auto

lemma js_join_split: "js_join [c] (js_split c s) = s"
proof (induction s)
  case Nil
  then show ?case by simp
next
  case (Cons x xs)
  obtain w ws where sp: "js_split c xs = w # ws"
    by (cases "js_split c xs") auto
  with Cons show ?case
    by (cases ws) auto
qed

lemma js_split_no_sep: "w \<in> set (js_split c s) \<Longrightarrow> c \<notin> set w"
proof (induction s arbitrary: w)
  case Nil
  then show ?case by simp
next
  case (Cons x xs)
  obtain v vs where sp: "js_split c xs = v # vs"
    by (cases "js_split c xs") auto
  with Cons show ?case
    by (auto split: if_splits)
qed

lemma js_split_append_sep: "js_split c (a @ c # b) = js_split c a @ js_split c b"
proof (induction a)
  case Nil
  then show ?case by simp
next
  case (Cons x a)
  then show ?case by (auto split: list.splits)
qed

lemma js_split_id: "c \<notin> set a \<Longrightarrow> js_split c a = [a]"
  by (induction a) auto

lemma length_js_split: "length (js_split c s) = Suc (count_list s c)"
proof (induction s)
  case Nil
  then show ?case by simp
next
  case (Cons x xs)
  then show ?case by (auto split: list.splits)
qed

text \<open>Joining with a comma and a space, then splitting at commas and trimming, gives the words back.\<close>

lemma split_join_words:
  assumes "\<forall>w \<in> set ws. js_trim w = w \<and> 0x2C \<notin> set w" and "ws \<noteq> []"
  shows "map js_trim (js_split 0x2C (js_join (js '', '') ws)) = ws"
  using assms
proof (induction ws rule: induct_list012)
  case (3 x y zs)
  have sep: "js '', '' = [0x2C, 0x20]" by (simp add: js_def)
  have "js_trim (0x20 # w) = js_trim w" for w by (simp add: js_trim_def js_trimStart_def js_ws_def)
  moreover obtain v vs where v: "js_split 0x2C (js_join (js '', '') (y # zs)) = v # vs" by (meson js_split_ne neq_Nil_conv)
  moreover have "js_split 0x2C (0x20 # js_join (js '', '') (y # zs)) = (0x20 # v) # vs" using v by simp
  ultimately show ?case using 3 by (simp add: sep js_split_append_sep js_split_id)
qed (simp_all add: js_split_id)

lemma join_words_trim:
  assumes "\<forall>w \<in> set ws. w \<noteq> [] \<and> js_trim w = w" and "ws \<noteq> []"
  shows "js_trim (js_join (js '', '') ws) \<noteq> []"
proof -
  obtain w r where ws: "ws = w # r" using assms(2) by (cases ws) auto
  with assms(1) have w: "w \<noteq> []" "js_trim w = w" by auto
  then have "\<not> js_ws (hd w)" using js_trim_hd [of w] by simp
  moreover have "hd w \<in> set (js_join (js '', '') ws)"
    using js_join_hd [OF w(1), of "js '', ''" r] ws hd_in_set by metis
  ultimately show ?thesis by (auto simp: js_trim_eq_Nil list_all_iff)
qed

definition js_padStart :: "nat \<Rightarrow> cunit \<Rightarrow> jsstr \<Rightarrow> jsstr" where
  "js_padStart n c s = replicate (n - length s) c @ s"

section \<open>Thrown errors\<close>

text \<open>
  The errors the modelled code throws or catches. \<open>AdminError\<close> is the class of
  \<^verbatim>\<open>sdk/typescript/src/admin.ts\<close> (status, type, message); \<open>NextRedirect\<close> is what
  the framework's \<^verbatim>\<open>redirect(path)\<close> throws to leave the current handler;
  \<open>PlainError\<close> is \<^verbatim>\<open>new Error(message)\<close>; \<open>RangeError\<close>, \<open>TypeError\<close> and
  \<open>SyntaxError\<close> are the language's.
\<close>

datatype jserror =
    TypeError
  | SyntaxError
  | RangeError jsstr
  | PlainError jsstr
  | AdminError (err_status: nat) (err_type: jsstr) (err_message: jsstr)
  | NextRedirect jsstr

type_synonym 'a res = "jserror + 'a"

definition rbind :: "'a res \<Rightarrow> ('a \<Rightarrow> 'b res) \<Rightarrow> 'b res" where
  "rbind m f = (case m of Inl e \<Rightarrow> Inl e | Inr x \<Rightarrow> f x)"

lemma rbind_simps [simp, res_simps]:
  "rbind (Inl e) f = Inl e"
  "rbind (Inr x) f = f x"
  by (simp_all add: rbind_def)

lemma rbind_Inr_conv: "rbind m f = Inr y \<longleftrightarrow> (\<exists>x. m = Inr x \<and> f x = Inr y)"
  by (cases m) auto

lemma rbind_Inl_conv:
  "rbind m f = Inl e \<longleftrightarrow> m = Inl e \<or> (\<exists>x. m = Inr x \<and> f x = Inl e)"
  by (cases m) auto

lemma rbind_Inr_right: "rbind m Inr = m"
  by (cases m) simp_all

lemma rbind_cong [fundef_cong]:
  assumes "m = m'" and "\<And>x. m' = Inr x \<Longrightarrow> f x = f' x"
  shows "rbind m f = rbind m' f'"
  using assms by (cases m') auto

text \<open>\<^verbatim>\<open>xs.map(f)\<close> with a callback that may throw: left to right, stopping at the first error.\<close>

fun rmap :: "('a \<Rightarrow> 'b res) \<Rightarrow> 'a list \<Rightarrow> 'b list res" where
  "rmap f [] = Inr []"
| "rmap f (x # xs) = rbind (f x) (\<lambda>y. rbind (rmap f xs) (\<lambda>ys. Inr (y # ys)))"

lemma rmap_Inr_conv: "rmap f xs = Inr ys \<longleftrightarrow> list_all2 (\<lambda>x y. f x = Inr y) xs ys"
proof (induction xs arbitrary: ys)
  case Nil
  then show ?case by auto
next
  case (Cons x xs)
  then show ?case
    by (cases ys) (auto simp: rbind_Inr_conv)
qed

lemma rmap_Inl: "x \<in> set xs \<Longrightarrow> \<exists>e. f x = Inl e \<Longrightarrow> \<exists>e. rmap f xs = Inl e"
  by (induction xs) (auto simp: rbind_def split: sum.splits)

lemma rmap_total: "(\<And>x. x \<in> set xs \<Longrightarrow> f x = Inr (g x)) \<Longrightarrow> rmap f xs = Inr (map g xs)"
  by (induction xs) auto

text \<open>\<^verbatim>\<open>xs.filter(f)\<close> with a predicate that may throw.\<close>

fun rfilter :: "('a \<Rightarrow> bool res) \<Rightarrow> 'a list \<Rightarrow> 'a list res" where
  "rfilter f [] = Inr []"
| "rfilter f (x # xs) =
     rbind (f x) (\<lambda>b. rbind (rfilter f xs) (\<lambda>ys. Inr (if b then x # ys else ys)))"

lemma rfilter_total:
  "(\<And>x. x \<in> set xs \<Longrightarrow> f x = Inr (g x)) \<Longrightarrow> rfilter f xs = Inr (filter g xs)"
  by (induction xs) auto

end
