(* ===== verification/Js_Number.thy ===== *)
theory Js_Number
  imports Js_Prelude "HOL-Library.Log_Nat"
begin

text \<open>
  JavaScript numbers: IEEE-754 binary64 values. A finite value is the rational
  it denotes; every arithmetic operation computes the exact rational result and
  rounds it with \<open>round_double\<close> (round to nearest, ties to even, gradual
  underflow, overflow to an infinity). The sign of zero is not represented: no
  modelled operation observes it. Conversions between numbers and strings
  (\<^verbatim>\<open>Number(s)\<close>, \<^verbatim>\<open>String(n)\<close>, \<^verbatim>\<open>toFixed\<close>) follow the language's
  algorithms. The lemmas give exactness on safe integers and the half-ulp error
  bound that the money and formatting components rest on.
\<close>

datatype jsnum = NaN | PosInf | NegInf | Fin rat

section \<open>Rounding\<close>

definition round_half_even :: "rat \<Rightarrow> int" where
  "round_half_even x =
     (let f = \<lfloor>x\<rfloor>; d = x - of_int f
      in if d < 1 / 2 then f else if 1 / 2 < d then f + 1 else if even f then f else f + 1)"

text \<open>\<open>\<lfloor>log\<^sub>2 x\<rfloor>\<close> of a positive rational, from the bit lengths of its numerator and denominator.\<close>

definition ilog2 :: "rat \<Rightarrow> int" where
  "ilog2 x =
     (let (p, q) = quotient_of x; e = bitlen p - bitlen q
      in if 2 powi e \<le> x then e else e - 1)"

definition round_double :: "rat \<Rightarrow> jsnum" where
  "round_double x =
     (if x = 0 then Fin 0
      else
        let a = \<bar>x\<bar>;
            e = max (ilog2 a - 52) (- 1074);
            r = of_int (round_half_even (a / 2 powi e)) * 2 powi e
        in if 2 ^ 1024 \<le> r then (if 0 < x then PosInf else NegInf)
           else Fin (if 0 < x then r else - r))"

text \<open>The overflow test by bit length, which evaluates without the power.\<close>

lemma round_double_code [code]:
  "round_double x =
     (if x = 0 then Fin 0
      else
        let a = \<bar>x\<bar>;
            e = max (ilog2 a - 52) (- 1074);
            r = of_int (round_half_even (a / 2 powi e)) * 2 powi e
        in if 1024 < bitlen \<lfloor>r\<rfloor> then (if 0 < x then PosInf else NegInf)
           else Fin (if 0 < x then r else - r))"
proof -
  have pow: "(2::rat) ^ 1024 = of_int (2 ^ 1024)"
    by (simp only: of_int_power of_int_numeral)
  have "1024 < bitlen \<lfloor>r\<rfloor> \<longleftrightarrow> (2::rat) ^ 1024 \<le> r" for r :: rat
    unfolding pow le_floor_iff [symmetric]
    using bitlen_le_iff_power [of "\<lfloor>r\<rfloor>" 1024] by (auto simp del: power_numeral)
  then show ?thesis
    unfolding round_double_def by presburger
qed

lemma round_half_even_int [simp]: "round_half_even (of_int n) = n"
  by (simp add: round_half_even_def)

lemma round_half_even_err: "\<bar>of_int (round_half_even x) - x\<bar> \<le> 1 / 2"
proof -
  have "of_int \<lfloor>x\<rfloor> \<le> x" "x < of_int \<lfloor>x\<rfloor> + 1"
    by linarith+
  then show ?thesis
    by (auto simp: round_half_even_def Let_def abs_le_iff)
qed

lemma bitlen_powi:
  assumes "0 < n"
  shows "(2::rat) powi bitlen n \<le> 2 * of_int n" and "of_int n < (2::rat) powi bitlen n"
proof -
  have b: "0 < bitlen n"
    using assms bitlen_nonneg [of n] bitlen_eq_zero_iff [of n] by linarith
  have lo: "2 ^ nat (bitlen n - 1) \<le> n" and hi: "n < 2 ^ nat (bitlen n)"
    using bitlen_bounds [OF assms] by auto
  have "2 ^ nat (bitlen n) = 2 * (2::int) ^ nat (bitlen n - 1)"
    using b by (simp add: nat_diff_distrib flip: power_Suc)
  with lo have "2 ^ nat (bitlen n) \<le> 2 * n"
    by linarith
  then have "(of_int (2 ^ nat (bitlen n)) :: rat) \<le> of_int (2 * n)"
    by (simp only: of_int_le_iff)
  then show "(2::rat) powi bitlen n \<le> 2 * of_int n"
    using b by (simp add: power_int_def)
  from hi have "(of_int n :: rat) < of_int (2 ^ nat (bitlen n))"
    by (simp only: of_int_less_iff)
  then show "of_int n < (2::rat) powi bitlen n"
    using b by (simp add: power_int_def)
qed

lemma ilog2_bounds:
  assumes "0 < x"
  shows "2 powi (ilog2 x) \<le> x" and "x < 2 powi (ilog2 x + 1)"
proof -
  obtain p q where pq: "quotient_of x = (p, q)"
    by (cases "quotient_of x")
  have q: "0 < q"
    using quotient_of_denom_pos [OF pq] .
  have x: "x = of_int p / of_int q"
    using quotient_of_div [OF pq] .
  with assms q have p: "0 < p"
    by (simp add: zero_less_divide_iff)
  define e where "e = bitlen p - bitlen q"
  let ?A = "(2::rat) powi bitlen p" and ?B = "(2::rat) powi bitlen q"
  have e: "(2::rat) powi e = ?A / ?B"
    by (simp add: e_def power_int_diff)
  have pos: "0 < ?B" "0 < (of_int q :: rat)"
    using q by simp_all
  have "x < 2 * (?A / ?B)"
  proof -
    have "of_int p * ?B < ?A * ?B"
      using bitlen_powi(2) [OF p] pos by (intro mult_strict_right_mono)
    also have "\<dots> \<le> ?A * (2 * of_int q)"
      using bitlen_powi(1) [OF q] by (intro mult_left_mono) simp_all
    finally show ?thesis
      using pos by (simp add: x field_simps)
  qed
  then have up: "x < 2 powi (e + 1)"
    by (simp add: e power_int_add mult.commute)
  have "?A / ?B < 2 * x"
  proof -
    have "?A * of_int q \<le> 2 * of_int p * of_int q"
      using bitlen_powi(1) [OF p] pos by (intro mult_right_mono) simp_all
    also have "\<dots> < 2 * of_int p * ?B"
      using bitlen_powi(2) [OF q] p by (intro mult_strict_left_mono) simp_all
    finally show ?thesis
      using pos by (simp add: x field_simps)
  qed
  then have low: "2 powi (e - 1) \<le> x"
    by (simp add: e [symmetric] power_int_diff)
  have "ilog2 x = (if 2 powi e \<le> x then e else e - 1)"
    by (simp add: ilog2_def pq e_def)
  with up low show "2 powi (ilog2 x) \<le> x" and "x < 2 powi (ilog2 x + 1)"
    by (auto split: if_splits)
qed

lemma powi2_less_imp: "(2::rat) powi a < 2 powi b \<Longrightarrow> a < b"
  using power_int_increasing [of b a "2::rat"] by force

lemma ilog2_le: "0 < x \<Longrightarrow> x < 2 powi (k + 1) \<Longrightarrow> ilog2 x \<le> k"
  using ilog2_bounds(1) [of x] powi2_less_imp [of "ilog2 x" "k + 1"] by force

lemma ilog2_ge: "0 < x \<Longrightarrow> 2 powi k \<le> x \<Longrightarrow> k \<le> ilog2 x"
  using ilog2_bounds(2) [of x] powi2_less_imp [of k "ilog2 x + 1"] by force

section \<open>The error of one rounding\<close>

text \<open>The exponent of the unit in the last place that \<open>round_double\<close> uses.\<close>

definition ulp_exp :: "rat \<Rightarrow> int" where
  "ulp_exp x = max (ilog2 \<bar>x\<bar> - 52) (- 1074)"

text \<open>Below \<open>2 ^ (k + 1)\<close> the result is finite and within half a unit in the last place.\<close>

lemma round_double_err:
  assumes "\<bar>x\<bar> < 2 powi (k + 1)" and "- 1022 \<le> k" and "k \<le> 1022"
  shows "\<exists>r. round_double x = Fin r \<and> \<bar>r - x\<bar> \<le> 2 powi (k - 53)"
proof (cases "x = 0")
  case True
  then show ?thesis by (simp add: round_double_def)
next
  case False
  define a e where "a = \<bar>x\<bar>" and "e = ulp_exp x"
  define r :: rat where "r = of_int (round_half_even (a / 2 powi e)) * 2 powi e"
  have a: "0 < a" "a < 2 powi (k + 1)"
    using False assms(1) by (auto simp: a_def)
  then have "ilog2 a \<le> k"
    by (rule ilog2_le)
  then have ek: "e \<le> k - 52"
    using assms(2) by (auto simp: e_def ulp_exp_def a_def)
  have "\<bar>of_int (round_half_even (a / 2 powi e)) - a / 2 powi e\<bar> * 2 powi e \<le> 1 / 2 * 2 powi e"
    by (intro mult_right_mono round_half_even_err) simp
  also have "\<bar>of_int (round_half_even (a / 2 powi e)) - a / 2 powi e\<bar> * 2 powi e = \<bar>r - a\<bar>"
    by (simp add: r_def field_simps abs_mult flip: abs_mult_pos)
  also have "(1 / 2 * 2 powi e :: rat) = 2 powi (e - 1)"
    by (simp add: power_int_diff)
  also have "(2::rat) powi (e - 1) \<le> 2 powi (k - 53)"
    using ek by (intro power_int_increasing) simp_all
  finally have err: "\<bar>r - a\<bar> \<le> 2 powi (k - 53)" .
  have "(2::rat) powi (k - 53) \<le> 2 powi 1022"
    using assms(3) by (intro power_int_increasing) simp_all
  moreover have "(2::rat) powi (k + 1) \<le> 2 powi 1023"
    using assms(3) by (intro power_int_increasing) simp_all
  moreover have "(2::rat) powi 1023 + 2 powi 1022 < 2 ^ 1024"
    by (simp add: power_int_def)
  ultimately have "r < 2 ^ 1024"
    using err a(2) by linarith
  then have "round_double x = Fin (if 0 < x then r else - r)"
    using False by (simp add: round_double_def Let_def r_def a_def e_def ulp_exp_def)
  moreover have "\<bar>(if 0 < x then r else - r) - x\<bar> = \<bar>r - a\<bar>"
    by (auto simp: a_def)
  ultimately show ?thesis
    using err by auto
qed

text \<open>Integers of at most 53 bits are represented exactly.\<close>

definition safe :: "int \<Rightarrow> bool" where
  "safe n \<longleftrightarrow> \<bar>n\<bar> \<le> 2 ^ 53"

lemma round_double_exact:
  assumes "x \<noteq> 0" and m: "\<bar>x\<bar> = of_int m * 2 powi (ulp_exp x)" and small: "\<bar>x\<bar> < 2 ^ 1024"
  shows "round_double x = Fin x"
proof -
  have "\<bar>x\<bar> / 2 powi (ulp_exp x) = of_int m"
    unfolding m by simp
  then have "of_int (round_half_even (\<bar>x\<bar> / 2 powi (ulp_exp x))) * 2 powi (ulp_exp x) = \<bar>x\<bar>"
    by (simp only: round_half_even_int m)
  then have "round_double x =
      (if 2 ^ 1024 \<le> \<bar>x\<bar> then (if 0 < x then PosInf else NegInf)
       else Fin (if 0 < x then \<bar>x\<bar> else - \<bar>x\<bar>))"
    using assms(1) unfolding round_double_def Let_def ulp_exp_def by presburger
  also have "\<dots> = Fin (if 0 < x then \<bar>x\<bar> else - \<bar>x\<bar>)"
    using small unfolding not_le [symmetric] by presburger
  finally show ?thesis
    by (auto split: if_splits)
qed

lemma pow53_less_pow1024: "(2::rat) ^ 53 < 2 ^ 1024"
  by (intro power_strict_increasing) simp_all

lemma ulp_exp_int:
  assumes "0 < \<bar>n\<bar>" and "\<bar>n\<bar> < 2 ^ 53"
  obtains d where "ulp_exp (of_int n) = - int d"
proof -
  let ?a = "\<bar>of_int n :: rat\<bar>"
  have "?a = of_int \<bar>n\<bar>"
    by simp
  moreover have "(of_int \<bar>n\<bar> :: rat) < of_int (2 ^ 53)"
    using assms(2) by (simp only: of_int_less_iff)
  ultimately have "?a < 2 powi (52 + 1)"
    by (simp add: power_int_def)
  then have "ilog2 ?a \<le> 52"
    using assms by (intro ilog2_le) simp_all
  moreover have "1 \<le> ?a"
    using assms(1) by (metis \<open>\<bar>of_int n\<bar> = of_int \<bar>n\<bar>\<close> int_one_le_iff_zero_less of_int_1_le_iff)
  then have "0 \<le> ilog2 ?a"
    using assms by (intro ilog2_ge) simp_all
  ultimately have "ulp_exp (of_int n) = - int (nat (52 - ilog2 ?a))"
    by (simp add: ulp_exp_def)
  then show ?thesis
    by (rule that)
qed

lemma round_double_int [simp]:
  assumes "safe n"
  shows "round_double (of_int n) = Fin (of_int n)"
proof -
  consider "n = 0" | "n = 2 ^ 53" | "n = - (2 ^ 53)" | "0 < \<bar>n\<bar>" "\<bar>n\<bar> < 2 ^ 53"
    using assms unfolding safe_def by linarith
  then show ?thesis
  proof cases
    case 1
    then show ?thesis by (simp add: round_double_def)
  next
    case 2
    have "round_double 9007199254740992 = Fin 9007199254740992"
      by code_simp
    with 2 show ?thesis by simp
  next
    case 3
    have "round_double (- 9007199254740992) = Fin (- 9007199254740992)"
      by code_simp
    with 3 show ?thesis by simp
  next
    case 4
    obtain d where d: "ulp_exp (of_int n) = - int d"
      using ulp_exp_int [OF 4] .
    have abs: "\<bar>of_int n :: rat\<bar> = of_int (\<bar>n\<bar> * 2 ^ d) * 2 powi (- int d)"
      by (simp add: power_int_minus field_simps)
    have "(of_int \<bar>n\<bar> :: rat) < of_int (2 ^ 53)"
      using 4(2) by (simp only: of_int_less_iff)
    then have "\<bar>of_int n :: rat\<bar> < 2 ^ 53"
      by (simp only: of_int_abs of_int_power of_int_numeral)
    then have small: "\<bar>of_int n :: rat\<bar> < 2 ^ 1024"
      using pow53_less_pow1024 by (rule less_trans)
    show ?thesis
    proof (rule round_double_exact [OF _ _ small])
      show "(of_int n :: rat) \<noteq> 0"
        using 4(1) by simp
      show "\<bar>of_int n :: rat\<bar> = of_int (\<bar>n\<bar> * 2 ^ d) * 2 powi ulp_exp (of_int n)"
        unfolding d by (rule abs)
    qed
  qed
qed

section \<open>Arithmetic and comparison\<close>

fun num_neg :: "jsnum \<Rightarrow> jsnum" where
  "num_neg NaN = NaN"
| "num_neg PosInf = NegInf"
| "num_neg NegInf = PosInf"
| "num_neg (Fin x) = Fin (- x)"

fun num_abs :: "jsnum \<Rightarrow> jsnum" where
  "num_abs NaN = NaN"
| "num_abs PosInf = PosInf"
| "num_abs NegInf = PosInf"
| "num_abs (Fin x) = Fin \<bar>x\<bar>"

fun num_add :: "jsnum \<Rightarrow> jsnum \<Rightarrow> jsnum" where
  "num_add (Fin x) (Fin y) = round_double (x + y)"
| "num_add NaN b = NaN"
| "num_add a NaN = NaN"
| "num_add PosInf NegInf = NaN"
| "num_add NegInf PosInf = NaN"
| "num_add PosInf b = PosInf"
| "num_add NegInf b = NegInf"
| "num_add a PosInf = PosInf"
| "num_add a NegInf = NegInf"

definition num_sub :: "jsnum \<Rightarrow> jsnum \<Rightarrow> jsnum" where
  "num_sub a b = num_add a (num_neg b)"

fun num_sgn :: "jsnum \<Rightarrow> rat" where
  "num_sgn NaN = 0"
| "num_sgn PosInf = 1"
| "num_sgn NegInf = - 1"
| "num_sgn (Fin x) = sgn x"

fun num_mul :: "jsnum \<Rightarrow> jsnum \<Rightarrow> jsnum" where
  "num_mul (Fin x) (Fin y) = round_double (x * y)"
| "num_mul a b =
     (let s = num_sgn a * num_sgn b
      in if s = 0 then NaN else if 0 < s then PosInf else NegInf)"

text \<open>Division of two numbers; the sign of a zero divisor is that of a positive zero.\<close>

fun num_quot :: "jsnum \<Rightarrow> jsnum \<Rightarrow> jsnum" where
  "num_quot (Fin a) (Fin b) =
     (if b = 0 then (if a = 0 then NaN else if 0 < a then PosInf else NegInf) else round_double (a / b))"
| "num_quot (Fin a) PosInf = Fin 0"
| "num_quot (Fin a) NegInf = Fin 0"
| "num_quot PosInf (Fin b) = (if 0 \<le> b then PosInf else NegInf)"
| "num_quot NegInf (Fin b) = (if 0 \<le> b then NegInf else PosInf)"
| "num_quot a b = NaN"

text \<open>Division and \<^verbatim>\<open>%\<close> by a positive constant.\<close>

fun num_divc :: "jsnum \<Rightarrow> rat \<Rightarrow> jsnum" where
  "num_divc (Fin x) c = round_double (x / c)"
| "num_divc a c = a"

definition rat_trunc :: "rat \<Rightarrow> int" where
  "rat_trunc x = (if 0 \<le> x then \<lfloor>x\<rfloor> else \<lceil>x\<rceil>)"

fun num_modc :: "jsnum \<Rightarrow> rat \<Rightarrow> jsnum" where
  "num_modc (Fin x) c = Fin (x - c * of_int (rat_trunc (x / c)))"
| "num_modc a c = NaN"

fun num_floor :: "jsnum \<Rightarrow> jsnum" where
  "num_floor (Fin x) = Fin (of_int \<lfloor>x\<rfloor>)"
| "num_floor a = a"

fun num_ceil :: "jsnum \<Rightarrow> jsnum" where
  "num_ceil (Fin x) = Fin (of_int \<lceil>x\<rceil>)"
| "num_ceil a = a"

text \<open>\<^verbatim>\<open>Math.round\<close>: to the nearest integer, halves towards positive infinity.\<close>

fun num_round :: "jsnum \<Rightarrow> jsnum" where
  "num_round (Fin x) = Fin (of_int \<lfloor>x + 1 / 2\<rfloor>)"
| "num_round a = a"

fun num_lt :: "jsnum \<Rightarrow> jsnum \<Rightarrow> bool" where
  "num_lt (Fin x) (Fin y) = (x < y)"
| "num_lt NegInf (Fin y) = True"
| "num_lt NegInf PosInf = True"
| "num_lt (Fin x) PosInf = True"
| "num_lt a b = False"

fun num_le :: "jsnum \<Rightarrow> jsnum \<Rightarrow> bool" where
  "num_le NaN b = False"
| "num_le a NaN = False"
| "num_le a b = (a = b \<or> num_lt a b)"

fun num_truthy :: "jsnum \<Rightarrow> bool" where
  "num_truthy NaN = False"
| "num_truthy (Fin x) = (x \<noteq> 0)"
| "num_truthy a = True"

definition num_min :: "jsnum \<Rightarrow> jsnum \<Rightarrow> jsnum" where
  "num_min a b = (if a = NaN \<or> b = NaN then NaN else if num_lt a b then a else b)"

definition num_max :: "jsnum \<Rightarrow> jsnum \<Rightarrow> jsnum" where
  "num_max a b = (if a = NaN \<or> b = NaN then NaN else if num_lt b a then a else b)"

fun num_isFinite :: "jsnum \<Rightarrow> bool" where
  "num_isFinite (Fin x) = True"
| "num_isFinite a = False"

text \<open>\<^verbatim>\<open>Number.isSafeInteger\<close>.\<close>

fun num_isSafeInteger :: "jsnum \<Rightarrow> bool" where
  "num_isSafeInteger (Fin x) = (of_int \<lfloor>x\<rfloor> = x \<and> \<bar>x\<bar> \<le> 9007199254740991)"
| "num_isSafeInteger a = False"

abbreviation num_int :: "int \<Rightarrow> jsnum" where
  "num_int n \<equiv> Fin (of_int n)"

lemma num_add_int [simp]: "safe (a + b) \<Longrightarrow> num_add (num_int a) (num_int b) = num_int (a + b)"
  using round_double_int [of "a + b"] by simp

lemma num_mul_int [simp]: "safe (a * b) \<Longrightarrow> num_mul (num_int a) (num_int b) = num_int (a * b)"
  using round_double_int [of "a * b"] by simp

lemma num_min_int: "num_min (num_int a) (num_int b) = num_int (min a b)"
  by (simp add: num_min_def min_def)

lemma num_max_int: "num_max (num_int a) (num_int b) = num_int (max a b)"
  by (simp add: num_max_def max_def)

lemma num_round_int: "num_round (num_int n) = num_int n"
proof -
  have "\<lfloor>of_int n + 1 / 2 :: rat\<rfloor> = n" by (rule floor_unique) simp_all
  then show ?thesis by simp
qed

lemma num_modc_int:
  assumes "0 \<le> a" and "0 < c"
  shows "num_modc (num_int a) (of_int c) = num_int (a mod c)"
proof -
  have "\<lfloor>(of_int a :: rat) / of_int c\<rfloor> = a div c"
    by (rule floor_divide_of_int_eq)
  moreover have "0 \<le> (of_int a :: rat) / of_int c"
    using assms by simp
  ultimately have "rat_trunc (of_int a / of_int c) = a div c"
    by (simp only: rat_trunc_def if_True)
  moreover have "(of_int a :: rat) - of_int c * of_int (a div c) = of_int (a mod c)"
    unfolding of_int_mult [symmetric] of_int_diff [symmetric] of_int_eq_iff
    by (simp add: minus_mult_div_eq_mod)
  ultimately show ?thesis
    by simp
qed

text \<open>
  The floor of a rounded quotient is the integer quotient, as long as half a
  unit in the last place stays below the distance \<open>1 / c\<close> of a non-integer
  quotient to the next integer: \<open>c \<le> 10 ^ 6\<close> and a safe dividend are enough.
\<close>

lemma floor_divc_int:
  assumes "0 \<le> a" and "a \<le> 2 ^ 53" and "c = 1000000"
  shows "num_floor (num_divc (num_int a) (of_int c)) = num_int (a div c)"
proof (cases "a mod c = 0")
  case True
  then have eq: "(of_int a :: rat) / of_int c = of_int (a div c)"
    using assms(3) by (auto simp: field_simps)
  have "safe (a div c)"
    using assms by (auto simp: safe_def)
  then show ?thesis
    by (simp only: num_divc.simps eq round_double_int num_floor.simps floor_of_int)
next
  case False
  let ?x = "(of_int a :: rat) / of_int c" and ?q = "of_int (a div c) :: rat"
  let ?r = "of_int (a mod c) :: rat"
  have "(of_int a :: rat) = of_int (c * (a div c) + a mod c)"
    by (simp only: mult_div_mod_eq)
  then have "(of_int a :: rat) = 1000000 * ?q + ?r"
    by (simp only: of_int_add of_int_mult assms(3) of_int_numeral)
  then have x: "?x = ?q + ?r / 1000000"
    by (simp add: assms(3) add_divide_distrib)
  have "1 \<le> a mod c" and "a mod c \<le> 999999"
    using False assms(3) pos_mod_bound [of c a] pos_mod_sign [of c a] by simp_all
  then have "of_int 1 \<le> ?r" and "?r \<le> of_int 999999"
    by (simp_all only: of_int_le_iff)
  then have r: "1 \<le> ?r" "?r \<le> 999999"
    by simp_all
  have "(of_int a :: rat) \<le> of_int (2 ^ 53)"
    using assms(2) by (simp only: of_int_le_iff)
  then have "\<bar>?x\<bar> < 2 powi (33 + 1)"
    using assms by (simp add: power_int_def)
  from round_double_err [OF this] obtain d
    where d: "round_double ?x = Fin d" and err: "\<bar>d - ?x\<bar> \<le> 2 powi (33 - 53)"
    by auto
  have "(2::rat) powi (33 - 53) < 1 / 1000000"
    by (simp add: power_int_def power_one_over field_simps)
  with err have "\<bar>d - ?x\<bar> < 1 / 1000000"
    by linarith
  with x r have "?q < d" and "d < ?q + 1"
    by linarith+
  then have "\<lfloor>d\<rfloor> = a div c"
    by (simp add: floor_unique)
  with d show ?thesis
    by simp
qed

section \<open>Decimal digits\<close>

definition is_digit :: "cunit \<Rightarrow> bool" where
  "is_digit c \<longleftrightarrow> 48 \<le> c \<and> c \<le> 57"

definition digit_val :: "cunit \<Rightarrow> nat" where
  "digit_val c = unat c - 48"

definition digit_chr :: "nat \<Rightarrow> cunit" where
  "digit_chr d = of_nat (48 + d)"

definition dec_val :: "jsstr \<Rightarrow> nat" where
  "dec_val s = foldl (\<lambda>a c. 10 * a + digit_val c) 0 s"

fun digits10 :: "nat \<Rightarrow> jsstr" where
  "digits10 n = (if n < 10 then [digit_chr n] else digits10 (n div 10) @ [digit_chr (n mod 10)])"

declare digits10.simps [simp del]

lemma unat_digit_chr: "d < 10 \<Longrightarrow> unat (digit_chr d) = 48 + d"
  unfolding digit_chr_def by (simp only: unat_of_nat) simp

lemma digit_val_chr [simp]: "d < 10 \<Longrightarrow> digit_val (digit_chr d) = d"
  by (simp add: digit_val_def unat_digit_chr)

lemma is_digit_chr [simp]: "d < 10 \<Longrightarrow> is_digit (digit_chr d)"
  by (simp add: is_digit_def word_le_nat_alt unat_digit_chr)

lemma is_digit_cases:
  assumes "is_digit c"
  obtains d where "d < 10" and "c = digit_chr d"
proof
  have bounds: "48 \<le> unat c" "unat c \<le> 57"
    using assms by (simp_all add: is_digit_def word_le_nat_alt)
  then show "unat c - 48 < 10" by simp
  show "c = digit_chr (unat c - 48)"
    using bounds by (simp add: digit_chr_def)
qed

lemma dec_val_Nil [simp]: "dec_val [] = 0"
  by (simp add: dec_val_def)

lemma dec_val_snoc [simp]: "dec_val (s @ [c]) = 10 * dec_val s + digit_val c"
  by (simp add: dec_val_def)

lemma dec_val_append: "dec_val (s @ t) = dec_val s * 10 ^ length t + dec_val t"
proof (induction t rule: rev_induct)
  case Nil
  then show ?case by simp
next
  case (snoc c t)
  then have "dec_val ((s @ t) @ [c]) = 10 * (dec_val s * 10 ^ length t + dec_val t) + digit_val c"
    by (simp only: dec_val_snoc)
  then show ?case by (simp add: algebra_simps)
qed

lemma digits10_is_digit: "c \<in> set (digits10 n) \<Longrightarrow> is_digit c"
proof (induction n rule: digits10.induct)
  case (1 n)
  then show ?case
    by (subst (asm) (2) digits10.simps) (auto split: if_splits)
qed

lemma digits10_ne [simp]: "digits10 n \<noteq> []"
  by (subst digits10.simps) simp

lemma dec_val_digits10 [simp]: "dec_val (digits10 n) = n"
proof (induction n rule: digits10.induct)
  case (1 n)
  show ?case
  proof (cases "n < 10")
    case True
    then show ?thesis
      by (subst digits10.simps) (simp add: dec_val_def)
  next
    case False
    then show ?thesis
      by (subst digits10.simps) (simp add: "1.IH")
  qed
qed

lemma digits10_inject [simp]: "digits10 a = digits10 b \<longleftrightarrow> a = b"
  by (metis dec_val_digits10)

lemma digits10_lt10: "n < 10 \<Longrightarrow> digits10 n = [digit_chr n]"
  by (subst digits10.simps) simp

lemma digits10_lt100: "10 \<le> n \<Longrightarrow> n < 100 \<Longrightarrow> digits10 n = [digit_chr (n div 10), digit_chr (n mod 10)]"
  by (subst digits10.simps) (simp add: digits10_lt10)

section \<open>Numbers to strings\<close>

text \<open>\<open>lead0 fuel x\<close>: the number of zeros after the decimal point of \<open>x < 1\<close>. The smallest
  positive double has 323 of them, so a fuel of 400 is never exhausted.\<close>

fun lead0 :: "nat \<Rightarrow> rat \<Rightarrow> nat" where
  "lead0 0 x = 0"
| "lead0 (Suc f) x = (if 1 \<le> 10 * x then 0 else Suc (lead0 f (10 * x)))"

text \<open>The exponent \<open>n\<close> with \<open>10 ^ (n - 1) \<le> x < 10 ^ n\<close>.\<close>

definition dec_exp :: "rat \<Rightarrow> int" where
  "dec_exp x = (if 1 \<le> x then int (length (digits10 (nat \<lfloor>x\<rfloor>))) else - int (lead0 400 x))"

text \<open>The shortest significand whose decimal value rounds to \<open>x\<close>: \<open>k\<close> digits are tried for
  \<open>k = 1, 2, \<dots>\<close>; 17 digits always identify a double, so the fuel 17 is enough.\<close>

fun shortest :: "nat \<Rightarrow> nat \<Rightarrow> rat \<Rightarrow> int \<Rightarrow> nat \<times> int" where
  "shortest 0 k x n = (nat \<lfloor>x / 10 powi (n - int k)\<rfloor>, n - int k)"
| "shortest (Suc f) k x n =
     (let e = n - int k; p = 10 powi e; s = \<lfloor>x / p\<rfloor>;
          lo = (round_double (of_int s * p) = Fin x);
          hi = (round_double (of_int (s + 1) * p) = Fin x)
      in if lo \<and> (\<not> hi \<or> x - of_int s * p \<le> of_int (s + 1) * p - x) then (nat s, e)
         else if hi then (nat (s + 1), e)
         else shortest f (Suc k) x n)"

definition strip0 :: "jsstr \<Rightarrow> jsstr" where
  "strip0 s = rev (dropWhile (\<lambda>c. c = 48) (rev s))"

definition general_repr :: "rat \<Rightarrow> jsstr" where
  "general_repr x =
     (let (s, e) = shortest 17 1 x (dec_exp x);
          all = digits10 s; n = int (length all) + e; ds = strip0 all; k = int (length ds);
          ex = (\<lambda>m. js ''e'' @ js (if 0 \<le> m then ''+'' else ''-'') @ digits10 (nat \<bar>m\<bar>))
      in if k \<le> n \<and> n \<le> 21 then ds @ replicate (nat (n - k)) 48
         else if 0 < n \<and> n \<le> 21 then take (nat n) ds @ js ''.'' @ drop (nat n) ds
         else if - 6 < n \<and> n \<le> 0 then js ''0.'' @ replicate (nat (- n)) 48 @ ds
         else if k = 1 then ds @ ex (n - 1)
         else take 1 ds @ js ''.'' @ drop 1 ds @ ex (n - 1))"

definition pos_repr :: "rat \<Rightarrow> jsstr" where
  "pos_repr x =
     (if x = of_int \<lfloor>x\<rfloor> \<and> x \<le> 2 ^ 53 then digits10 (nat \<lfloor>x\<rfloor>) else general_repr x)"

text \<open>\<^verbatim>\<open>String(n)\<close>.\<close>

fun num_repr :: "jsnum \<Rightarrow> jsstr" where
  "num_repr NaN = js ''NaN''"
| "num_repr PosInf = js ''Infinity''"
| "num_repr NegInf = js ''-Infinity''"
| "num_repr (Fin x) = (if x < 0 then js ''-'' @ pos_repr (- x) else pos_repr x)"

lemma pos_repr_nat: "int n \<le> 2 ^ 53 \<Longrightarrow> pos_repr (of_nat n) = digits10 n"
proof -
  assume "int n \<le> 2 ^ 53"
  then have "(of_int (int n) :: rat) \<le> of_int (2 ^ 53)"
    by (simp only: of_int_le_iff)
  then show ?thesis
    by (simp add: pos_repr_def)
qed

lemma pos_repr_int: "0 \<le> n \<Longrightarrow> n \<le> 2 ^ 53 \<Longrightarrow> pos_repr (of_int n) = digits10 (nat n)"
  using pos_repr_nat [of "nat n"] by simp

lemma num_repr_int: "0 \<le> n \<Longrightarrow> n \<le> 2 ^ 53 \<Longrightarrow> num_repr (num_int n) = digits10 (nat n)"
  using pos_repr_nat [of "nat n"] by simp

text \<open>\<^verbatim>\<open>x.toFixed(f)\<close>: the integer nearest to \<open>x * 10 ^ f\<close>, the larger one of a tie.\<close>

definition fixed_pos :: "nat \<Rightarrow> rat \<Rightarrow> jsstr" where
  "fixed_pos f x =
     (let n = nat \<lfloor>x * 10 ^ f + 1 / 2\<rfloor>;
          ds = js_padStart (Suc f) 48 (digits10 n);
          k = length ds - f
      in if f = 0 then digits10 n else take k ds @ js ''.'' @ drop k ds)"

fun num_toFixed :: "nat \<Rightarrow> jsnum \<Rightarrow> jsstr" where
  "num_toFixed f (Fin x) =
     (if 10 ^ 21 \<le> \<bar>x\<bar> then num_repr (Fin x)
      else if x < 0 then js ''-'' @ fixed_pos f (- x) else fixed_pos f x)"
| "num_toFixed f a = num_repr a"

section \<open>Strings to numbers\<close>

text \<open>An unsigned decimal literal: digits with an optional fraction and exponent; at least
  one digit, and the whole string is consumed.\<close>

definition parse_exp :: "jsstr \<Rightarrow> int option" where
  "parse_exp s =
     (case s of [] \<Rightarrow> Some 0
      | c # r \<Rightarrow>
          if c = 0x65 \<or> c = 0x45 then
            let (neg, ds) = (case r of [] \<Rightarrow> (False, [])
                             | d # ds \<Rightarrow> if d = 0x2D then (True, ds)
                                         else if d = 0x2B then (False, ds) else (False, r))
            in if ds \<noteq> [] \<and> list_all is_digit ds
               then Some (if neg then - int (dec_val ds) else int (dec_val ds)) else None
          else None)"

definition parse_decimal :: "jsstr \<Rightarrow> rat option" where
  "parse_decimal s =
     (let ip = takeWhile is_digit s; r1 = dropWhile is_digit s;
          (fp, r2) = (case r1 of [] \<Rightarrow> ([], [])
                      | c # r \<Rightarrow> if c = 0x2E then (takeWhile is_digit r, dropWhile is_digit r)
                                 else ([], r1))
      in if ip = [] \<and> fp = [] then None
         else map_option (\<lambda>e. of_nat (dec_val (ip @ fp)) * 10 powi (e - int (length fp)))
                (parse_exp r2))"

definition radix_val :: "cunit \<Rightarrow> nat option" where
  "radix_val c =
     (let n = unat c in
      if 48 \<le> n \<and> n \<le> 57 then Some (n - 48)
      else if 97 \<le> n \<and> n \<le> 102 then Some (n - 87)
      else if 65 \<le> n \<and> n \<le> 70 then Some (n - 55) else None)"

fun parse_radix :: "nat \<Rightarrow> nat \<Rightarrow> jsstr \<Rightarrow> nat option" where
  "parse_radix b a [] = Some a"
| "parse_radix b a (c # cs) =
     (case radix_val c of None \<Rightarrow> None
      | Some d \<Rightarrow> if d < b then parse_radix b (b * a + d) cs else None)"

definition radix_prefix :: "jsstr \<Rightarrow> nat option" where
  "radix_prefix s =
     (if js_startsWith s (js ''0x'') \<or> js_startsWith s (js ''0X'') then Some 16
      else if js_startsWith s (js ''0o'') \<or> js_startsWith s (js ''0O'') then Some 8
      else if js_startsWith s (js ''0b'') \<or> js_startsWith s (js ''0B'') then Some 2
      else None)"

text \<open>\<^verbatim>\<open>Number(s)\<close> on a string.\<close>

definition js_Number :: "jsstr \<Rightarrow> jsnum" where
  "js_Number s =
     (let t = js_trim s in
      if t = [] then Fin 0
      else case radix_prefix t of
        Some b \<Rightarrow>
          (if drop 2 t = [] then NaN
           else case parse_radix b 0 (drop 2 t) of
             None \<Rightarrow> NaN | Some n \<Rightarrow> round_double (of_nat n))
      | None \<Rightarrow>
          (let neg = js_startsWith t (js ''-'');
               u = (if neg \<or> js_startsWith t (js ''+'') then drop 1 t else t)
           in if u = js ''Infinity'' then (if neg then NegInf else PosInf)
              else case parse_decimal u of None \<Rightarrow> NaN
                   | Some x \<Rightarrow> round_double (if neg then - x else x)))"

text \<open>On a plain digit string \<^verbatim>\<open>Number\<close> is the rounded decimal value.\<close>

lemma is_digit_not_ws: "is_digit c \<Longrightarrow> \<not> js_ws c"
  by (auto simp: js_ws_def is_digit_def)

lemma js_trim_digits: "list_all is_digit s \<Longrightarrow> js_trim s = s"
  by (rule js_trim_id) (auto simp: list_all_iff is_digit_not_ws)

lemma js_Number_digits:
  assumes "list_all is_digit s" and "s \<noteq> []"
  shows "js_Number s = round_double (of_nat (dec_val s))"
proof -
  have all: "\<And>c. c \<in> set s \<Longrightarrow> is_digit c"
    using assms(1) by (simp add: list_all_iff)
  have first: "hd s \<noteq> c" if "\<not> is_digit c" for c
    using all assms(2) that by (metis hd_in_set)
  have second: "s ! 1 \<noteq> c" if "\<not> is_digit c" "1 < length s" for c
    using all that by (metis nth_mem)
  have "radix_prefix s = None"
    using second [where c = "0x78"] second [where c = "0x58"] second [where c = "0x6F"]
      second [where c = "0x4F"] second [where c = "0x62"] second [where c = "0x42"]
    by (cases s rule: remdups_adj.cases)
      (simp_all add: radix_prefix_def js_def is_digit_def)
  note radix = this
  have head: "\<not> js_startsWith s (js ''-'')" "\<not> js_startsWith s (js ''+'')" "s \<noteq> js ''Infinity''"
    using first [where c = "0x2D"] first [where c = "0x2B"] first [where c = "0x49"] assms(2)
    by (cases s; simp add: js_def is_digit_def)+
  have tw: "takeWhile is_digit s = s" "dropWhile is_digit s = []"
    using all by (auto simp: takeWhile_eq_all_conv dropWhile_eq_Nil_conv)
  have "parse_decimal s = Some (of_nat (dec_val s))"
    unfolding parse_decimal_def tw Let_def using assms(2) by (simp add: parse_exp_def)
  then show ?thesis
    using assms radix head by (simp add: js_Number_def js_trim_digits Let_def)
qed

text \<open>A non-negative integer as text and back.\<close>

lemma number_text_roundtrip:
  assumes "0 \<le> k" "k \<le> 2 ^ 53"
  shows "num_repr (num_int k) \<noteq> []" "js_trim (num_repr (num_int k)) = num_repr (num_int k)"
    "js_Number (num_repr (num_int k)) = num_int k"
proof -
  have digits: "list_all is_digit (digits10 (nat k))" by (simp add: list_all_iff digits10_is_digit)
  have repr: "num_repr (num_int k) = digits10 (nat k)" using assms by (rule num_repr_int)
  show "num_repr (num_int k) \<noteq> []" "js_trim (num_repr (num_int k)) = num_repr (num_int k)"
    unfolding repr using digits by (simp_all add: js_trim_digits)
  have "safe k" using assms by (simp add: safe_def)
  have "of_nat (nat k) = (of_int k :: rat)" using assms by simp
  then show "js_Number (num_repr (num_int k)) = num_int k"
    unfolding repr using js_Number_digits [OF digits] round_double_int [OF \<open>safe k\<close>] by simp
qed

section \<open>Percentages\<close>

lemma near_bounds:
  fixes x y e :: rat
  assumes "\<bar>y - x\<bar> \<le> e"
  shows "x - e \<le> y" "y \<le> x + e"
  using assms unfolding abs_le_iff by linarith+

lemma round_near:
  fixes x y :: rat
  assumes "0 \<le> x" "x \<le> 100" "\<bar>y - x\<bar> \<le> 1 / 10 ^ 6"
  shows "0 \<le> \<lfloor>y + 1 / 2\<rfloor> \<and> \<lfloor>y + 1 / 2\<rfloor> \<le> 100 \<and> \<bar>of_int \<lfloor>y + 1 / 2\<rfloor> - x\<bar> \<le> 1 / 2 + 1 / 10 ^ 6"
proof (intro conjI)
  have y: "x - 1 / 10 ^ 6 \<le> y" "y \<le> x + 1 / 10 ^ 6" using near_bounds [OF assms(3)] .
  show "0 \<le> \<lfloor>y + 1 / 2\<rfloor>" using y assms(1) by (simp add: le_floor_iff)
  have "\<lfloor>y + 1 / 2\<rfloor> < 101" using y assms(2) by (simp add: floor_less_iff)
  then show "\<lfloor>y + 1 / 2\<rfloor> \<le> 100" by simp
  have "of_int \<lfloor>y + 1 / 2\<rfloor> \<le> y + 1 / 2" "y + 1 / 2 < of_int \<lfloor>y + 1 / 2\<rfloor> + 1"
    using floor_correct [of "y + 1 / 2"] by simp_all
  then show "\<bar>of_int \<lfloor>y + 1 / 2\<rfloor> - x\<bar> \<le> 1 / 2 + 1 / 10 ^ 6" using y unfolding abs_le_iff by linarith
qed

text \<open>\<^verbatim>\<open>(part / whole) * 100\<close> is within a millionth of the percentage, although both operations round.\<close>

lemma percent_near:
  assumes "0 \<le> s" and "s \<le> a" and "0 < a"
  shows "\<exists>y. num_mul (num_quot (num_int s) (num_int a)) (Fin 100) = Fin y \<and>
    \<bar>y - 100 * (of_int s / of_int a)\<bar> \<le> (1 / 10 ^ 6 :: rat)"
proof -
  let ?x = "(of_int s :: rat) / of_int a"
  have a: "0 < (of_int a :: rat)" "(of_int s :: rat) \<le> of_int a" "0 \<le> (of_int s :: rat)" using assms by simp_all
  then have x: "0 \<le> ?x" "?x \<le> 1" by (simp_all add: pos_divide_le_eq)
  then have "\<bar>?x\<bar> < 2 powi (0 + 1)" by simp
  from round_double_err [OF this] obtain q where q: "round_double ?x = Fin q" "\<bar>q - ?x\<bar> \<le> 2 powi (0 - 53)" by auto
  have "(2::rat) powi (0 - 53) \<le> 1 / 10 ^ 9" by (simp add: power_int_def power_one_over)
  with q(2) have qe: "\<bar>q - ?x\<bar> \<le> 1 / 10 ^ 9" by (rule order_trans)
  note qx = near_bounds [OF qe]
  have "\<bar>q * 100\<bar> < 2 powi (6 + 1)" using qx x by (simp add: power_int_def abs_less_iff)
  from round_double_err [OF this] obtain y where y: "round_double (q * 100) = Fin y" "\<bar>y - q * 100\<bar> \<le> 2 powi (6 - 53)" by auto
  have "(2::rat) powi (6 - 53) \<le> 1 / 10 ^ 9" by (simp add: power_int_def power_one_over)
  with y(2) have ye: "\<bar>y - q * 100\<bar> \<le> 1 / 10 ^ 9" by (rule order_trans)
  have "\<bar>y - 100 * ?x\<bar> \<le> 1 / 10 ^ 9 + 100 * (1 / 10 ^ 9)"
    using near_bounds [OF ye] qx unfolding abs_le_iff by linarith
  also have "\<dots> \<le> 1 / 10 ^ 6" by simp
  finally have "\<bar>y - 100 * ?x\<bar> \<le> 1 / 10 ^ 6" .
  moreover have "num_mul (num_quot (num_int s) (num_int a)) (Fin 100) = Fin y"
    using assms(3) q(1) y(1) by simp
  ultimately show ?thesis by blast
qed

text \<open>\<^verbatim>\<open>Math.round((part / whole) * 100)\<close> is a whole number from 0 to 100, the percentage rounded to the nearest one
  up to a millionth at a tie.\<close>

lemma percent_round:
  assumes "0 \<le> s" and "s \<le> a" and "0 < a"
  shows "\<exists>r. num_round (num_mul (num_quot (num_int s) (num_int a)) (Fin 100)) = num_int r \<and> 0 \<le> r \<and> r \<le> 100 \<and>
    \<bar>of_int r - 100 * of_int s / of_int a\<bar> \<le> (1 / 2 + 1 / 10 ^ 6 :: rat)"
proof -
  let ?x = "(of_int s :: rat) / of_int a"
  obtain y where y: "num_mul (num_quot (num_int s) (num_int a)) (Fin 100) = Fin y" "\<bar>y - 100 * ?x\<bar> \<le> 1 / 10 ^ 6"
    using percent_near [OF assms] by blast
  have "0 \<le> 100 * ?x" "100 * ?x \<le> 100" using assms by (simp_all add: pos_divide_le_eq)
  from round_near [OF this y(2)] have
    r: "0 \<le> \<lfloor>y + 1 / 2\<rfloor> \<and> \<lfloor>y + 1 / 2\<rfloor> \<le> 100 \<and> \<bar>of_int \<lfloor>y + 1 / 2\<rfloor> - 100 * ?x\<bar> \<le> 1 / 2 + 1 / 10 ^ 6" by simp
  have "num_round (num_mul (num_quot (num_int s) (num_int a)) (Fin 100)) = num_int \<lfloor>y + 1 / 2\<rfloor>"
    unfolding y(1) by simp
  with r show ?thesis by auto
qed

text \<open>\<^verbatim>\<open>Math.round(x / 1e6 * rate)\<close> is within three quarters of the exact product, in the range the bounds give.\<close>

lemma scaled_round:
  assumes "0 \<le> t" and "t \<le> 2 ^ 40" and "0 \<le> p" and "p \<le> 2 ^ 30"
  shows "\<exists>c. num_round (num_mul (num_divc (num_int t) 1000000) (num_int p)) = num_int c \<and>
    \<bar>of_int c - of_int t * of_int p / 10 ^ 6\<bar> \<le> (3 / 4 :: rat) \<and> 0 \<le> c \<and> c \<le> 2 ^ 51"
proof -
  let ?x = "(of_int t :: rat) / 1000000"
  have t: "0 \<le> (of_int t :: rat)" "(of_int t :: rat) \<le> 2 ^ 40" using assms(1,2) by simp_all
  have p: "0 \<le> (of_int p :: rat)" "(of_int p :: rat) \<le> 2 ^ 30" using assms(3,4) by simp_all
  have x: "0 \<le> ?x" "?x \<le> 1100000" using t by simp_all
  then have "\<bar>?x\<bar> < 2 powi (20 + 1)" by (simp add: power_int_def)
  from round_double_err [OF this] obtain q where q: "round_double ?x = Fin q" "\<bar>q - ?x\<bar> \<le> 2 powi (20 - 53)" by auto
  have qe: "\<bar>q - ?x\<bar> \<le> 1 / 2 ^ 33" using q(2) by (simp add: power_int_def power_one_over)
  have "\<bar>q * of_int p - ?x * of_int p\<bar> = \<bar>q - ?x\<bar> * of_int p" using p(1) by (metis abs_mult abs_of_nonneg left_diff_distrib)
  also have "\<dots> \<le> 1 / 2 ^ 33 * 2 ^ 30" using qe p by (intro mult_mono) simp_all
  finally have qp: "\<bar>q * of_int p - ?x * of_int p\<bar> \<le> 1 / 8" by simp
  have xp0: "0 \<le> ?x * of_int p" using x p by simp
  have xp: "?x * of_int p \<le> 1100000 * 2 ^ 30" using x p by (intro mult_mono) simp_all
  have "\<bar>q * of_int p\<bar> < 2 powi (50 + 1)" using near_bounds [OF qp] xp0 xp unfolding abs_less_iff by (simp add: power_int_def)
  from round_double_err [OF this] obtain y where y: "round_double (q * of_int p) = Fin y" "\<bar>y - q * of_int p\<bar> \<le> 2 powi (50 - 53)" by auto
  have ye: "\<bar>y - q * of_int p\<bar> \<le> 1 / 8" using y(2) by (simp add: power_int_def power_one_over)
  let ?c = "\<lfloor>y + 1 / 2\<rfloor>"
  have fl: "of_int ?c \<le> y + 1 / 2" "y + 1 / 2 < of_int ?c + 1" using floor_correct [of "y + 1 / 2"] by simp_all
  have yx: "?x * of_int p - 1 / 4 \<le> y" "y \<le> ?x * of_int p + 1 / 4" using near_bounds [OF ye] near_bounds [OF qp] by linarith+
  have "num_round (num_mul (num_divc (num_int t) 1000000) (num_int p)) = num_int ?c" using q(1) y(1) by simp
  moreover have "\<bar>of_int ?c - of_int t * of_int p / 10 ^ 6\<bar> \<le> (3 / 4 :: rat)"
  proof -
    have "of_int t * of_int p / 10 ^ 6 = ?x * of_int p" by simp
    then show ?thesis using fl yx unfolding abs_le_iff by linarith
  qed
  moreover have "0 \<le> ?c" using yx xp0 by (simp add: le_floor_iff)
  moreover have "?c \<le> 2 ^ 51" using yx xp by (simp add: floor_le_iff)
  ultimately show ?thesis by blast
qed

end
