(* ===== verification/Js_Json.thy ===== *)
theory Js_Json
  imports Js_Number
begin

text \<open>
  JSON values as JavaScript sees them, and the parts of the language that read
  and write them: property access, truthiness, \<^verbatim>\<open>String(v)\<close>,
  \<^verbatim>\<open>JSON.stringify\<close> (compact and indented) and \<^verbatim>\<open>JSON.parse\<close>. An object is the
  list of its own properties in enumeration order (integer-like keys ascending,
  then insertion order). The parser is a lexer followed by a push-down automaton
  that consumes one token per step, so it is total without fuel.
\<close>

datatype json =
    JNull
  | JBool bool
  | JNum jsnum
  | JStr jsstr
  | JArr "json list"
  | JObj "(jsstr \<times> json) list"

type_synonym fields = "(jsstr \<times> json) list"

text \<open>A JavaScript value of type \<^verbatim>\<open>unknown\<close>: \<open>None\<close> is \<^verbatim>\<open>undefined\<close>.\<close>

type_synonym jsval = "json option"

section \<open>Reading values\<close>

text \<open>\<^verbatim>\<open>v.k\<close>: reading a property of \<^verbatim>\<open>undefined\<close> or \<^verbatim>\<open>null\<close> throws.\<close>

fun get_prop :: "jsval \<Rightarrow> jsstr \<Rightarrow> jsval res" where
  "get_prop None k = Inl TypeError"
| "get_prop (Some JNull) k = Inl TypeError"
| "get_prop (Some (JObj kvs)) k = Inr (map_of kvs k)"
| "get_prop (Some v) k = Inr None"

text \<open>\<^verbatim>\<open>v?.k\<close>\<close>

fun opt_prop :: "jsval \<Rightarrow> jsstr \<Rightarrow> jsval" where
  "opt_prop (Some (JObj kvs)) k = map_of kvs k"
| "opt_prop v k = None"

text \<open>\<^verbatim>\<open>v == null\<close> and \<^verbatim>\<open>a ?? b\<close>\<close>

fun is_nullish :: "jsval \<Rightarrow> bool" where
  "is_nullish None = True"
| "is_nullish (Some JNull) = True"
| "is_nullish v = False"

definition coalesce :: "jsval \<Rightarrow> json \<Rightarrow> json" where
  "coalesce v d = (if is_nullish v then d else the v)"

fun truthy :: "jsval \<Rightarrow> bool" where
  "truthy None = False"
| "truthy (Some JNull) = False"
| "truthy (Some (JBool b)) = b"
| "truthy (Some (JNum n)) = num_truthy n"
| "truthy (Some (JStr s)) = (s \<noteq> [])"
| "truthy (Some (JArr vs)) = True"
| "truthy (Some (JObj kvs)) = True"

fun as_array :: "jsval \<Rightarrow> json list" where
  "as_array (Some (JArr vs)) = vs"
| "as_array v = []"

fun is_array :: "jsval \<Rightarrow> bool" where
  "is_array (Some (JArr vs)) = True"
| "is_array v = False"

lemma get_prop_Inr: "\<not> is_nullish v \<Longrightarrow> get_prop v k = Inr (opt_prop v k)"
  by (cases "(v, k)" rule: get_prop.cases) auto

lemma get_prop_Inl: "is_nullish v \<Longrightarrow> get_prop v k = Inl TypeError"
  by (cases v rule: is_nullish.cases) auto

lemma coalesce_simps [simp]:
  "coalesce None d = d"
  "coalesce (Some JNull) d = d"
  "\<not> is_nullish (Some v) \<Longrightarrow> coalesce (Some v) d = v"
  by (simp_all add: coalesce_def)

section \<open>Strings of values\<close>

text \<open>\<^verbatim>\<open>String(v)\<close>: arrays join their elements with commas, nullish elements as empty.\<close>

fun json_String :: "json \<Rightarrow> jsstr" where
  "json_String JNull = js ''null''"
| "json_String (JBool b) = js (if b then ''true'' else ''false'')"
| "json_String (JNum n) = num_repr n"
| "json_String (JStr s) = s"
| "json_String (JArr vs) =
     js_join (js '','') (map (\<lambda>v. if v = JNull then [] else json_String v) vs)"
| "json_String (JObj kvs) = js ''[object Object]''"

definition val_String :: "jsval \<Rightarrow> jsstr" where
  "val_String v = (case v of None \<Rightarrow> js ''undefined'' | Some j \<Rightarrow> json_String j)"

section \<open>JSON.stringify\<close>

definition hex_chr :: "nat \<Rightarrow> cunit" where
  "hex_chr d = of_nat (if d < 10 then 48 + d else 87 + d)"

definition unicode_escape :: "cunit \<Rightarrow> jsstr" where
  "unicode_escape c =
     (let n = unat c
      in [0x5C, 0x75] @ map (\<lambda>k. hex_chr (n div 16 ^ k mod 16)) [3, 2, 1, 0])"

definition is_high :: "cunit \<Rightarrow> bool" where
  "is_high c \<longleftrightarrow> 0xD800 \<le> c \<and> c \<le> 0xDBFF"

definition is_low :: "cunit \<Rightarrow> bool" where
  "is_low c \<longleftrightarrow> 0xDC00 \<le> c \<and> c \<le> 0xDFFF"

definition short_escape :: "cunit \<Rightarrow> cunit option" where
  "short_escape c =
     (if c = 0x22 then Some 0x22 else if c = 0x5C then Some 0x5C
      else if c = 0x08 then Some 0x62 else if c = 0x0C then Some 0x66
      else if c = 0x0A then Some 0x6E else if c = 0x0D then Some 0x72
      else if c = 0x09 then Some 0x74 else None)"

text \<open>The escape of one code unit; \<open>paired\<close> tells that it is half of a surrogate pair.\<close>

definition escape_unit :: "bool \<Rightarrow> cunit \<Rightarrow> jsstr" where
  "escape_unit paired c =
     (case short_escape c of
        Some e \<Rightarrow> [0x5C, e]
      | None \<Rightarrow> if c < 0x20 \<or> ((is_high c \<or> is_low c) \<and> \<not> paired) then unicode_escape c else [c])"

fun quote_body :: "jsstr \<Rightarrow> jsstr" where
  "quote_body [] = []"
| "quote_body [c] = escape_unit False c"
| "quote_body (c # d # cs) =
     (if is_high c \<and> is_low d then escape_unit True c @ escape_unit True d @ quote_body cs
      else escape_unit False c @ quote_body (d # cs))"

definition quote :: "jsstr \<Rightarrow> jsstr" where
  "quote s = js ''\"'' @ quote_body s @ js ''\"''"

fun stringify :: "json \<Rightarrow> jsstr" where
  "stringify JNull = js ''null''"
| "stringify (JBool b) = js (if b then ''true'' else ''false'')"
| "stringify (JNum n) = (if num_isFinite n then num_repr n else js ''null'')"
| "stringify (JStr s) = quote s"
| "stringify (JArr vs) = js ''['' @ js_join (js '','') (map stringify vs) @ js '']''"
| "stringify (JObj kvs) =
     js ''{'' @ js_join (js '','') (map (\<lambda>(k, v). quote k @ js '':'' @ stringify v) kvs) @ js ''}''"

definition newline_indent :: "nat \<Rightarrow> jsstr" where
  "newline_indent n = 0x0A # replicate (2 * n) 0x20"

text \<open>\<^verbatim>\<open>JSON.stringify(v, null, 2)\<close>, at nesting depth \<open>n\<close>.\<close>

fun stringify_pretty :: "nat \<Rightarrow> json \<Rightarrow> jsstr" where
  "stringify_pretty n (JArr vs) =
     (if vs = [] then js ''[]''
      else js ''['' @ newline_indent (Suc n) @
        js_join (js '','' @ newline_indent (Suc n)) (map (stringify_pretty (Suc n)) vs) @
        newline_indent n @ js '']'')"
| "stringify_pretty n (JObj kvs) =
     (if kvs = [] then js ''{}''
      else js ''{'' @ newline_indent (Suc n) @
        js_join (js '','' @ newline_indent (Suc n))
          (map (\<lambda>(k, v). quote k @ js '': '' @ stringify_pretty (Suc n) v) kvs) @
        newline_indent n @ js ''}'')"
| "stringify_pretty n v = stringify v"

section \<open>Objects\<close>

text \<open>An integer-like key: the canonical decimal form of a number below \<open>2 ^ 32 - 1\<close>.\<close>

definition is_index :: "jsstr \<Rightarrow> bool" where
  "is_index k \<longleftrightarrow> k \<noteq> [] \<and> list_all is_digit k \<and> digits10 (dec_val k) = k \<and>
     dec_val k < 2 ^ 32 - 1"

fun insert_index :: "jsstr \<Rightarrow> json \<Rightarrow> fields \<Rightarrow> fields" where
  "insert_index k v [] = [(k, v)]"
| "insert_index k v ((k', v') # kvs) =
     (if is_index k' \<and> dec_val k' < dec_val k then (k', v') # insert_index k v kvs
      else (k, v) # (k', v') # kvs)"

fun update_field :: "jsstr \<Rightarrow> json \<Rightarrow> fields \<Rightarrow> fields" where
  "update_field k v [] = []"
| "update_field k v ((k', v') # kvs) =
     (if k = k' then (k, v) # kvs else (k', v') # update_field k v kvs)"

text \<open>\<^verbatim>\<open>o[k] = v\<close> on an object with own properties \<open>kvs\<close>.\<close>

definition obj_set :: "jsstr \<Rightarrow> json \<Rightarrow> fields \<Rightarrow> fields" where
  "obj_set k v kvs =
     (if k \<in> fst ` set kvs then update_field k v kvs
      else if is_index k then insert_index k v kvs
      else kvs @ [(k, v)])"

lemma map_of_update_field:
  "k \<in> fst ` set kvs \<Longrightarrow> map_of (update_field k v kvs) = (map_of kvs)(k \<mapsto> v)"
proof (induction k v kvs rule: update_field.induct)
  case (2 k v k' v' kvs)
  then show ?case
    by (cases "k = k'") (simp_all add: fun_eq_iff)
qed simp

lemma map_of_insert_index:
  "k \<notin> fst ` set kvs \<Longrightarrow> map_of (insert_index k v kvs) = (map_of kvs)(k \<mapsto> v)"
proof (induction k v kvs rule: insert_index.induct)
  case (2 k v k' v' kvs)
  then have "k' \<noteq> k" by auto
  with 2 show ?case
    by (simp add: fun_eq_iff)
qed simp

lemma map_of_obj_set: "map_of (obj_set k v kvs) = (map_of kvs)(k \<mapsto> v)"
proof (cases "k \<in> fst ` set kvs")
  case True
  then show ?thesis
    by (simp add: obj_set_def map_of_update_field)
next
  case False
  then have "map_of (kvs @ [(k, v)]) = (map_of kvs)(k \<mapsto> v)"
    by (auto simp: fun_eq_iff map_add_def split: option.splits)
      (metis domI dom_map_of_conv_image_fst)
  with False show ?thesis
    by (simp add: obj_set_def map_of_insert_index)
qed

lemma set_update_field: "fst ` set (update_field k v kvs) = fst ` set kvs"
  by (induction k v kvs rule: update_field.induct) simp_all

lemma set_insert_index: "fst ` set (insert_index k v kvs) = insert k (fst ` set kvs)"
  by (induction k v kvs rule: insert_index.induct) (simp_all add: insert_commute)

lemma distinct_obj_set: "distinct (map fst kvs) \<Longrightarrow> distinct (map fst (obj_set k v kvs))"
proof -
  assume d: "distinct (map fst kvs)"
  have "distinct (map fst (update_field k v kvs))"
    using d by (induction k v kvs rule: update_field.induct) (simp_all add: set_update_field)
  moreover have "distinct (map fst (insert_index k v kvs))" if "k \<notin> fst ` set kvs"
    using d that
    by (induction k v kvs rule: insert_index.induct) (simp_all add: set_insert_index, blast)
  ultimately show ?thesis
    using d by (auto simp: obj_set_def)
qed

section \<open>JSON.parse\<close>

datatype token = TLbrack | TRbrack | TLbrace | TRbrace | TComma | TColon
  | TNull | TBool bool | TNum jsnum | TStr jsstr

definition json_ws :: "cunit \<Rightarrow> bool" where
  "json_ws c \<longleftrightarrow> c = 0x20 \<or> c = 0x09 \<or> c = 0x0A \<or> c = 0x0D"

definition unescape :: "cunit \<Rightarrow> cunit option" where
  "unescape e =
     (if e = 0x22 then Some 0x22 else if e = 0x5C then Some 0x5C else if e = 0x2F then Some 0x2F
      else if e = 0x62 then Some 0x08 else if e = 0x66 then Some 0x0C
      else if e = 0x6E then Some 0x0A else if e = 0x72 then Some 0x0D
      else if e = 0x74 then Some 0x09 else None)"

text \<open>The rest of a string literal after its opening quote: its value and what follows it.\<close>

fun lex_string :: "jsstr \<Rightarrow> (jsstr \<times> jsstr) option" where
  "lex_string [] = None"
| "lex_string (c # cs) =
     (if c = 0x22 then Some ([], cs)
      else if c < 0x20 then None
      else if c = 0x5C then
        (case cs of
           [] \<Rightarrow> None
         | e # r \<Rightarrow>
             if e = 0x75 then
               (case parse_radix 16 0 (take 4 r) of
                  None \<Rightarrow> None
                | Some n \<Rightarrow>
                    if length r < 4 then None
                    else map_option (\<lambda>(v, t). (of_nat n # v, t)) (lex_string (drop 4 r)))
             else
               (case unescape e of
                  None \<Rightarrow> None
                | Some u \<Rightarrow> map_option (\<lambda>(v, t). (u # v, t)) (lex_string r)))
      else map_option (\<lambda>(v, t). (c # v, t)) (lex_string cs))"

definition is_number_char :: "cunit \<Rightarrow> bool" where
  "is_number_char c \<longleftrightarrow> is_digit c \<or> c = 0x2B \<or> c = 0x2D \<or> c = 0x2E \<or> c = 0x65 \<or> c = 0x45"

text \<open>The JSON number grammar: no leading zeros, digits on both sides of a point.\<close>

definition json_number :: "jsstr \<Rightarrow> jsnum option" where
  "json_number s =
     (let neg = js_startsWith s (js ''-'');
          u = (if neg then drop 1 s else s);
          ip = takeWhile is_digit u;
          r = dropWhile is_digit u
      in if ip = [] \<or> (1 < length ip \<and> hd ip = 48) \<or>
            (js_startsWith r (js ''.'') \<and> takeWhile is_digit (drop 1 r) = []) then None
         else map_option (\<lambda>x. round_double (if neg then - x else x)) (parse_decimal u))"

definition lex_keyword :: "jsstr \<Rightarrow> (token \<times> jsstr) option" where
  "lex_keyword s =
     (if js_startsWith s (js ''null'') then Some (TNull, drop 4 s)
      else if js_startsWith s (js ''true'') then Some (TBool True, drop 4 s)
      else if js_startsWith s (js ''false'') then Some (TBool False, drop 5 s)
      else None)"

definition punct :: "cunit \<Rightarrow> token option" where
  "punct c =
     (if c = 0x5B then Some TLbrack else if c = 0x5D then Some TRbrack
      else if c = 0x7B then Some TLbrace else if c = 0x7D then Some TRbrace
      else if c = 0x2C then Some TComma else if c = 0x3A then Some TColon else None)"

text \<open>The first token of a text that starts with neither white space nor its end.\<close>

definition lex_one :: "jsstr \<Rightarrow> (token \<times> jsstr) option" where
  "lex_one s =
     (case s of
        [] \<Rightarrow> None
      | c # cs \<Rightarrow>
          (case punct c of
             Some t \<Rightarrow> Some (t, cs)
           | None \<Rightarrow>
               if c = 0x22 then map_option (\<lambda>(v, r). (TStr v, r)) (lex_string cs)
               else if is_number_char c then
                 map_option (\<lambda>n. (TNum n, dropWhile is_number_char s))
                   (json_number (takeWhile is_number_char s))
               else lex_keyword s))"

lemma lex_string_shorter: "lex_string s = Some (v, r) \<Longrightarrow> length r < length s"
proof (induction s arbitrary: v rule: lex_string.induct)
  case (2 c cs)
  then show ?case
    by (auto split: if_splits list.splits option.splits) fastforce+
qed simp

lemma lex_one_shorter: "lex_one s = Some (t, r) \<Longrightarrow> length r < length s"
proof (cases s)
  case (Cons c cs)
  assume lex: "lex_one s = Some (t, r)"
  have num: "length (dropWhile is_number_char s) < length s" if "is_number_char c"
    using that Cons by (simp add: le_imp_less_Suc length_dropWhile_le)
  have "length (drop n s) < length s" if "0 < n" for n
    using that Cons by simp
  with lex Cons num show ?thesis
    by (auto simp: lex_one_def lex_keyword_def split: option.splits if_splits
        dest!: lex_string_shorter)
qed (simp add: lex_one_def)

function lex :: "jsstr \<Rightarrow> token list option" where
  "lex s =
     (case s of
        [] \<Rightarrow> Some []
      | c # cs \<Rightarrow>
          if json_ws c then lex cs
          else (case lex_one s of
                  None \<Rightarrow> None
                | Some (t, r) \<Rightarrow> map_option (Cons t) (lex r)))"
  by pat_completeness auto
termination
  by (relation "measure length") (auto dest: lex_one_shorter)

declare lex.simps [simp del]

text \<open>What the parser waits for: a value, a value or the end of the array just opened, a key,
  a key or the end of the object just opened, the colon after a key, a comma or the end of
  the enclosing container, or the end of the text.\<close>

datatype pmode = MValue | MFirstValue | MKey | MFirstKey | MColon jsstr | MNext | MEnd json

text \<open>An open array (elements in reverse) or an open object with the key being read.\<close>

datatype frame = FArr "json list" | FObj fields jsstr

fun put_value :: "json \<Rightarrow> frame list \<Rightarrow> pmode \<times> frame list" where
  "put_value v [] = (MEnd v, [])"
| "put_value v (FArr vs # st) = (MNext, FArr (v # vs) # st)"
| "put_value v (FObj kvs k # st) = (MNext, FObj (obj_set k v kvs) k # st)"

fun start_value :: "token \<Rightarrow> frame list \<Rightarrow> (pmode \<times> frame list) option" where
  "start_value TNull st = Some (put_value JNull st)"
| "start_value (TBool b) st = Some (put_value (JBool b) st)"
| "start_value (TNum n) st = Some (put_value (JNum n) st)"
| "start_value (TStr s) st = Some (put_value (JStr s) st)"
| "start_value TLbrack st = Some (MFirstValue, FArr [] # st)"
| "start_value TLbrace st = Some (MFirstKey, FObj [] [] # st)"
| "start_value t st = None"

fun set_key :: "jsstr \<Rightarrow> frame list \<Rightarrow> frame list" where
  "set_key k (FObj kvs k' # st) = FObj kvs k # st"
| "set_key k st = st"

fun jstep :: "pmode \<Rightarrow> frame list \<Rightarrow> token \<Rightarrow> (pmode \<times> frame list) option" where
  "jstep MValue st t = start_value t st"
| "jstep MFirstValue (FArr vs # st) TRbrack = Some (put_value (JArr (rev vs)) st)"
| "jstep MFirstValue st t = start_value t st"
| "jstep MFirstKey (FObj kvs k # st) TRbrace = Some (put_value (JObj kvs) st)"
| "jstep MFirstKey st (TStr k) = Some (MColon k, st)"
| "jstep MKey st (TStr k) = Some (MColon k, st)"
| "jstep (MColon k) st TColon = Some (MValue, set_key k st)"
| "jstep MNext (FArr vs # st) TComma = Some (MValue, FArr vs # st)"
| "jstep MNext (FArr vs # st) TRbrack = Some (put_value (JArr (rev vs)) st)"
| "jstep MNext (FObj kvs k # st) TComma = Some (MKey, FObj kvs k # st)"
| "jstep MNext (FObj kvs k # st) TRbrace = Some (put_value (JObj kvs) st)"
| "jstep m st t = None"

fun jrun :: "pmode \<Rightarrow> frame list \<Rightarrow> token list \<Rightarrow> json option" where
  "jrun m st [] = (case m of MEnd v \<Rightarrow> Some v | _ \<Rightarrow> None)"
| "jrun m st (t # ts) =
     (case jstep m st t of None \<Rightarrow> None | Some (m', st') \<Rightarrow> jrun m' st' ts)"

text \<open>\<^verbatim>\<open>JSON.parse(s)\<close>; \<open>None\<close> is a thrown \<^verbatim>\<open>SyntaxError\<close>.\<close>

definition json_parse :: "jsstr \<Rightarrow> json option" where
  "json_parse s = (case lex s of None \<Rightarrow> None | Some ts \<Rightarrow> jrun MValue [] ts)"

end
