(* ===== verification/Server.thy ===== *)
theory Server
  imports Js_Json
begin

text \<open>
  The server side of the Control Panel that every Server Action and page load
  goes through: the admin client of the SDK (\<^verbatim>\<open>sdk/typescript/src/admin.ts\<close>),
  the encrypted session cookie (\<^verbatim>\<open>web/src/lib/session.ts\<close>), permissions
  (\<^verbatim>\<open>permissions.ts\<close>), the client bound to the session (\<^verbatim>\<open>admin.ts\<close>), the
  mapping of backend messages (\<^verbatim>\<open>i18n-errors.ts\<close>) and the error handling
  (\<^verbatim>\<open>errors.ts\<close>).

  A computation reads a \<open>platform\<close> (what lies outside the repository's
  TypeScript: environment variables, the HTTP client, the cookie sealing library
  and the translation catalogue, all of them parameters) and a \<open>world\<close> (the
  session cookie of the current browser, the requests sent to the admin API, the
  paths revalidated) and returns a value or a thrown error with the new world.
\<close>

section \<open>Platform and world\<close>

datatype http_method = GET | POST | PUT | PATCH | DELETE

record areq =
  rq_base :: jsstr
  rq_auth :: "jsstr option"
  rq_method :: http_method
  rq_path :: jsstr
  rq_params :: fields
  rq_query :: fields
  rq_body :: jsval

text \<open>What a call of the HTTP client gives: it throws, or it returns \<^verbatim>\<open>data\<close>, \<^verbatim>\<open>error\<close> and
  the status of the response.\<close>

record fetch_result =
  fr_data :: jsval
  fr_error :: jsval
  fr_status :: nat

datatype fetch_outcome = FetchThrow jserror | FetchResult fetch_result

record session_data =
  sd_token :: "jsstr option"
  sd_email :: "jsstr option"
  sd_role :: "jsstr option"
  sd_roleID :: "jsnum option"
  sd_scopeKind :: "jsstr option"
  sd_permissions :: "jsstr list option"
  sd_tenantName :: "jsstr option"

definition empty_session :: session_data where
  "empty_session = \<lparr>sd_token = None, sd_email = None, sd_role = None, sd_roleID = None,
     sd_scopeKind = None, sd_permissions = None, sd_tenantName = None\<rparr>"

text \<open>\<open>pf_fetch\<close> answers the last request of the history it is given, so it may stand for any
  stateful backend; \<open>pf_seal\<close> and \<open>pf_unseal\<close> are the cookie library's encryption under a
  password; \<open>pf_translate\<close> is the catalogue lookup of a namespace and a key; \<open>pf_pathname\<close> is
  the path the locale-aware navigation gives to a target; \<open>pf_message\<close> is
  the text the engine or a library gives to an error it raises itself.\<close>

record platform =
  pf_ADMIN_URL :: "jsstr option"
  pf_SESSION_SECRET :: "jsstr option"
  pf_NODE_ENV :: "jsstr option"
  pf_fetch :: "areq list \<Rightarrow> fetch_outcome"
  pf_seal :: "jsstr \<Rightarrow> session_data \<Rightarrow> jsstr"
  pf_unseal :: "jsstr \<Rightarrow> jsstr \<Rightarrow> session_data"
  pf_translate :: "jsstr \<Rightarrow> jsstr \<Rightarrow> jsstr"
  pf_locale :: jsstr
  pf_pathname :: "jsstr \<Rightarrow> jsstr \<Rightarrow> jsstr"
  pf_message :: "jserror \<Rightarrow> jsstr"

record world =
  w_cookie :: "jsstr option"
  w_sent :: "areq list"
  w_revalidated :: "(jsstr \<times> jsstr option) list"

type_synonym 'a act = "platform \<Rightarrow> world \<Rightarrow> 'a res \<times> world"

subsection \<open>Sequencing and exceptions\<close>

definition ret :: "'a \<Rightarrow> 'a act" where
  "ret x = (\<lambda>pf w. (Inr x, w))"

definition throw :: "jserror \<Rightarrow> 'a act" where
  "throw e = (\<lambda>pf w. (Inl e, w))"

definition bnd :: "'a act \<Rightarrow> ('a \<Rightarrow> 'b act) \<Rightarrow> 'b act" where
  "bnd m f = (\<lambda>pf w. case m pf w of (Inl e, w') \<Rightarrow> (Inl e, w') | (Inr x, w') \<Rightarrow> f x pf w')"

definition try_catch :: "'a act \<Rightarrow> (jserror \<Rightarrow> 'a act) \<Rightarrow> 'a act" where
  "try_catch m h = (\<lambda>pf w. case m pf w of (Inl e, w') \<Rightarrow> h e pf w' | (Inr x, w') \<Rightarrow> (Inr x, w'))"

definition asks :: "(platform \<Rightarrow> 'a) \<Rightarrow> 'a act" where
  "asks f = (\<lambda>pf w. (Inr (f pf), w))"

definition lift_res :: "'a res \<Rightarrow> 'a act" where
  "lift_res r = (\<lambda>pf w. (r, w))"

lemma ret_apply [simp, res_simps]: "ret x pf w = (Inr x, w)"
  by (simp add: ret_def)

lemma throw_apply [simp, res_simps]: "throw e pf w = (Inl e, w)"
  by (simp add: throw_def)

lemma asks_apply [simp, res_simps]: "asks f pf w = (Inr (f pf), w)"
  by (simp add: asks_def)

lemma lift_res_apply [simp, res_simps]: "lift_res r pf w = (r, w)"
  by (simp add: lift_res_def)

lemma bnd_apply [res_simps]:
  "bnd m f pf w = (case m pf w of (Inl e, w') \<Rightarrow> (Inl e, w') | (Inr x, w') \<Rightarrow> f x pf w')"
  by (simp add: bnd_def)

lemma try_catch_apply [res_simps]:
  "try_catch m h pf w = (case m pf w of (Inl e, w') \<Rightarrow> h e pf w' | (Inr x, w') \<Rightarrow> (Inr x, w'))"
  by (simp add: try_catch_def)

lemma bnd_Inr: "m pf w = (Inr x, w') \<Longrightarrow> bnd m f pf w = f x pf w'"
  by (simp add: bnd_def)

lemma bnd_Inl: "m pf w = (Inl e, w') \<Longrightarrow> bnd m f pf w = (Inl e, w')"
  by (simp add: bnd_def)

lemma try_Inr: "m pf w = (Inr x, w') \<Longrightarrow> try_catch m h pf w = (Inr x, w')"
  by (simp add: try_catch_def)

lemma try_Inl: "m pf w = (Inl e, w') \<Longrightarrow> try_catch m h pf w = h e pf w'"
  by (simp add: try_catch_def)

text \<open>The framework's \<^verbatim>\<open>redirect\<close> leaves by throwing; \<^verbatim>\<open>revalidatePath\<close> marks a path stale
  (its optional second argument says whether the path is a page or a layout).\<close>

definition redirect :: "jsstr \<Rightarrow> 'a act" where
  "redirect path = throw (NextRedirect path)"

definition revalidatePath :: "jsstr \<Rightarrow> jsstr option \<Rightarrow> unit act" where
  "revalidatePath path kind =
     (\<lambda>pf w. (Inr (), w\<lparr>w_revalidated := w_revalidated w @ [(path, kind)]\<rparr>))"

lemma redirect_apply [simp, res_simps]: "redirect p pf w = (Inl (NextRedirect p), w)"
  by (simp add: redirect_def)

lemma revalidatePath_apply [simp, res_simps]:
  "revalidatePath p k pf w = (Inr (), w\<lparr>w_revalidated := w_revalidated w @ [(p, k)]\<rparr>)"
  by (simp add: revalidatePath_def)

section \<open>The admin client of the SDK\<close>

text \<open>\<^verbatim>\<open>createAdminClient\<close>: an empty or missing token sends no \<^verbatim>\<open>Authorization\<close> header.\<close>

record admin_client =
  cl_base :: jsstr
  cl_auth :: "jsstr option"

definition createAdminClient :: "jsstr \<Rightarrow> jsstr option \<Rightarrow> admin_client" where
  "createAdminClient baseUrl token =
     \<lparr>cl_base = baseUrl,
      cl_auth = (case token of None \<Rightarrow> None
                 | Some t \<Rightarrow> if t = [] then None else Some (js ''Bearer '' @ t))\<rparr>"

definition mk_req ::
  "admin_client \<Rightarrow> http_method \<Rightarrow> jsstr \<Rightarrow> fields \<Rightarrow> fields \<Rightarrow> jsval \<Rightarrow> areq" where
  "mk_req c m path params query body =
     \<lparr>rq_base = cl_base c, rq_auth = cl_auth c, rq_method = m, rq_path = path,
      rq_params = params, rq_query = query, rq_body = body\<rparr>"

text \<open>One awaited call \<^verbatim>\<open>client.METHOD(path, ...)\<close>.\<close>

definition call ::
  "admin_client \<Rightarrow> http_method \<Rightarrow> jsstr \<Rightarrow> fields \<Rightarrow> fields \<Rightarrow> jsval \<Rightarrow> fetch_result act" where
  "call c m path params query body =
     (\<lambda>pf w. let sent = w_sent w @ [mk_req c m path params query body]
             in case pf_fetch pf sent of
                  FetchThrow e \<Rightarrow> (Inl e, w\<lparr>w_sent := sent\<rparr>)
                | FetchResult r \<Rightarrow> (Inr r, w\<lparr>w_sent := sent\<rparr>))"

definition response_ok :: "fetch_result \<Rightarrow> bool" where
  "response_ok r \<longleftrightarrow> 200 \<le> fr_status r \<and> fr_status r < 300"

text \<open>\<^verbatim>\<open>body?.error?.message\<close> and \<^verbatim>\<open>body?.error?.type\<close> of the error envelope.\<close>

definition envelope :: "jsval \<Rightarrow> jsstr \<Rightarrow> jsval" where
  "envelope body k = opt_prop (opt_prop body (js ''error'')) k"

definition new_AdminError :: "nat \<Rightarrow> jsval \<Rightarrow> jserror" where
  "new_AdminError status body =
     AdminError status
       (json_String (coalesce (envelope body (js ''type'')) (JStr (js ''api_error''))))
       (json_String (coalesce (envelope body (js ''message''))
          (JStr (js ''admin request failed ('' @ digits10 status @ js '')''))))"

definition unwrap :: "fetch_result \<Rightarrow> jsval res" where
  "unwrap r =
     (if fr_error r \<noteq> None \<or> \<not> response_ok r
      then Inl (new_AdminError (fr_status r) (fr_error r))
      else Inr (fr_data r))"

text \<open>\<^verbatim>\<open>unwrapJson\<close> only narrows the static type.\<close>

definition unwrapJson :: "fetch_result \<Rightarrow> jsval res" where
  "unwrapJson r = unwrap r"

section \<open>Session\<close>

record session_options =
  so_password :: jsstr
  so_cookieName :: jsstr
  so_httpOnly :: bool
  so_sameSite :: jsstr
  so_secure :: bool
  so_path :: jsstr

definition COOKIE_NAME :: jsstr where
  "COOKIE_NAME = js ''voxeltoad_admin_session''"

definition requireSessionSecret :: "jsstr act" where
  "requireSessionSecret = bnd (asks pf_SESSION_SECRET) (\<lambda>secret.
     case secret of
       None \<Rightarrow> throw (PlainError (js ''SESSION_SECRET must be set and at least 32 characters (see web/.env.example)''))
     | Some s \<Rightarrow>
         if length s < 32
         then throw (PlainError (js ''SESSION_SECRET must be set and at least 32 characters (see web/.env.example)''))
         else ret s)"

definition sessionOptions :: "session_options act" where
  "sessionOptions = bnd requireSessionSecret (\<lambda>secret. bnd (asks pf_NODE_ENV) (\<lambda>env.
     ret \<lparr>so_password = secret, so_cookieName = COOKIE_NAME, so_httpOnly = True,
          so_sameSite = js ''lax'', so_secure = (env = Some (js ''production'')),
          so_path = js ''/''\<rparr>))"

text \<open>\<^verbatim>\<open>getSession\<close>: the data of the cookie, empty when there is none.\<close>

definition getSession :: "session_data act" where
  "getSession = bnd sessionOptions (\<lambda>opts pf w.
     (Inr (case w_cookie w of None \<Rightarrow> empty_session
           | Some c \<Rightarrow> pf_unseal pf (so_password opts) c), w))"

definition getToken :: "jsstr option act" where
  "getToken = bnd getSession (\<lambda>s. ret (sd_token s))"

text \<open>\<^verbatim>\<open>session.save()\<close> seals the data into the cookie; \<^verbatim>\<open>session.destroy()\<close> removes it.\<close>

definition setSession :: "session_data \<Rightarrow> unit act" where
  "setSession data = bnd getSession (\<lambda>s. bnd sessionOptions (\<lambda>opts pf w.
     (let s' = s\<lparr>sd_token := sd_token data, sd_email := sd_email data, sd_role := sd_role data,
                sd_roleID := sd_roleID data, sd_scopeKind := sd_scopeKind data,
                sd_permissions := sd_permissions data, sd_tenantName := sd_tenantName data\<rparr>
      in (Inr (), w\<lparr>w_cookie := Some (pf_seal pf (so_password opts) s')\<rparr>))))"

definition clearSession :: "unit act" where
  "clearSession = bnd getSession (\<lambda>s pf w. (Inr (), w\<lparr>w_cookie := None\<rparr>))"

subsection \<open>Permissions\<close>

definition has :: "session_data \<Rightarrow> jsstr \<Rightarrow> bool" where
  "has session perm =
     (case sd_permissions session of
        None \<Rightarrow> False
      | Some ps \<Rightarrow> if ps = [] then False else if js ''*'' \<in> set ps then True else perm \<in> set ps)"

definition hasAny :: "session_data \<Rightarrow> jsstr list \<Rightarrow> bool" where
  "hasAny session perms = list_ex (has session) perms"

section \<open>The client bound to the session\<close>

definition serverAdminClient :: "admin_client act" where
  "serverAdminClient = bnd (asks pf_ADMIN_URL) (\<lambda>baseUrl.
     case baseUrl of
       None \<Rightarrow> throw (PlainError (js ''ADMIN_URL must be set (see web/.env.example)''))
     | Some u \<Rightarrow>
         if u = [] then throw (PlainError (js ''ADMIN_URL must be set (see web/.env.example)''))
         else bnd getToken (\<lambda>token. ret (createAdminClient u token)))"

definition anonAdminClient :: "admin_client act" where
  "anonAdminClient = bnd (asks pf_ADMIN_URL) (\<lambda>baseUrl.
     case baseUrl of
       None \<Rightarrow> throw (PlainError (js ''ADMIN_URL must be set (see web/.env.example)''))
     | Some u \<Rightarrow>
         if u = [] then throw (PlainError (js ''ADMIN_URL must be set (see web/.env.example)''))
         else ret (createAdminClient u None))"

section \<open>Backend messages\<close>

record mapped_error =
  me_key :: "jsstr option"
  me_fallback :: jsstr

definition mapBackendError :: "jsstr \<Rightarrow> mapped_error" where
  "mapBackendError message =
     (let prefix = js ''errors.'' in
      if js_startsWith message prefix then
        (let rest = drop (length prefix) message;
             colonIdx = js_indexOf rest (js '': '');
             keyPart = (case colonIdx of Some i \<Rightarrow> take i rest | None \<Rightarrow> rest)
         in if js_includes keyPart (js ''.'')
            then \<lparr>me_key = Some keyPart,
                  me_fallback = (case colonIdx of Some i \<Rightarrow> js_trim (drop (i + 2) rest)
                                 | None \<Rightarrow> message)\<rparr>
            else \<lparr>me_key = None, me_fallback = message\<rparr>)
      else \<lparr>me_key = None, me_fallback = message\<rparr>)"

text \<open>\<^verbatim>\<open>String(err)\<close> and \<^verbatim>\<open>err.message\<close> of a caught error.\<close>

fun error_message :: "platform \<Rightarrow> jserror \<Rightarrow> jsstr" where
  "error_message pf (AdminError st ty m) = m"
| "error_message pf (PlainError m) = m"
| "error_message pf (RangeError m) = m"
| "error_message pf e = pf_message pf e"

fun error_name :: "jserror \<Rightarrow> jsstr" where
  "error_name (AdminError st ty m) = js ''AdminError''"
| "error_name (PlainError m) = js ''Error''"
| "error_name (RangeError m) = js ''RangeError''"
| "error_name (NextRedirect p) = js ''Error''"
| "error_name TypeError = js ''TypeError''"
| "error_name SyntaxError = js ''SyntaxError''"

definition error_String :: "platform \<Rightarrow> jserror \<Rightarrow> jsstr" where
  "error_String pf e =
     (if error_message pf e = [] then error_name e
      else error_name e @ js '': '' @ error_message pf e)"

definition mapBackendErr :: "platform \<Rightarrow> jserror \<Rightarrow> mapped_error" where
  "mapBackendErr pf err = mapBackendError (error_message pf err)"

section \<open>Error handling\<close>

datatype form_result = FormOk | FormErr (form_error: jsstr) (form_errorKey: "jsstr option")

text \<open>\<^verbatim>\<open>onAuthExpired\<close> never returns.\<close>

definition onAuthExpired :: "jserror \<Rightarrow> 'a act" where
  "onAuthExpired err =
     (case err of
        AdminError status ty msg \<Rightarrow>
          if status = 401 then redirect (js ''/logout'') else throw err
      | _ \<Rightarrow> throw err)"

text \<open>The forbidden outcome carries the raw backend message.\<close>

definition handleAdminError :: "jserror \<Rightarrow> jsstr act" where
  "handleAdminError err =
     (case err of
        AdminError status ty msg \<Rightarrow>
          if status = 401 then redirect (js ''/logout'')
          else if status = 403 then ret msg else throw err
      | _ \<Rightarrow> throw err)"

definition toFormError :: "jserror \<Rightarrow> form_result act" where
  "toFormError err =
     (case err of
        AdminError status ty msg \<Rightarrow>
          if status = 401 then bnd clearSession (\<lambda>_. redirect (js ''/login''))
          else ret (FormErr msg None)
      | _ \<Rightarrow> ret (FormErr (js ''unexpected error'') None))"

text \<open>The recurring \<^verbatim>\<open>const mapped = mapBackendError(message); return {ok: false, ...}\<close>.\<close>

definition fail_mapped :: "jsstr \<Rightarrow> form_result" where
  "fail_mapped message =
     (let mapped = mapBackendError message in FormErr (me_fallback mapped) (me_key mapped))"

text \<open>Logout: the Route Handler \<^verbatim>\<open>GET /logout\<close> and the Server Action \<^verbatim>\<open>logoutAction\<close> clear the
  cookie and go to the login page (the handler answers with a redirect response, here its
  location).\<close>

definition logout_GET :: "jsstr act" where
  "logout_GET = bnd clearSession (\<lambda>_. ret (js ''/login''))"

definition logoutAction :: "unit act" where
  "logoutAction = bnd clearSession (\<lambda>_. redirect (js ''/login''))"

section \<open>Facts about the session and the client\<close>

text \<open>The client a request made now would use: none when the environment is incomplete.\<close>

definition secret_ok :: "platform \<Rightarrow> jsstr option" where
  "secret_ok pf =
     (case pf_SESSION_SECRET pf of None \<Rightarrow> None | Some s \<Rightarrow> if length s < 32 then None else Some s)"

definition session_of :: "platform \<Rightarrow> world \<Rightarrow> session_data option" where
  "session_of pf w =
     map_option (\<lambda>s. case w_cookie w of None \<Rightarrow> empty_session | Some c \<Rightarrow> pf_unseal pf s c) (secret_ok pf)"

definition client_of :: "platform \<Rightarrow> world \<Rightarrow> admin_client option" where
  "client_of pf w =
     (case pf_ADMIN_URL pf of
        None \<Rightarrow> None
      | Some u \<Rightarrow>
          if u = [] then None
          else map_option (\<lambda>sd. createAdminClient u (sd_token sd)) (session_of pf w))"

definition plain :: "jserror \<Rightarrow> bool" where
  "plain e \<longleftrightarrow> (\<exists>m. e = PlainError m)"

lemma sessionOptions_run:
  "(\<exists>o'. sessionOptions pf w = (Inr o', w) \<and> secret_ok pf = Some (so_password o')) \<or>
   (\<exists>m. sessionOptions pf w = (Inl (PlainError m), w) \<and> secret_ok pf = None)"
  by (auto simp: sessionOptions_def requireSessionSecret_def secret_ok_def bnd_apply
      split: option.splits)

lemma getSession_run:
  "getSession pf w =
     (case session_of pf w of Some s \<Rightarrow> (Inr s, w)
      | None \<Rightarrow> (Inl (PlainError (js ''SESSION_SECRET must be set and at least 32 characters (see web/.env.example)'')), w))"
  by (auto simp: getSession_def sessionOptions_def requireSessionSecret_def session_of_def
      secret_ok_def bnd_apply split: option.splits)

lemma clearSession_run:
  "clearSession pf w =
     (case session_of pf w of Some s \<Rightarrow> (Inr (), w\<lparr>w_cookie := None\<rparr>)
      | None \<Rightarrow> (Inl (PlainError (js ''SESSION_SECRET must be set and at least 32 characters (see web/.env.example)'')), w))"
  by (auto simp: clearSession_def bnd_apply getSession_run split: option.splits)

lemma serverAdminClient_run:
  "\<exists>m. serverAdminClient pf w =
     (case client_of pf w of Some c \<Rightarrow> (Inr c, w) | None \<Rightarrow> (Inl (PlainError m), w))"
  by (auto simp: serverAdminClient_def client_of_def getToken_def bnd_apply getSession_run
      split: option.splits)

lemma session_overwrite:
  "s\<lparr>sd_token := sd_token d, sd_email := sd_email d, sd_role := sd_role d, sd_roleID := sd_roleID d,
     sd_scopeKind := sd_scopeKind d, sd_permissions := sd_permissions d,
     sd_tenantName := sd_tenantName d\<rparr> = (d :: session_data)"
  by (cases s; cases d) simp

lemma setSession_run:
  "setSession data pf w =
     (case secret_ok pf of
        Some s \<Rightarrow> (Inr (), w\<lparr>w_cookie := Some (pf_seal pf s data)\<rparr>)
      | None \<Rightarrow> (Inl (PlainError (js ''SESSION_SECRET must be set and at least 32 characters (see web/.env.example)'')), w))"
  by (auto simp: setSession_def bnd_apply getSession_run sessionOptions_def session_overwrite
      requireSessionSecret_def session_of_def secret_ok_def Let_def split: option.splits)

lemma toFormError_plain [simp]:
  "toFormError (PlainError m) pf w = (Inr (FormErr (js ''unexpected error'') None), w)"
  "toFormError TypeError pf w = (Inr (FormErr (js ''unexpected error'') None), w)"
  "toFormError SyntaxError pf w = (Inr (FormErr (js ''unexpected error'') None), w)"
  "toFormError (RangeError m) pf w = (Inr (FormErr (js ''unexpected error'') None), w)"
  "toFormError (NextRedirect m) pf w = (Inr (FormErr (js ''unexpected error'') None), w)"
  by (simp_all add: toFormError_def)

lemma toFormError_admin:
  "status \<noteq> 401 \<Longrightarrow> toFormError (AdminError status ty msg) pf w = (Inr (FormErr msg None), w)"
  by (simp add: toFormError_def)

lemma toFormError_401:
  assumes "session_of pf w = Some s"
  shows "toFormError (AdminError 401 ty msg) pf w =
     (Inl (NextRedirect (js ''/login'')), w\<lparr>w_cookie := None\<rparr>)"
  using assms by (simp add: toFormError_def bnd_apply clearSession_run)

text \<open>Whatever the error, handling it sends nothing and revalidates nothing, and touches the
  cookie only to clear it.\<close>

lemma toFormError_frame:
  assumes "toFormError e pf w = (r, w')"
  shows "w_sent w' = w_sent w" and "w_revalidated w' = w_revalidated w"
    and "w_cookie w' = w_cookie w \<or> w_cookie w' = None" and "r \<noteq> Inr FormOk"
proof -
  have "w_sent w' = w_sent w \<and> w_revalidated w' = w_revalidated w \<and>
      (w_cookie w' = w_cookie w \<or> w_cookie w' = None) \<and> r \<noteq> Inr FormOk"
    using assms
    by (cases e)
      (auto simp: toFormError_def bnd_apply clearSession_run split: if_splits option.splits)
  then show "w_sent w' = w_sent w" and "w_revalidated w' = w_revalidated w"
    and "w_cookie w' = w_cookie w \<or> w_cookie w' = None" and "r \<noteq> Inr FormOk"
    by auto
qed

lemma fail_mapped_not_ok [simp]: "fail_mapped m \<noteq> FormOk"
  by (simp add: fail_mapped_def Let_def)

lemma js_colon: "js '': '' = [0x3A, 0x20]" and js_errors: "js ''errors.'' = js ''errors'' @ [0x2E]"
  and js_period: "js ''.'' = [0x2E]"
  by (simp_all add: js_def)

lemma js_indexOf_skip:
  "c \<notin> set k \<Longrightarrow> js_indexOf (k @ (c # p) @ r) (c # p) = Some (length k)"
proof (induction k)
  case Nil
  then show ?case by (simp add: js_startsWith_prefix)
next
  case (Cons d k)
  then show ?case by auto
qed

lemma js_indexOf_absent: "c \<notin> set k \<Longrightarrow> js_indexOf k (c # p) = None"
  by (auto simp: js_indexOf_None sublist_def)

section \<open>Properties\<close>

text \<open>The mapping of backend messages. A message \<^verbatim>\<open>errors.<domain>.<key>\<close> gives that path
  as translation key; with a context after a colon the key is the path and the fallback the
  trimmed context; a message without the prefix, or whose path has no dot, is only a
  fallback.\<close>

theorem mapBackendError_cases:
  assumes "0x3A \<notin> set k"
  shows "mapBackendError (js ''errors.'' @ k) =
           \<lparr>me_key = (if 0x2E \<in> set k then Some k else None), me_fallback = js ''errors.'' @ k\<rparr> \<and>
         mapBackendError (js ''errors.'' @ k @ js '': '' @ ctx) =
           (if 0x2E \<in> set k then \<lparr>me_key = Some k, me_fallback = js_trim ctx\<rparr>
            else \<lparr>me_key = None, me_fallback = js ''errors.'' @ k @ js '': '' @ ctx\<rparr>) \<and>
         (\<not> js_startsWith m (js ''errors.'') \<longrightarrow>
           mapBackendError m = \<lparr>me_key = None, me_fallback = m\<rparr>)"
  using assms js_indexOf_skip [OF assms, of "[0x20]" ctx] js_indexOf_absent [OF assms, of "[0x20]"]
  by (simp add: mapBackendError_def Let_def js_startsWith_prefix js_colon js_period
      js_includes_unit)

theorem mapBackendError_cases_witness:
  "mapBackendError (js ''errors.'' @ js ''provider.deleteFailed'' @ js '': '' @ js '' in use'') =
     \<lparr>me_key = Some (js ''provider.deleteFailed''), me_fallback = js_trim (js '' in use'')\<rparr>"
proof -
  have "0x3A \<notin> set (js ''provider.deleteFailed'')" and "0x2E \<in> set (js ''provider.deleteFailed'')"
    by code_simp+
  then show ?thesis
    using mapBackendError_cases [of "js ''provider.deleteFailed''" "js '' in use''"] by simp
qed

text \<open>In a Server Action a 401 from the admin API destroys the session cookie and leaves
  for the login page; any other failure is reported to the form without touching the
  session, an \<^verbatim>\<open>AdminError\<close> with its own message and anything else as unexpected.\<close>

theorem toFormError_spec:
  assumes "session_of pf w = Some s"
  shows "toFormError e pf w =
     (if \<exists>ty msg. e = AdminError 401 ty msg
      then (Inl (NextRedirect (js ''/login'')), w\<lparr>w_cookie := None\<rparr>)
      else (Inr (FormErr (case e of AdminError st ty msg \<Rightarrow> msg | _ \<Rightarrow> js ''unexpected error'') None), w))"
  using assms by (cases e) (auto simp: toFormError_401 toFormError_admin)

definition sample_secret :: jsstr where
  "sample_secret = replicate 32 0x61"

definition sample_platform :: platform where
  "sample_platform =
     \<lparr>pf_ADMIN_URL = Some (js ''http://admin''), pf_SESSION_SECRET = Some sample_secret,
      pf_NODE_ENV = None,
      pf_fetch = (\<lambda>rs. FetchResult \<lparr>fr_data = Some (JObj []), fr_error = None, fr_status = 200\<rparr>),
      pf_seal = (\<lambda>k d. case sd_token d of None \<Rightarrow> [] | Some t \<Rightarrow> t),
      pf_unseal = (\<lambda>k c. if c = [] then empty_session else empty_session\<lparr>sd_token := Some c\<rparr>),
      pf_translate = (\<lambda>ns k. k), pf_locale = js ''en'',
      pf_pathname = (\<lambda>locale href. href), pf_message = (\<lambda>e. [])\<rparr>"

definition sample_world :: world where
  "sample_world = \<lparr>w_cookie = Some (js ''tok''), w_sent = [], w_revalidated = []\<rparr>"

lemma sample_session: "session_of sample_platform sample_world = Some (empty_session\<lparr>sd_token := Some (js ''tok'')\<rparr>)"
  by (simp add: session_of_def secret_ok_def sample_platform_def sample_world_def sample_secret_def)

definition sample_client :: admin_client where
  "sample_client = \<lparr>cl_base = js ''http://admin'', cl_auth = Some (js ''Bearer '' @ js ''tok'')\<rparr>"

lemma session_of_fetch [simp]: "session_of (pf\<lparr>pf_fetch := g\<rparr>) w = session_of pf w"
  by (simp add: session_of_def secret_ok_def split: option.split)

lemma client_of_fetch [simp]: "client_of (pf\<lparr>pf_fetch := g\<rparr>) w = client_of pf w"
  by (simp add: client_of_def session_of_def secret_ok_def split: option.split)

lemma sample_client_of [simp]: "client_of sample_platform sample_world = Some sample_client"
proof -
  have "pf_ADMIN_URL sample_platform = Some (js ''http://admin'')"
    by (simp add: sample_platform_def)
  then show ?thesis
    by (simp add: client_of_def sample_session createAdminClient_def sample_client_def)
qed

theorem toFormError_spec_witness:
  "toFormError (AdminError 401 (js ''auth'') (js ''expired'')) sample_platform sample_world =
     (Inl (NextRedirect (js ''/login'')), sample_world\<lparr>w_cookie := None\<rparr>)"
  using toFormError_spec [OF sample_session, of "AdminError 401 (js ''auth'') (js ''expired'')"] by simp

text \<open>In a page load a 401 leaves for the logout handler, a 403 becomes the forbidden
  outcome with the backend's message, and everything else is rethrown; no case changes the
  session.\<close>

theorem handleAdminError_spec:
  "handleAdminError e pf w =
     (case e of
        AdminError st ty msg \<Rightarrow>
          (if st = 401 then (Inl (NextRedirect (js ''/logout'')), w)
           else if st = 403 then (Inr msg, w) else (Inl e, w))
      | _ \<Rightarrow> (Inl e, w))"
  by (cases e) (simp_all add: handleAdminError_def)

text \<open>C13: the session round trip. If the sealing library opens what it sealed, then after
  \<^verbatim>\<open>setSession(data)\<close> every later \<^verbatim>\<open>getSession\<close> returns \<open>data\<close> and the admin client carries
  its token, and after \<^verbatim>\<open>clearSession\<close> the session is empty and the client sends no
  authorization.\<close>

theorem session_roundtrip:
  assumes "pf_ADMIN_URL pf = Some u" "u \<noteq> []" and "secret_ok pf = Some k"
    and "pf_unseal pf k (pf_seal pf k data) = data"
    and "sd_token data = Some t" "t \<noteq> []"
    and "w1 = w\<lparr>w_cookie := Some (pf_seal pf k data)\<rparr>" and "w0 = w\<lparr>w_cookie := None\<rparr>"
  shows "setSession data pf w = (Inr (), w1) \<and> getSession pf w1 = (Inr data, w1) \<and>
    serverAdminClient pf w1 =
      (Inr \<lparr>cl_base = u, cl_auth = Some (js ''Bearer '' @ t)\<rparr>, w1) \<and>
    clearSession pf w1 = (Inr (), w0) \<and> getSession pf w0 = (Inr empty_session, w0) \<and>
    serverAdminClient pf w0 = (Inr \<lparr>cl_base = u, cl_auth = None\<rparr>, w0)"
  using assms
  by (simp add: setSession_run getSession_run clearSession_run session_of_def bnd_apply
      serverAdminClient_def getToken_def createAdminClient_def) (simp add: empty_session_def)

theorem session_roundtrip_witness:
  "serverAdminClient sample_platform sample_world =
     (Inr \<lparr>cl_base = js ''http://admin'', cl_auth = Some (js ''Bearer '' @ js ''tok'')\<rparr>, sample_world)"
proof -
  let ?d = "empty_session\<lparr>sd_token := Some (js ''tok'')\<rparr>"
  have "pf_ADMIN_URL sample_platform = Some (js ''http://admin'')"
    "secret_ok sample_platform = Some sample_secret"
    "pf_unseal sample_platform sample_secret (pf_seal sample_platform sample_secret ?d) = ?d"
    "sample_world = sample_world\<lparr>w_cookie := Some (pf_seal sample_platform sample_secret ?d)\<rparr>"
    by (simp_all add: sample_platform_def secret_ok_def sample_world_def sample_secret_def)
  then show ?thesis
    using session_roundtrip [of sample_platform "js ''http://admin''" sample_secret ?d "js ''tok''"
        sample_world sample_world "sample_world\<lparr>w_cookie := None\<rparr>"]
    by simp
qed

text \<open>Permissions. A session passes a check when its list holds the permission or the
  wildcard, never without a list; \<^verbatim>\<open>hasAny\<close> passes when one of the permissions does.\<close>

theorem hasAny_iff:
  "hasAny s perms \<longleftrightarrow>
     (\<exists>ps. sd_permissions s = Some ps \<and> perms \<noteq> [] \<and> (js ''*'' \<in> set ps \<or> set perms \<inter> set ps \<noteq> {}))"
proof -
  have "has s p \<longleftrightarrow> (\<exists>ps. sd_permissions s = Some ps \<and> (js ''*'' \<in> set ps \<or> p \<in> set ps))" for p
    by (auto simp: has_def split: option.splits)
  then show ?thesis
    unfolding hasAny_def list_ex_iff by (cases perms) auto
qed

end
