(* ===== verification/Admin_Write.thy ===== *)
theory Admin_Write
  imports Server
begin

text \<open>
  The shape shared by the Server Actions of the dashboard: read the submitted
  form, validate it, call the admin API through the client of the session, turn
  a refusal into a message for the form, and mark the list stale on success.

  The contract of such an action is stated as three locales, each extending the
  one before. \<open>panel_action\<close>: every request goes through the client of the
  current session, the cookie is kept or destroyed, and only the action's own
  paths are revalidated. \<open>atomic_action\<close>: nothing is revalidated unless the
  action reports success. \<open>admin_write\<close>: success is reported only when the admin
  API accepted every request. Each action of the dashboard is an interpretation
  of the strongest of them that it satisfies.
\<close>

section \<open>Forms\<close>

text \<open>A submitted form: its text entries in document order.\<close>

type_synonym form = "(jsstr \<times> jsstr) list"

definition form_get :: "form \<Rightarrow> jsstr \<Rightarrow> jsstr option" where
  "form_get f k = map_of f k"

definition form_getAll :: "form \<Rightarrow> jsstr \<Rightarrow> jsstr list" where
  "form_getAll f k = map snd (filter (\<lambda>(k', v). k' = k) f)"

text \<open>\<^verbatim>\<open>String(formData.get(k) ?? "")\<close>, the same trimmed, and \<^verbatim>\<open>Number(formData.get(k))\<close>
  (a missing entry is \<^verbatim>\<open>null\<close>, and \<^verbatim>\<open>Number(null)\<close> is 0).\<close>

definition form_raw :: "form \<Rightarrow> jsstr \<Rightarrow> jsstr" where
  "form_raw f k = (case form_get f k of None \<Rightarrow> [] | Some s \<Rightarrow> s)"

definition form_str :: "form \<Rightarrow> jsstr \<Rightarrow> jsstr" where
  "form_str f k = js_trim (form_raw f k)"

definition form_num :: "form \<Rightarrow> jsstr \<Rightarrow> jsnum" where
  "form_num f k = (case form_get f k of None \<Rightarrow> Fin 0 | Some s \<Rightarrow> js_Number s)"

text \<open>\<^verbatim>\<open>String(formData.get(k))\<close> without a default.\<close>

definition form_String :: "form \<Rightarrow> jsstr \<Rightarrow> jsstr" where
  "form_String f k = (case form_get f k of None \<Rightarrow> js ''null'' | Some s \<Rightarrow> s)"

text \<open>\<^verbatim>\<open>xs[i]\<close> of an array of strings, \<^verbatim>\<open>undefined\<close> out of range.\<close>

definition str_at :: "jsstr list \<Rightarrow> nat \<Rightarrow> jsstr option" where
  "str_at xs i = (if i < length xs then Some (xs ! i) else None)"

text \<open>\<^verbatim>\<open>if (cond) body.k = v\<close> on a body under construction.\<close>

definition when_field :: "bool \<Rightarrow> jsstr \<Rightarrow> json \<Rightarrow> fields" where
  "when_field b k v = (if b then [(k, v)] else [])"

lemma when_field_simps [simp]: "when_field True k v = [(k, v)]" "when_field False k v = []"
  by (simp_all add: when_field_def)

section \<open>One checked request\<close>

text \<open>The recurring check \<^verbatim>\<open>if (error || !response.ok) ...\<close> on a response: the mapped message
  when it was refused. A message that is not a string makes \<^verbatim>\<open>mapBackendError\<close> throw.\<close>

definition refused :: "fetch_result \<Rightarrow> bool" where
  "refused r \<longleftrightarrow> truthy (fr_error r) \<or> \<not> response_ok r"

fun mapped_message :: "json \<Rightarrow> mapped_error res" where
  "mapped_message (JStr s) = Inr (mapBackendError s)"
| "mapped_message v = Inl TypeError"

definition mapped_result :: "mapped_error \<Rightarrow> form_result" where
  "mapped_result mapped = FormErr (me_fallback mapped) (me_key mapped)"

definition check_write :: "jsstr \<Rightarrow> fetch_result \<Rightarrow> mapped_error option res" where
  "check_write fallback r =
     (if refused r
      then rbind (mapped_message (coalesce (envelope (fr_error r) (js ''message'')) (JStr fallback)))
             (\<lambda>x. Inr (Some x))
      else Inr None)"

text \<open>One call with its check: \<open>None\<close> when the request was accepted.\<close>

definition send_checked ::
  "admin_client \<Rightarrow> http_method \<Rightarrow> jsstr \<Rightarrow> fields \<Rightarrow> fields \<Rightarrow> jsval \<Rightarrow> jsstr \<Rightarrow> mapped_error option act" where
  "send_checked c m path params query body fallback =
     bnd (call c m path params query body) (\<lambda>r. lift_res (check_write fallback r))"

text \<open>One call through \<^verbatim>\<open>unwrap\<close>, which throws an \<^verbatim>\<open>AdminError\<close> on a refusal.\<close>

definition send_unwrap ::
  "admin_client \<Rightarrow> http_method \<Rightarrow> jsstr \<Rightarrow> fields \<Rightarrow> fields \<Rightarrow> jsval \<Rightarrow> jsval act" where
  "send_unwrap c m path params query body =
     bnd (call c m path params query body) (\<lambda>r. lift_res (unwrap r))"

text \<open>The frame of the form actions: \<^verbatim>\<open>try { const client = await serverAdminClient(); ... }
  catch (err) { return toFormError(err); } revalidatePath(path); return { ok: true };\<close>, where the
  body of the try block either returns a failure or falls through.\<close>

fun revalidate_all :: "(jsstr \<times> jsstr option) list \<Rightarrow> unit act" where
  "revalidate_all [] = ret ()"
| "revalidate_all ((p, k) # ps) = bnd (revalidatePath p k) (\<lambda>_. revalidate_all ps)"

lemma revalidate_all_apply [simp]:
  "revalidate_all ps pf w = (Inr (), w\<lparr>w_revalidated := w_revalidated w @ ps\<rparr>)"
  by (induction ps arbitrary: w rule: revalidate_all.induct) (simp_all add: bnd_apply)

definition guarded_write ::
  "(jsstr \<times> jsstr option) list \<Rightarrow> (admin_client \<Rightarrow> mapped_error option act) \<Rightarrow> form_result act" where
  "guarded_write paths body =
     bnd (try_catch
            (bnd serverAdminClient (\<lambda>client. bnd (body client) (\<lambda>early. ret (map_option mapped_result early))))
            (\<lambda>err. bnd (toFormError err) (\<lambda>r. ret (Some r))))
       (\<lambda>early. case early of
          Some r \<Rightarrow> ret r
        | None \<Rightarrow> bnd (revalidate_all paths) (\<lambda>_. ret FormOk))"

definition is_ok :: "form_result \<Rightarrow> bool" where
  "is_ok r \<longleftrightarrow> r = FormOk"

lemma is_ok_simps [simp]: "is_ok FormOk" "\<not> is_ok (FormErr m k)"
  by (simp_all add: is_ok_def)

lemma not_ok_fail_mapped [simp]: "\<not> is_ok (fail_mapped m)"
  by (simp add: is_ok_def)

section \<open>The contract of an action\<close>

definition from_client :: "admin_client \<Rightarrow> areq \<Rightarrow> bool" where
  "from_client c q \<longleftrightarrow> rq_base q = cl_base c \<and> rq_auth q = cl_auth c"

text \<open>The admin API accepted the last request of a history.\<close>

definition accepted :: "platform \<Rightarrow> areq list \<Rightarrow> bool" where
  "accepted pf h = (case pf_fetch pf h of FetchResult r \<Rightarrow> \<not> refused r | FetchThrow e \<Rightarrow> False)"

definition all_accepted :: "platform \<Rightarrow> areq list \<Rightarrow> areq list \<Rightarrow> bool" where
  "all_accepted pf h rs \<longleftrightarrow> (\<forall>n<length rs. accepted pf (h @ take (Suc n) rs))"

lemma all_accepted_Nil [simp]: "all_accepted pf h []"
  by (simp add: all_accepted_def)

lemma all_accepted_single [simp]: "all_accepted pf h [q] \<longleftrightarrow> accepted pf (h @ [q])"
  by (simp add: all_accepted_def)

lemma all_accepted_append:
  assumes "all_accepted pf h rs" "all_accepted pf (h @ rs) rs'"
  shows "all_accepted pf h (rs @ rs')"
  unfolding all_accepted_def
proof (intro allI impI)
  fix n assume n: "n < length (rs @ rs')"
  show "accepted pf (h @ take (Suc n) (rs @ rs'))"
  proof (cases "n < length rs")
    case True
    with assms(1) show ?thesis by (simp add: all_accepted_def)
  next
    case False
    with n assms(2) have "accepted pf ((h @ rs) @ take (Suc (n - length rs)) rs')"
      unfolding all_accepted_def by (metis add_diff_inverse_nat length_append nat_add_left_cancel_less)
    with False show ?thesis by (simp add: Suc_diff_le)
  qed
qed

locale panel_action =
  fixes act :: "'a act" and ok :: "'a \<Rightarrow> bool" and paths :: "(jsstr \<times> jsstr option) list"
  assumes sends: "act pf w = (r, w') \<Longrightarrow>
      \<exists>rs. w_sent w' = w_sent w @ rs \<and>
        (\<forall>q\<in>set rs. \<exists>c. client_of pf w = Some c \<and> from_client c q)"
    and cookie: "act pf w = (r, w') \<Longrightarrow> w_cookie w' = w_cookie w \<or> w_cookie w' = None"
    and marks: "act pf w = (r, w') \<Longrightarrow>
      w_revalidated w' = w_revalidated w \<or> w_revalidated w' = w_revalidated w @ paths"
    and marks_ok: "act pf w = (Inr x, w') \<Longrightarrow> ok x \<Longrightarrow>
      w_revalidated w' = w_revalidated w @ paths"
begin

lemma no_client_sends_nothing:
  assumes "act pf w = (r, w')" "client_of pf w = None"
  shows "w_sent w' = w_sent w"
  using sends [OF assms(1)] assms(2) by (metis append_Nil2 list.set_intros(1) neq_Nil_conv option.distinct(1))

lemma sent_prefix:
  assumes "act pf w = (r, w')"
  shows "prefix (w_sent w) (w_sent w')"
  using sends [OF assms] by (auto simp: prefix_def)

lemma signed_out:
  assumes "act pf w = (r, w')" "client_of pf w = Some c" "cl_auth c = None"
    and "q \<in> set (w_sent w')" "q \<notin> set (w_sent w)"
  shows "rq_auth q = None"
  using sends [OF assms(1)] assms(2-) by (auto simp: from_client_def)

end

locale atomic_action = panel_action act ok paths
  for act :: "'a act" and ok :: "'a \<Rightarrow> bool" and paths :: "(jsstr \<times> jsstr option) list" +
  assumes silent: "act pf w = (r, w') \<Longrightarrow> (\<And>x. r = Inr x \<Longrightarrow> \<not> ok x) \<Longrightarrow>
      w_revalidated w' = w_revalidated w"
begin

lemma revalidates_iff:
  assumes "act pf w = (r, w')" "paths \<noteq> []"
  shows "w_revalidated w' \<noteq> w_revalidated w \<longleftrightarrow> (\<exists>x. r = Inr x \<and> ok x)"
  using assms silent [OF assms(1)] marks_ok by fastforce

end

locale admin_write = atomic_action act ok paths
  for act :: "'a act" and ok :: "'a \<Rightarrow> bool" and paths :: "(jsstr \<times> jsstr option) list" +
  assumes accepts: "act pf w = (Inr x, w') \<Longrightarrow> ok x \<Longrightarrow> w_sent w' = w_sent w @ rs \<Longrightarrow>
      all_accepted pf (w_sent w) rs"
begin

lemma refusal_is_reported:
  assumes "act pf w = (Inr x, w')" "w_sent w' = w_sent w @ rs @ q # rs'"
    and "\<not> accepted pf (w_sent w @ rs @ [q])"
  shows "\<not> ok x"
proof
  assume "ok x"
  then have "all_accepted pf (w_sent w) (rs @ q # rs')"
    using accepts [OF assms(1)] assms(2) by blast
  then have "accepted pf (w_sent w @ take (Suc (length rs)) (rs @ q # rs'))"
    unfolding all_accepted_def by (metis length_append length_Cons less_add_Suc1 add_Suc_right)
  with assms(3) show False by simp
qed

end

section \<open>Discharging the contract\<close>

text \<open>A computation that runs inside a try block: it only sends requests through the client \<open>c\<close>,
  and a result that \<open>good\<close> accepts means that every request was accepted.\<close>

definition quiet :: "admin_client \<Rightarrow> ('b \<Rightarrow> bool) \<Rightarrow> 'b act \<Rightarrow> bool" where
  "quiet c good m \<longleftrightarrow> (\<forall>pf w. \<exists>rs. snd (m pf w) = w\<lparr>w_sent := w_sent w @ rs\<rparr> \<and>
     (\<forall>q\<in>set rs. from_client c q) \<and>
     (\<forall>x. fst (m pf w) = Inr x \<and> good x \<longrightarrow> all_accepted pf (w_sent w) rs))"

named_theorems quiet_intros
named_theorems contract_intros

lemma quietD:
  assumes "quiet c good m" "m pf w = (r, w')"
  obtains rs where "w' = w\<lparr>w_sent := w_sent w @ rs\<rparr>" "\<forall>q\<in>set rs. from_client c q"
    "\<And>x. r = Inr x \<Longrightarrow> good x \<Longrightarrow> all_accepted pf (w_sent w) rs"
  using assms unfolding quiet_def by (metis fst_conv snd_conv)

lemma quietI:
  assumes "\<And>pf w. \<exists>rs. snd (m pf w) = w\<lparr>w_sent := w_sent w @ rs\<rparr> \<and>
     (\<forall>q\<in>set rs. from_client c q) \<and>
     (\<forall>x. fst (m pf w) = Inr x \<and> good x \<longrightarrow> all_accepted pf (w_sent w) rs)"
  shows "quiet c good m"
  using assms by (simp add: quiet_def)

lemma quiet_ret [quiet_intros]: "quiet c good (ret x)"
  by (rule quietI) (rule exI [of _ "[]"], simp)

lemma quiet_throw [quiet_intros]: "quiet c good (throw e)"
  by (rule quietI) (rule exI [of _ "[]"], simp)

lemma quiet_lift [quiet_intros]: "quiet c good (lift_res r)"
  by (rule quietI) (rule exI [of _ "[]"], simp)

lemma quiet_if [quiet_intros]:
  "(b \<Longrightarrow> quiet c good m) \<Longrightarrow> (\<not> b \<Longrightarrow> quiet c good m') \<Longrightarrow> quiet c good (if b then m else m')"
  by simp

text \<open>In a sequence an intermediate value counts as good only if the rest can still succeed.\<close>

lemma quiet_bnd:
  assumes m: "quiet c good m" and f: "\<And>x. quiet c good' (f x)"
    and bad: "\<And>x pf w y w'. \<not> good x \<Longrightarrow> f x pf w = (Inr y, w') \<Longrightarrow> \<not> good' y"
  shows "quiet c good' (bnd m f)"
proof (rule quietI)
  fix pf w
  obtain r w1 where run: "m pf w = (r, w1)" by fastforce
  obtain rs where rs: "w1 = w\<lparr>w_sent := w_sent w @ rs\<rparr>" "\<forall>q\<in>set rs. from_client c q"
    "\<And>x. r = Inr x \<Longrightarrow> good x \<Longrightarrow> all_accepted pf (w_sent w) rs"
    by (rule quietD [OF m run]) blast
  show "\<exists>rs. snd (bnd m f pf w) = w\<lparr>w_sent := w_sent w @ rs\<rparr> \<and>
     (\<forall>q\<in>set rs. from_client c q) \<and>
     (\<forall>x. fst (bnd m f pf w) = Inr x \<and> good' x \<longrightarrow> all_accepted pf (w_sent w) rs)"
  proof (cases r)
    case (Inl e)
    with run rs show ?thesis by (intro exI [of _ rs]) (simp add: bnd_Inl)
  next
    case (Inr x)
    obtain r2 w2 where run2: "f x pf w1 = (r2, w2)" by fastforce
    obtain rs2 where rs2: "w2 = w1\<lparr>w_sent := w_sent w1 @ rs2\<rparr>" "\<forall>q\<in>set rs2. from_client c q"
      "\<And>y. r2 = Inr y \<Longrightarrow> good' y \<Longrightarrow> all_accepted pf (w_sent w1) rs2"
      by (rule quietD [OF f run2]) blast
    have "all_accepted pf (w_sent w) (rs @ rs2)" if "r2 = Inr y" "good' y" for y
      using rs(3) [OF Inr] rs2(3) [OF that] bad [of x pf w1 y w2] run2 that
      by (auto intro!: all_accepted_append simp: rs(1))
    with run Inr run2 rs rs2 show ?thesis
      by (intro exI [of _ "rs @ rs2"]) (auto simp: bnd_Inr)
  qed
qed

lemma quiet_call: "quiet c (\<lambda>r. \<not> refused r) (call c m path params query body)"
proof (rule quietI)
  fix pf w
  show "\<exists>rs. snd (call c m path params query body pf w) = w\<lparr>w_sent := w_sent w @ rs\<rparr> \<and>
     (\<forall>q\<in>set rs. from_client c q) \<and>
     (\<forall>x. fst (call c m path params query body pf w) = Inr x \<and> \<not> refused x \<longrightarrow>
       all_accepted pf (w_sent w) rs)"
    by (rule exI [of _ "[mk_req c m path params query body]"])
      (auto simp: call_def Let_def from_client_def mk_req_def accepted_def split: fetch_outcome.splits)
qed

lemma check_write_Inr_None: "check_write fb r = Inr None \<longleftrightarrow> \<not> refused r"
  by (auto simp: check_write_def rbind_Inr_conv)

lemma unwrap_Inr: "unwrap r = Inr v \<Longrightarrow> \<not> refused r \<and> v = fr_data r"
  by (auto simp: unwrap_def refused_def split: if_splits)

lemma quiet_send_checked [quiet_intros]:
  "quiet c (\<lambda>r. r = None) (send_checked c m path params query body fb)"
  unfolding send_checked_def
  by (rule quiet_bnd [OF quiet_call quiet_lift]) (metis check_write_Inr_None lift_res_apply prod.inject)

lemma quiet_send_unwrap [quiet_intros]:
  "quiet c (\<lambda>r. True) (send_unwrap c m path params query body)"
  unfolding send_unwrap_def
  by (rule quiet_bnd [OF quiet_call quiet_lift]) (auto dest: unwrap_Inr)

text \<open>Two checked steps in a row, as \<^verbatim>\<open>updateProvider\<close> has them.\<close>

lemma quiet_then [quiet_intros]:
  assumes "quiet c (\<lambda>r. r = None) m" "quiet c (\<lambda>r. r = None) m'"
  shows "quiet c (\<lambda>r. r = None) (bnd m (\<lambda>early. case early of Some r \<Rightarrow> ret (Some r) | None \<Rightarrow> m'))"
  by (rule quiet_bnd [OF assms(1)]) (auto simp: quiet_ret assms(2) split: option.splits)

text \<open>A whole action from its parts: whatever the handler of the catch block is, as long as it
  keeps the frame.\<close>

definition tame_handler :: "(jserror \<Rightarrow> 'a act) \<Rightarrow> ('a \<Rightarrow> bool) \<Rightarrow> bool" where
  "tame_handler h ok \<longleftrightarrow> (\<forall>e pf w r w'. h e pf w = (r, w') \<longrightarrow>
     w_sent w' = w_sent w \<and> w_revalidated w' = w_revalidated w \<and>
     (w_cookie w' = w_cookie w \<or> w_cookie w' = None) \<and> (\<forall>x. r = Inr x \<longrightarrow> \<not> ok x))"

lemma tame_handlerD:
  assumes "tame_handler h ok" "h e pf w = (r, w')"
  shows "w_sent w' = w_sent w" "w_revalidated w' = w_revalidated w"
    "w_cookie w' = w_cookie w \<or> w_cookie w' = None" "r = Inr x \<Longrightarrow> \<not> ok x"
  using assms unfolding tame_handler_def by metis+

lemma tame_toFormError: "tame_handler toFormError is_ok"
  unfolding tame_handler_def
  using toFormError_frame by (metis is_ok_def)

definition attempt ::
  "(admin_client \<Rightarrow> 'b act) \<Rightarrow> (jserror \<Rightarrow> 'a act) \<Rightarrow> ('b \<Rightarrow> 'a + (jsstr \<times> jsstr option) list \<times> 'a) \<Rightarrow> 'a act" where
  "attempt body h fin = (\<lambda>pf w.
     case bnd serverAdminClient body pf w of
       (Inl e, w') \<Rightarrow> h e pf w'
     | (Inr x, w') \<Rightarrow> (case fin x of Inl r \<Rightarrow> (Inr r, w')
         | Inr (ps, r) \<Rightarrow> (Inr r, w'\<lparr>w_revalidated := w_revalidated w' @ ps\<rparr>)))"

lemma client_body_run:
  assumes "bnd serverAdminClient body pf w = (r, w')" "\<And>c. quiet c good (body c)"
  obtains rs where "w' = w\<lparr>w_sent := w_sent w @ rs\<rparr>"
    "\<forall>q\<in>set rs. \<exists>c. client_of pf w = Some c \<and> from_client c q"
    "\<And>x. r = Inr x \<Longrightarrow> good x \<Longrightarrow> all_accepted pf (w_sent w) rs"
proof (cases "client_of pf w")
  case None
  obtain m where "serverAdminClient pf w = (Inl (PlainError m), w)"
    using serverAdminClient_run [of pf w] None by auto
  with assms(1) have "r = Inl (PlainError m)" "w' = w" by (simp_all add: bnd_Inl)
  with that [of "[]"] show ?thesis by simp
next
  case (Some c)
  obtain m where "serverAdminClient pf w = (Inr c, w)"
    using serverAdminClient_run [of pf w] Some by auto
  with assms(1) have "body c pf w = (r, w')" by (simp add: bnd_Inr)
  from quietD [OF assms(2) this] that Some show ?thesis by metis
qed

lemma attempt_run:
  assumes act: "attempt body h fin pf w = (r, w')"
    and quiet: "\<And>c. quiet c good (body c)" and h: "tame_handler h ok"
    and stop: "\<And>x r. fin x = Inl r \<Longrightarrow> \<not> ok r"
    and go: "\<And>x ps r. fin x = Inr (ps, r) \<Longrightarrow> ok r \<and> ps = paths"
  obtains rs where "w_sent w' = w_sent w @ rs"
    "\<forall>q\<in>set rs. \<exists>c. client_of pf w = Some c \<and> from_client c q"
    "\<And>x. r = Inr x \<Longrightarrow> ok x \<Longrightarrow> (\<And>y p. fin y = Inr p \<Longrightarrow> good y) \<Longrightarrow> all_accepted pf (w_sent w) rs"
    "w_cookie w' = w_cookie w \<or> w_cookie w' = None"
    "w_revalidated w' = w_revalidated w @ (case r of Inr x \<Rightarrow> if ok x then paths else [] | Inl e \<Rightarrow> [])"
proof -
  obtain r1 w1 where b: "bnd serverAdminClient body pf w = (r1, w1)" by fastforce
  obtain rs where rs: "w1 = w\<lparr>w_sent := w_sent w @ rs\<rparr>"
    "\<forall>q\<in>set rs. \<exists>c. client_of pf w = Some c \<and> from_client c q"
    "\<And>x. r1 = Inr x \<Longrightarrow> good x \<Longrightarrow> all_accepted pf (w_sent w) rs"
    by (rule client_body_run [OF b quiet]) blast
  show thesis
  proof (cases r1)
    case (Inl e)
    with act b have he: "h e pf w1 = (r, w')" by (simp add: attempt_def)
    show thesis
      by (rule that [of rs]) (use tame_handlerD [OF h he] rs(1,2) in \<open>auto split: sum.splits\<close>)
  next
    case x: (Inr x)
    show thesis
    proof (cases "fin x")
      case (Inl r')
      show thesis
        by (rule that [of rs]) (use act b x Inl rs(1,2) stop [OF Inl] in \<open>auto simp: attempt_def\<close>)
    next
      case (Inr p)
      obtain ps r' where p: "p = (ps, r')" by fastforce
      with Inr go have "ok r'" "ps = paths" by blast+
      with act b x Inr p have res: "r = Inr r'" "w' = w1\<lparr>w_revalidated := w_revalidated w1 @ paths\<rparr>"
        by (auto simp: attempt_def)
      show thesis
        by (rule that [of rs]) (use x Inr rs res \<open>ok r'\<close> in auto)
    qed
  qed
qed

lemma attempt_atomic:
  assumes "\<And>c. quiet c good (body c)" "tame_handler h ok"
    "\<And>x r. fin x = Inl r \<Longrightarrow> \<not> ok r"
    "\<And>x ps r. fin x = Inr (ps, r) \<Longrightarrow> ok r \<and> ps = paths"
  shows "atomic_action (attempt body h fin) ok paths"
proof unfold_locales
  fix pf w r w' assume act: "attempt body h fin pf w = (r, w')"
  show "\<exists>rs. w_sent w' = w_sent w @ rs \<and>
        (\<forall>q\<in>set rs. \<exists>c. client_of pf w = Some c \<and> from_client c q)"
    by (rule attempt_run [OF act assms]) blast+
  show "w_cookie w' = w_cookie w \<or> w_cookie w' = None"
    by (rule attempt_run [OF act assms]) blast+
  show "w_revalidated w' = w_revalidated w \<or> w_revalidated w' = w_revalidated w @ paths"
    by (rule attempt_run [OF act assms]) (auto split: sum.splits)
next
  fix pf w x w' assume act: "attempt body h fin pf w = (Inr x, w')" and "ok x"
  show "w_revalidated w' = w_revalidated w @ paths"
    by (rule attempt_run [OF act assms]) (use \<open>ok x\<close> in auto)
next
  fix pf w r w'
  assume act: "attempt body h fin pf w = (r, w')" and bad: "\<And>x. r = Inr x \<Longrightarrow> \<not> ok x"
  show "w_revalidated w' = w_revalidated w"
    by (rule attempt_run [OF act assms]) (use bad in \<open>auto split: sum.splits\<close>)
qed

lemma attempt_contract:
  assumes "\<And>c. quiet c good (body c)" "tame_handler h ok"
    "\<And>x r. fin x = Inl r \<Longrightarrow> \<not> ok r"
    "\<And>x ps r. fin x = Inr (ps, r) \<Longrightarrow> ok r \<and> ps = paths"
    and good: "\<And>x p. fin x = Inr p \<Longrightarrow> good x"
  shows "admin_write (attempt body h fin) ok paths"
proof (intro admin_write.intro admin_write_axioms.intro)
  show "atomic_action (attempt body h fin) ok paths"
    by (rule attempt_atomic [OF assms(1-4)])
next
  fix pf w x w' rs
  assume act: "attempt body h fin pf w = (Inr x, w')" and "ok x" and sent: "w_sent w' = w_sent w @ rs"
  show "all_accepted pf (w_sent w) rs"
    by (rule attempt_run [OF act assms(1-4)]) (use \<open>ok x\<close> sent good in auto)
qed

lemma guarded_write_attempt:
  "guarded_write paths body =
     attempt body toFormError (\<lambda>early. case early of Some m \<Rightarrow> Inl (mapped_result m) | None \<Rightarrow> Inr (paths, FormOk))"
  by (intro ext)
    (auto simp: guarded_write_def attempt_def try_catch_apply bnd_apply split: sum.splits option.splits prod.splits)


lemma guarded_write_contract [contract_intros]:
  assumes "\<And>c. quiet c (\<lambda>r. r = None) (body c)"
  shows "admin_write (guarded_write paths body) is_ok paths"
  unfolding guarded_write_attempt
  by (rule attempt_contract [OF assms tame_toFormError])
    (auto simp: mapped_result_def split: option.splits)

lemma guarded_write_atomic:
  assumes "\<And>c. quiet c good (body c)"
  shows "atomic_action (guarded_write paths body) is_ok paths"
  unfolding guarded_write_attempt
  by (rule attempt_atomic [OF assms tame_toFormError])
    (auto simp: mapped_result_def split: option.splits)

text \<open>A validation in front of an action: it answers without any effect.\<close>

lemma validated_contract [contract_intros]:
  assumes "\<not> ok x" "admin_write act ok paths"
  shows "admin_write (if b then ret x else act) ok paths"
proof (cases b)
  case True
  have "admin_write (ret x) ok paths"
    by unfold_locales (use assms(1) in auto)
  with True show ?thesis by simp
next
  case False
  with assms(2) show ?thesis by simp
qed

section \<open>Running an action\<close>

text \<open>A single checked request, run to the end: the request is sent with the session's client and
  the answer decides.\<close>

definition after_call :: "(jsstr \<times> jsstr option) list \<Rightarrow> jsstr \<Rightarrow> platform \<Rightarrow> world \<Rightarrow> form_result res \<times> world" where
  "after_call paths fallback pf w1 =
     (case pf_fetch pf (w_sent w1) of
        FetchThrow e \<Rightarrow> toFormError e pf w1
      | FetchResult r \<Rightarrow>
          if refused r
          then (case mapped_message (coalesce (envelope (fr_error r) (js ''message'')) (JStr fallback)) of
                  Inr m \<Rightarrow> (Inr (mapped_result m), w1)
                | Inl e \<Rightarrow> (Inr (FormErr (js ''unexpected error'') None), w1))
          else (Inr FormOk, w1\<lparr>w_revalidated := w_revalidated w1 @ paths\<rparr>))"

lemma mapped_message_Inl: "mapped_message v = Inl e \<Longrightarrow> e = TypeError"
  by (cases v) auto

lemma guarded_write_run:
  assumes "client_of pf w = Some c"
    and "body c = send_checked c m path params query b fallback"
  shows "guarded_write paths body pf w =
    after_call paths fallback pf (w\<lparr>w_sent := w_sent w @ [mk_req c m path params query b]\<rparr>)"
proof -
  have "serverAdminClient pf w = (Inr c, w)"
    using serverAdminClient_run [of pf w] assms(1) by auto
  then show ?thesis
    by (auto simp: guarded_write_attempt attempt_def bnd_apply assms(2) send_checked_def call_def
        check_write_def after_call_def Let_def rbind_def dest: mapped_message_Inl split: fetch_outcome.splits sum.splits)
qed

lemma guarded_send_run:
  "client_of pf w = Some c \<Longrightarrow>
   guarded_write paths (\<lambda>client. send_checked client m path params query b fallback) pf w =
     after_call paths fallback pf (w\<lparr>w_sent := w_sent w @ [mk_req c m path params query b]\<rparr>)"
  by (rule guarded_write_run) simp_all

lemma guarded_write_no_client:
  assumes "client_of pf w = None"
  shows "guarded_write paths body pf w = (Inr (FormErr (js ''unexpected error'') None), w)"
proof -
  obtain m where "serverAdminClient pf w = (Inl (PlainError m), w)"
    using serverAdminClient_run [of pf w] assms by auto
  then show ?thesis
    by (simp add: guarded_write_attempt attempt_def bnd_apply)
qed


lemma after_call_sent [simp]: "w_sent (snd (after_call paths fb pf w1)) = w_sent w1"
proof -
  have "w_sent (snd (toFormError e pf w1)) = w_sent w1" for e
    using toFormError_frame(1) [of e pf w1] by (metis prod.collapse)
  then show ?thesis
    by (auto simp: after_call_def split: fetch_outcome.splits sum.splits)
qed

text \<open>A form entry that is missing or holds only white space.\<close>

definition blank :: "form \<Rightarrow> jsstr \<Rightarrow> bool" where
  "blank f k \<longleftrightarrow> list_all js_ws (form_raw f k)"

lemma form_str_blank: "form_str f k = [] \<longleftrightarrow> blank f k"
  by (simp add: form_str_def blank_def js_trim_eq_Nil)

lemma fail_mapped_plain:
  "\<not> js_startsWith m (js ''errors.'') \<Longrightarrow> fail_mapped m = FormErr m None"
  by (simp add: fail_mapped_def mapBackendError_def)


text \<open>Evaluating a concrete form.\<close>

lemmas form_eval = blank_def form_str_def form_num_def form_raw_def form_get_def form_getAll_def
  js_trim_def js_ws_def js_def

end
