(* ===== verification/Money.thy ===== *)
theory Money
  imports Js_Number
begin

text \<open>
  Monetary amounts: \<^verbatim>\<open>web/src/lib/money.ts\<close>. Amounts are integers of micro-units
  held in a JavaScript number; \<open>microToDisplay\<close> and \<open>displayToMicro\<close> translate
  them from and to decimal strings. The arithmetic is that of binary64 doubles,
  so the theorems show that the conversions are exact on every safe integer in
  spite of the floating-point division the code performs.
\<close>

section \<open>The conversions\<close>

definition MICRO_PER_UNIT :: rat where
  "MICRO_PER_UNIT = 1000000"

definition DECIMALS :: nat where
  "DECIMALS = 2"

definition SCALE :: rat where
  "SCALE = 10 ^ DECIMALS"

definition microToDisplay :: "jsnum \<Rightarrow> jsstr" where
  "microToDisplay micro =
     (let negative = num_lt micro (Fin 0);
          abs = num_abs micro;
          whole = num_floor (num_divc abs MICRO_PER_UNIT);
          remainder = num_modc abs MICRO_PER_UNIT;
          frac0 = num_floor (num_divc
                    (num_add (num_mul remainder (Fin SCALE)) (num_divc (Fin MICRO_PER_UNIT) 2))
                    MICRO_PER_UNIT);
          carry = num_le (Fin SCALE) frac0;
          wholeOut = (if carry then num_add whole (Fin 1) else whole);
          frac = (if carry then num_sub frac0 (Fin SCALE) else frac0);
          fracStr = js_padStart DECIMALS 48 (num_repr frac);
          sign = (if negative \<and> (wholeOut \<noteq> Fin 0 \<or> frac \<noteq> Fin 0) then js ''-'' else [])
      in sign @ num_repr wholeOut @ js ''.'' @ fracStr)"

text \<open>The groups of the regular expression \<^verbatim>\<open>/^(-)?(\d+)(?:\.(\d+))?$/\<close>: whether the sign
  is present, the integer part and the fraction part if any.\<close>

definition match_unsigned :: "jsstr \<Rightarrow> (jsstr \<times> jsstr option) option" where
  "match_unsigned u =
     (if takeWhile is_digit u = [] then None
      else case dropWhile is_digit u of
        [] \<Rightarrow> Some (takeWhile is_digit u, None)
      | c # fp \<Rightarrow>
          if c = 0x2E \<and> fp \<noteq> [] \<and> list_all is_digit fp
          then Some (takeWhile is_digit u, Some fp) else None)"

definition match_amount :: "jsstr \<Rightarrow> (bool \<times> jsstr \<times> jsstr option) option" where
  "match_amount s =
     (let sign = js_startsWith s (js ''-'')
      in map_option (\<lambda>(ip, fp). (sign, ip, fp)) (match_unsigned (if sign then drop 1 s else s)))"

definition displayToMicro :: "jsstr \<Rightarrow> jsnum res" where
  "displayToMicro input =
     (let trimmed = js_trim input in
      case match_amount trimmed of
        None \<Rightarrow> Inl (RangeError (js ''invalid decimal amount: \"'' @ input @ js ''\"''))
      | Some (sign, intPart, fracPart) \<Rightarrow>
          (let fracDigits = take 6 ((case fracPart of None \<Rightarrow> [] | Some f \<Rightarrow> f) @ js ''000000'');
               n = js_Number (intPart @ fracDigits)
           in Inr (if sign then num_neg n else n)))"

section \<open>Reference semantics\<close>

text \<open>Cents by round-half-up, the rounding rule the module documents, in exact integers.\<close>

definition cents :: "int \<Rightarrow> int" where
  "cents m = (m + 5000) div 10000"

definition two_digits :: "int \<Rightarrow> jsstr" where
  "two_digits n = js_padStart 2 48 (digits10 (nat n))"

definition display_cents :: "bool \<Rightarrow> int \<Rightarrow> jsstr" where
  "display_cents neg c =
     (if neg \<and> c \<noteq> 0 then js ''-'' else []) @
     digits10 (nat (c div 100)) @ js ''.'' @ two_digits (c mod 100)"

section \<open>Display is exact\<close>

lemma safeI: "0 \<le> n \<Longrightarrow> n \<le> 2 ^ 53 \<Longrightarrow> safe n"
  by (simp add: safe_def)

lemma frac_exact:
  assumes "0 \<le> r" and "r < 1000000"
  shows "num_floor (num_divc
           (num_add (num_mul (num_int r) (Fin SCALE)) (num_divc (Fin MICRO_PER_UNIT) 2))
           MICRO_PER_UNIT) = num_int ((r * 100 + 500000) div 1000000)"
proof -
  have "num_mul (num_int r) (Fin SCALE) = num_int (r * 100)"
    using num_mul_int [of r 100] assms by (simp add: SCALE_def DECIMALS_def safe_def)
  moreover have "num_divc (Fin MICRO_PER_UNIT) 2 = num_int 500000"
    using round_double_int [of 500000] by (simp add: MICRO_PER_UNIT_def safe_def)
  moreover have "num_add (num_int (r * 100)) (num_int 500000) = num_int (r * 100 + 500000)"
    using assms by (intro num_add_int) (simp add: safe_def)
  ultimately show ?thesis
    using floor_divc_int [of "r * 100 + 500000" 1000000] assms
    by (simp add: MICRO_PER_UNIT_def)
qed

lemma two_digits_0: "two_digits 0 = js ''00''"
  by (simp add: two_digits_def js_padStart_def digits10_lt10) (simp add: js_def digit_chr_def)

lemma cents_split:
  assumes "0 \<le> m"
  shows "cents m = 100 * (m div 1000000) + ((m mod 1000000) * 100 + 500000) div 1000000"
proof -
  define q r where "q = m div 1000000" and "r = m mod 1000000"
  have m: "m = 1000000 * q + r"
    by (simp add: q_def r_def)
  have "(r * 100 + 500000) div 1000000 = (r + 5000) div 10000"
    using div_mult_mult1 [of 100 "r + 5000" 10000] by (simp add: algebra_simps)
  moreover have "(1000000 * q + r + 5000) div 10000 = 100 * q + (r + 5000) div 10000"
    using div_mult_self2 [of 10000 "r + 5000" "100 * q"] by (simp add: algebra_simps)
  ultimately show ?thesis
    unfolding cents_def q_def [symmetric] r_def [symmetric] by (subst m) simp
qed

lemma microToDisplay_parts:
  assumes "\<bar>m\<bar> < 2 ^ 53" and q_def: "q = \<bar>m\<bar> div 1000000" and f_def: "f = (\<bar>m\<bar> mod 1000000 * 100 + 500000) div 1000000"
  shows "microToDisplay (num_int m) =
    (if f = 100 then (if m < 0 then js ''-'' else []) @ digits10 (nat (q + 1)) @ js ''.'' @ two_digits 0
     else (if m < 0 \<and> (q \<noteq> 0 \<or> f \<noteq> 0) then js ''-'' else []) @
       num_repr (num_int q) @ js ''.'' @ js_padStart 2 48 (num_repr (num_int f)))"
proof -
  let ?a = "\<bar>m\<bar>" and ?r = "\<bar>m\<bar> mod 1000000"
  have q: "0 \<le> q" "q < 2 ^ 34" using assms(1) by (simp_all add: q_def)
  have whole: "num_floor (num_divc (num_int ?a) MICRO_PER_UNIT) = num_int q"
    using floor_divc_int [of ?a 1000000] assms(1) by (simp add: MICRO_PER_UNIT_def q_def)
  have rem: "num_modc (num_int ?a) MICRO_PER_UNIT = num_int ?r"
    using num_modc_int [of ?a 1000000] assms(1) by (simp add: MICRO_PER_UNIT_def)
  have frac: "num_floor (num_divc
      (num_add (num_mul (num_int ?r) (Fin SCALE)) (num_divc (Fin MICRO_PER_UNIT) 2)) MICRO_PER_UNIT) = num_int f"
    using frac_exact [of ?r] by (simp only: f_def)
  have neg: "num_lt (num_int m) (Fin 0) \<longleftrightarrow> m < 0" and abs: "num_abs (num_int m) = num_int ?a" by simp_all
  note base = microToDisplay_def Let_def neg abs whole rem frac
  show ?thesis
  proof (cases "f = 100")
    case True
    have "num_add (num_int q) (Fin 1) = num_int (q + 1)"
      using num_add_int [of q 1] q by (simp add: safe_def)
    moreover have "num_sub (num_int f) (Fin SCALE) = num_int 0"
      using num_add_int [of 100 "- 100"] True by (simp add: num_sub_def SCALE_def DECIMALS_def safe_def)
    ultimately show ?thesis
      using True q num_repr_int [of 0] num_repr_int [of "q + 1"] unfolding base
      by (simp add: SCALE_def DECIMALS_def two_digits_def)
  next
    case False
    have "f < 100" using False by (simp add: f_def)
    with False show ?thesis unfolding base by (simp add: SCALE_def DECIMALS_def)
  qed
qed

lemma microToDisplay_cents:
  assumes "\<bar>m\<bar> < 2 ^ 53"
  shows "microToDisplay (num_int m) = display_cents (m < 0) (cents \<bar>m\<bar>)"
proof -
  define q f where q_def: "q = \<bar>m\<bar> div 1000000" and f_def: "f = (\<bar>m\<bar> mod 1000000 * 100 + 500000) div 1000000"
  have q: "0 \<le> q" "q < 2 ^ 34" and f: "0 \<le> f" "f \<le> 100" using assms by (simp_all add: q_def f_def)
  have c: "cents \<bar>m\<bar> = 100 * q + f" using cents_split [of "\<bar>m\<bar>"] by (simp add: q_def f_def)
  note parts = microToDisplay_parts [OF assms q_def f_def]
  show ?thesis
  proof (cases "f = 100")
    case True
    then have "cents \<bar>m\<bar> div 100 = q + 1" "cents \<bar>m\<bar> mod 100 = 0" "cents \<bar>m\<bar> \<noteq> 0" using c q by auto
    with True show ?thesis by (simp add: parts display_cents_def)
  next
    case False
    with f have f': "f < 100" by simp
    have "cents \<bar>m\<bar> div 100 = q" "cents \<bar>m\<bar> mod 100 = f" "cents \<bar>m\<bar> = 0 \<longleftrightarrow> q = 0 \<and> f = 0"
      using c f f' q by auto
    with False q f f' show ?thesis by (simp add: parts display_cents_def two_digits_def pos_repr_int)
  qed
qed

section \<open>Parsing amounts\<close>

text \<open>The strings of the regular expression, rendered from their groups.\<close>

definition amount_str :: "bool \<Rightarrow> jsstr \<Rightarrow> jsstr option \<Rightarrow> jsstr" where
  "amount_str sign ip fp =
     (if sign then js ''-'' else []) @ ip @ (case fp of None \<Rightarrow> [] | Some f \<Rightarrow> js ''.'' @ f)"

definition digit_str :: "jsstr \<Rightarrow> bool" where
  "digit_str s \<longleftrightarrow> s \<noteq> [] \<and> list_all is_digit s"

lemma digit_str_digits10 [simp]: "digit_str (digits10 n)"
  by (auto simp: digit_str_def list_all_iff digits10_is_digit)

lemma not_digit [simp]: "\<not> is_digit 0x2D" "\<not> is_digit 0x2E"
  by (simp_all add: is_digit_def)

lemma js_minus: "js ''-'' = [0x2D]" and js_dot: "js ''.'' = [0x2E]"
  by (simp_all add: js_def)

lemma match_unsigned_iff:
  "match_unsigned u = Some (ip, fp) \<longleftrightarrow>
     u = ip @ (case fp of None \<Rightarrow> [] | Some f \<Rightarrow> 0x2E # f) \<and> digit_str ip \<and>
     (\<forall>f. fp = Some f \<longrightarrow> digit_str f)"
proof
  assume "match_unsigned u = Some (ip, fp)"
  then show "u = ip @ (case fp of None \<Rightarrow> [] | Some f \<Rightarrow> 0x2E # f) \<and> digit_str ip \<and>
     (\<forall>f. fp = Some f \<longrightarrow> digit_str f)"
    by (subst takeWhile_dropWhile_id [of is_digit u, symmetric],
        auto simp: match_unsigned_def digit_str_def list_all_iff simp del: takeWhile_dropWhile_id
          split: if_splits list.splits dest: set_takeWhileD)
next
  assume u: "u = ip @ (case fp of None \<Rightarrow> [] | Some f \<Rightarrow> 0x2E # f) \<and> digit_str ip \<and>
     (\<forall>f. fp = Some f \<longrightarrow> digit_str f)"
  then have all: "\<And>c. c \<in> set ip \<Longrightarrow> is_digit c" and ne: "ip \<noteq> []"
    by (auto simp: digit_str_def list_all_iff)
  have tw: "takeWhile is_digit u = ip" "dropWhile is_digit u = (case fp of None \<Rightarrow> [] | Some f \<Rightarrow> 0x2E # f)"
    using u all by (auto split: option.splits)
  show "match_unsigned u = Some (ip, fp)"
    unfolding match_unsigned_def tw using u ne
    by (auto simp: digit_str_def split: option.splits)
qed

lemma amount_str_alt:
  "amount_str sign ip fp =
     (if sign then [0x2D] else []) @ ip @ (case fp of None \<Rightarrow> [] | Some f \<Rightarrow> 0x2E # f)"
  by (simp add: amount_str_def js_minus js_dot split: option.splits)

lemma match_amount_iff:
  "match_amount s = Some (sign, ip, fp) \<longleftrightarrow>
     s = amount_str sign ip fp \<and> digit_str ip \<and> (\<forall>f. fp = Some f \<longrightarrow> digit_str f)"
proof -
  have noneg: "ip @ r \<noteq> 0x2D # t" if "digit_str ip" for r t
    using that by (cases ip) (auto simp: digit_str_def)
  have "match_amount s = Some (sign, ip, fp) \<longleftrightarrow> sign = js_startsWith s [0x2D] \<and>
      match_unsigned (if js_startsWith s [0x2D] then drop 1 s else s) = Some (ip, fp)"
    by (auto simp: match_amount_def js_minus Let_def)
  also have "\<dots> \<longleftrightarrow> s = amount_str sign ip fp \<and> digit_str ip \<and> (\<forall>f. fp = Some f \<longrightarrow> digit_str f)"
    unfolding match_unsigned_iff amount_str_alt js_startsWith_prefix
    by (cases s) (auto dest: noneg [THEN notE, OF _ sym])
  finally show ?thesis .
qed

lemmas match_amount_str = match_amount_iff [THEN iffD2]

lemma match_amount_None:
  "match_amount s = None \<longleftrightarrow>
     \<not> (\<exists>sign ip fp. s = amount_str sign ip fp \<and> digit_str ip \<and> (\<forall>f. fp = Some f \<longrightarrow> digit_str f))"
  unfolding match_amount_iff [symmetric] by (cases "match_amount s") auto

text \<open>The micro-units an amount denotes: six fraction digits, further ones dropped.\<close>

definition micro_of :: "bool \<Rightarrow> jsstr \<Rightarrow> jsstr option \<Rightarrow> int" where
  "micro_of sign ip fp =
     (let f = (case fp of None \<Rightarrow> [] | Some f \<Rightarrow> f);
          v = int (dec_val ip) * 1000000 +
              int (dec_val (take 6 f)) * 10 ^ (6 - min 6 (length f))
      in if sign then - v else v)"

lemma dec_val_zeros: "dec_val (replicate n 48) = 0"
proof (induction n)
  case (Suc n)
  then show ?case
    unfolding replicate_Suc replicate_append_same [symmetric]
    by (simp only: dec_val_snoc) (simp add: digit_val_def)
qed simp

lemma js_zeros: "js ''000000'' = replicate 6 48"
  by (simp add: js_def eval_nat_numeral)

lemma frac_digits_val:
  "dec_val (take 6 (f @ js ''000000'')) = dec_val (take 6 f) * 10 ^ (6 - min 6 (length f))"
  by (simp add: js_zeros dec_val_append dec_val_zeros min_def)

lemma frac_digits_digit: "list_all is_digit f \<Longrightarrow> list_all is_digit (take 6 (f @ js ''000000''))"
  by (auto simp: js_zeros list_all_iff is_digit_def dest: in_set_takeD)

lemma displayToMicro_value:
  assumes "digit_str ip" and "\<And>f. fp = Some f \<Longrightarrow> digit_str f"
    and "js_trim s = amount_str sign ip fp" and "\<bar>micro_of sign ip fp\<bar> \<le> 2 ^ 53"
  shows "displayToMicro s = Inr (num_int (micro_of sign ip fp))"
proof -
  define f where "f = (case fp of None \<Rightarrow> [] | Some f \<Rightarrow> f)"
  define fd where "fd = take 6 (f @ js ''000000'')"
  define n where "n = dec_val (ip @ fd)"
  have "list_all is_digit f"
    using assms(2) by (auto simp: f_def digit_str_def split: option.splits)
  then have digits: "list_all is_digit (ip @ fd)"
    using assms(1) frac_digits_digit by (simp add: fd_def digit_str_def)
  have "length fd = 6"
    by (simp add: fd_def js_zeros)
  then have n: "int n = int (dec_val ip) * 1000000 +
      int (dec_val (take 6 f)) * 10 ^ (6 - min 6 (length f))"
    by (simp only: n_def dec_val_append) (simp only: fd_def frac_digits_val, simp)
  then have micro: "micro_of sign ip fp = (if sign then - int n else int n)"
    by (simp add: micro_of_def f_def Let_def)
  have "js_Number (ip @ fd) = round_double (of_int (int n))"
    using js_Number_digits [OF digits] assms(1) by (simp add: n_def digit_str_def)
  also have "\<dots> = num_int (int n)"
    using assms(4) micro by (intro round_double_int) (auto simp: safe_def split: if_splits)
  finally have num: "js_Number (ip @ fd) = num_int (int n)" .
  have "match_amount (js_trim s) = Some (sign, ip, fp)"
    using assms by (simp add: match_amount_str)
  then show ?thesis
    using num
    by (simp add: displayToMicro_def Let_def micro f_def [symmetric] fd_def [symmetric]
        del: take_append)
qed

section \<open>Round trips\<close>

lemma two_digits_spec:
  assumes "0 \<le> n" and "n < 100"
  shows "digit_str (two_digits n)" and "length (two_digits n) = 2" and "int (dec_val (two_digits n)) = n"
proof -
  have pad: "two_digits n =
      (if n < 10 then [48, digit_chr (nat n)] else [digit_chr (nat n div 10), digit_chr (nat n mod 10)])"
    using assms by (simp add: two_digits_def js_padStart_def digits10_lt10 digits10_lt100)
  have 48: "is_digit 48" "digit_val 48 = 0"
    by (simp_all add: is_digit_def digit_val_def)
  show "digit_str (two_digits n)" "length (two_digits n) = 2"
    using assms unfolding pad by (simp_all add: digit_str_def 48)
  have "dec_val [x, y] = 10 * digit_val x + digit_val y" for x y
    by (simp add: dec_val_def)
  then show "int (dec_val (two_digits n)) = n"
    using assms unfolding pad by (auto simp: 48)
qed

lemma display_cents_amount_str:
  "display_cents neg c =
     amount_str (neg \<and> c \<noteq> 0) (digits10 (nat (c div 100))) (Some (two_digits (c mod 100)))"
  by (simp add: display_cents_def amount_str_def)

lemma micro_of_cents:
  assumes "0 \<le> c"
  shows "micro_of sign (digits10 (nat (c div 100))) (Some (two_digits (c mod 100))) =
     (if sign then - (10000 * c) else 10000 * c)"
proof -
  have t: "length (two_digits (c mod 100)) = 2" "int (dec_val (two_digits (c mod 100))) = c mod 100"
    using two_digits_spec [of "c mod 100"] by simp_all
  have "int (nat (c div 100)) = c div 100"
    using assms by (simp add: pos_imp_zdiv_nonneg_iff)
  moreover have "c div 100 * 1000000 + c mod 100 * 10000 = 10000 * c"
    using mult_div_mod_eq [of 100 c] by linarith
  ultimately show ?thesis
    using t by (simp add: micro_of_def Let_def)
qed

lemma amount_str_trim:
  assumes "digit_str ip" and "digit_str f"
  shows "js_trim (amount_str sign ip (Some f)) = amount_str sign ip (Some f)"
proof (rule js_trim_id)
  have "\<not> js_ws 0x2D"
    by (simp add: js_ws_def)
  then show "\<not> js_ws (hd (amount_str sign ip (Some f)))"
    using assms by (cases ip) (auto simp: amount_str_alt digit_str_def is_digit_not_ws)
  have "is_digit (last f)"
    using assms(2) by (simp add: digit_str_def list_all_iff)
  then show "\<not> js_ws (last (amount_str sign ip (Some f)))"
    using assms by (auto simp: amount_str_alt digit_str_def is_digit_not_ws)
qed

lemma display_roundtrip:
  assumes "\<bar>m\<bar> < 2 ^ 53" and "10000 * cents \<bar>m\<bar> \<le> 2 ^ 53"
  shows "displayToMicro (microToDisplay (num_int m)) =
     Inr (num_int ((if m < 0 then - 1 else 1) * (10000 * cents \<bar>m\<bar>)))"
proof -
  let ?c = "cents \<bar>m\<bar>"
  let ?ip = "digits10 (nat (?c div 100))" and ?f = "two_digits (?c mod 100)"
  let ?neg = "m < 0 \<and> ?c \<noteq> 0"
  have c: "0 \<le> ?c"
    by (simp add: cents_def pos_imp_zdiv_nonneg_iff)
  have f: "digit_str ?f"
    by (simp add: two_digits_spec)
  have str: "microToDisplay (num_int m) = amount_str ?neg ?ip (Some ?f)"
    using microToDisplay_cents [OF assms(1)] by (simp add: display_cents_amount_str)
  have val: "micro_of ?neg ?ip (Some ?f) = (if ?neg then - (10000 * ?c) else 10000 * ?c)"
    using micro_of_cents [OF c] .
  then have "\<bar>micro_of ?neg ?ip (Some ?f)\<bar> \<le> 2 ^ 53"
    using assms(2) c by auto
  then have "displayToMicro (microToDisplay (num_int m)) = Inr (num_int (micro_of ?neg ?ip (Some ?f)))"
    using f unfolding str by (intro displayToMicro_value) (auto simp: amount_str_trim)
  then show ?thesis
    unfolding val by auto
qed

section \<open>Properties\<close>

text \<open>C1: on every safe integer of micro-units, \<^verbatim>\<open>microToDisplay\<close> prints exactly the
  amount rounded half up to cents, with two fraction digits and no sign on a zero,
  although the code computes with binary64 division and remainder.\<close>

theorem microToDisplay_exact:
  assumes "\<bar>m\<bar> < 2 ^ 53"
  shows "microToDisplay (num_int m) =
     (if m < 0 \<and> (\<bar>m\<bar> + 5000) div 10000 \<noteq> 0 then js ''-'' else []) @
     digits10 (nat ((\<bar>m\<bar> + 5000) div 10000 div 100)) @ js ''.'' @
     two_digits ((\<bar>m\<bar> + 5000) div 10000 mod 100)"
  using microToDisplay_cents [OF assms] by (simp add: display_cents_def cents_def)

theorem microToDisplay_exact_witness:
  "\<bar>- 12345678\<bar> < (2::int) ^ 53 \<and> microToDisplay (num_int (- 12345678)) = js ''-12.35''"
proof -
  have "js ''-'' @ digits10 (nat (12350678 div 10000 div 100)) @ js ''.'' @
      two_digits (12350678 div 10000 mod 100) = js ''-12.35''"
    by code_simp
  with microToDisplay_exact [of "- 12345678"] show ?thesis
    by simp
qed

text \<open>\<^verbatim>\<open>displayToMicro\<close> throws a \<^verbatim>\<open>RangeError\<close> exactly on the inputs that, trimmed,
  are not an optional minus sign, digits and an optional point with digits; on the others it
  returns a number.\<close>

theorem displayToMicro_error_iff:
  "(\<exists>msg. displayToMicro s = Inl (RangeError msg)) \<longleftrightarrow>
     \<not> (\<exists>sign ip fp. js_trim s = amount_str sign ip fp \<and> digit_str ip \<and>
          (\<forall>f. fp = Some f \<longrightarrow> digit_str f))"
  unfolding match_amount_None [symmetric] displayToMicro_def
  by (auto simp: Let_def split: option.splits)

theorem displayToMicro_error_iff_witness:
  "(\<exists>msg. displayToMicro (js ''1e3'') = Inl (RangeError msg)) \<longleftrightarrow>
     \<not> (\<exists>sign ip fp. js_trim (js ''1e3'') = amount_str sign ip fp \<and> digit_str ip \<and>
          (\<forall>f. fp = Some f \<longrightarrow> digit_str f))"
  using displayToMicro_error_iff [of "js ''1e3''"] .

text \<open>C39: A well-formed amount whose micro-units are at most \<open>2 ^ 53\<close> in magnitude is
  converted exactly: integer part times a million plus the first six fraction digits,
  further digits being dropped.\<close>

theorem displayToMicro_exact:
  assumes "digit_str ip" and "\<And>f. fp = Some f \<Longrightarrow> digit_str f"
    and "js_trim s = amount_str sign ip fp" and "\<bar>micro_of sign ip fp\<bar> \<le> 2 ^ 53"
  shows "displayToMicro s = Inr (num_int (micro_of sign ip fp))"
  by (rule displayToMicro_value [OF assms])

theorem displayToMicro_exact_witness:
  "displayToMicro (js '' -12.3456789 '') = Inr (num_int (- 12345678))"
proof -
  have "displayToMicro (js '' -12.3456789 '') =
      Inr (num_int (micro_of True (js ''12'') (Some (js ''3456789''))))"
  proof (rule displayToMicro_exact)
    show "digit_str (js ''12'')"
      by code_simp
    show "digit_str f" if "Some (js ''3456789'') = Some f" for f
    proof -
      have "digit_str (js ''3456789'')"
        by code_simp
      with that show ?thesis by simp
    qed
    show "js_trim (js '' -12.3456789 '') = amount_str True (js ''12'') (Some (js ''3456789''))"
      by code_simp
    show "\<bar>micro_of True (js ''12'') (Some (js ''3456789''))\<bar> \<le> 2 ^ 53"
      by code_simp
  qed
  moreover have "micro_of True (js ''12'') (Some (js ''3456789'')) = - 12345678"
    by code_simp
  ultimately show ?thesis by simp
qed

text \<open>C2: displaying an amount of at most \<open>2 ^ 53 - 5000\<close> micro-units and parsing the text back changes it by at most half a
  cent (5000 micro-units), and not at all when it is a whole number of cents.\<close>

theorem money_roundtrip:
  assumes "\<bar>m\<bar> \<le> 2 ^ 53 - 5000"
  shows "\<exists>m'. displayToMicro (microToDisplay (num_int m)) = Inr (num_int m') \<and>
     \<bar>m' - m\<bar> \<le> 5000 \<and> (10000 dvd m \<longrightarrow> m' = m)"
proof -
  have div: "10000 * ((\<bar>m\<bar> + 5000) div 10000) \<le> \<bar>m\<bar> + 5000"
    "\<bar>m\<bar> + 5000 < 10000 * ((\<bar>m\<bar> + 5000) div 10000) + 10000"
    by linarith+
  have "displayToMicro (microToDisplay (num_int m)) =
      Inr (num_int ((if m < 0 then - 1 else 1) * (10000 * cents \<bar>m\<bar>)))"
    using assms div by (intro display_roundtrip) (simp_all add: cents_def)
  moreover have "\<bar>(if m < 0 then - 1 else 1) * (10000 * cents \<bar>m\<bar>) - m\<bar> \<le> 5000"
    using div by (auto simp: cents_def)
  moreover have "10000 dvd m \<longrightarrow> (if m < 0 then - 1 else 1) * (10000 * cents \<bar>m\<bar>) = m"
    by (auto simp: cents_def dvd_def)
  ultimately show ?thesis by blast
qed

theorem money_roundtrip_witness:
  "\<exists>m'. displayToMicro (microToDisplay (num_int 70000)) = Inr (num_int m') \<and>
     \<bar>m' - 70000\<bar> \<le> 5000 \<and> (10000 dvd (70000::int) \<longrightarrow> m' = 70000)"
  by (rule money_roundtrip) simp

end
