(* ===== verification/Actions_Org.thy ===== *)
theory Actions_Org
  imports Admin_Write Money
begin

text \<open>
  The write actions on the organisation: groups, tenants, applications,
  operators, the operator's own password, quota top-ups and the gateway settings
  (\<^verbatim>\<open>groups/actions.ts\<close>, \<^verbatim>\<open>tenants/actions.ts\<close>, \<^verbatim>\<open>applications/actions.ts\<close>,
  \<^verbatim>\<open>operators/actions.ts\<close>, the dashboard's \<^verbatim>\<open>actions.ts\<close>, \<^verbatim>\<open>quotas/actions.ts\<close> and
  \<^verbatim>\<open>settings/actions.ts\<close>). Every action but \<open>updateSettings\<close> interprets \<open>admin_write\<close>.
\<close>

section \<open>Groups\<close>

definition createGroup :: "form \<Rightarrow> form_result act" where
  "createGroup formData =
     (let name = form_str formData (js ''name'') in
      if name = [] then ret (fail_mapped (js ''name is required''))
      else guarded_write [(js ''/groups'', None)] (\<lambda>client.
        send_checked client POST (js ''/api/v1/groups'') [] []
          (Some (JObj [(js ''name'', JStr name)])) (js ''create failed'')))"

definition setGroupEnabled :: "jsstr \<Rightarrow> bool \<Rightarrow> form_result act" where
  "setGroupEnabled name enabled =
     guarded_write [(js ''/groups'', None)] (\<lambda>client.
       send_checked client PATCH (js ''/api/v1/groups/{name}'') [(js ''name'', JStr name)] []
         (Some (JObj [(js ''enabled'', JBool enabled)])) (js ''update failed''))"

definition deleteGroup :: "jsstr \<Rightarrow> form_result act" where
  "deleteGroup name =
     guarded_write [(js ''/groups'', None)] (\<lambda>client.
       send_checked client DELETE (js ''/api/v1/groups/{name}'') [(js ''name'', JStr name)] []
         None (js ''delete failed''))"

section \<open>Tenants\<close>

definition createTenant :: "form \<Rightarrow> form_result act" where
  "createTenant formData =
     (let name = form_str formData (js ''name'') in
      if name = [] then ret (fail_mapped (js ''name is required''))
      else guarded_write [(js ''/tenants'', None)] (\<lambda>client.
        send_checked client POST (js ''/api/v1/tenants'') [] []
          (Some (JObj [(js ''name'', JStr name)])) (js ''create failed'')))"

definition setTenantEnabled :: "jsstr \<Rightarrow> bool \<Rightarrow> form_result act" where
  "setTenantEnabled name enabled =
     guarded_write [(js ''/tenants'', None)] (\<lambda>client.
       send_checked client PATCH (js ''/api/v1/tenants/{name}'') [(js ''name'', JStr name)] []
         (Some (JObj [(js ''enabled'', JBool enabled)])) (js ''update failed''))"

section \<open>Applications\<close>

definition createApplication :: "form \<Rightarrow> form_result act" where
  "createApplication formData =
     (let name = form_str formData (js ''name'');
          ownerGroup = form_str formData (js ''owner_group'')
      in if name = [] then ret (fail_mapped (js ''name is required''))
         else if ownerGroup = [] then ret (fail_mapped (js ''owner group is required''))
         else guarded_write [(js ''/applications'', None)] (\<lambda>client.
           send_checked client POST (js ''/api/v1/applications'') [] []
             (Some (JObj [(js ''name'', JStr name), (js ''owner_group'', JStr ownerGroup)]))
             (js ''create failed'')))"

definition setApplicationEnabled :: "jsstr \<Rightarrow> bool \<Rightarrow> form_result act" where
  "setApplicationEnabled name enabled =
     guarded_write [(js ''/applications'', None)] (\<lambda>client.
       send_checked client PATCH (js ''/api/v1/applications/{name}'') [(js ''name'', JStr name)] []
         (Some (JObj [(js ''enabled'', JBool enabled)])) (js ''update failed''))"

definition deleteApplication :: "jsstr \<Rightarrow> form_result act" where
  "deleteApplication name =
     guarded_write [(js ''/applications'', None)] (\<lambda>client.
       send_checked client DELETE (js ''/api/v1/applications/{name}'') [(js ''name'', JStr name)] []
         None (js ''delete failed''))"

section \<open>Operators\<close>

definition createOperator :: "form \<Rightarrow> form_result act" where
  "createOperator formData =
     (let email = form_str formData (js ''email'');
          password = form_str formData (js ''password'');
          roleIdRaw = form_str formData (js ''role_id'');
          tenantId = form_str formData (js ''tenant_id'')
      in if email = [] \<or> password = [] then ret (fail_mapped (js ''email and password are required''))
         else if roleIdRaw = [] then ret (fail_mapped (js ''role is required''))
         else guarded_write [(js ''/operators'', None)] (\<lambda>client.
           send_checked client POST (js ''/api/v1/operators'') [] []
             (Some (JObj ([(js ''email'', JStr email), (js ''password'', JStr password),
                           (js ''role_id'', JNum (js_Number roleIdRaw))] @
                          when_field (tenantId \<noteq> []) (js ''tenant_id'') (JNum (js_Number tenantId)))))
             (js ''create failed'')))"

definition updateOperator :: "form \<Rightarrow> form_result act" where
  "updateOperator formData =
     (let opid = form_num formData (js ''id'');
          email = form_str formData (js ''email'');
          password = form_str formData (js ''password'');
          tenantId = form_str formData (js ''tenant_id'')
      in if \<not> num_truthy opid then ret (FormErr (js ''operator id is required'') None)
         else if email = [] \<and> password = [] \<and> tenantId = []
         then ret (fail_mapped (js ''at least one field must be provided''))
         else guarded_write [(js ''/operators'', None)] (\<lambda>client.
           send_checked client PUT (js ''/api/v1/operators/{id}'') [(js ''id'', JNum opid)] []
             (Some (JObj (when_field (email \<noteq> []) (js ''email'') (JStr email) @
                          when_field (password \<noteq> []) (js ''password'') (JStr password) @
                          when_field (tenantId \<noteq> []) (js ''tenant_id'') (JNum (js_Number tenantId)))))
             (js ''update failed'')))"

definition deleteOperator :: "jsnum \<Rightarrow> form_result act" where
  "deleteOperator opid =
     guarded_write [(js ''/operators'', None)] (\<lambda>client.
       send_checked client DELETE (js ''/api/v1/operators/{id}'') [(js ''id'', JNum opid)] []
         None (js ''delete failed''))"

section \<open>The operator's own password\<close>

text \<open>\<^verbatim>\<open>changePassword\<close> revalidates nothing.\<close>

definition changePassword :: "form \<Rightarrow> form_result act" where
  "changePassword formData =
     (let password = form_str formData (js ''password'') in
      if password = [] then ret (fail_mapped (js ''password is required''))
      else guarded_write [] (\<lambda>client.
        send_checked client POST (js ''/api/v1/operators/me/password'') [] []
          (Some (JObj [(js ''password'', JStr password)])) (js ''password change failed'')))"

section \<open>Quota top-ups\<close>

definition topupQuota :: "form \<Rightarrow> form_result act" where
  "topupQuota formData =
     (let scope = form_str formData (js ''scope'');
          amount = form_num formData (js ''amount'');
          currency = (let c = form_str formData (js ''currency'') in if c = [] then js ''USD'' else c)
      in if scope = [] then ret (fail_mapped (js ''scope is required''))
         else if \<not> num_truthy amount \<or> num_le amount (Fin 0)
         then ret (fail_mapped (js ''amount must be positive''))
         else let delta = num_mul amount (Fin 1000000) in
           guarded_write [(js ''/quotas'', None)] (\<lambda>client.
             send_checked client POST (js ''/api/v1/quotas/topup'') [] []
               (Some (JObj [(js ''scope'', JStr scope), (js ''delta'', JNum delta),
                            (js ''currency'', JStr currency)]))
               (js ''top-up failed'')))"

section \<open>Gateway settings\<close>

text \<open>\<^verbatim>\<open>Number(formData.get(k) ?? d) || 0\<close>\<close>

definition setting_num :: "form \<Rightarrow> jsstr \<Rightarrow> jsnum \<Rightarrow> jsnum" where
  "setting_num f k d =
     (let n = (case form_get f k of None \<Rightarrow> d | Some s \<Rightarrow> js_Number s)
      in if num_truthy n then n else Fin 0)"

definition settings_body :: "form \<Rightarrow> json" where
  "settings_body formData =
     (let captureEnabled = (form_get formData (js ''capture_enabled'') = Some (js ''true''));
          maxBodyKB = setting_num formData (js ''max_body_kb'') (Fin 0);
          retentionDays = setting_num formData (js ''retention_days'') (Fin 7);
          anthropicDisabled = (form_get formData (js ''anthropic_disabled'') = Some (js ''true''))
      in JObj [(js ''trace'', JObj [(js ''capture_payload_enabled'', JBool captureEnabled),
                                    (js ''max_body_kb'', JNum maxBodyKB),
                                    (js ''retention_days'', JNum retentionDays)]),
               (js ''ingress'', JObj [(js ''anthropic_disabled'', JBool anthropicDisabled)])])"

text \<open>The check of this action looks at \<^verbatim>\<open>error\<close> only.\<close>

definition check_error :: "jsstr \<Rightarrow> fetch_result \<Rightarrow> mapped_error option res" where
  "check_error fallback r =
     (if truthy (fr_error r)
      then rbind (mapped_message (coalesce (envelope (fr_error r) (js ''message'')) (JStr fallback)))
             (\<lambda>m. Inr (Some m))
      else Inr None)"

definition updateSettings :: "form \<Rightarrow> form_result act" where
  "updateSettings formData =
     guarded_write [(js ''/settings'', None)] (\<lambda>client.
       bnd (call client PUT (js ''/api/v1/gateway-settings'') [] [] (Some (settings_body formData)))
         (\<lambda>r. lift_res (check_error (js ''save failed'') r)))"

section \<open>The contract\<close>

interpretation createGroup: admin_write "createGroup f" is_ok "[(js ''/groups'', None)]" for f
  unfolding createGroup_def Let_def by (intro contract_intros quiet_intros not_ok_fail_mapped)

interpretation setGroupEnabled: admin_write "setGroupEnabled n b" is_ok "[(js ''/groups'', None)]" for n b
  unfolding setGroupEnabled_def by (intro contract_intros quiet_intros)

interpretation deleteGroup: admin_write "deleteGroup n" is_ok "[(js ''/groups'', None)]" for n
  unfolding deleteGroup_def by (intro contract_intros quiet_intros)

interpretation createTenant: admin_write "createTenant f" is_ok "[(js ''/tenants'', None)]" for f
  unfolding createTenant_def Let_def by (intro contract_intros quiet_intros not_ok_fail_mapped)

interpretation setTenantEnabled: admin_write "setTenantEnabled n b" is_ok "[(js ''/tenants'', None)]" for n b
  unfolding setTenantEnabled_def by (intro contract_intros quiet_intros)

interpretation createApplication: admin_write "createApplication f" is_ok "[(js ''/applications'', None)]" for f
  unfolding createApplication_def Let_def by (intro contract_intros quiet_intros not_ok_fail_mapped)

interpretation setApplicationEnabled: admin_write "setApplicationEnabled n b" is_ok "[(js ''/applications'', None)]" for n b
  unfolding setApplicationEnabled_def by (intro contract_intros quiet_intros)

interpretation deleteApplication: admin_write "deleteApplication n" is_ok "[(js ''/applications'', None)]" for n
  unfolding deleteApplication_def by (intro contract_intros quiet_intros)

interpretation createOperator: admin_write "createOperator f" is_ok "[(js ''/operators'', None)]" for f
  unfolding createOperator_def Let_def by (intro contract_intros quiet_intros not_ok_fail_mapped)

interpretation updateOperator: admin_write "updateOperator f" is_ok "[(js ''/operators'', None)]" for f
  unfolding updateOperator_def Let_def
  by (intro contract_intros quiet_intros not_ok_fail_mapped is_ok_simps)

interpretation deleteOperator: admin_write "deleteOperator n" is_ok "[(js ''/operators'', None)]" for n
  unfolding deleteOperator_def by (intro contract_intros quiet_intros)

interpretation changePassword: admin_write "changePassword f" is_ok "[]" for f
  unfolding changePassword_def Let_def by (intro contract_intros quiet_intros not_ok_fail_mapped)

interpretation topupQuota: admin_write "topupQuota f" is_ok "[(js ''/quotas'', None)]" for f
  unfolding topupQuota_def Let_def by (intro contract_intros quiet_intros not_ok_fail_mapped)


interpretation updateSettings: atomic_action "updateSettings f" is_ok "[(js ''/settings'', None)]" for f
  unfolding updateSettings_def
  by (rule guarded_write_atomic [where good = "\<lambda>_. False"], rule quiet_bnd [OF quiet_call quiet_lift]) simp


section \<open>Properties\<close>

text \<open>Validation. A form whose required entries are missing or blank is answered with its
  message, and nothing is sent, revalidated or changed, whatever the platform is.\<close>

theorem create_validation:
  "(blank f (js ''name'') \<longrightarrow>
      createGroup f pf w = (Inr (FormErr (js ''name is required'') None), w) \<and>
      createTenant f pf w = (Inr (FormErr (js ''name is required'') None), w) \<and>
      createApplication f pf w = (Inr (FormErr (js ''name is required'') None), w)) \<and>
   (\<not> blank f (js ''name'') \<and> blank f (js ''owner_group'') \<longrightarrow>
      createApplication f pf w = (Inr (FormErr (js ''owner group is required'') None), w)) \<and>
   (blank f (js ''email'') \<or> blank f (js ''password'') \<longrightarrow>
      createOperator f pf w = (Inr (FormErr (js ''email and password are required'') None), w)) \<and>
   (\<not> blank f (js ''email'') \<and> \<not> blank f (js ''password'') \<and> blank f (js ''role_id'') \<longrightarrow>
      createOperator f pf w = (Inr (FormErr (js ''role is required'') None), w)) \<and>
   (blank f (js ''password'') \<longrightarrow>
      changePassword f pf w = (Inr (FormErr (js ''password is required'') None), w))"
  by (auto simp: createGroup_def createTenant_def createApplication_def createOperator_def
      changePassword_def form_str_blank Let_def fail_mapped_plain js_startsWith_prefix js_def)

theorem create_validation_witness:
  "createGroup [(js ''name'', js ''  '')] sample_platform sample_world =
     (Inr (FormErr (js ''name is required'') None), sample_world)"
proof -
  have "blank [(js ''name'', js ''  '')] (js ''name'')"
    by (simp add: form_eval)
  then show ?thesis
    using create_validation [of "[(js ''name'', js ''  '')]" sample_platform sample_world] by blast
qed

text \<open>An operator update sends one request, to the operator of the form, whose body has
  exactly the entries that were filled in; the role is never part of it.\<close>

theorem updateOperator_patch:
  assumes "client_of pf w = Some c" and "num_truthy (form_num f (js ''id''))"
    and "\<not> (blank f (js ''email'') \<and> blank f (js ''password'') \<and> blank f (js ''tenant_id''))"
  shows "\<exists>body. w_sent (snd (updateOperator f pf w)) = w_sent w @
        [mk_req c PUT (js ''/api/v1/operators/{id}'') [(js ''id'', JNum (form_num f (js ''id'')))] []
           (Some (JObj body))] \<and>
      map_of body (js ''email'') =
        (if blank f (js ''email'') then None else Some (JStr (form_str f (js ''email'')))) \<and>
      map_of body (js ''password'') =
        (if blank f (js ''password'') then None else Some (JStr (form_str f (js ''password'')))) \<and>
      map_of body (js ''tenant_id'') =
        (if blank f (js ''tenant_id'') then None
         else Some (JNum (js_Number (form_str f (js ''tenant_id''))))) \<and>
      map_of body (js ''role_id'') = None \<and> body \<noteq> []"
  using assms
  by (auto simp: updateOperator_def Let_def form_str_blank guarded_send_run)

theorem updateOperator_patch_witness:
  "\<exists>body. w_sent (snd (updateOperator [(js ''id'', js ''7''), (js ''email'', js ''a'')] sample_platform sample_world)) =
      w_sent sample_world @
        [mk_req sample_client PUT (js ''/api/v1/operators/{id}'')
           [(js ''id'', JNum (form_num [(js ''id'', js ''7''), (js ''email'', js ''a'')] (js ''id'')))] [] (Some (JObj body))] \<and>
      map_of body (js ''role_id'') = None"
proof -
  let ?f = "[(js ''id'', js ''7''), (js ''email'', js ''a'')]"
  have "js_Number (js ''7'') = num_int 7"
    using js_Number_digits [of "js ''7''"] round_double_int [of 7]
    by (simp add: js_def is_digit_def dec_val_def digit_val_def safe_def)
  then have "num_truthy (form_num ?f (js ''id''))" and "\<not> blank ?f (js ''email'')"
    by (simp add: form_num_def form_get_def) (simp add: form_eval)
  then show ?thesis
    using updateOperator_patch [OF sample_client_of, of ?f] by blast
qed

text \<open>A top-up of a whole number of units (at most the 9,007,199,254 that a double can scale)
  sends exactly that many micro-units.\<close>

theorem topupQuota_exact:
  assumes "client_of pf w = Some c" and "\<not> blank f (js ''scope'')"
    and "form_get f (js ''amount'') = Some ds" and "list_all is_digit ds" and "ds \<noteq> []"
    and "0 < dec_val ds" and "dec_val ds \<le> 9007199254"
  shows "w_sent (snd (topupQuota f pf w)) = w_sent w @
      [mk_req c POST (js ''/api/v1/quotas/topup'') [] []
        (Some (JObj [(js ''scope'', JStr (form_str f (js ''scope''))),
                     (js ''delta'', JNum (num_int (int (dec_val ds) * 1000000))),
                     (js ''currency'', JStr (if blank f (js ''currency'') then js ''USD''
                                            else form_str f (js ''currency'')))]))]"
proof -
  have num: "form_num f (js ''amount'') = num_int (int (dec_val ds))"
    using assms(3-5,7) round_double_int [of "int (dec_val ds)"]
    by (simp add: form_num_def js_Number_digits safe_def)
  have "num_mul (num_int (int (dec_val ds))) (Fin 1000000) = num_int (int (dec_val ds) * 1000000)"
    using num_mul_int [of "int (dec_val ds)" 1000000] assms(7) by (simp add: safe_def)
  with assms num show ?thesis
    by (simp add: topupQuota_def Let_def form_str_blank guarded_send_run)
qed

theorem topupQuota_exact_witness:
  "w_sent (snd (topupQuota [(js ''scope'', js ''t''), (js ''amount'', js ''25'')] sample_platform sample_world)) =
     w_sent sample_world @
      [mk_req sample_client POST (js ''/api/v1/quotas/topup'') [] []
        (Some (JObj [(js ''scope'', JStr (form_str [(js ''scope'', js ''t''), (js ''amount'', js ''25'')] (js ''scope''))),
                     (js ''delta'', JNum (num_int (int (dec_val (js ''25'')) * 1000000))),
                     (js ''currency'', JStr (js ''USD''))]))]"
proof -
  let ?f = "[(js ''scope'', js ''t''), (js ''amount'', js ''25'')]"
  have "\<not> blank ?f (js ''scope'')" "form_get ?f (js ''amount'') = Some (js ''25'')"
    "list_all is_digit (js ''25'')" "js ''25'' \<noteq> []" "0 < dec_val (js ''25'')"
    "dec_val (js ''25'') \<le> 9007199254" "blank ?f (js ''currency'')"
    by (simp_all add: form_eval is_digit_def dec_val_def digit_val_def)
  then show ?thesis
    using topupQuota_exact [OF sample_client_of, of ?f "js ''25''"] by simp
qed

text \<open>A fractional top-up need not be exact. The action multiplies in floating point, against
  the rule of \<^verbatim>\<open>money.ts\<close>: for an amount of 2.01 it sends a delta that is not 2010000, nor any
  whole number of micro-units, while \<^verbatim>\<open>displayToMicro\<close> gives 2010000 for the same text.\<close>

theorem topupQuota_inexact:
  "map_of (case rq_body (last (w_sent (snd (topupQuota [(js ''scope'', js ''t''), (js ''amount'', js ''2.01'')]
       sample_platform sample_world)))) of Some (JObj b) \<Rightarrow> b) (js ''delta'') =
     Some (JNum (num_mul (js_Number (js ''2.01'')) (Fin 1000000))) \<and>
   \<not> num_isSafeInteger (num_mul (js_Number (js ''2.01'')) (Fin 1000000)) \<and>
   displayToMicro (js ''2.01'') = Inr (num_int 2010000)"
proof -
  let ?f = "[(js ''scope'', js ''t''), (js ''amount'', js ''2.01'')]"
  have "\<not> blank ?f (js ''scope'')" and n: "form_num ?f (js ''amount'') = js_Number (js ''2.01'')"
    by (simp_all add: form_eval)
  moreover have "num_truthy (js_Number (js ''2.01'')) \<and> \<not> num_le (js_Number (js ''2.01'')) (Fin 0)"
    by code_simp
  ultimately have "w_sent (snd (topupQuota ?f sample_platform sample_world)) = w_sent sample_world @
      [mk_req sample_client POST (js ''/api/v1/quotas/topup'') [] []
        (Some (JObj [(js ''scope'', JStr (form_str ?f (js ''scope''))),
                     (js ''delta'', JNum (num_mul (js_Number (js ''2.01'')) (Fin 1000000))),
                     (js ''currency'', JStr (if blank ?f (js ''currency'') then js ''USD''
                                            else form_str ?f (js ''currency'')))]))]"
    by (simp add: topupQuota_def Let_def form_str_blank guarded_send_run)
  moreover have "\<not> num_isSafeInteger (num_mul (js_Number (js ''2.01'')) (Fin 1000000))"
    by code_simp
  moreover have "displayToMicro (js ''2.01'') = Inr (num_int 2010000)"
    by code_simp
  ultimately show ?thesis
    by (simp add: mk_req_def)
qed

text \<open>Saving the settings looks only at the error object of the answer: with no error object
  it reports success and revalidates the page, whatever the status of the response.\<close>

theorem updateSettings_ok_iff:
  assumes "client_of pf w = Some c"
    and "pf_fetch pf (w_sent w @ [mk_req c PUT (js ''/api/v1/gateway-settings'') [] [] (Some (settings_body f))]) =
      FetchResult r"
  shows "(fst (updateSettings f pf w) = Inr FormOk) = (\<not> truthy (fr_error r)) \<and>
    (w_revalidated (snd (updateSettings f pf w)) \<noteq> w_revalidated w) = (\<not> truthy (fr_error r))"
proof -
  have "serverAdminClient pf w = (Inr c, w)"
    using serverAdminClient_run [of pf w] assms(1) by auto
  then have ok: "(fst (updateSettings f pf w) = Inr FormOk) = (\<not> truthy (fr_error r))"
    using assms(2)
    by (auto simp: updateSettings_def guarded_write_attempt attempt_def bnd_apply call_def Let_def
        check_error_def rbind_def mapped_result_def dest: mapped_message_Inl split: sum.splits)
  obtain x w' where run: "updateSettings f pf w = (x, w')" by fastforce
  from updateSettings.revalidates_iff [OF run] ok run show ?thesis
    by (auto simp: is_ok_def)
qed

definition failing_platform :: platform where
  "failing_platform = sample_platform
     \<lparr>pf_fetch := (\<lambda>rs. FetchResult \<lparr>fr_data = None, fr_error = None, fr_status = 500\<rparr>)\<rparr>"

theorem updateSettings_ok_iff_witness:
  "fst (updateSettings [] failing_platform sample_world) = Inr FormOk"
proof -
  have "client_of failing_platform sample_world = Some sample_client"
    by (simp add: failing_platform_def)
  then show ?thesis
    using updateSettings_ok_iff [of failing_platform sample_world sample_client "[]"
        "\<lparr>fr_data = None, fr_error = None, fr_status = 500\<rparr>"]
    by (simp add: failing_platform_def)
qed

end
