(* ===== verification/Actions_Config.thy ===== *)
theory Actions_Config
  imports Actions_Org
begin

text \<open>
  The write actions on the gateway configuration: providers with their
  connectivity tests, models with their upstreams and prices, routes and plugins
  (\<^verbatim>\<open>providers/actions.ts\<close>, \<^verbatim>\<open>models/actions.ts\<close>, \<^verbatim>\<open>routes/actions.ts\<close>,
  \<^verbatim>\<open>plugins/actions.ts\<close>). All of them interpret \<open>admin_write\<close>; the tests do so with
  no path to revalidate.
\<close>

section \<open>Providers\<close>

text \<open>One row of the parallel arrays, \<open>None\<close> when the loop continues past it.\<close>

definition endpoint_row :: "jsstr list \<Rightarrow> jsstr list \<Rightarrow> jsstr list \<Rightarrow> nat \<Rightarrow> json option" where
  "endpoint_row adapters baseUrls ids i =
     (let cell = (\<lambda>xs. js_trim (case str_at xs i of None \<Rightarrow> [] | Some s \<Rightarrow> s));
          adapter = cell adapters; base_url = cell baseUrls
      in if adapter = [] \<and> base_url = [] then None
         else let eid = cell ids in
           Some (JObj (when_field (eid \<noteq> []) (js ''id'') (JStr eid) @
                       [(js ''adapter'', JStr adapter), (js ''base_url'', JStr base_url)])))"

definition collectEndpoints :: "form \<Rightarrow> json list" where
  "collectEndpoints formData =
     (let adapters = form_getAll formData (js ''endpoint_adapter'');
          baseUrls = form_getAll formData (js ''endpoint_base_url'');
          ids = form_getAll formData (js ''endpoint_id'')
      in List.map_filter (endpoint_row adapters baseUrls ids) [0..<length adapters])"

definition createProvider :: "form \<Rightarrow> form_result act" where
  "createProvider formData =
     (let name = form_str formData (js ''name'') in
      if name = [] then ret (fail_mapped (js ''name is required''))
      else
        let ty = form_str formData (js ''type'');
            endpoints = collectEndpoints formData;
            apiKey = form_str formData (js ''api_key'');
            apiKeyRef = form_str formData (js ''api_key_ref'');
            weight = form_str formData (js ''weight'');
            body = [(js ''name'', JStr name)] @
              when_field (ty \<noteq> []) (js ''type'') (JStr ty) @
              when_field (endpoints \<noteq> []) (js ''endpoints'') (JArr endpoints) @
              when_field (apiKey \<noteq> []) (js ''api_key'') (JStr apiKey) @
              when_field (apiKeyRef \<noteq> []) (js ''api_key_ref'') (JStr apiKeyRef) @
              when_field (weight \<noteq> []) (js ''weight'') (JNum (js_Number weight))
        in guarded_write [(js ''/providers'', None)] (\<lambda>client.
             send_checked client POST (js ''/api/v1/providers'') [] [] (Some (JObj body))
               (js ''create failed'')))"

text \<open>The non-secret fields of an edit.\<close>

definition provider_patch :: "form \<Rightarrow> fields" where
  "provider_patch formData =
     (let apiKey = form_str formData (js ''api_key'');
          ty = form_str formData (js ''type'');
          endpoints = collectEndpoints formData;
          apiKeyRef = form_str formData (js ''api_key_ref'');
          weight = form_str formData (js ''weight'')
      in when_field (ty \<noteq> []) (js ''type'') (JStr ty) @
         when_field (endpoints \<noteq> []) (js ''endpoints'') (JArr endpoints) @
         (if apiKey = []
          then when_field (apiKeyRef \<noteq> []) (js ''api_key_ref'') (JStr apiKeyRef) else []) @
         when_field (weight \<noteq> []) (js ''weight'') (JNum (js_Number weight)))"

text \<open>Two steps in one try block: the generic partial update when there is something to update,
  then the rotation of the credential when a plaintext key was supplied.\<close>

definition updateProvider :: "form \<Rightarrow> form_result act" where
  "updateProvider formData =
     (let name = form_str formData (js ''name'') in
      if name = [] then ret (fail_mapped (js ''name is required''))
      else
        let apiKey = form_str formData (js ''api_key'');
            body = provider_patch formData
        in guarded_write [(js ''/providers'', None)] (\<lambda>client.
             bnd (if body \<noteq> []
                  then send_checked client PATCH (js ''/api/v1/providers/{name}'')
                         [(js ''name'', JStr name)] [] (Some (JObj body)) (js ''update failed'')
                  else ret None)
               (\<lambda>early. case early of
                  Some mapped \<Rightarrow> ret (Some mapped)
                | None \<Rightarrow>
                    if apiKey \<noteq> []
                    then send_checked client PATCH (js ''/api/v1/providers/{name}/credential'')
                           [(js ''name'', JStr name)] [] (Some (JObj [(js ''api_key'', JStr apiKey)]))
                           (js ''credential update failed'')
                    else ret None)))"

definition deleteProvider :: "jsstr \<Rightarrow> form_result act" where
  "deleteProvider name =
     guarded_write [(js ''/providers'', None)] (\<lambda>client.
       send_checked client DELETE (js ''/api/v1/providers/{name}'') [(js ''name'', JStr name)] []
         None (js ''delete failed''))"

subsection \<open>Connectivity tests\<close>

datatype ProviderTestOutcome =
    TestOk (test_latencyMs: jsval) (test_status: jsval)
  | TestFail (test_error: json) (test_errorKey: "jsstr option")

record ProviderTestSpec =
  ts_name :: "jsstr option"
  ts_adapter :: jsstr
  ts_baseUrl :: jsstr
  ts_apiKey :: "jsstr option"
  ts_apiKeyRef :: "jsstr option"

definition toOutcome :: "jsval \<Rightarrow> ProviderTestOutcome" where
  "toOutcome data =
     (if truthy (opt_prop data (js ''ok''))
      then TestOk (opt_prop data (js ''latency_ms'')) (opt_prop data (js ''status''))
      else TestFail (coalesce (opt_prop data (js ''error'')) (JStr (js ''test failed''))) None)"

definition testHttpFailure :: "jsval \<Rightarrow> ProviderTestOutcome res" where
  "testHttpFailure err =
     rbind (mapped_message (coalesce (envelope err (js ''message'')) (JStr (js ''test failed''))))
       (\<lambda>m. Inr (TestFail (JStr (me_fallback m)) (me_key m)))"

text \<open>\<^verbatim>\<open>const fe = await toFormError(err); return fe.ok ? unexpected : fe\<close>\<close>

definition test_catch :: "jserror \<Rightarrow> (jsval + ProviderTestOutcome) act" where
  "test_catch err = bnd (toFormError err) (\<lambda>fe.
     ret (Inr (case fe of
        FormOk \<Rightarrow> TestFail (JStr (js ''unexpected error'')) None
      | FormErr m k \<Rightarrow> TestFail (JStr m) k)))"

text \<open>The body shared by the two probes. \<^verbatim>\<open>return testHttpFailure(error)\<close> is not awaited inside the
  try block, so an error it throws is not caught: it runs after the block, on the error of the
  response (\<open>Inl\<close>).\<close>

definition probe :: "(admin_client \<Rightarrow> fetch_result act) \<Rightarrow> ProviderTestOutcome act" where
  "probe request =
     bnd (try_catch
            (bnd serverAdminClient (\<lambda>client. bnd (request client) (\<lambda>r.
               ret (if refused r then Inl (fr_error r) else Inr (toOutcome (fr_data r))))))
            test_catch)
       (\<lambda>x. lift_res (case x of Inl err \<Rightarrow> testHttpFailure err | Inr outcome \<Rightarrow> Inr outcome))"

definition testProvider :: "jsstr \<Rightarrow> ProviderTestOutcome act" where
  "testProvider name = probe (\<lambda>client.
     call client POST (js ''/api/v1/providers/{name}/test'') [(js ''name'', JStr name)] [] None)"

definition opt_field :: "jsstr \<Rightarrow> jsstr option \<Rightarrow> fields" where
  "opt_field k v = (case v of None \<Rightarrow> [] | Some s \<Rightarrow> when_field (s \<noteq> []) k (JStr s))"

definition testProviderConnection :: "ProviderTestSpec \<Rightarrow> ProviderTestOutcome act" where
  "testProviderConnection spec = probe (\<lambda>client.
     call client POST (js ''/api/v1/provider-tests'') [] []
       (Some (JObj ([(js ''adapter'', JStr (ts_adapter spec)), (js ''base_url'', JStr (ts_baseUrl spec))] @
          opt_field (js ''name'') (ts_name spec) @
          opt_field (js ''api_key'') (ts_apiKey spec) @
          opt_field (js ''api_key_ref'') (ts_apiKeyRef spec)))))"

section \<open>Models\<close>

text \<open>\<^verbatim>\<open>raw.split(/[,\s]+/)\<close>: the pieces between maximal runs of separators.\<close>

definition list_sep :: "cunit \<Rightarrow> bool" where
  "list_sep c \<longleftrightarrow> c = 0x2C \<or> js_ws c"

function split_runs :: "(cunit \<Rightarrow> bool) \<Rightarrow> jsstr \<Rightarrow> jsstr list" where
  "split_runs P s =
     (let rest = dropWhile (\<lambda>c. \<not> P c) s
      in takeWhile (\<lambda>c. \<not> P c) s #
         (if rest = [] then [] else split_runs P (dropWhile P rest)))"
  by auto
termination
proof (relation "measure (\<lambda>(P, s). length s)")
  fix P s x
  assume "x = dropWhile (\<lambda>c. \<not> P c) s" "x \<noteq> []"
  then have "P (hd x)" using hd_dropWhile by metis
  then have "length (dropWhile P x) < length x"
    using \<open>x \<noteq> []\<close> by (cases x) (auto simp: length_dropWhile_le le_imp_less_Suc)
  also have "length x \<le> length s"
    using \<open>x = _\<close> by (simp add: length_dropWhile_le)
  finally show "((P, dropWhile P x), (P, s)) \<in> measure (\<lambda>(P, s). length s)"
    by simp
qed simp

declare split_runs.simps [simp del]

definition parseList :: "jsstr \<Rightarrow> jsstr list" where
  "parseList raw = filter (\<lambda>s. s \<noteq> []) (map js_trim (split_runs list_sep raw))"

text \<open>The prices of an upstream: \<open>prompt\<close> and \<open>completion\<close> are the trimmed cells, missing when the
  row has none.\<close>

definition nonempty :: "jsstr option \<Rightarrow> bool" where
  "nonempty v \<longleftrightarrow> (case v of None \<Rightarrow> False | Some s \<Rightarrow> s \<noteq> [])"

definition price_of :: "jsstr option \<Rightarrow> jsnum res" where
  "price_of v = (if nonempty v then displayToMicro (the v) else Inr (Fin 0))"

definition cache_multiplier :: "jsnum \<Rightarrow> fields" where
  "cache_multiplier cacheMulPct =
     when_field (num_isFinite cacheMulPct \<and> num_lt (Fin 0) cacheMulPct) (js ''cache_hit_multiplier'')
       (JNum (num_min (num_max (num_mul cacheMulPct (Fin 10000)) (Fin 0)) (Fin 1000000)))"

definition upstream_pricing :: "jsstr option \<Rightarrow> jsstr option \<Rightarrow> jsnum \<Rightarrow> fields res" where
  "upstream_pricing prompt completion cacheMulPct =
     (if nonempty prompt \<or> nonempty completion
      then rbind (price_of prompt) (\<lambda>p. rbind (price_of completion) (\<lambda>c.
             Inr [(js ''pricing'', JObj ([(js ''prompt_per_1m'', JNum p), (js ''completion_per_1m'', JNum c),
                    (js ''currency'', JStr (js ''USD''))] @ cache_multiplier cacheMulPct))]))
      else Inr [])"

definition model_upstream ::
  "jsstr list \<Rightarrow> jsstr list \<Rightarrow> jsstr list \<Rightarrow> jsstr list \<Rightarrow> jsstr list \<Rightarrow> jsstr \<times> nat \<Rightarrow> json res" where
  "model_upstream models maxTokens promptRaw completionRaw cacheMulRaw = (\<lambda>(provider, i).
     let upstream_model = (case str_at models i of None \<Rightarrow> [] | Some s \<Rightarrow> s);
         mt = (case str_at maxTokens i of None \<Rightarrow> NaN | Some s \<Rightarrow> js_Number s);
         prompt = map_option js_trim (str_at promptRaw i);
         completion = map_option js_trim (str_at completionRaw i);
         cacheMulPct = js_Number (case str_at cacheMulRaw i of None \<Rightarrow> [] | Some s \<Rightarrow> js_trim s)
     in rbind (upstream_pricing prompt completion cacheMulPct) (\<lambda>pricing.
          Inr (JObj ([(js ''provider'', JStr provider), (js ''upstream_model'', JStr upstream_model)] @
                     when_field (num_lt (Fin 0) mt) (js ''default_max_tokens'') (JNum mt) @
                     pricing))))"

definition model_upstreams :: "form \<Rightarrow> json list res" where
  "model_upstreams formData =
     (let providers = form_getAll formData (js ''upstream_provider'');
          models = form_getAll formData (js ''upstream_model'');
          maxTokens = form_getAll formData (js ''upstream_max_tokens'');
          promptRaw = form_getAll formData (js ''upstream_prompt_price'');
          completionRaw = form_getAll formData (js ''upstream_completion_price'');
          cacheMulRaw = form_getAll formData (js ''upstream_cache_hit_multiplier'')
      in rmap (model_upstream models maxTokens promptRaw completionRaw cacheMulRaw)
           (zip providers [0..<length providers]))"

definition createModel :: "form \<Rightarrow> form_result act" where
  "createModel formData =
     (let alias = form_str formData (js ''alias'') in
      if alias = [] then ret (fail_mapped (js ''model alias is required''))
      else
        let description = form_str formData (js ''description'');
            contextLengthRaw = form_str formData (js ''context_length'');
            capabilities = parseList (form_raw formData (js ''capabilities''));
            tags = parseList (form_raw formData (js ''tags''))
        in case model_upstreams formData of
             Inl e \<Rightarrow> ret (FormErr (js ''invalid pricing amount'') (Some (js ''invalidPricingAmount'')))
           | Inr upstreams \<Rightarrow>
               guarded_write [(js ''/models'', None)] (\<lambda>client.
                 let cl = js_Number contextLengthRaw;
                     body = [(js ''alias'', JStr alias), (js ''upstreams'', JArr upstreams)] @
                       when_field (description \<noteq> []) (js ''description'') (JStr description) @
                       when_field (contextLengthRaw \<noteq> [] \<and> num_lt (Fin 0) cl) (js ''context_length'') (JNum cl) @
                       when_field (capabilities \<noteq> []) (js ''capabilities'') (JArr (map JStr capabilities)) @
                       when_field (tags \<noteq> []) (js ''tags'') (JArr (map JStr tags))
                 in send_checked client POST (js ''/api/v1/models'') [] [] (Some (JObj body))
                      (js ''create failed'')))"

definition updateModel :: "form \<Rightarrow> form_result act" where
  "updateModel formData =
     (let alias = form_str formData (js ''alias'') in
      if alias = [] then ret (fail_mapped (js ''model alias is required''))
      else
        let description = form_str formData (js ''description'');
            contextLengthRaw = form_str formData (js ''context_length'');
            capabilities = parseList (form_raw formData (js ''capabilities''));
            tags = parseList (form_raw formData (js ''tags''))
        in case model_upstreams formData of
             Inl e \<Rightarrow> ret (FormErr (js ''invalid pricing amount'') (Some (js ''invalidPricingAmount'')))
           | Inr upstreams \<Rightarrow>
               guarded_write [(js ''/models'', None)] (\<lambda>client.
                 let cl = js_Number contextLengthRaw;
                     context_length =
                       (if contextLengthRaw \<noteq> [] then (if num_lt (Fin 0) cl then cl else Fin 0) else Fin 0);
                     body = [(js ''description'', JStr description),
                             (js ''capabilities'', JArr (map JStr capabilities)),
                             (js ''tags'', JArr (map JStr tags)),
                             (js ''upstreams'', JArr upstreams),
                             (js ''context_length'', JNum context_length)]
                 in send_checked client PATCH (js ''/api/v1/models/{alias}'') [(js ''alias'', JStr alias)] []
                      (Some (JObj body)) (js ''update failed'')))"

definition deleteModel :: "jsstr \<Rightarrow> form_result act" where
  "deleteModel alias =
     guarded_write [(js ''/models'', None)] (\<lambda>client.
       send_checked client DELETE (js ''/api/v1/models/{alias}'') [(js ''alias'', JStr alias)] []
         None (js ''delete failed''))"

section \<open>Routes\<close>

definition route_provider :: "jsstr list \<Rightarrow> jsstr \<times> nat \<Rightarrow> jsstr \<times> json" where
  "route_provider providerWeights = (\<lambda>(name, i).
     let raw = str_at providerWeights i;
         weight = (case raw of None \<Rightarrow> NaN | Some s \<Rightarrow> js_Number s)
     in (name, JObj ([(js ''name'', JStr name)] @
                     when_field (nonempty raw \<and> weight \<noteq> NaN) (js ''weight'') (JNum weight))))"

definition route_providers :: "form \<Rightarrow> json list" where
  "route_providers formData =
     (let providerNames = form_getAll formData (js ''route_provider_name'');
          providerWeights = form_getAll formData (js ''route_provider_weight'')
      in map snd (filter (\<lambda>(name, p). name \<noteq> [])
           (map (route_provider providerWeights) (zip providerNames [0..<length providerNames]))))"

definition upsertRoute :: "form \<Rightarrow> form_result act" where
  "upsertRoute formData =
     (let modelAlias = form_str formData (js ''model_alias'') in
      if modelAlias = [] then ret (fail_mapped (js ''model alias is required''))
      else
        let strategy = form_str formData (js ''strategy'');
            providers = route_providers formData;
            body = [(js ''model_alias'', JStr modelAlias)] @
              when_field (providers \<noteq> []) (js ''providers'') (JArr providers) @
              when_field (strategy \<noteq> []) (js ''strategy'') (JStr strategy)
        in guarded_write [(js ''/routes'', None)] (\<lambda>client.
             send_checked client POST (js ''/api/v1/routes'') [] [] (Some (JObj body))
               (js ''create/update failed'')))"

definition updateRoute :: "form \<Rightarrow> form_result act" where
  "updateRoute formData =
     (let modelAlias = form_str formData (js ''model_alias'') in
      if modelAlias = [] then ret (fail_mapped (js ''model alias is required''))
      else
        let strategy = form_str formData (js ''strategy'');
            providers = route_providers formData;
            body = [(js ''providers'', JArr providers)] @
              when_field (strategy \<noteq> []) (js ''strategy'') (JStr strategy)
        in guarded_write [(js ''/routes'', None)] (\<lambda>client.
             send_checked client PATCH (js ''/api/v1/routes/{alias}'') [(js ''alias'', JStr modelAlias)] []
               (Some (JObj body)) (js ''update failed'')))"

definition deleteRoute :: "jsstr \<Rightarrow> form_result act" where
  "deleteRoute modelAlias =
     guarded_write [(js ''/routes'', None)] (\<lambda>client.
       send_checked client DELETE (js ''/api/v1/routes/{alias}'') [(js ''alias'', JStr modelAlias)] []
         None (js ''delete failed''))"

section \<open>Plugins\<close>

text \<open>\<^verbatim>\<open>if (paramsJson) body.params = JSON.parse(paramsJson)\<close>; a malformed text is an error.\<close>

definition plugin_params :: "jsstr \<Rightarrow> fields res" where
  "plugin_params paramsJson =
     (if paramsJson = [] then Inr []
      else case json_parse paramsJson of None \<Rightarrow> Inl SyntaxError | Some v \<Rightarrow> Inr [(js ''params'', v)])"

definition upsertPlugin :: "form \<Rightarrow> form_result act" where
  "upsertPlugin formData =
     (let name = form_str formData (js ''name'') in
      if name = [] then ret (fail_mapped (js ''plugin name is required''))
      else
        let phaseRaw = form_str formData (js ''phase'');
            enabledRaw = form_get formData (js ''enabled'');
            scopeRaw = form_str formData (js ''scope'');
            paramsJson = form_str formData (js ''params_json'')
        in case plugin_params paramsJson of
             Inl e \<Rightarrow> ret (fail_mapped (js ''invalid params JSON''))
           | Inr params \<Rightarrow>
               guarded_write [(js ''/plugins'', None)] (\<lambda>client.
                 send_checked client POST (js ''/api/v1/plugins'') [] []
                   (Some (JObj ([(js ''name'', JStr name)] @
                      when_field (phaseRaw \<noteq> []) (js ''phase'') (JStr phaseRaw) @
                      when_field (enabledRaw = Some (js ''true'')) (js ''enabled'') (JBool True) @
                      when_field (scopeRaw \<noteq> []) (js ''scope'') (JStr scopeRaw) @ params)))
                   (js ''upsert failed'')))"

definition updatePlugin :: "form \<Rightarrow> form_result act" where
  "updatePlugin formData =
     (let name = form_str formData (js ''name'') in
      if name = [] then ret (fail_mapped (js ''plugin name is required''))
      else
        let scope = form_str formData (js ''scope'');
            phaseRaw = form_str formData (js ''phase'');
            enabledRaw = form_get formData (js ''enabled'');
            paramsJson = form_str formData (js ''params_json'')
        in case plugin_params paramsJson of
             Inl e \<Rightarrow> ret (fail_mapped (js ''invalid params JSON''))
           | Inr params \<Rightarrow>
               guarded_write [(js ''/plugins'', None)] (\<lambda>client.
                 send_checked client PATCH (js ''/api/v1/plugins/{name}'') [(js ''name'', JStr name)]
                   (when_field (scope \<noteq> []) (js ''scope'') (JStr scope))
                   (Some (JObj (when_field (phaseRaw \<noteq> []) (js ''phase'') (JStr phaseRaw) @
                      [(js ''enabled'', JBool (enabledRaw = Some (js ''true'')))] @ params)))
                   (js ''update failed'')))"

definition deletePlugin :: "jsstr \<Rightarrow> jsstr \<Rightarrow> form_result act" where
  "deletePlugin name scope =
     guarded_write [(js ''/plugins'', None)] (\<lambda>client.
       send_checked client DELETE (js ''/api/v1/plugins/{name}'') [(js ''name'', JStr name)]
         (when_field (scope \<noteq> []) (js ''scope'') (JStr scope)) None (js ''delete failed''))"

section \<open>The contract\<close>

lemma result_contract [contract_intros]:
  "(\<And>e. r = Inl e \<Longrightarrow> admin_write (f e) ok ps) \<Longrightarrow> (\<And>v. r = Inr v \<Longrightarrow> admin_write (g v) ok ps) \<Longrightarrow>
   admin_write (case r of Inl e \<Rightarrow> f e | Inr v \<Rightarrow> g v) ok ps"
  by (cases r) simp_all

lemma answer_contract [contract_intros]:
  "\<not> ok x \<Longrightarrow> admin_write (ret x) ok ps"
  using validated_contract [of ok x "ret x" ps True]
  by (auto simp: admin_write_def atomic_action_def panel_action_def atomic_action_axioms_def admin_write_axioms_def)

lemmas action_intros = contract_intros quiet_intros not_ok_fail_mapped is_ok_simps

interpretation createProvider: admin_write "createProvider f" is_ok "[(js ''/providers'', None)]" for f
  unfolding createProvider_def Let_def by (intro action_intros)

interpretation updateProvider: admin_write "updateProvider f" is_ok "[(js ''/providers'', None)]" for f
  unfolding updateProvider_def Let_def by (intro action_intros)

interpretation deleteProvider: admin_write "deleteProvider n" is_ok "[(js ''/providers'', None)]" for n
  unfolding deleteProvider_def by (intro action_intros)

interpretation createModel: admin_write "createModel f" is_ok "[(js ''/models'', None)]" for f
  unfolding createModel_def Let_def by (intro action_intros)

interpretation updateModel: admin_write "updateModel f" is_ok "[(js ''/models'', None)]" for f
  unfolding updateModel_def Let_def by (intro action_intros)

interpretation deleteModel: admin_write "deleteModel n" is_ok "[(js ''/models'', None)]" for n
  unfolding deleteModel_def by (intro action_intros)

interpretation upsertRoute: admin_write "upsertRoute f" is_ok "[(js ''/routes'', None)]" for f
  unfolding upsertRoute_def Let_def by (intro action_intros)

interpretation updateRoute: admin_write "updateRoute f" is_ok "[(js ''/routes'', None)]" for f
  unfolding updateRoute_def Let_def by (intro action_intros)

interpretation deleteRoute: admin_write "deleteRoute n" is_ok "[(js ''/routes'', None)]" for n
  unfolding deleteRoute_def by (intro action_intros)

interpretation upsertPlugin: admin_write "upsertPlugin f" is_ok "[(js ''/plugins'', None)]" for f
  unfolding upsertPlugin_def Let_def by (intro action_intros)

interpretation updatePlugin: admin_write "updatePlugin f" is_ok "[(js ''/plugins'', None)]" for f
  unfolding updatePlugin_def Let_def by (intro action_intros)

interpretation deletePlugin: admin_write "deletePlugin n s" is_ok "[(js ''/plugins'', None)]" for n s
  unfolding deletePlugin_def by (intro action_intros)


subsection \<open>Probes\<close>

definition test_ok :: "ProviderTestOutcome \<Rightarrow> bool" where
  "test_ok x = (case x of TestOk l s \<Rightarrow> True | TestFail e k \<Rightarrow> False)"

definition reached_ok :: "jsval + ProviderTestOutcome \<Rightarrow> bool" where
  "reached_ok x = (case x of Inl e \<Rightarrow> False | Inr y \<Rightarrow> test_ok y)"

lemma try_attempt:
  "try_catch (bnd serverAdminClient body) h =
     attempt body h (\<lambda>x. if ok x then Inr ([], x) else Inl x)"
  by (intro ext) (auto simp: attempt_def try_catch_apply split: prod.splits sum.splits)

lemma tame_test_catch: "tame_handler test_catch reached_ok"
  unfolding tame_handler_def
proof (intro allI impI)
  fix e pf w r w' assume "test_catch e pf w = (r, w')"
  moreover obtain r1 w1 where run: "toFormError e pf w = (r1, w1)" by fastforce
  ultimately have "w' = w1" and "\<forall>x. r = Inr x \<longrightarrow> \<not> reached_ok x"
    by (auto simp: test_catch_def bnd_apply reached_ok_def test_ok_def
        split: sum.splits form_result.splits)
  with toFormError_frame [OF run] show "w_sent w' = w_sent w \<and> w_revalidated w' = w_revalidated w \<and>
     (w_cookie w' = w_cookie w \<or> w_cookie w' = None) \<and> (\<forall>x. r = Inr x \<longrightarrow> \<not> reached_ok x)"
    by simp
qed

text \<open>An action that revalidates nothing may be followed by a pure step that turns no failure into a
  success.\<close>

lemma pure_step_contract:
  assumes "admin_write act ok []" "\<And>x y. g x = Inr y \<Longrightarrow> ok' y \<Longrightarrow> ok x"
  shows "admin_write (bnd act (\<lambda>x. lift_res (g x))) ok' []"
proof -
  have run: "\<exists>r0. act pf w = (r0, w') \<and> (\<forall>y. r = Inr y \<longrightarrow> ok' y \<longrightarrow> (\<exists>x. r0 = Inr x \<and> ok x))"
    if "bnd act (\<lambda>x. lift_res (g x)) pf w = (r, w')" for pf w r w'
    using that assms(2) by (auto simp: bnd_apply split: prod.splits sum.splits)
  note laws = admin_write.axioms(1) [OF assms(1)] atomic_action.axioms(1) [OF admin_write.axioms(1) [OF assms(1)]]
  show ?thesis
  proof unfold_locales
    fix pf w r w' assume "bnd act (\<lambda>x. lift_res (g x)) pf w = (r, w')"
    from run [OF this] have "\<exists>r0. act pf w = (r0, w')" by (elim exE conjE) (rule exI)
    then obtain r0 where "act pf w = (r0, w')" ..
    from panel_action.sends [OF laws(2) this] panel_action.cookie [OF laws(2) this]
      panel_action.marks [OF laws(2) this]
    show "\<exists>rs. w_sent w' = w_sent w @ rs \<and>
        (\<forall>q\<in>set rs. \<exists>c. client_of pf w = Some c \<and> from_client c q)"
      and "w_cookie w' = w_cookie w \<or> w_cookie w' = None"
      and "w_revalidated w' = w_revalidated w \<or> w_revalidated w' = w_revalidated w @ []"
      and "w_revalidated w' = w_revalidated w"
      by simp_all
  next
    fix pf w x w' rs assume act: "bnd act (\<lambda>x. lift_res (g x)) pf w = (Inr x, w')" and "ok' x"
      "w_sent w' = w_sent w @ rs"
    from run [OF act] obtain x0 where "act pf w = (Inr x0, w')" "ok x0"
      using \<open>ok' x\<close> by (elim exE conjE) auto
    from admin_write.accepts [OF assms(1) this] show "all_accepted pf (w_sent w) rs"
      using \<open>w_sent w' = w_sent w @ rs\<close> .
  next
    fix pf w x w' assume act: "bnd act (\<lambda>x. lift_res (g x)) pf w = (Inr x, w')"
    from run [OF act] have "\<exists>r0. act pf w = (r0, w')" by (elim exE conjE) (rule exI)
    then obtain r0 where "act pf w = (r0, w')" ..
    from panel_action.marks [OF laws(2) this] show "w_revalidated w' = w_revalidated w @ []"
      by simp
  qed
qed

lemma probe_contract:
  "admin_write (probe (\<lambda>client. call client m path params query body)) test_ok []"
  unfolding probe_def
proof (rule pure_step_contract)
  let ?body = "\<lambda>client. bnd (call client m path params query body)
      (\<lambda>r. ret (if refused r then Inl (fr_error r) else Inr (toOutcome (fr_data r))))"
  have "quiet c reached_ok (?body c)" for c
    by (rule quiet_bnd [OF quiet_call quiet_ret]) (auto simp: reached_ok_def)
  then show "admin_write (try_catch (bnd serverAdminClient ?body) test_catch) reached_ok []"
    unfolding try_attempt [where ok = reached_ok]
    by (rule attempt_contract [OF _ tame_test_catch]) (auto split: if_splits)
qed (auto simp: reached_ok_def test_ok_def testHttpFailure_def rbind_Inr_conv split: sum.splits)

interpretation testProvider: admin_write "testProvider n" test_ok "[]" for n
  unfolding testProvider_def by (rule probe_contract)

interpretation testProviderConnection: admin_write "testProviderConnection s" test_ok "[]" for s
  unfolding testProviderConnection_def by (rule probe_contract)


section \<open>Lemmas for the properties\<close>

lemma map_filter_map: "List.map_filter f (map g xs) = List.map_filter (\<lambda>x. f (g x)) xs"
  by (induction xs) (simp_all add: map_filter_simps split: option.splits)

lemma map_filter_cong: "(\<And>x. x \<in> set xs \<Longrightarrow> f x = g x) \<Longrightarrow> List.map_filter f xs = List.map_filter g xs"
  by (induction xs) (simp_all add: map_filter_simps split: option.splits)

lemma call_run:
  "call c m path params query body pf w =
     (let w1 = w\<lparr>w_sent := w_sent w @ [mk_req c m path params query body]\<rparr>
      in case pf_fetch pf (w_sent w1) of FetchThrow e \<Rightarrow> (Inl e, w1) | FetchResult r \<Rightarrow> (Inr r, w1))"
  by (simp add: call_def Let_def)

lemma toFormError_sent [simp]: "w_sent (snd (toFormError e pf w)) = w_sent w"
  using toFormError_frame(1) [of e pf w] by (metis prod.collapse)

lemma attempt_sent:
  assumes "client_of pf w = Some c"
  shows "w_sent (snd (guarded_write paths body pf w)) = w_sent (snd (body c pf w))"
proof -
  have "serverAdminClient pf w = (Inr c, w)"
    using serverAdminClient_run [of pf w] assms by auto
  then show ?thesis
    by (auto simp: guarded_write_attempt attempt_def bnd_apply split: prod.splits sum.splits option.splits)
qed

lemma send_checked_run:
  "send_checked c m path params query body fb pf w =
     (let w1 = w\<lparr>w_sent := w_sent w @ [mk_req c m path params query body]\<rparr>
      in case pf_fetch pf (w_sent w1) of
           FetchThrow e \<Rightarrow> (Inl e, w1) | FetchResult r \<Rightarrow> (check_write fb r, w1))"
  by (auto simp: send_checked_def bnd_apply call_run Let_def split: fetch_outcome.splits)

lemma send_checked_sent:
  "w_sent (snd (send_checked c m path params query body fb pf w)) =
     w_sent w @ [mk_req c m path params query body]"
  by (auto simp: send_checked_run Let_def split: fetch_outcome.splits)

lemma send_checked_accepted:
  "fst (send_checked c m path params query body fb pf w) = Inr None \<longleftrightarrow>
     accepted pf (w_sent w @ [mk_req c m path params query body])"
  by (auto simp: send_checked_run Let_def accepted_def check_write_Inr_None split: fetch_outcome.splits)

lemma split_runs_clean: "t \<in> set (split_runs P s) \<Longrightarrow> c \<in> set t \<Longrightarrow> \<not> P c"
proof (induction P s arbitrary: t rule: split_runs.induct)
  case (1 P s)
  then show ?case
    by (subst (asm) (2) split_runs.simps) (auto simp: Let_def dest: set_takeWhileD split: if_splits)
qed

lemma concat_split_runs: "concat (split_runs P s) = filter (\<lambda>c. \<not> P c) s"
proof (induction P s rule: split_runs.induct)
  case (1 P s)
  let ?rest = "dropWhile (\<lambda>c. \<not> P c) s"
  have tw: "filter (\<lambda>c. \<not> P c) (takeWhile (\<lambda>c. \<not> P c) s) = takeWhile (\<lambda>c. \<not> P c) s"
    by (auto simp: filter_id_conv dest: set_takeWhileD)
  have "filter (\<lambda>c. \<not> P c) (takeWhile P ?rest) = []"
    by (auto simp: filter_empty_conv dest: set_takeWhileD)
  then have dw: "filter (\<lambda>c. \<not> P c) (dropWhile P ?rest) = filter (\<lambda>c. \<not> P c) ?rest"
    by (metis append_Nil filter_append takeWhile_dropWhile_id)
  have "concat (split_runs P s) = takeWhile (\<lambda>c. \<not> P c) s @ filter (\<lambda>c. \<not> P c) ?rest"
    using 1 [OF refl] dw
    by (cases "?rest = []") (subst split_runs.simps, simp add: Let_def del: dropWhile_eq_Nil_conv)+
  also have "\<dots> = filter (\<lambda>c. \<not> P c) (takeWhile (\<lambda>c. \<not> P c) s @ ?rest)"
    by (simp only: filter_append tw)
  finally show ?case by simp
qed

lemma split_runs_single: "(\<And>c. c \<in> set t \<Longrightarrow> \<not> P c) \<Longrightarrow> split_runs P t = [t]"
  by (subst split_runs.simps) (simp add: Let_def)

lemma split_runs_Cons:
  assumes "\<And>c. c \<in> set t \<Longrightarrow> \<not> P c" "P c" "r \<noteq> []" "\<not> P (hd r)"
  shows "split_runs P (t @ c # r) = t # split_runs P r"
proof -
  have "takeWhile (\<lambda>c. \<not> P c) (t @ c # r) = t" "dropWhile (\<lambda>c. \<not> P c) (t @ c # r) = c # r"
    using assms(1,2) by (simp_all add: takeWhile_append2 dropWhile_append2)
  moreover have "dropWhile P (c # r) = r"
    using assms(2-4) by (cases r) auto
  ultimately show ?thesis
    by (subst split_runs.simps) (simp add: Let_def)
qed

lemma parseList_filter: "parseList s = filter (\<lambda>t. t \<noteq> []) (split_runs list_sep s)"
proof -
  have "js_trim t = t" if "t \<in> set (split_runs list_sep s)" for t
    using split_runs_clean [OF that] by (intro js_trim_id) (auto simp: list_sep_def)
  then show ?thesis
    by (simp add: parseList_def map_idI)
qed

section \<open>Properties\<close>

text \<open>C11: rotating a provider's key. When an edit carries a plaintext key, the generic update has
  neither \<^verbatim>\<open>api_key\<close> nor \<^verbatim>\<open>api_key_ref\<close>; the key goes only to the credential endpoint, and only
  after the generic update, if there is one to send, was accepted.\<close>

theorem updateProvider_rotation:
  assumes "client_of pf w = Some c" "\<not> blank f (js ''name'')" "\<not> blank f (js ''api_key'')"
    and "gen = mk_req c PATCH (js ''/api/v1/providers/{name}'') [(js ''name'', JStr (form_str f (js ''name'')))] []
                 (Some (JObj (provider_patch f)))"
    and "cred = mk_req c PATCH (js ''/api/v1/providers/{name}/credential'')
                 [(js ''name'', JStr (form_str f (js ''name'')))] []
                 (Some (JObj [(js ''api_key'', JStr (form_str f (js ''api_key'')))]))"
  shows "w_sent (snd (updateProvider f pf w)) = w_sent w @
      (if provider_patch f = [] then [cred]
       else if accepted pf (w_sent w @ [gen]) then [gen, cred] else [gen]) \<and>
    map_of (provider_patch f) (js ''api_key'') = None \<and>
    map_of (provider_patch f) (js ''api_key_ref'') = None"
proof -
  have "map_of (provider_patch f) k = None" if "k = js ''api_key'' \<or> k = js ''api_key_ref''" for k
    using assms(3) that by (auto simp: provider_patch_def Let_def when_field_def form_str_blank)
  moreover have "w_sent (snd (updateProvider f pf w)) = w_sent w @
      (if provider_patch f = [] then [cred]
       else if accepted pf (w_sent w @ [gen]) then [gen, cred] else [gen])"
  proof (cases "provider_patch f = []")
    case True
    with assms show ?thesis
      by (simp add: updateProvider_def Let_def form_str_blank attempt_sent bnd_apply send_checked_sent)
  next
    case False
    let ?m = "send_checked c PATCH (js ''/api/v1/providers/{name}'')
        [(js ''name'', JStr (form_str f (js ''name'')))] [] (Some (JObj (provider_patch f)))
        (js ''update failed'')"
    obtain r w1 where m: "?m pf w = (r, w1)" by fastforce
    then have "w_sent w1 = w_sent w @ [gen]" "r = Inr None \<longleftrightarrow> accepted pf (w_sent w @ [gen])"
      using send_checked_sent [of c PATCH] send_checked_accepted [of c PATCH] assms(4)
      by (metis snd_conv, metis fst_conv)
    with False assms m show ?thesis
      by (auto simp: updateProvider_def Let_def form_str_blank attempt_sent bnd_apply send_checked_sent
          split: sum.splits option.splits)
  qed
  ultimately show ?thesis by blast
qed

theorem updateProvider_rotation_witness:
  "w_sent (snd (updateProvider [(js ''name'', js ''p''), (js ''api_key'', js ''k''), (js ''api_key_ref'', js ''x'')]
       sample_platform sample_world)) =
     w_sent sample_world @
     [mk_req sample_client PATCH (js ''/api/v1/providers/{name}/credential'')
        [(js ''name'', JStr (form_str [(js ''name'', js ''p''), (js ''api_key'', js ''k''), (js ''api_key_ref'', js ''x'')] (js ''name'')))] []
        (Some (JObj [(js ''api_key'', JStr (form_str [(js ''name'', js ''p''), (js ''api_key'', js ''k''), (js ''api_key_ref'', js ''x'')] (js ''api_key'')))]))]"
proof -
  let ?f = "[(js ''name'', js ''p''), (js ''api_key'', js ''k''), (js ''api_key_ref'', js ''x'')]"
  have "\<not> blank ?f (js ''name'')" "\<not> blank ?f (js ''api_key'')" "provider_patch ?f = []"
    by (simp_all add: provider_patch_def collectEndpoints_def map_filter_simps form_eval)
  then show ?thesis
    using updateProvider_rotation [OF sample_client_of, of ?f, OF _ _ refl refl] by simp
qed

text \<open>The parallel arrays of a provider's endpoints. On arrays of the same length the result is
  the rows in order, trimmed, without those whose adapter and base URL are both empty; the id is
  present only when it is not empty.\<close>

theorem collectEndpoints_rows:
  assumes "length (form_getAll f (js ''endpoint_base_url'')) = length (form_getAll f (js ''endpoint_adapter''))"
    and "length (form_getAll f (js ''endpoint_id'')) = length (form_getAll f (js ''endpoint_adapter''))"
  shows "collectEndpoints f =
     map (\<lambda>(a, u, i). JObj (when_field (i \<noteq> []) (js ''id'') (JStr i) @
             [(js ''adapter'', JStr a), (js ''base_url'', JStr u)]))
       (filter (\<lambda>(a, u, i). a \<noteq> [] \<or> u \<noteq> [])
         (zip (map js_trim (form_getAll f (js ''endpoint_adapter'')))
           (zip (map js_trim (form_getAll f (js ''endpoint_base_url'')))
             (map js_trim (form_getAll f (js ''endpoint_id''))))))"
proof -
  let ?as = "form_getAll f (js ''endpoint_adapter'')" and ?us = "form_getAll f (js ''endpoint_base_url'')"
    and ?is = "form_getAll f (js ''endpoint_id'')"
  let ?rows = "zip (map js_trim ?as) (zip (map js_trim ?us) (map js_trim ?is))"
  let ?row = "\<lambda>(a, u, i). if a \<noteq> [] \<or> u \<noteq> []
      then Some (JObj (when_field (i \<noteq> []) (js ''id'') (JStr i) @ [(js ''adapter'', JStr a), (js ''base_url'', JStr u)]))
      else None"
  have len: "length ?rows = length ?as" using assms by simp
  have "endpoint_row ?as ?us ?is n = ?row (?rows ! n)" if "n < length ?as" for n
    using that assms by (simp add: endpoint_row_def str_at_def Let_def)
  then have "collectEndpoints f = List.map_filter ?row (map ((!) ?rows) [0..<length ?as])"
    by (simp only: collectEndpoints_def Let_def map_filter_map) (rule map_filter_cong, simp)
  also have "map ((!) ?rows) [0..<length ?as] = ?rows"
    using map_nth [of ?rows] len by simp
  finally show ?thesis
    by (auto simp: List.map_filter_def intro!: map_cong filter_cong split: prod.splits)
qed

theorem collectEndpoints_rows_witness:
  "length (form_getAll [(js ''endpoint_adapter'', []), (js ''endpoint_base_url'', js ''u''), (js ''endpoint_id'', [])]
      (js ''endpoint_base_url'')) = 1 \<and>
   collectEndpoints [(js ''endpoint_adapter'', []), (js ''endpoint_base_url'', js ''u''), (js ''endpoint_id'', [])] =
     [JObj [(js ''adapter'', JStr []), (js ''base_url'', JStr (js_trim (js ''u'')))]]"
proof -
  let ?f = "[(js ''endpoint_adapter'', []), (js ''endpoint_base_url'', js ''u''), (js ''endpoint_id'', [])]"
  have "js_trim (js ''u'') \<noteq> []" by (simp add: form_eval)
  then show ?thesis
    using collectEndpoints_rows [of ?f] by (simp add: form_getAll_def when_field_def)
qed

text \<open>The cache multiplier of a price, whatever was typed, is a finite number between 0 and the
  1,000,000 micro-units of the full price.\<close>

theorem cache_multiplier_bounds:
  "cache_multiplier p = [] \<or>
   (\<exists>q. cache_multiplier p = [(js ''cache_hit_multiplier'', JNum (Fin q))] \<and> 0 \<le> q \<and> q \<le> 1000000)"
proof (cases "num_isFinite p \<and> num_lt (Fin 0) p")
  case True
  then obtain x where p: "p = Fin x" "0 < x" by (cases p) auto
  have "num_mul p (Fin 10000) \<noteq> NaN"
    by (simp add: p round_double_def Let_def)
  then have "\<exists>q. num_min (num_max (num_mul p (Fin 10000)) (Fin 0)) (Fin 1000000) = Fin q \<and> 0 \<le> q \<and> q \<le> 1000000"
    by (cases "num_mul p (Fin 10000)") (auto simp: num_min_def num_max_def)
  with True show ?thesis by (auto simp: cache_multiplier_def)
qed (auto simp: cache_multiplier_def when_field_def)

text \<open>Tag lists. Whatever was typed, the parsed tags are non-empty and free of commas and white
  space, and together they are the text without its separators; a comma-joined list of such tags
  parses back to itself.\<close>

theorem parseList_spec:
  "(\<forall>t\<in>set (parseList s). t \<noteq> [] \<and> (\<forall>c\<in>set t. \<not> list_sep c)) \<and>
   concat (parseList s) = filter (\<lambda>c. \<not> list_sep c) s \<and>
   ((\<forall>t\<in>set ts. t \<noteq> [] \<and> (\<forall>c\<in>set t. \<not> list_sep c)) \<longrightarrow> parseList (js_join [0x2C] ts) = ts)"
proof (intro conjI impI)
  show "\<forall>t\<in>set (parseList s). t \<noteq> [] \<and> (\<forall>c\<in>set t. \<not> list_sep c)"
    using split_runs_clean by (auto simp: parseList_filter)
  have "concat (filter (\<lambda>t. t \<noteq> []) xs) = concat xs" for xs :: "jsstr list"
    by (induction xs) auto
  then show "concat (parseList s) = filter (\<lambda>c. \<not> list_sep c) s"
    by (simp add: parseList_filter concat_split_runs)
  assume clean: "\<forall>t\<in>set ts. t \<noteq> [] \<and> (\<forall>c\<in>set t. \<not> list_sep c)"
  have "filter (\<lambda>t. t \<noteq> []) (split_runs list_sep (js_join [0x2C] ts)) = ts"
    using clean
  proof (induction ts rule: induct_list012)
    case 1
    then show ?case by (simp add: split_runs.simps)
  next
    case (2 x)
    then show ?case by (simp add: split_runs_single)
  next
    case (3 x y zs)
    then have "split_runs list_sep (x @ 0x2C # js_join [0x2C] (y # zs)) =
        x # split_runs list_sep (js_join [0x2C] (y # zs))"
      by (intro split_runs_Cons) (auto simp: list_sep_def js_join_hd)
    with 3 show ?case by simp
  qed
  then show "parseList (js_join [0x2C] ts) = ts"
    by (simp add: parseList_filter)
qed

theorem parseList_spec_witness:
  "parseList (js_join [0x2C] [js ''vision'', js ''tools'']) = [js ''vision'', js ''tools'']"
proof -
  have "\<forall>t\<in>set [js ''vision'', js ''tools'']. t \<noteq> [] \<and> (\<forall>c\<in>set t. \<not> list_sep c)"
    by (simp add: list_sep_def js_ws_def js_def)
  then show ?thesis using parseList_spec by blast
qed

text \<open>A malformed price anywhere in the upstream rows rejects the whole form of a model before
  anything is sent, with the message for an invalid amount.\<close>

theorem model_bad_price:
  assumes "\<not> blank f (js ''alias'')" and "i < length (form_getAll f (js ''upstream_provider''))"
    and "k = js ''upstream_prompt_price'' \<or> k = js ''upstream_completion_price''"
    and "str_at (form_getAll f k) i = Some t" and "js_trim t \<noteq> []" and "displayToMicro (js_trim t) = Inl e"
  shows "createModel f pf w = (Inr (FormErr (js ''invalid pricing amount'') (Some (js ''invalidPricingAmount''))), w) \<and>
    updateModel f pf w = (Inr (FormErr (js ''invalid pricing amount'') (Some (js ''invalidPricingAmount''))), w)"
proof -
  let ?ps = "form_getAll f (js ''upstream_provider'')"
  let ?row = "model_upstream (form_getAll f (js ''upstream_model'')) (form_getAll f (js ''upstream_max_tokens''))
      (form_getAll f (js ''upstream_prompt_price'')) (form_getAll f (js ''upstream_completion_price''))
      (form_getAll f (js ''upstream_cache_hit_multiplier''))"
  have bad: "price_of (map_option js_trim (str_at (form_getAll f k) i)) = Inl e"
    using assms(4-6) by (simp add: price_of_def nonempty_def)
  have ne: "nonempty (map_option js_trim (str_at (form_getAll f k) i))"
    using assms(4,5) by (simp add: nonempty_def)
  have "\<exists>e'. ?row (?ps ! i, i) = Inl e'"
    using assms(3) bad ne
    by (auto simp: model_upstream_def upstream_pricing_def Let_def rbind_def split: sum.splits)
  moreover have "(?ps ! i, i) \<in> set (zip ?ps [0..<length ?ps])"
    using assms(2) by (auto simp: set_zip intro!: exI [of _ i])
  ultimately have "\<exists>e'. model_upstreams f = Inl e'"
    unfolding model_upstreams_def Let_def by (rule rmap_Inl [rotated])
  with assms(1) show ?thesis
    by (auto simp: createModel_def updateModel_def Let_def form_str_blank)
qed

theorem model_bad_price_witness:
  "createModel [(js ''alias'', js ''m''), (js ''upstream_provider'', js ''p''), (js ''upstream_prompt_price'', js ''x'')]
     sample_platform sample_world =
     (Inr (FormErr (js ''invalid pricing amount'') (Some (js ''invalidPricingAmount''))), sample_world)"
proof -
  let ?f = "[(js ''alias'', js ''m''), (js ''upstream_provider'', js ''p''), (js ''upstream_prompt_price'', js ''x'')]"
  have "\<not> blank ?f (js ''alias'')" "0 < length (form_getAll ?f (js ''upstream_provider''))"
    "str_at (form_getAll ?f (js ''upstream_prompt_price'')) 0 = Some (js ''x'')" "js_trim (js ''x'') \<noteq> []"
    by (simp_all add: form_eval str_at_def)
  moreover have "displayToMicro (js_trim (js ''x'')) =
      Inl (RangeError (js ''invalid decimal amount: \"'' @ js ''x'' @ js ''\"''))"
    by code_simp
  ultimately show ?thesis
    using model_bad_price [of ?f 0 "js ''upstream_prompt_price''"] by blast
qed

end
