(* ===== verification/Actions_Access.thy ===== *)
theory Actions_Access
  imports Actions_Config
begin

text \<open>
  The actions that go through \<^verbatim>\<open>unwrap\<close> and the sign-in: roles, API keys, budgets and
  reservations, the configuration history, the pair of trace details and
  \<^verbatim>\<open>loginAction\<close> (\<^verbatim>\<open>roles/actions.ts\<close>, \<^verbatim>\<open>api-keys/actions.ts\<close>, \<^verbatim>\<open>budgets/actions.ts\<close>,
  \<^verbatim>\<open>config/history/actions.ts\<close>, \<^verbatim>\<open>trace/sessions/[session_id]/[req]/\<close>
  \<^verbatim>\<open>fetch-detail.ts\<close> and \<^verbatim>\<open>actions.ts\<close>, \<^verbatim>\<open>login/actions.ts\<close>).
\<close>

text \<open>\<^verbatim>\<open>try { const client = await serverAdminClient(); unwrap(await ...); revalidatePath(...); return
  { ok: true }; } catch (err) { ... }\<close>\<close>

definition try_write ::
  "(jsstr \<times> jsstr option) list \<Rightarrow> (admin_client \<Rightarrow> jsval act) \<Rightarrow> (jserror \<Rightarrow> form_result act) \<Rightarrow> form_result act" where
  "try_write paths body handler =
     try_catch
       (bnd serverAdminClient (\<lambda>client. bnd (body client) (\<lambda>_.
          bnd (revalidate_all paths) (\<lambda>_. ret FormOk))))
       handler"

section \<open>Roles\<close>

text \<open>\<^verbatim>\<open>permsStr ? permsStr.split(",").filter(Boolean) : []\<close>\<close>

definition role_permissions :: "jsstr \<Rightarrow> jsstr list" where
  "role_permissions permsStr =
     (if permsStr = [] then [] else filter (\<lambda>s. s \<noteq> []) (js_split 0x2C permsStr))"

text \<open>The catch blocks map \<^verbatim>\<open>String(err)\<close>, not the message.\<close>

definition role_catch :: "jserror \<Rightarrow> form_result act" where
  "role_catch err = bnd (asks (\<lambda>pf. error_String pf err)) (\<lambda>s. ret (fail_mapped s))"

definition role_delete_catch :: "jserror \<Rightarrow> form_result act" where
  "role_delete_catch err = bnd (asks (\<lambda>pf. error_String pf err)) (\<lambda>s.
     ret (FormErr (me_fallback (mapBackendError s)) None))"

definition role_body :: "form \<Rightarrow> json" where
  "role_body formData =
     (let name = form_str formData (js ''name'');
          scopeKind = js_trim (case form_get formData (js ''scope_kind'') of
                                 None \<Rightarrow> js ''tenant'' | Some s \<Rightarrow> s);
          description = form_str formData (js ''description'');
          permissions = role_permissions (form_str formData (js ''permissions''))
      in JObj [(js ''name'', JStr name), (js ''scope_kind'', JStr scopeKind),
               (js ''description'', JStr description),
               (js ''permissions'', JArr (map JStr permissions))])"

definition createRole :: "form \<Rightarrow> form_result act" where
  "createRole formData =
     (if form_str formData (js ''name'') = [] then ret (FormErr (js ''Name is required'') None)
      else try_write [(js ''/roles'', None)] (\<lambda>client.
        send_unwrap client POST (js ''/api/v1/roles'') [] [] (Some (role_body formData)))
        role_catch)"

definition updateRole :: "form \<Rightarrow> form_result act" where
  "updateRole formData =
     (let rid = form_num formData (js ''role_id'');
          description = form_str formData (js ''description'');
          permissions = role_permissions (form_str formData (js ''permissions''))
      in if \<not> num_truthy rid then ret (FormErr (js ''Role ID is required'') None)
         else try_write [(js ''/roles'', None)] (\<lambda>client.
           send_unwrap client PATCH (js ''/api/v1/roles/{id}'') [(js ''id'', JNum rid)] []
             (Some (JObj ([(js ''permissions'', JArr (map JStr permissions))] @
                          when_field (description \<noteq> []) (js ''description'') (JStr description)))))
           role_catch)"

definition deleteRole :: "jsnum \<Rightarrow> form_result act" where
  "deleteRole rid =
     try_write [(js ''/roles'', None)] (\<lambda>client.
       send_unwrap client DELETE (js ''/api/v1/roles/{id}'') [(js ''id'', JNum rid)] [] None)
       role_delete_catch"

section \<open>API keys\<close>

definition formError :: "jserror \<Rightarrow> form_result act" where
  "formError err = bnd (toFormError err) (\<lambda>result.
     if result \<noteq> FormOk \<and> is_AdminError err then ret (fail_mapped (err_message err))
     else ret result)"

text \<open>The result of a creation: \<^verbatim>\<open>FormResult & { apiKey?: string }\<close>. The key is read from the response
  after the list was revalidated, so a response without a body fails after that.\<close>

type_synonym key_result = "form_result \<times> jsval"

definition api_key_body :: "form \<Rightarrow> fields" where
  "api_key_body formData =
     (let allowedModels = filter (\<lambda>s. s \<noteq> []) (form_getAll formData (js ''allowed_models''))
      in [(js ''key_id'', JStr (form_str formData (js ''key_id''))),
          (js ''group_id'', JNum (form_num formData (js ''group_id''))),
          (js ''application_id'', JNum (form_num formData (js ''application_id''))),
          (js ''environment'', JStr (form_raw formData (js ''environment'')))] @
         when_field (allowedModels \<noteq> []) (js ''allowed_models'') (JArr (map JStr allowedModels)))"

definition createAPIKey :: "form \<Rightarrow> key_result act" where
  "createAPIKey formData =
     try_catch
       (bnd serverAdminClient (\<lambda>client.
          bnd (send_unwrap client POST (js ''/api/v1/api-keys'') [] [] (Some (JObj (api_key_body formData)))) (\<lambda>data.
          bnd (revalidatePath (js ''/api-keys'') None) (\<lambda>_.
          bnd (lift_res (get_prop data (js ''api_key''))) (\<lambda>key.
          ret (FormOk, key))))))
       (\<lambda>err. bnd (formError err) (\<lambda>r. ret (r, None)))"

definition api_key_patch :: "form \<Rightarrow> fields" where
  "api_key_patch formData =
     (let allowedModels = filter (\<lambda>s. s \<noteq> []) (form_getAll formData (js ''allowed_models''));
          bind = (form_get formData (js ''bind_identity'') = Some (js ''true''))
      in when_field (allowedModels \<noteq> [] \<or> form_get formData (js ''had_models'') = Some (js ''true'') \<or> \<not> bind)
           (js ''allowed_models'') (JArr (map JStr allowedModels)) @
         (if bind
          then [(js ''group_id'', JNum (form_num formData (js ''group_id''))),
                (js ''application_id'', JNum (form_num formData (js ''application_id''))),
                (js ''environment'', JStr (form_raw formData (js ''environment'')))]
          else []))"

definition updateAPIKey :: "form \<Rightarrow> form_result act" where
  "updateAPIKey formData =
     try_write [(js ''/api-keys'', None)] (\<lambda>client.
       send_unwrap client PATCH (js ''/api/v1/api-keys/{key_id}'')
         [(js ''key_id'', JStr (form_str formData (js ''key_id'')))] []
         (Some (JObj (api_key_patch formData))))
       formError"

definition revokeAPIKey :: "jsstr \<Rightarrow> form_result act" where
  "revokeAPIKey keyId =
     try_write [(js ''/api-keys'', None)] (\<lambda>client.
       send_unwrap client DELETE (js ''/api/v1/api-keys/{key_id}'') [(js ''key_id'', JStr keyId)] [] None)
       formError"

section \<open>Budgets and reservations\<close>

definition t_budgets :: "jsstr \<Rightarrow> jsstr act" where
  "t_budgets key = asks (\<lambda>pf. pf_translate pf (js ''budgets'') key)"

definition writeGuard :: "jsstr \<Rightarrow> jsstr \<Rightarrow> form_result option act" where
  "writeGuard tenant permission =
     bnd getSession (\<lambda>session.
       if sd_scopeKind session \<noteq> Some (js ''global'') \<or> \<not> has session permission
       then bnd (t_budgets (js ''forbiddenWrite'')) (\<lambda>m. ret (Some (FormErr m None)))
       else if js_trim tenant = []
       then bnd (t_budgets (js ''selectTenant'')) (\<lambda>m. ret (Some (FormErr m None)))
       else ret None)"

definition actionError :: "jserror \<Rightarrow> form_result act" where
  "actionError err =
     (if is_RangeError err
      then bnd (t_budgets (js ''invalidAmount'')) (\<lambda>m. ret (FormErr m None))
      else bnd (toFormError err) (\<lambda>result.
        case result of FormOk \<Rightarrow> ret FormOk | FormErr m k \<Rightarrow> ret (fail_mapped m)))"

definition amount :: "jsstr option \<Rightarrow> jsnum res" where
  "amount input =
     rbind (displayToMicro (case input of None \<Rightarrow> [] | Some s \<Rightarrow> s)) (\<lambda>v.
       if num_isSafeInteger v then Inr v else Inl (RangeError (js ''unsafe monetary amount'')))"

definition budget_pages :: "(jsstr \<times> jsstr option) list" where
  "budget_pages = [(js ''/[locale]/budgets'', Some (js ''page'')), (js ''/[locale]/budgets/[id]'', Some (js ''page''))]"

text \<open>The frame of the three actions: the guard, then the body and the request in one try block.\<close>

definition budget_write ::
  "jsstr \<Rightarrow> jsstr \<Rightarrow> 'b res \<Rightarrow> (admin_client \<Rightarrow> 'b \<Rightarrow> jsval act) \<Rightarrow> form_result act" where
  "budget_write tenant permission body request =
     bnd (writeGuard tenant permission) (\<lambda>denied.
       case denied of
         Some r \<Rightarrow> ret r
       | None \<Rightarrow>
           bnd (try_catch
                  (bnd (lift_res body) (\<lambda>b. bnd serverAdminClient (\<lambda>client.
                     bnd (request client b) (\<lambda>_. ret None))))
                  (\<lambda>err. bnd (actionError err) (\<lambda>r. ret (Some r))))
             (\<lambda>early. case early of
                Some r \<Rightarrow> ret r
              | None \<Rightarrow> bnd (revalidate_all budget_pages) (\<lambda>_. ret FormOk)))"

definition budget_thresholds :: "jsstr \<Rightarrow> json list" where
  "budget_thresholds raw =
     map (\<lambda>s. JNum (js_Number s)) (filter (\<lambda>item. js_trim item \<noteq> []) (js_split 0x2C raw))"

definition budget_body :: "form \<Rightarrow> fields res" where
  "budget_body form =
     rbind (amount (form_get form (js ''limit''))) (\<lambda>limit.
       Inr [(js ''name'', JStr (form_str form (js ''name''))),
            (js ''scope_kind'', JStr (form_String form (js ''scope_kind''))),
            (js ''scope_ref'', JStr (form_str form (js ''scope_ref''))),
            (js ''environment'', JStr (form_raw form (js ''environment''))),
            (js ''period'', JStr (form_String form (js ''period''))),
            (js ''timezone'', JStr (js_trim (case form_get form (js ''timezone'') of
                                              None \<Rightarrow> js ''UTC'' | Some s \<Rightarrow> s))),
            (js ''currency'', JStr (form_String form (js ''currency''))),
            (js ''limit'', JNum limit),
            (js ''mode'', JStr (form_String form (js ''mode''))),
            (js ''thresholds'', JArr (budget_thresholds (form_raw form (js ''thresholds''))))])"

definition createBudget :: "jsstr \<Rightarrow> form \<Rightarrow> form_result act" where
  "createBudget tenant form =
     budget_write tenant (js ''budget.write'') (budget_body form) (\<lambda>client body.
       send_unwrap client POST (js ''/api/v1/budgets'') [] [(js ''tenant'', JStr tenant)] (Some (JObj body)))"

definition budget_patch :: "jsnum \<Rightarrow> form \<Rightarrow> fields res" where
  "budget_patch version form =
     (let base = [(js ''version'', JNum version),
                  (js ''enabled'', JBool (form_get form (js ''enabled'') = Some (js ''true'')))]
      in if form_get form (js ''limitChanged'') = Some (js ''true'')
         then rbind (amount (form_get form (js ''limit''))) (\<lambda>limit. Inr (base @ [(js ''limit'', JNum limit)]))
         else Inr base)"

definition updateBudget :: "jsstr \<Rightarrow> jsnum \<Rightarrow> jsnum \<Rightarrow> form \<Rightarrow> form_result act" where
  "updateBudget tenant bid version form =
     budget_write tenant (js ''budget.write'') (budget_patch version form) (\<lambda>client body.
       send_unwrap client PATCH (js ''/api/v1/budgets/{id}'') [(js ''id'', JNum bid)]
         [(js ''tenant'', JStr tenant)] (Some (JObj body)))"

definition resolution_body :: "jsnum \<Rightarrow> form \<Rightarrow> fields res" where
  "resolution_body version form =
     (let action = form_String form (js ''action'');
          base = [(js ''version'', JNum version), (js ''action'', JStr action),
                  (js ''reason'', JStr (form_str form (js ''reason''))),
                  (js ''evidence'', JStr (form_str form (js ''evidence'')))]
      in if action = js ''settle''
         then rbind (amount (form_get form (js ''actual''))) (\<lambda>actual. Inr (base @ [(js ''actual'', JNum actual)]))
         else Inr base)"

definition resolveReservation :: "jsstr \<Rightarrow> jsstr \<Rightarrow> jsnum \<Rightarrow> form \<Rightarrow> form_result act" where
  "resolveReservation tenant rid version form =
     budget_write tenant (js ''budget.resolve'') (resolution_body version form) (\<lambda>client body.
       send_unwrap client POST (js ''/api/v1/billing-reservations/{id}/resolve'') [(js ''id'', JStr rid)]
         [(js ''tenant'', JStr tenant)] (Some (JObj body)))"

section \<open>Configuration history\<close>

definition rollbackAction :: "jsnum \<Rightarrow> unit act" where
  "rollbackAction version =
     bnd (try_catch
            (bnd serverAdminClient (\<lambda>client.
               bnd (send_unwrap client POST (js ''/api/v1/config/rollback'') [] []
                      (Some (JObj [(js ''version'', JNum version)]))) (\<lambda>_. ret ())))
            onAuthExpired)
       (\<lambda>_. revalidatePath (js ''/config/history'') None)"

text \<open>The three reads: \<^verbatim>\<open>onAuthExpired\<close> never returns, so the \<^verbatim>\<open>throw\<close> after it is dead code.\<close>

definition config_read :: "(admin_client \<Rightarrow> jsval act) \<Rightarrow> jsval act" where
  "config_read request =
     try_catch (bnd serverAdminClient request) (\<lambda>err. bnd (onAuthExpired err) (\<lambda>_ :: unit. throw err))"

definition diffAction :: "jsnum \<Rightarrow> jsnum \<Rightarrow> jsval act" where
  "diffAction v1 v2 = config_read (\<lambda>client.
     send_unwrap client GET (js ''/api/v1/config/history/diff'') []
       [(js ''from'', JNum v1), (js ''to'', JNum v2)] None)"

definition snapshotAction :: "jsnum \<Rightarrow> jsval act" where
  "snapshotAction version = config_read (\<lambda>client.
     send_unwrap client GET (js ''/api/v1/config/history/{version}'') [(js ''version'', JNum version)] [] None)"

definition previewAction :: "json \<Rightarrow> jsval act" where
  "previewAction body = config_read (\<lambda>client.
     send_unwrap client POST (js ''/api/v1/config/preview'') [] [] (Some body))"

section \<open>Trace details\<close>

definition fetchDetailByRow :: "jsnum \<Rightarrow> jsval act" where
  "fetchDetailByRow rowID =
     (if \<not> num_truthy rowID \<or> num_le rowID (Fin 0) then ret (Some JNull)
      else try_catch
        (bnd serverAdminClient (\<lambda>client.
           bnd (send_unwrap client GET (js ''/api/v1/trace/rows/{id}'') [(js ''id'', JNum rowID)] [] None) (\<lambda>res.
           ret (Some (coalesce res JNull)))))
        (\<lambda>err. case err of
           AdminError status ty m \<Rightarrow> if status = 404 then ret (Some JNull) else throw err
         | _ \<Rightarrow> throw err))"

text \<open>\<^verbatim>\<open>Promise.all\<close> starts both lookups and rejects with the rejection that settles first;
  \<open>firstWins\<close> says which that is when both fail.\<close>

definition promise_all2 :: "bool \<Rightarrow> 'a act \<Rightarrow> 'b act \<Rightarrow> ('a \<times> 'b) act" where
  "promise_all2 firstWins m n = (\<lambda>pf w.
     let (r1, w1) = m pf w; (r2, w2) = n pf w1
     in (case (r1, r2) of
           (Inr a, Inr b) \<Rightarrow> Inr (a, b)
         | (Inl e, Inr b) \<Rightarrow> Inl e
         | (Inr a, Inl e) \<Rightarrow> Inl e
         | (Inl e, Inl e') \<Rightarrow> Inl (if firstWins then e else e'), w2))"

definition fetchDetailPair :: "bool \<Rightarrow> jsnum \<Rightarrow> jsnum \<Rightarrow> (jsval \<times> jsval) act" where
  "fetchDetailPair firstWins rowID previousRowID =
     promise_all2 firstWins (fetchDetailByRow rowID)
       (if num_lt (Fin 0) previousRowID then fetchDetailByRow previousRowID else ret (Some JNull))"

datatype pair_result = PairOk jsval jsval | PairFail (pair_forbidden: bool)

definition fetchTraceDetailPair :: "bool \<Rightarrow> jsnum \<Rightarrow> jsnum \<Rightarrow> pair_result act" where
  "fetchTraceDetailPair firstWins rowID previousRowID =
     try_catch (bnd (fetchDetailPair firstWins rowID previousRowID) (\<lambda>(c, p). ret (PairOk c p)))
       (\<lambda>err. bnd (toFormError err) (\<lambda>_. ret (PairFail (is_AdminError err \<and> err_status err = 403))))"

section \<open>Sign-in\<close>

text \<open>The response fields with the types the SDK declares for them; values of another type do not
  occur in the declared responses and are read as absent.\<close>

fun as_str :: "jsval \<Rightarrow> jsstr option" where
  "as_str (Some (JStr s)) = Some s"
| "as_str v = None"

fun as_num :: "jsval \<Rightarrow> jsnum option" where
  "as_num (Some (JNum n)) = Some n"
| "as_num v = None"

fun as_strs :: "jsval \<Rightarrow> jsstr list option" where
  "as_strs (Some (JArr vs)) = Some (List.map_filter (\<lambda>v. as_str (Some v)) vs)"
| "as_strs v = None"

definition login_message :: "fetch_result \<Rightarrow> json" where
  "login_message r =
     coalesce (envelope (fr_error r) (js ''message''))
       (JStr (if fr_status r = 429 then js ''too many failed logins; try again later''
              else js ''invalid credentials''))"

text \<open>The session of a signed-in operator, from the answer of \<^verbatim>\<open>/api/v1/me\<close>.\<close>

definition login_session :: "jsstr \<Rightarrow> jsstr \<Rightarrow> jsval \<Rightarrow> session_data" where
  "login_session token email me =
     \<lparr>sd_token = Some token, sd_email = Some email,
      sd_role = as_str (Some (coalesce (opt_prop me (js ''role'')) (JStr (js ''super-admin'')))),
      sd_roleID = as_num (opt_prop me (js ''role_id'')),
      sd_scopeKind = as_str (opt_prop me (js ''scope_kind'')),
      sd_permissions = as_strs (opt_prop me (js ''permissions'')),
      sd_tenantName = as_str (opt_prop me (js ''tenant_name''))\<rparr>"

definition landing_page :: "session_data \<Rightarrow> jsstr" where
  "landing_page s =
     (let permissions = (case sd_permissions s of None \<Rightarrow> [] | Some ps \<Rightarrow> ps);
          fallback = (if sd_role s = Some (js ''tenant-admin'') then js ''/api-keys'' else js ''/providers'')
      in if permissions \<noteq> [] then
           (if js ''provider.read'' \<in> set permissions \<or> js ''*'' \<in> set permissions then js ''/providers''
            else if js ''api_key.read'' \<in> set permissions then js ''/api-keys''
            else if js ''usage.read'' \<in> set permissions then js ''/usage''
            else fallback)
         else fallback)"

definition redirect_locale :: "jsstr \<Rightarrow> 'a act" where
  "redirect_locale href =
     bnd (asks (\<lambda>pf. pf_pathname pf (pf_locale pf) href)) (\<lambda>p. throw (NextRedirect p))"

text \<open>After the credentials were accepted: the identity lookup with the new token (outside any try
  block), the session and the redirect.\<close>

definition login_identity :: "jsstr \<Rightarrow> jsstr \<Rightarrow> form_result act" where
  "login_identity email token =
     bnd (asks (\<lambda>pf. case pf_ADMIN_URL pf of None \<Rightarrow> [] | Some u \<Rightarrow> u)) (\<lambda>baseUrl.
     bnd (call (createAdminClient baseUrl (Some token)) GET (js ''/api/v1/me'') [] [] None) (\<lambda>me.
     if truthy (fr_error me) \<or> \<not> truthy (fr_data me)
     then lift_res (rbind (mapped_message (coalesce (envelope (fr_error me) (js ''message''))
            (JStr (js ''identity lookup failed; try again'')))) (\<lambda>m. Inr (mapped_result m)))
     else let s = login_session token email (fr_data me) in
       bnd (setSession s) (\<lambda>_. redirect_locale (landing_page s))))"

definition loginAction :: "form \<Rightarrow> form_result act" where
  "loginAction formData =
     (let email = form_raw formData (js ''email''); password = form_raw formData (js ''password'') in
      if email = [] \<or> password = [] then ret (fail_mapped (js ''email and password are required''))
      else bnd anonAdminClient (\<lambda>client.
        bnd (try_catch
               (bnd (call client POST (js ''/auth/login'') [] []
                      (Some (JObj [(js ''email'', JStr email), (js ''password'', JStr password)])))
                  (\<lambda>result. ret (Some result)))
               (\<lambda>fetchErr. ret None))
          (\<lambda>outcome. case outcome of
             None \<Rightarrow> ret (FormErr (js ''invalid credentials'') None)
           | Some r \<Rightarrow>
               if refused r \<or> \<not> truthy (opt_prop (fr_data r) (js ''token''))
               then lift_res (rbind (mapped_message (login_message r)) (\<lambda>m. Inr (mapped_result m)))
               else login_identity email (val_String (opt_prop (fr_data r) (js ''token''))))))"


section \<open>The contract\<close>

text \<open>Every law speaks of one platform and one world, so an action keeps the contract as soon as at
  each point it runs like some action that does.\<close>

lemma pointwise_contract:
  assumes "\<And>pf w. \<exists>act. admin_write act ok ps \<and> m pf w = act pf w"
  shows "admin_write m ok ps"
proof unfold_locales
  fix pf w r w' assume run: "m pf w = (r, w')"
  from assms [of pf w] run obtain act where act: "admin_write act ok ps" "act pf w = (r, w')" by auto
  from act(1) have at: "atomic_action act ok ps" by (rule admin_write.axioms)
  from at have pa: "panel_action act ok ps" by (rule atomic_action.axioms)
  from panel_action.sends [OF pa act(2)] panel_action.cookie [OF pa act(2)] panel_action.marks [OF pa act(2)]
  show "\<exists>rs. w_sent w' = w_sent w @ rs \<and>
      (\<forall>q\<in>set rs. \<exists>c. client_of pf w = Some c \<and> from_client c q)"
    and "w_cookie w' = w_cookie w \<or> w_cookie w' = None"
    and "w_revalidated w' = w_revalidated w \<or> w_revalidated w' = w_revalidated w @ ps" by auto
  show "w_revalidated w' = w_revalidated w" if "\<And>x. r = Inr x \<Longrightarrow> \<not> ok x"
    using atomic_action.silent [OF at act(2) that] .
next
  fix pf w x w' assume run: "m pf w = (Inr x, w')" and ok: "ok x"
  from assms [of pf w] run obtain act where act: "admin_write act ok ps" "act pf w = (Inr x, w')" by auto
  from panel_action.marks_ok [OF atomic_action.axioms(1) [OF admin_write.axioms(1) [OF act(1)]] act(2) ok]
  show "w_revalidated w' = w_revalidated w @ ps" .
  show "all_accepted pf (w_sent w) rs" if "w_sent w' = w_sent w @ rs" for rs
    using admin_write.accepts [OF act ok that] .
qed

lemma tame_answers: "tame_handler h ok \<Longrightarrow> admin_write (h e) ok ps"
proof unfold_locales
  fix pf w r w' assume h: "tame_handler h ok" and run: "h e pf w = (r, w')"
  note tame_handlerD [OF h run]
  then show "\<exists>rs. w_sent w' = w_sent w @ rs \<and>
      (\<forall>q\<in>set rs. \<exists>c. client_of pf w = Some c \<and> from_client c q)"
    and "w_cookie w' = w_cookie w \<or> w_cookie w' = None"
    and "w_revalidated w' = w_revalidated w \<or> w_revalidated w' = w_revalidated w @ ps"
    and "w_revalidated w' = w_revalidated w" by auto
qed (metis tame_handlerD(4))+

lemma tame_throw: "tame_handler throw ok"
  by (simp add: tame_handler_def)

lemma tame_role_catch: "tame_handler role_catch is_ok" "tame_handler role_delete_catch is_ok"
  by (auto simp: tame_handler_def role_catch_def role_delete_catch_def bnd_apply)

lemma tame_after:
  assumes "tame_handler h ok" "\<And>x e. \<not> ok x \<Longrightarrow> \<exists>y. f e x = ret y \<and> \<not> ok' y"
  shows "tame_handler (\<lambda>e. bnd (h e) (f e)) ok'"
  unfolding tame_handler_def
proof (intro allI impI)
  fix e pf w r w' assume run: "bnd (h e) (f e) pf w = (r, w')"
  obtain r1 w1 where h: "h e pf w = (r1, w1)" by fastforce
  note laws = tame_handlerD [OF assms(1) h]
  show "w_sent w' = w_sent w \<and> w_revalidated w' = w_revalidated w \<and>
     (w_cookie w' = w_cookie w \<or> w_cookie w' = None) \<and> (\<forall>x. r = Inr x \<longrightarrow> \<not> ok' x)"
  proof (cases r1)
    case (Inl err)
    with run h laws show ?thesis by (auto simp: bnd_Inl)
  next
    case (Inr x)
    with laws(4) assms(2) obtain y where "f e x = ret y" "\<not> ok' y" by blast
    with run h Inr laws show ?thesis by (auto simp: bnd_Inr)
  qed
qed

lemma tame_formError: "tame_handler formError is_ok"
proof -
  have "tame_handler (\<lambda>e. bnd (toFormError e) (\<lambda>result.
     if result \<noteq> FormOk \<and> is_AdminError e then ret (fail_mapped (err_message e)) else ret result)) is_ok"
    by (rule tame_after [OF tame_toFormError]) auto
  then show ?thesis by (simp add: formError_def [abs_def])
qed

lemma tame_actionError: "tame_handler actionError is_ok"
proof -
  have "tame_handler (\<lambda>e. bnd (toFormError e) (\<lambda>result.
     case result of FormOk \<Rightarrow> ret FormOk | FormErr m k \<Rightarrow> ret (fail_mapped m))) is_ok"
    by (rule tame_after [OF tame_toFormError]) (auto simp: is_ok_def split: form_result.splits)
  then show ?thesis
    by (auto simp: tame_handler_def actionError_def t_budgets_def bnd_apply)
qed

lemma tame_onAuthExpired: "tame_handler onAuthExpired ok"
  by (auto simp: tame_handler_def onAuthExpired_def split: jserror.splits if_splits)

lemma try_write_attempt: "try_write paths body h = attempt body h (\<lambda>_. Inr (paths, FormOk))"
  by (intro ext) (auto simp: try_write_def attempt_def try_catch_apply bnd_apply split: prod.splits sum.splits)

lemma attempt_unwrap_run:
  assumes "client_of pf w = Some c"
  shows "attempt (\<lambda>c. send_unwrap c m path params query body) h fin pf w =
     (let w1 = w\<lparr>w_sent := w_sent w @ [mk_req c m path params query body]\<rparr>
      in case pf_fetch pf (w_sent w1) of
           FetchThrow e \<Rightarrow> h e pf w1
         | FetchResult r \<Rightarrow>
             (case unwrap r of
                Inl e \<Rightarrow> h e pf w1
              | Inr v \<Rightarrow> (case fin v of Inl x \<Rightarrow> (Inr x, w1)
                  | Inr (ps, x) \<Rightarrow> (Inr x, w1\<lparr>w_revalidated := w_revalidated w1 @ ps\<rparr>))))"
proof -
  have "serverAdminClient pf w = (Inr c, w)"
    using serverAdminClient_run [of pf w] assms by auto
  then show ?thesis
    by (auto simp: attempt_def bnd_apply send_unwrap_def call_run Let_def split: fetch_outcome.splits sum.splits)
qed

lemma try_write_contract [contract_intros]:
  "tame_handler h is_ok \<Longrightarrow>
   admin_write (try_write paths (\<lambda>client. send_unwrap client m path params query body) h) is_ok paths"
  unfolding try_write_attempt by (rule attempt_contract [OF quiet_send_unwrap]) auto

lemmas unwrap_intros = contract_intros is_ok_simps tame_role_catch tame_formError tame_actionError

interpretation createRole: admin_write "createRole f" is_ok "[(js ''/roles'', None)]" for f
  unfolding createRole_def Let_def by (intro unwrap_intros)

interpretation updateRole: admin_write "updateRole f" is_ok "[(js ''/roles'', None)]" for f
  unfolding updateRole_def Let_def by (intro unwrap_intros)

interpretation deleteRole: admin_write "deleteRole n" is_ok "[(js ''/roles'', None)]" for n
  unfolding deleteRole_def by (intro unwrap_intros)

interpretation updateAPIKey: admin_write "updateAPIKey f" is_ok "[(js ''/api-keys'', None)]" for f
  unfolding updateAPIKey_def by (intro unwrap_intros)

interpretation revokeAPIKey: admin_write "revokeAPIKey n" is_ok "[(js ''/api-keys'', None)]" for n
  unfolding revokeAPIKey_def by (intro unwrap_intros)


subsection \<open>Budgets\<close>

definition may_write :: "session_data \<Rightarrow> jsstr \<Rightarrow> bool" where
  "may_write s permission \<longleftrightarrow> sd_scopeKind s = Some (js ''global'') \<and> has s permission"

lemma writeGuard_run:
  "writeGuard tenant permission pf w =
     (case session_of pf w of
        None \<Rightarrow> (Inl (PlainError (js ''SESSION_SECRET must be set and at least 32 characters (see web/.env.example)'')), w)
      | Some s \<Rightarrow>
          (Inr (if \<not> may_write s permission
                then Some (FormErr (pf_translate pf (js ''budgets'') (js ''forbiddenWrite'')) None)
                else if js_trim tenant = []
                then Some (FormErr (pf_translate pf (js ''budgets'') (js ''selectTenant'')) None)
                else None), w))"
  by (auto simp: writeGuard_def may_write_def bnd_apply getSession_run t_budgets_def split: option.splits)

lemma budget_write_run:
  "budget_write tenant permission body request pf w =
     (case writeGuard tenant permission pf w of
        (Inl e, w') \<Rightarrow> (Inl e, w')
      | (Inr (Some r), w') \<Rightarrow> (Inr r, w')
      | (Inr None, w') \<Rightarrow>
          (case body of
             Inl e \<Rightarrow> actionError e pf w'
           | Inr b \<Rightarrow> attempt (\<lambda>c. request c b) actionError (\<lambda>_. Inr (budget_pages, FormOk)) pf w'))"
  by (auto simp: budget_write_def bnd_apply try_catch_apply attempt_def split: prod.splits sum.splits option.splits)

lemma budget_write_contract:
  "admin_write (budget_write tenant permission body (\<lambda>client b. send_unwrap client m path params query (g b)))
     is_ok budget_pages"
proof (rule pointwise_contract)
  fix pf w
  let ?act = "budget_write tenant permission body (\<lambda>client b. send_unwrap client m path params query (g b))"
  have att: "admin_write (attempt (\<lambda>c. send_unwrap c m path params query (g b)) actionError
      (\<lambda>_. Inr (budget_pages, FormOk))) is_ok budget_pages" for b
    by (rule attempt_contract [OF quiet_send_unwrap tame_actionError]) auto
  note err = tame_answers [OF tame_actionError] tame_answers [OF tame_throw]
  have "\<exists>act. admin_write act is_ok budget_pages \<and> ?act pf w = act pf w" if none: "session_of pf w = None"
  proof -
    obtain e where "?act pf w = throw e pf w"
      using none by (auto simp: budget_write_run writeGuard_run)
    then show ?thesis by (intro exI [of _ "throw e"] conjI err(2))
  qed
  moreover have "\<exists>act. admin_write act is_ok budget_pages \<and> ?act pf w = act pf w"
    if s: "session_of pf w = Some s" and d: "\<not> may_write s permission \<or> js_trim tenant = []" for s
  proof -
    have "\<exists>msg. ?act pf w = ret (FormErr msg None) pf w"
      using s d by (cases "may_write s permission") (auto simp: budget_write_run writeGuard_run)
    then obtain msg where "?act pf w = ret (FormErr msg None) pf w" ..
    then show ?thesis
      by (intro exI [of _ "ret (FormErr msg None)"] conjI answer_contract is_ok_simps)
  qed
  moreover have "\<exists>act. admin_write act is_ok budget_pages \<and> ?act pf w = act pf w"
    if s: "session_of pf w = Some s" "may_write s permission" "js_trim tenant \<noteq> []" for s
  proof (cases body)
    case (Inl e)
    with s have "?act pf w = actionError e pf w" by (simp add: budget_write_run writeGuard_run)
    then show ?thesis by (intro exI [of _ "actionError e"] conjI err(1))
  next
    case (Inr b)
    with s show ?thesis
      by (intro exI [of _ "attempt (\<lambda>c. send_unwrap c m path params query (g b)) actionError
            (\<lambda>_. Inr (budget_pages, FormOk))"] conjI att)
        (simp add: budget_write_run writeGuard_run)
  qed
  ultimately show "\<exists>act. admin_write act is_ok budget_pages \<and> ?act pf w = act pf w"
    by (cases "session_of pf w") blast+
qed

interpretation createBudget: admin_write "createBudget t f" is_ok budget_pages for t f
  unfolding createBudget_def by (rule budget_write_contract)

interpretation updateBudget: admin_write "updateBudget t i v f" is_ok budget_pages for t i v f
  unfolding updateBudget_def by (rule budget_write_contract)

interpretation resolveReservation: admin_write "resolveReservation t i v f" is_ok budget_pages for t i v f
  unfolding resolveReservation_def by (rule budget_write_contract)

subsection \<open>History and reads\<close>

lemma rollback_attempt:
  "rollbackAction v = attempt (\<lambda>client. send_unwrap client POST (js ''/api/v1/config/rollback'') [] []
      (Some (JObj [(js ''version'', JNum v)]))) onAuthExpired (\<lambda>_. Inr ([(js ''/config/history'', None)], ()))"
proof (intro ext)
  fix pf w
  have "\<exists>e' w''. onAuthExpired e pf w' = (Inl e', w'')" for e w'
    by (cases "onAuthExpired e pf w' :: unit res \<times> world"; cases "fst (onAuthExpired e pf w' :: unit res \<times> world)")
      (auto simp: onAuthExpired_def split: jserror.splits if_splits)
  then show "rollbackAction v pf w = attempt (\<lambda>client. send_unwrap client POST (js ''/api/v1/config/rollback'') [] []
      (Some (JObj [(js ''version'', JNum v)]))) onAuthExpired (\<lambda>_. Inr ([(js ''/config/history'', None)], ())) pf w"
    by (auto simp: rollbackAction_def attempt_def try_catch_apply bnd_apply onAuthExpired_def
        split: prod.splits sum.splits jserror.splits)
qed

interpretation rollbackAction: admin_write "rollbackAction v" "\<lambda>_. True" "[(js ''/config/history'', None)]" for v
  unfolding rollback_attempt
  by (rule attempt_contract [OF quiet_send_unwrap tame_onAuthExpired]) auto

lemma config_read_contract:
  "admin_write (config_read (\<lambda>client. send_unwrap client m path params query body)) (\<lambda>_. True) []"
  unfolding config_read_def try_attempt [where ok = "\<lambda>_. True"]
  by (rule attempt_contract [OF quiet_send_unwrap])
    (auto simp: tame_handler_def onAuthExpired_def bnd_apply split: jserror.splits if_splits)

interpretation diffAction: admin_write "diffAction a b" "\<lambda>_. True" "[]" for a b
  unfolding diffAction_def by (rule config_read_contract)

interpretation snapshotAction: admin_write "snapshotAction v" "\<lambda>_. True" "[]" for v
  unfolding snapshotAction_def by (rule config_read_contract)

interpretation previewAction: admin_write "previewAction b" "\<lambda>_. True" "[]" for b
  unfolding previewAction_def by (rule config_read_contract)


subsection \<open>Key creation and trace reads\<close>

text \<open>Computations that only read through the session's client, each obtaining it for itself.\<close>

definition reads :: "'a act \<Rightarrow> bool" where
  "reads m \<longleftrightarrow> (\<forall>pf w. \<exists>rs. snd (m pf w) = w\<lparr>w_sent := w_sent w @ rs\<rparr> \<and>
     (\<forall>q\<in>set rs. \<exists>c. client_of pf w = Some c \<and> from_client c q))"

lemma readsD:
  assumes "reads m" "m pf w = (r, w')"
  obtains rs where "w' = w\<lparr>w_sent := w_sent w @ rs\<rparr>" "\<forall>q\<in>set rs. \<exists>c. client_of pf w = Some c \<and> from_client c q"
  using assms unfolding reads_def by (metis snd_conv)

lemma client_of_sent [simp]: "client_of pf (w\<lparr>w_sent := rs\<rparr>) = client_of pf w"
  by (simp add: client_of_def session_of_def split: option.split)

lemma reads_unchanged: "(\<And>pf w. snd (m pf w) = w) \<Longrightarrow> reads m"
  unfolding reads_def by (intro allI exI [of _ "[]"]) simp

lemma reads_seq:
  assumes "reads m" "reads n"
  shows "\<exists>rs. snd (n pf (snd (m pf w))) = w\<lparr>w_sent := w_sent w @ rs\<rparr> \<and>
     (\<forall>q\<in>set rs. \<exists>c. client_of pf w = Some c \<and> from_client c q)"
proof -
  obtain r1 w1 where m: "m pf w = (r1, w1)" by fastforce
  obtain r2 w2 where n: "n pf w1 = (r2, w2)" by fastforce
  from readsD [OF assms(1) m] obtain rs where rs: "w1 = w\<lparr>w_sent := w_sent w @ rs\<rparr>"
    "\<forall>q\<in>set rs. \<exists>c. client_of pf w = Some c \<and> from_client c q" by metis
  from readsD [OF assms(2) n] obtain rs2 where rs2: "w2 = w1\<lparr>w_sent := w_sent w1 @ rs2\<rparr>"
    "\<forall>q\<in>set rs2. \<exists>c. client_of pf w1 = Some c \<and> from_client c q" by metis
  from m n rs rs2 show ?thesis by (intro exI [of _ "rs @ rs2"]) auto
qed

lemma reads_fetchDetailByRow: "reads (fetchDetailByRow rowID)"
proof -
  let ?body = "\<lambda>client. bnd (send_unwrap client GET (js ''/api/v1/trace/rows/{id}'') [(js ''id'', JNum rowID)] [] None)
      (\<lambda>res. ret (Some (coalesce res JNull)))"
  have q: "quiet c (\<lambda>_. False) (?body c)" for c
    by (rule quiet_bnd [OF quiet_send_unwrap quiet_ret]) simp
  have "\<exists>rs. snd (fetchDetailByRow rowID pf w) = w\<lparr>w_sent := w_sent w @ rs\<rparr> \<and>
     (\<forall>q\<in>set rs. \<exists>c. client_of pf w = Some c \<and> from_client c q)" for pf w
  proof (cases "\<not> num_truthy rowID \<or> num_le rowID (Fin 0)")
    case True
    then show ?thesis by (intro exI [of _ "[]"]) (simp add: fetchDetailByRow_def)
  next
    case False
    obtain r w1 where b: "bnd serverAdminClient ?body pf w = (r, w1)" by fastforce
    have "snd (fetchDetailByRow rowID pf w) = w1"
      using b False by (auto simp: fetchDetailByRow_def try_catch_apply split: sum.splits jserror.splits)
    with client_body_run [OF b q] show ?thesis by metis
  qed
  then show ?thesis by (simp add: reads_def)
qed

lemma reads_fetchDetailPair: "reads (fetchDetailPair o' a b)"
proof -
  let ?n = "if num_lt (Fin 0) b then fetchDetailByRow b else ret (Some JNull)"
  have "reads ?n" by (simp add: reads_fetchDetailByRow reads_unchanged)
  from reads_seq [OF reads_fetchDetailByRow this] show ?thesis
    unfolding reads_def fetchDetailPair_def promise_all2_def Let_def
    by (simp add: case_prod_unfold)
qed

definition pair_ok :: "pair_result \<Rightarrow> bool" where
  "pair_ok r = (case r of PairOk c p \<Rightarrow> True | PairFail b \<Rightarrow> False)"

lemma fetchTraceDetailPair_run:
  assumes "fetchTraceDetailPair o' a b pf w = (r, w')"
  obtains rs where "w_sent w' = w_sent w @ rs" "\<forall>q\<in>set rs. \<exists>c. client_of pf w = Some c \<and> from_client c q"
    "w_revalidated w' = w_revalidated w" "w_cookie w' = w_cookie w \<or> w_cookie w' = None"
proof -
  obtain r1 w1 where m: "fetchDetailPair o' a b pf w = (r1, w1)" by fastforce
  from readsD [OF reads_fetchDetailPair m] obtain rs where rs: "w1 = w\<lparr>w_sent := w_sent w @ rs\<rparr>"
    "\<forall>q\<in>set rs. \<exists>c. client_of pf w = Some c \<and> from_client c q" by metis
  show thesis
  proof (cases r1)
    case (Inl e)
    obtain r2 w2 where h: "toFormError e pf w1 = (r2, w2)" by fastforce
    with assms m Inl have "w' = w2"
      by (auto simp: fetchTraceDetailPair_def try_catch_apply bnd_apply split: sum.splits)
    with toFormError_frame [OF h] rs show thesis by (intro that [of rs]) auto
  next
    case (Inr x)
    with assms m rs show thesis
      by (intro that [of rs]) (auto simp: fetchTraceDetailPair_def try_catch_apply bnd_apply split: prod.splits)
  qed
qed

interpretation fetchTraceDetailPair: atomic_action "fetchTraceDetailPair o' a b" pair_ok "[]" for o' a b
  by unfold_locales (erule fetchTraceDetailPair_run, auto)+

definition key_ok :: "key_result \<Rightarrow> bool" where
  "key_ok r \<longleftrightarrow> is_ok (fst r)"

text \<open>A creation is the checked request followed by reading the key, which may still fail.\<close>

lemma createAPIKey_run:
  assumes "client_of pf w = Some c"
  shows "createAPIKey f pf w =
     (let w1 = w\<lparr>w_sent := w_sent w @ [mk_req c POST (js ''/api/v1/api-keys'') [] [] (Some (JObj (api_key_body f)))]\<rparr>;
          w2 = w1\<lparr>w_revalidated := w_revalidated w @ [(js ''/api-keys'', None)]\<rparr>;
          handle = (\<lambda>e w. bnd (formError e) (\<lambda>r. ret (r, None)) pf w)
      in case pf_fetch pf (w_sent w1) of
           FetchThrow e \<Rightarrow> handle e w1
         | FetchResult r \<Rightarrow>
             (case unwrap r of
                Inl e \<Rightarrow> handle e w1
              | Inr data \<Rightarrow>
                  (case get_prop data (js ''api_key'') of
                     Inl e \<Rightarrow> handle e w2
                   | Inr key \<Rightarrow> (Inr (FormOk, key), w2))))"
proof -
  have "serverAdminClient pf w = (Inr c, w)"
    using serverAdminClient_run [of pf w] assms by auto
  then show ?thesis
    by (auto simp: createAPIKey_def try_catch_apply bnd_apply send_unwrap_def call_run Let_def
        split: fetch_outcome.splits sum.splits)
qed

lemma formError_pair_frame:
  assumes "bnd (formError e) (\<lambda>r. ret (r, None :: jsval)) pf w = (r, w')"
  shows "w_sent w' = w_sent w" "w_revalidated w' = w_revalidated w"
    "w_cookie w' = w_cookie w \<or> w_cookie w' = None" "r = Inr x \<Longrightarrow> \<not> key_ok x"
proof -
  have "tame_handler (\<lambda>e. bnd (formError e) (\<lambda>r. ret (r, None :: jsval))) key_ok"
    by (rule tame_after [OF tame_formError]) (auto simp: key_ok_def intro: exI [of _ "(_, _)"])
  from tame_handlerD [OF this assms] show "w_sent w' = w_sent w" "w_revalidated w' = w_revalidated w"
    "w_cookie w' = w_cookie w \<or> w_cookie w' = None" "r = Inr x \<Longrightarrow> \<not> key_ok x" by auto
qed

lemma createAPIKey_no_client:
  assumes "client_of pf w = None"
  shows "createAPIKey f pf w = (Inr (FormErr (js ''unexpected error'') None, None), w)"
proof -
  obtain m where "serverAdminClient pf w = (Inl (PlainError m), w)"
    using serverAdminClient_run [of pf w] assms by auto
  then show ?thesis
    by (simp add: createAPIKey_def try_catch_apply bnd_apply formError_def)
qed

lemma createAPIKey_frame:
  assumes "createAPIKey f pf w = (r, w')"
  shows "(\<exists>rs. w_sent w' = w_sent w @ rs \<and>
        (\<forall>q\<in>set rs. \<exists>c. client_of pf w = Some c \<and> from_client c q)) \<and>
      (w_cookie w' = w_cookie w \<or> w_cookie w' = None) \<and>
      (w_revalidated w' = w_revalidated w \<or> w_revalidated w' = w_revalidated w @ [(js ''/api-keys'', None)]) \<and>
      (\<forall>x. r = Inr x \<longrightarrow> key_ok x \<longrightarrow> w_revalidated w' = w_revalidated w @ [(js ''/api-keys'', None)])"
proof (cases "client_of pf w")
  case None
  with assms show ?thesis by (auto simp: createAPIKey_no_client key_ok_def)
next
  case (Some c)
  let ?q = "mk_req c POST (js ''/api/v1/api-keys'') [] [] (Some (JObj (api_key_body f)))"
  have q: "from_client c ?q" by (simp add: from_client_def mk_req_def)
  have err: "?thesis"
    if "bnd (formError e) (\<lambda>r. ret (r, None)) pf w1 = (r, w')" "w_sent w1 = w_sent w @ [?q]" "w_cookie w1 = w_cookie w"
      "w_revalidated w1 = w_revalidated w \<or> w_revalidated w1 = w_revalidated w @ [(js ''/api-keys'', None)]" for e w1
    using formError_pair_frame [OF that(1)] that(2-) q Some by auto
  from assms Some q err show ?thesis
    by (auto simp: createAPIKey_run Let_def split: fetch_outcome.splits sum.splits)
qed

interpretation createAPIKey: panel_action "createAPIKey f" key_ok "[(js ''/api-keys'', None)]" for f
  using createAPIKey_frame [of f] by unfold_locales metis+


subsection \<open>What is sent\<close>

text \<open>The requests an action added to the history.\<close>

definition new_sent :: "world \<Rightarrow> world \<Rightarrow> areq set" where
  "new_sent w w' = set (drop (length (w_sent w)) (w_sent w'))"

lemma new_sent_simps [simp]:
  "w_sent w' = w_sent w \<Longrightarrow> new_sent w w' = {}"
  "w_sent w' = w_sent w @ rs \<Longrightarrow> new_sent w w' = set rs"
  by (simp_all add: new_sent_def)

lemma attempt_unwrap_sent:
  assumes "attempt (\<lambda>c. send_unwrap c m path params query body) h fin pf w = (r, w')" "tame_handler h ok"
  shows "w_sent w' = w_sent w \<or>
    (\<exists>c. client_of pf w = Some c \<and> w_sent w' = w_sent w @ [mk_req c m path params query body])"
proof (cases "client_of pf w")
  case None
  then obtain e where "serverAdminClient pf w = (Inl e, w)" using serverAdminClient_run [of pf w] by auto
  with assms(1) have "h e pf w = (r, w')" by (simp add: attempt_def bnd_apply)
  with tame_handlerD(1) [OF assms(2)] show ?thesis by blast
next
  case (Some c)
  have "w_sent w' = w_sent w @ [mk_req c m path params query body]"
    using assms(1) tame_handlerD(1) [OF assms(2)]
    by (fastforce simp: attempt_unwrap_run [OF Some] Let_def split: fetch_outcome.splits sum.splits prod.splits)
  with Some show ?thesis by blast
qed

lemma budget_write_attempts:
  assumes "budget_write t p body (\<lambda>client b. send_unwrap client m path params query (g b)) pf w = (r, w')"
    "w_sent w' \<noteq> w_sent w"
  obtains b where "body = Inr b"
    "attempt (\<lambda>c. send_unwrap c m path params query (g b)) actionError (\<lambda>_. Inr (budget_pages, FormOk)) pf w = (r, w')"
proof -
  have "actionError e pf w \<noteq> (r, w')" for e
    using tame_handlerD(1) [OF tame_actionError, of e pf w r w'] assms(2) by blast
  with assms that show thesis
    by (auto simp: budget_write_run writeGuard_run split: option.splits sum.splits if_splits)
qed

lemma budget_write_requests:
  assumes "q \<in> new_sent w (snd (budget_write t p body (\<lambda>client b. send_unwrap client m path params query (g b)) pf w))"
  obtains c b where "client_of pf w = Some c" "body = Inr b" "q = mk_req c m path params query (g b)"
proof -
  obtain r w' where run: "budget_write t p body (\<lambda>client b. send_unwrap client m path params query (g b)) pf w = (r, w')"
    by fastforce
  with assms have "w_sent w' \<noteq> w_sent w" by auto
  with budget_write_attempts [OF run] obtain b where b: "body = Inr b"
    "attempt (\<lambda>c. send_unwrap c m path params query (g b)) actionError (\<lambda>_. Inr (budget_pages, FormOk)) pf w = (r, w')"
    by blast
  from attempt_unwrap_sent [OF b(2) tame_actionError] assms b(1) run that show thesis by auto
qed

lemma budget_write_invalid:
  assumes "session_of pf w = Some s" "may_write s p" "\<not> list_all js_ws t" "body = Inl e" "is_RangeError e"
  shows "budget_write t p body request pf w =
    (Inr (FormErr (pf_translate pf (js ''budgets'') (js ''invalidAmount'')) None), w)"
  using assms by (simp add: budget_write_run writeGuard_run js_trim_eq_Nil actionError_def t_budgets_def bnd_apply)

subsection \<open>Expired sessions\<close>

lemma client_session: "client_of pf w = Some c \<Longrightarrow> \<exists>s. session_of pf w = Some s"
  by (auto simp: client_of_def split: option.splits if_splits)

text \<open>The answer to the last request of a history as \<^verbatim>\<open>unwrap\<close> sees it, and histories whose new requests were
  all answered with the status of an expired session.\<close>

definition answer :: "platform \<Rightarrow> areq list \<Rightarrow> jsval res" where
  "answer pf h = (case pf_fetch pf h of FetchThrow e \<Rightarrow> Inl e | FetchResult r \<Rightarrow> unwrap r)"

definition all_expired :: "platform \<Rightarrow> areq list \<Rightarrow> areq list \<Rightarrow> bool" where
  "all_expired pf h rs \<longleftrightarrow>
     (\<forall>n<length rs. \<exists>r. pf_fetch pf (h @ take (Suc n) rs) = FetchResult r \<and> fr_status r = 401)"

lemma expired_answer:
  assumes "pf_fetch pf h = FetchResult r" "fr_status r = 401"
  obtains ty m where "answer pf h = Inl (AdminError 401 ty m)"
  using assms by (auto simp: answer_def unwrap_def response_ok_def new_AdminError_def)

lemma send_unwrap_answer:
  "send_unwrap c m path params query body pf w =
     (answer pf (w_sent w @ [mk_req c m path params query body]),
      w\<lparr>w_sent := w_sent w @ [mk_req c m path params query body]\<rparr>)"
  by (simp add: send_unwrap_def bnd_apply call_run Let_def answer_def split: fetch_outcome.splits)

lemma client_send_run:
  "client_of pf w = Some c \<Longrightarrow> bnd serverAdminClient (\<lambda>c. send_unwrap c m path params query body) pf w =
     (answer pf (w_sent w @ [mk_req c m path params query body]),
      w\<lparr>w_sent := w_sent w @ [mk_req c m path params query body]\<rparr>)"
  using serverAdminClient_run [of pf w] by (auto simp: bnd_apply send_unwrap_answer)

lemma attempt_expired:
  assumes run: "attempt (\<lambda>c. send_unwrap c m path params query body) h fin pf w = (r, w')"
    and h: "tame_handler h ok" and rs: "w_sent w' = w_sent w @ rs" "rs \<noteq> []" "all_expired pf (w_sent w) rs"
  obtains s ty msg w1 where "session_of pf w1 = Some s" "w_cookie w1 = w_cookie w" "w_revalidated w1 = w_revalidated w"
    "h (AdminError 401 ty msg) pf w1 = (r, w')"
proof -
  from attempt_unwrap_sent [OF run h] rs(1,2) obtain c where c: "client_of pf w = Some c"
    and q: "rs = [mk_req c m path params query body]" by auto
  let ?w1 = "w\<lparr>w_sent := w_sent w @ rs\<rparr>"
  from rs(3) q obtain a where "pf_fetch pf (w_sent w @ rs) = FetchResult a" "fr_status a = 401"
    by (auto simp: all_expired_def)
  then obtain ty msg where a: "answer pf (w_sent w @ rs) = Inl (AdminError 401 ty msg)" by (rule expired_answer)
  then have "h (AdminError 401 ty msg) pf ?w1 = (r, w')"
    using run by (simp add: attempt_def client_send_run [OF c] q)
  moreover obtain s where "session_of pf ?w1 = Some s"
    using client_session [OF c] by (auto simp: session_of_def)
  ultimately show thesis by (intro that) simp_all
qed

lemma formError_401:
  "session_of pf w = Some s \<Longrightarrow>
   formError (AdminError 401 ty m) pf w = (Inl (NextRedirect (js ''/login'')), w\<lparr>w_cookie := None\<rparr>)"
  by (simp add: formError_def bnd_apply toFormError_401)

lemma actionError_401:
  "session_of pf w = Some s \<Longrightarrow>
   actionError (AdminError 401 ty m) pf w = (Inl (NextRedirect (js ''/login'')), w\<lparr>w_cookie := None\<rparr>)"
  by (simp add: actionError_def bnd_apply toFormError_401)

text \<open>An action leaves for the login page with the cookie destroyed when all its requests are answered so.\<close>

definition expires_to_login :: "'a act \<Rightarrow> bool" where
  "expires_to_login m \<longleftrightarrow> (\<forall>pf w r w' rs. m pf w = (r, w') \<and> w_sent w' = w_sent w @ rs \<and> rs \<noteq> [] \<and>
     all_expired pf (w_sent w) rs \<longrightarrow>
     r = Inl (NextRedirect (js ''/login'')) \<and> w_cookie w' = None \<and> w_revalidated w' = w_revalidated w)"

lemma expires_to_loginI:
  assumes "\<And>pf w r w' rs. m pf w = (r, w') \<Longrightarrow> w_sent w' = w_sent w @ rs \<Longrightarrow> rs \<noteq> [] \<Longrightarrow>
     all_expired pf (w_sent w) rs \<Longrightarrow>
     r = Inl (NextRedirect (js ''/login'')) \<and> w_cookie w' = None \<and> w_revalidated w' = w_revalidated w"
  shows "expires_to_login m"
  using assms unfolding expires_to_login_def by blast

lemma attempt_to_login:
  assumes "tame_handler h ok" "\<And>pf w s ty m. session_of pf w = Some s \<Longrightarrow>
     h (AdminError 401 ty m) pf w = (Inl (NextRedirect (js ''/login'')), w\<lparr>w_cookie := None\<rparr>)"
  shows "expires_to_login (attempt (\<lambda>c. send_unwrap c m path params query body) h fin)"
  by (rule expires_to_loginI, erule attempt_expired [OF _ assms(1)]) (use assms(2) in auto)

lemma budget_write_to_login:
  "expires_to_login (budget_write t p body (\<lambda>client b. send_unwrap client m path params query (g b)))"
  (is "expires_to_login ?act")
proof (rule expires_to_loginI)
  fix pf w r w' rs
  assume run: "?act pf w = (r, w')" and rs: "w_sent w' = w_sent w @ rs" "rs \<noteq> []" "all_expired pf (w_sent w) rs"
  from rs(1,2) have "w_sent w' \<noteq> w_sent w" by simp
  with budget_write_attempts [OF run] obtain b where
    att: "attempt (\<lambda>c. send_unwrap c m path params query (g b)) actionError (\<lambda>_. Inr (budget_pages, FormOk)) pf w = (r, w')"
    by blast
  have "expires_to_login (attempt (\<lambda>c. send_unwrap c m path params query (g b)) actionError (\<lambda>_. Inr (budget_pages, FormOk)))"
    by (rule attempt_to_login [OF tame_actionError actionError_401])
  with att rs show "r = Inl (NextRedirect (js ''/login'')) \<and> w_cookie w' = None \<and> w_revalidated w' = w_revalidated w"
    unfolding expires_to_login_def by blast
qed

lemma key_actions_to_login: "expires_to_login (updateAPIKey f)" "expires_to_login (revokeAPIKey k)"
  unfolding updateAPIKey_def revokeAPIKey_def try_write_attempt
  by (rule attempt_to_login [OF tame_formError formError_401], assumption)+

lemma budget_actions_to_login:
  "expires_to_login (createBudget t f)" "expires_to_login (updateBudget t i v f)"
  "expires_to_login (resolveReservation t k v f)"
  unfolding createBudget_def updateBudget_def resolveReservation_def by (rule budget_write_to_login)+

lemma createAPIKey_to_login: "expires_to_login (createAPIKey f)"
proof (rule expires_to_loginI)
  fix pf w r w' rs
  assume run: "createAPIKey f pf w = (r, w')" and rs: "w_sent w' = w_sent w @ rs" "rs \<noteq> []" "all_expired pf (w_sent w) rs"
  obtain c where c: "client_of pf w = Some c"
    using run rs(1,2) by (cases "client_of pf w") (auto simp: createAPIKey_no_client)
  let ?q = "mk_req c POST (js ''/api/v1/api-keys'') [] [] (Some (JObj (api_key_body f)))"
  let ?w1 = "w\<lparr>w_sent := w_sent w @ [?q]\<rparr>"
  obtain q' rs' where q': "rs = q' # rs'" using rs(2) by (cases rs) auto
  have "w_sent w' = w_sent w @ [?q]"
    using run by (auto simp: createAPIKey_run [OF c] Let_def dest: formError_pair_frame split: fetch_outcome.splits sum.splits)
  with rs(1) have "rs = [?q]" by simp
  with rs(3) obtain a where a: "pf_fetch pf (w_sent w @ [?q]) = FetchResult a" "fr_status a = 401"
    by (auto simp: all_expired_def)
  then obtain ty m where "unwrap a = Inl (AdminError 401 ty m)"
    by (auto simp: unwrap_def response_ok_def new_AdminError_def)
  moreover obtain s where "session_of pf ?w1 = Some s"
    using client_session [OF c] by (auto simp: session_of_def)
  ultimately show "r = Inl (NextRedirect (js ''/login'')) \<and> w_cookie w' = None \<and> w_revalidated w' = w_revalidated w"
    using run a by (auto simp: createAPIKey_run [OF c] Let_def bnd_apply formError_401)
qed

text \<open>One lookup of a trace row: what its answer becomes.\<close>

definition row_result :: "jsval res \<Rightarrow> jsval res" where
  "row_result a =
     (case a of
        Inr v \<Rightarrow> Inr (Some (coalesce v JNull))
      | Inl (AdminError st ty m) \<Rightarrow> if st = 404 then Inr (Some JNull) else Inl (AdminError st ty m)
      | Inl e \<Rightarrow> Inl e)"

definition row_lookup :: "jsval act \<Rightarrow> bool" where
  "row_lookup m \<longleftrightarrow> (\<forall>pf w. m pf w = (Inr (Some JNull), w) \<or>
     (client_of pf w = None \<and> snd (m pf w) = w) \<or>
     (\<exists>c q. client_of pf w = Some c \<and>
        m pf w = (row_result (answer pf (w_sent w @ [q])), w\<lparr>w_sent := w_sent w @ [q]\<rparr>)))"

lemma row_lookup_row: "row_lookup (fetchDetailByRow n)"
  unfolding row_lookup_def
proof (intro allI)
  fix pf w
  obtain m where c: "serverAdminClient pf w =
      (case client_of pf w of Some c \<Rightarrow> (Inr c, w) | None \<Rightarrow> (Inl (PlainError m), w))"
    using serverAdminClient_run [of pf w] by blast
  show "fetchDetailByRow n pf w = (Inr (Some JNull), w) \<or>
     (client_of pf w = None \<and> snd (fetchDetailByRow n pf w) = w) \<or>
     (\<exists>c q. client_of pf w = Some c \<and>
        fetchDetailByRow n pf w = (row_result (answer pf (w_sent w @ [q])), w\<lparr>w_sent := w_sent w @ [q]\<rparr>))"
  proof (cases "client_of pf w")
    case None
    with c show ?thesis by (simp add: fetchDetailByRow_def try_catch_apply bnd_apply)
  next
    case (Some a)
    let ?q = "mk_req a GET (js ''/api/v1/trace/rows/{id}'') [(js ''id'', JNum n)] [] None"
    have "fetchDetailByRow n pf w = (Inr (Some JNull), w) \<or>
       fetchDetailByRow n pf w = (row_result (answer pf (w_sent w @ [?q])), w\<lparr>w_sent := w_sent w @ [?q]\<rparr>)"
      using c Some
      by (auto simp: fetchDetailByRow_def try_catch_apply bnd_apply send_unwrap_answer row_result_def
          split: sum.splits jserror.splits)
    with Some show ?thesis by blast
  qed
qed

lemma row_lookup_none: "row_lookup (ret (Some JNull))"
  by (simp add: row_lookup_def)

lemma pair_lookups:
  obtains m n where "row_lookup m" "row_lookup n" "fetchDetailPair o' a b = promise_all2 o' m n"
  using row_lookup_row row_lookup_none unfolding fetchDetailPair_def by (metis (full_types))

lemma row_lookupE:
  assumes "row_lookup m" "m pf w = (r, w')"
  obtains (skip) "r = Inr (Some JNull)" "w' = w"
    | (closed) "client_of pf w = None" "w' = w"
    | (asked) c q where "client_of pf w = Some c" "r = row_result (answer pf (w_sent w @ [q]))"
        "w' = w\<lparr>w_sent := w_sent w @ [q]\<rparr>"
  using assms unfolding row_lookup_def by (metis Pair_inject snd_conv)

lemma fetchDetailPair_run:
  assumes "fetchDetailPair o' a b pf w = (r, w')"
  obtains r1 w1 r2 m n where "row_lookup m" "row_lookup n" "m pf w = (r1, w1)" "n pf w1 = (r2, w')"
    "r = (case (r1, r2) of (Inr a, Inr b) \<Rightarrow> Inr (a, b) | (Inl e, Inr b) \<Rightarrow> Inl e | (Inr a, Inl e) \<Rightarrow> Inl e
         | (Inl e, Inl e') \<Rightarrow> Inl (if o' then e else e'))"
proof -
  obtain m n where mn: "row_lookup m" "row_lookup n" "fetchDetailPair o' a b = promise_all2 o' m n"
    by (rule pair_lookups)
  with assms that [OF mn(1,2)] show thesis
    by (auto simp: promise_all2_def split: prod.splits)
qed

lemma row_result_401: "row_result (Inl (AdminError 401 ty m)) = Inl (AdminError 401 ty m)"
  by (simp add: row_result_def)

lemma all_expired_Nil [simp]: "all_expired pf h []"
  by (simp add: all_expired_def)

lemma all_expired_Cons:
  "all_expired pf h (q # rs) \<longleftrightarrow>
     (\<exists>r. pf_fetch pf (h @ [q]) = FetchResult r \<and> fr_status r = 401) \<and> all_expired pf (h @ [q]) rs"
  by (simp add: all_expired_def All_less_Suc2)

lemma row_lookup_expired:
  assumes "row_lookup m" "m pf w = (r, w')" "w_sent w' = w_sent w @ rs" "all_expired pf (w_sent w) rs"
    "client_of pf w \<noteq> None"
  shows "w' = w\<lparr>w_sent := w_sent w @ rs\<rparr> \<and>
    (if rs = [] then r = Inr (Some JNull) else \<exists>ty m. r = Inl (AdminError 401 ty m))"
  using assms(1,2)
proof (cases rule: row_lookupE)
  case (asked c q)
  with assms(3,4) have "rs = [q]" and "\<exists>a. pf_fetch pf (w_sent w @ [q]) = FetchResult a \<and> fr_status a = 401"
    by (auto simp: all_expired_Cons)
  with asked show ?thesis by (auto elim!: expired_answer simp: row_result_401)
qed (use assms(3,5) in auto)

lemma all_expired_append:
  "all_expired pf h (rs @ rs') \<longleftrightarrow> all_expired pf h rs \<and> all_expired pf (h @ rs) rs'"
  by (induction rs arbitrary: h) (simp_all add: all_expired_Cons)

lemma row_lookup_sent: "row_lookup m \<Longrightarrow> m pf w = (r, w') \<Longrightarrow> \<exists>rs. w_sent w' = w_sent w @ rs"
  by (erule (1) row_lookupE) auto

lemma trace_pair_to_login: "expires_to_login (fetchTraceDetailPair o' a b)"
proof (rule expires_to_loginI)
  fix pf w r w' rs
  assume run: "fetchTraceDetailPair o' a b pf w = (r, w')"
    and rs: "w_sent w' = w_sent w @ rs" "rs \<noteq> []" "all_expired pf (w_sent w) rs"
  obtain rp wp where p: "fetchDetailPair o' a b pf w = (rp, wp)" by fastforce
  then obtain r1 w1 r2 m n where mn: "row_lookup m" "row_lookup n" "m pf w = (r1, w1)" "n pf w1 = (r2, wp)"
    and rp: "rp = (case (r1, r2) of (Inr a, Inr b) \<Rightarrow> Inr (a, b) | (Inl e, Inr b) \<Rightarrow> Inl e | (Inr a, Inl e) \<Rightarrow> Inl e
         | (Inl e, Inl e') \<Rightarrow> Inl (if o' then e else e'))"
    by (rule fetchDetailPair_run)
  obtain rs1 rs2 where s: "w_sent w1 = w_sent w @ rs1" "w_sent wp = w_sent w1 @ rs2"
    using row_lookup_sent mn by blast
  have sent: "w_sent w' = w_sent wp"
    using run p toFormError_frame(1)
    by (fastforce simp: fetchTraceDetailPair_def try_catch_apply bnd_apply split: sum.splits prod.splits)
  with s rs(1) have split: "rs = rs1 @ rs2" by simp
  have "client_of pf w \<noteq> None"
    using panel_action.no_client_sends_nothing [OF fetchTraceDetailPair.panel_action_axioms run] rs(1,2) by auto
  from row_lookup_expired [OF mn(1,3) s(1) _ this] rs(3) split
  have one: "w1 = w\<lparr>w_sent := w_sent w @ rs1\<rparr>" "if rs1 = [] then r1 = Inr (Some JNull) else \<exists>ty m. r1 = Inl (AdminError 401 ty m)"
    by (auto simp: all_expired_append)
  with \<open>client_of pf w \<noteq> None\<close> row_lookup_expired [OF mn(2,4) s(2)] rs(3) split
  have two: "wp = w\<lparr>w_sent := w_sent w @ rs\<rparr>" "if rs2 = [] then r2 = Inr (Some JNull) else \<exists>ty m. r2 = Inl (AdminError 401 ty m)"
    by (auto simp: all_expired_append)
  from one(2) two(2) split rs(2) rp obtain ty m where e: "rp = Inl (AdminError 401 ty m)"
    by (cases "rs1 = []"; cases "rs2 = []"; cases o') auto
  obtain s where "session_of pf wp = Some s"
    using \<open>client_of pf w \<noteq> None\<close> client_session two(1) by (fastforce simp: session_of_def)
  from toFormError_401 [OF this] two(1) p e run
  show "r = Inl (NextRedirect (js ''/login'')) \<and> w_cookie w' = None \<and> w_revalidated w' = w_revalidated w"
    by (auto simp: fetchTraceDetailPair_def try_catch_apply bnd_apply)
qed

text \<open>A lookup that reports a value was answered, or the row is unknown to the server.\<close>

lemma pair_answered:
  assumes "fetchTraceDetailPair o' a b pf w = (Inr x, w')" "pair_ok x" "w_sent w' = w_sent w @ rs" "n < length rs"
  shows "\<exists>v. row_result (answer pf (w_sent w @ take (Suc n) rs)) = Inr v"
proof -
  obtain rp wp where p: "fetchDetailPair o' a b pf w = (rp, wp)" by fastforce
  then obtain r1 w1 r2 m k where mn: "row_lookup m" "row_lookup k" "m pf w = (r1, w1)" "k pf w1 = (r2, wp)"
    and rp: "rp = (case (r1, r2) of (Inr a, Inr b) \<Rightarrow> Inr (a, b) | (Inl e, Inr b) \<Rightarrow> Inl e | (Inr a, Inl e) \<Rightarrow> Inl e
         | (Inl e, Inl e') \<Rightarrow> Inl (if o' then e else e'))"
    by (rule fetchDetailPair_run)
  from assms(1,2) p have "\<exists>y. rp = Inr y" "w' = wp"
    by (auto simp: fetchTraceDetailPair_def try_catch_apply bnd_apply pair_ok_def split: sum.splits prod.splits)
  with rp obtain u v where uv: "r1 = Inr u" "r2 = Inr v" by (auto split: sum.splits)
  have one: "w_sent w1 = w_sent w \<or> (\<exists>q. w_sent w1 = w_sent w @ [q] \<and> row_result (answer pf (w_sent w @ [q])) = Inr u)"
    using mn(1,3) uv(1) by (cases rule: row_lookupE) auto
  have two: "w_sent wp = w_sent w1 \<or> (\<exists>q. w_sent wp = w_sent w1 @ [q] \<and> row_result (answer pf (w_sent w1 @ [q])) = Inr v)"
    using mn(2,4) uv(2) by (cases rule: row_lookupE) auto
  from one two assms(3,4) \<open>w' = wp\<close> show ?thesis
    by (auto simp: less_Suc_eq nth_append)
qed

text \<open>Reading the configuration history leaves for the logout route.\<close>

definition expires_to_logout :: "'a act \<Rightarrow> bool" where
  "expires_to_logout m \<longleftrightarrow> (\<forall>pf w r w' rs. m pf w = (r, w') \<and> w_sent w' = w_sent w @ rs \<and> rs \<noteq> [] \<and>
     all_expired pf (w_sent w) rs \<longrightarrow>
     r = Inl (NextRedirect (js ''/logout'')) \<and> w_revalidated w' = w_revalidated w \<and>
     logout_GET pf w' = (Inr (js ''/login''), w'\<lparr>w_cookie := None\<rparr>))"

lemma attempt_to_logout:
  assumes "tame_handler h ok" "\<And>pf w ty m. h (AdminError 401 ty m) pf w = (Inl (NextRedirect (js ''/logout'')), w)"
  shows "expires_to_logout (attempt (\<lambda>c. send_unwrap c m path params query body) h fin)"
  unfolding expires_to_logout_def
proof (intro allI impI, elim conjE)
  fix pf w r w' rs
  assume run: "attempt (\<lambda>c. send_unwrap c m path params query body) h fin pf w = (r, w')"
    and rs: "w_sent w' = w_sent w @ rs" "rs \<noteq> []" "all_expired pf (w_sent w) rs"
  from attempt_expired [OF run assms(1) rs] obtain s ty msg w1 where
    "session_of pf w1 = Some s" "w_revalidated w1 = w_revalidated w" "h (AdminError 401 ty msg) pf w1 = (r, w')"
    by metis
  with assms(2) show "r = Inl (NextRedirect (js ''/logout'')) \<and> w_revalidated w' = w_revalidated w \<and>
     logout_GET pf w' = (Inr (js ''/login''), w'\<lparr>w_cookie := None\<rparr>)"
    by (auto simp: logout_GET_def bnd_apply clearSession_run)
qed

lemma history_to_logout:
  "expires_to_logout (rollbackAction v)" "expires_to_logout (diffAction v v')" "expires_to_logout (snapshotAction v)"
  "expires_to_logout (previewAction b)"
proof -
  show "expires_to_logout (rollbackAction v)"
    unfolding rollback_attempt
    by (rule attempt_to_logout [OF tame_onAuthExpired]) (simp add: onAuthExpired_def)
  have "expires_to_logout (config_read (\<lambda>client. send_unwrap client m path params query body))" for m path params query body
    unfolding config_read_def try_attempt [where ok = "\<lambda>_. True"]
    by (rule attempt_to_logout [where ok = "\<lambda>_. True"])
      (auto simp: tame_handler_def onAuthExpired_def bnd_apply split: jserror.splits if_splits)
  then show "expires_to_logout (diffAction v v')" "expires_to_logout (snapshotAction v)" "expires_to_logout (previewAction b)"
    by (simp_all add: diffAction_def snapshotAction_def previewAction_def)
qed

section \<open>Properties\<close>

text \<open>The guard of the budget actions. Without the global scope or without the permission the
  action answers that the write is forbidden; with them but without a tenant it asks for one. In
  both cases nothing is sent and nothing changes.\<close>

theorem budget_guard:
  assumes "session_of pf w = Some s"
  shows "(\<not> may_write s (js ''budget.write'') \<longrightarrow>
       createBudget t f pf w = (Inr (FormErr (pf_translate pf (js ''budgets'') (js ''forbiddenWrite'')) None), w) \<and>
       updateBudget t i v f pf w = (Inr (FormErr (pf_translate pf (js ''budgets'') (js ''forbiddenWrite'')) None), w)) \<and>
    (\<not> may_write s (js ''budget.resolve'') \<longrightarrow>
       resolveReservation t rid v f pf w =
         (Inr (FormErr (pf_translate pf (js ''budgets'') (js ''forbiddenWrite'')) None), w)) \<and>
    (may_write s (js ''budget.write'') \<and> list_all js_ws t \<longrightarrow>
       createBudget t f pf w = (Inr (FormErr (pf_translate pf (js ''budgets'') (js ''selectTenant'')) None), w) \<and>
       updateBudget t i v f pf w = (Inr (FormErr (pf_translate pf (js ''budgets'') (js ''selectTenant'')) None), w))"
  using assms
  by (simp add: createBudget_def updateBudget_def resolveReservation_def budget_write_run writeGuard_run js_trim_eq_Nil)

theorem budget_guard_witness:
  "createBudget (js ''acme'') [] sample_platform sample_world =
     (Inr (FormErr (js ''forbiddenWrite'') None), sample_world)"
proof -
  have "\<not> may_write (empty_session\<lparr>sd_token := Some (js ''tok'')\<rparr>) (js ''budget.write'')"
    by (simp add: may_write_def empty_session_def)
  moreover have "pf_translate sample_platform (js ''budgets'') (js ''forbiddenWrite'') = js ''forbiddenWrite''"
    by (simp add: sample_platform_def)
  ultimately show ?thesis
    using budget_guard [OF sample_session, of "js ''acme''" "[]"] by simp
qed

lemma amount_safe: "amount x = Inr v \<Longrightarrow> num_isSafeInteger v"
  by (auto simp: amount_def rbind_Inr_conv split: if_splits)

lemma amount_error: "amount x = Inl e \<Longrightarrow> is_RangeError e"
  by (auto simp: amount_def rbind_def displayToMicro_def Let_def split: sum.splits if_splits option.splits prod.splits)

definition admin_session :: session_data where
  "admin_session = empty_session\<lparr>sd_token := Some (js ''tok''), sd_scopeKind := Some (js ''global''),
     sd_permissions := Some [js ''*'']\<rparr>"

definition admin_platform :: platform where
  "admin_platform = sample_platform\<lparr>pf_unseal := (\<lambda>k c. admin_session)\<rparr>"

lemma admin_session_of: "session_of admin_platform sample_world = Some admin_session"
  by (simp add: session_of_def secret_ok_def admin_platform_def sample_platform_def sample_secret_def
      sample_world_def)

lemma admin_may_write: "may_write admin_session p"
  by (simp add: may_write_def admin_session_def has_def empty_session_def)

lemma admin_client_of: "client_of admin_platform sample_world = Some sample_client"
proof -
  have "pf_ADMIN_URL admin_platform = Some (js ''http://admin'')"
    by (simp add: admin_platform_def sample_platform_def)
  then show ?thesis
    by (simp add: client_of_def admin_session_of createAdminClient_def admin_session_def sample_client_def)
qed

text \<open>The amount field of a request: absent, or the value of the text that was entered, a safe integer.\<close>

definition sends_amount :: "areq \<Rightarrow> jsstr \<Rightarrow> jsstr option \<Rightarrow> bool" where
  "sends_amount q k txt \<longleftrightarrow> (\<exists>b v. rq_body q = Some (JObj b) \<and> filter (\<lambda>p. fst p = k) b = [(k, JNum v)] \<and>
     amount txt = Inr v \<and> num_isSafeInteger v)"

definition sends_no :: "areq \<Rightarrow> jsstr \<Rightarrow> bool" where
  "sends_no q k \<longleftrightarrow> (\<exists>b. rq_body q = Some (JObj b) \<and> map_of b k = None)"

lemma sent_limit:
  assumes "q \<in> new_sent w (snd (createBudget t f pf w))"
  shows "sends_amount q (js ''limit'') (form_get f (js ''limit''))"
  using assms unfolding createBudget_def
  by (rule budget_write_requests)
    (auto simp: budget_body_def rbind_Inr_conv sends_amount_def mk_req_def js_def dest: amount_safe)

lemma sent_new_limit:
  assumes "q \<in> new_sent w (snd (updateBudget t i v f pf w))"
  shows "if form_get f (js ''limitChanged'') = Some (js ''true'')
    then sends_amount q (js ''limit'') (form_get f (js ''limit'')) else sends_no q (js ''limit'')"
  using assms unfolding updateBudget_def
  by (rule budget_write_requests)
    (auto simp: budget_patch_def Let_def rbind_Inr_conv sends_amount_def sends_no_def mk_req_def js_def
      dest: amount_safe split: if_splits)

lemma sent_settlement:
  assumes "q \<in> new_sent w (snd (resolveReservation t i v f pf w))"
  shows "if form_String f (js ''action'') = js ''settle''
    then sends_amount q (js ''actual'') (form_get f (js ''actual'')) else sends_no q (js ''actual'')"
  using assms unfolding resolveReservation_def
  by (rule budget_write_requests)
    (auto simp: resolution_body_def Let_def rbind_Inr_conv sends_amount_def sends_no_def mk_req_def js_def
      dest: amount_safe split: if_splits)

lemma updateBudget_sample:
  "set (w_sent (snd (updateBudget (js ''acme'') (Fin 7) (Fin 3) [(js ''limit'', js ''x'')] admin_platform sample_world))) \<noteq> {}"
proof -
  have "js_trim (js ''acme'') \<noteq> []"
    by (simp add: js_trim_eq_Nil js_def js_ws_def)
  moreover have "pf_fetch admin_platform h = FetchResult \<lparr>fr_data = Some (JObj []), fr_error = None, fr_status = 200\<rparr>" for h
    by (simp add: admin_platform_def sample_platform_def)
  ultimately show ?thesis
    by (simp add: updateBudget_def budget_write_run writeGuard_run admin_session_of admin_may_write
        budget_patch_def form_get_def attempt_unwrap_run [OF admin_client_of] Let_def unwrap_def response_ok_def)
qed

text \<open>C14: amounts. Every request of a budget creation carries one limit: the value in micro-units of the text
  entered, a whole number below \<open>2 ^ 53\<close> in magnitude. A request of a budget edit carries one exactly when the
  limit was changed, that of a resolution an actual amount exactly when it settles, with the same bound. When the
  text has no such value, the creation, the edit of the limit and the settlement send nothing, change nothing and
  tell the form that the amount is invalid.\<close>

theorem budget_amounts:
  "(\<forall>q\<in>new_sent w (snd (createBudget t f pf w)). sends_amount q (js ''limit'') (form_get f (js ''limit''))) \<and>
   (\<forall>q\<in>new_sent w (snd (updateBudget t i ver f pf w)).
      if form_get f (js ''limitChanged'') = Some (js ''true'')
      then sends_amount q (js ''limit'') (form_get f (js ''limit'')) else sends_no q (js ''limit'')) \<and>
   (\<forall>q\<in>new_sent w (snd (resolveReservation t rid ver f pf w)).
      if form_String f (js ''action'') = js ''settle''
      then sends_amount q (js ''actual'') (form_get f (js ''actual'')) else sends_no q (js ''actual'')) \<and>
   (session_of pf w = Some s \<and> \<not> list_all js_ws t \<longrightarrow>
      (let invalid = (Inr (FormErr (pf_translate pf (js ''budgets'') (js ''invalidAmount'')) None), w) in
       (may_write s (js ''budget.write'') \<and> amount (form_get f (js ''limit'')) = Inl e \<longrightarrow>
          createBudget t f pf w = invalid \<and>
          (form_get f (js ''limitChanged'') = Some (js ''true'') \<longrightarrow> updateBudget t i ver f pf w = invalid)) \<and>
       (may_write s (js ''budget.resolve'') \<and> amount (form_get f (js ''actual'')) = Inl e \<and>
          form_String f (js ''action'') = js ''settle'' \<longrightarrow> resolveReservation t rid ver f pf w = invalid)))"
proof (intro conjI ballI impI)
  assume s: "session_of pf w = Some s \<and> \<not> list_all js_ws t"
  then show "let invalid = (Inr (FormErr (pf_translate pf (js ''budgets'') (js ''invalidAmount'')) None), w) in
       (may_write s (js ''budget.write'') \<and> amount (form_get f (js ''limit'')) = Inl e \<longrightarrow>
          createBudget t f pf w = invalid \<and>
          (form_get f (js ''limitChanged'') = Some (js ''true'') \<longrightarrow> updateBudget t i ver f pf w = invalid)) \<and>
       (may_write s (js ''budget.resolve'') \<and> amount (form_get f (js ''actual'')) = Inl e \<and>
          form_String f (js ''action'') = js ''settle'' \<longrightarrow> resolveReservation t rid ver f pf w = invalid)"
    unfolding Let_def createBudget_def updateBudget_def resolveReservation_def
    by (intro conjI impI; intro budget_write_invalid [where s = s and e = e])
      (auto simp: budget_body_def budget_patch_def resolution_body_def dest: amount_error)
qed (erule sent_limit sent_new_limit sent_settlement)+

theorem budget_amounts_witness:
  "createBudget (js ''acme'') [(js ''limit'', js ''x'')] admin_platform sample_world =
     (Inr (FormErr (js ''invalidAmount'') None), sample_world) \<and>
   (\<exists>q. q \<in> new_sent sample_world (snd (updateBudget (js ''acme'') (Fin 7) (Fin 3)
         [(js ''limit'', js ''x'')] admin_platform sample_world)) \<and> sends_no q (js ''limit''))"
proof
  let ?f = "[(js ''limit'', js ''x'')]"
  have "amount (form_get ?f (js ''limit'')) =
      Inl (RangeError (js ''invalid decimal amount: \"'' @ js ''x'' @ js ''\"''))"
    by code_simp
  moreover have "\<not> list_all js_ws (js ''acme'')"
    by (simp add: js_def js_ws_def)
  moreover have "pf_translate admin_platform (js ''budgets'') (js ''invalidAmount'') = js ''invalidAmount''"
    by (simp add: admin_platform_def sample_platform_def)
  ultimately show "createBudget (js ''acme'') ?f admin_platform sample_world =
     (Inr (FormErr (js ''invalidAmount'') None), sample_world)"
    using budget_amounts [of sample_world "js ''acme''" ?f admin_platform]
      admin_session_of admin_may_write by metis
  obtain q where q: "q \<in> new_sent sample_world (snd (updateBudget (js ''acme'') (Fin 7) (Fin 3) ?f admin_platform sample_world))"
    using updateBudget_sample by (fastforce simp: new_sent_def sample_world_def)
  have "form_get ?f (js ''limitChanged'') \<noteq> Some (js ''true'')"
    by (simp add: form_get_def)
  with q budget_amounts [of sample_world "js ''acme''" ?f admin_platform] 
  show "\<exists>q. q \<in> new_sent sample_world (snd (updateBudget (js ''acme'') (Fin 7) (Fin 3)
         ?f admin_platform sample_world)) \<and> sends_no q (js ''limit'')" by auto
qed

text \<open>Saving a budget whose limit was not edited never sends a limit, so a displayed rounding
  cannot overwrite the stored micro-units.\<close>

theorem updateBudget_keeps_limit:
  assumes "form_get f (js ''limitChanged'') \<noteq> Some (js ''true'')"
    and "updateBudget t i v f pf w = (r, w')" and "q \<in> set (w_sent w')" and "q \<notin> set (w_sent w)"
  shows "rq_body q = Some (JObj [(js ''version'', JNum v),
      (js ''enabled'', JBool (form_get f (js ''enabled'') = Some (js ''true'')))])"
proof -
  have "w_sent w' = w_sent w @ drop (length (w_sent w)) (w_sent w')"
    using panel_action.sends [OF updateBudget.panel_action_axioms assms(2)] by auto
  with assms(3,4) have "q \<in> new_sent w w'" unfolding new_sent_def by (metis Un_iff set_append)
  with assms(2) have "q \<in> new_sent w (snd (updateBudget t i v f pf w))" by simp
  then show ?thesis
    unfolding updateBudget_def
    by (rule budget_write_requests) (use assms(1) in \<open>auto simp: budget_patch_def mk_req_def\<close>)
qed

theorem updateBudget_keeps_limit_witness:
  "\<exists>q. q \<in> set (w_sent (snd (updateBudget (js ''acme'') (Fin 7) (Fin 3) [(js ''limit'', js ''x'')] admin_platform sample_world))) \<and>
     rq_body q = Some (JObj [(js ''version'', JNum (Fin 3)), (js ''enabled'', JBool False)])"
proof -
  let ?f = "[(js ''limit'', js ''x'')]"
  obtain r w' where run: "updateBudget (js ''acme'') (Fin 7) (Fin 3) ?f admin_platform sample_world = (r, w')" by fastforce
  then obtain q where q: "q \<in> set (w_sent w')" using updateBudget_sample by fastforce
  have "form_get ?f (js ''limitChanged'') \<noteq> Some (js ''true'')" "form_get ?f (js ''enabled'') = None"
    "q \<notin> set (w_sent sample_world)"
    by (simp_all add: form_get_def sample_world_def)
  then show ?thesis using updateBudget_keeps_limit [OF _ run q] q run by auto
qed

lemma mapBackendError_class: "mapBackendError (js ''AdminError'' @ s) = \<lparr>me_key = None, me_fallback = js ''AdminError'' @ s\<rparr>"
  by (simp add: mapBackendError_def js_startsWith_prefix js_def)

text \<open>A refusal by the admin API of a role creation is shown as the whole error text, never with a
  translation key, and a 401 does not end the session: the catch block maps \<^verbatim>\<open>String(err)\<close>, which
  starts with the name of the error class.\<close>

theorem createRole_refused:
  assumes "client_of pf w = Some c" "\<not> blank f (js ''name'')"
    and "w1 = w\<lparr>w_sent := w_sent w @ [mk_req c POST (js ''/api/v1/roles'') [] [] (Some (role_body f))]\<rparr>"
    and "pf_fetch pf (w_sent w1) = FetchResult r" "unwrap r = Inl (AdminError st ty msg)"
  shows "createRole f pf w =
      (Inr (FormErr (js ''AdminError'' @ (if msg = [] then [] else js '': '' @ msg)) None), w1)"
  using assms
  by (simp add: createRole_def form_str_blank try_write_attempt attempt_unwrap_run Let_def role_catch_def
      bnd_apply error_String_def fail_mapped_def mapBackendError_class
      mapBackendError_class [of "[]", simplified])

definition expired_result :: fetch_result where
  "expired_result = \<lparr>fr_data = None,
     fr_error = Some (JObj [(js ''error'', JObj [(js ''message'', JStr (js ''errors.auth.expired''))])]), fr_status = 401\<rparr>"

definition expired_platform :: platform where
  "expired_platform = sample_platform\<lparr>pf_fetch := (\<lambda>rs. FetchResult expired_result)\<rparr>"

lemma expired_client: "client_of expired_platform sample_world = Some sample_client"
  by (simp add: expired_platform_def)

lemma expired_fetch: "pf_fetch expired_platform h = FetchResult expired_result"
  by (simp add: expired_platform_def)

lemma expired_unwrap: "unwrap expired_result = Inl (AdminError 401 (js ''api_error'') (js ''errors.auth.expired''))"
  by (simp add: unwrap_def expired_result_def new_AdminError_def envelope_def)

theorem createRole_refused_witness:
  "fst (createRole [(js ''name'', js ''auditor'')] expired_platform sample_world) =
      Inr (FormErr (js ''AdminError'' @ js '': '' @ js ''errors.auth.expired'') None) \<and>
   w_cookie (snd (createRole [(js ''name'', js ''auditor'')] expired_platform sample_world)) = w_cookie sample_world"
proof -
  have "\<not> blank [(js ''name'', js ''auditor'')] (js ''name'')"
    by (simp add: form_eval)
  from createRole_refused [OF expired_client this refl expired_fetch expired_unwrap]
  show ?thesis by simp
qed

text \<open>An action that checks the response itself keeps the cookie of an expired session and shows the message.\<close>

lemma own_check_keeps_session:
  assumes "client_of pf w = Some c"
    and "pf_fetch pf (w_sent w @ [mk_req c m path params query b]) = FetchResult r" "fr_status r = 401"
    and "envelope (fr_error r) (js ''message'') = Some (JStr msg)"
  shows "guarded_write paths (\<lambda>client. send_checked client m path params query b fallback) pf w =
    (Inr (fail_mapped msg), w\<lparr>w_sent := w_sent w @ [mk_req c m path params query b]\<rparr>)"
  using assms
  by (simp add: guarded_send_run after_call_def refused_def response_ok_def fail_mapped_def mapped_result_def Let_def)

text \<open>The two requests of a sign-in, and what it means that the answer to the last request of a history
  issued a token.\<close>

definition login_req :: "jsstr \<Rightarrow> form \<Rightarrow> areq" where
  "login_req u f = mk_req (createAdminClient u None) POST (js ''/auth/login'') [] []
     (Some (JObj [(js ''email'', JStr (form_raw f (js ''email''))),
                  (js ''password'', JStr (form_raw f (js ''password'')))]))"

definition me_req :: "jsstr \<Rightarrow> jsstr \<Rightarrow> areq" where
  "me_req u t = mk_req (createAdminClient u (Some t)) GET (js ''/api/v1/me'') [] [] None"

definition token_issued :: "platform \<Rightarrow> areq list \<Rightarrow> jsstr \<Rightarrow> bool" where
  "token_issued pf h t \<longleftrightarrow>
     (case pf_fetch pf h of
        FetchThrow e \<Rightarrow> False
      | FetchResult r \<Rightarrow> \<not> refused r \<and> truthy (opt_prop (fr_data r) (js ''token'')) \<and>
          t = val_String (opt_prop (fr_data r) (js ''token'')))"

lemma login_identity_run:
  assumes "login_identity email t pf w = (r, w')" "pf_ADMIN_URL pf = Some u"
  shows "r \<noteq> Inr FormOk \<and>
    (w' = w\<lparr>w_sent := w_sent w @ [me_req u t]\<rparr> \<or>
     (\<exists>rm k. pf_fetch pf (w_sent w @ [me_req u t]) = FetchResult rm \<and> \<not> truthy (fr_error rm) \<and>
        truthy (fr_data rm) \<and> secret_ok pf = Some k \<and>
        w' = w\<lparr>w_sent := w_sent w @ [me_req u t],
               w_cookie := Some (pf_seal pf k (login_session t email (fr_data rm)))\<rparr> \<and>
        r = Inl (NextRedirect (pf_pathname pf (pf_locale pf) (landing_page (login_session t email (fr_data rm)))))))"
  using assms
  by (auto simp: login_identity_def bnd_apply call_run Let_def setSession_run redirect_locale_def me_req_def
      rbind_Inr_conv mapped_result_def split: fetch_outcome.splits option.splits if_splits)

lemma login_run:
  assumes "loginAction f pf w = (r, w')"
  shows "r \<noteq> Inr FormOk \<and>
    (w' = w \<or>
     (\<exists>u. pf_ADMIN_URL pf = Some u \<and>
       (w' = w\<lparr>w_sent := w_sent w @ [login_req u f]\<rparr> \<or>
        (\<exists>t. token_issued pf (w_sent w @ [login_req u f]) t \<and>
          login_identity (form_raw f (js ''email'')) t pf (w\<lparr>w_sent := w_sent w @ [login_req u f]\<rparr>) = (r, w')))))"
proof (cases "form_raw f (js ''email'') = [] \<or> form_raw f (js ''password'') = [] \<or> pf_ADMIN_URL pf = None \<or> pf_ADMIN_URL pf = Some []")
  case True
  with assms show ?thesis
    by (auto simp: loginAction_def Let_def anonAdminClient_def bnd_apply split: if_splits)
next
  case False
  then obtain u where u: "pf_ADMIN_URL pf = Some u" "u \<noteq> []" by (cases "pf_ADMIN_URL pf") auto
  have "r \<noteq> Inr FormOk" if "login_identity email t pf w1 = (r, w')" for email t w1
    using login_identity_run [OF that u(1)] by blast
  with assms False u show ?thesis
    by (auto simp: loginAction_def Let_def anonAdminClient_def bnd_apply try_catch_apply call_run login_req_def
        token_issued_def rbind_Inr_conv mapped_result_def split: fetch_outcome.splits if_splits)
qed

text \<open>C12: signing in. The action sends at most the credentials and then one identity lookup with the
  token just issued; it touches the session only after both were answered well, storing what they
  returned, and then always leaves for the landing page. In every other case the session is as
  before, and it never answers with plain success.\<close>

theorem login_flow:
  assumes "loginAction f pf w = (r, w')"
  shows "r \<noteq> Inr FormOk \<and> w_revalidated w' = w_revalidated w \<and>
    (\<exists>u t. w_sent w' \<in> {w_sent w, w_sent w @ [login_req u f], w_sent w @ [login_req u f, me_req u t]} \<and>
       (w_sent w' = w_sent w @ [login_req u f, me_req u t] \<longrightarrow> token_issued pf (w_sent w @ [login_req u f]) t) \<and>
       (w_cookie w' = w_cookie w \<or>
        (\<exists>rm k d. w_sent w' = w_sent w @ [login_req u f, me_req u t] \<and>
           pf_fetch pf (w_sent w') = FetchResult rm \<and> \<not> truthy (fr_error rm) \<and> truthy (fr_data rm) \<and>
           d = login_session t (form_raw f (js ''email'')) (fr_data rm) \<and>
           secret_ok pf = Some k \<and> w_cookie w' = Some (pf_seal pf k d) \<and>
           r = Inl (NextRedirect (pf_pathname pf (pf_locale pf) (landing_page d))))))"
proof -
  from login_run [OF assms] consider
      (idle) "r \<noteq> Inr FormOk" "w' = w"
    | (creds) u where "r \<noteq> Inr FormOk" "w' = w\<lparr>w_sent := w_sent w @ [login_req u f]\<rparr>"
    | (token) u t where "r \<noteq> Inr FormOk" "pf_ADMIN_URL pf = Some u" "token_issued pf (w_sent w @ [login_req u f]) t"
        "login_identity (form_raw f (js ''email'')) t pf (w\<lparr>w_sent := w_sent w @ [login_req u f]\<rparr>) = (r, w')"
    by blast
  then show ?thesis
  proof cases
    case token
    from login_identity_run [OF token(4,2)] token(1,3) show ?thesis
      by (intro conjI exI [of _ u] exI [of _ t]) auto
  qed auto
qed

definition login_platform :: platform where
  "login_platform = sample_platform\<lparr>pf_fetch := (\<lambda>h. FetchResult
     \<lparr>fr_data = Some (JObj (if length h = 1 then [(js ''token'', JStr (js ''T''))]
        else [(js ''permissions'', JArr [JStr (js ''usage.read'')])])), fr_error = None, fr_status = 200\<rparr>)\<rparr>"

theorem login_flow_witness:
  "w_cookie (snd (loginAction [(js ''email'', js ''a''), (js ''password'', js ''b'')] login_platform
     (sample_world\<lparr>w_cookie := None\<rparr>))) = Some (js ''T'')"
proof -
  let ?f = "[(js ''email'', js ''a''), (js ''password'', js ''b'')]" and ?w = "sample_world\<lparr>w_cookie := None\<rparr>"
  let ?d = "login_session (js ''T'') (js ''a'') (Some (JObj [(js ''permissions'', JArr [JStr (js ''usage.read'')])]))"
  obtain r w' where run: "loginAction ?f login_platform ?w = (r, w')" by fastforce
  have "w_cookie w' = Some (js ''T'')"
    using run
    by (auto simp: loginAction_def login_identity_def form_raw_def form_get_def anonAdminClient_def bnd_apply
        try_catch_apply call_run Let_def setSession_run redirect_locale_def login_platform_def
        sample_platform_def sample_world_def refused_def response_ok_def val_String_def secret_ok_def
        sample_secret_def login_session_def)
  moreover have "r \<noteq> Inr FormOk"
    using login_flow [OF run] by blast
  ultimately show ?thesis using run by simp
qed

definition page_permission :: "jsstr \<Rightarrow> jsstr" where
  "page_permission p =
     (if p = js ''/providers'' then js ''provider.read''
      else if p = js ''/api-keys'' then js ''api_key.read'' else js ''usage.read'')"

text \<open>The landing page is one the operator may open exactly when the operator has one of the three
  permissions the sign-in looks for, or the wildcard; with none of them the fallback page is one the
  operator may not open.\<close>

theorem landing_page_allowed:
  "has s (page_permission (landing_page s)) \<longleftrightarrow>
     hasAny s [js ''provider.read'', js ''api_key.read'', js ''usage.read'']"
proof (cases "sd_permissions s")
  case None
  then show ?thesis by (simp add: hasAny_def has_def)
next
  case (Some ps)
  then show ?thesis
    by (cases "ps = []"; cases "js ''*'' \<in> set ps"; cases "js ''provider.read'' \<in> set ps";
        cases "js ''api_key.read'' \<in> set ps"; cases "js ''usage.read'' \<in> set ps")
      (simp_all add: landing_page_def page_permission_def hasAny_def has_def)
qed

text \<open>The details of a request and of its predecessor. A row number that is not positive asks for
  nothing; a row the server does not know is \<^verbatim>\<open>null\<close>; every other failure is reported, as forbidden
  exactly for a 403, and a 401 ends the session.\<close>

theorem trace_pair_outcome:
  assumes "client_of pf w = Some c" "session_of pf w = Some s" and "0 < n"
    and "\<And>h. pf_fetch pf h = FetchResult r"
    and "unwrap r = (if fr_status r = 200 then Inr v else Inl (AdminError (fr_status r) ty m))"
  shows "fetchDetailByRow (num_int 0) pf w = (Inr (Some JNull), w) \<and>
    fst (fetchTraceDetailPair o' (num_int n) (num_int 0) pf w) =
      (if fr_status r = 200 then Inr (PairOk (Some (coalesce v JNull)) (Some JNull))
       else if fr_status r = 404 then Inr (PairOk (Some JNull) (Some JNull))
       else if fr_status r = 401 then Inl (NextRedirect (js ''/login''))
       else Inr (PairFail (fr_status r = 403))) \<and>
    w_cookie (snd (fetchTraceDetailPair o' (num_int n) (num_int 0) pf w)) =
      (if fr_status r = 401 then None else w_cookie w)"
proof -
  have "serverAdminClient pf w = (Inr c, w)"
    using serverAdminClient_run [of pf w] assms(1) by auto
  moreover have "session_of pf (w\<lparr>w_sent := h\<rparr>) = Some s" for h
    using assms(2) by (simp add: session_of_def)
  then have "toFormError (AdminError 401 ty m) pf (w\<lparr>w_sent := h\<rparr>) =
      (Inl (NextRedirect (js ''/login'')), w\<lparr>w_sent := h, w_cookie := None\<rparr>)" for h
    by (simp add: toFormError_401)
  ultimately show ?thesis
    using assms(3-)
    by (simp add: fetchTraceDetailPair_def fetchDetailPair_def promise_all2_def fetchDetailByRow_def
        try_catch_apply bnd_apply send_unwrap_def call_run Let_def toFormError_admin)
qed

theorem trace_pair_outcome_witness:
  "fst (fetchTraceDetailPair True (num_int 5) (num_int 0) expired_platform sample_world) =
     Inl (NextRedirect (js ''/login'')) \<and>
   w_cookie (snd (fetchTraceDetailPair True (num_int 5) (num_int 0) expired_platform sample_world)) = None"
proof -
  have s: "session_of expired_platform sample_world = Some (empty_session\<lparr>sd_token := Some (js ''tok'')\<rparr>)"
    using sample_session by (simp add: expired_platform_def)
  have st: "fr_status expired_result = 401" by (simp add: expired_result_def)
  from trace_pair_outcome [OF expired_client s _ expired_fetch, of 5 None "js ''api_error''"
      "js ''errors.auth.expired''" True] show ?thesis
    by (simp add: st expired_unwrap)
qed

end
