(* ===== verification/Js_Uri.thy ===== *)
theory Js_Uri
  imports Js_Json
begin

text \<open>
  The escaping of path segments as the language defines it: \<^verbatim>\<open>encodeURIComponent\<close> and
  \<^verbatim>\<open>decodeURIComponent\<close>, over the UTF-8 encoding of code points, and that the second undoes the
  first.
\<close>

section \<open>Encoding\<close>

text \<open>\<^verbatim>\<open>encodeURIComponent\<close>: unreserved characters are kept, every other code point becomes the percent
  escapes of its UTF-8 bytes; a lone surrogate throws.\<close>

definition unreserved :: "cunit \<Rightarrow> bool" where
  "unreserved c \<longleftrightarrow> (0x41 \<le> c \<and> c \<le> 0x5A) \<or> (0x61 \<le> c \<and> c \<le> 0x7A) \<or> is_digit c \<or>
     c \<in> set (js ''-_.!~*()'') \<or> c = 0x27"

definition upper_hex :: "nat \<Rightarrow> cunit" where
  "upper_hex d = of_nat (if d < 10 then 48 + d else 55 + d)"

definition percent :: "nat \<Rightarrow> jsstr" where
  "percent b = [0x25, upper_hex (b div 16 mod 16), upper_hex (b mod 16)]"

definition utf8 :: "nat \<Rightarrow> nat list" where
  "utf8 n =
     (if n < 0x80 then [n]
      else if n < 0x800 then [0xC0 + n div 64, 0x80 + n mod 64]
      else if n < 0x10000 then [0xE0 + n div 4096, 0x80 + n div 64 mod 64, 0x80 + n mod 64]
      else [0xF0 + n div 262144, 0x80 + n div 4096 mod 64, 0x80 + n div 64 mod 64, 0x80 + n mod 64])"

definition escape_point :: "nat \<Rightarrow> jsstr" where
  "escape_point n = concat (map percent (utf8 n))"

fun encodeURIComponent :: "jsstr \<Rightarrow> jsstr res" where
  "encodeURIComponent [] = Inr []"
| "encodeURIComponent (c # cs) =
     (if unreserved c then rbind (encodeURIComponent cs) (\<lambda>r. Inr (c # r))
      else if is_low c then Inl (PlainError (js ''URI malformed''))
      else if is_high c then
        (case cs of
           d # ds \<Rightarrow>
             if is_low d
             then rbind (encodeURIComponent ds) (\<lambda>r.
               Inr (escape_point (0x10000 + (unat c - 0xD800) * 0x400 + (unat d - 0xDC00)) @ r))
             else Inl (PlainError (js ''URI malformed''))
         | [] \<Rightarrow> Inl (PlainError (js ''URI malformed'')))
      else rbind (encodeURIComponent cs) (\<lambda>r. Inr (escape_point (unat c) @ r)))"

section \<open>Decoding\<close>

definition hex_digit :: "cunit \<Rightarrow> nat option" where
  "hex_digit c =
     (if is_digit c then Some (unat c - 48)
      else if 0x41 \<le> c \<and> c \<le> 0x46 then Some (unat c - 55)
      else if 0x61 \<le> c \<and> c \<le> 0x66 then Some (unat c - 87)
      else None)"

definition read_byte :: "jsstr \<Rightarrow> (nat \<times> jsstr) option" where
  "read_byte s =
     (case s of
        p # h # l # r \<Rightarrow>
          if p = 0x25 then
            (case (hex_digit h, hex_digit l) of (Some a, Some b) \<Rightarrow> Some (16 * a + b, r) | _ \<Rightarrow> None)
          else None
      | _ \<Rightarrow> None)"

text \<open>Continuation bytes, six bits each.\<close>

fun read_conts :: "nat \<Rightarrow> nat \<Rightarrow> jsstr \<Rightarrow> (nat \<times> jsstr) option" where
  "read_conts 0 acc s = Some (acc, s)"
| "read_conts (Suc k) acc s =
     (case read_byte s of
        Some (b, r) \<Rightarrow> if b div 64 = 2 then read_conts k (acc * 64 + b mod 64) r else None
      | None \<Rightarrow> None)"

text \<open>One escaped code point: overlong forms, surrogates and values above the last plane are malformed.\<close>

definition in_bounds :: "nat \<Rightarrow> nat \<Rightarrow> (nat \<times> jsstr) option \<Rightarrow> (nat \<times> jsstr) option" where
  "in_bounds lo hi x =
     (case x of Some (n, r) \<Rightarrow> if lo \<le> n \<and> n \<le> hi \<and> \<not> (0xD800 \<le> n \<and> n \<le> 0xDFFF) then x else None
      | None \<Rightarrow> None)"

definition read_point :: "jsstr \<Rightarrow> (nat \<times> jsstr) option" where
  "read_point s =
     (case read_byte s of
        None \<Rightarrow> None
      | Some (b, r) \<Rightarrow>
          if b < 0x80 then Some (b, r)
          else if b < 0xC0 then None
          else if b < 0xE0 then in_bounds 0x80 0x7FF (read_conts 1 (b - 0xC0) r)
          else if b < 0xF0 then in_bounds 0x800 0xFFFF (read_conts 2 (b - 0xE0) r)
          else if b < 0xF8 then in_bounds 0x10000 0x10FFFF (read_conts 3 (b - 0xF0) r)
          else None)"

definition point_units :: "nat \<Rightarrow> jsstr" where
  "point_units n =
     (if n < 0x10000 then [of_nat n]
      else [of_nat (0xD800 + (n - 0x10000) div 0x400), of_nat (0xDC00 + (n - 0x10000) mod 0x400)])"

lemma read_byte_length: "read_byte s = Some (b, r) \<Longrightarrow> length r < length s"
  by (auto simp: read_byte_def split: list.splits if_splits option.splits)

lemma read_conts_length: "read_conts k acc s = Some (n, r) \<Longrightarrow> length r \<le> length s"
  by (induction k acc s rule: read_conts.induct)
    (fastforce split: option.splits if_splits dest: read_byte_length)+

lemma in_bounds_Some: "in_bounds lo hi x = Some y \<Longrightarrow> x = Some y"
  by (auto simp: in_bounds_def split: option.splits if_splits)

lemma read_point_length: "read_point s = Some (n, r) \<Longrightarrow> length r < length s"
  by (auto simp: read_point_def split: option.splits if_splits
      dest!: in_bounds_Some read_byte_length read_conts_length)

function decodeURIComponent :: "jsstr \<Rightarrow> jsstr res" where
  "decodeURIComponent [] = Inr []"
| "decodeURIComponent (c # cs) =
     (if c \<noteq> 0x25 then rbind (decodeURIComponent cs) (\<lambda>r. Inr (c # r))
      else case read_point (c # cs) of
        None \<Rightarrow> Inl (PlainError (js ''URI malformed''))
      | Some (n, rest) \<Rightarrow> rbind (decodeURIComponent rest) (\<lambda>r. Inr (point_units n @ r)))"
  by pat_completeness auto
termination
  by (relation "measure length") (auto dest: read_point_length)

section \<open>Round trip\<close>

lemma upper_hex_unreserved: "d < 16 \<Longrightarrow> unreserved (upper_hex d)"
proof -
  assume "d < 16"
  then have "d \<in> set [0..<16]" by simp
  moreover have "\<forall>d\<in>set [0..<16]. unreserved (upper_hex d)"
    by (simp add: upt_rec unreserved_def upper_hex_def is_digit_def js_def)
  ultimately show ?thesis by blast
qed

lemma escape_point_chars: "c \<in> set (escape_point n) \<Longrightarrow> unreserved c \<or> c = 0x25"
  by (auto simp: escape_point_def percent_def upper_hex_unreserved split: if_splits)

lemma encode_chars: "encodeURIComponent s = Inr r \<Longrightarrow> c \<in> set r \<Longrightarrow> unreserved c \<or> c = 0x25"
proof (induction s arbitrary: r rule: encodeURIComponent.induct)
  case (2 c cs)
  then show ?case
    by (auto simp: rbind_Inr_conv dest: escape_point_chars split: if_splits list.splits)
qed simp

lemma hex_digit_upper: "d < 16 \<Longrightarrow> hex_digit (upper_hex d) = Some d"
proof -
  assume "d < 16"
  then have "d \<in> set [0..<16]" by simp
  moreover have "\<forall>d\<in>set [0..<16]. hex_digit (upper_hex d) = Some d"
    by (simp add: upt_rec hex_digit_def upper_hex_def is_digit_def)
  ultimately show ?thesis by blast
qed

lemma read_percent: "b < 256 \<Longrightarrow> read_byte (percent b @ r) = Some (b, r)"
proof -
  assume "b < 256"
  then have "16 * (b div 16 mod 16) + b mod 16 = b" by (simp add: div_less_iff_less_mult)
  then show ?thesis by (simp add: read_byte_def percent_def hex_digit_upper)
qed

lemma read_conts_percent:
  "m < 64 \<Longrightarrow> read_conts (Suc k) acc (percent (0x80 + m) @ r) = read_conts k (acc * 64 + m) r"
proof -
  assume m: "m < 64"
  have "(0x80 + m) div 64 = 2" "(0x80 + m) mod 64 = m"
    using m div_mult_self1 [of 64 m 2] mod_mult_self1 [of m 2 64] by (simp_all add: add.commute)
  with m show ?thesis by (simp add: read_percent)
qed

lemma read_escape_point:
  assumes "n \<le> 0x10FFFF" "\<not> (0xD800 \<le> n \<and> n \<le> 0xDFFF)"
  shows "read_point (escape_point n @ r) = Some (n, r)"
proof -
  have split1: "n div 64 * 64 + n mod 64 = n" by simp
  have split2: "n div 4096 * 64 + n div 64 mod 64 = n div 64"
    by (simp add: div_mult2_eq [of n 64 64, simplified])
  have split3: "n div 262144 * 64 + n div 4096 mod 64 = n div 4096"
    by (simp add: div_mult2_eq [of n 4096 64, simplified])
  consider "n < 0x80" | "0x80 \<le> n" "n < 0x800" | "0x800 \<le> n" "n < 0x10000" | "0x10000 \<le> n"
    by linarith
  then show ?thesis
  proof cases
    case 1
    then show ?thesis by (simp add: read_point_def escape_point_def utf8_def read_percent)
  next
    case 2
    then have lead: "n div 64 < 32" by (simp add: div_less_iff_less_mult)
    have "read_conts 1 (n div 64) (percent (0x80 + n mod 64) @ r) = Some (n, r)"
      using read_conts_percent [of "n mod 64" 0 "n div 64" r] split1 by simp
    with 2 lead show ?thesis by (simp add: read_point_def escape_point_def utf8_def read_percent in_bounds_def)
  next
    case 3
    then have lead: "n div 4096 < 16" by (simp add: div_less_iff_less_mult)
    have "read_conts 2 (n div 4096) (percent (0x80 + n div 64 mod 64) @ percent (0x80 + n mod 64) @ r) = Some (n, r)"
      using read_conts_percent [of "n div 64 mod 64" 1 "n div 4096"] read_conts_percent [of "n mod 64" 0 "n div 64" r]
      by (simp add: numeral_2_eq_2 split2 split1 del: read_conts.simps(2))
    with 3 lead assms(2) show ?thesis
      by (simp add: read_point_def escape_point_def utf8_def read_percent in_bounds_def)
  next
    case 4
    then have lead: "n div 262144 < 5" using assms(1) by (simp add: div_less_iff_less_mult)
    have "read_conts 3 (n div 262144) (percent (0x80 + n div 4096 mod 64) @ percent (0x80 + n div 64 mod 64) @
        percent (0x80 + n mod 64) @ r) = Some (n, r)"
      using read_conts_percent [of "n div 4096 mod 64" 2 "n div 262144"]
        read_conts_percent [of "n div 64 mod 64" 1 "n div 4096"] read_conts_percent [of "n mod 64" 0 "n div 64" r]
      by (simp add: numeral_3_eq_3 numeral_2_eq_2 split3 split2 split1 del: read_conts.simps(2))
    with 4 lead assms(1) show ?thesis
      by (simp add: read_point_def escape_point_def utf8_def read_percent in_bounds_def)
  qed
qed

lemma escape_point_head: "\<exists>x. escape_point n = 0x25 # x"
  by (auto simp: escape_point_def utf8_def percent_def)

lemma decode_escape:
  assumes "n \<le> 0x10FFFF" "\<not> (0xD800 \<le> n \<and> n \<le> 0xDFFF)"
  shows "decodeURIComponent (escape_point n @ r) = rbind (decodeURIComponent r) (\<lambda>s. Inr (point_units n @ s))"
proof -
  obtain x where x: "escape_point n @ r = 0x25 # x" using escape_point_head by (metis append_Cons)
  then show ?thesis using read_escape_point [OF assms, of r] by simp
qed

lemma unreserved_not_percent: "unreserved c \<Longrightarrow> c \<noteq> 0x25"
  by (auto simp: unreserved_def is_digit_def js_def)

lemma point_units_unit: "\<not> is_high c \<Longrightarrow> \<not> is_low c \<Longrightarrow> point_units (unat c) = [c] \<and> unat c \<le> 0x10FFFF \<and>
    \<not> (0xD800 \<le> unat c \<and> unat c \<le> 0xDFFF)"
proof -
  assume a: "\<not> is_high c" "\<not> is_low c"
  have u: "unat c < 0x10000" using unsigned_less [of c] by simp
  from a have "\<not> (0xD800 \<le> unat c \<and> unat c \<le> 0xDFFF)"
    by (auto simp: is_high_def is_low_def word_le_nat_alt not_le)
  with u show ?thesis by (simp add: point_units_def)
qed

lemma point_units_pair:
  assumes "is_high c" "is_low d"
  defines "n \<equiv> 0x10000 + (unat c - 0xD800) * 0x400 + (unat d - 0xDC00)"
  shows "point_units n = [c, d]" "n \<le> 0x10FFFF" "0x10000 \<le> n"
proof -
  have c: "0xD800 \<le> unat c" "unat c \<le> 0xDBFF" and d: "0xDC00 \<le> unat d" "unat d \<le> 0xDFFF"
    using assms(1,2) by (simp_all add: is_high_def is_low_def word_le_nat_alt)
  define a b where "a = unat c - 0xD800" and "b = unat d - 0xDC00"
  have n: "n - 0x10000 = b + a * 0x400" "b < 0x400" using c d by (simp_all add: n_def a_def b_def)
  then have "(n - 0x10000) div 0x400 = a" "(n - 0x10000) mod 0x400 = b" by simp_all
  with c d show "point_units n = [c, d]" unfolding point_units_def by (simp add: a_def b_def n_def)
  from c d show "n \<le> 0x10FFFF" "0x10000 \<le> n" by (simp_all add: n_def)
qed

lemma decode_encode: "encodeURIComponent s = Inr r \<Longrightarrow> decodeURIComponent r = Inr s"
proof (induction s arbitrary: r rule: encodeURIComponent.induct)
  case 1
  then show ?case by simp
next
  case (2 c cs)
  consider (kept) "unreserved c" | (pair) d ds where "\<not> unreserved c" "\<not> is_low c" "is_high c" "cs = d # ds" "is_low d"
    | (unit) "\<not> unreserved c" "\<not> is_low c" "\<not> is_high c"
    using "2.prems" by (auto split: if_splits list.splits)
  then show ?case
  proof cases
    case kept
    with "2.prems" obtain t where "encodeURIComponent cs = Inr t" "r = c # t" by (auto simp: rbind_Inr_conv)
    with "2.IH"(1) kept unreserved_not_percent [OF kept] show ?thesis by simp
  next
    case pair
    let ?n = "0x10000 + (unat c - 0xD800) * 0x400 + (unat d - 0xDC00)"
    from pair "2.prems" obtain t where t: "encodeURIComponent ds = Inr t" "r = escape_point ?n @ t"
      by (auto simp: rbind_Inr_conv)
    have "decodeURIComponent t = Inr ds" using "2.IH"(2) pair t(1) by simp
    with decode_escape [of ?n t] point_units_pair [OF pair(3,5)] t(2) pair(4) show ?thesis by simp
  next
    case unit
    with "2.prems" obtain t where t: "encodeURIComponent cs = Inr t" "r = escape_point (unat c) @ t"
      by (auto simp: rbind_Inr_conv)
    have "decodeURIComponent t = Inr cs" using "2.IH"(3) unit t(1) by simp
    with decode_escape [of "unat c" t] point_units_unit [OF unit(3,2)] t(2) show ?thesis by simp
  qed
qed

end
