(* ===== verification/Js_Date.thy ===== *)
theory Js_Date
  imports Js_Number
begin

text \<open>
  Dates as the language defines them (ECMAScript, section on Date objects): a time value is a number of
  milliseconds since the epoch, with its year, month, day and weekday in the proleptic Gregorian
  calendar, \<^verbatim>\<open>MakeDay\<close> with overflowing months and days, and \<^verbatim>\<open>toISOString\<close>. The offset of
  the local time zone is not part of the program; it is a parameter, given as the two functions the
  language names: the offset at an instant and the offset used for a local time.
\<close>

section \<open>The calendar\<close>

definition msPerDay :: int where
  "msPerDay = 86400000"

text \<open>\<^verbatim>\<open>DayFromYear\<close>: the day number of the first of January.\<close>

definition DayFromYear :: "int \<Rightarrow> int" where
  "DayFromYear y = 365 * (y - 1970) + (y - 1969) div 4 - (y - 1901) div 100 + (y - 1601) div 400"

definition leap :: "int \<Rightarrow> bool" where
  "leap y \<longleftrightarrow> y mod 4 = 0 \<and> (y mod 100 \<noteq> 0 \<or> y mod 400 = 0)"

text \<open>The year of a day: the one whose first day is the last not after it. A linear estimate is off
  by at most one.\<close>

definition YearFromDay :: "int \<Rightarrow> int" where
  "YearFromDay d =
     (let y = 400 * d div 146097 + 1970
      in if d < DayFromYear y then y - 1 else if DayFromYear (y + 1) \<le> d then y + 1 else y)"

text \<open>Days before a month (0 is January) in a common or a leap year.\<close>

definition month_starts :: "bool \<Rightarrow> int list" where
  "month_starts lp =
     (let b = (if lp then 1 else 0)
      in [0, 31, 59 + b, 90 + b, 120 + b, 151 + b, 181 + b, 212 + b, 243 + b, 273 + b, 304 + b, 334 + b, 365 + b])"

definition MonthFromDay :: "int \<Rightarrow> nat" where
  "MonthFromDay d =
     (let y = YearFromDay d; doy = d - DayFromYear y
      in length (takeWhile (\<lambda>m. m \<le> doy) (month_starts (leap y))) - 1)"

definition DateFromDay :: "int \<Rightarrow> int" where
  "DateFromDay d = d - DayFromYear (YearFromDay d) - month_starts (leap (YearFromDay d)) ! MonthFromDay d + 1"

definition WeekDay :: "int \<Rightarrow> int" where
  "WeekDay d = (d + 4) mod 7"

text \<open>\<^verbatim>\<open>MakeDay\<close>: months below 0 or above 11 move the year.\<close>

definition MakeDay :: "int \<Rightarrow> int \<Rightarrow> int \<Rightarrow> int" where
  "MakeDay y m dt =
     (let ym = y + m div 12; mn = m mod 12
      in DayFromYear ym + month_starts (leap ym) ! nat mn + dt - 1)"

lemma div_bounds:
  fixes a k :: int
  assumes "0 < k"
  shows "k * (a div k) \<le> a" "a < k * (a div k) + k"
  using assms pos_mod_bound [OF assms, of a] pos_mod_sign [OF assms, of a] mult_div_mod_eq [of k a] by linarith+

lemma div_succ:
  fixes a k :: int
  assumes "0 < k"
  shows "(a + 1) div k = a div k + (if (a + 1) mod k = 0 then 1 else 0)"
proof (cases "(a + 1) mod k = 0")
  case True
  then obtain q where q: "a + 1 = k * q" by (metis mod_0_imp_dvd dvdE)
  have "a = (q - 1) * k + (k - 1)" using q by (simp add: algebra_simps)
  then have "a div k = q - 1" using assms by (simp add: div_pos_pos_trivial)
  with q True assms show ?thesis by simp
next
  case False
  define r where "r = a mod k"
  have r: "0 \<le> r" "r < k" using assms by (simp_all add: r_def)
  have a: "a = (a div k) * k + r" by (simp add: r_def)
  then have "a + 1 = (a div k) * k + (r + 1)" by linarith
  moreover have "r + 1 \<noteq> k"
  proof
    assume "r + 1 = k"
    with a have "a + 1 = (a div k + 1) * k" by (simp add: algebra_simps)
    with False show False by (metis mod_mult_self2_is_0)
  qed
  ultimately have "(a + 1) div k = a div k + (r + 1) div k" "(r + 1) div k = 0"
    using assms r by (metis div_mult_self3 add.commute less_irrefl, simp add: div_pos_pos_trivial)
  with False show ?thesis by simp
qed

lemma div_succ_shift:
  fixes y c k :: int
  assumes "0 < k" "c - 1 = m * k"
  shows "(y + 1 - c) div k = (y - c) div k + (if y mod k = 0 then 1 else 0)"
proof -
  have "y + 1 - c = y + (- m) * k" using assms(2) by simp
  then have "(y - c + 1) mod k = y mod k" by (metis add_diff_eq diff_add_eq mod_mult_self1)
  with div_succ [OF assms(1), of "y - c"] show ?thesis by (simp add: diff_add_eq)
qed

lemma year_length: "DayFromYear (y + 1) = DayFromYear y + (if leap y then 366 else 365)"
proof -
  define p q r where "p \<longleftrightarrow> y mod 4 = 0" and "q \<longleftrightarrow> y mod 100 = 0" and "r \<longleftrightarrow> y mod 400 = 0"
  define a b c where "a = (y - 1969) div 4" and "b = (y - 1901) div 100" and "c = (y - 1601) div 400"
  have a: "(y + 1 - 1969) div 4 = a + (if p then 1 else 0)"
    unfolding a_def p_def by (rule div_succ_shift [where m = 492]) simp_all
  have b: "(y + 1 - 1901) div 100 = b + (if q then 1 else 0)"
    unfolding b_def q_def by (rule div_succ_shift [where m = 19]) simp_all
  have c: "(y + 1 - 1601) div 400 = c + (if r then 1 else 0)"
    unfolding c_def r_def by (rule div_succ_shift [where m = 4]) simp_all
  have "r \<longrightarrow> q" "q \<longrightarrow> p" unfolding p_def q_def r_def by (auto simp: mod_eq_0_iff_dvd elim: dvd_trans [rotated])
  then show ?thesis
    unfolding DayFromYear_def leap_def a b c p_def [symmetric] q_def [symmetric] r_def [symmetric]
      a_def [symmetric] b_def [symmetric] c_def [symmetric] by (cases p; cases q; cases r) simp_all
qed

lemma year_estimate:
  "146097 * (y - 1970) - 800 \<le> 400 * DayFromYear y \<and> 400 * DayFromYear y \<le> 146097 * (y - 1970) + 800"
proof -
  define a b c where "a = (y - 1969) div 4" and "b = (y - 1901) div 100" and "c = (y - 1601) div 400"
  have "4 * a \<le> y - 1969" "y - 1969 < 4 * a + 4" "100 * b \<le> y - 1901" "y - 1901 < 100 * b + 100"
    "400 * c \<le> y - 1601" "y - 1601 < 400 * c + 400"
    unfolding a_def b_def c_def by (rule div_bounds; simp)+
  then show ?thesis
    unfolding DayFromYear_def a_def [symmetric] b_def [symmetric] c_def [symmetric]
    by (intro conjI; simp)
qed

lemma YearFromDay: "DayFromYear (YearFromDay d) \<le> d \<and> d < DayFromYear (YearFromDay d + 1)"
proof -
  define q where "q = 400 * d div 146097"
  have q: "146097 * q \<le> 400 * d" "400 * d < 146097 * q + 146097"
    unfolding q_def by (rule div_bounds; simp)+
  have "d < DayFromYear (q + 1970 + 1 + 1)" using q conjunct1 [OF year_estimate [of "q + 1970 + 1 + 1"]] by simp
  moreover have "DayFromYear (q + 1970 - 1) \<le> d" using q conjunct2 [OF year_estimate [of "q + 1970 - 1"]] by simp
  ultimately show ?thesis unfolding YearFromDay_def q_def [symmetric] Let_def by (auto simp: algebra_simps)
qed

lemma DayFromYear_mono: "y < y' \<Longrightarrow> DayFromYear (y + 1) \<le> DayFromYear y'"
proof (induction y' rule: int_gr_induct)
  case (step i)
  then show ?case using year_length [of i] by (simp split: if_splits)
qed simp

lemma YearFromDay_unique:
  assumes "DayFromYear y \<le> d" "d < DayFromYear (y + 1)"
  shows "YearFromDay d = y"
proof (rule ccontr)
  assume "YearFromDay d \<noteq> y"
  then consider "YearFromDay d < y" | "y < YearFromDay d" by linarith
  then show False
    using assms YearFromDay [of d] DayFromYear_mono [of "YearFromDay d" y] DayFromYear_mono [of y "YearFromDay d"]
    by cases linarith+
qed

definition day_of_year :: "int \<Rightarrow> int" where
  "day_of_year d = d - DayFromYear (YearFromDay d)"

lemma day_of_year_bounds: "0 \<le> day_of_year d" "day_of_year d < (if leap (YearFromDay d) then 366 else 365)"
  using YearFromDay [of d] year_length [of "YearFromDay d"] by (simp_all add: day_of_year_def)

lemma month_starts_simps:
  "length (month_starts lp) = 13" "month_starts lp ! 0 = 0" "month_starts lp ! 12 = (if lp then 366 else 365)"
  by (simp_all add: month_starts_def)

lemma MonthFromDay:
  defines "starts d \<equiv> month_starts (leap (YearFromDay d))"
  shows "MonthFromDay d < 12" "starts d ! MonthFromDay d \<le> day_of_year d"
    "day_of_year d < starts d ! (MonthFromDay d + 1)"
proof -
  define n where "n = length (takeWhile (\<lambda>m. m \<le> day_of_year d) (starts d))"
  have len: "length (starts d) = 13" by (simp add: starts_def month_starts_simps)
  have "\<not> starts d ! 12 \<le> day_of_year d"
    using day_of_year_bounds(2) [of d] by (simp add: starts_def month_starts_simps split: if_splits)
  then have "n \<noteq> 13"
    using len by (metis (no_types, lifting) n_def lessI numeral_eq_Suc pred_numeral_simps(2,3) semiring_norm(26,27)
        nth_mem set_takeWhileD takeWhile_nth)
  moreover have "n \<le> 13" using len length_takeWhile_le n_def by metis
  ultimately have "n \<le> 12" by simp
  moreover have "0 < n"
    unfolding n_def using day_of_year_bounds(1) [of d] len
    by (cases "starts d") (auto simp: starts_def month_starts_def Let_def)
  moreover have "starts d ! (n - 1) \<le> day_of_year d"
    using \<open>0 < n\<close> unfolding n_def
    by (metis (no_types, lifting) diff_less nth_mem set_takeWhileD takeWhile_nth zero_less_one)
  moreover have "day_of_year d < starts d ! n"
    using \<open>n \<le> 12\<close> len nth_length_takeWhile [of "\<lambda>m. m \<le> day_of_year d" "starts d"] by (simp add: n_def)
  moreover have "MonthFromDay d = n - 1"
    unfolding MonthFromDay_def n_def starts_def day_of_year_def by (simp add: Let_def)
  ultimately show "MonthFromDay d < 12" "starts d ! MonthFromDay d \<le> day_of_year d"
    "day_of_year d < starts d ! (MonthFromDay d + 1)" by auto
qed

text \<open>A day is determined by its year, month and date.\<close>

theorem MakeDay_calendar:
  "MakeDay (YearFromDay d) (int (MonthFromDay d)) (DateFromDay d) = d"
  using MonthFromDay(1) [of d] by (simp add: MakeDay_def DateFromDay_def Let_def div_pos_pos_trivial mod_pos_pos_trivial)

lemma MakeDay_date: "MakeDay y m k = MakeDay y m 1 + (k - 1)"
  by (simp add: MakeDay_def Let_def)

lemma MakeDay_shift: "MakeDay y m (k + n) = MakeDay y m k + n"
  by (simp add: MakeDay_def Let_def)

lemma month_length:
  "m < 12 \<Longrightarrow> 28 \<le> month_starts lp ! Suc m - month_starts lp ! m \<and> month_starts lp ! Suc m - month_starts lp ! m \<le> 31"
  by (auto simp: less_Suc_eq numeral_eq_Suc month_starts_def Let_def)

lemma DateFromDay_bounds: "1 \<le> DateFromDay d" "DateFromDay d \<le> 31"
  using MonthFromDay(2,3) [of d] month_length [OF MonthFromDay(1) [of d], of "leap (YearFromDay d)"]
  by (simp_all add: DateFromDay_def day_of_year_def)

lemma month_starts_mono: "m \<le> n \<Longrightarrow> n < 13 \<Longrightarrow> month_starts lp ! m \<le> month_starts lp ! n"
proof (induction n)
  case (Suc n)
  then show ?case using month_length [of n lp] by (cases "m = Suc n") auto
qed simp

lemma calendar_unique:
  assumes "m < 12" "month_starts (leap y) ! m \<le> k" "k < month_starts (leap y) ! Suc m"
  shows "YearFromDay (DayFromYear y + k) = y" "MonthFromDay (DayFromYear y + k) = m"
proof -
  have "0 \<le> k" using assms month_starts_mono [of 0 m "leap y"] month_starts_simps(2) [of "leap y"] by simp
  moreover have "k < (if leap y then 366 else 365)"
    using assms month_starts_mono [of "Suc m" 12 "leap y"] month_starts_simps(3) [of "leap y"] by simp
  ultimately show y: "YearFromDay (DayFromYear y + k) = y"
    using year_length [of y] by (intro YearFromDay_unique) simp_all
  let ?d = "DayFromYear y + k" and ?m = "MonthFromDay (DayFromYear y + k)"
  have doy: "day_of_year ?d = k" by (simp add: day_of_year_def y)
  note M = MonthFromDay [of ?d, unfolded y doy]
  show "?m = m"
  proof (rule ccontr)
    assume "?m \<noteq> m"
    then consider "Suc ?m \<le> m" | "Suc m \<le> ?m" by linarith
    then show False
      using M assms month_starts_mono [of "Suc ?m" m "leap y"] month_starts_mono [of "Suc m" ?m "leap y"]
      by cases auto
  qed
qed

text \<open>The first of a month, written with a month that may lie outside the year.\<close>

lemma MakeDay_first:
  "YearFromDay (MakeDay y m 1) = y + m div 12" "MonthFromDay (MakeDay y m 1) = nat (m mod 12)"
  "DateFromDay (MakeDay y m 1) = 1"
proof -
  let ?y = "y + m div 12" and ?n = "nat (m mod 12)"
  have n: "?n < 12" by (simp add: nat_less_iff)
  let ?k = "month_starts (leap ?y) ! ?n"
  have d: "MakeDay y m 1 = DayFromYear ?y + ?k" by (simp add: MakeDay_def Let_def)
  have "?k < month_starts (leap ?y) ! Suc ?n" using month_length [OF n, of "leap ?y"] by simp
  from calendar_unique [OF n order_refl this]
  show y: "YearFromDay (MakeDay y m 1) = ?y" and m: "MonthFromDay (MakeDay y m 1) = ?n" by (simp_all only: d)
  show "DateFromDay (MakeDay y m 1) = 1" unfolding DateFromDay_def y m by (simp add: d)
qed

section \<open>Time values\<close>

text \<open>A date object holds a time value, or none when it is invalid. The time zone gives the offset that is
  added to an instant, and the one that is taken off a local time.\<close>

record zone =
  z_at :: "int \<Rightarrow> int"
  z_local :: "int \<Rightarrow> int"

type_synonym date = "int option"

definition LocalTime :: "zone \<Rightarrow> int \<Rightarrow> int" where
  "LocalTime z t = t + z_at z t"

definition UTC :: "zone \<Rightarrow> int \<Rightarrow> int" where
  "UTC z t = t - z_local z t"

definition Day :: "int \<Rightarrow> int" where
  "Day t = t div msPerDay"

definition TimeWithinDay :: "int \<Rightarrow> int" where
  "TimeWithinDay t = t mod msPerDay"

definition MakeDate :: "int \<Rightarrow> int \<Rightarrow> int" where
  "MakeDate d tm = d * msPerDay + tm"

definition max_time :: int where
  "max_time = 8640000000000000"

definition TimeClip :: "int \<Rightarrow> date" where
  "TimeClip t = (if \<bar>t\<bar> \<le> max_time then Some t else None)"

text \<open>\<^verbatim>\<open>new Date(y, m, d)\<close>: years 0 to 99 are those of the twentieth century.\<close>

definition new_Date :: "zone \<Rightarrow> int \<Rightarrow> int \<Rightarrow> int \<Rightarrow> date" where
  "new_Date z y m d =
     (let yr = (if 0 \<le> y \<and> y \<le> 99 then 1900 + y else y)
      in TimeClip (UTC z (MakeDate (MakeDay yr m d) 0)))"

definition getFullYear :: "zone \<Rightarrow> int \<Rightarrow> int" where
  "getFullYear z t = YearFromDay (Day (LocalTime z t))"

definition getMonth :: "zone \<Rightarrow> int \<Rightarrow> int" where
  "getMonth z t = int (MonthFromDay (Day (LocalTime z t)))"

definition getDate :: "zone \<Rightarrow> int \<Rightarrow> int" where
  "getDate z t = DateFromDay (Day (LocalTime z t))"

definition getDay :: "zone \<Rightarrow> int \<Rightarrow> int" where
  "getDay z t = WeekDay (Day (LocalTime z t))"

definition getHours :: "zone \<Rightarrow> int \<Rightarrow> int" where
  "getHours z t = TimeWithinDay (LocalTime z t) div 3600000"

definition getMinutes :: "zone \<Rightarrow> int \<Rightarrow> int" where
  "getMinutes z t = TimeWithinDay (LocalTime z t) div 60000 mod 60"

definition setDate :: "zone \<Rightarrow> int \<Rightarrow> int \<Rightarrow> date" where
  "setDate z t dt =
     (let l = LocalTime z t; day = MakeDay (YearFromDay (Day l)) (int (MonthFromDay (Day l))) dt
      in TimeClip (UTC z (MakeDate day (TimeWithinDay l))))"

text \<open>\<^verbatim>\<open>setHours(0, 0, 0, 0)\<close>\<close>

definition setHours_0 :: "zone \<Rightarrow> int \<Rightarrow> date" where
  "setHours_0 z t = TimeClip (UTC z (MakeDate (Day (LocalTime z t)) 0))"

definition pad_digits :: "nat \<Rightarrow> int \<Rightarrow> jsstr" where
  "pad_digits n k = js_padStart n 48 (digits10 (nat k))"

definition iso_year :: "int \<Rightarrow> jsstr" where
  "iso_year y = (if 0 \<le> y \<and> y \<le> 9999 then pad_digits 4 y
                 else (if 0 \<le> y then js ''+'' else js ''-'') @ pad_digits 6 \<bar>y\<bar>)"

definition iso_text :: "int \<Rightarrow> jsstr" where
  "iso_text t =
     (let d = Day t; r = TimeWithinDay t
      in iso_year (YearFromDay d) @ js ''-'' @ pad_digits 2 (int (MonthFromDay d) + 1) @ js ''-'' @
         pad_digits 2 (DateFromDay d) @ js ''T'' @ pad_digits 2 (r div 3600000) @ js '':'' @
         pad_digits 2 (r div 60000 mod 60) @ js '':'' @ pad_digits 2 (r div 1000 mod 60) @ js ''.'' @
         pad_digits 3 (r mod 1000) @ js ''Z'')"

definition toISOString :: "date \<Rightarrow> jsstr res" where
  "toISOString d = (case d of None \<Rightarrow> Inl (RangeError (js ''Invalid time value'')) | Some t \<Rightarrow> Inr (iso_text t))"

lemma Day_MakeDate: "0 \<le> r \<Longrightarrow> r < msPerDay \<Longrightarrow> Day (MakeDate d r) = d"
  by (simp add: Day_def MakeDate_def msPerDay_def)

lemma MakeDate_Day: "MakeDate (Day t) (TimeWithinDay t) = t"
  by (simp add: Day_def MakeDate_def TimeWithinDay_def msPerDay_def)

lemma TimeWithinDay_bounds: "0 \<le> TimeWithinDay t" "TimeWithinDay t < msPerDay"
  by (simp_all add: TimeWithinDay_def msPerDay_def)

lemma TimeWithinDay_MakeDate: "0 \<le> r \<Longrightarrow> r < msPerDay \<Longrightarrow> TimeWithinDay (MakeDate d r) = r"
  by (simp add: TimeWithinDay_def MakeDate_def msPerDay_def mod_pos_pos_trivial)

text \<open>\<^verbatim>\<open>setDate\<close> with a shifted date moves the local time by whole days.\<close>

lemma setDate_shift:
  "setDate z t (getDate z t + n) = TimeClip (UTC z (LocalTime z t + n * msPerDay))"
proof -
  let ?l = "LocalTime z t"
  have "MakeDay (YearFromDay (Day ?l)) (int (MonthFromDay (Day ?l))) (getDate z t + n) = Day ?l + n"
    by (simp add: MakeDay_shift MakeDay_calendar getDate_def)
  moreover have "MakeDate (Day ?l + n) (TimeWithinDay ?l) = ?l + n * msPerDay"
    using MakeDate_Day [of ?l] by (simp add: MakeDate_def algebra_simps)
  ultimately show ?thesis by (simp add: setDate_def Let_def)
qed

lemma new_Date_day:
  assumes "100 \<le> y"
  shows "new_Date z y m d = TimeClip (UTC z (MakeDate (MakeDay y m d) 0))"
  using assms by (simp add: new_Date_def)

end
