(* ===== verification/Date_Range.thy ===== *)
theory Date_Range
  imports Js_Date Js_Json
begin

text \<open>
  Time ranges and time stamps. The presets of the two overview pages: \<^verbatim>\<open>rangeToFromTo\<close> of the Control
  Panel (\<^verbatim>\<open>overview/range.ts\<close>), which answers with texts, and \<^verbatim>\<open>rangeFor\<close> of the desktop application
  (\<^verbatim>\<open>pages/Overview.tsx\<close>), which answers with dates; the conversions of \<^verbatim>\<open>lib/datetime.ts\<close>. The time
  zone, the clock and the parser of date texts are parameters.
\<close>

section \<open>Presets of the Control Panel\<close>

record from_to =
  ft_from :: "jsstr option"
  ft_to :: "jsstr option"

definition localMidnight :: "zone \<Rightarrow> date \<Rightarrow> date" where
  "localMidnight z d = Option.bind d (setHours_0 z)"

definition startOfDayUTC :: "zone \<Rightarrow> date \<Rightarrow> jsstr res" where
  "startOfDayUTC z d = toISOString (localMidnight z d)"

definition rangeToFromTo :: "zone \<Rightarrow> int \<Rightarrow> jsstr \<Rightarrow> from_to res" where
  "rangeToFromTo z now rng =
     (if rng = js ''yesterday'' then
        rbind (startOfDayUTC z (setDate z now (getDate z now - 1))) (\<lambda>f.
        rbind (startOfDayUTC z (Some now)) (\<lambda>t. Inr \<lparr>ft_from = Some f, ft_to = Some t\<rparr>))
      else if rng = js ''week'' then
        (let dayIdx = (getDay z now + 6) mod 7
         in rbind (startOfDayUTC z (setDate z now (getDate z now - dayIdx))) (\<lambda>f.
            Inr \<lparr>ft_from = Some f, ft_to = None\<rparr>))
      else if rng = js ''month'' then
        rbind (toISOString (new_Date z (getFullYear z now) (getMonth z now) 1)) (\<lambda>f.
        Inr \<lparr>ft_from = Some f, ft_to = None\<rparr>)
      else if rng = js ''last_month'' then
        rbind (toISOString (new_Date z (getFullYear z now) (getMonth z now - 1) 1)) (\<lambda>f.
        rbind (toISOString (new_Date z (getFullYear z now) (getMonth z now) 1)) (\<lambda>t.
        Inr \<lparr>ft_from = Some f, ft_to = Some t\<rparr>))
      else
        rbind (startOfDayUTC z (Some now)) (\<lambda>f. Inr \<lparr>ft_from = Some f, ft_to = None\<rparr>))"

section \<open>Presets of the desktop application\<close>

datatype Preset = P_today | P_yesterday | P_week | P_month | P_lastMonth | P_all

text \<open>The labels of the buttons; each preset has one.\<close>

definition PRESETS :: "(Preset \<times> jsstr) list" where
  "PRESETS =
     [(P_today, [0x4ECA, 0x5929]), (P_yesterday, [0x6628, 0x5929]), (P_week, [0x672C, 0x5468]),
      (P_month, [0x672C, 0x6708]), (P_lastMonth, [0x4E0A, 0x6708]), (P_all, [0x5168, 0x90E8])]"

text \<open>The accessors and setters on a date that may be invalid: every one then gives NaN, and the date stays
  invalid.\<close>

definition startOfWeekMonday :: "zone \<Rightarrow> int \<Rightarrow> date" where
  "startOfWeekMonday z d =
     Option.bind (new_Date z (getFullYear z d) (getMonth z d) (getDate z d)) (\<lambda>x.
       setDate z x (getDate z x - (getDay z x + 6) mod 7))"

definition rangeFor :: "zone \<Rightarrow> Preset \<Rightarrow> int \<Rightarrow> date option \<times> date option" where
  "rangeFor z p now =
     (let day0 = new_Date z (getFullYear z now) (getMonth z now) (getDate z now)
      in case p of
           P_today \<Rightarrow> (Some day0, None)
         | P_yesterday \<Rightarrow> (Some (Option.bind day0 (\<lambda>y. setDate z y (getDate z y - 1))), Some day0)
         | P_week \<Rightarrow> (Some (startOfWeekMonday z now), None)
         | P_month \<Rightarrow> (Some (new_Date z (getFullYear z now) (getMonth z now) 1), None)
         | P_lastMonth \<Rightarrow>
             (Some (new_Date z (getFullYear z now) (getMonth z now - 1) 1),
              Some (new_Date z (getFullYear z now) (getMonth z now) 1))
         | P_all \<Rightarrow> (None, None))"

text \<open>\<^verbatim>\<open>from?.toISOString(), to?.toISOString()\<close>, the arguments of the overview call.\<close>

definition iso_opt :: "date option \<Rightarrow> jsstr option res" where
  "iso_opt d = (case d of None \<Rightarrow> Inr None | Some x \<Rightarrow> rbind (toISOString x) (\<lambda>s. Inr (Some s)))"

definition overview_range :: "zone \<Rightarrow> Preset \<Rightarrow> int \<Rightarrow> from_to res" where
  "overview_range z p now =
     (case rangeFor z p now of (from, to) \<Rightarrow>
        rbind (iso_opt from) (\<lambda>f. rbind (iso_opt to) (\<lambda>t. Inr \<lparr>ft_from = f, ft_to = t\<rparr>)))"

section \<open>Conversions\<close>

text \<open>\<^verbatim>\<open>new Date(text)\<close> is the parameter \<open>parse\<close>, whose result is an invalid date when the text is none.\<close>

definition rfc3339ToLocalDatetime :: "(jsstr \<Rightarrow> date) \<Rightarrow> zone \<Rightarrow> jsstr \<Rightarrow> jsstr" where
  "rfc3339ToLocalDatetime parse z value =
     (if value = [] then []
      else case parse value of
        None \<Rightarrow> []
      | Some d \<Rightarrow>
          let year = num_repr (num_int (getFullYear z d));
              month = js_padStart 2 48 (num_repr (num_int (getMonth z d + 1)));
              day = js_padStart 2 48 (num_repr (num_int (getDate z d)));
              hours = js_padStart 2 48 (num_repr (num_int (getHours z d)));
              minutes = js_padStart 2 48 (num_repr (num_int (getMinutes z d)))
          in year @ js ''-'' @ month @ js ''-'' @ day @ js ''T'' @ hours @ js '':'' @ minutes)"

definition localDatetimeToRfc3339 :: "(jsstr \<Rightarrow> date) \<Rightarrow> jsstr \<Rightarrow> jsstr res" where
  "localDatetimeToRfc3339 parse value =
     (if value = [] then Inr []
      else case parse value of None \<Rightarrow> Inr [] | Some d \<Rightarrow> toISOString (Some d))"

text \<open>The formatter of the locale is the parameter \<open>fmt\<close>.\<close>

definition formatDateTime :: "(jsstr \<Rightarrow> date) \<Rightarrow> (jsstr \<Rightarrow> int \<Rightarrow> jsstr) \<Rightarrow> jsstr \<Rightarrow> jsstr \<Rightarrow> jsstr" where
  "formatDateTime parse fmt value locale =
     (if value = [] then [0x2014]
      else case parse value of None \<Rightarrow> [0x2014] | Some d \<Rightarrow> fmt locale d)"

section \<open>What the presets mean\<close>

text \<open>The calendar month of a day, counted from year 0.\<close>

definition month_index :: "int \<Rightarrow> int" where
  "month_index d = 12 * YearFromDay d + int (MonthFromDay d)"

definition monday_of :: "int \<Rightarrow> int" where
  "monday_of d = d - (WeekDay d + 6) mod 7"

text \<open>The local days a preset is meant to cover, given today.\<close>

definition in_preset :: "jsstr \<Rightarrow> int \<Rightarrow> int \<Rightarrow> bool" where
  "in_preset rng today d \<longleftrightarrow>
     (if rng = js ''yesterday'' then d = today - 1
      else if rng = js ''week'' then monday_of today \<le> d
      else if rng = js ''month'' then month_index today \<le> month_index d
      else if rng = js ''last_month'' then month_index d = month_index today - 1
      else today \<le> d)"

text \<open>What is used of a time zone: offsets are below a day; the calendar day never goes back; reading a
  local time as an instant stays on its day; local midnight is read as an instant not after the others
  of its day.\<close>

definition civil :: "zone \<Rightarrow> bool" where
  "civil z \<longleftrightarrow>
     (\<forall>t. \<bar>z_at z t\<bar> < msPerDay) \<and> (\<forall>l. \<bar>z_local z l\<bar> < msPerDay) \<and>
     (\<forall>t t'. t \<le> t' \<longrightarrow> Day (LocalTime z t) \<le> Day (LocalTime z t')) \<and>
     (\<forall>l. Day (LocalTime z (UTC z l)) = Day l) \<and>
     (\<forall>t. UTC z (MakeDate (Day (LocalTime z t)) 0) \<le> t)"

text \<open>The clock is far from both ends of the range of time values, and the year is not one of the first
  century.\<close>

definition usual_time :: "zone \<Rightarrow> int \<Rightarrow> bool" where
  "usual_time z now \<longleftrightarrow> \<bar>now\<bar> \<le> max_time - 100 * msPerDay \<and> 100 \<le> getFullYear z now"

definition midnight :: "zone \<Rightarrow> int \<Rightarrow> int" where
  "midnight z d = UTC z (MakeDate d 0)"

lemma Day_MakeDate_0 [simp]: "Day (MakeDate d 0) = d"
  by (simp add: Day_MakeDate msPerDay_def)

lemma Day_add_days: "Day (t + n * msPerDay) = Day t + n"
  by (simp add: Day_def msPerDay_def)

lemma civil_midnight:
  assumes "civil z"
  shows "midnight z d \<le> t \<longleftrightarrow> d \<le> Day (LocalTime z t)"
proof
  assume "midnight z d \<le> t"
  then have "Day (LocalTime z (midnight z d)) \<le> Day (LocalTime z t)" using assms by (simp add: civil_def)
  then show "d \<le> Day (LocalTime z t)" using assms by (simp add: civil_def midnight_def)
next
  assume d: "d \<le> Day (LocalTime z t)"
  show "midnight z d \<le> t"
  proof (rule ccontr)
    assume "\<not> midnight z d \<le> t"
    then have "Day (LocalTime z t) \<le> Day (LocalTime z (midnight z d))" using assms by (simp add: civil_def)
    then have "Day (LocalTime z t) = d" using assms d by (simp add: civil_def midnight_def)
    then have "midnight z d \<le> t" using assms unfolding civil_def midnight_def by blast
    with \<open>\<not> midnight z d \<le> t\<close> show False ..
  qed
qed

lemma civil_clip:
  assumes "civil z" "usual_time z now" "\<bar>l - LocalTime z now\<bar> \<le> 70 * msPerDay"
  shows "TimeClip (UTC z l) = Some (UTC z l)"
proof -
  have "\<bar>z_at z now\<bar> < msPerDay" "\<bar>z_local z l\<bar> < msPerDay" using assms(1) by (simp_all add: civil_def)
  with assms(2,3) have "\<bar>UTC z l\<bar> \<le> max_time"
    by (simp add: UTC_def LocalTime_def usual_time_def max_time_def msPerDay_def) (simp add: abs_le_iff abs_less_iff)
  then show ?thesis by (simp add: TimeClip_def)
qed

lemma MakeDate_near: "\<bar>d - Day l\<bar> \<le> 69 \<Longrightarrow> \<bar>MakeDate d 0 - l\<bar> \<le> 70 * msPerDay"
  using div_bounds [of msPerDay l] by (simp add: MakeDate_def Day_def msPerDay_def abs_le_iff)

lemma midnight_clip:
  assumes "civil z" "usual_time z now" "\<bar>d - Day (LocalTime z now)\<bar> \<le> 69"
  shows "TimeClip (UTC z (MakeDate d 0)) = Some (midnight z d)"
  using civil_clip [OF assms(1,2) MakeDate_near [OF assms(3)]] by (simp add: midnight_def)

lemma setDate_midnight:
  assumes "civil z" "usual_time z now" "0 \<le> n" "n \<le> 7"
  shows "startOfDayUTC z (setDate z now (getDate z now - n)) = Inr (iso_text (midnight z (Day (LocalTime z now) - n)))"
proof -
  let ?l = "LocalTime z now + - n * msPerDay"
  have "setDate z now (getDate z now - n) = TimeClip (UTC z ?l)" using setDate_shift [of z now "- n"] by simp
  also have "\<dots> = Some (UTC z ?l)"
    by (rule civil_clip [OF assms(1,2)]) (use assms(3,4) in \<open>simp add: msPerDay_def\<close>)
  finally have set: "setDate z now (getDate z now - n) = Some (UTC z ?l)" .
  have "Day (LocalTime z (UTC z ?l)) = Day (LocalTime z now) - n"
    using assms(1) Day_add_days [of _ "- n"] by (simp add: civil_def)
  with midnight_clip [OF assms(1,2), of "Day (LocalTime z now) - n"] assms(3,4) show ?thesis
    by (simp add: set startOfDayUTC_def localMidnight_def setHours_0_def toISOString_def)
qed

lemma today_midnight:
  assumes "civil z" "usual_time z now"
  shows "startOfDayUTC z (Some now) = Inr (iso_text (midnight z (Day (LocalTime z now))))"
  using midnight_clip [OF assms, of "Day (LocalTime z now)"]
  by (simp add: startOfDayUTC_def localMidnight_def setHours_0_def toISOString_def)

subsection \<open>Months\<close>

lemma MakeDay_index: "MakeDay y m k = MakeDay 0 (12 * y + m) k"
  by (simp add: MakeDay_def Let_def)

lemma next_month:
  assumes "m < 12"
  shows "MakeDay 0 (12 * y + int m + 1) 1 = DayFromYear y + month_starts (leap y) ! Suc m"
proof (cases "m = 11")
  case True
  then have "(12 * y + int m + 1) div 12 = y + 1" "(12 * y + int m + 1) mod 12 = 0" by simp_all
  then have "MakeDay 0 (12 * y + int m + 1) 1 = DayFromYear (y + 1)"
    by (simp add: MakeDay_def month_starts_simps del: add.commute)
  with True show ?thesis using month_starts_simps(3) [of "leap y"] by (simp add: year_length)
next
  case False
  with assms have "(12 * y + int m + 1) div 12 = y" "(12 * y + int m + 1) mod 12 = int m + 1"
    by (simp_all add: add.assoc div_pos_pos_trivial mod_pos_pos_trivial)
  then show ?thesis by (simp add: MakeDay_def nat_add_distrib)
qed

lemma month_step:
  "28 \<le> MakeDay 0 (i + 1) 1 - MakeDay 0 i 1" "MakeDay 0 (i + 1) 1 - MakeDay 0 i 1 \<le> 31"
proof -
  define y m where "y = i div 12" and "m = nat (i mod 12)"
  have m: "m < 12" by (simp add: m_def nat_less_iff)
  have i: "i = 12 * y + int m" by (simp add: y_def m_def)
  have "MakeDay 0 i 1 = DayFromYear y + month_starts (leap y) ! m" by (simp add: MakeDay_def Let_def y_def m_def)
  with next_month [OF m, of y] month_length [OF m, of "leap y"]
  show "28 \<le> MakeDay 0 (i + 1) 1 - MakeDay 0 i 1" "MakeDay 0 (i + 1) 1 - MakeDay 0 i 1 \<le> 31"
    by (simp_all add: i [symmetric])
qed

lemma month_first_mono: "i \<le> j \<Longrightarrow> MakeDay 0 i 1 \<le> MakeDay 0 j 1"
proof (induction j rule: int_ge_induct)
  case (step j)
  then show ?case using month_step(1) [of j] by simp
qed simp

lemma month_of_day: "MakeDay 0 (month_index d) 1 \<le> d" "d < MakeDay 0 (month_index d + 1) 1"
proof -
  let ?y = "YearFromDay d" and ?m = "MonthFromDay d"
  have first: "MakeDay 0 (month_index d) 1 = d - DateFromDay d + 1"
    using MakeDay_calendar [of d] MakeDay_date [of ?y "int ?m" "DateFromDay d"]
    by (simp add: month_index_def MakeDay_index [symmetric])
  with DateFromDay_bounds(1) [of d] show "MakeDay 0 (month_index d) 1 \<le> d" by simp
  have "MakeDay 0 (month_index d + 1) 1 = DayFromYear ?y + month_starts (leap ?y) ! Suc ?m"
    using next_month [OF MonthFromDay(1)] by (simp add: month_index_def)
  with MonthFromDay(3) [of d] show "d < MakeDay 0 (month_index d + 1) 1" by (simp add: day_of_year_def)
qed

lemma month_start_le: "MakeDay 0 i 1 \<le> d \<longleftrightarrow> i \<le> month_index d"
proof
  assume le: "MakeDay 0 i 1 \<le> d"
  show "i \<le> month_index d"
  proof (rule ccontr)
    assume "\<not> i \<le> month_index d"
    then have "MakeDay 0 (month_index d + 1) 1 \<le> MakeDay 0 i 1" by (intro month_first_mono) simp
    with le month_of_day(2) [of d] show False by simp
  qed
qed (use month_of_day(1) [of d] month_first_mono [of i "month_index d"] in simp)

lemma month_midnight:
  assumes "civil z" "usual_time z now" "k \<in> {0, 1}"
  shows "new_Date z (getFullYear z now) (getMonth z now - k) 1 =
    Some (midnight z (MakeDay 0 (month_index (Day (LocalTime z now)) - k) 1))"
proof -
  let ?d = "Day (LocalTime z now)" and ?i = "month_index (Day (LocalTime z now))"
  have i: "MakeDay (getFullYear z now) (getMonth z now - k) 1 = MakeDay 0 (?i - k) 1"
    by (subst MakeDay_index) (simp add: month_index_def getFullYear_def getMonth_def add_diff_eq)
  have "MakeDay 0 (?i - k) 1 \<le> ?d" by (simp add: month_start_le assms(3)) (use assms(3) in auto)
  moreover have "?d \<le> MakeDay 0 (?i - k) 1 + 62"
    using month_of_day(2) [of ?d] month_step(2) [of ?i] month_step(2) [of "?i - 1"] assms(3) by auto
  ultimately have "\<bar>MakeDay 0 (?i - k) 1 - ?d\<bar> \<le> 69" by simp
  with midnight_clip [OF assms(1,2)] assms(2) show ?thesis by (simp add: new_Date_day usual_time_def i)
qed

section \<open>Properties\<close>

lemma interval_days:
  assumes "civil z"
  shows "midnight z d \<le> t \<and> t < midnight z d' \<longleftrightarrow> d \<le> Day (LocalTime z t) \<and> Day (LocalTime z t) < d'"
  using civil_midnight [OF assms, of d t] civil_midnight [OF assms, of d' t] by auto

text \<open>The first local day of a preset and, if it is closed, the day after its last.\<close>

definition preset_days :: "jsstr \<Rightarrow> int \<Rightarrow> int \<times> int option" where
  "preset_days rng today =
     (if rng = js ''yesterday'' then (today - 1, Some today)
      else if rng = js ''week'' then (monday_of today, None)
      else if rng = js ''month'' then (MakeDay 0 (month_index today) 1, None)
      else if rng = js ''last_month'' then
        (MakeDay 0 (month_index today - 1) 1, Some (MakeDay 0 (month_index today) 1))
      else (today, None))"

lemma preset_days_in:
  "in_preset rng today d \<longleftrightarrow>
     fst (preset_days rng today) \<le> d \<and> (case snd (preset_days rng today) of None \<Rightarrow> True | Some e \<Rightarrow> d < e)"
  using month_start_le [of "month_index today - 1" d] month_start_le [of "month_index today" d]
  by (auto simp: in_preset_def preset_days_def)

lemma rangeToFromTo_midnights:
  fixes rng :: jsstr
  assumes "civil z" "usual_time z now"
  defines "days \<equiv> preset_days rng (Day (LocalTime z now))"
  shows "rangeToFromTo z now rng =
    Inr \<lparr>ft_from = Some (iso_text (midnight z (fst days))), ft_to = map_option (iso_text \<circ> midnight z) (snd days)\<rparr>"
proof -
  have week: "startOfDayUTC z (setDate z now (getDate z now - (getDay z now + 6) mod 7)) =
      Inr (iso_text (midnight z (monday_of (Day (LocalTime z now)))))"
    using setDate_midnight [OF assms(1,2), of "(getDay z now + 6) mod 7"]
    by (simp add: monday_of_def getDay_def)
  note month = month_midnight [OF assms(1,2), of 0, simplified]
    month_midnight [OF assms(1,2), of 1, simplified]
  show ?thesis
    unfolding rangeToFromTo_def days_def preset_days_def Let_def
    by (simp add: week month today_midnight [OF assms(1,2)] setDate_midnight [OF assms(1,2)] toISOString_def rbind_def)
qed

text \<open>C8: The presets of the overview cover the local days they name. In a civil time zone the two texts are
  those of instants that bound exactly the instants whose local day belongs to the preset: yesterday, the
  days from Monday on, the days of this month and later, the days of the month before, today and later.\<close>

theorem presets_cover_days:
  assumes "civil z" and "usual_time z now"
  shows "\<exists>from to. rangeToFromTo z now rng = Inr \<lparr>ft_from = Some (iso_text from), ft_to = map_option iso_text to\<rparr> \<and>
    (\<forall>t. from \<le> t \<and> (case to of None \<Rightarrow> True | Some e \<Rightarrow> t < e) \<longleftrightarrow>
         in_preset rng (Day (LocalTime z now)) (Day (LocalTime z t)))"
proof (intro exI conjI allI)
  let ?days = "preset_days rng (Day (LocalTime z now))"
  show "rangeToFromTo z now rng = Inr \<lparr>ft_from = Some (iso_text (midnight z (fst ?days))),
      ft_to = map_option iso_text (map_option (midnight z) (snd ?days))\<rparr>"
    by (simp add: rangeToFromTo_midnights [OF assms] option.map_comp)
  show "midnight z (fst ?days) \<le> t \<and> (case map_option (midnight z) (snd ?days) of None \<Rightarrow> True | Some e \<Rightarrow> t < e) \<longleftrightarrow>
      in_preset rng (Day (LocalTime z now)) (Day (LocalTime z t))" for t
    using civil_midnight [OF assms(1), of "fst ?days" t] interval_days [OF assms(1), of "fst ?days" t]
    by (simp add: preset_days_in split: option.split)
qed

definition fixed_zone :: "int \<Rightarrow> zone" where
  "fixed_zone off = \<lparr>z_at = (\<lambda>_. off), z_local = (\<lambda>_. off)\<rparr>"

lemma fixed_zone_civil: "\<bar>off\<bar> < msPerDay \<Longrightarrow> civil (fixed_zone off)"
  unfolding civil_def fixed_zone_def LocalTime_def UTC_def MakeDate_def Day_def
  by (auto intro!: zdiv_mono1 simp: msPerDay_def div_times_less_eq_dividend div_bounds(1) algebra_simps
      intro: order_trans [OF div_bounds(1)])

text \<open>The first of March 2024, 12:00, in a zone eight hours ahead.\<close>

lemma sample_now: "usual_time (fixed_zone 28800000) 1709265600000"
  by (code_simp)

theorem presets_cover_days_witness:
  "civil (fixed_zone 28800000) \<and> usual_time (fixed_zone 28800000) 1709265600000 \<and>
   (\<exists>from to. rangeToFromTo (fixed_zone 28800000) 1709265600000 (js ''last_month'') =
       Inr \<lparr>ft_from = Some (iso_text from), ft_to = map_option iso_text to\<rparr>)"
proof -
  have z: "civil (fixed_zone 28800000)" by (rule fixed_zone_civil) (simp add: msPerDay_def)
  with presets_cover_days [OF z sample_now, of "js ''last_month''"] sample_now show ?thesis by blast
qed

text \<open>Midnight exists on every day.\<close>

definition has_midnights :: "zone \<Rightarrow> bool" where
  "has_midnights z \<longleftrightarrow> (\<forall>d. LocalTime z (midnight z d) = MakeDate d 0)"

definition preset_name :: "Preset \<Rightarrow> jsstr option" where
  "preset_name p = (case p of P_today \<Rightarrow> Some (js ''today'') | P_yesterday \<Rightarrow> Some (js ''yesterday'')
     | P_week \<Rightarrow> Some (js ''week'') | P_month \<Rightarrow> Some (js ''month'') | P_lastMonth \<Rightarrow> Some (js ''last_month'')
     | P_all \<Rightarrow> None)"

lemma day0_midnight:
  assumes "civil z" "usual_time z now"
  shows "new_Date z (getFullYear z now) (getMonth z now) (getDate z now) = Some (midnight z (Day (LocalTime z now)))"
  using midnight_clip [OF assms, of "Day (LocalTime z now)"] assms(2) MakeDay_calendar [of "Day (LocalTime z now)"]
  by (simp add: new_Date_day usual_time_def getFullYear_def getMonth_def getDate_def)

lemma midnight_shift:
  assumes "civil z" "has_midnights z" "usual_time z now" "0 \<le> n" "n \<le> 7"
  defines "m \<equiv> midnight z (Day (LocalTime z now))"
  shows "setDate z m (getDate z m - n) = Some (midnight z (Day (LocalTime z now) - n))"
proof -
  have "LocalTime z m + - n * msPerDay = MakeDate (Day (LocalTime z now) - n) 0"
    using assms(2) by (simp add: m_def has_midnights_def MakeDate_def algebra_simps)
  with setDate_shift [of z m "- n"] midnight_clip [OF assms(1,3), of "Day (LocalTime z now) - n"] assms(4,5)
  show ?thesis by simp
qed

text \<open>The desktop application and the Control Panel mean the same range by the same preset, in a zone
  whose days all have a midnight.\<close>

theorem presets_agree:
  assumes "civil z" and "has_midnights z" and "usual_time z now" and "preset_name p = Some rng"
  shows "overview_range z p now = rangeToFromTo z now rng"
proof -
  let ?d = "Day (LocalTime z now)"
  have "getDay z (midnight z ?d) = WeekDay ?d" using assms(2) by (simp add: getDay_def has_midnights_def)
  then have week: "startOfWeekMonday z now = Some (midnight z (monday_of ?d))"
    using midnight_shift [OF assms(1-3), of "(WeekDay ?d + 6) mod 7"]
    by (simp add: startOfWeekMonday_def day0_midnight [OF assms(1,3)] monday_of_def)
  note month = month_midnight [OF assms(1,3), of 0, simplified] month_midnight [OF assms(1,3), of 1, simplified]
  show ?thesis
    using assms(4) unfolding rangeToFromTo_midnights [OF assms(1,3)]
    by (cases p) (auto simp: preset_name_def overview_range_def rangeFor_def Let_def day0_midnight [OF assms(1,3)]
        midnight_shift [OF assms(1-3), of 1, simplified] week month iso_opt_def toISOString_def preset_days_def)
qed

theorem presets_agree_witness:
  "has_midnights (fixed_zone 28800000) \<and>
   overview_range (fixed_zone 28800000) P_week 1709265600000 =
     rangeToFromTo (fixed_zone 28800000) 1709265600000 (js ''week'')"
proof -
  have z: "civil (fixed_zone 28800000)" by (rule fixed_zone_civil) (simp add: msPerDay_def)
  have m: "has_midnights (fixed_zone 28800000)"
    by (simp add: has_midnights_def midnight_def fixed_zone_def LocalTime_def UTC_def)
  with presets_agree [OF z m sample_now, of P_week "js ''week''"] show ?thesis by (simp add: preset_name_def)
qed

text \<open>Without that hypothesis they differ: where the clock skips the first hour of a day, the desktop
  application starts yesterday at one o'clock.\<close>

definition gap_zone :: zone where
  "gap_zone = \<lparr>z_at = (\<lambda>t. if t < 0 then 0 else 3600000), z_local = (\<lambda>l. if l < 3600000 then 0 else 3600000)\<rparr>"

lemma gap_zone_civil: "civil gap_zone"
proof -
  have "Day (LocalTime gap_zone t) \<le> Day (LocalTime gap_zone t')" if "t \<le> t'" for t t'
    using that by (auto simp: gap_zone_def LocalTime_def Day_def msPerDay_def intro!: zdiv_mono1)
  moreover have "Day (LocalTime gap_zone (UTC gap_zone l)) = Day l" for l
    by (auto simp: gap_zone_def LocalTime_def UTC_def Day_def msPerDay_def div_pos_pos_trivial)
  moreover have "UTC gap_zone (MakeDate (Day (LocalTime gap_zone t)) 0) \<le> t" for t
    using div_bounds(1) [of msPerDay "LocalTime gap_zone t"]
    by (auto simp: gap_zone_def LocalTime_def UTC_def MakeDate_def Day_def msPerDay_def split: if_splits)
  ultimately show ?thesis unfolding civil_def by (auto simp: gap_zone_def msPerDay_def)
qed

lemma presets_differ_at_gap:
  "rangeToFromTo gap_zone 43200000 (js ''yesterday'') =
     Inr \<lparr>ft_from = Some (js ''1969-12-31T00:00:00.000Z''), ft_to = Some (js ''1970-01-01T00:00:00.000Z'')\<rparr>"
  "overview_range gap_zone P_yesterday 43200000 =
     Inr \<lparr>ft_from = Some (js ''1969-12-31T01:00:00.000Z''), ft_to = Some (js ''1970-01-01T00:00:00.000Z'')\<rparr>"
  by code_simp+

end
