(* ===== verification/Page_Load.thy ===== *)
theory Page_Load
  imports Actions_Access Js_Uri Date_Range
begin

text \<open>
  What the pages of the dashboard share. A page is a server component: it reads its search parameters, asks
  the admin API through the client of the session inside a try block, turns a refusal into a redirect
  or a notice (\<^verbatim>\<open>components/forbidden-notice.tsx\<close>), and hands the rows to its client component.

  The contract is stated as two locales. \<open>page_load\<close>: loading only reads, through the session's client,
  and leaves the cookie and the stale marks alone (a render must not write them). \<open>guarded_page\<close>: besides,
  a missing session or permission never escapes as an error. Every page is interpreted in the theories that
  define it.
\<close>

section \<open>Pages\<close>

text \<open>The search parameters are given like the entries of a form, each at most once. The properties of a
  component are named values; one that is \<^verbatim>\<open>undefined\<close> is kept.\<close>

type_synonym props = "(jsstr \<times> jsval) list"

datatype page =
    Shown (page_client: jsstr) (page_props: props)
  | Notice (notice_text: jsstr)
  | Prompt (prompt_title: jsstr)

definition ForbiddenNotice :: "jsstr \<Rightarrow> jsstr act" where
  "ForbiddenNotice message = bnd (asks (\<lambda>pf. pf_translate pf (js ''errors''))) (\<lambda>t.
     let mapped = mapBackendError message
     in ret (case me_key mapped of
               Some key \<Rightarrow> if key \<noteq> [] then t key else me_fallback mapped
             | None \<Rightarrow> me_fallback mapped))"

text \<open>The catch block of the pages.\<close>

definition page_error :: "jserror \<Rightarrow> page act" where
  "page_error err = bnd (handleAdminError err) (\<lambda>message. bnd (ForbiddenNotice message) (\<lambda>text. ret (Notice text)))"

text \<open>\<^verbatim>\<open>try { ... } catch (err) { const outcome = await handleAdminError(err); return ...; }\<close> and the rest of the
  page.\<close>

definition page_try :: "'a act \<Rightarrow> ('a \<Rightarrow> page act) \<Rightarrow> page act" where
  "page_try body rest =
     bnd (try_catch (bnd body (\<lambda>x. ret (Inr x))) (\<lambda>err. bnd (page_error err) (\<lambda>p. ret (Inl p))))
       (\<lambda>r. case r of Inl p \<Rightarrow> ret p | Inr x \<Rightarrow> rest x)"

section \<open>Reading parameters and answers\<close>

text \<open>\<^verbatim>\<open>if (p) query.p = p\<close>\<close>

definition when_param :: "form \<Rightarrow> jsstr \<Rightarrow> fields" where
  "when_param sp k = when_field (form_raw sp k \<noteq> []) k (JStr (form_raw sp k))"

text \<open>An entry that is \<^verbatim>\<open>undefined\<close> is no entry to the HTTP client and to \<^verbatim>\<open>JSON.stringify\<close>.\<close>

definition defined_fields :: "props \<Rightarrow> fields" where
  "defined_fields kvs = List.map_filter (\<lambda>(k, v). map_option (Pair k) v) kvs"

definition list_query :: "form \<Rightarrow> fields" where
  "list_query sp =
     when_param sp (js ''cursor'') @
     when_field (form_raw sp (js ''limit'') \<noteq> []) (js ''limit'') (JNum (js_Number (form_raw sp (js ''limit''))))"

text \<open>\<^verbatim>\<open>unwrap(await client.GET(path, ...))\<close>\<close>

definition read_json :: "admin_client \<Rightarrow> jsstr \<Rightarrow> fields \<Rightarrow> fields \<Rightarrow> jsval act" where
  "read_json client path params query = send_unwrap client GET path params query None"

text \<open>\<^verbatim>\<open>page.k ?? d\<close>\<close>

definition prop_or :: "jsval \<Rightarrow> jsstr \<Rightarrow> json \<Rightarrow> json res" where
  "prop_or v k d = rbind (get_prop v k) (\<lambda>x. Inr (coalesce x d))"

abbreviation data_of :: "jsval \<Rightarrow> json res" where
  "data_of v \<equiv> prop_or v (js ''data'') (JArr [])"

abbreviation next_cursor_of :: "jsval \<Rightarrow> json res" where
  "next_cursor_of v \<equiv> prop_or v (js ''next_cursor'') (JStr [])"

text \<open>The receiver of an array method.\<close>

fun elements :: "json \<Rightarrow> json list res" where
  "elements (JArr vs) = Inr vs"
| "elements v = Inl TypeError"

text \<open>\<^verbatim>\<open>rows.map((p) => ({ name: p.name }))\<close> for the given names.\<close>

definition pick_fields :: "jsstr list \<Rightarrow> json \<Rightarrow> json res" where
  "pick_fields ks row = rbind (rmap (\<lambda>k. rbind (get_prop (Some row) k) (\<lambda>v. Inr (k, v))) ks) (\<lambda>kvs.
     Inr (JObj (defined_fields kvs)))"

definition pick_rows :: "jsstr list \<Rightarrow> json \<Rightarrow> json res" where
  "pick_rows ks rows = rbind (elements rows) (\<lambda>vs. rbind (rmap (pick_fields ks) vs) (\<lambda>ys. Inr (JArr ys)))"

text \<open>\<^verbatim>\<open>Promise.all\<close> of three calls: all are started; when some reject, the one that settles first decides,
  which \<open>settled\<close> selects among them.\<close>

definition rejected :: "'a res \<Rightarrow> jserror list" where
  "rejected r = (case r of Inl e \<Rightarrow> [e] | Inr x \<Rightarrow> [])"

definition promise_all3 :: "nat \<Rightarrow> 'a act \<Rightarrow> 'b act \<Rightarrow> 'c act \<Rightarrow> ('a \<times> 'b \<times> 'c) act" where
  "promise_all3 settled m1 m2 m3 = (\<lambda>pf w.
     let (r1, w1) = m1 pf w; (r2, w2) = m2 pf w1; (r3, w3) = m3 pf w2;
         es = rejected r1 @ rejected r2 @ rejected r3
     in (case (r1, r2, r3) of
           (Inr a, Inr b, Inr c) \<Rightarrow> Inr (a, b, c)
         | _ \<Rightarrow> Inl (es ! (settled mod length es)), w3))"

section \<open>The contract of a page\<close>

definition read_request :: "areq \<Rightarrow> bool" where
  "read_request q \<longleftrightarrow> rq_method q = GET \<and> rq_body q = None"

definition no_access :: "jserror \<Rightarrow> bool" where
  "no_access e \<longleftrightarrow> is_AdminError e \<and> err_status e \<in> {401, 403}"

locale page_load =
  fixes load :: "'a act"
  assumes reads_only: "load pf w = (r, w') \<Longrightarrow>
    \<exists>rs. w' = w\<lparr>w_sent := w_sent w @ rs\<rparr> \<and>
      (\<forall>q\<in>set rs. read_request q \<and> (\<exists>c. client_of pf w = Some c \<and> from_client c q))"
begin

lemma keeps_session:
  assumes "load pf w = (r, w')"
  shows "w_cookie w' = w_cookie w" "w_revalidated w' = w_revalidated w"
    "session_of pf w' = session_of pf w" "client_of pf w' = client_of pf w"
  using reads_only [OF assms] by (auto simp: session_of_def client_of_def split: option.splits)

lemma without_client:
  assumes "load pf w = (r, w')" "client_of pf w = None"
  shows "w' = w"
proof -
  obtain rs where rs: "w' = w\<lparr>w_sent := w_sent w @ rs\<rparr>"
    "\<forall>q\<in>set rs. read_request q \<and> (\<exists>c. client_of pf w = Some c \<and> from_client c q)"
    using reads_only [OF assms(1)] by blast
  from rs(2) assms(2) have "rs = []" by (cases rs) auto
  with rs(1) show ?thesis by simp
qed

lemma as_action: "atomic_action load (\<lambda>_. True) []"
  by unfold_locales (use reads_only in \<open>fastforce+\<close>)

end

locale guarded_page = page_load load for load :: "'a act" +
  assumes guarded: "load pf w = (Inl e, w') \<Longrightarrow> \<not> no_access e"

section \<open>Discharging the contract\<close>

text \<open>A computation that only sends requests satisfying a predicate; one that only reads through a given
  client; one that only reads through the client of the session.\<close>

definition sending :: "(areq \<Rightarrow> bool) \<Rightarrow> 'a act \<Rightarrow> bool" where
  "sending P m \<longleftrightarrow> (\<forall>pf w. \<exists>rs. snd (m pf w) = w\<lparr>w_sent := w_sent w @ rs\<rparr> \<and> (\<forall>q\<in>set rs. P q))"

abbreviation getting :: "admin_client \<Rightarrow> 'a act \<Rightarrow> bool" where
  "getting c \<equiv> sending (\<lambda>q. read_request q \<and> from_client c q)"

definition loads :: "'a act \<Rightarrow> bool" where
  "loads m \<longleftrightarrow> (\<forall>pf w. \<exists>rs. snd (m pf w) = w\<lparr>w_sent := w_sent w @ rs\<rparr> \<and>
     (\<forall>q\<in>set rs. read_request q \<and> (\<exists>c. client_of pf w = Some c \<and> from_client c q)))"

definition handled :: "'a act \<Rightarrow> bool" where
  "handled m \<longleftrightarrow> (\<forall>pf w e w'. m pf w = (Inl e, w') \<longrightarrow> \<not> no_access e)"

named_theorems page_intros

lemma unchanged_loads:
  assumes "\<And>pf w. snd (m pf w) = w"
  shows "loads m" "sending P m"
  using assms by (auto simp: loads_def sending_def intro!: exI [of _ "[]"])

lemma unchanged_intros [page_intros]:
  "loads (ret x)" "loads (lift_res r)" "loads (throw e)" "loads (asks f)" "loads getSession"
  "sending P (ret x)" "sending P (lift_res r)" "sending P (throw e)" "sending P (asks f)" "sending P getSession"
  by (intro unchanged_loads; simp add: getSession_run split: option.split)+

lemma sending_bnd [page_intros]:
  assumes "sending P m" "\<And>x. sending P (f x)"
  shows "sending P (bnd m f)"
  unfolding sending_def
proof (intro allI)
  fix pf w
  obtain r w1 where m: "m pf w = (r, w1)" by fastforce
  with assms(1) obtain rs where rs: "w1 = w\<lparr>w_sent := w_sent w @ rs\<rparr>" "\<forall>q\<in>set rs. P q"
    unfolding sending_def by (metis snd_conv)
  show "\<exists>rs. snd (bnd m f pf w) = w\<lparr>w_sent := w_sent w @ rs\<rparr> \<and> (\<forall>q\<in>set rs. P q)"
  proof (cases r)
    case (Inl e)
    with m rs show ?thesis by (auto simp: bnd_Inl)
  next
    case (Inr x)
    obtain rs2 where "snd (f x pf w1) = w1\<lparr>w_sent := w_sent w1 @ rs2\<rparr>" "\<forall>q\<in>set rs2. P q"
      using assms(2) [of x] unfolding sending_def by blast
    with m rs Inr show ?thesis by (intro exI [of _ "rs @ rs2"]) (auto simp: bnd_Inr)
  qed
qed

lemma loads_bnd [page_intros]:
  assumes "loads m" "\<And>x. loads (f x)"
  shows "loads (bnd m f)"
  unfolding loads_def
proof (intro allI)
  fix pf w
  let ?ok = "\<lambda>w q. read_request q \<and> (\<exists>c. client_of pf w = Some c \<and> from_client c q)"
  obtain r w1 where m: "m pf w = (r, w1)" by fastforce
  with assms(1) obtain rs where rs: "w1 = w\<lparr>w_sent := w_sent w @ rs\<rparr>" "\<forall>q\<in>set rs. ?ok w q"
    unfolding loads_def by (metis snd_conv)
  show "\<exists>rs. snd (bnd m f pf w) = w\<lparr>w_sent := w_sent w @ rs\<rparr> \<and> (\<forall>q\<in>set rs. ?ok w q)"
  proof (cases r)
    case (Inl e)
    with m rs show ?thesis by (auto simp: bnd_Inl)
  next
    case (Inr x)
    obtain rs2 where "snd (f x pf w1) = w1\<lparr>w_sent := w_sent w1 @ rs2\<rparr>" "\<forall>q\<in>set rs2. ?ok w1 q"
      using assms(2) [of x] unfolding loads_def by blast
    with m rs Inr show ?thesis by (intro exI [of _ "rs @ rs2"]) (auto simp: bnd_Inr)
  qed
qed

text \<open>A catch block is entered with what the try block has sent.\<close>

lemma try_as_bnd:
  "snd (try_catch m h pf w) = snd (bnd (\<lambda>pf w. (Inr (fst (m pf w)), snd (m pf w)))
     (\<lambda>r. case r of Inl e \<Rightarrow> h e | Inr x \<Rightarrow> ret x) pf w)"
  by (cases "m pf w") (auto simp: try_catch_apply bnd_apply split: sum.splits)

lemma loads_try [page_intros]:
  assumes "loads m" "\<And>e. loads (h e)"
  shows "loads (try_catch m h)"
proof -
  have "loads (\<lambda>pf w. (Inr (fst (m pf w)), snd (m pf w)))" using assms(1) by (simp add: loads_def)
  moreover have "loads (case r of Inl e \<Rightarrow> h e | Inr x \<Rightarrow> ret x)" for r
    by (cases r) (auto intro: assms(2) unchanged_intros)
  ultimately show ?thesis
    using loads_bnd [of "\<lambda>pf w. (Inr (fst (m pf w)), snd (m pf w))" "\<lambda>r. case r of Inl e \<Rightarrow> h e | Inr x \<Rightarrow> ret x"]
    unfolding loads_def try_as_bnd by blast
qed

lemma sending_try [page_intros]:
  assumes "sending P m" "\<And>e. sending P (h e)"
  shows "sending P (try_catch m h)"
proof -
  have "sending P (\<lambda>pf w. (Inr (fst (m pf w)), snd (m pf w)))" using assms(1) by (simp add: sending_def)
  moreover have "sending P (case r of Inl e \<Rightarrow> h e | Inr x \<Rightarrow> ret x)" for r
    by (cases r) (auto intro: assms(2) unchanged_intros)
  ultimately show ?thesis
    using sending_bnd [of P "\<lambda>pf w. (Inr (fst (m pf w)), snd (m pf w))" "\<lambda>r. case r of Inl e \<Rightarrow> h e | Inr x \<Rightarrow> ret x"]
    unfolding sending_def try_as_bnd by blast
qed

lemma sending_call [page_intros]:
  assumes "P (mk_req c m path params query body)"
  shows "sending P (call c m path params query body)"
proof -
  have "snd (call c m path params query body pf w) = w\<lparr>w_sent := w_sent w @ [mk_req c m path params query body]\<rparr>" for pf w
    by (simp add: call_def Let_def split: fetch_outcome.split)
  with assms show ?thesis
    unfolding sending_def by (intro allI exI [of _ "[mk_req c m path params query body]"]) simp
qed

lemma get_request [page_intros]:
  "read_request (mk_req c GET path params query None) \<and> from_client c (mk_req c GET path params query None)"
  by (simp add: read_request_def from_client_def mk_req_def)

lemma sending_read_json [page_intros]:
  "P (mk_req c GET path params query None) \<Longrightarrow> sending P (read_json c path params query)"
  unfolding read_json_def send_unwrap_def by (intro page_intros)

lemma sending_client [page_intros]: "sending P serverAdminClient"
  by (rule unchanged_loads) (metis serverAdminClient_run option.case_eq_if snd_conv)

lemma loads_client [page_intros]:
  assumes "\<And>c. getting c (body c)"
  shows "loads (bnd serverAdminClient body)"
  unfolding loads_def
proof (intro allI)
  fix pf w
  show "\<exists>rs. snd (bnd serverAdminClient body pf w) = w\<lparr>w_sent := w_sent w @ rs\<rparr> \<and>
     (\<forall>q\<in>set rs. read_request q \<and> (\<exists>c. client_of pf w = Some c \<and> from_client c q))"
  proof (cases "client_of pf w")
    case None
    then have "snd (bnd serverAdminClient body pf w) = w"
      using serverAdminClient_run [of pf w] by (auto simp: bnd_apply)
    then show ?thesis by (intro exI [of _ "[]"]) simp
  next
    case (Some c)
    then have "bnd serverAdminClient body pf w = body c pf w"
      using serverAdminClient_run [of pf w] by (auto simp: bnd_apply)
    with Some assms [of c] show ?thesis unfolding sending_def by metis
  qed
qed

lemma control_intros [page_intros]:
  "(b \<Longrightarrow> loads m) \<Longrightarrow> (\<not> b \<Longrightarrow> loads m') \<Longrightarrow> loads (if b then m else m')"
  "(b \<Longrightarrow> sending P m) \<Longrightarrow> (\<not> b \<Longrightarrow> sending P m') \<Longrightarrow> sending P (if b then m else m')"
  "(b \<Longrightarrow> handled m) \<Longrightarrow> (\<not> b \<Longrightarrow> handled m') \<Longrightarrow> handled (if b then m else m')"
  "(\<And>a b. p = (a, b) \<Longrightarrow> loads (f a b)) \<Longrightarrow> loads (case p of (a, b) \<Rightarrow> f a b)"
  "(\<And>a b. p = (a, b) \<Longrightarrow> sending P (f a b)) \<Longrightarrow> sending P (case p of (a, b) \<Rightarrow> f a b)"
  "(\<And>a b. p = (a, b) \<Longrightarrow> handled (f a b)) \<Longrightarrow> handled (case p of (a, b) \<Rightarrow> f a b)"
  "loads g \<Longrightarrow> (\<And>x. loads (h x)) \<Longrightarrow> loads (case v of None \<Rightarrow> g | Some x \<Rightarrow> h x)"
  "sending P g \<Longrightarrow> (\<And>x. sending P (h x)) \<Longrightarrow> sending P (case v of None \<Rightarrow> g | Some x \<Rightarrow> h x)"
  by (auto split: prod.split option.split)

lemma sending_all3 [page_intros]:
  assumes "sending P m1" "sending P m2" "sending P m3"
  shows "sending P (promise_all3 k m1 m2 m3)"
proof -
  let ?last = "\<lambda>m pf w. (Inr (), snd (m pf w))"
  have "sending P (?last m1)" "sending P (?last m2)" "sending P (?last m3)"
    using assms by (simp_all add: sending_def)
  then have "sending P (bnd (?last m1) (\<lambda>_. bnd (?last m2) (\<lambda>_. ?last m3)))" by (intro sending_bnd)
  moreover have "snd (promise_all3 k m1 m2 m3 pf w) = snd (bnd (?last m1) (\<lambda>_. bnd (?last m2) (\<lambda>_. ?last m3)) pf w)" for pf w
    by (simp add: promise_all3_def bnd_apply split_beta Let_def)
  ultimately show ?thesis unfolding sending_def by simp
qed

lemma handled_intros [page_intros]:
  "handled (ret a)" "handled (asks f)" "handled getSession"
  "handled m \<Longrightarrow> (\<And>x. handled (k x)) \<Longrightarrow> handled (bnd m k)"
  by (auto simp: handled_def no_access_def getSession_run bnd_apply split: option.splits prod.splits sum.splits)

text \<open>An evaluation that can only fail with an error of the language, not with one of the admin API.\<close>

definition internal :: "'a res \<Rightarrow> bool" where
  "internal r \<longleftrightarrow> (\<forall>e. r = Inl e \<longrightarrow> \<not> is_AdminError e)"

lemma internal_intros [page_intros]:
  "internal (Inr x)" "internal (get_prop v k)" "internal (elements w)" "internal (toISOString d)"
  "internal m \<Longrightarrow> (\<And>y. internal (f y)) \<Longrightarrow> internal (rbind m f)"
  by (cases "(v, k)" rule: get_prop.cases; cases w rule: elements.cases;
      auto simp: internal_def rbind_Inl_conv toISOString_def split: option.splits)+

lemma internal_prop_or [page_intros]: "internal (prop_or v k d)"
  unfolding prop_or_def by (intro page_intros)

lemma handled_lift [page_intros]: "internal r \<Longrightarrow> handled (lift_res r)"
  by (auto simp: handled_def no_access_def internal_def)

lemma internal_if [page_intros]:
  "(b \<Longrightarrow> internal m) \<Longrightarrow> (\<not> b \<Longrightarrow> internal m') \<Longrightarrow> internal (if b then m else m')"
  "internal g \<Longrightarrow> (\<And>x. internal (h x)) \<Longrightarrow> internal (case v of None \<Rightarrow> g | Some x \<Rightarrow> h x)"
  by (auto split: option.split)

lemma internal_encode [page_intros]: "internal (encodeURIComponent s)"
  by (induction s rule: encodeURIComponent.induct)
    (auto simp: internal_def rbind_Inl_conv split: if_splits list.splits)

lemma internal_decode [page_intros]: "internal (decodeURIComponent s)"
  by (induction s rule: decodeURIComponent.induct)
    (auto simp: internal_def rbind_Inl_conv split: if_splits option.splits)

lemma page_error_intros [page_intros]:
  "loads (page_error err)" "handled (page_error err)" "sending P (page_error err)"
proof -
  have h: "loads (handleAdminError err)" "handled (handleAdminError err)" "sending P (handleAdminError err)"
    by (cases err; auto simp: handleAdminError_def handled_def no_access_def redirect_def
        intro: unchanged_intros split: if_splits)+
  show "loads (page_error err)" "handled (page_error err)" "sending P (page_error err)"
    unfolding page_error_def ForbiddenNotice_def Let_def by (intro page_intros h)+
qed

lemma page_try_intros [page_intros]:
  assumes "loads body" "\<And>x. loads (rest x)" "\<And>x. handled (rest x)"
  shows "loads (page_try body rest)" "handled (page_try body rest)"
proof -
  have rest: "loads (case r of Inl p \<Rightarrow> ret p | Inr x \<Rightarrow> rest x)" "handled (case r of Inl p \<Rightarrow> ret p | Inr x \<Rightarrow> rest x)" for r
    by (cases r; auto intro: assms page_intros)+
  have "loads (try_catch (bnd body (\<lambda>x. ret (Inr x))) (\<lambda>err. bnd (page_error err) (\<lambda>p. ret (Inl p))))"
    by (intro page_intros assms(1))
  from loads_bnd [OF this rest(1)] show "loads (page_try body rest)" by (simp add: page_try_def)
  have "handled (bnd (page_error err) (\<lambda>p. ret (Inl p)))" for err by (intro page_intros)
  then have "handled (try_catch (bnd body (\<lambda>x. ret (Inr x))) (\<lambda>err. bnd (page_error err) (\<lambda>p. ret (Inl p))))"
    by (fastforce simp: handled_def try_catch_apply split: prod.splits sum.splits)
  from handled_intros(4) [OF this rest(2)] show "handled (page_try body rest)" by (simp add: page_try_def)
qed

lemma sending_page_try [page_intros]:
  assumes "sending P body" "\<And>x. sending P (rest x)"
  shows "sending P (page_try body rest)"
proof -
  have "sending P (case r of Inl p \<Rightarrow> ret p | Inr x \<Rightarrow> rest x)" for r
    by (cases r) (auto intro: assms page_intros)
  then show ?thesis unfolding page_try_def by (intro page_intros assms(1))
qed

lemma page_loadI: "loads m \<Longrightarrow> page_load m"
  by unfold_locales (metis loads_def snd_conv)

lemma guarded_pageI: "loads m \<Longrightarrow> handled m \<Longrightarrow> guarded_page m"
  by (intro guarded_page.intro guarded_page_axioms.intro page_loadI) (auto simp: handled_def)

lemma loads_fetchDetailByRow [page_intros]: "loads (fetchDetailByRow rowID)"
proof -
  have "loads (case err of AdminError status ty m \<Rightarrow> if status = 404 then ret x else throw err | _ \<Rightarrow> throw err)" for err and x :: 'a
    by (cases err) (auto intro: page_intros)
  then show ?thesis
    unfolding fetchDetailByRow_def read_json_def [symmetric] by (intro page_intros)
qed

section \<open>Running a page\<close>

definition notice_for :: "platform \<Rightarrow> jsstr \<Rightarrow> jsstr" where
  "notice_for pf message =
     (case me_key (mapBackendError message) of
        Some key \<Rightarrow> pf_translate pf (js ''errors'') key
      | None \<Rightarrow> me_fallback (mapBackendError message))"

lemma mapBackendError_key: "me_key (mapBackendError m) = Some k \<Longrightarrow> k \<noteq> []"
  by (auto simp: mapBackendError_def Let_def js_includes_def split: if_splits option.splits)

lemma ForbiddenNotice_run: "ForbiddenNotice message pf w = (Inr (notice_for pf message), w)"
  by (auto simp: ForbiddenNotice_def notice_for_def bnd_apply Let_def dest: mapBackendError_key split: option.split)

lemma page_error_run:
  "page_error e pf w =
     (case e of
        AdminError status ty m \<Rightarrow>
          if status = 401 then (Inl (NextRedirect (js ''/logout'')), w)
          else if status = 403 then (Inr (Notice (notice_for pf m)), w) else (Inl e, w)
      | _ \<Rightarrow> (Inl e, w))"
  by (cases e) (simp_all add: page_error_def handleAdminError_def bnd_apply ForbiddenNotice_run)

lemma page_try_run:
  "page_try body rest pf w =
     (case body pf w of (Inl e, w1) \<Rightarrow> page_error e pf w1 | (Inr x, w1) \<Rightarrow> rest x pf w1)"
proof (cases "body pf w")
  case (Pair r w1)
  then show ?thesis
    by (cases r) (auto simp: page_try_def bnd_apply try_catch_apply split: prod.splits sum.splits)
qed

lemma bnd_Inr_conv: "bnd m f pf w = (Inr y, w') \<longleftrightarrow> (\<exists>x w1. m pf w = (Inr x, w1) \<and> f x pf w1 = (Inr y, w'))"
  by (cases "m pf w") (auto simp: bnd_apply split: sum.splits)

lemma page_error_Shown: "page_error e pf w \<noteq> (Inr (Shown n ps), w')"
  by (cases e) (auto simp: page_error_run)

text \<open>A page that is shown was read without an error.\<close>

lemma page_try_Shown:
  "page_try body rest pf w = (Inr (Shown n ps), w') \<longleftrightarrow>
     (\<exists>x w1. body pf w = (Inr x, w1) \<and> rest x pf w1 = (Inr (Shown n ps), w'))"
  using page_error_Shown by (cases "body pf w") (auto simp: page_try_run split: sum.splits)

lemma client_run:
  assumes "client_of pf w = Some c"
  shows "bnd serverAdminClient body pf w = body c pf w"
  using serverAdminClient_run [of pf w] assms by (auto simp: bnd_apply)

lemma read_json_run:
  "read_json c path params query pf w =
     (let w1 = w\<lparr>w_sent := w_sent w @ [mk_req c GET path params query None]\<rparr>
      in case pf_fetch pf (w_sent w1) of
           FetchThrow e \<Rightarrow> (Inl e, w1)
         | FetchResult r \<Rightarrow> (unwrap r, w1))"
  by (simp add: read_json_def send_unwrap_def call_def bnd_apply Let_def split: fetch_outcome.split)

lemma prop_or_run: "prop_or v k d = (if is_nullish v then Inl TypeError else Inr (coalesce (opt_prop v k) d))"
  by (simp add: prop_or_def get_prop_Inr get_prop_Inl)

end
