(* ===== verification/Pages_Config.thy ===== *)
theory Pages_Config
  imports Page_Load
begin

text \<open>
  The pages of the gateway configuration, of the organisation and of the overview
  (\<^verbatim>\<open>app/[locale]/(dashboard)/*/page.tsx\<close>), one definition per page: which requests it sends, with which
  query, what it hands to its client component and what it does with a refusal. Each page is interpreted in the
  contract of \<open>Page_Load\<close>.
\<close>

section \<open>Lists with a cursor\<close>

text \<open>The body that several list pages share word by word, up to the path and the component.\<close>

definition list_page :: "jsstr \<Rightarrow> jsstr \<Rightarrow> form \<Rightarrow> page act" where
  "list_page path name sp =
     page_try
       (bnd serverAdminClient (\<lambda>client.
        bnd (read_json client path [] (list_query sp)) (\<lambda>page.
        bnd (lift_res (data_of page)) (\<lambda>rows.
        bnd (lift_res (next_cursor_of page)) (\<lambda>nextCursor.
        ret (rows, nextCursor))))))
       (\<lambda>(rows, nextCursor). ret (Shown name [(js ''rows'', Some rows), (js ''nextCursor'', Some nextCursor)]))"

definition ProvidersPage :: "form \<Rightarrow> page act" where
  "ProvidersPage sp = list_page (js ''/api/v1/providers'') (js ''ProvidersPageClient'') sp"

definition TenantsPage :: "form \<Rightarrow> page act" where
  "TenantsPage sp = list_page (js ''/api/v1/tenants'') (js ''TenantsPageClient'') sp"

definition GroupsPage :: "form \<Rightarrow> page act" where
  "GroupsPage sp = list_page (js ''/api/v1/groups'') (js ''GroupsPageClient'') sp"

definition PluginsPage :: "form \<Rightarrow> page act" where
  "PluginsPage sp = list_page (js ''/api/v1/plugins'') (js ''PluginsPageClient'') sp"

definition ConfigHistoryPage :: "form \<Rightarrow> page act" where
  "ConfigHistoryPage sp = list_page (js ''/api/v1/config/history'') (js ''ConfigHistoryPageClient'') sp"

section \<open>Lists with further reads\<close>

definition OperatorsPage :: "form \<Rightarrow> page act" where
  "OperatorsPage sp =
     page_try
       (bnd serverAdminClient (\<lambda>client.
        bnd (read_json client (js ''/api/v1/operators'') [] (list_query sp)) (\<lambda>page.
        bnd (lift_res (data_of page)) (\<lambda>rows.
        bnd (read_json client (js ''/api/v1/tenants'') [] []) (\<lambda>tenantPage.
        bnd (lift_res (data_of tenantPage)) (\<lambda>tenants.
        bnd (read_json client (js ''/api/v1/roles'') [] []) (\<lambda>rolesPage.
        bnd (lift_res (data_of rolesPage)) (\<lambda>roles.
        ret (rows, tenants, roles)))))))))
       (\<lambda>(rows, tenants, roles). ret (Shown (js ''OperatorsPageClient'')
          [(js ''rows'', Some rows), (js ''tenants'', Some tenants), (js ''roles'', Some roles)]))"

definition RoutesPage :: "form \<Rightarrow> page act" where
  "RoutesPage sp =
     page_try
       (bnd serverAdminClient (\<lambda>client.
        bnd (read_json client (js ''/api/v1/routes'') [] (list_query sp)) (\<lambda>page.
        bnd (lift_res (data_of page)) (\<lambda>rows.
        bnd (lift_res (next_cursor_of page)) (\<lambda>nextCursor.
        bnd (read_json client (js ''/api/v1/models'') [] []) (\<lambda>modelPage.
        bnd (lift_res (rbind (data_of modelPage) (pick_rows [js ''alias'', js ''upstreams'']))) (\<lambda>models.
        bnd (read_json client (js ''/api/v1/providers'') [] []) (\<lambda>providerPage.
        bnd (lift_res (rbind (data_of providerPage) (pick_rows [js ''name'']))) (\<lambda>providers.
        ret (rows, nextCursor, models, providers))))))))))
       (\<lambda>(rows, nextCursor, models, providers). ret (Shown (js ''RoutesPageClient'')
          [(js ''rows'', Some rows), (js ''nextCursor'', Some nextCursor), (js ''models'', Some models),
           (js ''providers'', Some providers)]))"

definition RolesPage :: "page act" where
  "RolesPage =
     page_try
       (bnd serverAdminClient (\<lambda>client.
        bnd (read_json client (js ''/api/v1/roles'') [] []) (\<lambda>rolesResp.
        bnd (lift_res (data_of rolesResp)) (\<lambda>roles.
        bnd (read_json client (js ''/api/v1/permissions'') [] []) (\<lambda>permsResp.
        bnd (lift_res (data_of permsResp)) (\<lambda>permissions.
        ret (roles, permissions)))))))
       (\<lambda>(roles, permissions). ret (Shown (js ''RolesPageClient'')
          [(js ''roles'', Some roles), (js ''permissions'', Some permissions)]))"

definition DataPlaneNodesPage :: "page act" where
  "DataPlaneNodesPage =
     page_try
       (bnd serverAdminClient (\<lambda>client.
        bnd (read_json client (js ''/api/v1/data-plane-nodes'') [] []) (\<lambda>page. lift_res (data_of page))))
       (\<lambda>rows. ret (Shown (js ''DataPlaneNodesPageClient'') [(js ''rows'', Some rows)]))"

definition SettingsPage :: "page act" where
  "SettingsPage =
     page_try
       (bnd serverAdminClient (\<lambda>client. read_json client (js ''/api/v1/gateway-settings'') [] []))
       (\<lambda>settings. ret (Shown (js ''SettingsClient'') [(js ''initial'', settings)]))"

section \<open>Models\<close>

abbreviation all_models :: fields where
  "all_models \<equiv> [(js ''limit'', JNum (Fin 1000))]"

text \<open>The provider names, read only by those who may write.\<close>

definition provider_names :: "admin_client \<Rightarrow> bool \<Rightarrow> json act" where
  "provider_names client canWrite =
     (if canWrite then
        bnd (read_json client (js ''/api/v1/providers'') [] []) (\<lambda>providerPage.
        lift_res (rbind (data_of providerPage) (pick_rows [js ''name''])))
      else ret (JArr []))"

definition ModelsPage :: "form \<Rightarrow> page act" where
  "ModelsPage sp = bnd getSession (\<lambda>session.
     let canWrite = (sd_scopeKind session = Some (js ''global''))
     in page_try
       (bnd serverAdminClient (\<lambda>client.
        bnd (read_json client (js ''/api/v1/models'') [] all_models) (\<lambda>page.
        bnd (lift_res (data_of page)) (\<lambda>models.
        bnd (provider_names client canWrite) (\<lambda>providers.
        ret (models, providers))))))
       (\<lambda>(models, providers). ret (Shown (js ''ModelsPageClient'')
          [(js ''models'', Some models), (js ''providers'', Some providers),
           (js ''query'', Some (JStr (form_raw sp (js ''q'')))),
           (js ''capability'', Some (JStr (form_raw sp (js ''capability'')))),
           (js ''canWrite'', Some (JBool canWrite))])))"

text \<open>\<^verbatim>\<open>all.find((m) => m.alias === decoded) ?? null\<close>\<close>

fun find_alias :: "jsstr \<Rightarrow> json list \<Rightarrow> json res" where
  "find_alias alias [] = Inr JNull"
| "find_alias alias (m # ms) = rbind (get_prop (Some m) (js ''alias'')) (\<lambda>a.
     if a = Some (JStr alias) then Inr m else find_alias alias ms)"

definition find_model :: "jsval \<Rightarrow> jsstr \<Rightarrow> json res" where
  "find_model page decoded = rbind (data_of page) (\<lambda>rows. rbind (elements rows) (find_alias decoded))"

text \<open>The parameter of the route is escaped; a malformed escape throws before anything is read.\<close>

definition ModelDetailPage :: "jsstr \<Rightarrow> page act" where
  "ModelDetailPage alias = bnd (lift_res (decodeURIComponent alias)) (\<lambda>decoded.
     bnd getSession (\<lambda>session.
     let canWrite = (sd_scopeKind session = Some (js ''global''))
     in page_try
       (bnd serverAdminClient (\<lambda>client.
        bnd (read_json client (js ''/api/v1/models'') [] all_models) (\<lambda>page.
        bnd (lift_res (find_model page decoded)) (\<lambda>model.
        bnd (provider_names client canWrite) (\<lambda>providers.
        ret (model, providers))))))
       (\<lambda>(model, providers). ret (Shown (js ''ModelDetailClient'')
          [(js ''model'', Some model), (js ''canWrite'', Some (JBool canWrite)), (js ''providers'', Some providers)]))))"

definition ModelCatalogPage :: "form \<Rightarrow> page act" where
  "ModelCatalogPage sp =
     page_try
       (bnd serverAdminClient (\<lambda>client.
        bnd (read_json client (js ''/api/v1/models'') [] all_models) (\<lambda>page. lift_res (data_of page))))
       (\<lambda>models. ret (Shown (js ''ModelCatalogClient'')
          [(js ''models'', Some models), (js ''query'', Some (JStr (form_raw sp (js ''q'')))),
           (js ''capability'', Some (JStr (form_raw sp (js ''capability''))))]))"

definition CatalogDetailPage :: "jsstr \<Rightarrow> page act" where
  "CatalogDetailPage alias = bnd (lift_res (decodeURIComponent alias)) (\<lambda>decoded.
     page_try
       (bnd serverAdminClient (\<lambda>client.
        bnd (read_json client (js ''/api/v1/models'') [] all_models) (\<lambda>page. lift_res (find_model page decoded))))
       (\<lambda>model. ret (Shown (js ''ModelDetailClient'') [(js ''model'', Some model)])))"

section \<open>Applications\<close>

text \<open>The attribution read that runs beside the lists: only a 401 stops the page, any other failure is shown in
  its place.\<close>

definition attribution_read :: "admin_client \<Rightarrow> date \<Rightarrow> date \<Rightarrow> bool \<Rightarrow> (jsval \<times> jsval) act" where
  "attribution_read client from to canRead =
     (if canRead then
        bnd (lift_res (toISOString from)) (\<lambda>f. bnd (lift_res (toISOString to)) (\<lambda>t.
        try_catch
          (bnd (read_json client (js ''/api/v1/usage/attribution'') [] [(js ''from'', JStr f), (js ''to'', JStr t)])
             (\<lambda>v. ret (v, Some JNull)))
          (\<lambda>err. if is_AdminError err \<and> err_status err = 401 then throw err
             else ret (Some JNull,
                  Some (JStr (if is_AdminError err \<and> err_status err = 403 then js ''forbidden'' else js ''error''))))))
      else ret (Some JNull, Some JNull))"

definition ApplicationsPage :: "nat \<Rightarrow> int \<Rightarrow> form \<Rightarrow> page act" where
  "ApplicationsPage settled now sp = bnd getSession (\<lambda>session.
     let canReadAttribution = (sd_scopeKind session = Some (js ''tenant'') \<and> has session (js ''usage.read''));
         to = Some now; from = TimeClip (now - 24 * 60 * 60 * 1000)
     in page_try
       (bnd serverAdminClient (\<lambda>client.
        bnd (promise_all3 settled
               (call client GET (js ''/api/v1/applications'') [] (list_query sp) None)
               (call client GET (js ''/api/v1/groups'') [] [(js ''limit'', JNum (Fin 500))] None)
               (attribution_read client from to canReadAttribution)) (\<lambda>(appsRes, groupsRes, attribution, attributionError).
        bnd (lift_res (unwrap appsRes)) (\<lambda>page.
        bnd (lift_res (unwrap groupsRes)) (\<lambda>groupsPage.
        bnd (lift_res (data_of page)) (\<lambda>rows.
        bnd (lift_res (next_cursor_of page)) (\<lambda>nextCursor.
        bnd (lift_res (data_of groupsPage)) (\<lambda>groups.
        ret (rows, nextCursor, groups, attribution, attributionError)))))))))
       (\<lambda>(rows, nextCursor, groups, attribution, attributionError). ret (Shown (js ''ApplicationsPageClient'')
          [(js ''rows'', Some rows), (js ''nextCursor'', Some nextCursor), (js ''groups'', Some groups),
           (js ''attribution'', attribution), (js ''attributionError'', attributionError)])))"

section \<open>Quotas and overview\<close>

text \<open>The quota page shows whatever went wrong; every error of the model is an \<^verbatim>\<open>Error\<close>.\<close>

definition QuotasPage :: "page act" where
  "QuotasPage = bnd getSession (\<lambda>session.
     let tenantName = (case sd_tenantName session of None \<Rightarrow> [] | Some n \<Rightarrow> n);
         scope = (if tenantName \<noteq> [] then js ''tenant:'' @ tenantName else [])
     in bnd
       (if scope \<noteq> [] then
          try_catch
            (bnd serverAdminClient (\<lambda>client.
             bnd (read_json client (js ''/api/v1/quotas'') [] [(js ''scope'', JStr scope)]) (\<lambda>data.
             ret (coalesce (opt_prop data (js ''balance'')) (JNum (Fin 0)),
                  coalesce (opt_prop data (js ''currency'')) (JStr []), []))))
            (\<lambda>err. bnd (asks (\<lambda>pf. error_message pf err)) (\<lambda>m. ret (JNum (Fin 0), JStr [], m)))
        else ret (JNum (Fin 0), JStr [], []))
       (\<lambda>(balance, currency, fetchError). ret (Shown (js ''QuotasPageClient'')
          [(js ''scope'', Some (JStr scope)), (js ''balance'', Some balance), (js ''currency'', Some currency),
           (js ''fetchError'', Some (JStr fetchError))])))"

definition known_range :: "jsstr option \<Rightarrow> jsstr" where
  "known_range raw =
     (case raw of
        Some r \<Rightarrow>
          if r \<in> set [js ''today'', js ''yesterday'', js ''week'', js ''month'', js ''last_month''] then r else js ''today''
      | None \<Rightarrow> js ''today'')"

definition OverviewPage :: "zone \<Rightarrow> int \<Rightarrow> form \<Rightarrow> page act" where
  "OverviewPage z now sp =
     (let rng = known_range (form_get sp (js ''range''))
      in bnd (lift_res (rangeToFromTo z now rng)) (\<lambda>ft.
         page_try
           (bnd serverAdminClient (\<lambda>client.
            bnd (read_json client (js ''/api/v1/overview'') []
                   (defined_fields [(js ''from'', map_option JStr (ft_from ft)), (js ''to'', map_option JStr (ft_to ft))])) (\<lambda>page.
            ret (coalesce page (JObj [])))))
           (\<lambda>data. ret (Shown (js ''OverviewPageClient'') [(js ''data'', Some data), (js ''range'', Some (JStr rng))]))))"

section \<open>Interpretations\<close>

lemmas page_defs = Let_def list_page_def provider_names_def attribution_read_def

lemma list_page_guarded: "guarded_page (list_page path name sp)"
  unfolding list_page_def by (intro guarded_pageI page_intros)

interpretation ProvidersPage: guarded_page "ProvidersPage sp" for sp
  unfolding ProvidersPage_def by (rule list_page_guarded)

interpretation TenantsPage: guarded_page "TenantsPage sp" for sp
  unfolding TenantsPage_def by (rule list_page_guarded)

interpretation GroupsPage: guarded_page "GroupsPage sp" for sp
  unfolding GroupsPage_def by (rule list_page_guarded)

interpretation PluginsPage: guarded_page "PluginsPage sp" for sp
  unfolding PluginsPage_def by (rule list_page_guarded)

interpretation ConfigHistoryPage: guarded_page "ConfigHistoryPage sp" for sp
  unfolding ConfigHistoryPage_def by (rule list_page_guarded)

interpretation OperatorsPage: guarded_page "OperatorsPage sp" for sp
  unfolding OperatorsPage_def by (intro guarded_pageI page_intros)

interpretation RoutesPage: guarded_page "RoutesPage sp" for sp
  unfolding RoutesPage_def by (intro guarded_pageI page_intros)

interpretation RolesPage: guarded_page RolesPage
  unfolding RolesPage_def by (intro guarded_pageI page_intros)

interpretation DataPlaneNodesPage: guarded_page DataPlaneNodesPage
  unfolding DataPlaneNodesPage_def by (intro guarded_pageI page_intros)

interpretation SettingsPage: guarded_page SettingsPage
  unfolding SettingsPage_def by (intro guarded_pageI page_intros)

lemma range_internal [page_intros]: "internal (rangeToFromTo z now rng)"
  unfolding rangeToFromTo_def startOfDayUTC_def Let_def by (intro page_intros)

interpretation ModelsPage: guarded_page "ModelsPage sp" for sp
  unfolding ModelsPage_def page_defs by (intro guarded_pageI page_intros)

interpretation ModelDetailPage: guarded_page "ModelDetailPage a" for a
  unfolding ModelDetailPage_def page_defs by (intro guarded_pageI page_intros)

interpretation ModelCatalogPage: guarded_page "ModelCatalogPage sp" for sp
  unfolding ModelCatalogPage_def by (intro guarded_pageI page_intros)

interpretation CatalogDetailPage: guarded_page "CatalogDetailPage a" for a
  unfolding CatalogDetailPage_def by (intro guarded_pageI page_intros)

interpretation ApplicationsPage: guarded_page "ApplicationsPage settled now sp" for settled now sp
  unfolding ApplicationsPage_def page_defs by (intro guarded_pageI page_intros)

interpretation OverviewPage: guarded_page "OverviewPage z now sp" for z now sp
  unfolding OverviewPage_def page_defs by (intro guarded_pageI page_intros)

interpretation QuotasPage: page_load QuotasPage
  unfolding QuotasPage_def page_defs by (intro page_loadI page_intros)

section \<open>Properties\<close>

text \<open>The five list pages with their paths and components.\<close>

definition list_pages :: "((form \<Rightarrow> page act) \<times> jsstr \<times> jsstr) list" where
  "list_pages =
     [(ProvidersPage, js ''/api/v1/providers'', js ''ProvidersPageClient''),
      (TenantsPage, js ''/api/v1/tenants'', js ''TenantsPageClient''),
      (GroupsPage, js ''/api/v1/groups'', js ''GroupsPageClient''),
      (PluginsPage, js ''/api/v1/plugins'', js ''PluginsPageClient''),
      (ConfigHistoryPage, js ''/api/v1/config/history'', js ''ConfigHistoryPageClient'')]"

lemma list_pages_def': "(page, path, name) \<in> set list_pages \<Longrightarrow> page sp = list_page path name sp"
  by (auto simp: list_pages_def ProvidersPage_def TenantsPage_def GroupsPage_def PluginsPage_def ConfigHistoryPage_def)

text \<open>A list page sends one request, with the cursor and the limit of its address. A 401 leads to the
  logout route with the cookie still in place, a 403 is shown as a translated notice, any other refusal is thrown;
  an answer is shown with its rows and cursor, or the defaults when they are missing.\<close>

theorem list_pages_outcome:
  assumes "(page, path, name) \<in> set list_pages" and "client_of pf w = Some c"
    and "pf_fetch pf (w_sent w @ [mk_req c GET path [] (list_query sp) None]) = FetchResult r"
  shows "page sp pf w =
    (if fr_error r = None \<and> response_ok r then
       (if is_nullish (fr_data r) then Inl TypeError
        else Inr (Shown name
          [(js ''rows'', Some (coalesce (opt_prop (fr_data r) (js ''data'')) (JArr []))),
           (js ''nextCursor'', Some (coalesce (opt_prop (fr_data r) (js ''next_cursor'')) (JStr [])))]))
     else if fr_status r = 401 then Inl (NextRedirect (js ''/logout''))
     else if fr_status r = 403 then
       Inr (Notice (notice_for pf (err_message (new_AdminError 403 (fr_error r)))))
     else Inl (new_AdminError (fr_status r) (fr_error r)),
     w\<lparr>w_sent := w_sent w @ [mk_req c GET path [] (list_query sp) None]\<rparr>)"
  using assms(3)
  unfolding list_pages_def' [OF assms(1)] list_page_def page_try_run client_run [OF assms(2)]
  by (auto simp: bnd_apply read_json_run Let_def unwrap_def prop_or_run page_error_run new_AdminError_def)

theorem list_pages_outcome_witness:
  "ProvidersPage [(js ''cursor'', js ''c'')] expired_platform sample_world =
     (Inl (NextRedirect (js ''/logout'')), sample_world\<lparr>w_sent :=
        [mk_req sample_client GET (js ''/api/v1/providers'') [] [(js ''cursor'', JStr (js ''c''))] None]\<rparr>)"
proof -
  have mem: "(ProvidersPage, js ''/api/v1/providers'', js ''ProvidersPageClient'') \<in> set list_pages"
    by (simp add: list_pages_def)
  have "list_query [(js ''cursor'', js ''c'')] = [(js ''cursor'', JStr (js ''c''))]"
    by (simp add: list_query_def when_param_def form_raw_def form_get_def js_def)
  moreover have "\<not> response_ok expired_result" "fr_status expired_result = 401" "w_sent sample_world = []"
    by (simp_all add: expired_result_def response_ok_def sample_world_def)
  ultimately show ?thesis
    using list_pages_outcome [OF mem expired_client expired_fetch, of "[(js ''cursor'', js ''c'')]"] by simp
qed

lemma find_alias_spec: "find_alias a ms = Inr m \<Longrightarrow> m = JNull \<or> m \<in> set ms \<and> opt_prop (Some m) (js ''alias'') = Some (JStr a)"
proof (induction ms)
  case (Cons x xs)
  then show ?case
    by (cases "is_nullish (Some x)") (auto simp: get_prop_Inr get_prop_Inl rbind_Inr_conv split: if_splits)
qed simp

text \<open>A link to a model opens that model. The page whose address holds the escaped alias shows the model
  with exactly this alias from the list of the admin API, or none.\<close>

theorem model_link:
  assumes "encodeURIComponent a = Inr seg"
    and "ModelDetailPage seg pf w = (Inr (Shown name ps), w') \<or> CatalogDetailPage seg pf w = (Inr (Shown name ps), w')"
    and "map_of ps (js ''model'') = Some (Some m)"
  shows "m = JNull \<or> opt_prop (Some m) (js ''alias'') = Some (JStr a)"
proof -
  have model: "m' = JNull \<or> opt_prop (Some m') (js ''alias'') = Some (JStr a)" if "find_model page a = Inr m'" for page m'
    using that find_alias_spec by (auto simp: find_model_def rbind_Inr_conv)
  have neq: "js ''model'' \<noteq> js ''canWrite''" by (simp add: js_def)
  show ?thesis
    using assms(2,3) decode_encode [OF assms(1)] neq
    by (auto simp: ModelDetailPage_def CatalogDetailPage_def bnd_Inr_conv page_try_Shown Let_def dest: model)
qed

text \<open>One model, named with a slash.\<close>

definition model_platform :: platform where
  "model_platform = sample_platform\<lparr>pf_fetch := (\<lambda>h. FetchResult \<lparr>fr_data =
     Some (JObj [(js ''data'', JArr [JObj [(js ''alias'', JStr (js ''a/b''))]])]), fr_error = None, fr_status = 200\<rparr>)\<rparr>"

theorem model_link_witness:
  "encodeURIComponent (js ''a/b'') = Inr (js ''a%2Fb'') \<and>
   (\<exists>w'. CatalogDetailPage (js ''a%2Fb'') model_platform sample_world =
     (Inr (Shown (js ''ModelDetailClient'') [(js ''model'', Some (JObj [(js ''alias'', JStr (js ''a/b''))]))]), w') \<and>
     opt_prop (Some (JObj [(js ''alias'', JStr (js ''a/b''))])) (js ''alias'') = Some (JStr (js ''a/b'')))"
proof -
  let ?m = "JObj [(js ''alias'', JStr (js ''a/b''))]"
  have enc: "encodeURIComponent (js ''a/b'') = Inr (js ''a%2Fb'')" by code_simp
  note dec = decode_encode [OF enc]
  have client: "client_of model_platform sample_world = Some sample_client" by (simp add: model_platform_def)
  have fetch: "pf_fetch model_platform h = FetchResult \<lparr>fr_data = Some (JObj [(js ''data'', JArr [?m])]),
      fr_error = None, fr_status = 200\<rparr>" for h
    by (simp add: model_platform_def)
  have "fst (CatalogDetailPage (js ''a%2Fb'') model_platform sample_world) =
      Inr (Shown (js ''ModelDetailClient'') [(js ''model'', Some ?m)])"
    unfolding CatalogDetailPage_def dec bnd_Inr [OF lift_res_apply] page_try_run client_run [OF client]
    by (simp add: bnd_apply read_json_run Let_def fetch unwrap_def response_ok_def find_model_def prop_or_run)
  then obtain w' where run: "CatalogDetailPage (js ''a%2Fb'') model_platform sample_world =
      (Inr (Shown (js ''ModelDetailClient'') [(js ''model'', Some ?m)]), w')"
    by (metis prod.collapse)
  moreover have "?m \<noteq> JNull" by simp
  ultimately show ?thesis
    using model_link [OF enc disjI2 [OF run], of ?m] enc by auto
qed

end
