(* ===== verification/Pages_Usage.thy ===== *)
theory Pages_Usage
  imports Page_Load
begin

text \<open>
  The pages of usage, request logs, audit, traces, budgets and API keys
  (\<^verbatim>\<open>app/[locale]/(dashboard)/**/page.tsx\<close>). The clock is an argument, a valid time value; reads that run
  beside each other go through \<open>promise_all3\<close>. The API key page follows the cursors of three lists to their
  end: its loops take fuel, and running out of it is the value \<open>None\<close>.
\<close>

section \<open>Paged lists\<close>

text \<open>A page number or size: the default when it is missing, not finite or below one.\<close>

definition page_number :: "form \<Rightarrow> jsstr \<Rightarrow> nat \<Rightarrow> jsnum" where
  "page_number sp k d =
     (let n = (if form_raw sp k \<noteq> [] then js_Number (form_raw sp k) else Fin (of_nat d))
      in if \<not> num_isFinite n \<or> num_lt n (Fin 1) then Fin (of_nat d) else n)"

text \<open>\<^verbatim>\<open>from ?? date.toISOString()\<close>\<close>

definition time_or :: "form \<Rightarrow> jsstr \<Rightarrow> date \<Rightarrow> jsstr res" where
  "time_or sp k d = (case form_get sp k of Some s \<Rightarrow> Inr s | None \<Rightarrow> toISOString d)"

definition thirtyDaysAgo :: "int \<Rightarrow> date" where
  "thirtyDaysAgo now = TimeClip (now - 30 * 24 * 60 * 60 * 1000)"

definition window_query :: "jsnum \<Rightarrow> jsnum \<Rightarrow> jsstr \<Rightarrow> jsstr \<Rightarrow> fields" where
  "window_query page pageSize from to =
     [(js ''page'', JNum page), (js ''page_size'', JNum pageSize)] @
     when_field (from \<noteq> []) (js ''from'') (JStr from) @ when_field (to \<noteq> []) (js ''to'') (JStr to)"

text \<open>The answer of a paged list: its rows, the total and the window the backend used.\<close>

definition paged :: "jsval \<Rightarrow> jsnum \<Rightarrow> jsnum \<Rightarrow> (json \<times> json \<times> json \<times> json) res" where
  "paged res page pageSize =
     rbind (data_of res) (\<lambda>rows.
     rbind (prop_or res (js ''total'') (JNum (Fin 0))) (\<lambda>total.
     rbind (prop_or res (js ''page'') (JNum page)) (\<lambda>p.
     rbind (prop_or res (js ''page_size'') (JNum pageSize)) (\<lambda>ps.
     Inr (rows, total, p, ps)))))"

definition AuditPage :: "int \<Rightarrow> form \<Rightarrow> page act" where
  "AuditPage now sp =
     bnd (lift_res (time_or sp (js ''from'') (thirtyDaysAgo now))) (\<lambda>fromValue.
     bnd (lift_res (time_or sp (js ''to'') (Some now))) (\<lambda>toValue.
     let page = page_number sp (js ''page'') 1; pageSize = page_number sp (js ''page_size'') 20
     in bnd
       (try_catch
          (bnd serverAdminClient (\<lambda>client.
           bnd (read_json client (js ''/api/v1/audit'') []
                  (window_query page pageSize fromValue toValue @
                   when_param sp (js ''resource_type'') @ when_param sp (js ''action''))) (\<lambda>res.
           lift_res (paged res page pageSize))))
          onAuthExpired)
       (\<lambda>(rows, total, p, ps). ret (Shown (js ''AuditPageClient'')
          [(js ''rows'', Some rows), (js ''total'', Some total), (js ''page'', Some p), (js ''pageSize'', Some ps)]))))"

text \<open>\<^verbatim>\<open>Object.fromEntries(providers.map((p) => [p.name, p.adapter]))\<close>: later entries win; a property whose
  value is \<^verbatim>\<open>undefined\<close> reads like none.\<close>

definition set_adapter :: "jsval \<times> jsval \<Rightarrow> fields \<Rightarrow> fields" where
  "set_adapter e o' =
     (case snd e of
        Some v \<Rightarrow> obj_set (val_String (fst e)) v o'
      | None \<Rightarrow> filter (\<lambda>kv. fst kv \<noteq> val_String (fst e)) o')"

definition provider_adapters :: "jsval \<Rightarrow> json res" where
  "provider_adapters pRes =
     rbind (data_of pRes) (\<lambda>rows. rbind (elements rows) (\<lambda>ps.
     rbind (rmap (\<lambda>p. rbind (get_prop (Some p) (js ''name'')) (\<lambda>n.
                      rbind (get_prop (Some p) (js ''adapter'')) (\<lambda>a. Inr (n, a)))) ps) (\<lambda>es.
     Inr (JObj (fold set_adapter es [])))))"

definition log_filters :: "bool \<Rightarrow> form \<Rightarrow> fields" where
  "log_filters isSuperAdmin sp =
     (if isSuperAdmin then when_param sp (js ''tenant'') else []) @
     when_param sp (js ''group_name'') @ when_param sp (js ''api_key_id'') @ when_param sp (js ''provider'') @
     when_param sp (js ''model_requested'') @ when_param sp (js ''error_type'') @ when_param sp (js ''blocked_by'') @
     when_param sp (js ''stream'') @ when_param sp (js ''fallback'') @ when_param sp (js ''session_id'') @
     when_param sp (js ''agent_type'') @ when_param sp (js ''ingress_protocol'') @
     when_field (form_raw sp (js ''application_id'') \<noteq> []) (js ''application_id'')
       (JNum (js_Number (form_raw sp (js ''application_id'')))) @
     when_param sp (js ''environment'') @
     when_field (form_get sp (js ''unattributed'') = Some (js ''true'')) (js ''unattributed'') (JBool True)"

definition RequestLogsPage :: "int \<Rightarrow> form \<Rightarrow> page act" where
  "RequestLogsPage now sp = bnd getSession (\<lambda>session.
     let isSuperAdmin = (sd_role session = Some (js ''super-admin'')) in
     bnd (lift_res (time_or sp (js ''from'') (thirtyDaysAgo now))) (\<lambda>fromValue.
     bnd (lift_res (time_or sp (js ''to'') (Some now))) (\<lambda>toValue.
     let page = page_number sp (js ''page'') 1; pageSize = page_number sp (js ''page_size'') 20
     in page_try
       (bnd serverAdminClient (\<lambda>client.
        bnd (read_json client (js ''/api/v1/request-logs'') []
               (window_query page pageSize fromValue toValue @ log_filters isSuperAdmin sp)) (\<lambda>res.
        bnd (lift_res (paged res page pageSize)) (\<lambda>r.
        bnd (if isSuperAdmin then
               bnd (read_json client (js ''/api/v1/providers'') [] [(js ''limit'', JNum (Fin 1000))]) (\<lambda>pRes.
               lift_res (provider_adapters pRes))
             else ret (JObj [])) (\<lambda>adapters.
        ret (r, adapters))))))
       (\<lambda>(r, adapters). case r of (rows, tot, p, ps) \<Rightarrow> ret (Shown (js ''RequestLogsPageClient'')
          [(js ''key'', Some (JStr (stringify (JObj (defined_fields
              [(js ''application_id'', map_option JStr (form_get sp (js ''application_id''))),
               (js ''environment'', map_option JStr (form_get sp (js ''environment''))),
               (js ''unattributed'', map_option JStr (form_get sp (js ''unattributed''))),
               (js ''page'', Some p), (js ''pageSize'', Some ps)]))))),
           (js ''rows'', Some rows), (js ''total'', Some tot), (js ''page'', Some p), (js ''pageSize'', Some ps),
           (js ''isSuperAdmin'', Some (JBool isSuperAdmin)), (js ''providerAdapters'', Some adapters)])))))"

definition SessionTracePage :: "jsstr \<Rightarrow> page act" where
  "SessionTracePage rawSessionId = bnd (lift_res (decodeURIComponent rawSessionId)) (\<lambda>sessionID.
     page_try
       (bnd serverAdminClient (\<lambda>client.
        bnd (read_json client (js ''/api/v1/request-logs/sessions/{session_id}'') [(js ''session_id'', JStr sessionID)] []) (\<lambda>res.
        bnd (lift_res (prop_or res (js ''requests'') (JArr []))) (\<lambda>requests.
        bnd (lift_res (prop_or res (js ''cost_summary'') (JObj []))) (\<lambda>costSummary.
        ret (requests, costSummary))))))
       (\<lambda>(requests, costSummary). ret (Shown (js ''SessionTraceClient'')
          [(js ''sessionID'', Some (JStr sessionID)), (js ''requests'', Some requests),
           (js ''costSummary'', Some costSummary), (js ''loadError'', Some (JBool False))])))"

section \<open>Usage\<close>

definition find_str :: "jsstr list \<Rightarrow> jsstr option \<Rightarrow> jsstr \<Rightarrow> jsstr" where
  "find_str allowed v d = (case v of Some s \<Rightarrow> if s \<in> set allowed then s else d | None \<Rightarrow> d)"

definition usage_dimension :: "bool \<Rightarrow> form \<Rightarrow> jsstr" where
  "usage_dimension isSuperAdmin sp =
     find_str [js ''tenant'', js ''group_name'', js ''api_key_id'', js ''provider'', js ''model'', js ''application_id'',
               js ''environment'', js ''currency'']
       (Some (case form_get sp (js ''group_by'') of
                Some g \<Rightarrow> g
              | None \<Rightarrow> if isSuperAdmin then js ''tenant'' else js ''model''))
       (js ''model'')"

definition usage_bucket :: "form \<Rightarrow> jsstr" where
  "usage_bucket sp = find_str [js ''hour'', js ''day'', js ''week''] (form_get sp (js ''bucket'')) (js ''day'')"

abbreviation str_param :: "form \<Rightarrow> jsstr \<Rightarrow> jsval" where
  "str_param sp k \<equiv> map_option JStr (form_get sp k)"

text \<open>\<^verbatim>\<open>p ? Number(p) : undefined\<close>\<close>

definition num_param :: "form \<Rightarrow> jsstr \<Rightarrow> jsval" where
  "num_param sp k = (if form_raw sp k \<noteq> [] then Some (JNum (js_Number (form_raw sp k))) else None)"

definition usage_filters :: "bool \<Rightarrow> jsstr \<Rightarrow> jsstr \<Rightarrow> form \<Rightarrow> props" where
  "usage_filters isSuperAdmin from to sp =
     [(js ''from'', Some (JStr from)), (js ''to'', Some (JStr to)),
      (js ''tenant'', if isSuperAdmin then str_param sp (js ''tenant'') else None),
      (js ''provider'', str_param sp (js ''provider'')), (js ''model'', str_param sp (js ''model'')),
      (js ''application_id'', num_param sp (js ''application_id'')),
      (js ''environment'', str_param sp (js ''environment'')),
      (js ''unattributed'', if form_get sp (js ''unattributed'') = Some (js ''true'') then Some (JBool True) else None)]"

definition UsagePage :: "nat \<Rightarrow> int \<Rightarrow> form \<Rightarrow> page act" where
  "UsagePage settled now sp = bnd getSession (\<lambda>session.
     let isSuperAdmin = (sd_role session = Some (js ''super-admin'')) in
     bnd (lift_res (time_or sp (js ''from'') (thirtyDaysAgo now))) (\<lambda>from.
     bnd (lift_res (time_or sp (js ''to'') (Some now))) (\<lambda>to.
     let groupBy = usage_dimension isSuperAdmin sp; bucket = usage_bucket sp;
         filters = usage_filters isSuperAdmin from to sp
     in page_try
       (bnd serverAdminClient (\<lambda>client.
        bnd (promise_all3 settled
               (call client GET (js ''/api/v1/usage'') []
                  (defined_fields (filters @ [(js ''cursor'', str_param sp (js ''cursor'')), (js ''limit'', num_param sp (js ''limit''))])) None)
               (call client GET (js ''/api/v1/usage/summary'') []
                  (defined_fields (filters @ [(js ''group_by'', Some (JStr groupBy))])) None)
               (call client GET (js ''/api/v1/usage/timeseries'') []
                  (defined_fields (filters @ [(js ''bucket'', Some (JStr bucket))])) None)) (\<lambda>(listResult, summaryResult, timeseriesResult).
        bnd (lift_res (unwrap listResult)) (\<lambda>page.
        bnd (case page of Some (JStr s) \<Rightarrow> throw (PlainError (js ''Expected JSON usage response'')) | _ \<Rightarrow> ret ()) (\<lambda>_.
        bnd (lift_res (unwrap summaryResult)) (\<lambda>summary.
        bnd (lift_res (unwrap timeseriesResult)) (\<lambda>timeseries.
        bnd (if isSuperAdmin then
               bnd (read_json client (js ''/api/v1/tenants'') [] []) (\<lambda>t. lift_res (data_of t))
             else ret (JArr [])) (\<lambda>tenants.
        bnd (lift_res (data_of page)) (\<lambda>rows.
        bnd (lift_res (next_cursor_of page)) (\<lambda>nextCursor.
        bnd (lift_res (data_of summary)) (\<lambda>summaryRows.
        bnd (lift_res (data_of timeseries)) (\<lambda>timeseriesRows.
        ret (rows, nextCursor, summaryRows, tenants, timeseriesRows)))))))))))))
       (\<lambda>(rows, nextCursor, summaryRows, tenants, timeseriesRows). ret (Shown (js ''UsagePageClient'')
          [(js ''key'', Some (JStr (stringify (JObj (fold (\<lambda>(k, v). obj_set k (JStr v)) sp []))))),
           (js ''rows'', Some rows), (js ''nextCursor'', Some nextCursor), (js ''summaryRows'', Some summaryRows),
           (js ''tenants'', Some tenants), (js ''timeseriesRows'', Some timeseriesRows),
           (js ''isSuperAdmin'', Some (JBool isSuperAdmin)), (js ''groupBy'', Some (JStr groupBy))])))))"

section \<open>Traces\<close>

definition TracePage :: "form \<Rightarrow> page act" where
  "TracePage sp =
     page_try
       (bnd serverAdminClient (\<lambda>client.
        bnd (read_json client (js ''/api/v1/request-logs/sessions'') []
               ([(js ''page'', JNum (Fin 1)), (js ''page_size'', JNum (Fin 100))] @
                when_param sp (js ''agent_type'') @ when_param sp (js ''from'') @ when_param sp (js ''to''))) (\<lambda>res.
        lift_res (data_of res))))
       (\<lambda>sessions. ret (Shown (js ''TraceSessionsClient'')
          [(js ''sessions'', Some sessions), (js ''anyRows'', Some (JBool (as_array (Some sessions) \<noteq> []))),
           (js ''agentFilter'', Some (JStr (form_raw sp (js ''agent_type''))))]))"

text \<open>\<^verbatim>\<open>a + b\<close>: numbers are added, anything that is not a number, a boolean or \<^verbatim>\<open>null\<close> makes it a concatenation.\<close>

fun prim_num :: "json \<Rightarrow> jsnum option" where
  "prim_num (JNum n) = Some n"
| "prim_num (JBool b) = Some (Fin (if b then 1 else 0))"
| "prim_num JNull = Some (Fin 0)"
| "prim_num v = None"

definition js_plus :: "json \<Rightarrow> json \<Rightarrow> json" where
  "js_plus a b =
     (case (prim_num a, prim_num b) of
        (Some m, Some n) \<Rightarrow> JNum (num_add m n)
      | _ \<Rightarrow> JStr (json_String a @ json_String b))"

text \<open>\<^verbatim>\<open>rows.reduce((s, r) => s + (r.k ?? 0), 0)\<close>\<close>

fun sum_prop :: "jsstr \<Rightarrow> json \<Rightarrow> json list \<Rightarrow> json res" where
  "sum_prop k s [] = Inr s"
| "sum_prop k s (r # rs) = rbind (prop_or (Some r) k (JNum (Fin 0))) (\<lambda>v. sum_prop k (js_plus s v) rs)"

text \<open>\<^verbatim>\<open>rows.find((r) => r.agent_type)?.agent_type ?? ""\<close>\<close>

fun first_agent :: "json list \<Rightarrow> json res" where
  "first_agent [] = Inr (JStr [])"
| "first_agent (r # rs) = rbind (get_prop (Some r) (js ''agent_type'')) (\<lambda>a.
     if truthy a then Inr (coalesce a (JStr [])) else first_agent rs)"

definition session_stats :: "json \<Rightarrow> json \<Rightarrow> json res" where
  "session_stats traceRows metaRows =
     rbind (elements traceRows) (\<lambda>ts.
     rbind (first_agent ts) (\<lambda>agent.
     let started = (case ts of [] \<Rightarrow> None | t # _ \<Rightarrow> opt_prop (Some t) (js ''created_at'')) in
     rbind (elements metaRows) (\<lambda>ms.
     rbind (sum_prop (js ''prompt_tokens'') (JNum (Fin 0)) ms) (\<lambda>p.
     rbind (sum_prop (js ''completion_tokens'') (JNum (Fin 0)) ms) (\<lambda>c.
     rbind (sum_prop (js ''total_tokens'') (JNum (Fin 0)) ms) (\<lambda>t.
     Inr (JObj [(js ''agent_type'', agent), (js ''started_at'', coalesce started (JStr [])),
       (js ''request_count'', JNum (Fin (of_nat (length ts)))), (js ''prompt_tokens'', p),
       (js ''completion_tokens'', c), (js ''total_tokens'', t)])))))))"

text \<open>The metadata is optional: whatever goes wrong with it, even a 401, leaves it empty. The rows are
  assigned before the cost is read.\<close>

definition session_meta :: "admin_client \<Rightarrow> jsstr \<Rightarrow> (json \<times> jsval) act" where
  "session_meta client sessionID =
     try_catch
       (bnd (read_json client (js ''/api/v1/request-logs/sessions/{session_id}'') [(js ''session_id'', JStr sessionID)] []) (\<lambda>metaRes.
        bnd (lift_res (prop_or metaRes (js ''requests'') (JArr []))) (\<lambda>metaRows.
        bnd (lift_res (get_prop metaRes (js ''cost_summary''))) (\<lambda>cs.
        ret (metaRows, opt_prop cs (js ''cost''))))))
       (\<lambda>err. ret (JArr [], None))"

definition SessionDetailPage :: "jsstr \<Rightarrow> page act" where
  "SessionDetailPage rawSessionId = bnd (lift_res (decodeURIComponent rawSessionId)) (\<lambda>sessionID.
     page_try
       (bnd serverAdminClient (\<lambda>client.
        bnd (session_meta client sessionID) (\<lambda>(metaRows, cost).
        bnd (read_json client (js ''/api/v1/trace/sessions/{session_id}'') [(js ''session_id'', JStr sessionID)] []) (\<lambda>traceRes.
        bnd (lift_res (prop_or traceRes (js ''requests'') (JArr []))) (\<lambda>traceRows.
        ret (metaRows, cost, traceRows))))))
       (\<lambda>(metaRows, cost, traceRows). bnd (lift_res (session_stats traceRows metaRows)) (\<lambda>stats.
        ret (Shown (js ''SessionDetailClient'')
          [(js ''sessionID'', Some (JStr sessionID)), (js ''traceRows'', Some traceRows), (js ''metaRows'', Some metaRows),
           (js ''stats'', Some stats), (js ''cost'', cost)]))))"

definition detail_view :: "jsstr \<Rightarrow> jsnum \<Rightarrow> jsstr \<Rightarrow> jsval \<Rightarrow> jsval \<Rightarrow> page" where
  "detail_view sessionID rowID view current previous = Shown (js ''TraceDetailClient'')
     [(js ''sessionID'', Some (JStr sessionID)), (js ''requestID'', Some (JStr (num_repr rowID))),
      (js ''view'', Some (JStr view)), (js ''current'', current), (js ''previous'', previous)]"

definition TraceRawPage :: "jsstr \<Rightarrow> jsstr \<Rightarrow> page act" where
  "TraceRawPage sessionID req =
     (let rowID = js_Number req
      in page_try (fetchDetailByRow rowID)
           (\<lambda>current. ret (detail_view sessionID rowID (js ''raw'') current (Some JNull))))"

text \<open>\<^verbatim>\<open>rows.findIndex((row) => row.id === rowID)\<close> and the id of the row before it; row ids are numbers.\<close>

fun previous_id :: "jsnum \<Rightarrow> jsval \<Rightarrow> json list \<Rightarrow> jsval res" where
  "previous_id rowID before [] = Inr None"
| "previous_id rowID before (r # rs) = rbind (get_prop (Some r) (js ''id'')) (\<lambda>i.
     if i = Some (JNum rowID) \<and> rowID \<noteq> NaN then Inr before else previous_id rowID i rs)"

definition TraceMessagesPage :: "jsstr \<Rightarrow> jsstr \<Rightarrow> page act" where
  "TraceMessagesPage sessionID req =
     (let rowID = js_Number req
      in page_try
           (bnd (fetchDetailByRow rowID) (\<lambda>current.
            if truthy current then
              bnd (bnd serverAdminClient (\<lambda>client.
                     read_json client (js ''/api/v1/trace/sessions/{session_id}'') [(js ''session_id'', JStr sessionID)] [])) (\<lambda>trace.
              bnd (lift_res (prop_or trace (js ''requests'') (JArr []))) (\<lambda>rows.
              bnd (lift_res (rbind (elements rows) (previous_id rowID None))) (\<lambda>previousID.
              case as_num previousID of
                Some n \<Rightarrow> if num_truthy n then bnd (fetchDetailByRow n) (\<lambda>previous. ret (current, previous))
                          else ret (current, Some JNull)
              | None \<Rightarrow> ret (current, Some JNull))))
            else ret (current, Some JNull)))
           (\<lambda>(current, previous). ret (detail_view sessionID rowID (js ''messages'') current previous)))"

section \<open>Budgets\<close>

definition BUDGET_VIEWS :: "jsstr list" where
  "BUDGET_VIEWS = [js ''events'', js ''reservations'']"

definition budget_view :: "form \<Rightarrow> jsstr" where
  "budget_view sp = find_str BUDGET_VIEWS (form_get sp (js ''view'')) (js ''policies'')"

definition reservation_fields :: "jsstr list" where
  "reservation_fields = [js ''id'', js ''request_id'', js ''status'', js ''estimate'', js ''actual'', js ''currency'',
     js ''reason'', js ''version'', js ''created_at'']"

definition forbidden_read :: "page act" where
  "forbidden_read = bnd (asks (\<lambda>pf. pf_translate pf (js ''budgets'') (js ''forbiddenRead''))) (\<lambda>message.
     bnd (ForbiddenNotice message) (\<lambda>text. ret (Notice text)))"

text \<open>The rows of the chosen view: policies, events and reservations, and the cursor.\<close>

definition budget_rows :: "admin_client \<Rightarrow> jsstr \<Rightarrow> jsstr \<Rightarrow> fields \<Rightarrow> (json \<times> json \<times> json \<times> json) act" where
  "budget_rows client view status query =
     (if view = js ''events'' then
        bnd (read_json client (js ''/api/v1/budget-events'') [] query) (\<lambda>result.
        bnd (lift_res (data_of result)) (\<lambda>events.
        bnd (lift_res (next_cursor_of result)) (\<lambda>next. ret (JArr [], events, JArr [], next))))
      else if view = js ''reservations'' then
        bnd (read_json client (js ''/api/v1/billing-reservations'') []
               (query @ when_field (status \<noteq> [] \<and> status \<noteq> js ''all'') (js ''status'') (JStr status))) (\<lambda>result.
        bnd (lift_res (rbind (data_of result) (pick_rows reservation_fields))) (\<lambda>reservations.
        bnd (lift_res (next_cursor_of result)) (\<lambda>next. ret (JArr [], JArr [], reservations, next))))
      else
        bnd (read_json client (js ''/api/v1/budgets'') [] query) (\<lambda>result.
        bnd (lift_res (data_of result)) (\<lambda>policies.
        bnd (lift_res (next_cursor_of result)) (\<lambda>next. ret (policies, JArr [], JArr [], next)))))"

definition tenant_names :: "jsval \<Rightarrow> json res" where
  "tenant_names list =
     rbind (data_of list) (\<lambda>rows. rbind (elements rows) (\<lambda>vs.
     rbind (rmap (\<lambda>row. rbind (get_prop (Some row) (js ''name'')) (\<lambda>n. Inr (coalesce n JNull))) vs) (\<lambda>ns.
     Inr (JArr ns))))"

definition BudgetsPage :: "form \<Rightarrow> page act" where
  "BudgetsPage sp = bnd getSession (\<lambda>session.
     if \<not> has session (js ''budget.read'') then forbidden_read
     else
       let global = (sd_scopeKind session = Some (js ''global''));
           tenant = (if global then js_trim (form_raw sp (js ''tenant''))
                     else case sd_tenantName session of None \<Rightarrow> [] | Some n \<Rightarrow> n);
           view = budget_view sp;
           status = (case form_get sp (js ''status'') of None \<Rightarrow> js ''unknown'' | Some s \<Rightarrow> s)
       in page_try
         (bnd serverAdminClient (\<lambda>client.
          bnd (if global \<and> has session (js ''tenant.read'') then
                 bnd (read_json client (js ''/api/v1/tenants'') [] [(js ''limit'', JNum (Fin 500))]) (\<lambda>list.
                 lift_res (tenant_names list))
               else ret (JArr [])) (\<lambda>tenants.
          bnd (if \<not> global \<or> tenant \<noteq> [] then
                 budget_rows client view status
                   (when_field global (js ''tenant'') (JStr tenant) @ when_param sp (js ''cursor'') @
                    [(js ''limit'', JNum (Fin 50))])
               else ret (JArr [], JArr [], JArr [], JStr [])) (\<lambda>rows.
          ret (tenants, rows)))))
         (\<lambda>(tenants, policies, events, reservations, nextCursor). ret (Shown (js ''BudgetsClient'')
            [(js ''key'', Some (JStr (tenant @ js '':'' @ view))), (js ''tenant'', Some (JStr tenant)),
             (js ''global'', Some (JBool global)), (js ''tenants'', Some tenants), (js ''view'', Some (JStr view)),
             (js ''status'', Some (JStr status)), (js ''policies'', Some policies), (js ''events'', Some events),
             (js ''reservations'', Some reservations), (js ''nextCursor'', Some nextCursor),
             (js ''canWrite'', Some (JBool (global \<and> has session (js ''budget.write'')))),
             (js ''canResolve'', Some (JBool (global \<and> has session (js ''budget.resolve''))))])))"

text \<open>The link back keeps the tenant as it was given.\<close>

definition budget_back :: "bool \<Rightarrow> jsstr \<Rightarrow> jsstr res" where
  "budget_back global tenant =
     (if global \<and> tenant \<noteq> [] then rbind (encodeURIComponent tenant) (\<lambda>t. Inr (js ''/budgets?tenant='' @ t))
      else Inr (js ''/budgets''))"

definition view_link :: "jsstr \<Rightarrow> jsstr \<Rightarrow> jsstr" where
  "view_link back view = back @ (if js_includes back (js ''?'') then js ''&'' else js ''?'') @ js ''view='' @ view"

definition BudgetDetail :: "nat \<Rightarrow> jsstr \<Rightarrow> form \<Rightarrow> page act" where
  "BudgetDetail settled budgetId sp = bnd getSession (\<lambda>session.
     let global = (sd_scopeKind session = Some (js ''global''));
         tenant = form_raw sp (js ''tenant'');
         query = when_field global (js ''tenant'') (JStr (js_trim tenant))
     in bnd (lift_res (budget_back global tenant)) (\<lambda>back.
     if \<not> has session (js ''budget.read'') then forbidden_read
     else if global \<and> js_trim tenant = [] then
       bnd (asks (\<lambda>pf. pf_translate pf (js ''budgets'') (js ''selectTenant''))) (\<lambda>title. ret (Prompt title))
     else
       let quotaScope = js ''tenant:'' @ (if global then js_trim tenant
                          else case sd_tenantName session of None \<Rightarrow> js ''undefined'' | Some n \<Rightarrow> n);
           ident = [(js ''id'', JNum (js_Number budgetId))]
       in page_try
         (bnd serverAdminClient (\<lambda>client.
          bnd (promise_all3 settled
                 (call client GET (js ''/api/v1/budgets/{id}'') ident query None)
                 (call client GET (js ''/api/v1/budgets/{id}/accounts'') ident query None)
                 (if has session (js ''quota.read'') then
                    bnd (call client GET (js ''/api/v1/quotas'') [] [(js ''scope'', JStr quotaScope)] None) (\<lambda>r. ret (Some r))
                  else ret None)) (\<lambda>(policyResponse, accountsResponse, quotaResponse).
          bnd (lift_res (unwrap policyResponse)) (\<lambda>policy.
          bnd (lift_res (rbind (unwrap accountsResponse) data_of)) (\<lambda>accounts.
          bnd (case quotaResponse of None \<Rightarrow> ret (Some JNull) | Some r \<Rightarrow> lift_res (unwrap r)) (\<lambda>quota.
          ret (policy, accounts, quota)))))))
         (\<lambda>(policy, accounts, quota). ret (Shown (js ''BudgetDetail'')
            [(js ''back'', Some (JStr back)), (js ''policy'', policy), (js ''quota'', quota), (js ''accounts'', Some accounts),
             (js ''reservations'', Some (JStr (view_link back (js ''reservations'')))),
             (js ''events'', Some (JStr (view_link back (js ''events''))))]))))"

section \<open>API keys\<close>

text \<open>One round of a loop over the pages of a list: the options of its rows and the cursor it continues with
  (\<^verbatim>\<open>result.next_cursor || undefined\<close>).\<close>

definition options_page :: "admin_client \<Rightarrow> jsstr \<Rightarrow> (json \<Rightarrow> json list res) \<Rightarrow> jsval \<Rightarrow> (json list \<times> jsval) act" where
  "options_page client path options cursor =
     bnd (read_json client path [] (defined_fields [(js ''limit'', Some (JNum (Fin 500))), (js ''cursor'', cursor)])) (\<lambda>result.
     bnd (lift_res (rbind (data_of result) options)) (\<lambda>os.
     bnd (lift_res (get_prop result (js ''next_cursor''))) (\<lambda>next.
     ret (os, if truthy next then next else None))))"

text \<open>\<^verbatim>\<open>do { ... } while (cursor)\<close>\<close>

fun all_options :: "nat \<Rightarrow> admin_client \<Rightarrow> jsstr \<Rightarrow> (json \<Rightarrow> json list res) \<Rightarrow> json list \<Rightarrow> jsval \<Rightarrow> json list option act" where
  "all_options 0 client path options acc cursor = ret None"
| "all_options (Suc fuel) client path options acc cursor =
     bnd (options_page client path options cursor) (\<lambda>(os, next).
     case next of
       None \<Rightarrow> ret (Some (acc @ os))
     | Some c \<Rightarrow> all_options fuel client path options (acc @ os) next)"

definition option_entry :: "jsval \<Rightarrow> jsval \<Rightarrow> json" where
  "option_entry value label = JObj (defined_fields [(js ''value'', value), (js ''label'', label)])"

definition named_option :: "json \<Rightarrow> json res" where
  "named_option row =
     rbind (get_prop (Some row) (js ''id'')) (\<lambda>i.
     rbind (get_prop (Some row) (js ''name'')) (\<lambda>n.
     Inr (option_entry (Some (JStr (val_String i))) (Some (coalesce n (JStr (val_String i)))))))"

definition group_options :: "json \<Rightarrow> json list res" where
  "group_options rows = rbind (elements rows) (rmap named_option)"

definition application_options :: "json \<Rightarrow> json list res" where
  "application_options rows = rbind (elements rows) (\<lambda>vs.
     rbind (rfilter (\<lambda>a. rbind (get_prop (Some a) (js ''enabled'')) (\<lambda>e. Inr (truthy e))) vs) (rmap named_option))"

definition model_options :: "json \<Rightarrow> json list res" where
  "model_options rows = rbind (elements rows)
     (rmap (\<lambda>m. rbind (get_prop (Some m) (js ''alias'')) (\<lambda>a. Inr (option_entry a a))))"

definition APIKeysPage :: "nat \<Rightarrow> form \<Rightarrow> page option act" where
  "APIKeysPage fuel sp =
     (let unbound = (form_get sp (js ''unbound'') = Some (js ''true''))
      in bnd (try_catch
        (bnd serverAdminClient (\<lambda>client.
         bnd (read_json client (js ''/api/v1/api-keys'') []
                (defined_fields [(js ''cursor'', str_param sp (js ''cursor'')), (js ''limit'', num_param sp (js ''limit'')),
                   (js ''unbound'', if unbound then Some (JBool True) else None)])) (\<lambda>page.
         bnd (all_options fuel client (js ''/api/v1/groups'') group_options [] None) (\<lambda>groups.
         if groups = None then ret (Inr None) else
         bnd (all_options fuel client (js ''/api/v1/applications'') application_options [] None) (\<lambda>applications.
         if applications = None then ret (Inr None) else
         bnd (all_options fuel client (js ''/api/v1/models'') model_options [] None) (\<lambda>models.
         if models = None then ret (Inr None) else
         bnd (lift_res (data_of page)) (\<lambda>rows.
         bnd (lift_res (next_cursor_of page)) (\<lambda>nextCursor.
         ret (Inr (Some (rows, nextCursor, the models, the groups, the applications)))))))))))
        (\<lambda>err. bnd (page_error err) (\<lambda>p. ret (Inl p))))
      (\<lambda>r. case r of
         Inl p \<Rightarrow> ret (Some p)
       | Inr None \<Rightarrow> ret None
       | Inr (Some (rows, nextCursor, models, groups, applications)) \<Rightarrow>
           ret (Some (Shown (js ''APIKeysPageClient'')
             [(js ''rows'', Some rows), (js ''nextCursor'', Some nextCursor), (js ''models'', Some (JArr models)),
              (js ''groups'', Some (JArr groups)), (js ''applications'', Some (JArr applications)),
              (js ''unbound'', Some (JBool unbound))]))))"

section \<open>Interpretations\<close>

lemmas usage_defs = Let_def time_or_def forbidden_read_def ForbiddenNotice_def budget_back_def

lemma session_meta_getting [page_intros]: "getting c (session_meta c sessionID)"
  unfolding session_meta_def by (intro page_intros)

lemma budget_rows_getting [page_intros]: "getting c (budget_rows c view status query)"
  unfolding budget_rows_def by (intro page_intros)

lemma text_answer_getting [page_intros]:
  "getting c (case page of Some (JStr s) \<Rightarrow> throw (PlainError m) | _ \<Rightarrow> ret ())"
  by (auto intro: page_intros split: option.split json.split)

lemma sum_prop_internal [page_intros]: "internal (sum_prop k s rs)"
  by (induction rs arbitrary: s) (auto intro: page_intros)

lemma first_agent_internal [page_intros]: "internal (first_agent rs)"
  by (induction rs) (auto intro!: page_intros)

lemma session_stats_internal [page_intros]: "internal (session_stats ts ms)"
  unfolding session_stats_def Let_def by (intro page_intros)

interpretation AuditPage: page_load "AuditPage now sp" for now sp
proof (rule page_loadI)
  have "loads (onAuthExpired err :: 'a act)" for err
    by (cases err) (auto simp: onAuthExpired_def redirect_def intro: page_intros)
  then show "loads (AuditPage now sp)" unfolding AuditPage_def usage_defs by (intro page_intros)
qed

interpretation RequestLogsPage: guarded_page "RequestLogsPage now sp" for now sp
  unfolding RequestLogsPage_def usage_defs by (intro guarded_pageI page_intros)

interpretation SessionTracePage: guarded_page "SessionTracePage s" for s
  unfolding SessionTracePage_def by (intro guarded_pageI page_intros)

interpretation UsagePage: guarded_page "UsagePage settled now sp" for settled now sp
  unfolding UsagePage_def usage_defs by (intro guarded_pageI page_intros)

interpretation TracePage: guarded_page "TracePage sp" for sp
  unfolding TracePage_def by (intro guarded_pageI page_intros)

interpretation SessionDetailPage: guarded_page "SessionDetailPage s" for s
  unfolding SessionDetailPage_def by (intro guarded_pageI page_intros)

interpretation TraceRawPage: guarded_page "TraceRawPage s req" for s req
  unfolding TraceRawPage_def Let_def by (intro guarded_pageI page_intros)

interpretation TraceMessagesPage: guarded_page "TraceMessagesPage s req" for s req
  unfolding TraceMessagesPage_def Let_def by (intro guarded_pageI page_intros)

interpretation BudgetsPage: guarded_page "BudgetsPage sp" for sp
  unfolding BudgetsPage_def usage_defs by (intro guarded_pageI page_intros)

interpretation BudgetDetail: guarded_page "BudgetDetail settled i sp" for settled i sp
  unfolding BudgetDetail_def usage_defs by (intro guarded_pageI page_intros)

lemma options_page_getting [page_intros]: "getting c (options_page c path options cursor)"
  unfolding options_page_def by (intro page_intros)

lemma all_options_getting [page_intros]: "getting c (all_options fuel c path options acc cursor)"
  by (induction fuel arbitrary: acc cursor) (auto intro!: page_intros)

text \<open>The API key page has its own frame, because of the fuel.\<close>

lemma keys_page_parts:
  assumes "loads body" "\<And>r. loads (rest r)" "\<And>r. handled (rest r)"
  shows "loads (bnd (try_catch body (\<lambda>err. bnd (page_error err) (\<lambda>p. ret (Inl p)))) rest)"
    and "handled (bnd (try_catch body (\<lambda>err. bnd (page_error err) (\<lambda>p. ret (Inl p)))) rest)"
proof -
  have "handled (bnd (page_error err) (\<lambda>p. ret (Inl p)))" for err by (intro page_intros)
  then have "handled (try_catch body (\<lambda>err. bnd (page_error err) (\<lambda>p. ret (Inl p))))"
    by (fastforce simp: handled_def try_catch_apply split: prod.splits sum.splits)
  then show "handled (bnd (try_catch body (\<lambda>err. bnd (page_error err) (\<lambda>p. ret (Inl p)))) rest)"
    by (intro page_intros assms)
  show "loads (bnd (try_catch body (\<lambda>err. bnd (page_error err) (\<lambda>p. ret (Inl p)))) rest)"
    by (intro page_intros assms)
qed

interpretation APIKeysPage: guarded_page "APIKeysPage fuel sp" for fuel sp
  unfolding APIKeysPage_def Let_def
  by (intro guarded_pageI keys_page_parts page_intros; auto intro: page_intros split: sum.split option.split)

section \<open>Properties\<close>

text \<open>The requests a computation adds.\<close>

definition added :: "world \<Rightarrow> world \<Rightarrow> areq set" where
  "added w w' = set (drop (length (w_sent w)) (w_sent w'))"

lemma sending_added:
  assumes "sending P m" "m pf w = (r, w')" "q \<in> added w w'"
  shows "P q"
proof -
  obtain rs where "w' = w\<lparr>w_sent := w_sent w @ rs\<rparr>" "\<forall>q\<in>set rs. P q"
    using assms(1,2) unfolding sending_def by (metis snd_conv)
  with assms(3) show ?thesis by (simp add: added_def)
qed

lemma bnd_lift_Inr: "bnd (lift_res (Inr x)) f = f x"
  by (intro ext) (simp add: bnd_apply)

lemma getSession_bnd: "session_of pf w = Some s \<Longrightarrow> bnd getSession f pf w = f s pf w"
  by (simp add: bnd_apply getSession_run)

lemma defined_fields_keys: "k \<in> fst ` set (defined_fields kvs) \<longleftrightarrow> (\<exists>v. (k, Some v) \<in> set kvs)"
  by (force simp: defined_fields_def List.map_filter_def image_iff)

lemma when_param_keys: "fst ` set (when_param sp k) \<subseteq> {k}"
  by (auto simp: when_param_def when_field_def)

lemma window_query_keys: "fst ` set (window_query p ps f t) \<subseteq> {js ''page'', js ''page_size'', js ''from'', js ''to''}"
  by (auto simp: window_query_def when_field_def)

subsection \<open>Scoping\<close>

lemma log_filters_keys:
  "fst ` set (log_filters False sp) \<subseteq>
     {js ''group_name'', js ''api_key_id'', js ''provider'', js ''model_requested'', js ''error_type'', js ''blocked_by'',
      js ''stream'', js ''fallback'', js ''session_id'', js ''agent_type'', js ''ingress_protocol'', js ''application_id'',
      js ''environment'', js ''unattributed''}"
  unfolding log_filters_def image_Un set_append
  by (intro Un_least order_trans [OF when_param_keys]) (auto simp: when_field_def)

lemma tenant_not_filter:
  "js ''tenant'' \<notin> fst ` set (window_query p ps f t @ log_filters False sp)"
proof -
  have "js ''tenant'' \<notin> fst ` set (window_query p ps f t)"
    by (rule contra_subsetD [OF window_query_keys]) (simp add: js_def)
  moreover have "js ''tenant'' \<notin> fst ` set (log_filters False sp)"
    by (rule contra_subsetD [OF log_filters_keys]) (simp add: js_def)
  ultimately show ?thesis by auto
qed

lemma usage_tenant:
  "(\<And>v. (js ''tenant'', Some v) \<notin> set kvs) \<Longrightarrow>
   js ''tenant'' \<notin> fst ` set (defined_fields (usage_filters False from to sp @ kvs))"
  by (auto simp: defined_fields_keys usage_filters_def js_def)

lemma sending_session:
  assumes "bnd getSession f pf w = (r, w')" "\<And>s. session_of pf w = Some s \<Longrightarrow> sending P (f s)" "q \<in> added w w'"
  shows "P q"
proof (cases "session_of pf w")
  case None
  with assms(1) have "w' = w" by (simp add: bnd_apply getSession_run)
  with assms(3) show ?thesis by (simp add: added_def)
next
  case (Some s)
  with assms(1) have "f s pf w = (r, w')" by (simp add: getSession_bnd)
  from sending_added [OF assms(2) [OF Some] this assms(3)] show ?thesis .
qed

lemma sending_text_answer [page_intros]:
  "sending P (case page of Some (JStr s) \<Rightarrow> throw (PlainError m) | _ \<Rightarrow> ret ())"
  by (auto intro: page_intros split: option.split json.split)

text \<open>C10: only a super-admin chooses the tenant. For any other role no request of the usage page or of the
  request log page has a tenant filter, whatever the address says.\<close>

theorem tenant_scoped_queries:
  assumes "session_of pf w = Some s" and "sd_role s \<noteq> Some (js ''super-admin'')"
    and "UsagePage settled now sp pf w = (r, w') \<or> RequestLogsPage now sp pf w = (r, w')"
    and "q \<in> added w w'"
  shows "js ''tenant'' \<notin> fst ` set (rq_query q)"
proof -
  let ?P = "\<lambda>q. js ''tenant'' \<notin> fst ` set (rq_query q)"
  have role: "(sd_role s = Some (js ''super-admin'')) = False" using assms(2) by simp
  have neq: "js ''tenant'' \<noteq> js ''cursor''" "js ''tenant'' \<noteq> js ''limit''" "js ''tenant'' \<noteq> js ''group_by''"
    "js ''tenant'' \<noteq> js ''bucket''"
    by (simp_all add: js_def)
  from assms(3) show ?thesis
  proof
    assume run: "UsagePage settled now sp pf w = (r, w')"
    show ?thesis
    proof (rule sending_session [OF run [unfolded UsagePage_def] _ assms(4), where P = ?P], goal_cases)
      case (1 s')
      with assms(1) have s': "s' = s" by simp
      show ?case unfolding s' role Let_def if_False
        by (intro page_intros; simp add: mk_req_def usage_tenant neq)
    qed
  next
    assume run: "RequestLogsPage now sp pf w = (r, w')"
    show ?thesis
    proof (rule sending_session [OF run [unfolded RequestLogsPage_def] _ assms(4), where P = ?P], goal_cases)
      case (1 s')
      with assms(1) have s': "s' = s" by simp
      show ?case unfolding s' role Let_def if_False
        by (intro page_intros; simp only: mk_req_def areq.simps tenant_not_filter not_False_eq_True)
    qed
  qed
qed

text \<open>An operator without a role who asks for a tenant.\<close>

definition nosy_params :: form where
  "nosy_params = [(js ''tenant'', js ''other''), (js ''from'', js ''2024''), (js ''to'', js ''2025'')]"

lemma sample_request_logs:
  "\<exists>q w'. RequestLogsPage 0 nosy_params sample_platform sample_world = (fst (RequestLogsPage 0 nosy_params sample_platform sample_world), w') \<and>
     w_sent w' = [q] \<and> rq_path q = js ''/api/v1/request-logs''"
proof -
  have time: "time_or nosy_params (js ''from'') d = Inr (js ''2024'')" "time_or nosy_params (js ''to'') d = Inr (js ''2025'')" for d
    by (simp_all add: time_or_def nosy_params_def form_get_def js_def)
  have fetch: "pf_fetch sample_platform h = FetchResult \<lparr>fr_data = Some (JObj []), fr_error = None, fr_status = 200\<rparr>" for h
    by (simp add: sample_platform_def)
  have "\<exists>q. w_sent (snd (RequestLogsPage 0 nosy_params sample_platform sample_world)) = [q] \<and> rq_path q = js ''/api/v1/request-logs''"
    unfolding RequestLogsPage_def getSession_bnd [OF sample_session] Let_def time bnd_Inr [OF lift_res_apply] page_try_run
      client_run [OF sample_client_of]
    by (simp add: bnd_apply read_json_run Let_def fetch unwrap_def response_ok_def paged_def prop_or_run empty_session_def
        sample_world_def mk_req_def)
  then show ?thesis by (metis prod.collapse)
qed

theorem tenant_scoped_queries_witness:
  "\<exists>r w' q. RequestLogsPage 0 nosy_params sample_platform sample_world = (r, w') \<and> q \<in> added sample_world w' \<and>
     js ''tenant'' \<notin> fst ` set (rq_query q)"
proof -
  obtain q w' r where run: "RequestLogsPage 0 nosy_params sample_platform sample_world = (r, w')" "w_sent w' = [q]"
    using sample_request_logs by blast
  have q: "q \<in> added sample_world w'" using run(2) by (simp add: added_def sample_world_def)
  have "sd_role (empty_session\<lparr>sd_token := Some (js ''tok'')\<rparr>) \<noteq> Some (js ''super-admin'')" by (simp add: empty_session_def)
  from tenant_scoped_queries [OF sample_session this disjI2 [OF run(1)] q] run(1) q show ?thesis by blast
qed

subsection \<open>The window of a paged list\<close>

lemma page_number_valid: "1 \<le> d \<Longrightarrow> \<exists>n\<ge>1. page_number sp k d = Fin n"
proof -
  assume d: "1 \<le> d"
  define n where "n = (if form_raw sp k \<noteq> [] then js_Number (form_raw sp k) else Fin (of_nat d))"
  have "page_number sp k d = (if \<not> num_isFinite n \<or> num_lt n (Fin 1) then Fin (of_nat d) else n)"
    by (simp add: page_number_def n_def)
  with d show ?thesis by (cases n) (auto simp: not_less)
qed

definition valid_window :: "areq \<Rightarrow> bool" where
  "valid_window q \<longleftrightarrow> (\<exists>p ps. 1 \<le> p \<and> 1 \<le> ps \<and>
     map_of (rq_query q) (js ''page'') = Some (JNum (Fin p)) \<and> map_of (rq_query q) (js ''page_size'') = Some (JNum (Fin ps)))"

lemma window_query_valid:
  "valid_window (mk_req c GET path [] (window_query (page_number sp (js ''page'') 1) (page_number sp (js ''page_size'') 20) f t @ qs) None)"
  using page_number_valid [of 1 sp "js ''page''"] page_number_valid [of 20 sp "js ''page_size''"]
  by (auto simp: valid_window_def window_query_def mk_req_def js_def)

text \<open>Whatever page number or size the address holds, the audit page and the request log page ask for a
  finite page of at least 1 and a finite size of at least 1.\<close>

theorem window_bounds:
  assumes "AuditPage now sp pf w = (r, w') \<or> RequestLogsPage now sp pf w = (r, w')"
    and "q \<in> added w w'" and "rq_path q \<in> {js ''/api/v1/audit'', js ''/api/v1/request-logs''}"
  shows "\<exists>p ps. 1 \<le> p \<and> 1 \<le> ps \<and>
     map_of (rq_query q) (js ''page'') = Some (JNum (Fin p)) \<and> map_of (rq_query q) (js ''page_size'') = Some (JNum (Fin ps))"
proof -
  let ?P = "\<lambda>q. rq_path q \<in> {js ''/api/v1/audit'', js ''/api/v1/request-logs''} \<longrightarrow> valid_window q"
  have providers: "?P (mk_req c GET (js ''/api/v1/providers'') a b d)" for c a b d by (simp add: mk_req_def js_def)
  have window: "?P (mk_req c GET path [] (window_query (page_number sp (js ''page'') 1) (page_number sp (js ''page_size'') 20) f t @ qs) None)"
    for c path f t qs using window_query_valid by blast
  have auth: "sending ?P (onAuthExpired err)" for err
    by (cases err) (auto simp: onAuthExpired_def redirect_def intro: page_intros)
  have "sending ?P (AuditPage now sp)"
    unfolding AuditPage_def Let_def by (intro page_intros auth window)
  moreover have "sending ?P (RequestLogsPage now sp)"
    unfolding RequestLogsPage_def Let_def by (intro page_intros window providers)
  ultimately have "?P q" using assms(1,2) sending_added [where P = ?P] by blast
  with assms(3) show ?thesis by (simp add: valid_window_def)
qed

theorem window_bounds_witness:
  "\<exists>r w' q p ps. RequestLogsPage 0 nosy_params sample_platform sample_world = (r, w') \<and> q \<in> added sample_world w' \<and>
     1 \<le> p \<and> 1 \<le> ps \<and> map_of (rq_query q) (js ''page'') = Some (JNum (Fin p)) \<and>
     map_of (rq_query q) (js ''page_size'') = Some (JNum (Fin ps))"
proof -
  obtain q w' r where run: "RequestLogsPage 0 nosy_params sample_platform sample_world = (r, w')" "w_sent w' = [q]"
    "rq_path q = js ''/api/v1/request-logs''"
    using sample_request_logs by blast
  have q: "q \<in> added sample_world w'" using run(2) by (simp add: added_def sample_world_def)
  from window_bounds [OF disjI2 [OF run(1)] q] run(1,3) q show ?thesis by blast
qed

subsection \<open>Links to sessions\<close>

text \<open>A link to a session opens that session. The two session pages whose address holds the escaped id ask
  the admin API for exactly this id, and show it.\<close>

theorem session_link:
  assumes "encodeURIComponent sid = Inr seg"
    and "SessionDetailPage seg pf w = (r, w') \<or> SessionTracePage seg pf w = (r, w')"
  shows "(\<forall>q\<in>added w w'. rq_params q = [(js ''session_id'', JStr sid)]) \<and>
    (\<forall>name ps. r = Inr (Shown name ps) \<longrightarrow> map_of ps (js ''sessionID'') = Some (Some (JStr sid)))"
proof -
  note dec = decode_encode [OF assms(1)]
  let ?P = "\<lambda>q. rq_params q = [(js ''session_id'', JStr sid)]"
  have req: "?P (mk_req c GET path [(js ''session_id'', JStr sid)] [] None)" for c path by (simp add: mk_req_def)
  have send: "sending ?P (SessionDetailPage seg)" "sending ?P (SessionTracePage seg)"
    unfolding SessionDetailPage_def SessionTracePage_def dec session_meta_def bnd_lift_Inr by (intro page_intros req)+
  have "map_of ps (js ''sessionID'') = Some (Some (JStr sid))" if "r = Inr (Shown name ps)" for name ps
    using assms(2) that dec
    by (auto simp: SessionDetailPage_def SessionTracePage_def bnd_Inr_conv page_try_Shown)
  with sending_added [OF send(1)] sending_added [OF send(2)] assms(2) show ?thesis by blast
qed

theorem session_link_witness:
  "encodeURIComponent (js ''a/b'') = Inr (js ''a%2Fb'') \<and>
   (\<exists>r w'. SessionTracePage (js ''a%2Fb'') sample_platform sample_world = (r, w') \<and>
     (\<forall>q\<in>added sample_world w'. rq_params q = [(js ''session_id'', JStr (js ''a/b''))]))"
proof -
  have enc: "encodeURIComponent (js ''a/b'') = Inr (js ''a%2Fb'')" by code_simp
  obtain r w' where run: "SessionTracePage (js ''a%2Fb'') sample_platform sample_world = (r, w')" by fastforce
  from session_link [OF enc disjI2 [OF run]] run enc show ?thesis by blast
qed

text \<open>The message page, in contrast, asks for the segment of its address as it stands, escapes included.\<close>

lemma messages_page_segment:
  "sending (\<lambda>q. rq_path q = js ''/api/v1/trace/sessions/{session_id}'' \<longrightarrow> rq_params q = [(js ''session_id'', JStr seg)])
     (TraceMessagesPage seg req)"
  (is "sending ?P _")
proof -
  have reqs: "?P (mk_req c GET (js ''/api/v1/trace/rows/{id}'') a b d)"
    "?P (mk_req c GET path [(js ''session_id'', JStr seg)] b d)" for c path a b d
    by (simp_all add: mk_req_def js_def)
  have "sending ?P (case err of AdminError status ty m \<Rightarrow> if status = 404 then ret x else throw err | _ \<Rightarrow> throw err)"
    for err and x :: jsval
    by (cases err) (auto intro: page_intros)
  then have "sending ?P (fetchDetailByRow n)" for n
    unfolding fetchDetailByRow_def read_json_def [symmetric] by (intro page_intros reqs(1))
  then show ?thesis unfolding TraceMessagesPage_def Let_def by (intro page_intros reqs(2))
qed

subsection \<open>Token totals\<close>

lemma sum_prop_exact:
  assumes "\<And>m. m \<in> set ms \<Longrightarrow> prop_or (Some m) k (JNum (Fin 0)) = Inr (JNum (num_int (tok m))) \<and> 0 \<le> tok m"
    and "0 \<le> a" "a + sum_list (map tok ms) \<le> 2 ^ 53"
  shows "sum_prop k (JNum (num_int a)) ms = Inr (JNum (num_int (a + sum_list (map tok ms))))"
  using assms
proof (induction ms arbitrary: a)
  case (Cons m ms)
  have "0 \<le> sum_list (map tok ms)" using Cons.prems(1) by (intro sum_list_nonneg) auto
  then have "safe (a + tok m)" using Cons.prems by (auto simp: safe_def)
  then have "js_plus (JNum (num_int a)) (JNum (num_int (tok m))) = JNum (num_int (a + tok m))"
    by (simp add: js_plus_def num_add_int del: num_add.simps of_int_add)
  then show ?case using Cons.IH [of "a + tok m"] Cons.prems by (simp add: add.assoc)
qed simp

lemma first_agent_total: "JNull \<notin> set rs \<Longrightarrow> \<exists>a. first_agent rs = Inr a"
proof (induction rs)
  case (Cons r rs)
  then have "\<not> is_nullish (Some r)" by (cases r) auto
  with Cons show ?case by (simp add: get_prop_Inr)
qed simp

text \<open>The totals of a session are exact. When the rows carry non-negative token counts (a missing one counts
  as 0) whose sum is at most 2^53, each total is the sum, and the request count is the number of trace rows.\<close>

theorem session_totals:
  assumes "\<forall>k\<in>{js ''prompt_tokens'', js ''completion_tokens'', js ''total_tokens''}.
      (\<forall>m\<in>set ms. prop_or (Some m) k (JNum (Fin 0)) = Inr (JNum (num_int (tok k m))) \<and> 0 \<le> tok k m) \<and>
      sum_list (map (tok k) ms) \<le> 2 ^ 53"
    and "JNull \<notin> set ts"
  shows "\<exists>agent started. session_stats (JArr ts) (JArr ms) = Inr (JObj
    [(js ''agent_type'', agent), (js ''started_at'', started), (js ''request_count'', JNum (num_int (int (length ts)))),
     (js ''prompt_tokens'', JNum (num_int (sum_list (map (tok (js ''prompt_tokens'')) ms)))),
     (js ''completion_tokens'', JNum (num_int (sum_list (map (tok (js ''completion_tokens'')) ms)))),
     (js ''total_tokens'', JNum (num_int (sum_list (map (tok (js ''total_tokens'')) ms))))])"
proof -
  have sum: "sum_prop k (JNum (Fin 0)) ms = Inr (JNum (num_int (sum_list (map (tok k) ms))))"
    if "k \<in> {js ''prompt_tokens'', js ''completion_tokens'', js ''total_tokens''}" for k
  proof -
    have "(\<forall>m\<in>set ms. prop_or (Some m) k (JNum (Fin 0)) = Inr (JNum (num_int (tok k m))) \<and> 0 \<le> tok k m) \<and>
        sum_list (map (tok k) ms) \<le> 2 ^ 53"
      using assms(1) that by blast
    with sum_prop_exact [of ms k "tok k" 0] show ?thesis by simp
  qed
  obtain a where "first_agent ts = Inr a" using first_agent_total [OF assms(2)] by blast
  then show ?thesis by (simp add: session_stats_def Let_def sum)
qed

theorem session_totals_witness:
  "\<exists>agent started. session_stats (JArr []) (JArr [JObj [(js ''prompt_tokens'', JNum (num_int 3)), (js ''total_tokens'', JNum (num_int 3))],
       JObj [(js ''prompt_tokens'', JNum (num_int 4))]]) = Inr (JObj
    [(js ''agent_type'', agent), (js ''started_at'', started), (js ''request_count'', JNum (num_int 0)),
     (js ''prompt_tokens'', JNum (num_int 7)), (js ''completion_tokens'', JNum (num_int 0)),
     (js ''total_tokens'', JNum (num_int 3))])"
proof -
  let ?ms = "[JObj [(js ''prompt_tokens'', JNum (num_int 3)), (js ''total_tokens'', JNum (num_int 3))],
    JObj [(js ''prompt_tokens'', JNum (num_int 4))]]"
  let ?tok = "\<lambda>k m. if k = js ''prompt_tokens'' then (if m = ?ms ! 0 then 3 else 4)
    else if k = js ''total_tokens'' \<and> m = ?ms ! 0 then 3 else (0 :: int)"
  have neq: "js ''completion_tokens'' \<noteq> js ''prompt_tokens''" "js ''total_tokens'' \<noteq> js ''prompt_tokens''"
    "js ''completion_tokens'' \<noteq> js ''total_tokens''" "js ''prompt_tokens'' \<noteq> js ''total_tokens''"
    by (simp_all add: js_def)
  have "\<forall>k\<in>{js ''prompt_tokens'', js ''completion_tokens'', js ''total_tokens''}.
      (\<forall>m\<in>set ?ms. prop_or (Some m) k (JNum (Fin 0)) = Inr (JNum (num_int (?tok k m))) \<and> 0 \<le> ?tok k m) \<and>
      sum_list (map (?tok k) ?ms) \<le> 2 ^ 53"
    by (simp add: prop_or_run neq neq [symmetric])
  from session_totals [OF this, of "[]"] show ?thesis by (simp add: neq)
qed

subsection \<open>Following the cursors\<close>

text \<open>The admin API serves a list as a chain of pages: asked with a cursor, it answers with the rows of the
  page and the cursor of the next one, until a page has none.\<close>

fun serves :: "platform \<Rightarrow> admin_client \<Rightarrow> jsstr \<Rightarrow> jsval \<Rightarrow> (json \<times> jsval) list \<Rightarrow> bool" where
  "serves pf c path cursor [] \<longleftrightarrow> False"
| "serves pf c path cursor ((rows, next) # rest) \<longleftrightarrow>
     (\<forall>h. \<exists>r. pf_fetch pf (h @ [mk_req c GET path []
           (defined_fields [(js ''limit'', Some (JNum (Fin 500))), (js ''cursor'', cursor)]) None]) = FetchResult r \<and>
        fr_error r = None \<and> response_ok r \<and> \<not> is_nullish (fr_data r) \<and>
        coalesce (opt_prop (fr_data r) (js ''data'')) (JArr []) = rows \<and>
        opt_prop (fr_data r) (js ''next_cursor'') = next) \<and>
     (if truthy next then serves pf c path next rest else rest = [])"

lemma options_page_run:
  assumes "serves pf c path cursor ((rows, next) # rest)" "options rows = Inr os"
  shows "\<exists>w'. options_page c path options cursor pf w = (Inr (os, if truthy next then next else None), w') \<and>
    w_cookie w' = w_cookie w"
  using assms
  by (auto simp: options_page_def bnd_apply read_json_run Let_def unwrap_def prop_or_run get_prop_Inr
      split: fetch_outcome.splits dest!: spec [of _ "w_sent w"])

lemma all_options_complete:
  assumes "serves pf c path cursor pages" "length pages \<le> fuel"
    and "list_all2 (\<lambda>p os. options (fst p) = Inr os) pages oss"
  shows "\<exists>w'. all_options fuel c path options acc cursor pf w = (Inr (Some (acc @ concat oss)), w') \<and> w_cookie w' = w_cookie w"
  using assms
proof (induction pages arbitrary: fuel cursor acc oss w)
  case (Cons p rest)
  obtain rows "next" where p: "p = (rows, next)" by fastforce
  obtain f where f: "fuel = Suc f" "length rest \<le> f" using Cons.prems(2) by (cases fuel) auto
  obtain os oss' where os: "oss = os # oss'" "options rows = Inr os" "list_all2 (\<lambda>p os. options (fst p) = Inr os) rest oss'"
    using Cons.prems(3) p by (auto simp: list_all2_Cons1)
  obtain w1 where w1: "options_page c path options cursor pf w = (Inr (os, if truthy next then next else None), w1)"
    "w_cookie w1 = w_cookie w"
    using options_page_run [where options = options, OF Cons.prems(1) [unfolded p] os(2)] by blast
  show ?case
  proof (cases "truthy next")
    case True
    then obtain n where n: "next = Some n" by (cases "next") auto
    have "serves pf c path next rest" using Cons.prems(1) p True by simp
    from Cons.IH [OF this f(2) os(3), of "acc @ os" w1] w1 True n os(1) show ?thesis
      by (auto simp: f(1) bnd_apply)
  next
    case False
    then have "rest = []" using Cons.prems(1) p by simp
    with os have "oss = [os]" by simp
    with w1 False show ?thesis by (simp add: f(1) bnd_apply)
  qed
qed simp

lemma client_of_cookie: "w_cookie w' = w_cookie w \<Longrightarrow> client_of pf w' = client_of pf w"
  by (simp add: client_of_def session_of_def split: option.split)

text \<open>C9: the API key page ends and loses no option. When the admin API serves the groups, the applications and
  the models as chains of pages, fuel for the longest chain is enough, and the page shows the options of every
  page of each chain in order.\<close>

theorem keys_page_complete:
  assumes "client_of pf w = Some c"
    and "\<And>h q. \<exists>r. pf_fetch pf (h @ [mk_req c GET (js ''/api/v1/api-keys'') [] q None]) = FetchResult r \<and>
      fr_error r = None \<and> response_ok r \<and> \<not> is_nullish (fr_data r)"
    and "serves pf c (js ''/api/v1/groups'') None gs" and "list_all2 (\<lambda>p os. group_options (fst p) = Inr os) gs go"
    and "serves pf c (js ''/api/v1/applications'') None as" and "list_all2 (\<lambda>p os. application_options (fst p) = Inr os) as ao"
    and "serves pf c (js ''/api/v1/models'') None ms" and "list_all2 (\<lambda>p os. model_options (fst p) = Inr os) ms mo"
    and "length gs \<le> fuel" and "length as \<le> fuel" and "length ms \<le> fuel"
  shows "\<exists>rows next unbound w'. APIKeysPage fuel sp pf w = (Inr (Some (Shown (js ''APIKeysPageClient'')
     [(js ''rows'', rows), (js ''nextCursor'', next), (js ''models'', Some (JArr (concat mo))),
      (js ''groups'', Some (JArr (concat go))), (js ''applications'', Some (JArr (concat ao))),
      (js ''unbound'', unbound)])), w')"
proof -
  let ?q = "defined_fields [(js ''cursor'', str_param sp (js ''cursor'')), (js ''limit'', num_param sp (js ''limit'')),
     (js ''unbound'', if form_get sp (js ''unbound'') = Some (js ''true'') then Some (JBool True) else None)]"
  obtain v w1 where keys: "read_json c (js ''/api/v1/api-keys'') [] ?q pf w = (Inr v, w1)" "\<not> is_nullish v"
    using assms(2) [of "w_sent w" ?q] by (auto simp: read_json_run Let_def unwrap_def)
  obtain w2 where g: "all_options fuel c (js ''/api/v1/groups'') group_options [] None pf w1 = (Inr (Some (concat go)), w2)"
    using all_options_complete [OF assms(3,9,4), of "[]" w1] by auto
  obtain w3 where a: "all_options fuel c (js ''/api/v1/applications'') application_options [] None pf w2 = (Inr (Some (concat ao)), w3)"
    using all_options_complete [OF assms(5,10,6), of "[]" w2] by auto
  obtain w4 where m: "all_options fuel c (js ''/api/v1/models'') model_options [] None pf w3 = (Inr (Some (concat mo)), w4)"
    using all_options_complete [OF assms(7,11,8), of "[]" w3] by auto
  show ?thesis
    unfolding APIKeysPage_def Let_def bnd_apply [of "try_catch _ _"] try_catch_apply client_run [OF assms(1)]
    by (simp add: bnd_apply g a m prop_or_run keys split del: if_split)
qed

text \<open>Two pages of groups, no applications, no models.\<close>

definition chain_answer :: "areq \<Rightarrow> json" where
  "chain_answer q =
     (if rq_path q = js ''/api/v1/groups'' then
        (if map_of (rq_query q) (js ''cursor'') = None
         then JObj [(js ''data'', JArr [JObj [(js ''id'', JStr (js ''1'')), (js ''name'', JStr (js ''a''))]]), (js ''next_cursor'', JStr (js ''n''))]
         else JObj [(js ''data'', JArr [JObj [(js ''id'', JStr (js ''2''))]])])
      else JObj [])"

definition chain_platform :: platform where
  "chain_platform = sample_platform\<lparr>pf_fetch := (\<lambda>h. FetchResult
     \<lparr>fr_data = Some (chain_answer (last h)), fr_error = None, fr_status = 200\<rparr>)\<rparr>"

lemma chain_fetch:
  "pf_fetch chain_platform (h @ [q]) = FetchResult \<lparr>fr_data = Some (chain_answer q), fr_error = None, fr_status = 200\<rparr>"
  by (simp add: chain_platform_def)

lemma chain_serves:
  "serves chain_platform c (js ''/api/v1/groups'') None
     [(JArr [JObj [(js ''id'', JStr (js ''1'')), (js ''name'', JStr (js ''a''))]], Some (JStr (js ''n''))),
      (JArr [JObj [(js ''id'', JStr (js ''2''))]], None)]"
  "path \<noteq> js ''/api/v1/groups'' \<Longrightarrow> serves chain_platform c path None [(JArr [], None)]"
proof -
  have neq: "js ''next_cursor'' \<noteq> js ''data''" "js ''cursor'' \<noteq> js ''limit''" "js ''n'' \<noteq> []" by (simp_all add: js_def)
  show "serves chain_platform c (js ''/api/v1/groups'') None
     [(JArr [JObj [(js ''id'', JStr (js ''1'')), (js ''name'', JStr (js ''a''))]], Some (JStr (js ''n''))),
      (JArr [JObj [(js ''id'', JStr (js ''2''))]], None)]"
    by (simp add: chain_fetch chain_answer_def mk_req_def response_ok_def defined_fields_def neq)
  show "path \<noteq> js ''/api/v1/groups'' \<Longrightarrow> serves chain_platform c path None [(JArr [], None)]"
    by (simp add: chain_fetch chain_answer_def mk_req_def response_ok_def)
qed

theorem keys_page_complete_witness:
  "\<exists>rows next unbound w'. APIKeysPage 2 [] chain_platform sample_world = (Inr (Some (Shown (js ''APIKeysPageClient'')
     [(js ''rows'', rows), (js ''nextCursor'', next), (js ''models'', Some (JArr [])),
      (js ''groups'', Some (JArr [option_entry (Some (JStr (js ''1''))) (Some (JStr (js ''a''))),
         option_entry (Some (JStr (js ''2''))) (Some (JStr (js ''2'')))])),
      (js ''applications'', Some (JArr [])), (js ''unbound'', unbound)])), w')"
proof -
  have client: "client_of chain_platform sample_world = Some sample_client" by (simp add: chain_platform_def)
  have neq: "js ''name'' \<noteq> js ''id''" "js ''/api/v1/applications'' \<noteq> js ''/api/v1/groups''"
    "js ''/api/v1/models'' \<noteq> js ''/api/v1/groups''" "js ''/api/v1/api-keys'' \<noteq> js ''/api/v1/groups''"
    by (simp_all add: js_def)
  have keys: "\<exists>r. pf_fetch chain_platform (h @ [mk_req sample_client GET (js ''/api/v1/api-keys'') [] q None]) = FetchResult r \<and>
      fr_error r = None \<and> response_ok r \<and> \<not> is_nullish (fr_data r)" for h q
    by (simp add: chain_fetch response_ok_def chain_answer_def mk_req_def neq)
  note chains = chain_serves(1) chain_serves(2) [OF neq(2)] chain_serves(2) [OF neq(3)]
  have g: "list_all2 (\<lambda>p os. group_options (fst p) = Inr os)
      [(JArr [JObj [(js ''id'', JStr (js ''1'')), (js ''name'', JStr (js ''a''))]], Some (JStr (js ''n''))),
       (JArr [JObj [(js ''id'', JStr (js ''2''))]], None)]
      [[option_entry (Some (JStr (js ''1''))) (Some (JStr (js ''a'')))], [option_entry (Some (JStr (js ''2''))) (Some (JStr (js ''2'')))]]"
    by (simp add: group_options_def named_option_def val_String_def neq)
  have a: "list_all2 (\<lambda>p os. application_options (fst p) = Inr os) [(JArr [], None)] [[]]"
    and m: "list_all2 (\<lambda>p os. model_options (fst p) = Inr os) [(JArr [], None)] [[]]"
    by (simp_all add: application_options_def model_options_def)
  from keys_page_complete [OF client keys chains(1) g chains(2) a chains(3) m, of 2 "[]"] show ?thesis by simp
qed

subsection \<open>Budgets\<close>

lemma forbidden_read_run:
  "forbidden_read pf w = (Inr (Notice (notice_for pf (pf_translate pf (js ''budgets'') (js ''forbiddenRead'')))), w)"
  by (simp add: forbidden_read_def bnd_apply ForbiddenNotice_run)

text \<open>Budgets are read only with the permission. Without it both pages show the notice and send nothing; a
  global operator who has chosen no tenant is asked to choose one before any account is read.\<close>

theorem budgets_gated:
  assumes "session_of pf w = Some s"
  shows "(\<not> has s (js ''budget.read'') \<longrightarrow>
      BudgetsPage sp pf w = (Inr (Notice (notice_for pf (pf_translate pf (js ''budgets'') (js ''forbiddenRead'')))), w) \<and>
      snd (BudgetDetail settled i sp pf w) = w) \<and>
    (sd_scopeKind s = Some (js ''global'') \<and> blank sp (js ''tenant'') \<longrightarrow> snd (BudgetDetail settled i sp pf w) = w)"
proof -
  have blank: "js_trim (form_raw sp (js ''tenant'')) = []" if "blank sp (js ''tenant'')"
    using that form_str_blank [of sp "js ''tenant''"] by (simp add: form_str_def)
  have quiet_detail: "snd (BudgetDetail settled i sp pf w) = w"
    if "\<not> has s (js ''budget.read'') \<or> sd_scopeKind s = Some (js ''global'') \<and> js_trim (form_raw sp (js ''tenant'')) = []"
    using that unfolding BudgetDetail_def getSession_bnd [OF assms] Let_def
    by (cases "budget_back (sd_scopeKind s = Some (js ''global'')) (form_raw sp (js ''tenant''))")
      (auto simp: bnd_apply forbidden_read_run)
  show ?thesis
    using quiet_detail blank by (auto simp: BudgetsPage_def getSession_bnd [OF assms] forbidden_read_run)
qed

theorem budgets_gated_witness:
  "BudgetsPage [] sample_platform sample_world = (Inr (Notice (js ''forbiddenRead'')), sample_world)"
proof -
  have "\<not> has (empty_session\<lparr>sd_token := Some (js ''tok'')\<rparr>) (js ''budget.read'')"
    by (simp add: has_def empty_session_def)
  moreover have "notice_for sample_platform (pf_translate sample_platform (js ''budgets'') (js ''forbiddenRead'')) = js ''forbiddenRead''"
    by (simp add: notice_for_def sample_platform_def mapBackendError_def js_def)
  ultimately show ?thesis using budgets_gated [OF sample_session, of "[]"] by simp
qed

end
