(* ===== verification/Panel.thy ===== *)
theory Panel
  imports Actions_Org Actions_Config Pages_Config Pages_Usage
begin

text \<open>
  The Control Panel as one system. The layout that every dashboard page passes
  through (\<^verbatim>\<open>app/[locale]/(dashboard)/layout.tsx\<close>): its guard and its navigation.
  Then the step relation of a browser session: an operation of the dashboard, a
  sign-in, a sign-out or the opening of a page takes the world of \<open>Server\<close> to the next one. The
  operations satisfy the locales of \<open>Admin_Write\<close> (the interpretations of the
  three action theories), the pages that of \<open>Page_Load\<close>; from these contracts follow the invariants of every
  reachable world, by induction on the run.
\<close>

section \<open>Layout and navigation\<close>

datatype nav_key =
    NavOverview | NavProvider | NavTenant | NavOperator | NavRole | NavConfigHistory | NavSettings
  | NavDataplane | NavApiKey | NavApplication | NavBudget | NavUsage | NavAudit | NavRequestLog

fun NAV_PERMS :: "nav_key \<Rightarrow> jsstr" where
  "NAV_PERMS NavOverview = js ''overview.read''"
| "NAV_PERMS NavProvider = js ''provider.read''"
| "NAV_PERMS NavTenant = js ''tenant.read''"
| "NAV_PERMS NavOperator = js ''operator.read''"
| "NAV_PERMS NavRole = js ''role.read''"
| "NAV_PERMS NavConfigHistory = js ''config_history.read''"
| "NAV_PERMS NavSettings = js ''settings.read''"
| "NAV_PERMS NavDataplane = js ''dataplane.read''"
| "NAV_PERMS NavApiKey = js ''api_key.read''"
| "NAV_PERMS NavApplication = js ''application.read''"
| "NAV_PERMS NavBudget = js ''budget.read''"
| "NAV_PERMS NavUsage = js ''usage.read''"
| "NAV_PERMS NavAudit = js ''audit.read''"
| "NAV_PERMS NavRequestLog = js ''request_log.read''"

text \<open>A link: its target and the key of its label.\<close>

type_synonym nav_link = "jsstr \<times> jsstr"

text \<open>\<^verbatim>\<open>cond && <>...</>\<close>\<close>

definition when_links :: "bool \<Rightarrow> nav_link list \<Rightarrow> nav_link list" where
  "when_links b ls = (if b then ls else [])"

definition nav_links :: "session_data \<Rightarrow> nav_link list" where
  "nav_links session =
     when_links (sd_scopeKind session = Some (js ''global''))
       (when_links (has session (NAV_PERMS NavOverview)) [(js ''/overview'', js ''nav.overview'')] @
        when_links (has session (NAV_PERMS NavProvider))
          [(js ''/providers'', js ''nav.providers''), (js ''/models'', js ''nav.models''),
           (js ''/routes'', js ''nav.routes''), (js ''/plugins'', js ''nav.plugins'')] @
        when_links (has session (NAV_PERMS NavTenant)) [(js ''/tenants'', js ''nav.tenants'')] @
        when_links (has session (NAV_PERMS NavOperator)) [(js ''/operators'', js ''nav.operators'')] @
        when_links (has session (NAV_PERMS NavRole)) [(js ''/roles'', js ''nav.roles'')] @
        when_links (has session (NAV_PERMS NavConfigHistory)) [(js ''/config/history'', js ''nav.configHistory'')] @
        when_links (has session (NAV_PERMS NavSettings)) [(js ''/settings'', js ''nav.settings'')] @
        when_links (has session (NAV_PERMS NavDataplane)) [(js ''/data-plane-nodes'', js ''nav.dataPlaneNodes'')]) @
     when_links (sd_scopeKind session = Some (js ''tenant'') \<and> has session (NAV_PERMS NavApiKey))
       [(js ''/api-keys'', js ''nav.apiKeys''), (js ''/groups'', js ''nav.groups''),
        (js ''/applications'', js ''nav.applications''), (js ''/quotas'', js ''nav.quotas'')] @
     when_links (has session (NAV_PERMS NavBudget)) [(js ''/budgets'', js ''nav.budgets'')] @
     when_links (has session (NAV_PERMS NavUsage)) [(js ''/usage'', js ''nav.usage'')] @
     when_links (has session (NAV_PERMS NavAudit)) [(js ''/audit'', js ''nav.audit'')] @
     when_links (has session (NAV_PERMS NavRequestLog)) [(js ''/request-logs'', js ''nav.requestLogs'')] @
     when_links (has session (NAV_PERMS NavRequestLog)) [(js ''/trace'', js ''nav.trace'')]"

text \<open>\<^verbatim>\<open>!s\<close> of an optional string.\<close>

definition no_text :: "jsstr option \<Rightarrow> bool" where
  "no_text s \<longleftrightarrow> s = None \<or> s = Some []"

definition DashboardLayout :: "nav_link list act" where
  "DashboardLayout = bnd getSession (\<lambda>session.
     if no_text (sd_token session) \<or> no_text (sd_role session)
     then redirect_locale (js ''/login'')
     else ret (nav_links session))"

text \<open>What the navigation means: each page with the scope it belongs to, if any, and the permission that
  opens it, in the order of the sidebar.\<close>

definition nav_table :: "(jsstr option \<times> nav_key \<times> nav_link) list" where
  "nav_table =
     map (\<lambda>(k, l). (Some (js ''global''), k, l))
       [(NavOverview, js ''/overview'', js ''nav.overview''),
        (NavProvider, js ''/providers'', js ''nav.providers''), (NavProvider, js ''/models'', js ''nav.models''),
        (NavProvider, js ''/routes'', js ''nav.routes''), (NavProvider, js ''/plugins'', js ''nav.plugins''),
        (NavTenant, js ''/tenants'', js ''nav.tenants''), (NavOperator, js ''/operators'', js ''nav.operators''),
        (NavRole, js ''/roles'', js ''nav.roles''),
        (NavConfigHistory, js ''/config/history'', js ''nav.configHistory''),
        (NavSettings, js ''/settings'', js ''nav.settings''),
        (NavDataplane, js ''/data-plane-nodes'', js ''nav.dataPlaneNodes'')] @
     map (\<lambda>(k, l). (Some (js ''tenant''), k, l))
       [(NavApiKey, js ''/api-keys'', js ''nav.apiKeys''), (NavApiKey, js ''/groups'', js ''nav.groups''),
        (NavApiKey, js ''/applications'', js ''nav.applications''), (NavApiKey, js ''/quotas'', js ''nav.quotas'')] @
     map (\<lambda>(k, l). (None, k, l))
       [(NavBudget, js ''/budgets'', js ''nav.budgets''), (NavUsage, js ''/usage'', js ''nav.usage''),
        (NavAudit, js ''/audit'', js ''nav.audit''), (NavRequestLog, js ''/request-logs'', js ''nav.requestLogs''),
        (NavRequestLog, js ''/trace'', js ''nav.trace'')]"

fun nav_visible :: "session_data \<Rightarrow> jsstr option \<times> nav_key \<times> nav_link \<Rightarrow> bool" where
  "nav_visible s (scope, k, l) \<longleftrightarrow> (scope = None \<or> sd_scopeKind s = scope) \<and> has s (NAV_PERMS k)"

section \<open>Operations\<close>

text \<open>Every Server Action and every page of the dashboard with its arguments. A run reports whether the result the form
  gets says that it worked.\<close>

definition reports :: "('a \<Rightarrow> bool) \<Rightarrow> 'a act \<Rightarrow> bool act" where
  "reports ok m = bnd m (\<lambda>x. ret (ok x))"

datatype org_op =
    CreateGroup form
  | SetGroupEnabled jsstr bool
  | DeleteGroup jsstr
  | CreateTenant form
  | SetTenantEnabled jsstr bool
  | CreateApplication form
  | SetApplicationEnabled jsstr bool
  | DeleteApplication jsstr
  | CreateOperator form
  | UpdateOperator form
  | DeleteOperator jsnum
  | ChangePassword form
  | TopupQuota form
  | UpdateSettings form

datatype config_op =
    CreateProvider form
  | UpdateProvider form
  | DeleteProvider jsstr
  | TestProvider jsstr
  | TestProviderConnection ProviderTestSpec
  | CreateModel form
  | UpdateModel form
  | DeleteModel jsstr
  | UpsertRoute form
  | UpdateRoute form
  | DeleteRoute jsstr
  | UpsertPlugin form
  | UpdatePlugin form
  | DeletePlugin jsstr jsstr

datatype access_op =
    CreateRole form
  | UpdateRole form
  | DeleteRole jsnum
  | CreateAPIKey form
  | UpdateAPIKey form
  | RevokeAPIKey jsstr
  | CreateBudget jsstr form
  | UpdateBudget jsstr jsnum jsnum form
  | ResolveReservation jsstr jsstr jsnum form
  | Rollback jsnum
  | DiffVersions jsnum jsnum
  | ReadSnapshot jsnum
  | PreviewConfig json
  | FetchTracePair bool jsnum jsnum

text \<open>Opening a page, with its search parameters, route parameters, the clock and, where it matters, the order in
  which parallel reads settle.\<close>

datatype page_op =
    OpenProviders form
  | OpenTenants form
  | OpenGroups form
  | OpenPlugins form
  | OpenConfigHistory form
  | OpenOperators form
  | OpenRoutes form
  | OpenRoles
  | OpenDataPlaneNodes
  | OpenSettings
  | OpenModels form
  | OpenModel jsstr
  | OpenCatalog form
  | OpenCatalogModel jsstr
  | OpenApplications nat int form
  | OpenQuotas
  | OpenOverview zone int form
  | OpenAudit int form
  | OpenRequestLogs int form
  | OpenSessionLogs jsstr
  | OpenUsage nat int form
  | OpenTrace form
  | OpenTraceSession jsstr
  | OpenTraceRaw jsstr jsstr
  | OpenTraceMessages jsstr jsstr
  | OpenBudgets form
  | OpenBudget nat jsstr form
  | OpenAPIKeys nat form

datatype panel_op = Org org_op | Config config_op | Access access_op | Visit page_op

primrec run_org_op :: "org_op \<Rightarrow> bool act" where
  "run_org_op (CreateGroup a) = reports is_ok (createGroup a)"
| "run_org_op (SetGroupEnabled a b) = reports is_ok (setGroupEnabled a b)"
| "run_org_op (DeleteGroup a) = reports is_ok (deleteGroup a)"
| "run_org_op (CreateTenant a) = reports is_ok (createTenant a)"
| "run_org_op (SetTenantEnabled a b) = reports is_ok (setTenantEnabled a b)"
| "run_org_op (CreateApplication a) = reports is_ok (createApplication a)"
| "run_org_op (SetApplicationEnabled a b) = reports is_ok (setApplicationEnabled a b)"
| "run_org_op (DeleteApplication a) = reports is_ok (deleteApplication a)"
| "run_org_op (CreateOperator a) = reports is_ok (createOperator a)"
| "run_org_op (UpdateOperator a) = reports is_ok (updateOperator a)"
| "run_org_op (DeleteOperator a) = reports is_ok (deleteOperator a)"
| "run_org_op (ChangePassword a) = reports is_ok (changePassword a)"
| "run_org_op (TopupQuota a) = reports is_ok (topupQuota a)"
| "run_org_op (UpdateSettings a) = reports is_ok (updateSettings a)"

primrec run_config_op :: "config_op \<Rightarrow> bool act" where
  "run_config_op (CreateProvider a) = reports is_ok (createProvider a)"
| "run_config_op (UpdateProvider a) = reports is_ok (updateProvider a)"
| "run_config_op (DeleteProvider a) = reports is_ok (deleteProvider a)"
| "run_config_op (TestProvider a) = reports test_ok (testProvider a)"
| "run_config_op (TestProviderConnection a) = reports test_ok (testProviderConnection a)"
| "run_config_op (CreateModel a) = reports is_ok (createModel a)"
| "run_config_op (UpdateModel a) = reports is_ok (updateModel a)"
| "run_config_op (DeleteModel a) = reports is_ok (deleteModel a)"
| "run_config_op (UpsertRoute a) = reports is_ok (upsertRoute a)"
| "run_config_op (UpdateRoute a) = reports is_ok (updateRoute a)"
| "run_config_op (DeleteRoute a) = reports is_ok (deleteRoute a)"
| "run_config_op (UpsertPlugin a) = reports is_ok (upsertPlugin a)"
| "run_config_op (UpdatePlugin a) = reports is_ok (updatePlugin a)"
| "run_config_op (DeletePlugin a b) = reports is_ok (deletePlugin a b)"

primrec run_access_op :: "access_op \<Rightarrow> bool act" where
  "run_access_op (CreateRole a) = reports is_ok (createRole a)"
| "run_access_op (UpdateRole a) = reports is_ok (updateRole a)"
| "run_access_op (DeleteRole a) = reports is_ok (deleteRole a)"
| "run_access_op (CreateAPIKey a) = reports key_ok (createAPIKey a)"
| "run_access_op (UpdateAPIKey a) = reports is_ok (updateAPIKey a)"
| "run_access_op (RevokeAPIKey a) = reports is_ok (revokeAPIKey a)"
| "run_access_op (CreateBudget a b) = reports is_ok (createBudget a b)"
| "run_access_op (UpdateBudget a b c d) = reports is_ok (updateBudget a b c d)"
| "run_access_op (ResolveReservation a b c d) = reports is_ok (resolveReservation a b c d)"
| "run_access_op (Rollback a) = reports (\<lambda>_. True) (rollbackAction a)"
| "run_access_op (DiffVersions a b) = reports (\<lambda>_. True) (diffAction a b)"
| "run_access_op (ReadSnapshot a) = reports (\<lambda>_. True) (snapshotAction a)"
| "run_access_op (PreviewConfig a) = reports (\<lambda>_. True) (previewAction a)"
| "run_access_op (FetchTracePair a b c) = reports pair_ok (fetchTraceDetailPair a b c)"

definition opened :: "page act \<Rightarrow> page option act" where
  "opened m = bnd m (\<lambda>p. ret (Some p))"

primrec open_page :: "page_op \<Rightarrow> page option act" where
  "open_page (OpenProviders sp) = opened (ProvidersPage sp)"
| "open_page (OpenTenants sp) = opened (TenantsPage sp)"
| "open_page (OpenGroups sp) = opened (GroupsPage sp)"
| "open_page (OpenPlugins sp) = opened (PluginsPage sp)"
| "open_page (OpenConfigHistory sp) = opened (ConfigHistoryPage sp)"
| "open_page (OpenOperators sp) = opened (OperatorsPage sp)"
| "open_page (OpenRoutes sp) = opened (RoutesPage sp)"
| "open_page OpenRoles = opened RolesPage"
| "open_page OpenDataPlaneNodes = opened DataPlaneNodesPage"
| "open_page OpenSettings = opened SettingsPage"
| "open_page (OpenModels sp) = opened (ModelsPage sp)"
| "open_page (OpenModel a) = opened (ModelDetailPage a)"
| "open_page (OpenCatalog sp) = opened (ModelCatalogPage sp)"
| "open_page (OpenCatalogModel a) = opened (CatalogDetailPage a)"
| "open_page (OpenApplications k now sp) = opened (ApplicationsPage k now sp)"
| "open_page OpenQuotas = opened QuotasPage"
| "open_page (OpenOverview z now sp) = opened (OverviewPage z now sp)"
| "open_page (OpenAudit now sp) = opened (AuditPage now sp)"
| "open_page (OpenRequestLogs now sp) = opened (RequestLogsPage now sp)"
| "open_page (OpenSessionLogs s) = opened (SessionTracePage s)"
| "open_page (OpenUsage k now sp) = opened (UsagePage k now sp)"
| "open_page (OpenTrace sp) = opened (TracePage sp)"
| "open_page (OpenTraceSession s) = opened (SessionDetailPage s)"
| "open_page (OpenTraceRaw s req) = opened (TraceRawPage s req)"
| "open_page (OpenTraceMessages s req) = opened (TraceMessagesPage s req)"
| "open_page (OpenBudgets sp) = opened (BudgetsPage sp)"
| "open_page (OpenBudget k i sp) = opened (BudgetDetail k i sp)"
| "open_page (OpenAPIKeys fuel sp) = APIKeysPage fuel sp"

primrec run_op :: "panel_op \<Rightarrow> bool act" where
  "run_op (Org a) = run_org_op a"
| "run_op (Config a) = run_config_op a"
| "run_op (Access a) = run_access_op a"
| "run_op (Visit p) = reports (\<lambda>_. True) (open_page p)"

primrec org_op_paths :: "org_op \<Rightarrow> (jsstr \<times> jsstr option) list" where
  "org_op_paths (CreateGroup a) = [(js ''/groups'', None)]"
| "org_op_paths (SetGroupEnabled a b) = [(js ''/groups'', None)]"
| "org_op_paths (DeleteGroup a) = [(js ''/groups'', None)]"
| "org_op_paths (CreateTenant a) = [(js ''/tenants'', None)]"
| "org_op_paths (SetTenantEnabled a b) = [(js ''/tenants'', None)]"
| "org_op_paths (CreateApplication a) = [(js ''/applications'', None)]"
| "org_op_paths (SetApplicationEnabled a b) = [(js ''/applications'', None)]"
| "org_op_paths (DeleteApplication a) = [(js ''/applications'', None)]"
| "org_op_paths (CreateOperator a) = [(js ''/operators'', None)]"
| "org_op_paths (UpdateOperator a) = [(js ''/operators'', None)]"
| "org_op_paths (DeleteOperator a) = [(js ''/operators'', None)]"
| "org_op_paths (ChangePassword a) = []"
| "org_op_paths (TopupQuota a) = [(js ''/quotas'', None)]"
| "org_op_paths (UpdateSettings a) = [(js ''/settings'', None)]"

primrec config_op_paths :: "config_op \<Rightarrow> (jsstr \<times> jsstr option) list" where
  "config_op_paths (CreateProvider a) = [(js ''/providers'', None)]"
| "config_op_paths (UpdateProvider a) = [(js ''/providers'', None)]"
| "config_op_paths (DeleteProvider a) = [(js ''/providers'', None)]"
| "config_op_paths (TestProvider a) = []"
| "config_op_paths (TestProviderConnection a) = []"
| "config_op_paths (CreateModel a) = [(js ''/models'', None)]"
| "config_op_paths (UpdateModel a) = [(js ''/models'', None)]"
| "config_op_paths (DeleteModel a) = [(js ''/models'', None)]"
| "config_op_paths (UpsertRoute a) = [(js ''/routes'', None)]"
| "config_op_paths (UpdateRoute a) = [(js ''/routes'', None)]"
| "config_op_paths (DeleteRoute a) = [(js ''/routes'', None)]"
| "config_op_paths (UpsertPlugin a) = [(js ''/plugins'', None)]"
| "config_op_paths (UpdatePlugin a) = [(js ''/plugins'', None)]"
| "config_op_paths (DeletePlugin a b) = [(js ''/plugins'', None)]"

primrec access_op_paths :: "access_op \<Rightarrow> (jsstr \<times> jsstr option) list" where
  "access_op_paths (CreateRole a) = [(js ''/roles'', None)]"
| "access_op_paths (UpdateRole a) = [(js ''/roles'', None)]"
| "access_op_paths (DeleteRole a) = [(js ''/roles'', None)]"
| "access_op_paths (CreateAPIKey a) = [(js ''/api-keys'', None)]"
| "access_op_paths (UpdateAPIKey a) = [(js ''/api-keys'', None)]"
| "access_op_paths (RevokeAPIKey a) = [(js ''/api-keys'', None)]"
| "access_op_paths (CreateBudget a b) = budget_pages"
| "access_op_paths (UpdateBudget a b c d) = budget_pages"
| "access_op_paths (ResolveReservation a b c d) = budget_pages"
| "access_op_paths (Rollback a) = [(js ''/config/history'', None)]"
| "access_op_paths (DiffVersions a b) = []"
| "access_op_paths (ReadSnapshot a) = []"
| "access_op_paths (PreviewConfig a) = []"
| "access_op_paths (FetchTracePair a b c) = []"

primrec op_paths :: "panel_op \<Rightarrow> (jsstr \<times> jsstr option) list" where
  "op_paths (Org a) = org_op_paths a"
| "op_paths (Config a) = config_op_paths a"
| "op_paths (Access a) = access_op_paths a"
| "op_paths (Visit p) = []"

text \<open>The operations that keep the whole contract. Saving the settings does not look at the status of the
  answer, creating a key may fail after the list was marked stale, reading a pair of trace rows treats a
  missing row as an answer, and pages show what was refused.\<close>

definition checked :: "panel_op \<Rightarrow> bool" where
  "checked op = (case op of Org (UpdateSettings f) \<Rightarrow> False | Access (CreateAPIKey f) \<Rightarrow> False
     | Access (FetchTracePair o' a b) \<Rightarrow> False | Visit p \<Rightarrow> False | _ \<Rightarrow> True)"

text \<open>What a report of success says about the answer to a request: that the admin API accepted it, for every
  Server Action but two. The settings form only knows that the answer carried no error object; a lookup of
  a trace row may also have been answered with 404.\<close>

definition vouched :: "panel_op \<Rightarrow> platform \<Rightarrow> areq list \<Rightarrow> bool" where
  "vouched op pf h \<longleftrightarrow>
     (case op of
        Org (UpdateSettings f) \<Rightarrow> \<exists>r. pf_fetch pf h = FetchResult r \<and> \<not> truthy (fr_error r)
      | Access (FetchTracePair o' a b) \<Rightarrow> accepted pf h \<or> (\<exists>ty m. answer pf h = Inl (AdminError 404 ty m))
      | _ \<Rightarrow> accepted pf h)"

definition server_action :: "panel_op \<Rightarrow> bool" where
  "server_action op = (case op of Visit p \<Rightarrow> False | _ \<Rightarrow> True)"

text \<open>Where an action that goes through \<^verbatim>\<open>unwrap\<close> sends the operator when the session has expired: those
  that handle the error with \<^verbatim>\<open>toFormError\<close> to the login page, those of the configuration history to the
  logout route. The actions on roles show the error.\<close>

primrec expiry_exit :: "access_op \<Rightarrow> jsstr option" where
  "expiry_exit (CreateRole a) = None"
| "expiry_exit (UpdateRole a) = None"
| "expiry_exit (DeleteRole a) = None"
| "expiry_exit (CreateAPIKey a) = Some (js ''/login'')"
| "expiry_exit (UpdateAPIKey a) = Some (js ''/login'')"
| "expiry_exit (RevokeAPIKey a) = Some (js ''/login'')"
| "expiry_exit (CreateBudget a b) = Some (js ''/login'')"
| "expiry_exit (UpdateBudget a b c d) = Some (js ''/login'')"
| "expiry_exit (ResolveReservation a b c d) = Some (js ''/login'')"
| "expiry_exit (Rollback a) = Some (js ''/logout'')"
| "expiry_exit (DiffVersions a b) = Some (js ''/logout'')"
| "expiry_exit (ReadSnapshot a) = Some (js ''/logout'')"
| "expiry_exit (PreviewConfig a) = Some (js ''/logout'')"
| "expiry_exit (FetchTracePair a b c) = Some (js ''/login'')"

definition creates_key :: "panel_op \<Rightarrow> bool" where
  "creates_key op = (case op of Access (CreateAPIKey f) \<Rightarrow> True | _ \<Rightarrow> False)"

section \<open>Sessions\<close>

datatype event =
    Did panel_op "bool res"
  | SignIn form
  | SignOut
  | LogoutRoute
  | Load

inductive step :: "platform \<Rightarrow> world \<Rightarrow> event \<Rightarrow> world \<Rightarrow> bool" for pf where
  step_op: "run_op op pf w = (r, w') \<Longrightarrow> step pf w (Did op r) w'"
| step_login: "loginAction f pf w = (r, w') \<Longrightarrow> step pf w (SignIn f) w'"
| step_logout: "logoutAction pf w = (r, w') \<Longrightarrow> step pf w SignOut w'"
| step_route: "logout_GET pf w = (r, w') \<Longrightarrow> step pf w LogoutRoute w'"
| step_load: "DashboardLayout pf w = (r, w') \<Longrightarrow> step pf w Load w'"

inductive_cases step_DidE: "step pf w (Did op r) w'"
inductive_cases step_SignInE: "step pf w (SignIn f) w'"
inductive_simps step_SignOut: "step pf w SignOut w'"
inductive_simps step_LogoutRoute: "step pf w LogoutRoute w'"
inductive_simps step_Load: "step pf w Load w'"

inductive run :: "platform \<Rightarrow> world \<Rightarrow> event list \<Rightarrow> world \<Rightarrow> bool" for pf w where
  run_nil: "run pf w [] w"
| run_snoc: "run pf w es w1 \<Longrightarrow> step pf w1 e w2 \<Longrightarrow> run pf w (es @ [e]) w2"

definition fresh_world :: world where
  "fresh_world = \<lparr>w_cookie = None, w_sent = [], w_revalidated = []\<rparr>"

section \<open>The contract of every operation\<close>

lemma reportsE:
  assumes "reports ok m pf w = (r, w')"
  obtains r0 where "m pf w = (r0, w')" "\<And>x. r = Inr x \<Longrightarrow> \<exists>y. r0 = Inr y \<and> x = ok y" "\<And>y. r0 = Inr y \<Longrightarrow> r = Inr (ok y)"
  using assms by (auto simp: reports_def bnd_apply split: prod.splits sum.splits)

lemma reports_panel:
  assumes "panel_action m ok ps"
  shows "panel_action (reports ok m) id ps"
proof
  fix pf w r w' assume "reports ok m pf w = (r, w')"
  then obtain r0 where run: "m pf w = (r0, w')" by (rule reportsE)
  show "\<exists>rs. w_sent w' = w_sent w @ rs \<and> (\<forall>q\<in>set rs. \<exists>c. client_of pf w = Some c \<and> from_client c q)"
    by (rule panel_action.sends [OF assms run])
  show "w_cookie w' = w_cookie w \<or> w_cookie w' = None"
    by (rule panel_action.cookie [OF assms run])
  show "w_revalidated w' = w_revalidated w \<or> w_revalidated w' = w_revalidated w @ ps"
    by (rule panel_action.marks [OF assms run])
next
  fix pf w x w' assume "reports ok m pf w = (Inr x, w')" "id x"
  then obtain y where "m pf w = (Inr y, w')" "ok y" by (auto elim!: reportsE)
  then show "w_revalidated w' = w_revalidated w @ ps"
    by (rule panel_action.marks_ok [OF assms])
qed

lemma reports_atomic:
  assumes "atomic_action m ok ps"
  shows "atomic_action (reports ok m) id ps"
proof (intro atomic_action.intro atomic_action_axioms.intro reports_panel)
  show "panel_action m ok ps" by (rule atomic_action.axioms(1) [OF assms])
next
  fix pf w r w' assume run: "reports ok m pf w = (r, w')" and bad: "\<And>x. r = Inr x \<Longrightarrow> \<not> id x"
  from run obtain r0 where "m pf w = (r0, w')" "\<And>y. r0 = Inr y \<Longrightarrow> r = Inr (ok y)"
    by (rule reportsE) blast
  with bad show "w_revalidated w' = w_revalidated w"
    by (intro atomic_action.silent [OF assms]) auto
qed

lemma reports_write:
  assumes "admin_write m ok ps"
  shows "admin_write (reports ok m) id ps"
proof (intro admin_write.intro admin_write_axioms.intro reports_atomic)
  show "atomic_action m ok ps" by (rule admin_write.axioms(1) [OF assms])
next
  fix pf w x w' rs assume "reports ok m pf w = (Inr x, w')" "id x" "w_sent w' = w_sent w @ rs"
  then show "all_accepted pf (w_sent w) rs"
    by (auto elim!: reportsE intro: admin_write.accepts [OF assms])
qed

text \<open>The interpretations of the three action theories, collected.\<close>

lemmas write_actions =
  createGroup.admin_write_axioms setGroupEnabled.admin_write_axioms deleteGroup.admin_write_axioms
    createTenant.admin_write_axioms setTenantEnabled.admin_write_axioms
    createApplication.admin_write_axioms setApplicationEnabled.admin_write_axioms
    deleteApplication.admin_write_axioms createOperator.admin_write_axioms
    updateOperator.admin_write_axioms deleteOperator.admin_write_axioms
    changePassword.admin_write_axioms topupQuota.admin_write_axioms
    createProvider.admin_write_axioms updateProvider.admin_write_axioms
    deleteProvider.admin_write_axioms testProvider.admin_write_axioms
    testProviderConnection.admin_write_axioms createModel.admin_write_axioms
    updateModel.admin_write_axioms deleteModel.admin_write_axioms upsertRoute.admin_write_axioms
    updateRoute.admin_write_axioms deleteRoute.admin_write_axioms upsertPlugin.admin_write_axioms
    updatePlugin.admin_write_axioms deletePlugin.admin_write_axioms createRole.admin_write_axioms
    updateRole.admin_write_axioms deleteRole.admin_write_axioms updateAPIKey.admin_write_axioms
    revokeAPIKey.admin_write_axioms createBudget.admin_write_axioms updateBudget.admin_write_axioms
    resolveReservation.admin_write_axioms rollbackAction.admin_write_axioms
    diffAction.admin_write_axioms snapshotAction.admin_write_axioms previewAction.admin_write_axioms

text \<open>And those of the pages: the guarded ones, the two others.\<close>

lemmas guarded_pages =
  ProvidersPage.guarded_page_axioms TenantsPage.guarded_page_axioms GroupsPage.guarded_page_axioms
    PluginsPage.guarded_page_axioms ConfigHistoryPage.guarded_page_axioms OperatorsPage.guarded_page_axioms
    RoutesPage.guarded_page_axioms RolesPage.guarded_page_axioms DataPlaneNodesPage.guarded_page_axioms
    SettingsPage.guarded_page_axioms ModelsPage.guarded_page_axioms ModelDetailPage.guarded_page_axioms
    ModelCatalogPage.guarded_page_axioms CatalogDetailPage.guarded_page_axioms
    ApplicationsPage.guarded_page_axioms OverviewPage.guarded_page_axioms RequestLogsPage.guarded_page_axioms
    SessionTracePage.guarded_page_axioms UsagePage.guarded_page_axioms TracePage.guarded_page_axioms
    SessionDetailPage.guarded_page_axioms TraceRawPage.guarded_page_axioms
    TraceMessagesPage.guarded_page_axioms BudgetsPage.guarded_page_axioms BudgetDetail.guarded_page_axioms

lemma opened_run: "opened m pf w = (r, w') \<longleftrightarrow> (\<exists>r0. m pf w = (r0, w') \<and> r = map_sum id Some r0)"
  by (auto simp: opened_def bnd_apply split: prod.splits sum.splits)

lemma opened_load: "page_load m \<Longrightarrow> page_load (opened m)"
  unfolding page_load_def opened_run by blast

lemma opened_guarded: "guarded_page m \<Longrightarrow> guarded_page (opened m)"
  using opened_load [of m] unfolding guarded_page_def guarded_page_axioms_def opened_run
  by (metis id_apply map_sum.simps(1) obj_sumE sum.distinct(1) map_sum.simps(2) sum.inject(1))

definition guards :: "page_op \<Rightarrow> bool" where
  "guards p = (case p of OpenQuotas \<Rightarrow> False | OpenAudit now sp \<Rightarrow> False | _ \<Rightarrow> True)"

lemma open_guarded: "guards p \<Longrightarrow> guarded_page (open_page p)"
  by (cases p) (simp_all add: guards_def opened_guarded guarded_pages APIKeysPage.guarded_page_axioms)

lemma open_load: "page_load (open_page p)"
proof (cases "guards p")
  case True
  then show ?thesis by (rule guarded_page.axioms(1) [OF open_guarded])
next
  case False
  then show ?thesis
    by (auto simp: guards_def opened_load QuotasPage.page_load_axioms AuditPage.page_load_axioms split: page_op.splits)
qed

lemma checked_write: "checked op \<Longrightarrow> admin_write (run_op op) id (op_paths op)"
proof (cases op)
  case (Org a)
  assume "checked op"
  with Org show ?thesis by (cases a) (simp_all add: checked_def reports_write write_actions)
next
  case (Config a)
  then show ?thesis by (cases a) (simp_all add: reports_write write_actions)
next
  case (Access a)
  assume "checked op"
  with Access show ?thesis by (cases a) (simp_all add: checked_def reports_write write_actions)
next
  case (Visit p)
  assume "checked op"
  with Visit show ?thesis by (simp add: checked_def)
qed

lemma op_atomic: "\<not> creates_key op \<Longrightarrow> atomic_action (run_op op) id (op_paths op)"
proof (cases "checked op")
  case True
  then show ?thesis by (rule admin_write.axioms(1) [OF checked_write])
next
  case False
  assume "\<not> creates_key op"
  with False show ?thesis
    by (auto simp: checked_def creates_key_def reports_atomic updateSettings.atomic_action_axioms
        fetchTraceDetailPair.atomic_action_axioms page_load.as_action [OF open_load] split: panel_op.splits org_op.splits access_op.splits)
qed

lemma op_panel: "panel_action (run_op op) id (op_paths op)"
proof (cases "creates_key op")
  case True
  then show ?thesis
    by (auto simp: creates_key_def reports_panel createAPIKey.panel_action_axioms
        split: panel_op.splits access_op.splits)
next
  case False
  then show ?thesis using atomic_action.axioms(1) [OF op_atomic] by blast
qed

section \<open>The contract of every step\<close>

text \<open>A step that is not a sign-in uses the client of the current session and keeps or destroys the
  cookie.\<close>

lemma step_frame:
  assumes "step pf w e w'" "\<And>f. e \<noteq> SignIn f"
  obtains rs where "w_sent w' = w_sent w @ rs"
    "\<forall>q\<in>set rs. \<exists>c. client_of pf w = Some c \<and> from_client c q"
    "w_cookie w' = w_cookie w \<or> w_cookie w' = None"
  using assms(1)
proof cases
  case (step_op op r)
  from panel_action.sends [OF op_panel step_op(2)] panel_action.cookie [OF op_panel step_op(2)] that
  show thesis by blast
next
  case (step_login f r)
  with assms(2) show thesis by blast
next
  case (step_logout r)
  with that [of "[]"] show thesis
    by (auto simp: logoutAction_def bnd_apply clearSession_run split: option.splits)
next
  case (step_route r)
  with that [of "[]"] show thesis
    by (auto simp: logout_GET_def bnd_apply clearSession_run split: option.splits)
next
  case (step_load r)
  with that [of "[]"] show thesis
    by (auto simp: DashboardLayout_def redirect_locale_def bnd_apply getSession_run split: option.splits if_splits)
qed

text \<open>Where a token comes from: some earlier request was a sign-in whose answer issued it.\<close>

definition issued :: "platform \<Rightarrow> areq list \<Rightarrow> jsstr \<Rightarrow> bool" where
  "issued pf h t \<longleftrightarrow> (\<exists>n<length h. \<exists>u f. h ! n = login_req u f \<and> token_issued pf (take (Suc n) h) t)"

lemma issued_append: "issued pf h t \<Longrightarrow> issued pf (h @ rs) t"
  unfolding issued_def by (metis length_append nth_append take_append append_Nil2 diff_is_0_eq' Suc_leI take_0 trans_less_add1)

lemma issued_last: "token_issued pf (h @ [login_req u f]) t \<Longrightarrow> issued pf (h @ [login_req u f]) t"
  unfolding issued_def by (rule exI [of _ "length h"]) auto

text \<open>A request may carry no authorization or that of a token issued before it.\<close>

definition entitled :: "platform \<Rightarrow> areq list \<Rightarrow> areq \<Rightarrow> bool" where
  "entitled pf h q \<longleftrightarrow> pf_ADMIN_URL pf = Some (rq_base q) \<and>
     (rq_auth q = None \<or> (\<exists>t. rq_auth q = Some (js ''Bearer '' @ t) \<and> issued pf h t))"

definition sealed_cookie :: "platform \<Rightarrow> world \<Rightarrow> bool" where
  "sealed_cookie pf w \<longleftrightarrow> (\<forall>c. w_cookie w = Some c \<longrightarrow>
     (\<exists>k d t. secret_ok pf = Some k \<and> c = pf_seal pf k d \<and> sd_token d = Some t \<and> issued pf (w_sent w) t))"

definition provenance :: "platform \<Rightarrow> world \<Rightarrow> bool" where
  "provenance pf w \<longleftrightarrow> sealed_cookie pf w \<and>
     (\<forall>i<length (w_sent w). entitled pf (take i (w_sent w)) (w_sent w ! i))"

lemma entitled_append: "entitled pf h q \<Longrightarrow> entitled pf (h @ rs) q"
  using issued_append unfolding entitled_def by blast

lemma provenance_extend:
  assumes "provenance pf w" "w_sent w' = w_sent w @ rs" "sealed_cookie pf w'"
    and "\<And>i. i < length rs \<Longrightarrow> entitled pf (w_sent w @ take i rs) (rs ! i)"
  shows "provenance pf w'"
  unfolding provenance_def
proof (intro conjI allI impI)
  fix i assume i: "i < length (w_sent w')"
  show "entitled pf (take i (w_sent w')) (w_sent w' ! i)"
  proof (cases "i < length (w_sent w)")
    case True
    with assms(1,2) show ?thesis by (simp add: provenance_def nth_append)
  next
    case False
    with assms(2,4) i show ?thesis by (simp add: nth_append)
  qed
qed (rule assms(3))

lemma sealed_keep:
  assumes "sealed_cookie pf w" "w_sent w' = w_sent w @ rs" "w_cookie w' = w_cookie w \<or> w_cookie w' = None"
  shows "sealed_cookie pf w'"
  using assms issued_append unfolding sealed_cookie_def by (metis option.distinct(1))

lemma client_entitled:
  assumes "sealed_cookie pf w" "\<And>k d. sd_token (pf_unseal pf k (pf_seal pf k d)) = sd_token d"
    and "client_of pf w = Some c" "from_client c q"
  shows "entitled pf (w_sent w) q"
proof -
  from assms(3) obtain u s where us: "pf_ADMIN_URL pf = Some u" "session_of pf w = Some s"
    "c = createAdminClient u (sd_token s)"
    by (auto simp: client_of_def split: option.splits if_splits)
  have "sd_token s = None \<or> (\<exists>t. sd_token s = Some t \<and> issued pf (w_sent w) t)"
  proof (cases "w_cookie w")
    case None
    with us(2) show ?thesis by (auto simp: session_of_def empty_session_def)
  next
    case (Some ck)
    with assms(1) obtain k d t where "secret_ok pf = Some k" "ck = pf_seal pf k d" "sd_token d = Some t"
      "issued pf (w_sent w) t" unfolding sealed_cookie_def by blast
    with us(2) Some assms(2) show ?thesis by (auto simp: session_of_def)
  qed
  with us assms(4) show ?thesis
    by (auto simp: entitled_def from_client_def createAdminClient_def split: option.splits if_splits)
qed

lemma login_req_entitled:
  "pf_ADMIN_URL pf = Some u \<Longrightarrow> entitled pf h (login_req u f)"
  by (simp add: entitled_def login_req_def mk_req_def createAdminClient_def)

lemma me_req_entitled:
  "pf_ADMIN_URL pf = Some u \<Longrightarrow> issued pf h t \<Longrightarrow> entitled pf h (me_req u t)"
  by (simp add: entitled_def me_req_def mk_req_def createAdminClient_def)

lemma login_token [simp]: "sd_token (login_session t email me) = Some t"
  by (simp add: login_session_def)

lemma login_outcome:
  assumes "loginAction f pf w = (r, w')"
  obtains (idle) "w' = w"
    | (creds) u where "pf_ADMIN_URL pf = Some u" "w' = w\<lparr>w_sent := w_sent w @ [login_req u f]\<rparr>"
    | (token) u t where "pf_ADMIN_URL pf = Some u" "token_issued pf (w_sent w @ [login_req u f]) t"
        "w_sent w' = w_sent w @ [login_req u f, me_req u t]" "w_revalidated w' = w_revalidated w"
        "w_cookie w' = w_cookie w \<or>
         (\<exists>k d. secret_ok pf = Some k \<and> w_cookie w' = Some (pf_seal pf k d) \<and> sd_token d = Some t)"
proof -
  from login_run [OF assms] consider "w' = w"
    | u where "pf_ADMIN_URL pf = Some u" "w' = w\<lparr>w_sent := w_sent w @ [login_req u f]\<rparr>"
    | u t where "pf_ADMIN_URL pf = Some u" "token_issued pf (w_sent w @ [login_req u f]) t"
        "login_identity (form_raw f (js ''email'')) t pf (w\<lparr>w_sent := w_sent w @ [login_req u f]\<rparr>) = (r, w')"
    by blast
  then show thesis
  proof cases
    case (3 u t)
    from login_identity_run [OF 3(3,1)]
    have "w_sent w' = w_sent w @ [login_req u f, me_req u t] \<and> w_revalidated w' = w_revalidated w \<and>
        (w_cookie w' = w_cookie w \<or>
         (\<exists>k d. secret_ok pf = Some k \<and> w_cookie w' = Some (pf_seal pf k d) \<and> sd_token d = Some t))"
      by (auto, metis login_token)
    with 3 token show thesis by blast
  qed (use idle creds in blast)+
qed

lemma provenance_login:
  assumes "provenance pf w" "loginAction f pf w = (r, w')"
  shows "provenance pf w'"
proof -
  from assms(2) show ?thesis
  proof (cases rule: login_outcome)
    case idle
    with assms(1) show ?thesis by simp
  next
    case (creds u)
    show ?thesis
      by (rule provenance_extend [OF assms(1)], use creds sealed_keep [of pf w w'] assms(1) in
          \<open>auto simp: provenance_def login_req_entitled\<close>)
  next
    case (token u t)
    let ?rs = "[login_req u f, me_req u t]"
    have iss: "issued pf (w_sent w @ [login_req u f]) t" by (rule issued_last [OF token(2)])
    then have iss2: "issued pf (w_sent w @ ?rs) t" using issued_append [OF iss, of "[me_req u t]"] by simp
    note sent = token(3)
    have "sealed_cookie pf w'"
    proof (cases "w_cookie w' = w_cookie w")
      case True
      then show ?thesis using sealed_keep [OF _ sent] assms(1) by (simp add: provenance_def)
    next
      case False
      with token(5) iss2 sent show ?thesis unfolding sealed_cookie_def by (metis option.inject)
    qed
    then show ?thesis
      by (rule provenance_extend [OF assms(1) sent])
        (auto simp: less_Suc_eq nth_Cons login_req_entitled me_req_entitled token(1) iss)
  qed
qed

lemma provenance_step:
  assumes "provenance pf w" "step pf w e w'" "\<And>k d. sd_token (pf_unseal pf k (pf_seal pf k d)) = sd_token d"
  shows "provenance pf w'"
proof (cases "\<exists>f. e = SignIn f")
  case True
  with assms(2) show ?thesis by (auto elim: step_SignInE intro: provenance_login [OF assms(1)])
next
  case False
  then obtain rs where rs: "w_sent w' = w_sent w @ rs"
    "\<forall>q\<in>set rs. \<exists>c. client_of pf w = Some c \<and> from_client c q" "w_cookie w' = w_cookie w \<or> w_cookie w' = None"
    using step_frame [OF assms(2)] by blast
  have sealed: "sealed_cookie pf w" using assms(1) by (simp add: provenance_def)
  show ?thesis
  proof (rule provenance_extend [OF assms(1) rs(1) sealed_keep [OF sealed rs(1,3)]])
    fix i assume "i < length rs"
    with rs(2) obtain c where "client_of pf w = Some c" "from_client c (rs ! i)" by (meson nth_mem)
    then show "entitled pf (w_sent w @ take i rs) (rs ! i)"
      by (intro entitled_append client_entitled [OF sealed assms(3)])
  qed
qed

lemma run_invariant:
  assumes "run pf w es w'" "I w" "\<And>w1 e w2. I w1 \<Longrightarrow> step pf w1 e w2 \<Longrightarrow> I w2"
  shows "I w'"
  using assms by (induction rule: run.induct) blast+

lemma run_append: "run pf w es w1 \<Longrightarrow> run pf w1 es' w2 \<Longrightarrow> run pf w (es @ es') w2"
proof (rotate_tac, induction rule: run.induct)
  case (run_snoc es' w2 e w3)
  then show ?case by (metis append.assoc run.run_snoc)
qed simp

section \<open>Signed out\<close>

text \<open>Without a cookie every step but a sign-in sends its requests without authorization and leaves the
  session empty.\<close>

lemma signed_out_step:
  assumes "step pf w e w'" "\<And>f. e \<noteq> SignIn f" "w_cookie w = None"
  obtains rs where "w_sent w' = w_sent w @ rs" "\<forall>q\<in>set rs. rq_auth q = None" "w_cookie w' = None"
proof -
  obtain rs where rs: "w_sent w' = w_sent w @ rs"
    "\<forall>q\<in>set rs. \<exists>c. client_of pf w = Some c \<and> from_client c q" "w_cookie w' = w_cookie w \<or> w_cookie w' = None"
    using step_frame [OF assms(1,2)] by blast
  have "cl_auth c = None" if "client_of pf w = Some c" for c
    using that assms(3)
    by (auto simp: client_of_def session_of_def empty_session_def createAdminClient_def split: option.splits if_splits)
  with rs(2) have "\<forall>q\<in>set rs. rq_auth q = None" by (metis from_client_def)
  with rs assms(3) that show thesis by metis
qed

lemma signed_out_run:
  assumes "run pf w es w'" "w_cookie w = None" "\<forall>f. SignIn f \<notin> set es"
  shows "w_cookie w' = None \<and> (\<exists>rs. w_sent w' = w_sent w @ rs \<and> (\<forall>q\<in>set rs. rq_auth q = None))"
  using assms
proof (induction rule: run.induct)
  case (run_snoc es w1 e w2)
  then obtain rs where rs: "w_cookie w1 = None" "w_sent w1 = w_sent w @ rs" "\<forall>q\<in>set rs. rq_auth q = None"
    by auto
  from run_snoc.prems have "e \<noteq> SignIn f" for f by auto
  from signed_out_step [OF run_snoc.hyps(2) this rs(1)] obtain rs' where
    "w_sent w2 = w_sent w1 @ rs'" "\<forall>q\<in>set rs'. rq_auth q = None" "w_cookie w2 = None" by blast
  with rs show ?case by (intro conjI exI [of _ "rs @ rs'"]) auto
qed auto

section \<open>Stale pages\<close>

text \<open>The pages a step marks stale.\<close>

definition stale :: "event \<Rightarrow> (jsstr \<times> jsstr option) list" where
  "stale e = (case e of Did op r \<Rightarrow> if r = Inr True then op_paths op else [] | _ \<Rightarrow> [])"

lemma stale_simps [simp]:
  "stale (Did op r) = (if r = Inr True then op_paths op else [])"
  "stale (SignIn f) = []" "stale SignOut = []" "stale LogoutRoute = []" "stale Load = []"
  by (simp_all add: stale_def)

definition key_creation :: "event \<Rightarrow> bool" where
  "key_creation e = (case e of Did op r \<Rightarrow> creates_key op | _ \<Rightarrow> False)"

lemma login_revalidated: "loginAction f pf w = (r, w') \<Longrightarrow> w_revalidated w' = w_revalidated w"
  by (erule login_outcome) simp_all

lemma op_stale:
  assumes "run_op op pf w = (r, w')" "\<not> creates_key op"
  shows "w_revalidated w' = w_revalidated w @ stale (Did op r)"
proof (cases "r = Inr True")
  case True
  with panel_action.marks_ok [OF op_panel, of op pf w True w'] assms(1) show ?thesis by simp
next
  case False
  with atomic_action.silent [OF op_atomic [OF assms(2)] assms(1)] False show ?thesis
    by (auto simp del: id_apply) (metis (full_types) id_apply)
qed

lemma step_stale:
  assumes "step pf w e w'" "\<not> key_creation e"
  shows "w_revalidated w' = w_revalidated w @ stale e"
  using assms(1)
proof cases
  case (step_op op r)
  with assms(2) op_stale [OF step_op(2)] show ?thesis by (simp add: key_creation_def)
qed (auto simp: login_revalidated logoutAction_def logout_GET_def DashboardLayout_def redirect_locale_def bnd_apply
    clearSession_run getSession_run split: option.splits if_splits)

lemma run_stale:
  assumes "run pf w es w'" "\<forall>e\<in>set es. \<not> key_creation e"
  shows "w_revalidated w' = w_revalidated w @ concat (map stale es)"
  using assms by (induction rule: run.induct) (auto dest: step_stale)

section \<open>Abstract session\<close>

text \<open>What the panel promises about the session, without forms, pages or the API: it is signed out or
  signed in with a token, and a step is described by the authorizations of the requests it sends.\<close>

datatype session_state = SignedOut | SignedIn jsstr

fun cred :: "session_state \<Rightarrow> jsstr option" where
  "cred SignedOut = None"
| "cred (SignedIn t) = (if t = [] then None else Some (js ''Bearer '' @ t))"

inductive session_step :: "session_state \<Rightarrow> jsstr option list \<Rightarrow> session_state \<Rightarrow> bool" where
  work: "set auths \<subseteq> {cred s} \<Longrightarrow> session_step s auths s"
| expire: "set auths \<subseteq> {cred s} \<Longrightarrow> session_step s auths SignedOut"
| refuse: "auths = [None] \<or> auths = [None, cred (SignedIn t)] \<Longrightarrow> session_step s auths s"
| sign_in: "session_step s [None, cred (SignedIn t)] (SignedIn t)"

definition session_abs :: "platform \<Rightarrow> world \<Rightarrow> session_state" where
  "session_abs pf w =
     (case session_of pf w of
        None \<Rightarrow> SignedOut
      | Some s \<Rightarrow> (case sd_token s of None \<Rightarrow> SignedOut | Some t \<Rightarrow> SignedIn t))"

lemma client_cred: "client_of pf w = Some c \<Longrightarrow> cl_auth c = cred (session_abs pf w)"
  by (auto simp: client_of_def session_abs_def createAdminClient_def split: option.splits if_splits)

lemma session_abs_cookie:
  "w_cookie w' = w_cookie w \<Longrightarrow> session_abs pf w' = session_abs pf w"
  "w_cookie w' = None \<Longrightarrow> session_abs pf w' = SignedOut"
  by (auto simp: session_abs_def session_of_def empty_session_def split: option.splits)

lemma req_auth: "rq_auth (login_req u f) = None" "rq_auth (me_req u t) = cred (SignedIn t)"
  by (simp_all add: login_req_def me_req_def mk_req_def createAdminClient_def)

lemma login_refines:
  assumes "loginAction f pf w = (r, w')" "\<And>k d. sd_token (pf_unseal pf k (pf_seal pf k d)) = sd_token d"
  shows "\<exists>rs. w_sent w' = w_sent w @ rs \<and> session_step (session_abs pf w) (map rq_auth rs) (session_abs pf w')"
proof -
  from assms(1) show ?thesis
  proof (cases rule: login_outcome)
    case idle
    then show ?thesis by (auto intro: exI [of _ "[]"] work)
  next
    case (creds u)
    then have "session_abs pf w' = session_abs pf w" by (intro session_abs_cookie) simp
    with creds show ?thesis by (intro exI [of _ "[login_req u f]"]) (auto simp: req_auth intro: refuse)
  next
    case (token u t)
    let ?rs = "[login_req u f, me_req u t]"
    from token(5) show ?thesis
    proof
      assume "w_cookie w' = w_cookie w"
      then have "session_abs pf w' = session_abs pf w" by (rule session_abs_cookie)
      with token(3) show ?thesis by (intro exI [of _ ?rs]) (auto simp: req_auth intro: refuse)
    next
      assume "\<exists>k d. secret_ok pf = Some k \<and> w_cookie w' = Some (pf_seal pf k d) \<and> sd_token d = Some t"
      then have "session_abs pf w' = SignedIn t" by (auto simp: session_abs_def session_of_def assms(2))
      with token(3) show ?thesis
        by (intro exI [of _ ?rs]) (simp add: req_auth sign_in del: cred.simps)
    qed
  qed
qed

lemma step_refines:
  assumes "step pf w e w'" "\<And>k d. sd_token (pf_unseal pf k (pf_seal pf k d)) = sd_token d"
  shows "\<exists>rs. w_sent w' = w_sent w @ rs \<and> session_step (session_abs pf w) (map rq_auth rs) (session_abs pf w')"
proof (cases "\<exists>f. e = SignIn f")
  case True
  with assms(1) show ?thesis by (auto elim!: step_SignInE intro: login_refines [OF _ assms(2)])
next
  case False
  then obtain rs where rs: "w_sent w' = w_sent w @ rs"
    "\<forall>q\<in>set rs. \<exists>c. client_of pf w = Some c \<and> from_client c q" "w_cookie w' = w_cookie w \<or> w_cookie w' = None"
    using step_frame [OF assms(1)] by blast
  have "set (map rq_auth rs) \<subseteq> {cred (session_abs pf w)}"
    using rs(2) client_cred by (fastforce simp: from_client_def)
  with rs(1,3) show ?thesis by (metis session_abs_cookie work expire)
qed

inductive session_run :: "session_state \<Rightarrow> jsstr option list \<Rightarrow> session_state \<Rightarrow> bool" for s where
  session_nil: "session_run s [] s"
| session_snoc: "session_run s as s1 \<Longrightarrow> session_step s1 bs s2 \<Longrightarrow> session_run s (as @ bs) s2"

lemma run_refines:
  assumes "run pf w es w'" "\<And>k d. sd_token (pf_unseal pf k (pf_seal pf k d)) = sd_token d"
  shows "\<exists>rs. w_sent w' = w_sent w @ rs \<and> session_run (session_abs pf w) (map rq_auth rs) (session_abs pf w')"
  using assms(1)
proof (induction rule: run.induct)
  case run_nil
  then show ?case by (auto intro: exI [of _ "[]"] session_nil)
next
  case (run_snoc es w1 e w2)
  from run_snoc.IH obtain rs where "w_sent w1 = w_sent w @ rs"
    "session_run (session_abs pf w) (map rq_auth rs) (session_abs pf w1)" by blast
  moreover from step_refines [OF run_snoc.hyps(2) assms(2)] obtain rs' where "w_sent w2 = w_sent w1 @ rs'"
    "session_step (session_abs pf w1) (map rq_auth rs') (session_abs pf w2)" by blast
  ultimately show ?case
    by (intro exI [of _ "rs @ rs'"]) (auto intro: session_snoc)
qed

text \<open>The links of one group of the table, cut up the way the layout writes them.\<close>

definition group_links :: "session_data \<Rightarrow> (nav_key \<times> nav_link) list \<Rightarrow> nav_link list" where
  "group_links s ks = map snd (filter (\<lambda>(k, l). has s (NAV_PERMS k)) ks)"

lemma group_links_step:
  "group_links s [] = []"
  "group_links s ((k, l) # ks) = when_links (has s (NAV_PERMS k)) [l] @ group_links s ks"
  by (simp_all add: group_links_def when_links_def)

lemma when_links_split: "when_links b (x # y # ys) = when_links b [x] @ when_links b (y # ys)"
  by (simp add: when_links_def)

lemma nav_group:
  "map (snd \<circ> snd) (filter (nav_visible s) (map (\<lambda>(k, l). (scope, k, l)) ks)) =
     when_links (scope = None \<or> sd_scopeKind s = scope) (group_links s ks)"
  by (induction ks) (auto simp: group_links_def when_links_def)

lemma when_links_nested: "when_links (a \<and> b) ls = when_links a (when_links b ls)"
  by (simp add: when_links_def)

lemma when_links_append: "when_links b (xs @ ys) = when_links b xs @ when_links b ys"
  by (simp add: when_links_def)

lemma nav_links_table: "nav_links s = map (snd \<circ> snd) (filter (nav_visible s) nav_table)"
  unfolding nav_table_def filter_append map_append nav_group group_links_step
  unfolding nav_links_def when_links_nested when_links_split
  by (simp add: when_links_def [of True] when_links_append)

section \<open>Properties\<close>

definition token_platform :: platform where
  "token_platform = login_platform\<lparr>
     pf_seal := (\<lambda>k d. case sd_token d of None \<Rightarrow> [] | Some t \<Rightarrow> 0 # t),
     pf_unseal := (\<lambda>k c. empty_session\<lparr>sd_token := (case c of [] \<Rightarrow> None | x # t \<Rightarrow> Some t)\<rparr>)\<rparr>"

lemma token_platform_seal:
  "sd_token (pf_unseal token_platform k (pf_seal token_platform k d)) = sd_token d"
  by (simp add: token_platform_def empty_session_def split: option.split)

lemma token_platform_simps [simp]:
  "pf_ADMIN_URL token_platform = Some (js ''http://admin'')" "secret_ok token_platform = Some sample_secret"
  by (simp_all add: token_platform_def login_platform_def sample_platform_def secret_ok_def sample_secret_def)

text \<open>C3: Where tokens come from. However a browser session goes on from an empty one, every request goes to
  the configured admin URL and carries no authorization or the token that the admin API issued to a sign-in
  request sent before it; and the cookie holds only such a token. The hypothesis is that opening a sealed
  cookie gives back its token.\<close>

theorem token_provenance:
  assumes "run pf fresh_world es w" and "\<And>k d. sd_token (pf_unseal pf k (pf_seal pf k d)) = sd_token d"
    and "i < length (w_sent w)"
  shows "entitled pf (take i (w_sent w)) (w_sent w ! i) \<and> sealed_cookie pf w"
proof -
  have "provenance pf fresh_world"
    by (simp add: provenance_def sealed_cookie_def fresh_world_def)
  with assms(1) have "provenance pf w"
    by (rule run_invariant) (rule provenance_step [OF _ _ assms(2)])
  with assms(3) show ?thesis by (simp add: provenance_def)
qed

text \<open>A session of one sign-in followed by one operation.\<close>

definition sample_login :: form where
  "sample_login = [(js ''email'', js ''a''), (js ''password'', js ''b'')]"

lemma sample_login_run:
  "\<exists>w. step token_platform fresh_world (SignIn sample_login) w \<and> w_cookie w = Some (0 # js ''T'') \<and> length (w_sent w) = 2"
proof -
  obtain r w where run: "loginAction sample_login token_platform fresh_world = (r, w)" by fastforce
  then have "w_cookie w = Some (0 # js ''T'') \<and> length (w_sent w) = 2"
    by (auto simp: loginAction_def login_identity_def form_raw_def form_get_def anonAdminClient_def bnd_apply
        try_catch_apply call_run Let_def setSession_run redirect_locale_def sample_login_def fresh_world_def
        token_platform_def login_platform_def sample_platform_def refused_def response_ok_def val_String_def
        secret_ok_def sample_secret_def login_session_def)
  with step_login [OF run] show ?thesis by blast
qed

theorem token_provenance_witness:
  "\<exists>w. run token_platform fresh_world [SignIn sample_login] w \<and> length (w_sent w) = 2 \<and>
     entitled token_platform (take 1 (w_sent w)) (w_sent w ! 1)"
proof -
  obtain w where w: "step token_platform fresh_world (SignIn sample_login) w" "length (w_sent w) = 2"
    using sample_login_run by blast
  from run_snoc [OF run_nil w(1)] have run: "run token_platform fresh_world [SignIn sample_login] w" by simp
  have "1 < length (w_sent w)" using w(2) by simp
  from token_provenance [OF run token_platform_seal this] run w(2) show ?thesis by blast
qed

text \<open>C4: Refinement. Every run of the panel is a run of the abstract session: its requests carry the credential
  of the current session state, a sign-in sends one anonymous request and at most one with the new token, and
  the state changes only to signed out or, by a sign-in, to that token.\<close>

theorem session_refinement:
  assumes "run pf w es w'" and "\<And>k d. sd_token (pf_unseal pf k (pf_seal pf k d)) = sd_token d"
  shows "\<exists>rs. w_sent w' = w_sent w @ rs \<and> session_run (session_abs pf w) (map rq_auth rs) (session_abs pf w')"
  by (rule run_refines [OF assms])

theorem session_refinement_witness:
  "\<exists>w rs. run token_platform fresh_world [SignIn sample_login] w \<and> w_sent w = rs \<and> length rs = 2 \<and>
     session_run SignedOut (map rq_auth rs) (session_abs token_platform w) \<and>
     session_abs token_platform w = SignedIn (js ''T'')"
proof -
  obtain w where w: "step token_platform fresh_world (SignIn sample_login) w" "w_cookie w = Some (0 # js ''T'')"
    "length (w_sent w) = 2"
    using sample_login_run by blast
  from run_snoc [OF run_nil w(1)] have run: "run token_platform fresh_world [SignIn sample_login] w" by simp
  have "session_abs token_platform fresh_world = SignedOut"
    by (rule session_abs_cookie) (simp add: fresh_world_def)
  moreover have "session_abs token_platform w = SignedIn (js ''T'')"
    by (simp add: session_abs_def session_of_def w(2)) (simp add: token_platform_def)
  moreover have "w_sent fresh_world = []" by (simp add: fresh_world_def)
  ultimately show ?thesis
    using session_refinement [OF run token_platform_seal] run w(3) by auto
qed

lemma answer_accepted: "answer pf h = Inr v \<Longrightarrow> accepted pf h"
  by (auto simp: answer_def accepted_def dest: unwrap_Inr split: fetch_outcome.splits)

lemma row_result_vouched:
  "row_result (answer pf h) = Inr v \<Longrightarrow> accepted pf h \<or> (\<exists>ty m. answer pf h = Inl (AdminError 404 ty m))"
  by (auto simp: row_result_def answer_accepted split: sum.splits jserror.splits if_splits)

lemma createAPIKey_accepts:
  assumes "createAPIKey f pf w = (Inr x, w')" "key_ok x" "w_sent w' = w_sent w @ rs"
  shows "all_accepted pf (w_sent w) rs"
proof (cases "client_of pf w")
  case None
  with assms show ?thesis by (auto simp: createAPIKey_no_client)
next
  case (Some c)
  with assms show ?thesis
    by (auto simp: createAPIKey_run Let_def accepted_def dest!: unwrap_Inr formError_pair_frame(4)
        split: fetch_outcome.splits sum.splits)
qed

lemma updateSettings_vouched:
  assumes "updateSettings f pf w = (Inr x, w')" "is_ok x" "w_sent w' = w_sent w @ rs" "n < length rs"
  shows "\<exists>r. pf_fetch pf (w_sent w @ take (Suc n) rs) = FetchResult r \<and> \<not> truthy (fr_error r)"
proof -
  obtain m where "serverAdminClient pf w =
      (case client_of pf w of Some c \<Rightarrow> (Inr c, w) | None \<Rightarrow> (Inl (PlainError m), w))"
    using serverAdminClient_run [of pf w] by blast
  with assms show ?thesis
    by (auto simp: updateSettings_def guarded_write_attempt attempt_def bnd_apply call_def Let_def is_ok_def
        check_error_def rbind_def mapped_result_def dest!: mapped_message_Inl toFormError_frame(4)
        split: sum.splits option.splits fetch_outcome.splits if_splits)
qed

lemma unchecked_ops:
  "server_action op \<Longrightarrow> \<not> checked op \<Longrightarrow> (\<exists>f. op = Org (UpdateSettings f)) \<or> (\<exists>f. op = Access (CreateAPIKey f)) \<or>
     (\<exists>o' a b. op = Access (FetchTracePair o' a b))"
  by (auto simp: checked_def server_action_def split: panel_op.splits org_op.splits access_op.splits)

lemma op_vouched:
  assumes run: "run_op op pf w = (Inr True, w')" and "server_action op"
    and rs: "w_sent w' = w_sent w @ rs" "n < length rs"
  shows "vouched op pf (w_sent w @ take (Suc n) rs)"
proof -
  consider (strict) "checked op" | (settings) f where "op = Org (UpdateSettings f)"
    | (key) f where "op = Access (CreateAPIKey f)" | (pair) o' a b where "op = Access (FetchTracePair o' a b)"
    using unchecked_ops [OF assms(2)] by blast
  then show ?thesis
  proof cases
    case strict
    from admin_write.accepts [OF checked_write [OF strict] run _ rs(1)] rs(2)
    have "accepted pf (w_sent w @ take (Suc n) rs)" by (simp add: all_accepted_def)
    with strict show ?thesis
      by (auto simp: vouched_def checked_def split: panel_op.splits org_op.splits access_op.splits)
  next
    case settings
    with run rs show ?thesis by (auto simp: vouched_def elim!: reportsE intro: updateSettings_vouched)
  next
    case key
    with run rs createAPIKey_accepts show ?thesis
      by (fastforce simp: vouched_def all_accepted_def elim!: reportsE)
  next
    case pair
    with run obtain x where "fetchTraceDetailPair o' a b pf w = (Inr x, w')" "pair_ok x" by (auto elim!: reportsE)
    from pair_answered [OF this rs] pair show ?thesis by (auto simp: vouched_def dest: row_result_vouched)
  qed
qed

lemma reports_to_login:
  assumes "expires_to_login m"
  shows "expires_to_login (reports ok m)"
proof (rule expires_to_loginI)
  fix pf w r w' rs
  assume run: "reports ok m pf w = (r, w')"
    and rs: "w_sent w' = w_sent w @ rs" "rs \<noteq> []" "all_expired pf (w_sent w) rs"
  from run obtain r0 where "m pf w = (r0, w')" by (rule reportsE)
  moreover from this rs assms have "r0 = Inl (NextRedirect (js ''/login''))" "w_cookie w' = None"
    "w_revalidated w' = w_revalidated w"
    unfolding expires_to_login_def by blast+
  ultimately show "r = Inl (NextRedirect (js ''/login'')) \<and> w_cookie w' = None \<and> w_revalidated w' = w_revalidated w"
    using run by (simp add: reports_def bnd_apply)
qed

lemma reports_to_logout:
  assumes "expires_to_logout m"
  shows "expires_to_logout (reports ok m)"
  unfolding expires_to_logout_def
proof (intro allI impI, elim conjE)
  fix pf w r w' rs
  assume run: "reports ok m pf w = (r, w')"
    and rs: "w_sent w' = w_sent w @ rs" "rs \<noteq> []" "all_expired pf (w_sent w) rs"
  from run obtain r0 where "m pf w = (r0, w')" by (rule reportsE)
  moreover from this rs assms have "r0 = Inl (NextRedirect (js ''/logout''))" "w_revalidated w' = w_revalidated w"
    "logout_GET pf w' = (Inr (js ''/login''), w'\<lparr>w_cookie := None\<rparr>)"
    unfolding expires_to_logout_def by blast+
  ultimately show "r = Inl (NextRedirect (js ''/logout'')) \<and> w_revalidated w' = w_revalidated w \<and>
     logout_GET pf w' = (Inr (js ''/login''), w'\<lparr>w_cookie := None\<rparr>)"
    using run by (simp add: reports_def bnd_apply)
qed

lemmas expiry_laws = reports_to_login reports_to_logout key_actions_to_login createAPIKey_to_login
  budget_actions_to_login trace_pair_to_login history_to_logout

lemma access_expiry:
  "expiry_exit a = Some p \<Longrightarrow> p = js ''/login'' \<and> expires_to_login (run_access_op a) \<or>
     p = js ''/logout'' \<and> expires_to_logout (run_access_op a)"
  by (cases a) (simp_all add: expiry_laws)

text \<open>C6: A success that is reported is real. When a Server Action of the dashboard reports that it worked, every
  request it sent went through the client of the session and was answered the way \<open>vouched\<close> says: accepted
  by the admin API, where the settings form only knows that the answer carried no error object, and the lookup of
  trace rows also takes a 404 as an answer; and its pages are marked stale.\<close>

theorem reported_success:
  assumes "step pf w (Did op (Inr True)) w'" and "server_action op"
  shows "\<exists>rs. w_sent w' = w_sent w @ rs \<and> (\<forall>n<length rs. vouched op pf (w_sent w @ take (Suc n) rs)) \<and>
     (\<forall>q\<in>set rs. \<exists>c. client_of pf w = Some c \<and> from_client c q) \<and>
     w_revalidated w' = w_revalidated w @ op_paths op"
proof -
  have run: "run_op op pf w = (Inr True, w')" using assms(1) by (rule step_DidE)
  from panel_action.sends [OF op_panel run] obtain rs where "w_sent w' = w_sent w @ rs"
    "\<forall>q\<in>set rs. \<exists>c. client_of pf w = Some c \<and> from_client c q" by blast
  with op_vouched [OF run assms(2)] panel_action.marks_ok [OF op_panel run]
  show ?thesis by auto
qed

theorem reported_success_witness:
  "\<exists>w'. step sample_platform sample_world (Did (Org (DeleteGroup (js ''g''))) (Inr True)) w' \<and>
     w_revalidated w' = [(js ''/groups'', None)]"
proof -
  obtain r w' where run: "run_op (Org (DeleteGroup (js ''g''))) sample_platform sample_world = (r, w')" by fastforce
  then have "r = Inr True"
    by (auto simp: reports_def deleteGroup_def guarded_send_run after_call_def bnd_apply Let_def refused_def
        response_ok_def sample_platform_def [THEN arg_cong [of _ _ pf_fetch]])
  then have st: "step sample_platform sample_world (Did (Org (DeleteGroup (js ''g''))) (Inr True)) w'"
    using step_op [OF run] by simp
  have "server_action (Org (DeleteGroup (js ''g'')))" by (simp add: server_action_def)
  from reported_success [OF st this] st show ?thesis by (auto simp: sample_world_def)
qed

text \<open>C7: Signing out is final. After the sign-out button or the logout route, until the next sign-in, every
  request is sent without authorization and the session stays empty, whatever is done in between.\<close>

theorem signed_out_final:
  assumes "step pf w SignOut w1 \<or> step pf w LogoutRoute w1" and "session_of pf w \<noteq> None"
    and "run pf w1 es w2" and "\<forall>f. SignIn f \<notin> set es"
  shows "w_cookie w2 = None \<and> (\<exists>rs. w_sent w2 = w_sent w @ rs \<and> (\<forall>q\<in>set rs. rq_auth q = None))"
proof -
  from assms(1,2) have "w_cookie w1 = None" "w_sent w1 = w_sent w"
    by (auto simp: step_SignOut step_LogoutRoute logoutAction_def logout_GET_def bnd_apply clearSession_run
        split: option.splits)
  with signed_out_run [OF assms(3) _ assms(4)] show ?thesis by simp
qed

theorem signed_out_final_witness:
  "\<exists>w1 w2. step sample_platform sample_world SignOut w1 \<and>
     run sample_platform w1 [Did (Org (DeleteGroup (js ''g''))) (fst (run_op (Org (DeleteGroup (js ''g''))) sample_platform w1))] w2 \<and>
     w_cookie w2 = None"
proof -
  let ?op = "Org (DeleteGroup (js ''g''))"
  obtain w1 where w1: "step sample_platform sample_world SignOut w1"
    by (metis step_logout surj_pair)
  obtain r w2 where r: "run_op ?op sample_platform w1 = (r, w2)" by fastforce
  then have run: "run sample_platform w1 [Did ?op (fst (run_op ?op sample_platform w1))] w2"
    using run_snoc [OF run_nil step_op [OF r]] by simp
  have "session_of sample_platform sample_world \<noteq> None" by (simp add: sample_session)
  from signed_out_final [OF disjI1 [OF w1] this run] w1 run show ?thesis by auto
qed

text \<open>C15: An expired session ends. When the admin API answers every request of an action on API keys, budgets,
  reservations or trace rows with 401, the action destroys the cookie and leaves for the login page; an action of the
  configuration history leaves for the logout route, whose handler destroys the cookie and goes on to the login page.
  No page is marked stale.\<close>

theorem expired_session:
  assumes "step pf w (Did (Access a) r) w'" and "expiry_exit a = Some p"
    and "w_sent w' = w_sent w @ rs" and "rs \<noteq> []"
    and "\<forall>n<length rs. \<exists>x. pf_fetch pf (w_sent w @ take (Suc n) rs) = FetchResult x \<and> fr_status x = 401"
  shows "r = Inl (NextRedirect p) \<and> w_revalidated w' = w_revalidated w \<and>
     (p = js ''/login'' \<and> w_cookie w' = None \<or>
      p = js ''/logout'' \<and> logout_GET pf w' = (Inr (js ''/login''), w'\<lparr>w_cookie := None\<rparr>))"
proof -
  have run: "run_access_op a pf w = (r, w')" using assms(1) by (auto elim: step_DidE)
  have "all_expired pf (w_sent w) rs" using assms(5) by (simp add: all_expired_def)
  with access_expiry [OF assms(2)] run assms(3,4) show ?thesis
    unfolding expires_to_login_def expires_to_logout_def by blast
qed

lemma revoke_expired_run:
  "revokeAPIKey (js ''k'') expired_platform sample_world =
     (Inl (NextRedirect (js ''/login'')),
      \<lparr>w_cookie = None, w_sent = [mk_req sample_client DELETE (js ''/api/v1/api-keys/{key_id}'')
         [(js ''key_id'', JStr (js ''k''))] [] None], w_revalidated = []\<rparr>)"
proof -
  have s: "session_of expired_platform sample_world = Some (empty_session\<lparr>sd_token := Some (js ''tok'')\<rparr>)"
    using sample_session by (simp add: expired_platform_def)
  have "session_of expired_platform (sample_world\<lparr>w_sent := h\<rparr>) = session_of expired_platform sample_world" for h
    by (simp add: session_of_def)
  from formError_401 [OF trans [OF this s]] show ?thesis
    by (simp add: revokeAPIKey_def try_write_attempt attempt_unwrap_run [OF expired_client] expired_fetch
        expired_unwrap Let_def) (simp add: sample_world_def)
qed

theorem expired_session_witness:
  "\<exists>w'. step expired_platform sample_world (Did (Access (RevokeAPIKey (js ''k''))) (Inl (NextRedirect (js ''/login'')))) w' \<and>
     w_cookie sample_world \<noteq> None \<and> w_cookie w' = None"
proof -
  let ?op = "RevokeAPIKey (js ''k'')"
  obtain r w' where run: "run_op (Access ?op) expired_platform sample_world = (r, w')" by fastforce
  then have sent: "length (w_sent w') = 1"
    by (auto simp: reports_def bnd_apply revoke_expired_run split: prod.splits)
  have "w_sent w' = w_sent sample_world @ w_sent w'" "w_sent w' \<noteq> []" using sent by (auto simp: sample_world_def)
  from expired_session [OF step_op [OF run] _ this] expired_fetch
  have "r = Inl (NextRedirect (js ''/login''))" "w_cookie w' = None"
    by (simp_all add: expired_result_def js_def)
  with step_op [OF run] show ?thesis by (auto simp: sample_world_def)
qed

text \<open>Which pages are marked stale. Over any run without key creations these are, in order, the pages of the
  operations that reported success, and no others.\<close>

theorem stale_pages:
  assumes "run pf w es w'" and "\<forall>e\<in>set es. \<not> key_creation e"
  shows "w_revalidated w' = w_revalidated w @
     concat (map (\<lambda>e. case e of Did op r \<Rightarrow> if r = Inr True then op_paths op else [] | _ \<Rightarrow> []) es)"
  using run_stale [OF assms] by (simp add: stale_def [abs_def])

theorem stale_pages_witness:
  "\<exists>w'. run sample_platform sample_world [SignOut, Load] w' \<and> w_revalidated w' = []"
proof -
  obtain w1 w2 where "step sample_platform sample_world SignOut w1" "step sample_platform w1 Load w2"
    by (metis step_logout step_load surj_pair)
  then have run: "run sample_platform sample_world [SignOut, Load] w2"
    using run_snoc [OF run_snoc [OF run_nil]] by fastforce
  from stale_pages [OF this] have "w_revalidated w2 = []" by (simp add: key_creation_def sample_world_def)
  with run show ?thesis by blast
qed

text \<open>The dashboard is shown only to a session with a token and a role, and its links are exactly the
  pages of the navigation table that belong to the session's scope, or to any, and whose permission the
  session has; loading the layout changes nothing.\<close>

theorem layout_gated:
  assumes "DashboardLayout pf w = (r, w')"
  shows "w' = w \<and>
    (case session_of pf w of
       None \<Rightarrow> \<exists>m. r = Inl (PlainError m)
     | Some s \<Rightarrow>
         if sd_token s \<in> {None, Some []} \<or> sd_role s \<in> {None, Some []}
         then r = Inl (NextRedirect (pf_pathname pf (pf_locale pf) (js ''/login'')))
         else r = Inr (map (snd \<circ> snd) (filter (nav_visible s) nav_table)))"
  using assms
  by (auto simp: DashboardLayout_def bnd_apply getSession_run redirect_locale_def no_text_def nav_links_table
      split: option.splits if_splits)

theorem layout_gated_witness:
  "fst (DashboardLayout sample_platform sample_world) = Inl (NextRedirect (js ''/login''))"
proof -
  obtain r w' where run: "DashboardLayout sample_platform sample_world = (r, w')" by fastforce
  have "pf_pathname sample_platform (pf_locale sample_platform) (js ''/login'') = js ''/login''"
    by (simp add: sample_platform_def)
  with layout_gated [OF run] run show ?thesis by (simp add: sample_session empty_session_def)
qed

text \<open>C5: pages only read, and a lost session never crashes a guarded one. Opening a page sends GET requests without a
  body through the client of the session and leaves the cookie and the stale marks alone; and except for the audit
  page and the quota page no 401 or 403 of the admin API escapes as an error.\<close>

theorem pages_read_only:
  assumes "open_page p pf w = (r, w')"
  shows "(\<exists>rs. w' = w\<lparr>w_sent := w_sent w @ rs\<rparr> \<and>
      (\<forall>q\<in>set rs. rq_method q = GET \<and> rq_body q = None \<and> (\<exists>c. client_of pf w = Some c \<and> from_client c q))) \<and>
    (p \<noteq> OpenQuotas \<and> (\<forall>now sp. p \<noteq> OpenAudit now sp) \<longrightarrow>
      (\<forall>status ty m. r = Inl (AdminError status ty m) \<longrightarrow> status \<notin> {401, 403}))"
proof (intro conjI impI allI)
  from page_load.reads_only [OF open_load assms]
  show "\<exists>rs. w' = w\<lparr>w_sent := w_sent w @ rs\<rparr> \<and>
      (\<forall>q\<in>set rs. rq_method q = GET \<and> rq_body q = None \<and> (\<exists>c. client_of pf w = Some c \<and> from_client c q))"
    by (auto simp: read_request_def)
next
  fix status ty m
  assume p: "p \<noteq> OpenQuotas \<and> (\<forall>now sp. p \<noteq> OpenAudit now sp)" and r: "r = Inl (AdminError status ty m)"
  then have "guards p" by (auto simp: guards_def split: page_op.splits)
  then have "\<not> no_access (AdminError status ty m)"
    using guarded_page.guarded [OF open_guarded] assms r by blast
  then show "status \<notin> {401, 403}" by (simp add: no_access_def)
qed

theorem pages_read_only_witness:
  "\<exists>r w'. open_page OpenRoles expired_platform sample_world = (r, w') \<and> w_cookie w' = w_cookie sample_world \<and>
     r \<noteq> Inl (AdminError 401 (js ''api_error'') (js ''errors.auth.expired''))"
proof -
  obtain r w' where run: "open_page OpenRoles expired_platform sample_world = (r, w')" by fastforce
  from pages_read_only [OF run] have "w_cookie w' = w_cookie sample_world"
    "r \<noteq> Inl (AdminError 401 (js ''api_error'') (js ''errors.auth.expired''))" by auto
  with run show ?thesis by blast
qed

text \<open>The two exceptions at work: the audit page throws a 403 on, and the quota page shows the message of a 401 instead
  of leaving for the logout route.\<close>

lemma audit_forbidden:
  assumes "client_of pf w = Some c" "\<And>h. pf_fetch pf h = FetchResult r" "fr_status r = 403"
    and "form_get sp (js ''from'') \<noteq> None" "form_get sp (js ''to'') \<noteq> None"
  shows "\<exists>w'. AuditPage now sp pf w = (Inl (new_AdminError 403 (fr_error r)), w')"
proof -
  obtain a b where t: "time_or sp (js ''from'') d = Inr a" "time_or sp (js ''to'') d = Inr b" for d
    using assms(4,5) by (auto simp: time_or_def)
  have "unwrap r = Inl (new_AdminError 403 (fr_error r))" using assms(3) by (simp add: unwrap_def response_ok_def)
  then show ?thesis
    unfolding AuditPage_def t bnd_lift_Inr Let_def bnd_apply [of "try_catch _ _"] try_catch_apply client_run [OF assms(1)]
    by (simp add: bnd_apply read_json_run assms(2) onAuthExpired_def new_AdminError_def)
qed

lemma quotas_expired:
  assumes "session_of pf w = Some s" "sd_tenantName s = Some (x # xs)" "client_of pf w = Some c"
    and "\<And>h. pf_fetch pf h = FetchResult r" "fr_status r = 401"
  shows "\<exists>w' ps. QuotasPage pf w = (Inr (Shown (js ''QuotasPageClient'') ps), w') \<and>
    map_of ps (js ''fetchError'') = Some (Some (JStr (err_message (new_AdminError 401 (fr_error r)))))"
proof -
  have u: "unwrap r = Inl (new_AdminError 401 (fr_error r))" using assms(5) by (simp add: unwrap_def response_ok_def)
  show ?thesis
    unfolding QuotasPage_def getSession_bnd [OF assms(1)] assms(2) Let_def option.case
    by (simp add: bnd_apply [of "try_catch _ _"] try_catch_apply client_run [OF assms(3)])
      (simp add: bnd_apply read_json_run assms(4) u new_AdminError_def js_def)
qed

end
