(* ===== verification/Trace.thy ===== *)
theory Trace
  imports Js_Json
begin

text \<open>
  The analysis of a captured request and response
  (\<^verbatim>\<open>web/src/components/trace/trace-categories.tsx\<close>): which messages were carried over
  from the previous request, which tools were offered, the output reassembled
  from a JSON body or from a stream of server-sent events, the display blocks of
  a message with their chips, and the tree of components the panel renders.

  Captured payloads are arbitrary JSON, so every property read of a value that
  may be \<^verbatim>\<open>null\<close> is a read that may throw, and the functions return \<open>res\<close>.
\<close>

section \<open>Values\<close>

fun str_of :: "jsval \<Rightarrow> jsstr option" where
  "str_of (Some (JStr s)) = Some s"
| "str_of v = None"

fun num_of :: "jsval \<Rightarrow> jsnum option" where
  "num_of (Some (JNum n)) = Some n"
| "num_of v = None"

fun is_object :: "jsval \<Rightarrow> bool" where
  "is_object (Some (JArr vs)) = True"
| "is_object (Some (JObj kvs)) = True"
| "is_object v = False"

text \<open>\<^verbatim>\<open>String(v ?? d)\<close>, also the value of \<^verbatim>\<open>${v ?? d}\<close> in a template.\<close>

definition string_or :: "jsval \<Rightarrow> jsstr \<Rightarrow> jsstr" where
  "string_or v d = json_String (coalesce v (JStr d))"

lemma is_nullish_Some: "is_nullish (Some c) \<longleftrightarrow> c = JNull"
  by (cases c) auto

lemma string_or_str [simp]: "string_or (Some (JStr s)) d = s"
  by (simp add: string_or_def coalesce_def)

definition empty_object :: json where
  "empty_object = JObj []"

section \<open>Message history\<close>

record TraceDetailLike =
  td_messages :: jsval
  td_request_raw :: jsval
  td_response_raw :: jsval

definition signature :: "json \<Rightarrow> jsstr res" where
  "signature m =
     rbind (get_prop (Some m) (js ''role'')) (\<lambda>role.
     rbind (get_prop (Some m) (js ''content'')) (\<lambda>content.
     rbind (get_prop (Some m) (js ''tool_call_id'')) (\<lambda>tcid.
       Inr (string_or role [] @ js ''|'' @ stringify (coalesce content (JStr [])) @ js ''|'' @ string_or tcid []))))"

fun commonPrefixLength :: "json list \<Rightarrow> json list \<Rightarrow> nat res" where
  "commonPrefixLength (a # as) (b # bs) =
     rbind (signature a) (\<lambda>sa. rbind (signature b) (\<lambda>sb.
       if sa \<noteq> sb then Inr 0 else rbind (commonPrefixLength as bs) (\<lambda>n. Inr (Suc n))))"
| "commonPrefixLength as bs = Inr 0"

definition extractTools :: "jsval \<Rightarrow> json list" where
  "extractTools requestRaw =
     (if \<not> is_object requestRaw then []
      else as_array (opt_prop requestRaw (js ''tools'')))"

text \<open>\<^verbatim>\<open>String(m.role ?? "") === "system"\<close>\<close>

definition is_system :: "json \<Rightarrow> bool res" where
  "is_system m = rbind (get_prop (Some m) (js ''role'')) (\<lambda>role. Inr (string_or role [] = js ''system''))"

definition not_system :: "json \<Rightarrow> bool res" where
  "not_system m = rbind (is_system m) (\<lambda>b. Inr (\<not> b))"

section \<open>Output\<close>

definition flatten_part :: "json \<Rightarrow> jsstr res" where
  "flatten_part p =
     rbind (get_prop (Some p) (js ''type'')) (\<lambda>ty.
       case (ty, str_of (opt_prop (Some p) (js ''text''))) of
         (Some (JStr k), txt) \<Rightarrow>
           if k = js ''text'' \<and> txt \<noteq> None then Inr (the txt)
           else if k = js ''image_url'' then Inr (js ''[image]'') else Inr (stringify p)
       | _ \<Rightarrow> Inr (stringify p))"

definition flattenContent :: "jsval \<Rightarrow> jsstr res" where
  "flattenContent content =
     (case content of
        None \<Rightarrow> Inr []
      | Some JNull \<Rightarrow> Inr []
      | Some (JStr s) \<Rightarrow> Inr s
      | Some (JArr parts) \<Rightarrow> rbind (rmap flatten_part parts) (\<lambda>ss. Inr (js_join [0x0A] ss))
      | Some v \<Rightarrow> Inr (stringify_pretty 0 v))"

text \<open>The accumulator of one tool call: the object \<^verbatim>\<open>{id, type: "function", function: {name,
  arguments}}\<close> that the loop creates and mutates.\<close>

record tool_acc =
  ta_id :: jsstr
  ta_name :: jsstr
  ta_arguments :: jsstr

definition new_acc :: tool_acc where
  "new_acc = \<lparr>ta_id = [], ta_name = [], ta_arguments = []\<rparr>"

definition acc_json :: "tool_acc \<Rightarrow> json" where
  "acc_json a = JObj [(js ''id'', JStr (ta_id a)), (js ''type'', JStr (js ''function'')),
     (js ''function'', JObj [(js ''name'', JStr (ta_name a)), (js ''arguments'', JStr (ta_arguments a))])]"

text \<open>A \<^verbatim>\<open>Map\<close> keeps the order of first insertion.\<close>

fun map_set :: "'k \<Rightarrow> 'v \<Rightarrow> ('k \<times> 'v) list \<Rightarrow> ('k \<times> 'v) list" where
  "map_set k v [] = [(k, v)]"
| "map_set k v ((k', v') # kvs) = (if k = k' then (k, v) # kvs else (k', v') # map_set k v kvs)"

type_synonym tool_map = "(jsnum \<times> tool_acc) list"

definition merge_tool_call :: "tool_map \<Rightarrow> json \<Rightarrow> tool_map res" where
  "merge_tool_call m tc =
     rbind (get_prop (Some tc) (js ''index'')) (\<lambda>index.
       let idx = (case num_of index of Some n \<Rightarrow> n | None \<Rightarrow> Fin 0);
           existing = (case map_of m idx of Some a \<Rightarrow> a | None \<Rightarrow> new_acc);
           newFn = Some (coalesce (opt_prop (Some tc) (js ''function'')) empty_object);
           a1 = (case str_of (opt_prop newFn (js ''name'')) of
                   Some s \<Rightarrow> existing\<lparr>ta_name := ta_name existing @ s\<rparr> | None \<Rightarrow> existing);
           a2 = (case str_of (opt_prop newFn (js ''arguments'')) of
                   Some s \<Rightarrow> a1\<lparr>ta_arguments := ta_arguments a1 @ s\<rparr> | None \<Rightarrow> a1);
           a3 = (case str_of (opt_prop (Some tc) (js ''id'')) of
                   Some s \<Rightarrow> if s \<noteq> [] then a2\<lparr>ta_id := s\<rparr> else a2 | None \<Rightarrow> a2)
       in Inr (map_set idx a3 m))"

fun merge_tool_calls :: "tool_map \<Rightarrow> json list \<Rightarrow> tool_map res" where
  "merge_tool_calls m [] = Inr m"
| "merge_tool_calls m (tc # tcs) = rbind (merge_tool_call m tc) (\<lambda>m'. merge_tool_calls m' tcs)"

record sse_state =
  ss_content :: jsstr
  ss_tools :: tool_map
  ss_sawAny :: bool

definition head_of :: "json list \<Rightarrow> jsval" where
  "head_of vs = (case vs of [] \<Rightarrow> None | v # vs' \<Rightarrow> Some v)"

text \<open>What one parsed chunk does.\<close>

definition sse_chunk :: "sse_state \<Rightarrow> json \<Rightarrow> sse_state res" where
  "sse_chunk st chunk =
     rbind (get_prop (Some chunk) (js ''choices'')) (\<lambda>cs.
       let st1 = st\<lparr>ss_sawAny := True\<rparr>;
           choices = as_array cs;
           delta = opt_prop (head_of choices) (js ''delta'')
       in if \<not> truthy delta then Inr st1
          else
            let st2 = (case str_of (opt_prop delta (js ''content'')) of
                         Some s \<Rightarrow> st1\<lparr>ss_content := ss_content st1 @ s\<rparr> | None \<Rightarrow> st1)
            in rbind (merge_tool_calls (ss_tools st2) (as_array (opt_prop delta (js ''tool_calls'')))) (\<lambda>m.
                 Inr (st2\<lparr>ss_tools := m\<rparr>)))"

text \<open>The payload of a line, \<open>None\<close> when the loop skips it.\<close>

definition sse_payload :: "jsstr \<Rightarrow> json option" where
  "sse_payload line =
     (let trimmed = js_trimStart line in
      if \<not> js_startsWith trimmed (js ''data:'') then None
      else let payload = js_trim (drop 5 trimmed) in
        if payload = js ''[DONE]'' \<or> payload = [] then None else json_parse payload)"

definition sse_line :: "sse_state \<Rightarrow> jsstr \<Rightarrow> sse_state res" where
  "sse_line st line = (case sse_payload line of None \<Rightarrow> Inr st | Some chunk \<Rightarrow> sse_chunk st chunk)"

fun sse_lines :: "sse_state \<Rightarrow> jsstr list \<Rightarrow> sse_state res" where
  "sse_lines st [] = Inr st"
| "sse_lines st (l # ls) = rbind (sse_line st l) (\<lambda>st'. sse_lines st' ls)"

definition sse_start :: sse_state where
  "sse_start = \<lparr>ss_content = [], ss_tools = [], ss_sawAny = False\<rparr>"

text \<open>\<^verbatim>\<open>.sort((a, b) => a[0] - b[0])\<close>: stable, by index.\<close>

fun insert_tool :: "jsnum \<times> tool_acc \<Rightarrow> tool_map \<Rightarrow> tool_map" where
  "insert_tool x [] = [x]"
| "insert_tool x (y # ys) = (if num_lt (fst y) (fst x) then y # insert_tool x ys else x # y # ys)"

definition sort_tools :: "tool_map \<Rightarrow> tool_map" where
  "sort_tools m = foldr insert_tool m []"

record sse_result =
  sr_content :: jsstr
  sr_toolCalls :: "json list"

definition reassembleSSE :: "jsstr \<Rightarrow> sse_result option res" where
  "reassembleSSE transcript =
     rbind (sse_lines sse_start (js_split 0x0A transcript)) (\<lambda>st.
       if \<not> ss_sawAny st then Inr None
       else Inr (Some \<lparr>sr_content = ss_content st,
                      sr_toolCalls = map (\<lambda>(k, a). acc_json a) (sort_tools (ss_tools st))\<rparr>))"

record OutputItem =
  oi_text :: jsstr
  oi_toolCalls :: "json list option"
  oi_raw :: jsstr

text \<open>\<^verbatim>\<open>obj\<close>: the body as an object, or what its text parses to.\<close>

definition parsed_body :: "json \<Rightarrow> jsval" where
  "parsed_body responseRaw =
     (case responseRaw of
        JStr s \<Rightarrow> json_parse s
      | JObj kvs \<Rightarrow> Some responseRaw
      | JArr vs \<Rightarrow> Some responseRaw
      | _ \<Rightarrow> None)"

definition body_message :: "jsval \<Rightarrow> jsval" where
  "body_message obj =
     (let choices = as_array (opt_prop obj (js ''choices''))
      in if truthy obj \<and> choices \<noteq> [] then opt_prop (Some (hd choices)) (js ''message'') else None)"

definition parseOutput :: "jsval \<Rightarrow> OutputItem option res" where
  "parseOutput responseRaw =
     (if is_nullish responseRaw \<or> responseRaw = Some (JStr []) then Inr None
      else
        let rr = the responseRaw;
            raw = (case rr of JStr s \<Rightarrow> s | _ \<Rightarrow> stringify rr);
            msg = body_message (parsed_body rr);
            plain = Some \<lparr>oi_text = raw, oi_toolCalls = None, oi_raw = raw\<rparr>
        in if truthy msg then
             rbind (flattenContent (opt_prop msg (js ''content''))) (\<lambda>txt.
               Inr (Some \<lparr>oi_text = txt,
                         oi_toolCalls = (let tcs = opt_prop msg (js ''tool_calls'')
                                         in if is_array tcs then Some (as_array tcs) else None),
                         oi_raw = raw\<rparr>))
           else (case rr of
             JStr s \<Rightarrow>
               (case reassembleSSE s of
                  Inr (Some r) \<Rightarrow>
                    Inr (Some \<lparr>oi_text = sr_content r,
                              oi_toolCalls = (if sr_toolCalls r \<noteq> [] then Some (sr_toolCalls r) else None),
                              oi_raw = raw\<rparr>)
                | _ \<Rightarrow> Inr plain)
           | _ \<Rightarrow> Inr plain))"

record analysis =
  an_systemMsgs :: "json list"
  an_tools :: "json list"
  an_carried :: "json list"
  an_newMsgs :: "json list"
  an_output :: "OutputItem option"

definition analyze :: "TraceDetailLike \<Rightarrow> TraceDetailLike option \<Rightarrow> analysis res" where
  "analyze current previous =
     (let curMsgs = as_array (td_messages current);
          prevMsgs = (case previous of None \<Rightarrow> [] | Some p \<Rightarrow> as_array (td_messages p))
      in rbind (commonPrefixLength curMsgs prevMsgs) (\<lambda>prefixLen.
           let turnMsgs = drop prefixLen curMsgs in
           rbind (rfilter not_system (take prefixLen curMsgs)) (\<lambda>carried.
           rbind (rfilter not_system turnMsgs) (\<lambda>newMsgs.
           rbind (rfilter is_system curMsgs) (\<lambda>systemMsgs.
           let tools = extractTools (td_request_raw current) in
           rbind (parseOutput (td_response_raw current)) (\<lambda>output.
             Inr \<lparr>an_systemMsgs = systemMsgs, an_tools = tools, an_carried = carried,
                  an_newMsgs = newMsgs, an_output = output\<rparr>))))))"

section \<open>Blocks\<close>

datatype block =
    TextBlock jsstr
  | ImageBlock
  | ThinkingBlock jsstr
  | ToolUse (tool_name: jsstr) (tool_raw: json)
  | ToolResult (call_id: jsstr) (result_text: jsstr)
  | UnknownBlock json

definition part_block :: "json \<Rightarrow> block res" where
  "part_block p =
     rbind (get_prop (Some p) (js ''type'')) (\<lambda>tyv.
       let ty = string_or tyv []; txt = str_of (opt_prop (Some p) (js ''text'')) in
       if ty = js ''text'' \<and> txt \<noteq> None then Inr (TextBlock (the txt))
       else if ty = js ''image_url'' then Inr ImageBlock
       else if ty = js ''thinking'' \<or> ty = js ''reasoning'' then
         Inr (ThinkingBlock (json_String (coalesce (opt_prop (Some p) (js ''thinking''))
                (coalesce (opt_prop (Some p) (js ''text'')) (JStr [])))))
       else Inr (UnknownBlock p))"

definition function_of :: "json \<Rightarrow> jsval res" where
  "function_of tc = rbind (get_prop (Some tc) (js ''function'')) (\<lambda>f. Inr (Some (coalesce f empty_object)))"

definition tool_block :: "json \<Rightarrow> block res" where
  "tool_block tc = rbind (function_of tc) (\<lambda>fn.
     Inr (ToolUse (string_or (opt_prop fn (js ''name'')) (js ''(tool)'')) tc))"

definition content_blocks :: "jsval \<Rightarrow> block list res" where
  "content_blocks content =
     (case content of
        Some (JStr s) \<Rightarrow> Inr (if s \<noteq> [] then [TextBlock s] else [])
      | Some (JArr parts) \<Rightarrow> rmap part_block parts
      | None \<Rightarrow> Inr []
      | Some JNull \<Rightarrow> Inr []
      | Some v \<Rightarrow> Inr [UnknownBlock v])"

definition blocksOf :: "json \<Rightarrow> block list res" where
  "blocksOf msg =
     rbind (get_prop (Some msg) (js ''role'')) (\<lambda>rolev.
       let role = string_or rolev [];
           content = opt_prop (Some msg) (js ''content'');
           tcid = opt_prop (Some msg) (js ''tool_call_id'')
       in rbind (content_blocks content) (\<lambda>bs.
          rbind (rmap tool_block (as_array (opt_prop (Some msg) (js ''tool_calls'')))) (\<lambda>ts.
            if role = js ''tool'' \<or> (str_of tcid \<noteq> None \<and> str_of tcid \<noteq> Some [])
            then Inr (ToolResult (string_or tcid [])
                        (case content of Some (JStr s) \<Rightarrow> s
                         | _ \<Rightarrow> stringify (coalesce content (JStr []))) # bs @ ts)
            else Inr (bs @ ts))))"

definition countLines :: "jsstr \<Rightarrow> nat" where
  "countLines txt = (if txt = [] then 0 else length (js_split 0x0A txt))"

definition shortenId :: "jsstr \<Rightarrow> jsstr" where
  "shortenId s = (if length s > 8 then take 6 s @ [0x2026] else s)"

text \<open>The label and colour of a chip and its detail; the unit of a line count is the character
  U+884C.\<close>

fun blockChipStyle :: "block \<Rightarrow> jsstr \<times> jsstr" where
  "blockChipStyle (TextBlock s) = (js ''text'', js ''bg-blue-100 text-blue-700'')"
| "blockChipStyle ImageBlock = (js ''img'', js ''bg-orange-100 text-orange-700'')"
| "blockChipStyle (ThinkingBlock s) = (js ''thinking'', js ''bg-purple-100 text-purple-700'')"
| "blockChipStyle (ToolUse n r) = ([], js ''bg-cyan-100 text-cyan-700'')"
| "blockChipStyle (ToolResult i s) = (js ''tool_result'', js ''bg-emerald-100 text-emerald-700'')"
| "blockChipStyle (UnknownBlock r) = (js ''?'', js ''bg-muted text-muted-foreground'')"

fun blockChipDetail :: "block \<Rightarrow> jsstr" where
  "blockChipDetail (TextBlock s) = digits10 (countLines s) @ [0x884C]"
| "blockChipDetail (ThinkingBlock s) = digits10 (countLines s) @ [0x884C]"
| "blockChipDetail (ToolUse n r) = n"
| "blockChipDetail (ToolResult i s) = (if i \<noteq> [] then js ''id:'' @ shortenId i else [])"
| "blockChipDetail ImageBlock = []"
| "blockChipDetail (UnknownBlock r) = []"

section \<open>Colours\<close>

definition sectionColor :: "jsstr \<Rightarrow> jsstr" where
  "sectionColor label =
     (if label = js ''system'' then js ''border-amber-200 bg-amber-50/50''
      else if label = js ''tools'' then js ''border-cyan-200 bg-cyan-50/50''
      else if label = js ''messages'' then js ''border-slate-200 bg-slate-50/50''
      else if label = js ''output'' then js ''border-indigo-200 bg-indigo-50/50''
      else js ''border-border bg-muted/30'')"

definition labelTitle :: "jsstr \<Rightarrow> (jsstr \<Rightarrow> jsstr) \<Rightarrow> jsstr" where
  "labelTitle label t =
     (if label = js ''system'' then t (js ''messages.categories.system'')
      else if label = js ''tools'' then t (js ''messages.categories.tools'')
      else if label = js ''messages'' then t (js ''messages.categories.messages'')
      else if label = js ''output'' then t (js ''messages.categories.output'')
      else label)"

definition roleTextColor :: "jsstr \<Rightarrow> jsstr" where
  "roleTextColor role =
     (if role = js ''user'' then js ''text-blue-600''
      else if role = js ''assistant'' then js ''text-emerald-600''
      else if role = js ''system'' then js ''text-amber-600''
      else if role = js ''tool'' then js ''text-purple-600''
      else js ''text-muted-foreground'')"

definition palette :: "jsstr list" where
  "palette = [js ''bg-rose-100 text-rose-700'', js ''bg-sky-100 text-sky-700'',
     js ''bg-violet-100 text-violet-700'', js ''bg-teal-100 text-teal-700'',
     js ''bg-amber-100 text-amber-700'', js ''bg-fuchsia-100 text-fuchsia-700'']"

text \<open>\<^verbatim>\<open>h = (h * 31 + c) >>> 0\<close>: the sum is below \<open>2 ^ 53\<close>, so it is exact and the shift keeps its
  low 32 bits.\<close>

definition name_hash :: "jsstr \<Rightarrow> 32 word" where
  "name_hash name = foldl (\<lambda>h c. h * 31 + ucast c) 0 name"

definition toolLabelColor :: "jsstr \<Rightarrow> jsstr" where
  "toolLabelColor name = palette ! (unat (name_hash name) mod length palette)"


section \<open>The component tree\<close>

text \<open>The components with the props they are given; style classes that do not depend on the data are
  left out. \<open>t\<close> is the translation function.\<close>

datatype element =
    Paragraph jsstr
  | SectionEl (sec_label: jsstr) (sec_count: nat) (sec_emptyHint: "jsstr option") (sec_children: "element list")
  | GroupEl (grp_label: jsstr) (grp_count: nat) (grp_children: "element list")
  | MessageEl (msg_index: nat) (msg_msg: json)
  | ToolLabelEl json
  | OutputEl OutputItem

definition message_nodes :: "nat \<Rightarrow> json list \<Rightarrow> element list" where
  "message_nodes start msgs = map (\<lambda>(i, m). MessageEl (start + i) m) (zip [0..<length msgs] msgs)"

text \<open>\<^verbatim>\<open>cond && <Element/>\<close>\<close>

definition when_el :: "bool \<Rightarrow> element \<Rightarrow> element list" where
  "when_el b e = (if b then [e] else [])"

definition TraceCategories ::
  "TraceDetailLike \<Rightarrow> TraceDetailLike option \<Rightarrow> (jsstr \<Rightarrow> jsstr) \<Rightarrow> element list res" where
  "TraceCategories current previous t =
     rbind (analyze current previous) (\<lambda>an.
       let systemMsgs = an_systemMsgs an; tools = an_tools an; carried = an_carried an;
           newMsgs = an_newMsgs an; output = an_output an;
           totalMsgs = length carried + length newMsgs
       in Inr (
         if systemMsgs = [] \<and> tools = [] \<and> totalMsgs = 0 \<and> output = None
         then [Paragraph (t (js ''messages.empty''))]
         else
           when_el (systemMsgs \<noteq> [])
             (SectionEl (js ''system'') (length systemMsgs) None (message_nodes 0 systemMsgs)) @
           when_el (tools \<noteq> [])
             (SectionEl (js ''tools'') (length tools) None (map ToolLabelEl tools)) @
           when_el (totalMsgs > 0)
             (SectionEl (js ''messages'') totalMsgs None
               (when_el (carried \<noteq> []) (GroupEl (js ''carried-over'') (length carried) (message_nodes 0 carried)) @
                when_el (newMsgs \<noteq> [])
                  (GroupEl (js ''new'') (length newMsgs) (message_nodes (length carried) newMsgs)))) @
           [SectionEl (js ''output'') (case output of None \<Rightarrow> 0 | Some item \<Rightarrow> 1) (Some (t (js ''raw.empty'')))
              (case output of None \<Rightarrow> [] | Some item \<Rightarrow> [OutputEl item])]))"

text \<open>Every collapsible node is a toggle: its state is whether it is open, a click negates it, and its
  children are rendered only while it is open. A section starts open, a group only when it is the new
  one, the other nodes closed.\<close>

definition initially_open :: "element \<Rightarrow> bool" where
  "initially_open e =
     (case e of SectionEl l c h ch \<Rightarrow> True | GroupEl l c ch \<Rightarrow> l = js ''new'' | _ \<Rightarrow> False)"

definition Section_body :: "bool \<Rightarrow> nat \<Rightarrow> jsstr option \<Rightarrow> element list \<Rightarrow> element list" where
  "Section_body isOpen count emptyHint children =
     (if \<not> isOpen then []
      else case emptyHint of
             Some h \<Rightarrow> if count = 0 \<and> h \<noteq> [] then [Paragraph h] else children
           | None \<Rightarrow> children)"

definition Section_title :: "jsstr \<Rightarrow> nat \<Rightarrow> (jsstr \<Rightarrow> jsstr) \<Rightarrow> jsstr \<times> jsstr" where
  "Section_title label count t = (labelTitle label t, [0xB7, 0x20] @ digits10 count)"

definition Group_title :: "jsstr \<Rightarrow> nat \<Rightarrow> (jsstr \<Rightarrow> jsstr) \<Rightarrow> jsstr \<times> jsstr" where
  "Group_title label count t =
     ((if label = js ''carried-over'' then t (js ''messages.categories.carriedOver'')
       else t (js ''messages.categories.new'')), [0xB7, 0x20] @ digits10 count)"

definition Group_body :: "bool \<Rightarrow> element list \<Rightarrow> element list" where
  "Group_body isOpen children = (if isOpen then children else [])"

text \<open>A chip: icon, label and detail.\<close>

record chip =
  ch_wrench :: bool
  ch_label :: jsstr
  ch_detail :: jsstr
  ch_cls :: jsstr

definition BlockChip :: "block \<Rightarrow> chip" where
  "BlockChip b = \<lparr>ch_wrench = (case b of ToolUse n r \<Rightarrow> True | _ \<Rightarrow> False),
     ch_label = fst (blockChipStyle b), ch_detail = blockChipDetail b, ch_cls = snd (blockChipStyle b)\<rparr>"

definition ToolCallChip :: "json \<Rightarrow> chip res" where
  "ToolCallChip tc = rbind (function_of tc) (\<lambda>fn.
     let name = string_or (opt_prop fn (js ''name'')) (js ''(tool)'') in
     Inr \<lparr>ch_wrench = True, ch_label = name, ch_detail = [], ch_cls = toolLabelColor name\<rparr>)"

text \<open>The expanded form of a tool call: its name, id and arguments, the arguments indented when they
  parse.\<close>

record tool_call_view =
  tv_name :: jsstr
  tv_id :: jsstr
  tv_args :: jsstr

definition args_pretty :: "jsval \<Rightarrow> jsstr" where
  "args_pretty fn =
     (let argsRaw = (case str_of (opt_prop fn (js ''arguments'')) of
                       Some s \<Rightarrow> s
                     | None \<Rightarrow> stringify (coalesce (opt_prop fn (js ''arguments'')) empty_object))
      in case json_parse argsRaw of Some v \<Rightarrow> stringify_pretty 0 v | None \<Rightarrow> argsRaw)"

definition ToolCallRaw :: "json \<Rightarrow> tool_call_view res" where
  "ToolCallRaw tc = rbind (function_of tc) (\<lambda>fn.
     Inr \<lparr>tv_name = string_or (opt_prop fn (js ''name'')) (js ''(tool)''),
          tv_id = (case str_of (opt_prop (Some tc) (js ''id'')) of Some s \<Rightarrow> s | None \<Rightarrow> []),
          tv_args = args_pretty fn\<rparr>)"

datatype raw_view = RawText jsstr | RawImage | RawTool tool_call_view

definition BlockRaw :: "block \<Rightarrow> (jsstr \<Rightarrow> jsstr) \<Rightarrow> raw_view res" where
  "BlockRaw b t =
     (case b of
        TextBlock s \<Rightarrow> Inr (RawText (if s \<noteq> [] then s else t (js ''raw.empty'')))
      | ThinkingBlock s \<Rightarrow> Inr (RawText (if s \<noteq> [] then s else t (js ''raw.empty'')))
      | ToolResult i s \<Rightarrow> Inr (RawText (if s \<noteq> [] then s else t (js ''raw.empty'')))
      | ImageBlock \<Rightarrow> Inr RawImage
      | ToolUse n tc \<Rightarrow> rbind (function_of tc) (\<lambda>fn.
          Inr (RawTool \<lparr>tv_name = string_or (opt_prop fn (js ''name'')) n,
                        tv_id = (case str_of (opt_prop (Some tc) (js ''id'')) of Some s \<Rightarrow> s | None \<Rightarrow> []),
                        tv_args = args_pretty fn\<rparr>))
      | UnknownBlock r \<Rightarrow> Inr (RawText (stringify_pretty 0 r)))"

text \<open>A message row: its number, role, role colour and chips; when open, its raw blocks too.\<close>

record message_view =
  mv_number :: jsstr
  mv_role :: "(jsstr \<times> jsstr) option"
  mv_chips :: "chip list"
  mv_raw :: "raw_view list"

definition MessageNode :: "bool \<Rightarrow> nat \<Rightarrow> json \<Rightarrow> (jsstr \<Rightarrow> jsstr) \<Rightarrow> message_view res" where
  "MessageNode isOpen index msg t =
     rbind (blocksOf msg) (\<lambda>blocks.
     rbind (get_prop (Some msg) (js ''role'')) (\<lambda>rolev.
     rbind (if isOpen then rmap (\<lambda>b. BlockRaw b t) blocks else Inr []) (\<lambda>raws.
       let role = string_or rolev [] in
       Inr \<lparr>mv_number = js ''#'' @ digits10 (index + 1),
            mv_role = (if role \<noteq> [] then Some (role, roleTextColor role) else None),
            mv_chips = map BlockChip blocks, mv_raw = raws\<rparr>)))"

record output_view =
  ov_chip :: "chip + jsstr"
  ov_toolChips :: "chip list"
  ov_text :: "jsstr option"
  ov_tools :: "tool_call_view list"

definition OutputNode :: "bool \<Rightarrow> OutputItem \<Rightarrow> (jsstr \<Rightarrow> jsstr) \<Rightarrow> output_view res" where
  "OutputNode isOpen item t =
     (let calls = (case oi_toolCalls item of None \<Rightarrow> [] | Some tcs \<Rightarrow> tcs) in
      rbind (rmap ToolCallChip calls) (\<lambda>chips.
      rbind (if isOpen then rmap ToolCallRaw calls else Inr []) (\<lambda>raws.
        Inr \<lparr>ov_chip = (if oi_text item \<noteq> [] then Inl (BlockChip (TextBlock (oi_text item)))
                       else Inr (t (js ''raw.empty''))),
             ov_toolChips = chips,
             ov_text = (if isOpen \<and> oi_text item \<noteq> [] then Some (oi_text item) else None),
             ov_tools = raws\<rparr>)))"

record tool_label_view =
  tl_name :: jsstr
  tl_color :: jsstr
  tl_summary :: jsstr
  tl_full :: "jsstr option"
  tl_params :: "jsstr option"

definition ToolLabel :: "bool \<Rightarrow> json \<Rightarrow> (jsstr \<Rightarrow> jsstr) \<Rightarrow> tool_label_view res" where
  "ToolLabel isOpen tool t = rbind (function_of tool) (\<lambda>fn.
     let name = string_or (opt_prop fn (js ''name'')) (js ''(unnamed)'');
         desc = (case str_of (opt_prop fn (js ''description'')) of Some s \<Rightarrow> s | None \<Rightarrow> []);
         params = opt_prop fn (js ''parameters'');
         shown = (if desc \<noteq> [] then desc else t (js ''raw.empty''))
     in Inr \<lparr>tl_name = name, tl_color = toolLabelColor name, tl_summary = shown,
             tl_full = (if isOpen then Some shown else None),
             tl_params = (if isOpen \<and> is_object params then Some (stringify_pretty 0 (the params)) else None)\<rparr>)"

section \<open>Lemmas\<close>

lemma rfilter_Inr: "rfilter f xs = Inr ys \<longleftrightarrow> (\<forall>x\<in>set xs. \<exists>b. f x = Inr b) \<and> ys = filter (\<lambda>x. f x = Inr True) xs"
proof (induction xs arbitrary: ys)
  case (Cons x xs)
  then show ?case
    by (cases "f x") (auto simp: rbind_Inr_conv)
qed auto

lemma is_system_total: "is_nullish (Some m) \<or> (\<exists>b. is_system m = Inr b)"
  by (cases m) (auto simp: is_system_def)

lemma not_system_iff: "not_system m = Inr True \<longleftrightarrow> is_system m = Inr False"
  by (auto simp: not_system_def rbind_Inr_conv)

lemma rfilter_not_system:
  assumes "rfilter is_system ms = Inr ss"
  shows "rfilter not_system ms = Inr (filter (\<lambda>m. is_system m = Inr False) ms)"
proof -
  have "\<exists>b. not_system m = Inr b" if "m \<in> set ms" for m
    using assms that unfolding rfilter_Inr by (auto simp: not_system_def)
  then show ?thesis by (simp add: rfilter_Inr not_system_iff)
qed

lemma prefix_result:
  "commonPrefixLength as bs = Inr n \<Longrightarrow>
     n \<le> length as \<and> n \<le> length bs \<and>
     (\<forall>i<n. \<exists>s. signature (as ! i) = Inr s \<and> signature (bs ! i) = Inr s) \<and>
     (n < length as \<and> n < length bs \<longrightarrow> signature (as ! n) \<noteq> signature (bs ! n))"
proof (induction as bs arbitrary: n rule: commonPrefixLength.induct)
  case (1 a as b bs)
  from 1(2) obtain sa sb where s: "signature a = Inr sa" "signature b = Inr sb"
    by (auto simp: rbind_Inr_conv)
  show ?case
  proof (cases "sa = sb")
    case True
    with 1(2) s obtain m where m: "commonPrefixLength as bs = Inr m" "n = Suc m"
      by (auto simp: rbind_Inr_conv)
    from 1(1) [OF s True [THEN not_not [THEN iffD2]] m(1)] s True m(2) show ?thesis
      by (auto simp: nth_Cons split: nat.splits)
  next
    case False
    with 1(2) s show ?thesis by auto
  qed
qed auto


subsection \<open>Streams\<close>

text \<open>The reference: the chunks of a transcript, the text and the tool-call fragments of a chunk, and
  the tool call of an index as the fold of its own fragments.\<close>

definition chunks_of :: "jsstr list \<Rightarrow> json list" where
  "chunks_of ls = List.map_filter sse_payload ls"

definition chunk_delta :: "json \<Rightarrow> jsval" where
  "chunk_delta c = opt_prop (head_of (as_array (opt_prop (Some c) (js ''choices'')))) (js ''delta'')"

definition chunk_text :: "json \<Rightarrow> jsstr" where
  "chunk_text c = (case str_of (opt_prop (chunk_delta c) (js ''content'')) of Some s \<Rightarrow> s | None \<Rightarrow> [])"

definition chunk_calls :: "json \<Rightarrow> json list" where
  "chunk_calls c = as_array (opt_prop (chunk_delta c) (js ''tool_calls''))"

definition call_index :: "json \<Rightarrow> jsnum" where
  "call_index tc = (case num_of (opt_prop (Some tc) (js ''index'')) of Some n \<Rightarrow> n | None \<Rightarrow> Fin 0)"

definition fragment :: "json \<Rightarrow> jsstr \<Rightarrow> jsstr" where
  "fragment tc k =
     (case str_of (opt_prop (Some (coalesce (opt_prop (Some tc) (js ''function'')) empty_object)) k) of
        Some s \<Rightarrow> s | None \<Rightarrow> [])"

definition add_fragment :: "tool_acc \<Rightarrow> json \<Rightarrow> tool_acc" where
  "add_fragment a tc =
     a\<lparr>ta_id := (case str_of (opt_prop (Some tc) (js ''id'')) of
                 Some s \<Rightarrow> if s \<noteq> [] then s else ta_id a | None \<Rightarrow> ta_id a),
       ta_name := ta_name a @ fragment tc (js ''name''),
       ta_arguments := ta_arguments a @ fragment tc (js ''arguments'')\<rparr>"

definition tool_call_at :: "json list \<Rightarrow> jsnum \<Rightarrow> tool_acc" where
  "tool_call_at tcs k = foldl add_fragment new_acc (filter (\<lambda>tc. call_index tc = k) tcs)"

lemma merge_tool_call_Inr:
  assumes "merge_tool_call m tc = Inr m'"
  shows "m' = map_set (call_index tc)
       (add_fragment (case map_of m (call_index tc) of Some a \<Rightarrow> a | None \<Rightarrow> new_acc) tc) m"
proof -
  from assms have nn: "\<not> is_nullish (Some tc)" by (cases tc) (auto simp: merge_tool_call_def)
  let ?fn = "Some (coalesce (opt_prop (Some tc) (js ''function'')) empty_object)"
  obtain i n as where e: "(case map_of m (call_index tc) of Some a \<Rightarrow> a | None \<Rightarrow> new_acc) =
      \<lparr>ta_id = i, ta_name = n, ta_arguments = as\<rparr>"
    by (metis tool_acc.surjective unit.exhaust)
  show ?thesis
    using assms
    unfolding merge_tool_call_def get_prop_Inr [OF nn] call_index_def [symmetric] Let_def rbind_simps sum.inject
    by (cases "str_of (opt_prop ?fn (js ''name''))"; cases "str_of (opt_prop ?fn (js ''arguments''))";
        cases "str_of (opt_prop (Some tc) (js ''id''))")
      (auto simp: add_fragment_def fragment_def e)
qed

lemma map_of_map_set: "map_of (map_set k v m) = (map_of m)(k \<mapsto> v)"
  by (induction k v m rule: map_set.induct) (auto simp: fun_eq_iff)

lemma keys_map_set: "fst ` set (map_set k v m) = insert k (fst ` set m)"
  by (induction k v m rule: map_set.induct) auto

lemma distinct_map_set: "distinct (map fst m) \<Longrightarrow> distinct (map fst (map_set k v m))"
proof (induction k v m rule: map_set.induct)
  case (2 k v k' v' kvs)
  then show ?case by (auto simp: keys_map_set image_iff)
qed simp

lemma merge_tool_calls_Inr:
  "merge_tool_calls m tcs = Inr m' \<Longrightarrow>
     map_of m' k = (case map_of m k of
       Some a \<Rightarrow> Some (foldl add_fragment a (filter (\<lambda>tc. call_index tc = k) tcs))
     | None \<Rightarrow> if k \<in> call_index ` set tcs then Some (tool_call_at tcs k) else None)"
proof (induction m tcs rule: merge_tool_calls.induct)
  case (1 m)
  then show ?case by (auto split: option.splits)
next
  case (2 m tc tcs)
  then obtain m1 where m1: "merge_tool_call m tc = Inr m1" "merge_tool_calls m1 tcs = Inr m'"
    by (auto simp: rbind_Inr_conv)
  note IH = 2(1) [OF m1(1) m1(2)]
  show ?case
    unfolding IH merge_tool_call_Inr [OF m1(1)] map_of_map_set
    by (auto simp: tool_call_at_def split: option.splits)
qed

lemma merge_tool_calls_distinct:
  "merge_tool_calls m tcs = Inr m' \<Longrightarrow> distinct (map fst m) \<Longrightarrow> distinct (map fst m')"
proof (induction m tcs rule: merge_tool_calls.induct)
  case (2 m tc tcs)
  then obtain m1 where m1: "merge_tool_call m tc = Inr m1" "merge_tool_calls m1 tcs = Inr m'"
    by (auto simp: rbind_Inr_conv)
  from 2(1) [OF m1] merge_tool_call_Inr [OF m1(1)] distinct_map_set [OF 2(3)] show ?case by simp
qed simp

lemma merge_append:
  "merge_tool_calls m (xs @ ys) = rbind (merge_tool_calls m xs) (\<lambda>m'. merge_tool_calls m' ys)"
  by (induction m xs rule: merge_tool_calls.induct) (auto simp: rbind_def split: sum.splits)

lemma opt_prop_falsy: "\<not> truthy v \<Longrightarrow> opt_prop v k = None"
  by (cases "(v, k)" rule: opt_prop.cases) auto

lemma sse_chunk_Inr:
  assumes "sse_chunk st c = Inr st'"
  shows "ss_content st' = ss_content st @ chunk_text c \<and>
    merge_tool_calls (ss_tools st) (chunk_calls c) = Inr (ss_tools st') \<and> ss_sawAny st'"
proof -
  from assms have nn: "\<not> is_nullish (Some c)" by (cases c) (auto simp: sse_chunk_def)
  have d: "opt_prop (head_of (as_array (opt_prop (Some c) (js ''choices'')))) (js ''delta'') = chunk_delta c"
    by (simp add: chunk_delta_def)
  show ?thesis
  proof (cases "truthy (chunk_delta c)")
    case True
    with assms nn d show ?thesis
      by (auto simp: sse_chunk_def get_prop_Inr Let_def rbind_Inr_conv chunk_text_def chunk_calls_def
          split: option.splits)
  next
    case False
    with assms nn d show ?thesis
      by (auto simp: sse_chunk_def get_prop_Inr Let_def chunk_text_def chunk_calls_def opt_prop_falsy)
  qed
qed

lemma sse_lines_Inr:
  "sse_lines st ls = Inr st' \<Longrightarrow>
     ss_content st' = ss_content st @ concat (map chunk_text (chunks_of ls)) \<and>
     merge_tool_calls (ss_tools st) (concat (map chunk_calls (chunks_of ls))) = Inr (ss_tools st') \<and>
     ss_sawAny st' = (ss_sawAny st \<or> chunks_of ls \<noteq> [])"
proof (induction st ls rule: sse_lines.induct)
  case (1 st)
  then show ?case by (simp add: chunks_of_def map_filter_simps)
next
  case (2 st l ls)
  then obtain st1 where st1: "sse_line st l = Inr st1" "sse_lines st1 ls = Inr st'"
    by (auto simp: rbind_Inr_conv)
  note IH = 2(1) [OF st1]
  show ?case
  proof (cases "sse_payload l")
    case None
    with st1 IH show ?thesis by (simp add: sse_line_def chunks_of_def map_filter_simps)
  next
    case (Some c)
    with st1 have "sse_chunk st c = Inr st1" by (simp add: sse_line_def)
    from sse_chunk_Inr [OF this] Some IH show ?thesis
      by (simp add: chunks_of_def map_filter_simps merge_append)
  qed
qed

lemma set_insert_tool: "set (insert_tool x xs) = insert x (set xs)"
  by (induction x xs rule: insert_tool.induct) auto

lemma set_sort_tools: "set (sort_tools m) = set m"
  by (induction m) (auto simp: sort_tools_def set_insert_tool)

lemma num_lt_total: "a \<noteq> NaN \<Longrightarrow> b \<noteq> NaN \<Longrightarrow> a \<noteq> b \<Longrightarrow> num_lt a b \<or> num_lt b a"
  by (cases a; cases b) auto

lemma num_lt_trans: "num_lt a b \<Longrightarrow> num_lt b c \<Longrightarrow> num_lt a c"
  by (cases a; cases b; cases c) auto

lemma insert_tool_sorted:
  assumes "sorted_wrt (\<lambda>x y. num_lt (fst x) (fst y)) xs" "fst x \<notin> fst ` set xs"
    "fst x \<noteq> NaN" "\<forall>y\<in>set xs. fst y \<noteq> NaN"
  shows "sorted_wrt (\<lambda>x y. num_lt (fst x) (fst y)) (insert_tool x xs)"
  using assms
proof (induction x xs rule: insert_tool.induct)
  case (2 x y ys)
  show ?case
  proof (cases "num_lt (fst y) (fst x)")
    case True
    with 2 show ?thesis by (auto simp: set_insert_tool)
  next
    case False
    with 2 have "num_lt (fst x) (fst y)" using num_lt_total [of "fst x" "fst y"] by auto
    with False 2 show ?thesis using num_lt_trans by auto
  qed
qed simp

lemma sort_tools_sorted:
  assumes "distinct (map fst m)" "\<forall>x\<in>set m. fst x \<noteq> NaN"
  shows "sorted_wrt (\<lambda>x y. num_lt (fst x) (fst y)) (sort_tools m)"
  using assms
proof (induction m)
  case (Cons x m)
  then have "fst x \<notin> fst ` set (sort_tools m)" by (auto simp: set_sort_tools)
  with Cons have "sorted_wrt (\<lambda>x y. num_lt (fst x) (fst y)) (insert_tool x (sort_tools m))"
    by (intro insert_tool_sorted) (auto simp: set_sort_tools)
  then show ?case by (simp add: sort_tools_def)
qed (simp add: sort_tools_def)


subsection \<open>Analysis\<close>

lemma analyze_Inr:
  assumes "analyze cur prev = Inr an"
  obtains n where
    "commonPrefixLength (as_array (td_messages cur))
       (case prev of None \<Rightarrow> [] | Some p \<Rightarrow> as_array (td_messages p)) = Inr n"
    "\<forall>m\<in>set (as_array (td_messages cur)). \<exists>b. is_system m = Inr b"
    "an_carried an = filter (\<lambda>m. is_system m = Inr False) (take n (as_array (td_messages cur)))"
    "an_newMsgs an = filter (\<lambda>m. is_system m = Inr False) (drop n (as_array (td_messages cur)))"
    "an_systemMsgs an = filter (\<lambda>m. is_system m = Inr True) (as_array (td_messages cur))"
    "parseOutput (td_response_raw cur) = Inr (an_output an)"
    "an_tools an = extractTools (td_request_raw cur)"
  using assms
  by (auto simp: analyze_def Let_def rbind_Inr_conv rfilter_Inr not_system_iff)

lemma signature_non_null: "\<not> is_nullish (Some m) \<Longrightarrow> \<exists>s. signature m = Inr s"
  by (simp add: signature_def get_prop_Inr)

lemma prefix_total:
  "(\<forall>m\<in>set as \<union> set bs. \<not> is_nullish (Some m)) \<Longrightarrow> \<exists>n. commonPrefixLength as bs = Inr n"
proof (induction as bs rule: commonPrefixLength.induct)
  case (1 a as b bs)
  then obtain sa sb where "signature a = Inr sa" "signature b = Inr sb"
    using signature_non_null by (meson Un_iff list.set_intros(1))
  with 1 show ?case by (cases "sa = sb") auto
qed auto

section \<open>Properties\<close>

text \<open>The carried-over messages. The prefix that two requests share is the longest one: inside it
  the messages have equal signatures pairwise, and if both lists go on, the next two differ.\<close>

theorem commonPrefix_longest:
  assumes "commonPrefixLength as bs = Inr n"
  shows "n \<le> min (length as) (length bs) \<and>
    (\<forall>i<n. \<exists>s. signature (as ! i) = Inr s \<and> signature (bs ! i) = Inr s) \<and>
    (n < min (length as) (length bs) \<longrightarrow> signature (as ! n) \<noteq> signature (bs ! n))"
  using prefix_result [OF assms] by simp

theorem commonPrefix_longest_witness:
  "commonPrefixLength [JObj [(js ''role'', JStr (js ''user''))], JObj []] [JObj [(js ''role'', JStr (js ''user''))]] = Inr 1 \<and>
   signature ([JObj [(js ''role'', JStr (js ''user''))], JObj []] ! 0) =
     signature ([JObj [(js ''role'', JStr (js ''user''))]] ! 0)"
proof -
  have "commonPrefixLength [JObj [(js ''role'', JStr (js ''user''))], JObj []] [JObj [(js ''role'', JStr (js ''user''))]] = Inr 1"
    by (simp add: signature_def)
  from commonPrefix_longest [OF this] this show ?thesis by auto
qed

text \<open>The analysis of a request accounts for every message exactly once, in order: the carried-over
  and the new messages together are the messages that are not system messages, the system messages are
  the others, and the carried-over ones come from the longest prefix shared with the previous request.
  It fails only when a message or a part of the output is \<^verbatim>\<open>null\<close>.\<close>

theorem analyze_partition:
  assumes "analyze cur prev = Inr an"
  shows "an_carried an @ an_newMsgs an = filter (\<lambda>m. is_system m = Inr False) (as_array (td_messages cur)) \<and>
    an_systemMsgs an = filter (\<lambda>m. is_system m = Inr True) (as_array (td_messages cur)) \<and>
    length (an_carried an) + length (an_newMsgs an) + length (an_systemMsgs an) =
      length (as_array (td_messages cur)) \<and>
    (prev = None \<longrightarrow> an_carried an = [])"
proof -
  let ?ms = "as_array (td_messages cur)"
  from assms obtain n where n: "commonPrefixLength ?ms
       (case prev of None \<Rightarrow> [] | Some p \<Rightarrow> as_array (td_messages p)) = Inr n"
    "\<forall>m\<in>set ?ms. \<exists>b. is_system m = Inr b"
    "an_carried an = filter (\<lambda>m. is_system m = Inr False) (take n ?ms)"
    "an_newMsgs an = filter (\<lambda>m. is_system m = Inr False) (drop n ?ms)"
    "an_systemMsgs an = filter (\<lambda>m. is_system m = Inr True) ?ms"
    by (rule analyze_Inr)
  have split: "an_carried an @ an_newMsgs an = filter (\<lambda>m. is_system m = Inr False) ?ms"
    unfolding n(3,4) filter_append [symmetric] by simp
  have "filter (\<lambda>m. is_system m = Inr True) ?ms = filter (\<lambda>m. \<not> is_system m = Inr False) ?ms"
    by (rule filter_cong) (use n(2) in fastforce)+
  then have "length (an_carried an @ an_newMsgs an) + length (an_systemMsgs an) = length ?ms"
    unfolding split n(5) by (simp only: sum_length_filter_compl)
  then have "length (an_carried an) + length (an_newMsgs an) + length (an_systemMsgs an) = length ?ms"
    by (simp only: length_append)
  moreover have "an_carried an = []" if "prev = None"
    using prefix_result [OF n(1)] that n(3) by simp
  ultimately show ?thesis using split n(5) by blast
qed

definition sample_detail :: TraceDetailLike where
  "sample_detail = \<lparr>td_messages = Some (JArr [JObj [(js ''role'', JStr (js ''system''))],
      JObj [(js ''role'', JStr (js ''user''))]]), td_request_raw = None, td_response_raw = None\<rparr>"

theorem analyze_partition_witness:
  "\<exists>an. analyze sample_detail None = Inr an \<and>
     an_carried an @ an_newMsgs an = [JObj [(js ''role'', JStr (js ''user''))]] \<and>
     an_systemMsgs an = [JObj [(js ''role'', JStr (js ''system''))]]"
proof -
  have "\<exists>an. analyze sample_detail None = Inr an"
    by (simp add: analyze_def sample_detail_def Let_def rfilter_Inr is_system_def not_system_def parseOutput_def)
  then obtain an where an: "analyze sample_detail None = Inr an" ..
  have sys: "is_system (JObj [(js ''role'', JStr (js ''system''))]) = Inr True"
    "is_system (JObj [(js ''role'', JStr (js ''user''))]) = Inr False"
    by (simp_all add: is_system_def string_or_def coalesce_def)
  have "filter (\<lambda>m. is_system m = Inr False) (as_array (td_messages sample_detail)) = [JObj [(js ''role'', JStr (js ''user''))]]"
    "filter (\<lambda>m. is_system m = Inr True) (as_array (td_messages sample_detail)) = [JObj [(js ''role'', JStr (js ''system''))]]"
    using sys by (simp_all add: sample_detail_def)
  with analyze_partition [OF an] an show ?thesis by metis
qed

text \<open>The tree. When there is anything to show, the message rows of the two groups are numbered
  from zero without gaps, and each heading counts its rows.\<close>

theorem message_rows_numbered:
  assumes "analyze cur prev = Inr an"
  shows "map msg_index (message_nodes 0 (an_carried an) @
           message_nodes (length (an_carried an)) (an_newMsgs an)) =
         [0..<length (an_carried an) + length (an_newMsgs an)] \<and>
    map msg_msg (message_nodes 0 (an_carried an) @
           message_nodes (length (an_carried an)) (an_newMsgs an)) =
         filter (\<lambda>m. is_system m = Inr False) (as_array (td_messages cur)) \<and>
    (an_carried an @ an_newMsgs an \<noteq> [] \<longrightarrow>
       (\<exists>els ch. TraceCategories cur prev t = Inr els \<and>
          SectionEl (js ''messages'') (length (an_carried an) + length (an_newMsgs an)) None ch \<in> set els))"
proof -
  have idx: "map msg_index (message_nodes k ms) = [k..<k + length ms]" for k ms
  proof -
    have "map msg_index (message_nodes k ms) = map (\<lambda>i. k + i) (map fst (zip [0..<length ms] ms))"
      unfolding message_nodes_def map_map by (rule map_cong) auto
    also have "\<dots> = [k..<k + length ms]" by (simp add: map_add_upt add.commute)
    finally show ?thesis .
  qed
  have msg: "map msg_msg (message_nodes k ms) = ms" for k ms
    by (simp add: message_nodes_def comp_def case_prod_unfold)
  have order: "an_carried an @ an_newMsgs an = filter (\<lambda>m. is_system m = Inr False) (as_array (td_messages cur))"
    by (rule analyze_Inr [OF assms]) (metis append_take_drop_id filter_append)
  have "\<exists>els ch. TraceCategories cur prev t = Inr els \<and>
          SectionEl (js ''messages'') (length (an_carried an) + length (an_newMsgs an)) None ch \<in> set els"
    if "an_carried an @ an_newMsgs an \<noteq> []"
    using assms that by (auto simp: TraceCategories_def Let_def when_el_def)
  then show ?thesis
    by (simp add: idx msg order upt_add_eq_append [symmetric])
qed

theorem message_rows_numbered_witness:
  "\<exists>an els ch. analyze sample_detail None = Inr an \<and> TraceCategories sample_detail None id = Inr els \<and>
     SectionEl (js ''messages'') (length (an_carried an) + length (an_newMsgs an)) None ch \<in> set els"
proof -
  have sys: "is_system (JObj [(js ''role'', JStr (js ''system''))]) = Inr True"
    "is_system (JObj [(js ''role'', JStr (js ''user''))]) = Inr False"
    by (simp_all add: is_system_def string_or_def coalesce_def)
  have "\<exists>an. analyze sample_detail None = Inr an \<and> an_carried an @ an_newMsgs an \<noteq> []"
    by (simp add: analyze_def sample_detail_def Let_def not_system_def parseOutput_def sys)
  then obtain an where "analyze sample_detail None = Inr an" "an_carried an @ an_newMsgs an \<noteq> []" by blast
  with message_rows_numbered [OF this(1), of id] show ?thesis by blast
qed

text \<open>C16: reassembling a stream. The content is the concatenation of the text of the chunks in order;
  the tool calls are one per index that occurs, each with its own name and argument fragments
  concatenated in order and its last non-empty id, listed by increasing index.\<close>

theorem sse_reassembly:
  assumes "reassembleSSE s = Inr (Some r)"
    and "chunks = chunks_of (js_split 0x0A s)" and "calls = concat (map chunk_calls chunks)"
    and "\<forall>tc\<in>set calls. call_index tc \<noteq> NaN"
  shows "sr_content r = concat (map chunk_text chunks) \<and>
    (\<exists>ks. sr_toolCalls r = map (\<lambda>k. acc_json (tool_call_at calls k)) ks \<and>
       set ks = call_index ` set calls \<and> sorted_wrt num_lt ks)"
proof -
  from assms(1) obtain st where st: "sse_lines sse_start (js_split 0x0A s) = Inr st"
    "r = \<lparr>sr_content = ss_content st, sr_toolCalls = map (\<lambda>(k, a). acc_json a) (sort_tools (ss_tools st))\<rparr>"
    by (auto simp: reassembleSSE_def rbind_Inr_conv split: if_splits)
  note fold = sse_lines_Inr [OF st(1)]
  have m: "merge_tool_calls [] calls = Inr (ss_tools st)"
    using fold assms(2,3) by (simp add: sse_start_def)
  have dist: "distinct (map fst (ss_tools st))" using merge_tool_calls_distinct [OF m] by simp
  have at: "map_of (ss_tools st) k = (if k \<in> call_index ` set calls then Some (tool_call_at calls k) else None)" for k
    using merge_tool_calls_Inr [OF m, of k] by simp
  have keys: "fst ` set (ss_tools st) = call_index ` set calls"
    using at by (metis (no_types, lifting) domI dom_map_of_conv_image_fst option.distinct(1) set_eqI domD)
  have val: "a = tool_call_at calls k" if "(k, a) \<in> set (ss_tools st)" for k a
    using map_of_is_SomeI [OF dist that] at by (metis option.distinct(1) option.inject)
  let ?ks = "map fst (sort_tools (ss_tools st))"
  have "sr_toolCalls r = map (\<lambda>k. acc_json (tool_call_at calls k)) ?ks"
    using val by (auto simp: st(2) set_sort_tools)
  moreover have "set ?ks = call_index ` set calls"
    using keys by (simp add: set_sort_tools)
  moreover have "sorted_wrt num_lt ?ks"
  proof -
    have "\<forall>x\<in>set (ss_tools st). fst x \<noteq> NaN"
      using keys assms(4) by (metis (no_types, lifting) imageE imageI)
    from sort_tools_sorted [OF dist this] show ?thesis by (simp add: sorted_wrt_map)
  qed
  ultimately have "\<exists>ks. sr_toolCalls r = map (\<lambda>k. acc_json (tool_call_at calls k)) ks \<and>
       set ks = call_index ` set calls \<and> sorted_wrt num_lt ks" by blast
  moreover have "sr_content r = concat (map chunk_text chunks)"
    using fold st(2) assms(2) by (simp add: sse_start_def)
  ultimately show ?thesis by blast
qed


definition sample_stream :: jsstr where
  "sample_stream = js ''data:{\"choices\":[{\"delta\":{\"content\":\"x\"}}]}''"

definition sample_chunk :: json where
  "sample_chunk = JObj [(js ''choices'', JArr [JObj [(js ''delta'', JObj [(js ''content'', JStr (js ''x''))])]])]"

lemma sample_payload: "sse_payload sample_stream = Some sample_chunk"
  by code_simp

lemma sample_lines: "js_split 0x0A sample_stream = [sample_stream]"
  by (rule js_split_id) (simp add: sample_stream_def js_def)

lemma sample_chunks: "chunks_of [sample_stream] = [sample_chunk]"
  by (simp add: chunks_of_def map_filter_simps sample_payload)

theorem sse_reassembly_witness:
  "\<exists>r. reassembleSSE sample_stream = Inr (Some r) \<and> sr_content r = js ''x'' \<and> sr_toolCalls r = []"
proof -
  have ok: "chunk_text sample_chunk = js ''x''" "chunk_calls sample_chunk = []"
    by (simp_all add: sample_chunk_def chunk_text_def chunk_calls_def chunk_delta_def head_of_def)
  have "\<exists>r. reassembleSSE sample_stream = Inr (Some r)"
    by (simp add: reassembleSSE_def sample_lines sse_line_def sample_payload)
      (simp add: sample_chunk_def sse_chunk_def head_of_def Let_def sse_start_def)
  then obtain r where run: "reassembleSSE sample_stream = Inr (Some r)" ..
  from sse_reassembly [OF run refl refl] run show ?thesis
    by (simp add: sample_lines sample_chunks ok)
qed

text \<open>The raw body of an output is never lost: whatever was captured, when an output is shown its raw
  text is the captured text itself, or the compact JSON of a captured value; a captured string that is
  neither a completion nor a stream is shown as it is.\<close>

theorem parseOutput_raw:
  "(parseOutput (Some (JStr s)) = Inr (Some item) \<longrightarrow> oi_raw item = s) \<and>
   (\<not> truthy (body_message (json_parse s)) \<and> s \<noteq> [] \<longrightarrow>
      (\<exists>item. parseOutput (Some (JStr s)) = Inr (Some item)) \<and>
      ((\<nexists>r. reassembleSSE s = Inr (Some r)) \<longrightarrow>
         parseOutput (Some (JStr s)) = Inr (Some \<lparr>oi_text = s, oi_toolCalls = None, oi_raw = s\<rparr>)))"
  by (auto simp: parseOutput_def parsed_body_def Let_def rbind_Inr_conv split: if_splits sum.splits option.splits)

theorem parseOutput_raw_witness:
  "parseOutput (Some (JStr (js ''busy''))) =
     Inr (Some \<lparr>oi_text = js ''busy'', oi_toolCalls = None, oi_raw = js ''busy''\<rparr>)"
proof -
  have "\<not> truthy (body_message (json_parse (js ''busy'')))" "reassembleSSE (js ''busy'') = Inr None"
    by code_simp+
  then show ?thesis using parseOutput_raw [of "js ''busy''"] by simp
qed

lemma map_of_snoc: "k \<noteq> k' \<Longrightarrow> map_of (kvs @ [(k', v)]) k = map_of kvs k"
  by (induction kvs) auto

text \<open>The signature that decides whether a message was carried over sees its role, its content and
  the id of the tool call it answers, and nothing else: two assistant messages that differ only in the
  tools they call count as the same message.\<close>

theorem signature_ignores_tool_calls:
  "signature (JObj (kvs @ [(js ''tool_calls'', x)])) = signature (JObj kvs) \<and>
   (\<forall>r c i. signature (JObj [(js ''role'', JStr r), (js ''content'', c), (js ''tool_call_id'', JStr i)]) =
      Inr (r @ js ''|'' @ stringify (if c = JNull then JStr [] else c) @ js ''|'' @ i))"
  by (simp add: signature_def map_of_snoc coalesce_def is_nullish_Some del: map_of_append)

text \<open>The blocks of a message: one per content part, one per tool call, and in front of them the
  tool result when the message is one; the kinds of the blocks say which is which.\<close>

theorem blocksOf_count:
  assumes "blocksOf (JObj kvs) = Inr bs"
    and "map_of kvs (js ''content'') = Some (JArr parts)"
    and "tcs = as_array (map_of kvs (js ''tool_calls''))"
  shows "(\<exists>pre. bs = pre @ drop (length pre) bs \<and> length bs = length pre + length parts + length tcs \<and>
      length pre \<le> 1 \<and> list_all is_ToolResult pre \<and>
      list_all is_ToolUse (drop (length pre + length parts) bs) \<and>
      map tool_raw (drop (length pre + length parts) bs) = tcs \<and>
      (map_of kvs (js ''role'') = Some (JStr (js ''tool'')) \<longrightarrow> length pre = 1))"
proof -
  let ?isTool = "string_or (map_of kvs (js ''role'')) [] = js ''tool'' \<or>
      (str_of (map_of kvs (js ''tool_call_id'')) \<noteq> None \<and> str_of (map_of kvs (js ''tool_call_id'')) \<noteq> Some [])"
  from assms obtain ps ts where ps: "rmap part_block parts = Inr ps" and ts: "rmap tool_block tcs = Inr ts"
    and bs: "if ?isTool then \<exists>i s. bs = ToolResult i s # ps @ ts else bs = ps @ ts"
    by (auto simp: blocksOf_def Let_def rbind_Inr_conv content_blocks_def split: if_splits)
  have tool: "?isTool" if "map_of kvs (js ''role'') = Some (JStr (js ''tool''))"
    using that by simp
  have lp: "length ps = length parts" using ps by (simp add: rmap_Inr_conv list_all2_lengthD)
  have lt: "list_all2 (\<lambda>x y. tool_block x = Inr y) tcs ts" using ts by (simp add: rmap_Inr_conv)
  then have tk: "list_all is_ToolUse ts \<and> map tool_raw ts = tcs"
    by (induction rule: list_all2_induct) (auto simp: tool_block_def rbind_Inr_conv)
  have len: "length ts = length tcs" using lt by (simp add: list_all2_lengthD)
  show ?thesis
  proof (cases "?isTool")
    case False
    with bs have "bs = ps @ ts" by (simp only: if_False)
    moreover have "map_of kvs (js ''role'') \<noteq> Some (JStr (js ''tool''))" using False tool by blast
    ultimately show ?thesis using lp tk len by (intro exI [of _ "[]"]) simp
  next
    case True
    with bs obtain i s where "bs = ToolResult i s # ps @ ts" by (simp only: if_True) blast
    with lp tk len show ?thesis by (intro exI [of _ "[ToolResult i s]"]) auto
  qed
qed

definition sample_tool_message :: fields where
  "sample_tool_message = [(js ''role'', JStr (js ''tool'')), (js ''content'', JArr [JStr (js ''hi'')])]"

theorem blocksOf_count_witness:
  "\<exists>bs pre. blocksOf (JObj sample_tool_message) = Inr bs \<and> bs = pre @ drop (length pre) bs \<and>
     length bs = length pre + 1 \<and> length pre = 1"
proof -
  have "\<exists>bs. blocksOf (JObj sample_tool_message) = Inr bs"
    by (simp add: blocksOf_def sample_tool_message_def content_blocks_def part_block_def string_or_def Let_def)
  then obtain bs where run: "blocksOf (JObj sample_tool_message) = Inr bs" ..
  have "map_of sample_tool_message (js ''content'') = Some (JArr [JStr (js ''hi'')])"
    "map_of sample_tool_message (js ''tool_calls'') = None"
    "map_of sample_tool_message (js ''role'') = Some (JStr (js ''tool''))"
    by (simp_all add: sample_tool_message_def)
  with blocksOf_count [OF run this(1) refl] run show ?thesis by auto
qed

lemma name_hash_foldl: "unat (foldl (\<lambda>h c. h * 31 + ucast c) (h :: 32 word) name) =
    foldl (\<lambda>a c. (a * 31 + unat (c :: cunit)) mod 2 ^ 32) (unat h) name"
proof (induction name arbitrary: h)
  case (Cons c name)
  have "unat (h * 31 + ucast c) = (unat h * 31 + unat c) mod 2 ^ 32"
    using unsigned_less [of c, where ?'a = nat]
    by (simp add: unat_word_ariths unsigned_ucast_eq take_bit_nat_eq_self mod_simps)
  with Cons show ?case by simp
qed simp

text \<open>The colour of a tool name is always one of the palette, and the 32-bit hash is the polynomial of
  the code units in base 31 modulo \<open>2 ^ 32\<close>, computed without rounding.\<close>

theorem toolLabelColor_palette:
  "toolLabelColor name \<in> set palette \<and>
   unat (name_hash name) = foldl (\<lambda>a c. (a * 31 + unat c) mod 2 ^ 32) 0 name"
proof -
  have "length palette = 6" by (simp add: palette_def)
  then have "unat (name_hash name) mod length palette < length palette" by simp
  then show ?thesis
    using name_hash_foldl [of 0 name] by (simp add: toolLabelColor_def name_hash_def)
qed

end
