(* ===== verification/Trace_Desktop.thy ===== *)
theory Trace_Desktop
  imports Trace
begin

text \<open>
  The trace view of the desktop application
  (\<^verbatim>\<open>desktop-ui/src/components/trace/trace-categories.tsx\<close>), which its header calls a port of the Control
  Panel's, and the choice of the request to compare with
  (\<^verbatim>\<open>desktop-ui/src/components/trace/trace-baseline.ts\<close>).

  The port is a copy that lives its own life, so every function of the file is transcribed here on its own, closer to
  the loops and objects of the code than theory \<open>Trace\<close>: the prefix is a loop over an index, a tool call under
  assembly is an object whose fields are assigned, the blocks of a message are pushed one by one, the colour of a
  tool is computed on numbers. Only the types are shared. The lemmas relate the two transcriptions function by
  function, and the property says where the two applications show the same and where they do not.
\<close>

section \<open>Labels\<close>

definition LABELS :: "(jsstr \<times> jsstr) list" where
  "LABELS =
    [(js ''messages.empty'', [0x65E0, 0x6D88, 0x606F, 0x5185, 0x5BB9]),
     (js ''messages.categories.system'', [0x7CFB, 0x7EDF]),
     (js ''messages.categories.tools'', [0x5DE5, 0x5177]),
     (js ''messages.categories.messages'', [0x6D88, 0x606F]),
     (js ''messages.categories.output'', [0x8F93, 0x51FA]),
     (js ''messages.categories.carriedOver'', [0x6CBF, 0x7528]),
     (js ''messages.categories.new'', [0x65B0, 0x589E]),
     (js ''messages.categories.toolsParameters'', [0x53C2, 0x6570]),
     (js ''raw.empty'', [0xFF08, 0x7A7A, 0xFF09])]"

text \<open>\<^verbatim>\<open>LABELS[key] ?? key\<close>; only keys of the table are looked up.\<close>

definition desktop_t :: "jsstr \<Rightarrow> jsstr" where
  "desktop_t key = (case map_of LABELS key of Some v \<Rightarrow> v | None \<Rightarrow> key)"

definition messagesOf :: "'a TraceDetailLike_scheme option \<Rightarrow> json list" where
  "messagesOf detail = (case detail of None \<Rightarrow> [] | Some d \<Rightarrow> as_array (td_messages d))"

text \<open>\<^verbatim>\<open>`${m.role ?? ""}|${JSON.stringify(m.content ?? "")}|${m.tool_call_id ?? ""}`\<close>\<close>

definition desktop_signature :: "json \<Rightarrow> jsstr res" where
  "desktop_signature m =
     rbind (get_prop (Some m) (js ''role'')) (\<lambda>role.
     rbind (get_prop (Some m) (js ''content'')) (\<lambda>content.
     rbind (get_prop (Some m) (js ''tool_call_id'')) (\<lambda>call.
       Inr (js_join (js ''|'') [string_or role [], stringify (coalesce content (JStr [])), string_or call []]))))"

function prefix_loop :: "json list \<Rightarrow> json list \<Rightarrow> nat \<Rightarrow> nat \<Rightarrow> nat res" where
  "prefix_loop a b n i =
     (if i < n then
        rbind (desktop_signature (a ! i)) (\<lambda>sa. rbind (desktop_signature (b ! i)) (\<lambda>sb.
          if sa \<noteq> sb then Inr i else prefix_loop a b n (Suc i)))
      else Inr n)"
  by auto
termination by (relation "measure (\<lambda>(a, b, n, i). n - i)") auto

definition desktop_commonPrefixLength :: "json list \<Rightarrow> json list \<Rightarrow> nat res" where
  "desktop_commonPrefixLength a b = (let n = min (length a) (length b) in prefix_loop a b n 0)"

definition desktop_extractTools :: "jsval \<Rightarrow> json list" where
  "desktop_extractTools requestRaw =
     (if \<not> is_object requestRaw then []
      else let tools = opt_prop requestRaw (js ''tools'') in if \<not> is_array tools then [] else as_array tools)"

text \<open>\<^verbatim>\<open>String(m.role ?? "")\<close>\<close>

definition role_text :: "json \<Rightarrow> jsstr res" where
  "role_text m = rbind (get_prop (Some m) (js ''role'')) (\<lambda>role. Inr (string_or role []))"

definition notSystem :: "json \<Rightarrow> bool res" where
  "notSystem m = rbind (role_text m) (\<lambda>role. Inr (role \<noteq> js ''system''))"

text \<open>The loop that collects the system messages.\<close>

fun push_system :: "json list \<Rightarrow> json list \<Rightarrow> json list res" where
  "push_system acc [] = Inr acc"
| "push_system acc (m # ms) =
     rbind (role_text m) (\<lambda>role. push_system (if role = js ''system'' then acc @ [m] else acc) ms)"

section \<open>Output\<close>

definition desktop_flatten_part :: "json \<Rightarrow> jsstr res" where
  "desktop_flatten_part p =
     rbind (get_prop (Some p) (js ''type'')) (\<lambda>ty.
     rbind (get_prop (Some p) (js ''text'')) (\<lambda>txt.
       case txt of
         Some (JStr s) \<Rightarrow>
           if ty = Some (JStr (js ''text'')) then Inr s
           else if ty = Some (JStr (js ''image_url'')) then Inr (js ''[image]'') else Inr (stringify p)
       | _ \<Rightarrow> if ty = Some (JStr (js ''image_url'')) then Inr (js ''[image]'') else Inr (stringify p)))"

definition desktop_flattenContent :: "jsval \<Rightarrow> jsstr res" where
  "desktop_flattenContent content =
     (if is_nullish content then Inr []
      else case the content of
        JStr s \<Rightarrow> Inr s
      | JArr parts \<Rightarrow> rbind (rmap desktop_flatten_part parts) (\<lambda>ss. Inr (js_join [0x0A] ss))
      | v \<Rightarrow> Inr (stringify_pretty 0 v))"

text \<open>The assignment \<^verbatim>\<open>o.k = v\<close> to an object.\<close>

definition set_field :: "json \<Rightarrow> jsstr \<Rightarrow> json \<Rightarrow> json" where
  "set_field obj k v = (case obj of JObj kvs \<Rightarrow> JObj (obj_set k v kvs) | _ \<Rightarrow> obj)"

text \<open>\<^verbatim>\<open>if (typeof v === "string") fn.k = (fn.k as string) + v\<close>\<close>

definition append_field :: "json \<Rightarrow> jsstr \<Rightarrow> jsval \<Rightarrow> json" where
  "append_field fn k v =
     (case v of Some (JStr s) \<Rightarrow> set_field fn k (JStr (val_String (opt_prop (Some fn) k) @ s)) | _ \<Rightarrow> fn)"

definition blank_call :: json where
  "blank_call = JObj [(js ''id'', JStr []), (js ''type'', JStr (js ''function'')),
     (js ''function'', JObj [(js ''name'', JStr []), (js ''arguments'', JStr [])])]"

text \<open>One fragment of a tool call. The objects of the map are mutated in place; the map keeps the order of first
  insertion.\<close>

definition add_call :: "(jsnum \<times> json) list \<Rightarrow> json \<Rightarrow> (jsnum \<times> json) list res" where
  "add_call calls tcr =
     rbind (get_prop (Some tcr) (js ''index'')) (\<lambda>index.
       let idx = (case index of Some (JNum n) \<Rightarrow> n | _ \<Rightarrow> Fin 0);
           existing = (case map_of calls idx of Some c \<Rightarrow> c | None \<Rightarrow> blank_call);
           newFn = coalesce (opt_prop (Some tcr) (js ''function'')) empty_object;
           fn = append_field
                  (append_field (coalesce (opt_prop (Some existing) (js ''function'')) empty_object) (js ''name'')
                     (opt_prop (Some newFn) (js ''name'')))
                  (js ''arguments'') (opt_prop (Some newFn) (js ''arguments''));
           withId = (case opt_prop (Some tcr) (js ''id'') of
                       Some (JStr s) \<Rightarrow> if s \<noteq> [] then set_field existing (js ''id'') (JStr s) else existing
                     | _ \<Rightarrow> existing)
       in Inr (map_set idx (set_field withId (js ''function'') fn) calls))"

fun add_calls :: "(jsnum \<times> json) list \<Rightarrow> json list \<Rightarrow> (jsnum \<times> json) list res" where
  "add_calls calls [] = Inr calls"
| "add_calls calls (tc # tcs) = rbind (add_call calls tc) (\<lambda>calls'. add_calls calls' tcs)"

record desktop_sse =
  ds_content :: jsstr
  ds_calls :: "(jsnum \<times> json) list"
  ds_sawAny :: bool

fun desktop_sse_lines :: "desktop_sse \<Rightarrow> jsstr list \<Rightarrow> desktop_sse res" where
  "desktop_sse_lines st [] = Inr st"
| "desktop_sse_lines st (line # lines) =
     (let trimmed = js_trimStart line; payload = js_trim (drop 5 trimmed) in
      if \<not> js_startsWith trimmed (js ''data:'') then desktop_sse_lines st lines
      else if payload = js ''[DONE]'' \<or> payload = [] then desktop_sse_lines st lines
      else case json_parse payload of
        None \<Rightarrow> desktop_sse_lines st lines
      | Some chunk \<Rightarrow>
          rbind (get_prop (Some chunk) (js ''choices'')) (\<lambda>cs.
            let st1 = st\<lparr>ds_sawAny := True\<rparr>;
                delta = opt_prop (case as_array cs of [] \<Rightarrow> None | c # rest \<Rightarrow> Some c) (js ''delta'')
            in if \<not> truthy delta then desktop_sse_lines st1 lines
               else
                 let st2 = (case opt_prop delta (js ''content'') of
                              Some (JStr s) \<Rightarrow> st1\<lparr>ds_content := ds_content st1 @ s\<rparr> | _ \<Rightarrow> st1)
                 in rbind (add_calls (ds_calls st2) (as_array (opt_prop delta (js ''tool_calls'')))) (\<lambda>calls.
                      desktop_sse_lines (st2\<lparr>ds_calls := calls\<rparr>) lines)))"

text \<open>\<^verbatim>\<open>.sort((a, b) => a[0] - b[0])\<close>\<close>

fun insert_entry :: "jsnum \<times> 'v \<Rightarrow> (jsnum \<times> 'v) list \<Rightarrow> (jsnum \<times> 'v) list" where
  "insert_entry x [] = [x]"
| "insert_entry x (y # ys) = (if num_lt (fst y) (fst x) then y # insert_entry x ys else x # y # ys)"

definition sort_entries :: "(jsnum \<times> 'v) list \<Rightarrow> (jsnum \<times> 'v) list" where
  "sort_entries es = foldr insert_entry es []"

definition desktop_reassembleSSE :: "jsstr \<Rightarrow> sse_result option res" where
  "desktop_reassembleSSE transcript =
     rbind (desktop_sse_lines \<lparr>ds_content = [], ds_calls = [], ds_sawAny = False\<rparr> (js_split 0x0A transcript)) (\<lambda>st.
       if \<not> ds_sawAny st then Inr None
       else Inr (Some \<lparr>sr_content = ds_content st, sr_toolCalls = map snd (sort_entries (ds_calls st))\<rparr>))"

text \<open>The two ways through \<^verbatim>\<open>parseOutput\<close> after the body was looked at: the message of the first choice, then the
  stream, then the text itself.\<close>

definition desktop_stream_output :: "json \<Rightarrow> jsstr \<Rightarrow> OutputItem" where
  "desktop_stream_output responseRaw raw =
     (let plain = \<lparr>oi_text = raw, oi_toolCalls = None, oi_raw = raw\<rparr> in
      case responseRaw of
        JStr s \<Rightarrow>
          (case desktop_reassembleSSE s of
             Inl e \<Rightarrow> plain
           | Inr None \<Rightarrow> plain
           | Inr (Some r) \<Rightarrow> \<lparr>oi_text = sr_content r,
               oi_toolCalls = (if length (sr_toolCalls r) > 0 then Some (sr_toolCalls r) else None), oi_raw = raw\<rparr>)
      | _ \<Rightarrow> plain)"

definition desktop_parseOutput :: "jsval \<Rightarrow> OutputItem option res" where
  "desktop_parseOutput responseRaw =
     (if is_nullish responseRaw then Inr None
      else if the responseRaw = JStr [] then Inr None
      else
        let rr = the responseRaw;
            obj = (if is_object responseRaw then responseRaw else case rr of JStr s \<Rightarrow> json_parse s | _ \<Rightarrow> None);
            raw = (case rr of JStr s \<Rightarrow> s | _ \<Rightarrow> stringify rr);
            choices = opt_prop obj (js ''choices'')
        in if truthy obj \<and> is_array choices \<and> length (as_array choices) > 0 then
             let msg = opt_prop (Some (as_array choices ! 0)) (js ''message'') in
             if truthy msg then
               rbind (desktop_flattenContent (opt_prop msg (js ''content''))) (\<lambda>txt.
                 let tcs = opt_prop msg (js ''tool_calls'') in
                 Inr (Some \<lparr>oi_text = txt, oi_toolCalls = (if is_array tcs then Some (as_array tcs) else None), oi_raw = raw\<rparr>))
             else Inr (Some (desktop_stream_output rr raw))
           else Inr (Some (desktop_stream_output rr raw)))"

definition desktop_analyze :: "TraceDetailLike \<Rightarrow> TraceDetailLike option \<Rightarrow> analysis res" where
  "desktop_analyze current previous =
     (let curMsgs = messagesOf (Some current);
          prevMsgs = messagesOf previous
      in rbind (desktop_commonPrefixLength curMsgs prevMsgs) (\<lambda>prefixLen.
         rbind (rfilter notSystem (take prefixLen curMsgs)) (\<lambda>carried.
         rbind (rfilter notSystem (drop prefixLen curMsgs)) (\<lambda>turnMsgs.
         rbind (push_system [] curMsgs) (\<lambda>systemMsgs.
         let tools = desktop_extractTools (td_request_raw current) in
         rbind (desktop_parseOutput (td_response_raw current)) (\<lambda>output.
           Inr \<lparr>an_systemMsgs = systemMsgs, an_tools = tools, an_carried = carried,
                an_newMsgs = turnMsgs, an_output = output\<rparr>))))))"

section \<open>Blocks\<close>

fun push_parts :: "block list \<Rightarrow> json list \<Rightarrow> block list res" where
  "push_parts acc [] = Inr acc"
| "push_parts acc (part # parts) =
     rbind (get_prop (Some part) (js ''type'')) (\<lambda>tyv.
       let ty = string_or tyv []; txt = opt_prop (Some part) (js ''text'');
           other = (if ty = js ''image_url'' then ImageBlock
                    else if ty = js ''thinking'' \<or> ty = js ''reasoning'' then
                      ThinkingBlock (json_String (coalesce (opt_prop (Some part) (js ''thinking'')) (coalesce txt (JStr []))))
                    else UnknownBlock part)
       in push_parts (acc @ [case txt of Some (JStr s) \<Rightarrow> if ty = js ''text'' then TextBlock s else other | _ \<Rightarrow> other]) parts)"

text \<open>\<^verbatim>\<open>(tc.function ?? {})\<close>\<close>

definition desktop_fn :: "json \<Rightarrow> json res" where
  "desktop_fn tc = rbind (get_prop (Some tc) (js ''function'')) (\<lambda>f. Inr (coalesce f empty_object))"

fun push_tools :: "block list \<Rightarrow> json list \<Rightarrow> block list res" where
  "push_tools acc [] = Inr acc"
| "push_tools acc (tc # tcs) =
     rbind (desktop_fn tc) (\<lambda>fn.
       push_tools (acc @ [ToolUse (string_or (opt_prop (Some fn) (js ''name'')) (js ''(tool)'')) tc]) tcs)"

definition desktop_blocksOf :: "json \<Rightarrow> block list res" where
  "desktop_blocksOf msg =
     rbind (role_text msg) (\<lambda>role.
       let content = opt_prop (Some msg) (js ''content'');
           call = opt_prop (Some msg) (js ''tool_call_id'');
           pushed = (if is_array content then push_parts [] (as_array content)
                     else case content of
                       Some (JStr s) \<Rightarrow> Inr (if s \<noteq> [] then [TextBlock s] else [])
                     | v \<Rightarrow> Inr (if is_nullish v then [] else [UnknownBlock (the v)]))
       in rbind pushed (\<lambda>blocks.
          rbind (push_tools blocks (as_array (opt_prop (Some msg) (js ''tool_calls'')))) (\<lambda>all.
            if role = js ''tool'' \<or> (\<exists>s. call = Some (JStr s) \<and> s \<noteq> [])
            then Inr (ToolResult (string_or call [])
                        (case content of Some (JStr s) \<Rightarrow> s | _ \<Rightarrow> stringify (coalesce content (JStr []))) # all)
            else Inr all)))"

definition desktop_countLines :: "jsstr \<Rightarrow> nat" where
  "desktop_countLines txt = (if txt = [] then 0 else length (js_split 0x0A txt))"

definition desktop_shortenId :: "jsstr \<Rightarrow> jsstr" where
  "desktop_shortenId i = (if 8 < length i then take 6 i @ [0x2026] else i)"

definition desktop_blockChipStyle :: "block \<Rightarrow> jsstr \<times> jsstr" where
  "desktop_blockChipStyle b =
     (case b of
        TextBlock s \<Rightarrow> (js ''text'', js ''bg-blue-100 text-blue-700'')
      | ImageBlock \<Rightarrow> (js ''img'', js ''bg-orange-100 text-orange-700'')
      | ThinkingBlock s \<Rightarrow> (js ''thinking'', js ''bg-purple-100 text-purple-700'')
      | ToolUse n r \<Rightarrow> ([], js ''bg-cyan-100 text-cyan-700'')
      | ToolResult i s \<Rightarrow> (js ''tool_result'', js ''bg-emerald-100 text-emerald-700'')
      | UnknownBlock r \<Rightarrow> (js ''?'', js ''bg-muted text-muted-foreground''))"

definition desktop_blockChipDetail :: "block \<Rightarrow> jsstr" where
  "desktop_blockChipDetail b =
     (case b of
        TextBlock s \<Rightarrow> digits10 (desktop_countLines s) @ [0x884C]
      | ThinkingBlock s \<Rightarrow> digits10 (desktop_countLines s) @ [0x884C]
      | ToolUse n r \<Rightarrow> n
      | ToolResult i s \<Rightarrow> if i \<noteq> [] then js ''id:'' @ desktop_shortenId i else []
      | _ \<Rightarrow> [])"

definition desktop_BlockChip :: "block \<Rightarrow> chip" where
  "desktop_BlockChip b =
     (let (label, cls) = desktop_blockChipStyle b in
      \<lparr>ch_wrench = is_ToolUse b, ch_label = label, ch_detail = desktop_blockChipDetail b, ch_cls = cls\<rparr>)"

section \<open>Colours\<close>

definition desktop_sectionColor :: "jsstr \<Rightarrow> jsstr" where
  "desktop_sectionColor label =
     (case map_of
        [(js ''system'', js ''border-amber-200 bg-amber-50/50''), (js ''tools'', js ''border-cyan-200 bg-cyan-50/50''),
         (js ''messages'', js ''border-slate-200 bg-slate-50/50''), (js ''output'', js ''border-indigo-200 bg-indigo-50/50'')]
        label of
        Some c \<Rightarrow> c
      | None \<Rightarrow> js ''border-border bg-muted/30'')"

definition desktop_labelTitle :: "jsstr \<Rightarrow> jsstr" where
  "desktop_labelTitle label =
     (if label = js ''system'' then desktop_t (js ''messages.categories.system'')
      else if label = js ''tools'' then desktop_t (js ''messages.categories.tools'')
      else if label = js ''messages'' then desktop_t (js ''messages.categories.messages'')
      else if label = js ''output'' then desktop_t (js ''messages.categories.output'')
      else label)"

definition roleBadgeColor :: "jsstr \<Rightarrow> jsstr" where
  "roleBadgeColor role =
     (if role = js ''user'' then js ''bg-blue-100 text-blue-700''
      else if role = js ''assistant'' then js ''bg-emerald-100 text-emerald-700''
      else if role = js ''system'' then js ''bg-amber-100 text-amber-700''
      else if role = js ''tool'' then js ''bg-purple-100 text-purple-700''
      else js ''bg-muted text-muted-foreground'')"

definition desktop_palette :: "jsstr list" where
  "desktop_palette =
     [js ''bg-rose-100 text-rose-700'', js ''bg-sky-100 text-sky-700'', js ''bg-violet-100 text-violet-700'',
      js ''bg-teal-100 text-teal-700'', js ''bg-amber-100 text-amber-700'', js ''bg-fuchsia-100 text-fuchsia-700'']"

text \<open>\<^verbatim>\<open>h = (h * 31 + name.charCodeAt(i)) >>> 0\<close> on numbers, which are exact here.\<close>

fun hash_loop :: "nat \<Rightarrow> jsstr \<Rightarrow> nat" where
  "hash_loop h [] = h"
| "hash_loop h (c # cs) = hash_loop ((h * 31 + unat c) mod 2 ^ 32) cs"

definition desktop_toolLabelColor :: "jsstr \<Rightarrow> jsstr" where
  "desktop_toolLabelColor name = desktop_palette ! (hash_loop 0 name mod length desktop_palette)"

section \<open>Nodes\<close>

definition desktop_ToolCallChip :: "json \<Rightarrow> chip res" where
  "desktop_ToolCallChip tc = rbind (desktop_fn tc) (\<lambda>fn.
     let name = string_or (opt_prop (Some fn) (js ''name'')) (js ''(tool)'') in
     Inr \<lparr>ch_wrench = True, ch_label = name, ch_detail = [], ch_cls = desktop_toolLabelColor name\<rparr>)"

text \<open>The arguments of a call, indented when they parse.\<close>

definition desktop_argsPretty :: "json \<Rightarrow> jsstr" where
  "desktop_argsPretty fn =
     (let argsRaw = (case opt_prop (Some fn) (js ''arguments'') of
                       Some (JStr s) \<Rightarrow> s
                     | v \<Rightarrow> stringify (coalesce v empty_object))
      in case json_parse argsRaw of None \<Rightarrow> argsRaw | Some v \<Rightarrow> stringify_pretty 0 v)"

definition desktop_call_view :: "jsstr \<Rightarrow> json \<Rightarrow> tool_call_view res" where
  "desktop_call_view unnamed tc = rbind (desktop_fn tc) (\<lambda>fn.
     Inr \<lparr>tv_name = string_or (opt_prop (Some fn) (js ''name'')) unnamed,
          tv_id = (case opt_prop (Some tc) (js ''id'') of Some (JStr s) \<Rightarrow> s | _ \<Rightarrow> []),
          tv_args = desktop_argsPretty fn\<rparr>)"

definition desktop_ToolCallRaw :: "json \<Rightarrow> tool_call_view res" where
  "desktop_ToolCallRaw tc = desktop_call_view (js ''(tool)'') tc"

text \<open>Assistant text is rendered as Markdown.\<close>

datatype desktop_raw = Markdown jsstr | PlainRaw raw_view

definition desktop_BlockRaw :: "block \<Rightarrow> jsstr option \<Rightarrow> desktop_raw res" where
  "desktop_BlockRaw b role =
     (let pre = (\<lambda>s. Inr (PlainRaw (RawText (if s \<noteq> [] then s else desktop_t (js ''raw.empty''))))) in
      case b of
        TextBlock s \<Rightarrow> if role = Some (js ''assistant'') \<and> s \<noteq> [] then Inr (Markdown s) else pre s
      | ThinkingBlock s \<Rightarrow> pre s
      | ToolResult i s \<Rightarrow> pre s
      | ImageBlock \<Rightarrow> Inr (PlainRaw RawImage)
      | ToolUse n tc \<Rightarrow> rbind (desktop_call_view n tc) (\<lambda>v. Inr (PlainRaw (RawTool v)))
      | UnknownBlock r \<Rightarrow> Inr (PlainRaw (RawText (stringify_pretty 0 r))))"

text \<open>A message row has a badge for its role also when there is none.\<close>

record desktop_message =
  dm_number :: jsstr
  dm_badge :: "jsstr \<times> jsstr"
  dm_chips :: "chip list"
  dm_raw :: "desktop_raw list"

definition desktop_MessageNode :: "bool \<Rightarrow> nat \<Rightarrow> json \<Rightarrow> desktop_message res" where
  "desktop_MessageNode isOpen index msg =
     rbind (desktop_blocksOf msg) (\<lambda>blocks.
     rbind (role_text msg) (\<lambda>role.
     rbind (if isOpen then rmap (\<lambda>b. desktop_BlockRaw b (Some role)) blocks else Inr []) (\<lambda>raws.
       Inr \<lparr>dm_number = js ''#'' @ digits10 (index + 1),
            dm_badge = (if role \<noteq> [] then role else js ''unknown'', roleBadgeColor role),
            dm_chips = map desktop_BlockChip blocks, dm_raw = raws\<rparr>)))"

definition desktop_OutputNode :: "bool \<Rightarrow> OutputItem \<Rightarrow> output_view res" where
  "desktop_OutputNode isOpen item =
     rbind (case oi_toolCalls item of None \<Rightarrow> Inr [] | Some tcs \<Rightarrow> rmap desktop_ToolCallChip tcs) (\<lambda>chips.
     rbind (if \<not> isOpen then Inr []
            else case oi_toolCalls item of None \<Rightarrow> Inr [] | Some tcs \<Rightarrow> rmap desktop_ToolCallRaw tcs) (\<lambda>raws.
       Inr \<lparr>ov_chip = (if oi_text item \<noteq> [] then Inl (desktop_BlockChip (TextBlock (oi_text item)))
                      else Inr (desktop_t (js ''raw.empty''))),
            ov_toolChips = chips,
            ov_text = (if isOpen \<and> oi_text item \<noteq> [] then Some (oi_text item) else None),
            ov_tools = raws\<rparr>))"

definition desktop_ToolLabel :: "bool \<Rightarrow> json \<Rightarrow> tool_label_view res" where
  "desktop_ToolLabel isOpen tool = rbind (desktop_fn tool) (\<lambda>fn.
     let name = string_or (opt_prop (Some fn) (js ''name'')) (js ''(unnamed)'');
         desc = (case opt_prop (Some fn) (js ''description'') of Some (JStr s) \<Rightarrow> s | _ \<Rightarrow> []);
         shown = (if desc = [] then desktop_t (js ''raw.empty'') else desc);
         params = opt_prop (Some fn) (js ''parameters'');
         hasParams = (\<not> is_nullish params \<and> is_object params)
     in Inr \<lparr>tl_name = name, tl_color = desktop_toolLabelColor name, tl_summary = shown,
             tl_full = (if isOpen then Some shown else None),
             tl_params = (if isOpen \<and> hasParams then Some (stringify_pretty 0 (the params)) else None)\<rparr>)"

text \<open>A section or group: its colour, the two parts of its heading and what it holds while it is open. A section starts
  open, a group when it is the new one.\<close>

record heading_view =
  hv_color :: jsstr
  hv_title :: jsstr
  hv_count :: jsstr
  hv_body :: "element list"

definition desktop_Section :: "bool \<Rightarrow> jsstr \<Rightarrow> nat \<Rightarrow> jsstr option \<Rightarrow> element list \<Rightarrow> heading_view" where
  "desktop_Section isOpen label count emptyHint children =
     \<lparr>hv_color = desktop_sectionColor label, hv_title = desktop_labelTitle label, hv_count = [0xB7, 0x20] @ digits10 count,
      hv_body = (if \<not> isOpen then []
                 else if count = 0 \<and> emptyHint \<noteq> None \<and> emptyHint \<noteq> Some [] then [Paragraph (the emptyHint)]
                 else children)\<rparr>"

definition desktop_Group :: "bool \<Rightarrow> jsstr \<Rightarrow> nat \<Rightarrow> element list \<Rightarrow> heading_view" where
  "desktop_Group isOpen label count children =
     \<lparr>hv_color = [],
      hv_title = (if label = js ''carried-over'' then desktop_t (js ''messages.categories.carriedOver'')
                  else desktop_t (js ''messages.categories.new'')),
      hv_count = [0xB7, 0x20] @ digits10 count, hv_body = (if isOpen then children else [])\<rparr>"

text \<open>\<^verbatim>\<open>msgs.map((m, i) => <MessageNode index={start + i} msg={m} />)\<close>\<close>

definition desktop_rows :: "nat \<Rightarrow> json list \<Rightarrow> element list" where
  "desktop_rows start msgs = map (\<lambda>i. MessageEl (start + i) (msgs ! i)) [0..<length msgs]"

definition desktop_TraceCategories :: "TraceDetailLike \<Rightarrow> TraceDetailLike option \<Rightarrow> element list res" where
  "desktop_TraceCategories current previous =
     rbind (desktop_analyze current previous) (\<lambda>an.
       let systemMsgs = an_systemMsgs an; tools = an_tools an; carried = an_carried an;
           turnMsgs = an_newMsgs an; output = an_output an;
           totalMsgs = length carried + length turnMsgs
       in if length systemMsgs = 0 \<and> length tools = 0 \<and> totalMsgs = 0 \<and> output = None
          then Inr [Paragraph (desktop_t (js ''messages.empty''))]
          else Inr (concat
            [if length systemMsgs > 0 then [SectionEl (js ''system'') (length systemMsgs) None (desktop_rows 0 systemMsgs)] else [],
             if length tools > 0 then [SectionEl (js ''tools'') (length tools) None (map ToolLabelEl tools)] else [],
             if totalMsgs > 0 then
               [SectionEl (js ''messages'') totalMsgs None (concat
                  [if length carried > 0 then [GroupEl (js ''carried-over'') (length carried) (desktop_rows 0 carried)] else [],
                   if length turnMsgs > 0 then [GroupEl (js ''new'') (length turnMsgs) (desktop_rows (length carried) turnMsgs)] else []])]
             else [],
             [SectionEl (js ''output'') (if output \<noteq> None then 1 else 0) (Some (desktop_t (js ''raw.empty'')))
                (case output of None \<Rightarrow> [] | Some item \<Rightarrow> [OutputEl item])]]))"

section \<open>The baseline\<close>

text \<open>The loop over the candidates with the best one so far and its length.\<close>

fun pick_loop :: "json list \<Rightarrow> 'a TraceDetailLike_scheme option \<Rightarrow> nat \<Rightarrow> 'a TraceDetailLike_scheme list \<Rightarrow>
    'a TraceDetailLike_scheme option res" where
  "pick_loop curMsgs best bestLen [] = Inr best"
| "pick_loop curMsgs best bestLen (c # cs) =
     rbind (desktop_commonPrefixLength curMsgs (messagesOf (Some c))) (\<lambda>len.
       if len > bestLen then pick_loop curMsgs (Some c) len cs else pick_loop curMsgs best bestLen cs)"

definition pickBaseline :: "'b TraceDetailLike_scheme \<Rightarrow> 'a TraceDetailLike_scheme list \<Rightarrow> 'a TraceDetailLike_scheme option res" where
  "pickBaseline current candidates =
     (let curMsgs = messagesOf (Some current)
      in if curMsgs = [] then Inr None else pick_loop curMsgs None 0 candidates)"

section \<open>Lemmas\<close>

text \<open>The functions that return the same as those of the Control Panel, collected as rules from the port to the
  original.\<close>

named_theorems port_simps

subsection \<open>Message history\<close>

lemma desktop_signature_eq [port_simps]: "desktop_signature m = signature m"
  by (simp add: desktop_signature_def signature_def)

lemma prefix_loop_drop:
  "n = min (length a) (length b) \<Longrightarrow> i \<le> n \<Longrightarrow>
   prefix_loop a b n i = rbind (commonPrefixLength (drop i a) (drop i b)) (\<lambda>k. Inr (i + k))"
proof (induction a b n i rule: prefix_loop.induct)
  case (1 a b n i)
  show ?case
  proof (cases "i < n")
    case True
    with "1.prems" have d: "drop i a = a ! i # drop (Suc i) a" "drop i b = b ! i # drop (Suc i) b"
      by (simp_all add: Cons_nth_drop_Suc)
    show ?thesis
    proof (cases "signature (a ! i)")
      case sa: (Inr x)
      show ?thesis
      proof (cases "signature (b ! i)")
        case sb: (Inr y)
        have "prefix_loop a b n (Suc i) = rbind (commonPrefixLength (drop (Suc i) a) (drop (Suc i) b)) (\<lambda>k. Inr (Suc i + k))"
          if "x = y" using "1.IH" [of x y] True sa sb that "1.prems" by (simp add: desktop_signature_eq)
        then show ?thesis using True sa sb unfolding d by (subst prefix_loop.simps)
          (cases "commonPrefixLength (drop (Suc i) a) (drop (Suc i) b)", auto simp: desktop_signature_eq)
      qed (use True sa in \<open>subst prefix_loop.simps, simp add: d desktop_signature_eq\<close>)
    qed (use True in \<open>subst prefix_loop.simps, simp add: d desktop_signature_eq\<close>)
  next
    case False
    with "1.prems" have "drop i a = [] \<or> drop i b = []" by auto
    with False "1.prems" show ?thesis
      by (subst prefix_loop.simps) (cases "drop i a"; cases "drop i b"; simp)
  qed
qed

lemma desktop_commonPrefixLength_eq [port_simps]: "desktop_commonPrefixLength a b = commonPrefixLength a b"
  by (simp add: desktop_commonPrefixLength_def Let_def prefix_loop_drop [OF refl, where a = a and b = b and i = 0] rbind_Inr_right
    del: prefix_loop.simps)

lemma desktop_extractTools_eq [port_simps]: "desktop_extractTools v = extractTools v"
  by (cases "opt_prop v (js ''tools'')" rule: as_array.cases) (simp_all add: desktop_extractTools_def extractTools_def Let_def)

lemma notSystem_eq [port_simps]: "notSystem = not_system"
  by (simp add: fun_eq_iff notSystem_def role_text_def not_system_def is_system_def rbind_def split: sum.splits)

lemma push_system_rfilter:
  "push_system acc ms = rbind (rfilter is_system ms) (\<lambda>ss. Inr (acc @ ss))"
  by (induction acc ms rule: push_system.induct)
    (auto simp: role_text_def is_system_def rbind_def split: sum.splits)

lemma push_system_eq [port_simps]: "push_system [] ms = rfilter is_system ms"
  by (simp add: push_system_rfilter rbind_Inr_right)

subsection \<open>Output\<close>

lemma desktop_flatten_part_eq: "desktop_flatten_part = flatten_part"
proof
  fix p
  show "desktop_flatten_part p = flatten_part p"
  proof (cases p)
    case (JObj kvs)
    then show ?thesis
      by (auto simp: desktop_flatten_part_def flatten_part_def split: option.splits json.splits)
  qed (simp_all add: desktop_flatten_part_def flatten_part_def)
qed

lemma desktop_flattenContent_eq [port_simps]: "desktop_flattenContent v = flattenContent v"
  by (auto simp: desktop_flattenContent_def flattenContent_def desktop_flatten_part_eq split: option.splits json.splits)

text \<open>A tool call under assembly is the object of the accumulator of the original, and the fields that are assigned
  are its components.\<close>

lemma blank_call_acc: "blank_call = acc_json new_acc"
  by (simp add: blank_call_def acc_json_def new_acc_def)

lemma acc_json_fields:
  "opt_prop (Some (acc_json a)) (js ''function'') =
     Some (JObj [(js ''name'', JStr (ta_name a)), (js ''arguments'', JStr (ta_arguments a))])"
  "set_field (acc_json a) (js ''id'') (JStr s) = acc_json (a\<lparr>ta_id := s\<rparr>)"
  "set_field (acc_json a) (js ''function'') (JObj [(js ''name'', JStr n), (js ''arguments'', JStr r)]) =
     acc_json (a\<lparr>ta_name := n, ta_arguments := r\<rparr>)"
  by (simp_all add: acc_json_def set_field_def obj_set_def)

lemma append_field_parts:
  "append_field (JObj [(js ''name'', JStr n), (js ''arguments'', JStr r)]) (js ''name'') v =
     JObj [(js ''name'', JStr (case str_of v of Some s \<Rightarrow> n @ s | None \<Rightarrow> n)), (js ''arguments'', JStr r)]"
  "append_field (JObj [(js ''name'', JStr n), (js ''arguments'', JStr r)]) (js ''arguments'') v =
     JObj [(js ''name'', JStr n), (js ''arguments'', JStr (case str_of v of Some s \<Rightarrow> r @ s | None \<Rightarrow> r))]"
  by (simp_all add: append_field_def set_field_def obj_set_def val_String_def split: option.splits json.splits)

abbreviation call_objects :: "tool_map \<Rightarrow> (jsnum \<times> json) list" where
  "call_objects m \<equiv> map (\<lambda>(k, a). (k, acc_json a)) m"

lemma map_set_objects: "map_set k (acc_json a) (call_objects m) = call_objects (map_set k a m)"
  by (induction k a m rule: map_set.induct) auto

lemma add_call_objects:
  "add_call (call_objects m) tc = rbind (merge_tool_call m tc) (\<lambda>m'. Inr (call_objects m'))"
proof -
  define idx where "idx v = (case v of Some (JNum n) \<Rightarrow> n | _ \<Rightarrow> Fin 0)" for v :: jsval
  have idx: "(case num_of v of Some n \<Rightarrow> n | None \<Rightarrow> Fin 0) = idx v" for v
    by (auto simp: idx_def split: option.splits json.splits)
  have found: "(case map_of (call_objects m) k of Some c \<Rightarrow> c | None \<Rightarrow> blank_call) =
      acc_json (case map_of m k of Some a \<Rightarrow> a | None \<Rightarrow> new_acc)" for k
    by (simp add: map_of_map blank_call_acc split: option.splits)
  have withId: "(case v of Some (JStr s) \<Rightarrow> if s \<noteq> [] then set_field (acc_json a) (js ''id'') (JStr s) else acc_json a
        | _ \<Rightarrow> acc_json a) =
      acc_json (a\<lparr>ta_id := (case str_of v of Some s \<Rightarrow> if s \<noteq> [] then s else ta_id a | None \<Rightarrow> ta_id a)\<rparr>)" for v a
    by (simp add: acc_json_fields split: option.splits json.splits)
  show ?thesis
    unfolding add_call_def merge_tool_call_def idx [symmetric] idx_def [symmetric]
    by (cases "get_prop (Some tc) (js ''index'')")
      (simp_all add: Let_def idx found withId acc_json_fields append_field_parts map_set_objects [symmetric]
        split: option.splits,
       simp_all add: acc_json_def)
qed

lemma add_calls_objects:
  "add_calls (call_objects m) tcs = rbind (merge_tool_calls m tcs) (\<lambda>m'. Inr (call_objects m'))"
  by (induction tcs arbitrary: m) (auto simp: add_call_objects rbind_def split: sum.splits)

abbreviation sse_objects :: "sse_state \<Rightarrow> desktop_sse" where
  "sse_objects st \<equiv> \<lparr>ds_content = ss_content st, ds_calls = call_objects (ss_tools st), ds_sawAny = ss_sawAny st\<rparr>"

lemma desktop_sse_line_step:
  "desktop_sse_lines (sse_objects st) (l # ls) = rbind (sse_line st l) (\<lambda>st'. desktop_sse_lines (sse_objects st') ls)"
proof (cases "sse_payload l")
  case None
  then show ?thesis by (auto simp: sse_line_def sse_payload_def Let_def split: if_splits)
next
  case (Some chunk)
  let ?trimmed = "js_trimStart l"
  from Some have p: "js_startsWith ?trimmed (js ''data:'')" "js_trim (drop 5 ?trimmed) \<noteq> js ''[DONE]''"
    "js_trim (drop 5 ?trimmed) \<noteq> []" "json_parse (js_trim (drop 5 ?trimmed)) = Some chunk"
    by (simp_all add: sse_payload_def Let_def split: if_splits)
  show ?thesis
  proof (cases "get_prop (Some chunk) (js ''choices'')")
    case (Inr cs)
    define delta where "delta = opt_prop (head_of (as_array cs)) (js ''delta'')"
    define st2 where "st2 = (case str_of (opt_prop delta (js ''content'')) of
       Some s \<Rightarrow> st\<lparr>ss_sawAny := True, ss_content := ss_content (st\<lparr>ss_sawAny := True\<rparr>) @ s\<rparr> | None \<Rightarrow> st\<lparr>ss_sawAny := True\<rparr>)"
    let ?st1 = "\<lparr>ds_content = ss_content st, ds_calls = call_objects (ss_tools st), ds_sawAny = True\<rparr>"
    have st2: "(case opt_prop delta (js ''content'') of Some (JStr s) \<Rightarrow> ?st1\<lparr>ds_content := ds_content ?st1 @ s\<rparr> | _ \<Rightarrow> ?st1) =
        sse_objects st2"
      by (simp add: st2_def split: option.splits json.splits)
    have line: "sse_line st l = (if \<not> truthy delta then Inr (st\<lparr>ss_sawAny := True\<rparr>)
       else rbind (merge_tool_calls (ss_tools st2) (as_array (opt_prop delta (js ''tool_calls'')))) (\<lambda>m. Inr (st2\<lparr>ss_tools := m\<rparr>)))"
      by (simp add: sse_line_def Some sse_chunk_def Inr Let_def delta_def st2_def)
    have "desktop_sse_lines (sse_objects st) (l # ls) = (if \<not> truthy delta then desktop_sse_lines (sse_objects (st\<lparr>ss_sawAny := True\<rparr>)) ls
       else rbind (add_calls (call_objects (ss_tools st2)) (as_array (opt_prop delta (js ''tool_calls'')))) (\<lambda>calls.
         desktop_sse_lines ((sse_objects st2)\<lparr>ds_calls := calls\<rparr>) ls))"
      using p Inr by (simp add: Let_def delta_def [unfolded head_of_def, symmetric] st2)
    then show ?thesis unfolding line by (simp add: add_calls_objects)
      (cases "merge_tool_calls (ss_tools st2) (as_array (opt_prop delta (js ''tool_calls'')))"; simp)
  qed (use p in \<open>simp add: sse_line_def Some sse_chunk_def\<close>)
qed

lemma desktop_sse_lines_objects:
  "desktop_sse_lines (sse_objects st) ls = rbind (sse_lines st ls) (\<lambda>st'. Inr (sse_objects st'))"
proof (induction ls arbitrary: st)
  case (Cons l ls)
  show ?case unfolding desktop_sse_line_step using Cons.IH by (cases "sse_line st l") simp_all
qed simp

lemma sort_entries_objects: "sort_entries (call_objects m) = call_objects (sort_tools m)"
proof -
  have "insert_entry (k, acc_json a) (call_objects xs) = call_objects (insert_tool (k, a) xs)" for k a xs
    by (induction xs) auto
  then show ?thesis by (induction m) (auto simp: sort_entries_def sort_tools_def)
qed

lemma desktop_reassembleSSE_eq [port_simps]: "desktop_reassembleSSE s = reassembleSSE s"
proof -
  have "desktop_sse_lines \<lparr>ds_content = [], ds_calls = [], ds_sawAny = False\<rparr> ls =
      rbind (sse_lines sse_start ls) (\<lambda>st. Inr (sse_objects st))" for ls
    using desktop_sse_lines_objects [of sse_start ls] by (simp add: sse_start_def)
  then show ?thesis
    by (simp add: desktop_reassembleSSE_def reassembleSSE_def)
      (auto simp: rbind_def sort_entries_objects split: sum.splits)
qed

lemma desktop_parseOutput_eq [port_simps]: "desktop_parseOutput v = parseOutput v"
proof (cases "is_nullish v \<or> v = Some (JStr [])")
  case True
  then show ?thesis by (auto simp: desktop_parseOutput_def parseOutput_def)
next
  case False
  then obtain rr where v: "v = Some rr" "rr \<noteq> JNull" "rr \<noteq> JStr []" by (cases v) (auto simp: is_nullish_Some)
  define obj where "obj = parsed_body rr"
  have obj: "(if is_object v then v else case rr of JStr s \<Rightarrow> json_parse s | _ \<Rightarrow> None) = obj"
    using v by (cases rr) (simp_all add: obj_def parsed_body_def)
  define raw where "raw = (case rr of JStr s \<Rightarrow> s | _ \<Rightarrow> stringify rr)"
  have stream: "(Inr (Some (desktop_stream_output rr raw)) :: OutputItem option res) = (case rr of
      JStr s \<Rightarrow> (case reassembleSSE s of
          Inr (Some r) \<Rightarrow> Inr (Some \<lparr>oi_text = sr_content r,
             oi_toolCalls = (if sr_toolCalls r \<noteq> [] then Some (sr_toolCalls r) else None), oi_raw = raw\<rparr>)
        | _ \<Rightarrow> Inr (Some \<lparr>oi_text = raw, oi_toolCalls = None, oi_raw = raw\<rparr>))
    | _ \<Rightarrow> Inr (Some \<lparr>oi_text = raw, oi_toolCalls = None, oi_raw = raw\<rparr>))"
    by (simp add: desktop_stream_output_def desktop_reassembleSSE_eq Let_def split: json.splits sum.splits option.splits)
  let ?choices = "as_array (opt_prop obj (js ''choices''))"
  have msg: "body_message obj = (if truthy obj \<and> is_array (opt_prop obj (js ''choices'')) \<and> length ?choices > 0
      then opt_prop (Some (?choices ! 0)) (js ''message'') else None)"
    by (cases "opt_prop obj (js ''choices'')" rule: as_array.cases) (auto simp: body_message_def Let_def hd_conv_nth)
  have "parseOutput v = (if truthy (body_message obj) then
        rbind (flattenContent (opt_prop (body_message obj) (js ''content''))) (\<lambda>txt.
          let tcs = opt_prop (body_message obj) (js ''tool_calls'') in
          Inr (Some \<lparr>oi_text = txt, oi_toolCalls = (if is_array tcs then Some (as_array tcs) else None), oi_raw = raw\<rparr>))
      else Inr (Some (desktop_stream_output rr raw)))"
    using v unfolding stream by (cases rr) (simp_all add: parseOutput_def obj_def raw_def Let_def split: sum.splits option.splits)
  moreover have "desktop_parseOutput v = \<dots>"
    unfolding desktop_parseOutput_def Let_def v(1) option.sel obj [unfolded v(1)] raw_def [symmetric] desktop_flattenContent_eq msg
    using v(2,3) by (cases "truthy obj \<and> is_array (opt_prop obj (js ''choices'')) \<and> length ?choices > 0")
      (simp_all only: is_nullish_Some if_True if_False simp_thms truthy.simps)
  ultimately show ?thesis by simp
qed

lemma desktop_analyze_eq [port_simps]: "desktop_analyze cur prev = analyze cur prev"
  by (simp add: desktop_analyze_def analyze_def messagesOf_def port_simps Let_def)

subsection \<open>Blocks\<close>

lemma text_case:
  "(case v of Some (JStr s) \<Rightarrow> if c then f s else x | _ \<Rightarrow> x) = (if c \<and> str_of v \<noteq> None then f (the (str_of v)) else x)"
  by (cases v rule: str_of.cases) simp_all

lemma push_parts_rmap: "push_parts acc ps = rbind (rmap part_block ps) (\<lambda>bs. Inr (acc @ bs))"
proof (induction ps arbitrary: acc)
  case (Cons p ps)
  show ?case
  proof (cases "get_prop (Some p) (js ''type'')")
    case (Inr ty)
    then obtain b where b: "part_block p = Inr b" 
      by (cases "part_block p") (auto simp: part_block_def Let_def split: if_splits)
    with Inr have "push_parts acc (p # ps) = push_parts (acc @ [b]) ps"
      by (auto simp: part_block_def Let_def text_case split: if_splits)
    with b show ?thesis using Cons.IH by (cases "rmap part_block ps") simp_all
  qed (simp add: part_block_def)
qed simp

lemma desktop_fn_eq: "function_of tc = rbind (desktop_fn tc) (\<lambda>fn. Inr (Some fn))"
  by (simp add: function_of_def desktop_fn_def rbind_def split: sum.splits)

lemma push_tools_rmap: "push_tools acc tcs = rbind (rmap tool_block tcs) (\<lambda>bs. Inr (acc @ bs))"
  by (induction acc tcs rule: push_tools.induct)
    (auto simp: tool_block_def desktop_fn_eq rbind_def split: sum.splits)

lemma desktop_blocksOf_eq [port_simps]: "desktop_blocksOf msg = blocksOf msg"
proof -
  have tool: "(\<exists>s. v = Some (JStr s) \<and> s \<noteq> []) \<longleftrightarrow> str_of v \<noteq> None \<and> str_of v \<noteq> Some []" for v
    by (cases v rule: str_of.cases) auto
  have content: "(if is_array v then push_parts [] (as_array v)
       else case v of Some (JStr s) \<Rightarrow> Inr (if s \<noteq> [] then [TextBlock s] else [])
         | v' \<Rightarrow> Inr (if is_nullish v' then [] else [UnknownBlock (the v')])) = content_blocks v" for v
    by (simp add: content_blocks_def push_parts_rmap rbind_Inr_right split: option.splits json.splits)
  show ?thesis
    by (simp add: desktop_blocksOf_def blocksOf_def role_text_def Let_def content tool push_tools_rmap)
      (simp add: rbind_def split: sum.splits)
qed

lemma desktop_BlockChip_eq [port_simps]: "desktop_BlockChip = BlockChip"
proof
  fix b
  show "desktop_BlockChip b = BlockChip b"
    by (cases b) (simp_all add: desktop_BlockChip_def BlockChip_def desktop_blockChipStyle_def desktop_blockChipDetail_def
      desktop_countLines_def countLines_def desktop_shortenId_def shortenId_def)
qed

lemma hash_loop_foldl: "hash_loop h s = foldl (\<lambda>a c. (a * 31 + unat c) mod 2 ^ 32) h s"
  by (induction h s rule: hash_loop.induct) simp_all

lemma desktop_toolLabelColor_eq [port_simps]: "desktop_toolLabelColor name = toolLabelColor name"
  using name_hash_foldl [of 0 name]
  by (simp add: desktop_toolLabelColor_def toolLabelColor_def desktop_palette_def palette_def hash_loop_foldl name_hash_def)

subsection \<open>Nodes\<close>

lemma desktop_ToolCallChip_eq: "desktop_ToolCallChip = ToolCallChip"
  by (simp add: fun_eq_iff desktop_ToolCallChip_def ToolCallChip_def desktop_fn_eq port_simps rbind_def split: sum.splits)

lemma desktop_argsPretty_eq: "desktop_argsPretty fn = args_pretty (Some fn)"
  by (simp add: desktop_argsPretty_def args_pretty_def Let_def split: option.splits json.splits)

lemma desktop_call_id: "(case v of Some (JStr s) \<Rightarrow> s | _ \<Rightarrow> []) = (case str_of v of Some s \<Rightarrow> s | None \<Rightarrow> [])"
  by (simp split: option.splits json.splits)

lemma desktop_ToolCallRaw_eq: "desktop_ToolCallRaw = ToolCallRaw"
  by (simp add: fun_eq_iff desktop_ToolCallRaw_def desktop_call_view_def ToolCallRaw_def desktop_fn_eq desktop_argsPretty_eq
    desktop_call_id rbind_def split: sum.splits)

lemma desktop_OutputNode_eq [port_simps]: "desktop_OutputNode isOpen item = OutputNode isOpen item desktop_t"
  by (simp add: desktop_OutputNode_def OutputNode_def desktop_ToolCallChip_eq desktop_ToolCallRaw_eq port_simps Let_def
    split: option.splits)

lemma desktop_ToolLabel_eq [port_simps]: "desktop_ToolLabel isOpen tool = ToolLabel isOpen tool desktop_t"
proof -
  have "\<not> is_nullish v \<and> is_object v \<longleftrightarrow> is_object v" for v by (cases v rule: is_object.cases) auto
  then show ?thesis
    by (simp add: desktop_ToolLabel_def ToolLabel_def desktop_fn_eq desktop_call_id port_simps Let_def rbind_def split: sum.splits)
qed

lemma desktop_rows_eq: "desktop_rows k ms = message_nodes k ms"
  by (rule nth_equalityI) (simp_all add: desktop_rows_def message_nodes_def)

lemma desktop_TraceCategories_eq [port_simps]: "desktop_TraceCategories cur prev = TraceCategories cur prev desktop_t"
proof (cases "analyze cur prev")
  case (Inr an)
  have rows: "(if length xs > 0 then [e] else []) = when_el (xs \<noteq> []) e" "(if n > 0 then [e] else []) = when_el (n > 0) e"
    for xs :: "json list" and e and n :: nat by (simp_all add: when_el_def)
  have shown: "(if out \<noteq> None then 1 else 0 :: nat) = (case out of None \<Rightarrow> 0 | Some item \<Rightarrow> 1)" for out :: "OutputItem option"
    by (cases out) simp_all
  show ?thesis
    unfolding desktop_TraceCategories_def TraceCategories_def desktop_rows_eq desktop_analyze_eq Inr rbind_simps Let_def rows shown
    by (simp only: length_0_conv length_greater_0_conv concat.simps append_Nil2 append_assoc if_distrib [of Inr])
qed (simp add: desktop_TraceCategories_def TraceCategories_def desktop_analyze_eq)

lemma desktop_sectionColor_eq [port_simps]: "desktop_sectionColor label = sectionColor label"
  by (simp add: desktop_sectionColor_def sectionColor_def)

lemma desktop_labelTitle_eq [port_simps]: "desktop_labelTitle label = labelTitle label desktop_t"
  by (simp add: desktop_labelTitle_def labelTitle_def)

text \<open>What the port does with a message row of the original: a badge in place of the coloured role, with a text of its
  own for a message without a role, and the non-empty text blocks of an assistant as Markdown.\<close>

definition ported_raw :: "jsstr \<Rightarrow> block \<Rightarrow> raw_view \<Rightarrow> desktop_raw" where
  "ported_raw role b v =
     (case b of TextBlock s \<Rightarrow> if role = js ''assistant'' \<and> s \<noteq> [] then Markdown s else PlainRaw v | _ \<Rightarrow> PlainRaw v)"

definition ported :: "block list \<Rightarrow> message_view \<Rightarrow> desktop_message" where
  "ported bs v =
     (let role = (case mv_role v of Some (r, cls) \<Rightarrow> r | None \<Rightarrow> []) in
      \<lparr>dm_number = mv_number v, dm_badge = (if role = [] then js ''unknown'' else role, roleBadgeColor role),
       dm_chips = mv_chips v, dm_raw = map2 (ported_raw role) bs (mv_raw v)\<rparr>)"

lemma desktop_BlockRaw_eq:
  "desktop_BlockRaw b (Some role) = rbind (BlockRaw b desktop_t) (\<lambda>v. Inr (ported_raw role b v))"
proof (cases b)
  case (ToolUse n tc)
  then show ?thesis
    by (cases "desktop_fn tc") (simp_all add: desktop_BlockRaw_def BlockRaw_def ported_raw_def desktop_call_view_def desktop_fn_eq
      desktop_argsPretty_eq desktop_call_id)
qed (simp_all add: desktop_BlockRaw_def BlockRaw_def ported_raw_def Let_def)

lemma desktop_BlockRaws_eq:
  "rmap (\<lambda>b. desktop_BlockRaw b (Some role)) bs =
   rbind (rmap (\<lambda>b. BlockRaw b desktop_t) bs) (\<lambda>vs. Inr (map2 (ported_raw role) bs vs))"
  by (induction bs) (auto simp: desktop_BlockRaw_eq rbind_def split: sum.splits)

lemma desktop_MessageNode_eq:
  "desktop_MessageNode isOpen i m =
   rbind (blocksOf m) (\<lambda>bs. rbind (MessageNode isOpen i m desktop_t) (\<lambda>v. Inr (ported bs v)))"
proof (cases "blocksOf m")
  case (Inr bs)
  show ?thesis
  proof (cases "get_prop (Some m) (js ''role'')")
    case role: (Inr r)
    show ?thesis
      by (cases isOpen; cases "rmap (\<lambda>b. BlockRaw b desktop_t) bs")
        (simp_all add: desktop_MessageNode_def MessageNode_def desktop_blocksOf_eq desktop_BlockChip_eq role_text_def Inr role
          desktop_BlockRaws_eq ported_def Let_def)
  qed (simp add: desktop_MessageNode_def MessageNode_def desktop_blocksOf_eq role_text_def Inr)
qed (simp add: desktop_MessageNode_def desktop_blocksOf_eq)

lemma desktop_Section_eq:
  "desktop_Section isOpen label count hint children =
   \<lparr>hv_color = sectionColor label, hv_title = fst (Section_title label count desktop_t),
    hv_count = snd (Section_title label count desktop_t), hv_body = Section_body isOpen count hint children\<rparr>"
  by (auto simp: desktop_Section_def Section_title_def Section_body_def port_simps split: option.splits)

lemma desktop_Group_eq:
  "desktop_Group isOpen label count children =
   \<lparr>hv_color = [], hv_title = fst (Group_title label count desktop_t),
    hv_count = snd (Group_title label count desktop_t), hv_body = Group_body isOpen children\<rparr>"
  by (simp add: desktop_Group_def Group_title_def Group_body_def)

subsection \<open>The loop over the candidates\<close>

text \<open>The loop returns the first candidate whose prefix is the longest, if that beats the one it
  started with.\<close>

definition first_best :: "'a option \<Rightarrow> nat \<Rightarrow> 'a list \<Rightarrow> nat list \<Rightarrow> 'a option \<Rightarrow> bool" where
  "first_best best n cs ls r \<longleftrightarrow> r = best \<and> (\<forall>l\<in>set ls. l \<le> n) \<or>
     (\<exists>i<length cs. r = Some (cs ! i) \<and> n < ls ! i \<and> (\<forall>l\<in>set ls. l \<le> ls ! i) \<and> (\<forall>j<i. ls ! j < ls ! i))"

lemma first_best_Cons:
  assumes "first_best (if n < l then Some c else best) (max n l) cs ls r"
  shows "first_best best n (c # cs) (l # ls) r"
  using assms unfolding first_best_def
proof (elim disjE exE conjE)
  assume "r = (if n < l then Some c else best)" "\<forall>x\<in>set ls. x \<le> max n l"
  then show "r = best \<and> (\<forall>x\<in>set (l # ls). x \<le> n) \<or> (\<exists>i<length (c # cs). r = Some ((c # cs) ! i) \<and> n < (l # ls) ! i \<and>
     (\<forall>x\<in>set (l # ls). x \<le> (l # ls) ! i) \<and> (\<forall>j<i. (l # ls) ! j < (l # ls) ! i))"
    by (cases "n < l") (auto intro!: exI [of _ 0])
next
  fix i assume "i < length cs" "r = Some (cs ! i)" "max n l < ls ! i" "\<forall>x\<in>set ls. x \<le> ls ! i" "\<forall>j<i. ls ! j < ls ! i"
  then show "r = best \<and> (\<forall>x\<in>set (l # ls). x \<le> n) \<or> (\<exists>i<length (c # cs). r = Some ((c # cs) ! i) \<and> n < (l # ls) ! i \<and>
     (\<forall>x\<in>set (l # ls). x \<le> (l # ls) ! i) \<and> (\<forall>j<i. (l # ls) ! j < (l # ls) ! i))"
    by (intro disjI2 exI [of _ "Suc i"]) (auto simp: nth_Cons split: nat.splits)
qed

lemma pick_loop_first_best:
  "pick_loop ms best n cs = Inr r \<Longrightarrow>
   \<exists>ls. list_all2 (\<lambda>c l. commonPrefixLength ms (messagesOf (Some c)) = Inr l) cs ls \<and> first_best best n cs ls r"
proof (induction ms best n cs rule: pick_loop.induct)
  case (2 ms best n c cs)
  from "2.prems" obtain l where l: "commonPrefixLength ms (messagesOf (Some c)) = Inr l"
    by (auto simp: rbind_Inr_conv port_simps)
  have "\<exists>ls. list_all2 (\<lambda>c l. commonPrefixLength ms (messagesOf (Some c)) = Inr l) cs ls \<and>
      first_best (if n < l then Some c else best) (max n l) cs ls r"
    using "2.IH" [unfolded port_simps, OF l] "2.prems" l by (cases "n < l") (auto simp: max_def port_simps)
  then obtain ls where "list_all2 (\<lambda>c l. commonPrefixLength ms (messagesOf (Some c)) = Inr l) cs ls"
    "first_best best n (c # cs) (l # ls) r" by (blast intro: first_best_Cons)
  with l show ?case by (intro exI [of _ "l # ls"]) simp
qed (auto simp: first_best_def)

lemma pick_loop_Inr:
  assumes "pick_loop ms best n cs = Inr r"
  obtains ls where "list_all2 (\<lambda>c l. commonPrefixLength ms (messagesOf (Some c)) = Inr l) cs ls"
    "r = best \<and> (\<forall>l\<in>set ls. l \<le> n) \<or>
     (\<exists>i<length cs. r = Some (cs ! i) \<and> n < ls ! i \<and> (\<forall>l\<in>set ls. l \<le> ls ! i) \<and> (\<forall>j<i. ls ! j < ls ! i))"
  using pick_loop_first_best [OF assms] unfolding first_best_def by blast

section \<open>Properties\<close>

text \<open>C17: where the port agrees with the original and where it does not. On every pair of requests the desktop
  analysis returns what the analysis of the Control Panel returns, failures included, and so do the tree of sections, groups
  and rows, the headings and bodies of sections and groups, the tool labels and the output row, with the labels of
  the desktop. A message row differs in two places only: its role is a badge, \<open>unknown\<close> for a message without a role,
  and the non-empty text blocks of an assistant message are rendered as Markdown.\<close>

theorem desktop_trace_agrees:
  "desktop_analyze cur prev = analyze cur prev \<and>
   desktop_TraceCategories cur prev = TraceCategories cur prev desktop_t \<and>
   desktop_Section isOpen label count hint children =
     \<lparr>hv_color = sectionColor label, hv_title = fst (Section_title label count desktop_t),
      hv_count = snd (Section_title label count desktop_t), hv_body = Section_body isOpen count hint children\<rparr> \<and>
   desktop_Group isOpen label count children =
     \<lparr>hv_color = [], hv_title = fst (Group_title label count desktop_t),
      hv_count = snd (Group_title label count desktop_t), hv_body = Group_body isOpen children\<rparr> \<and>
   desktop_ToolLabel isOpen tool = ToolLabel isOpen tool desktop_t \<and>
   desktop_OutputNode isOpen item = OutputNode isOpen item desktop_t \<and>
   desktop_MessageNode isOpen i m =
     rbind (blocksOf m) (\<lambda>bs. rbind (MessageNode isOpen i m desktop_t) (\<lambda>v. Inr (ported bs v)))"
  by (intro conjI desktop_analyze_eq desktop_TraceCategories_eq desktop_Section_eq desktop_Group_eq desktop_ToolLabel_eq
    desktop_OutputNode_eq desktop_MessageNode_eq)

text \<open>The baseline is the candidate that shares the longest prefix with the request, the first of them
  in the given order on a tie; there is none exactly when every candidate shares nothing.\<close>

theorem pickBaseline_best:
  assumes "pickBaseline cur cs = Inr r" and "messagesOf (Some cur) \<noteq> []"
  shows "\<exists>ls. list_all2 (\<lambda>c l. commonPrefixLength (messagesOf (Some cur)) (messagesOf (Some c)) = Inr l) cs ls \<and>
    (r = None \<and> (\<forall>l\<in>set ls. l = 0) \<or>
     (\<exists>i<length cs. r = Some (cs ! i) \<and> 0 < ls ! i \<and> (\<forall>l\<in>set ls. l \<le> ls ! i) \<and> (\<forall>j<i. ls ! j < ls ! i)))"
proof -
  from assms have "pick_loop (messagesOf (Some cur)) None 0 cs = Inr r"
    by (simp add: pickBaseline_def Let_def)
  then show ?thesis by (rule pick_loop_Inr) auto
qed

theorem pickBaseline_best_witness:
  "\<exists>ls. list_all2 (\<lambda>c l. commonPrefixLength (messagesOf (Some sample_detail)) (messagesOf (Some c)) = Inr l)
      [sample_detail] ls \<and> 0 < ls ! 0"
proof -
  have pre: "commonPrefixLength (messagesOf (Some sample_detail)) (messagesOf (Some sample_detail)) = Inr 2"
    by (simp add: messagesOf_def sample_detail_def signature_def)
  then have "pickBaseline sample_detail [sample_detail] = Inr (Some sample_detail)"
    by (simp add: pickBaseline_def Let_def port_simps) (simp add: messagesOf_def sample_detail_def)
  moreover have "messagesOf (Some sample_detail) \<noteq> []" by (simp add: messagesOf_def sample_detail_def)
  ultimately show ?thesis using pickBaseline_best [of sample_detail "[sample_detail]"] by fastforce
qed

end
