(* ===== verification/Desktop_Api.thy ===== *)
theory Desktop_Api
  imports Js_Uri
begin

text \<open>
  The HTTP client of the desktop application (\<^verbatim>\<open>desktop-ui/src/lib/api.ts\<close>): the two
  helpers every call goes through, the calls themselves, and the actions that
  report their outcome as a toast (\<^verbatim>\<open>app-actions.ts\<close>).

  The gateway behind \<^verbatim>\<open>fetch\<close> is a parameter: a function of the whole history of
  requests, so it may keep any state. A request is kept structured (path, query
  parameters, body text).
\<close>

section \<open>Requests\<close>

datatype dmethod = D_GET | D_POST | D_PUT | D_DELETE

record dreq =
  dr_method :: dmethod
  dr_path :: jsstr
  dr_params :: "(jsstr \<times> jsstr) list"
  dr_body :: "jsstr option"

record dresp =
  dp_status :: nat
  dp_text :: jsstr

datatype dfetch = DThrow jserror | DResp dresp

text \<open>\<open>gw_message\<close> is the text the engine gives to an error it raises itself.\<close>

record gateway =
  gw_fetch :: "dreq list \<Rightarrow> dfetch"
  gw_message :: "jserror \<Rightarrow> jsstr"

datatype toast = ToastSuccess (toast_text: jsstr) | ToastWarning (toast_text: jsstr) | ToastError (toast_text: jsstr)

record desk =
  dk_sent :: "dreq list"
  dk_toasts :: "toast list"

type_synonym 'a dact = "gateway \<Rightarrow> desk \<Rightarrow> 'a res \<times> desk"

definition dbind :: "'a dact \<Rightarrow> ('a \<Rightarrow> 'b dact) \<Rightarrow> 'b dact" where
  "dbind m f = (\<lambda>g d. case m g d of (Inl e, d') \<Rightarrow> (Inl e, d') | (Inr x, d') \<Rightarrow> f x g d')"

definition dlift :: "'a res \<Rightarrow> 'a dact" where
  "dlift r = (\<lambda>g d. (r, d))"

definition dfetch_call :: "dreq \<Rightarrow> dresp dact" where
  "dfetch_call q = (\<lambda>g d. let sent = dk_sent d @ [q] in
     case gw_fetch g sent of
       DThrow e \<Rightarrow> (Inl e, d\<lparr>dk_sent := sent\<rparr>)
     | DResp r \<Rightarrow> (Inr r, d\<lparr>dk_sent := sent\<rparr>))"

lemma dbind_apply: "dbind m f g d = (case m g d of (Inl e, d') \<Rightarrow> (Inl e, d') | (Inr x, d') \<Rightarrow> f x g d')"
  by (simp add: dbind_def)

lemma dlift_apply [simp]: "dlift r g d = (r, d)"
  by (simp add: dlift_def)

definition BASE :: jsstr where
  "BASE = js ''/api/v1''"

definition resp_ok :: "dresp \<Rightarrow> bool" where
  "resp_ok r \<longleftrightarrow> 200 \<le> dp_status r \<and> dp_status r < 300"

definition staleBackendError :: jserror where
  "staleBackendError = PlainError
     [0x63A5, 0x53E3, 0x4E0D, 0x5B58, 0x5728, 0x20, 0x28, 0x34, 0x30, 0x34, 0x29,
      0xFF1A, 0x7F51, 0x5173, 0x540E, 0x7AEF, 0x7248, 0x672C, 0x8FC7, 0x65E7, 0xFF0C,
      0x8BF7, 0x91CD, 0x542F, 0x6216, 0x91CD, 0x65B0, 0x6784, 0x5EFA, 0x684C, 0x9762,
      0x5E94, 0x7528]"

text \<open>The generic message with the status in parentheses.\<close>

definition failed_message :: "nat \<Rightarrow> jsstr" where
  "failed_message status = [0x8BF7, 0x6C42, 0x5931, 0x8D25, 0x20, 0x28] @ digits10 status @ js '')''"

text \<open>The query parameters that are sent: the defined and non-empty ones.\<close>

definition query_params :: "(jsstr \<times> jsval) list \<Rightarrow> (jsstr \<times> jsstr) list" where
  "query_params params =
     map (\<lambda>(k, v). (k, val_String v)) (filter (\<lambda>(k, v). v \<noteq> None \<and> v \<noteq> Some (JStr [])) params)"

definition parse_body :: "dresp \<Rightarrow> json res" where
  "parse_body r = (case json_parse (dp_text r) of None \<Rightarrow> Inl SyntaxError | Some v \<Rightarrow> Inr v)"

text \<open>What a refused GET throws.\<close>

definition get_failure :: "dresp \<Rightarrow> jserror" where
  "get_failure r =
     (let apiError = (case json_parse (dp_text r) of None \<Rightarrow> None | Some body \<Rightarrow> opt_prop (Some body) (js ''error''))
      in if truthy apiError then PlainError (val_String apiError)
         else if dp_status r = 404 then staleBackendError
         else PlainError (failed_message (dp_status r)))"

definition getJSON :: "jsstr \<Rightarrow> (jsstr \<times> jsval) list \<Rightarrow> json dact" where
  "getJSON path params =
     dbind (dfetch_call \<lparr>dr_method = D_GET, dr_path = BASE @ path, dr_params = query_params params, dr_body = None\<rparr>)
       (\<lambda>r. dlift (if \<not> resp_ok r then Inl (get_failure r) else parse_body r))"

text \<open>What a refused write throws: here an empty message is kept, unless the status is 404.\<close>

definition send_failure :: "dresp \<Rightarrow> jserror" where
  "send_failure r =
     (let parsed = (if dp_text r = [] then None else json_parse (dp_text r));
          errMsg = opt_prop parsed (js ''error'')
      in if dp_status r = 404 \<and> \<not> truthy errMsg then staleBackendError
         else PlainError (json_String (coalesce errMsg (JStr (failed_message (dp_status r))))))"

text \<open>The value is \<^verbatim>\<open>null\<close> when the body is empty or not JSON.\<close>

definition sendJSON :: "dmethod \<Rightarrow> jsstr \<Rightarrow> jsval \<Rightarrow> json dact" where
  "sendJSON m path body =
     dbind (dfetch_call \<lparr>dr_method = m, dr_path = BASE @ path, dr_params = [],
                         dr_body = map_option stringify body\<rparr>)
       (\<lambda>r. dlift (
          if \<not> resp_ok r then Inl (send_failure r)
          else Inr (if dp_text r = [] then JNull
                    else case json_parse (dp_text r) of None \<Rightarrow> JNull | Some v \<Rightarrow> v)))"

section \<open>Path segments\<close>

text \<open>A call whose path ends in an encoded segment.\<close>

definition with_segment :: "jsstr \<Rightarrow> jsstr \<Rightarrow> (jsstr \<Rightarrow> json dact) \<Rightarrow> json dact" where
  "with_segment dir seg k = dbind (dlift (encodeURIComponent seg)) (\<lambda>s. k (dir @ s))"

section \<open>Calls\<close>

definition getOverview :: "jsstr option \<Rightarrow> jsstr option \<Rightarrow> json dact" where
  "getOverview from to =
     getJSON (js ''/overview'') [(js ''from'', map_option JStr from), (js ''to'', map_option JStr to)]"

definition listSessions :: "(jsstr \<times> jsval) list \<Rightarrow> json dact" where
  "listSessions opts = getJSON (js ''/sessions'') opts"

definition listRequestLogs :: "(jsstr \<times> jsval) list \<Rightarrow> json dact" where
  "listRequestLogs opts = getJSON (js ''/request-logs'') opts"

text \<open>A default argument stands for a missing one.\<close>

definition listTraceBySession :: "jsstr \<Rightarrow> jsnum option \<Rightarrow> json dact" where
  "listTraceBySession sessionId limit =
     with_segment (js ''/trace/sessions/'') sessionId (\<lambda>path.
       getJSON path [(js ''limit'', Some (JNum (case limit of None \<Rightarrow> Fin 200 | Some n \<Rightarrow> n)))])"

definition getTraceByRowID :: "jsnum \<Rightarrow> json dact" where
  "getTraceByRowID i = getJSON (js ''/trace/rows/'' @ num_repr i) []"

definition getTraceByRequestID :: "jsstr \<Rightarrow> json dact" where
  "getTraceByRequestID requestId = with_segment (js ''/trace/requests/'') requestId (\<lambda>path. getJSON path [])"

definition getLogs :: "jsnum option \<Rightarrow> json dact" where
  "getLogs n = getJSON (js ''/logs'') [(js ''tail'', Some (JNum (case n of None \<Rightarrow> Fin 500 | Some k \<Rightarrow> k)))]"

definition listProviders :: "json dact" where
  "listProviders = getJSON (js ''/providers'') []"

definition desktop_createProvider :: "json \<Rightarrow> json dact" where
  "desktop_createProvider p = sendJSON D_POST (js ''/providers'') (Some p)"

definition desktop_updateProvider :: "jsstr \<Rightarrow> json \<Rightarrow> json dact" where
  "desktop_updateProvider name p = with_segment (js ''/providers/'') name (\<lambda>path. sendJSON D_PUT path (Some p))"

definition desktop_deleteProvider :: "jsstr \<Rightarrow> json dact" where
  "desktop_deleteProvider name = with_segment (js ''/providers/'') name (\<lambda>path. sendJSON D_DELETE path None)"

definition listModels :: "json dact" where
  "listModels = getJSON (js ''/models'') []"

definition desktop_createModel :: "json \<Rightarrow> json dact" where
  "desktop_createModel m = sendJSON D_POST (js ''/models'') (Some m)"

definition desktop_updateModel :: "jsstr \<Rightarrow> json \<Rightarrow> json dact" where
  "desktop_updateModel alias m = with_segment (js ''/models/'') alias (\<lambda>path. sendJSON D_PUT path (Some m))"

definition desktop_deleteModel :: "jsstr \<Rightarrow> json dact" where
  "desktop_deleteModel alias = with_segment (js ''/models/'') alias (\<lambda>path. sendJSON D_DELETE path None)"

definition listRoutes :: "json dact" where
  "listRoutes = getJSON (js ''/routes'') []"

definition createRoute :: "json \<Rightarrow> json dact" where
  "createRoute r = sendJSON D_POST (js ''/routes'') (Some r)"

definition desktop_updateRoute :: "jsstr \<Rightarrow> json \<Rightarrow> json dact" where
  "desktop_updateRoute alias r = with_segment (js ''/routes/'') alias (\<lambda>path. sendJSON D_PUT path (Some r))"

definition desktop_deleteRoute :: "jsstr \<Rightarrow> json dact" where
  "desktop_deleteRoute alias = with_segment (js ''/routes/'') alias (\<lambda>path. sendJSON D_DELETE path None)"

definition reloadConfig :: "json dact" where
  "reloadConfig = sendJSON D_POST (js ''/config/reload'') None"

definition revealConfigFolder :: "json dact" where
  "revealConfigFolder = sendJSON D_POST (js ''/config/reveal'') None"

definition quitApp :: "json dact" where
  "quitApp = sendJSON D_POST (js ''/app/quit'') None"

definition getSettings :: "json dact" where
  "getSettings = getJSON (js ''/settings'') []"

definition desktop_updateSettings :: "json \<Rightarrow> json dact" where
  "desktop_updateSettings s = sendJSON D_PUT (js ''/settings'') (Some s)"

definition getAPIKey :: "json dact" where
  "getAPIKey = getJSON (js ''/apikey'') []"

definition rotateAPIKey :: "json dact" where
  "rotateAPIKey = sendJSON D_POST (js ''/apikey/rotate'') None"

definition playgroundChat :: "jsstr \<Rightarrow> jsstr \<Rightarrow> json dact" where
  "playgroundChat model prompt =
     sendJSON D_POST (js ''/playground/chat'')
       (Some (JObj [(js ''model'', JStr model), (js ''prompt'', JStr prompt)]))"

definition listPrompts :: "(jsstr \<times> jsval) list \<Rightarrow> json dact" where
  "listPrompts opts = getJSON (js ''/prompts'') opts"

definition createPrompt :: "json \<Rightarrow> json dact" where
  "createPrompt p = sendJSON D_POST (js ''/prompts'') (Some p)"

definition updatePrompt :: "jsnum \<Rightarrow> json \<Rightarrow> json dact" where
  "updatePrompt i p = sendJSON D_PUT (js ''/prompts/'' @ num_repr i) (Some p)"

definition deletePrompt :: "jsnum \<Rightarrow> json dact" where
  "deletePrompt i = sendJSON D_DELETE (js ''/prompts/'' @ num_repr i) None"

text \<open>The request id is put into the path as it is.\<close>

definition getDispatchSteps :: "jsstr \<Rightarrow> json dact" where
  "getDispatchSteps requestId = getJSON (js ''/dispatch-steps/'' @ requestId) []"

definition getProviderHealth :: "json dact" where
  "getProviderHealth = getJSON (js ''/provider-health'') []"

definition favoriteSession :: "jsstr \<Rightarrow> json dact" where
  "favoriteSession sessionId =
     with_segment (js ''/session-favorites/'') sessionId (\<lambda>path. sendJSON D_PUT path (Some (JObj [])))"

definition unfavoriteSession :: "jsstr \<Rightarrow> json dact" where
  "unfavoriteSession sessionId =
     with_segment (js ''/session-favorites/'') sessionId (\<lambda>path. sendJSON D_DELETE path (Some (JObj [])))"

definition deleteSession :: "jsstr \<Rightarrow> json dact" where
  "deleteSession sessionId =
     with_segment (js ''/sessions/'') sessionId (\<lambda>path. sendJSON D_DELETE path (Some (JObj [])))"

definition purgeObservation :: "jsstr option \<Rightarrow> json dact" where
  "purgeObservation before =
     sendJSON D_POST (js ''/observation/purge'')
       (Some (JObj (case before of None \<Rightarrow> [] | Some b \<Rightarrow> if b = [] then [] else [(js ''before'', JStr b)])))"

section \<open>Actions with toasts\<close>

definition show_toast :: "toast \<Rightarrow> unit dact" where
  "show_toast t = (\<lambda>g d. (Inr (), d\<lparr>dk_toasts := dk_toasts d @ [t]\<rparr>))"

fun desk_error_message :: "gateway \<Rightarrow> jserror \<Rightarrow> jsstr" where
  "desk_error_message g (PlainError m) = m"
| "desk_error_message g (RangeError m) = m"
| "desk_error_message g (AdminError st ty m) = m"
| "desk_error_message g e = gw_message g e"

definition toast_error :: "jserror \<Rightarrow> unit dact" where
  "toast_error e = (\<lambda>g d. show_toast (ToastError (desk_error_message g e)) g d)"

definition dcatch :: "unit dact \<Rightarrow> (jserror \<Rightarrow> unit dact) \<Rightarrow> unit dact" where
  "dcatch m h = (\<lambda>g d. case m g d of (Inl e, d') \<Rightarrow> h e g d' | (Inr x, d') \<Rightarrow> (Inr x, d'))"

text \<open>\<^verbatim>\<open>res.warning\<close> on a \<^verbatim>\<open>null\<close> response throws after the success toast was shown.\<close>

definition reloadConfigWithToast :: "unit dact" where
  "reloadConfigWithToast =
     dcatch
       (dbind reloadConfig (\<lambda>res.
        dbind (show_toast (ToastSuccess [0x914D, 0x7F6E, 0x5DF2, 0x91CD, 0x8F7D, 0x3002])) (\<lambda>_.
        dbind (dlift (get_prop (Some res) (js ''warning''))) (\<lambda>wn.
        if truthy wn then show_toast (ToastWarning (val_String wn)) else dlift (Inr ())))))
       toast_error"

definition revealConfigFolderWithToast :: "unit dact" where
  "revealConfigFolderWithToast =
     dcatch
       (dbind revealConfigFolder (\<lambda>_.
          show_toast (ToastSuccess
            [0x5DF2, 0x5728, 0x6587, 0x4EF6, 0x7BA1, 0x7406, 0x5668, 0x4E2D, 0x6253, 0x5F00,
             0x3002])))
       toast_error"

definition quitAppWithToast :: "unit dact" where
  "quitAppWithToast =
     dcatch (dbind quitApp (\<lambda>_. show_toast (ToastSuccess [0x6B63, 0x5728, 0x9000, 0x51FA, 0x2026])))
       toast_error"


section \<open>The contract of a call\<close>

text \<open>A call sends at most one request, below the API root, shows nothing by itself, turns a
  refused request into an error with a message, and has a value only when the gateway accepted.\<close>

locale api_call =
  fixes run :: "json dact"
  assumes one_request: "run g d = (r, d') \<Longrightarrow> dk_toasts d' = dk_toasts d \<and>
      (dk_sent d' = dk_sent d \<or> (\<exists>q. dk_sent d' = dk_sent d @ [q] \<and> prefix BASE (dr_path q)))"
    and refused: "run g d = (r, d') \<Longrightarrow> dk_sent d' = dk_sent d @ [q] \<Longrightarrow>
      gw_fetch g (dk_sent d') = DResp resp \<Longrightarrow> \<not> resp_ok resp \<Longrightarrow> \<exists>m. r = Inl (PlainError m)"
    and answered: "run g d = (Inr v, d') \<Longrightarrow>
      \<exists>q resp. dk_sent d' = dk_sent d @ [q] \<and> gw_fetch g (dk_sent d') = DResp resp \<and> resp_ok resp"
begin

lemma history_grows: "run g d = (r, d') \<Longrightarrow> prefix (dk_sent d) (dk_sent d')"
  using one_request by (metis prefixI prefix_order.refl)

end

lemma get_failure_plain: "\<exists>m. get_failure r = PlainError m"
  by (auto simp: get_failure_def staleBackendError_def Let_def)

lemma send_failure_plain: "\<exists>m. send_failure r = PlainError m"
  by (auto simp: send_failure_def staleBackendError_def Let_def)

lemma getJSON_run:
  "getJSON path params g d =
     (let d1 = d\<lparr>dk_sent := dk_sent d @ [\<lparr>dr_method = D_GET, dr_path = BASE @ path,
                  dr_params = query_params params, dr_body = None\<rparr>]\<rparr>
      in case gw_fetch g (dk_sent d1) of
           DThrow e \<Rightarrow> (Inl e, d1)
         | DResp r \<Rightarrow> (if \<not> resp_ok r then Inl (get_failure r) else parse_body r, d1))"
  by (auto simp: getJSON_def dbind_def dfetch_call_def Let_def split: dfetch.splits)

lemma sendJSON_run:
  "sendJSON m path body g d =
     (let d1 = d\<lparr>dk_sent := dk_sent d @ [\<lparr>dr_method = m, dr_path = BASE @ path,
                  dr_params = [], dr_body = map_option stringify body\<rparr>]\<rparr>
      in case gw_fetch g (dk_sent d1) of
           DThrow e \<Rightarrow> (Inl e, d1)
         | DResp r \<Rightarrow> (if \<not> resp_ok r then Inl (send_failure r)
                      else Inr (if dp_text r = [] then JNull
                                else case json_parse (dp_text r) of None \<Rightarrow> JNull | Some v \<Rightarrow> v), d1))"
  by (auto simp: sendJSON_def dbind_def dfetch_call_def Let_def split: dfetch.splits)

interpretation getJSON: api_call "getJSON path params" for path params
  using get_failure_plain
  by unfold_locales (auto simp: getJSON_run Let_def split: dfetch.splits if_splits)

interpretation sendJSON: api_call "sendJSON m path body" for m path body
  using send_failure_plain
  by unfold_locales (auto simp: sendJSON_run Let_def split: dfetch.splits if_splits)

lemma with_segment_contract:
  assumes "\<And>p. api_call (k p)"
  shows "api_call (with_segment dir seg k)"
proof
  fix g d r d' assume run: "with_segment dir seg k g d = (r, d')"
  show "dk_toasts d' = dk_toasts d \<and>
      (dk_sent d' = dk_sent d \<or> (\<exists>q. dk_sent d' = dk_sent d @ [q] \<and> prefix BASE (dr_path q)))"
    using run api_call.one_request [OF assms]
    by (cases "encodeURIComponent seg") (auto simp: with_segment_def dbind_def)
  fix q resp assume "dk_sent d' = dk_sent d @ [q]" "gw_fetch g (dk_sent d') = DResp resp" "\<not> resp_ok resp"
  then show "\<exists>m. r = Inl (PlainError m)"
    using run api_call.refused [OF assms]
    by (cases "encodeURIComponent seg") (auto simp: with_segment_def dbind_def)
next
  fix g d v d' assume "with_segment dir seg k g d = (Inr v, d')"
  then show "\<exists>q resp. dk_sent d' = dk_sent d @ [q] \<and> gw_fetch g (dk_sent d') = DResp resp \<and> resp_ok resp"
    using api_call.answered [OF assms] by (cases "encodeURIComponent seg") (auto simp: with_segment_def dbind_def)
qed

lemmas api_call_intros = getJSON.api_call_axioms sendJSON.api_call_axioms with_segment_contract

interpretation listTraceBySession: api_call "listTraceBySession s l" for s l
  unfolding listTraceBySession_def by (intro api_call_intros)

interpretation desktop_updateProvider: api_call "desktop_updateProvider n p" for n p
  unfolding desktop_updateProvider_def by (intro api_call_intros)

interpretation desktop_deleteModel: api_call "desktop_deleteModel n" for n
  unfolding desktop_deleteModel_def by (intro api_call_intros)

interpretation desktop_updateRoute: api_call "desktop_updateRoute n p" for n p
  unfolding desktop_updateRoute_def by (intro api_call_intros)

interpretation favoriteSession: api_call "favoriteSession s" for s
  unfolding favoriteSession_def by (intro api_call_intros)

interpretation deleteSession: api_call "deleteSession s" for s
  unfolding deleteSession_def by (intro api_call_intros)

interpretation reloadConfig: api_call reloadConfig
  unfolding reloadConfig_def by (intro api_call_intros)

interpretation quitApp: api_call quitApp
  unfolding quitApp_def by (intro api_call_intros)

interpretation revealConfigFolder: api_call revealConfigFolder
  unfolding revealConfigFolder_def by (intro api_call_intros)

section \<open>Lemmas on path segments\<close>

lemma delimiters_reserved: "\<not> unreserved 0x2F" "\<not> unreserved 0x3F" "\<not> unreserved 0x23"
  by (simp_all add: unreserved_def is_digit_def js_def)

section \<open>Properties\<close>

text \<open>A name or an id that is put into a path through \<^verbatim>\<open>encodeURIComponent\<close> stays one segment: what is
  sent is the fixed directory followed by text without a slash, a question mark or a hash, whatever
  the name is; only a lone surrogate makes the call fail, and then nothing is sent.\<close>

theorem segment_confined:
  "(\<exists>seg. dk_sent (snd (desktop_updateProvider name p g d)) =
       dk_sent d @ [\<lparr>dr_method = D_PUT, dr_path = BASE @ js ''/providers/'' @ seg, dr_params = [],
                     dr_body = Some (stringify p)\<rparr>] \<and>
       0x2F \<notin> set seg \<and> 0x3F \<notin> set seg \<and> 0x23 \<notin> set seg) \<or>
   (\<exists>e. encodeURIComponent name = Inl e \<and> desktop_updateProvider name p g d = (Inl e, d))"
proof (cases "encodeURIComponent name")
  case (Inl e)
  then show ?thesis by (simp add: desktop_updateProvider_def with_segment_def dbind_def)
next
  case (Inr seg)
  have "c \<notin> set seg" if "\<not> unreserved c" "c \<noteq> 0x25" for c
    using encode_chars [OF Inr] that by blast
  then have "0x2F \<notin> set seg \<and> 0x3F \<notin> set seg \<and> 0x23 \<notin> set seg"
    using delimiters_reserved by simp
  moreover have "dk_sent (snd (desktop_updateProvider name p g d)) =
       dk_sent d @ [\<lparr>dr_method = D_PUT, dr_path = BASE @ js ''/providers/'' @ seg, dr_params = [],
                     dr_body = Some (stringify p)\<rparr>]"
    using Inr by (auto simp: desktop_updateProvider_def with_segment_def dbind_def sendJSON_run Let_def
        split: dfetch.splits)
  ultimately show ?thesis by blast
qed

text \<open>The dispatch steps are the exception: the request id goes into the path unencoded, so a
  question mark in it ends the path.\<close>

theorem dispatch_steps_unencoded:
  "dk_sent (snd (getDispatchSteps requestId g d)) =
     dk_sent d @ [\<lparr>dr_method = D_GET, dr_path = BASE @ js ''/dispatch-steps/'' @ requestId,
                   dr_params = [], dr_body = None\<rparr>] \<and>
   (\<exists>g' d' q. dk_sent (snd (getDispatchSteps (js ''a?b'') g' d')) = [q] \<and> 0x3F \<in> set (dr_path q))"
proof
  show *: "dk_sent (snd (getDispatchSteps requestId g d)) =
     dk_sent d @ [\<lparr>dr_method = D_GET, dr_path = BASE @ js ''/dispatch-steps/'' @ requestId,
                   dr_params = [], dr_body = None\<rparr>]" for requestId g d
    by (auto simp: getDispatchSteps_def getJSON_run query_params_def Let_def split: dfetch.splits)
  show "\<exists>g' d' q. dk_sent (snd (getDispatchSteps (js ''a?b'') g' d')) = [q] \<and> 0x3F \<in> set (dr_path q)"
  proof (intro exI conjI)
    show "dk_sent (snd (getDispatchSteps (js ''a?b'') undefined \<lparr>dk_sent = [], dk_toasts = []\<rparr>)) =
        [\<lparr>dr_method = D_GET, dr_path = BASE @ js ''/dispatch-steps/'' @ js ''a?b'', dr_params = [], dr_body = None\<rparr>]"
      by (simp add: *)
  qed (simp add: js_def)
qed

text \<open>The outcome of a read. A 2xx answer gives its parsed body; a refusal gives the message of the
  gateway when its body has one, the hint about an outdated gateway for a bare 404, and the status
  otherwise.\<close>

theorem getJSON_outcome:
  assumes "gw_fetch g (dk_sent d @ [\<lparr>dr_method = D_GET, dr_path = BASE @ path,
                  dr_params = query_params params, dr_body = None\<rparr>]) = DResp r"
  shows "fst (getJSON path params g d) =
    (if resp_ok r then parse_body r
     else case json_parse (dp_text r) of
       Some body \<Rightarrow>
         (if truthy (opt_prop (Some body) (js ''error''))
          then Inl (PlainError (val_String (opt_prop (Some body) (js ''error''))))
          else Inl (if dp_status r = 404 then staleBackendError else PlainError (failed_message (dp_status r))))
     | None \<Rightarrow> Inl (if dp_status r = 404 then staleBackendError else PlainError (failed_message (dp_status r))))"
  using assms by (auto simp: getJSON_run get_failure_def Let_def split: option.splits)

definition missing_gateway :: gateway where
  "missing_gateway = \<lparr>gw_fetch = (\<lambda>h. DResp \<lparr>dp_status = 404, dp_text = js ''404''\<rparr>), gw_message = (\<lambda>e. [])\<rparr>"

definition idle_desk :: desk where
  "idle_desk = \<lparr>dk_sent = [], dk_toasts = []\<rparr>"

lemma parse_404: "json_parse (js ''404'') = Some (JNum (Fin 404))"
  by code_simp

theorem getJSON_outcome_witness:
  "fst (getJSON (js ''/provider-health'') [] missing_gateway idle_desk) = Inl staleBackendError"
proof -
  have "gw_fetch missing_gateway h = DResp \<lparr>dp_status = 404, dp_text = js ''404''\<rparr>" for h
    by (simp add: missing_gateway_def)
  from getJSON_outcome [OF this] show ?thesis
    by (simp add: resp_ok_def parse_404)
qed

lemma caught: "fst (dcatch m toast_error g d) = Inr ()"
  by (auto simp: dcatch_def toast_error_def show_toast_def split: prod.splits sum.splits)

text \<open>The actions behind the footer buttons never fail: they always return, having sent one request and
  shown toasts that tell its outcome; quitting and revealing show exactly one, a success precisely when
  the gateway accepted.\<close>

theorem toast_actions:
  assumes "gw_fetch g (dk_sent d @ [\<lparr>dr_method = D_POST, dr_path = BASE @ js ''/app/quit'', dr_params = [], dr_body = None\<rparr>]) = a"
  shows "fst (quitAppWithToast g d) = Inr () \<and> fst (revealConfigFolderWithToast g d) = Inr () \<and>
    fst (reloadConfigWithToast g d) = Inr () \<and>
    (\<exists>t. dk_toasts (snd (quitAppWithToast g d)) = dk_toasts d @ [t] \<and>
       (is_ToastSuccess t \<longleftrightarrow> (\<exists>r. a = DResp r \<and> resp_ok r)) \<and> (is_ToastError t \<longleftrightarrow> \<not> is_ToastSuccess t))"
proof (intro conjI)
  show "\<exists>t. dk_toasts (snd (quitAppWithToast g d)) = dk_toasts d @ [t] \<and>
       (is_ToastSuccess t \<longleftrightarrow> (\<exists>r. a = DResp r \<and> resp_ok r)) \<and> (is_ToastError t \<longleftrightarrow> \<not> is_ToastSuccess t)"
    using assms
    by (auto simp: quitAppWithToast_def dcatch_def dbind_def quitApp_def sendJSON_run Let_def show_toast_def
        toast_error_def split: dfetch.splits)
qed (simp_all add: quitAppWithToast_def revealConfigFolderWithToast_def reloadConfigWithToast_def caught)

theorem toast_actions_witness:
  "fst (quitAppWithToast missing_gateway idle_desk) = Inr () \<and>
   (\<exists>t. dk_toasts (snd (quitAppWithToast missing_gateway idle_desk)) = dk_toasts idle_desk @ [t] \<and> is_ToastError t)"
proof -
  have "gw_fetch missing_gateway h = DResp \<lparr>dp_status = 404, dp_text = js ''404''\<rparr>" for h
    by (simp add: missing_gateway_def)
  from toast_actions [OF this, of idle_desk] show ?thesis
    by (auto simp: resp_ok_def)
qed

end
