(* ===== verification/Json_Tree.thy ===== *)
theory Json_Tree
  imports Js_Json
begin

text \<open>
  The tree behind the collapsible JSON view of the desktop application
  (\<^verbatim>\<open>desktop-ui/src/lib/json-tree.ts\<close>): building it from a value, its paths, the
  preview of a collapsed node and the display of a primitive.
\<close>

datatype JsonNodeType = T_object | T_array | T_string | T_number | T_boolean | T_null

datatype JsonNode =
  JsonNode (jn_path: jsstr) (jn_key: jsstr) (jn_type: JsonNodeType) (jn_primitiveValue: jsval)
    (jn_children: "JsonNode list option") (jn_size: nat)

fun typeOf :: "json \<Rightarrow> JsonNodeType" where
  "typeOf JNull = T_null"
| "typeOf (JArr vs) = T_array"
| "typeOf (JStr s) = T_string"
| "typeOf (JNum n) = T_number"
| "typeOf (JBool b) = T_boolean"
| "typeOf (JObj kvs) = T_object"

definition childPath :: "jsstr \<Rightarrow> jsstr \<Rightarrow> bool \<Rightarrow> jsstr" where
  "childPath parentPath key isIndex =
     (if isIndex then parentPath @ js ''['' @ key @ js '']'' else parentPath @ js ''.'' @ key)"

function buildTree :: "json \<Rightarrow> jsstr \<Rightarrow> jsstr \<Rightarrow> JsonNode" where
  "buildTree (JObj kvs) key path =
     JsonNode path key T_object None
       (Some (map (\<lambda>(k, v). buildTree v k (childPath path k False)) kvs)) (length kvs)"
| "buildTree (JArr vs) key path =
     JsonNode path key T_array None
       (Some (map (\<lambda>(i, v). buildTree v (digits10 i) (childPath path (digits10 i) True)) (enumerate 0 vs)))
       (length vs)"
| "buildTree JNull key path = JsonNode path key T_null (Some JNull) None 0"
| "buildTree (JBool b) key path = JsonNode path key T_boolean (Some (JBool b)) None 0"
| "buildTree (JNum n) key path = JsonNode path key T_number (Some (JNum n)) None 0"
| "buildTree (JStr s) key path = JsonNode path key T_string (Some (JStr s)) None 0"
  by pat_completeness auto
termination
proof (relation "measure (\<lambda>(v, k, p). size v)")
  fix kvs :: fields and key path :: jsstr and x k v
  assume "x \<in> set kvs" "(k, v) = x"
  then have "size v \<le> size_list (size_prod (\<lambda>_. 0) size) kvs"
    by (intro size_list_estimation' [of x]) auto
  then show "((v, k, childPath path k False), (JObj kvs, key, path)) \<in> measure (\<lambda>(v, k, p). size v)"
    by simp
next
  fix vs :: "json list" and key path :: jsstr and x i v
  assume "x \<in> set (enumerate 0 vs)" "(i, v) = x"
  then have "v \<in> set vs" by (auto simp: in_set_enumerate_eq)
  then have "size v \<le> size_list size vs" by (intro size_list_estimation' [of v]) auto
  then show "((v, digits10 i, childPath path (digits10 i) True), (JArr vs, key, path)) \<in> measure (\<lambda>(v, k, p). size v)"
    by simp
qed simp

definition root_key :: jsstr where
  "root_key = js ''root''"

datatype ParseResult = ParseOk JsonNode | ParseRaw jsstr

text \<open>\<^verbatim>\<open>parseJsonValue\<close>: a string is parsed, any other value is taken as it is, \<^verbatim>\<open>undefined\<close> is shown
  as text.\<close>

definition parseJsonValue :: "jsval \<Rightarrow> ParseResult" where
  "parseJsonValue input =
     (case input of
        Some (JStr s) \<Rightarrow>
          (case json_parse s of
             Some v \<Rightarrow> ParseOk (buildTree v root_key root_key)
           | None \<Rightarrow> ParseRaw s)
      | Some v \<Rightarrow> ParseOk (buildTree v root_key root_key)
      | None \<Rightarrow> ParseRaw (js ''undefined''))"

definition collapsedPreview :: "JsonNode \<Rightarrow> jsstr" where
  "collapsedPreview node =
     (if jn_type node = T_object
      then [0x7B, 0x2026, 0x7D, 0x20] @ digits10 (jn_size node) @ js '' '' @
           (if jn_size node = 1 then js ''key'' else js ''keys'')
      else if jn_type node = T_array
      then [0x5B, 0x2026, 0x5D, 0x20] @ digits10 (jn_size node) @ js '' '' @
           (if jn_size node = 1 then js ''item'' else js ''items'')
      else [])"

definition primitiveDisplay :: "JsonNode \<Rightarrow> jsstr" where
  "primitiveDisplay node =
     (if jn_type node = T_string then stringify (the (jn_primitiveValue node))
      else if jn_type node = T_null then js ''null''
      else val_String (jn_primitiveValue node))"

section \<open>Reference\<close>

text \<open>The value a tree stands for, all its paths, and the paths relative to the root.\<close>

fun value_of :: "JsonNode \<Rightarrow> json" where
  "value_of (JsonNode p k t pr (Some cs) n) =
     (if t = T_object then JObj (map (\<lambda>c. (jn_key c, value_of c)) cs) else JArr (map value_of cs))"
| "value_of (JsonNode p k t pr None n) = the pr"

fun all_paths :: "JsonNode \<Rightarrow> jsstr list" where
  "all_paths (JsonNode p k t pr (Some cs) n) = p # concat (map all_paths cs)"
| "all_paths (JsonNode p k t pr None n) = [p]"

text \<open>Keys that cannot be confused with a path: no dot and no opening bracket, distinct in an object.\<close>

fun plain_keys :: "json \<Rightarrow> bool" where
  "plain_keys (JObj kvs) = (distinct (map fst kvs) \<and>
     list_all (\<lambda>(k, v). 0x2E \<notin> set k \<and> 0x5B \<notin> set k \<and> plain_keys v) kvs)"
| "plain_keys (JArr vs) = list_all plain_keys vs"
| "plain_keys v = True"

definition ends_key :: "jsstr \<Rightarrow> bool" where
  "ends_key s \<longleftrightarrow> s = [] \<or> hd s = 0x2E \<or> hd s = 0x5B"

lemma key_buildTree [simp]: "jn_key (buildTree v k p) = k"
  by (cases v) simp_all

lemma brackets: "js ''['' = [0x5B]" "js '']'' = [0x5D]" "js ''.'' = [0x2E]"
  by (simp_all add: js_def)

lemma value_of_buildTree: "value_of (buildTree v k p) = v"
proof (induction v k p rule: buildTree.induct)
  case (1 kvs key path)
  then have "map ((\<lambda>c. (jn_key c, value_of c)) \<circ> (\<lambda>(k, v). buildTree v k (childPath path k False))) kvs = kvs"
    by (intro map_idI) (auto split: prod.splits)
  then show ?case by simp
next
  case (2 vs key path)
  have "map (value_of \<circ> (\<lambda>(i, v). buildTree v (digits10 i) (childPath path (digits10 i) True))) (enumerate 0 vs) =
      map snd (enumerate 0 vs)"
    using 2 by (intro map_cong) (auto split: prod.splits)
  then show ?case by simp
qed simp_all

text \<open>Below a node every path is the path of the node followed by something that ends a key.\<close>

lemma paths_extend: "q \<in> set (all_paths (buildTree v k p)) \<Longrightarrow> \<exists>s. q = p @ s \<and> ends_key s"
proof (induction v k p arbitrary: q rule: buildTree.induct)
  case (1 kvs key path)
  then consider "q = path" | x where "x \<in> set kvs" "q \<in> set (all_paths (buildTree (snd x) (fst x) (childPath path (fst x) False)))"
    by (auto simp: case_prod_unfold)
  then show ?case
  proof cases
    case 2
    from 1(1) [OF 2(1) _ 2(2)] obtain s where "q = childPath path (fst x) False @ s" by auto
    then show ?thesis by (auto simp: childPath_def brackets ends_key_def)
  qed (auto simp: ends_key_def)
next
  case (2 vs key path)
  note IH = 2(1)
  from 2(2) consider "q = path" | x where "x \<in> set (enumerate 0 vs)"
    "q \<in> set (all_paths (buildTree (snd x) (digits10 (fst x)) (childPath path (digits10 (fst x)) True)))"
    by (auto simp: case_prod_unfold)
  then show ?case
  proof cases
    case 2
    from IH [OF 2(1) _ 2(2)] obtain s where "q = childPath path (digits10 (fst x)) True @ s" by auto
    then show ?thesis by (auto simp: childPath_def brackets ends_key_def)
  qed (auto simp: ends_key_def)
qed (auto simp: ends_key_def)

lemma distinct_concat_map:
  assumes "distinct xs" "\<And>x. x \<in> set xs \<Longrightarrow> distinct (f x)"
    and "\<And>x y. x \<in> set xs \<Longrightarrow> y \<in> set xs \<Longrightarrow> x \<noteq> y \<Longrightarrow> set (f x) \<inter> set (f y) = {}"
  shows "distinct (concat (map f xs))"
  using assms
proof (induction xs)
  case (Cons x xs)
  have "set (f x) \<inter> set (f y) = {}" if "y \<in> set xs" for y
    using Cons.prems(1,3) that by (metis distinct.simps(2) list.set_intros)
  with Cons show ?case by (auto simp: disjoint_iff)
qed simp

lemma takeWhile_key:
  assumes "0x2E \<notin> set k" "0x5B \<notin> set k" "ends_key s"
  shows "takeWhile (\<lambda>c. c \<noteq> 0x2E \<and> c \<noteq> 0x5B) (k @ s) = k"
proof -
  have "takeWhile (\<lambda>c. c \<noteq> 0x2E \<and> c \<noteq> 0x5B) s = []"
    using assms(3) by (cases s) (auto simp: ends_key_def)
  moreover have "\<And>c. c \<in> set k \<Longrightarrow> c \<noteq> 0x2E \<and> c \<noteq> 0x5B" using assms(1,2) by auto
  ultimately show ?thesis by (simp add: takeWhile_append2)
qed

lemma takeWhile_index: "takeWhile (\<lambda>c. c \<noteq> 0x5D) (digits10 i @ 0x5D # s) = digits10 i"
proof -
  have "\<And>c. c \<in> set (digits10 i) \<Longrightarrow> c \<noteq> 0x5D"
    using digits10_is_digit [of _ i] by (force simp: is_digit_def)
  then show ?thesis by (simp add: takeWhile_append2)
qed


lemma sibling_keys:
  assumes "q \<in> set (all_paths (buildTree v k (childPath p k False)))"
    "q \<in> set (all_paths (buildTree v' k' (childPath p k' False)))"
    "0x2E \<notin> set k" "0x5B \<notin> set k" "0x2E \<notin> set k'" "0x5B \<notin> set k'"
  shows "k = k'"
proof -
  from paths_extend [OF assms(1)] obtain s where s: "q = childPath p k False @ s" "ends_key s" by blast
  from paths_extend [OF assms(2)] obtain s' where s': "q = childPath p k' False @ s'" "ends_key s'" by blast
  from s s' have "k @ s = k' @ s'" by (simp add: childPath_def)
  then show ?thesis
    using takeWhile_key [OF assms(3,4) s(2)] takeWhile_key [OF assms(5,6) s'(2)] by simp
qed

lemma sibling_indices:
  assumes "q \<in> set (all_paths (buildTree v (digits10 i) (childPath p (digits10 i) True)))"
    "q \<in> set (all_paths (buildTree v' (digits10 j) (childPath p (digits10 j) True)))"
  shows "i = j"
proof -
  from paths_extend [OF assms(1)] obtain s where "q = childPath p (digits10 i) True @ s" by blast
  moreover from paths_extend [OF assms(2)] obtain s' where "q = childPath p (digits10 j) True @ s'" by blast
  ultimately have "digits10 i @ 0x5D # s = digits10 j @ 0x5D # s'" by (simp add: childPath_def brackets)
  then have "digits10 i = digits10 j"
    using takeWhile_index [of i s] takeWhile_index [of j s'] by simp
  then show ?thesis by simp
qed

lemma own_path: "p \<notin> set (all_paths (buildTree v k (childPath p k b)))"
  using paths_extend [of p v k "childPath p k b"] by (auto simp: childPath_def brackets split: if_splits)

lemma paths_distinct: "plain_keys v \<Longrightarrow> distinct (all_paths (buildTree v k p))"
proof (induction v k p rule: buildTree.induct)
  case (1 kvs key path)
  let ?f = "\<lambda>x. all_paths (buildTree (snd x) (fst x) (childPath path (fst x) False))"
  have clean: "0x2E \<notin> set (fst x) \<and> 0x5B \<notin> set (fst x) \<and> plain_keys (snd x)" if "x \<in> set kvs" for x
    using 1(2) that by (auto simp: list_all_iff)
  have "distinct (concat (map ?f kvs))"
  proof (rule distinct_concat_map)
    show "distinct kvs" using 1(2) by (simp add: distinct_map)
    show "distinct (?f x)" if "x \<in> set kvs" for x
      using 1(1) [OF that] clean [OF that] by (cases x) auto
    show "set (?f x) \<inter> set (?f y) = {}" if "x \<in> set kvs" "y \<in> set kvs" "x \<noteq> y" for x y
    proof -
      have ne: "fst x \<noteq> fst y" using 1(2) that by (auto simp: distinct_map dest: inj_onD)
      show ?thesis
      proof (rule equals0I)
        fix q assume "q \<in> set (?f x) \<inter> set (?f y)"
        then have "q \<in> set (?f x)" "q \<in> set (?f y)" by blast+
        from sibling_keys [OF this] clean [OF that(1)] clean [OF that(2)] ne show False by blast
      qed
    qed
  qed
  moreover have "path \<notin> set (concat (map ?f kvs))" using own_path by auto
  ultimately show ?case by (simp add: case_prod_unfold comp_def)
next
  case (2 vs key path)
  let ?f = "\<lambda>x. all_paths (buildTree (snd x) (digits10 (fst x)) (childPath path (digits10 (fst x)) True))"
  have "distinct (concat (map ?f (enumerate 0 vs)))"
  proof (rule distinct_concat_map)
    show "distinct (enumerate 0 vs)" by (rule distinct_enumerate)
    show "distinct (?f x)" if "x \<in> set (enumerate 0 vs)" for x
    proof -
      have "plain_keys (snd x)" using that 2(2) by (simp add: list_all_iff in_set_enumerate_eq) (metis nth_mem)
      then show ?thesis using 2(1) [OF that] by (cases x) auto
    qed
    show "set (?f x) \<inter> set (?f y) = {}"
      if "x \<in> set (enumerate 0 vs)" "y \<in> set (enumerate 0 vs)" "x \<noteq> y" for x y
    proof -
      have "fst x \<noteq> fst y" using that by (auto simp: in_set_enumerate_eq prod_eq_iff)
      then show ?thesis using sibling_indices [of _ "snd x" "fst x" path "snd y" "fst y"] by blast
    qed
  qed
  moreover have "path \<notin> set (concat (map ?f (enumerate 0 vs)))" using own_path by auto
  ultimately show ?case by (simp add: case_prod_unfold comp_def)
qed simp_all

section \<open>Properties\<close>

text \<open>The tree loses nothing: the value can be read back from it, each container node counts its
  children, and a string that is not JSON is kept as it is.\<close>

theorem tree_roundtrip:
  "value_of (buildTree v k p) = v \<and> jn_type (buildTree v k p) = typeOf v \<and>
   jn_size (buildTree v k p) = (case jn_children (buildTree v k p) of Some cs \<Rightarrow> length cs | None \<Rightarrow> 0) \<and>
   parseJsonValue (Some (JStr s)) =
     (case json_parse s of Some w \<Rightarrow> ParseOk (buildTree w root_key root_key) | None \<Rightarrow> ParseRaw s)"
  by (cases v) (simp_all add: value_of_buildTree [of "JObj _", simplified] value_of_buildTree [of "JArr _", simplified]
      parseJsonValue_def split: option.splits)

text \<open>The path of a node identifies it, provided no key holds a dot or an opening bracket.\<close>

theorem tree_paths_unique:
  assumes "plain_keys v"
  shows "distinct (all_paths (buildTree v k p))"
  using assms by (rule paths_distinct)

theorem tree_paths_unique_witness:
  "distinct (all_paths (buildTree (JObj [(js ''a'', JArr [JNull, JNull]), (js ''b'', JNull)]) root_key root_key))"
proof -
  have "plain_keys (JObj [(js ''a'', JArr [JNull, JNull]), (js ''b'', JNull)])"
    by (simp add: js_def)
  then show ?thesis by (rule tree_paths_unique)
qed

text \<open>Without that condition two nodes can share a path: the key \<open>a.b\<close> beside a key \<open>a\<close> that
  holds a key \<open>b\<close>.\<close>

theorem tree_paths_clash:
  "\<not> distinct (all_paths (buildTree
      (JObj [(js ''a'', JObj [(js ''b'', JNull)]), (js ''a.b'', JNull)]) root_key root_key))"
  by (simp add: childPath_def js_def)

end
