(* ===== verification/Desktop_Format.thy ===== *)
theory Desktop_Format
  imports Money
begin

text \<open>
  The display formatting of the desktop application
  (\<^verbatim>\<open>desktop-ui/src/lib/format.ts\<close>), with its copy of the money functions. What
  the engine's locale data decides (\<^verbatim>\<open>toLocaleString\<close>, the parsing and printing of
  dates) is a parameter.
\<close>

section \<open>Labels\<close>

definition AGENT_LABELS :: "(jsstr \<times> jsstr) list" where
  "AGENT_LABELS = [(js ''claude-code'', js ''Claude Code''), (js ''codex'', js ''Codex''),
     (js ''codebuddy'', js ''CodeBuddy''), (js ''workbuddy'', js ''WorkBuddy''), (js ''opencode'', js ''OpenCode'')]"

text \<open>The names an object literal inherits: reading one of them gives a function or an object, so the
  result is not a string (\<open>None\<close>).\<close>

definition inherited_names :: "jsstr list" where
  "inherited_names = map js [''constructor'', ''__defineGetter__'', ''__defineSetter__'', ''hasOwnProperty'',
     ''__lookupGetter__'', ''__lookupSetter__'', ''isPrototypeOf'', ''propertyIsEnumerable'', ''toString'',
     ''valueOf'', ''__proto__'', ''toLocaleString'']"

definition agentLabel :: "jsstr \<Rightarrow> jsstr option" where
  "agentLabel agentType =
     (if agentType = [] then Some [0x5176, 0x4ED6]
      else case map_of AGENT_LABELS agentType of
        Some l \<Rightarrow> Some l
      | None \<Rightarrow> if agentType \<in> set inherited_names then None else Some agentType)"

datatype tone = T_primary | T_success | T_warning | T_muted | T_default | T_destructive

definition agentTone :: "jsstr \<Rightarrow> tone" where
  "agentTone agentType =
     (if agentType = js ''claude-code'' then T_primary
      else if agentType = js ''codebuddy'' then T_success
      else if agentType = js ''codex'' then T_warning
      else T_muted)"

section \<open>Numbers\<close>

definition or_zero :: "jsnum option \<Rightarrow> jsnum" where
  "or_zero n = (case n of None \<Rightarrow> Fin 0 | Some v \<Rightarrow> v)"

definition formatNumber :: "(jsnum \<Rightarrow> jsstr) \<Rightarrow> jsnum option \<Rightarrow> jsstr" where
  "formatNumber toLocale n = toLocale (or_zero n)"

definition formatPercent :: "jsnum option \<Rightarrow> jsstr" where
  "formatPercent v = num_repr (num_round (num_mul (or_zero v) (Fin 100))) @ js ''%''"

definition formatDuration :: "jsnum option \<Rightarrow> jsstr" where
  "formatDuration ms =
     (let v = or_zero ms in
      if num_lt v (Fin 1000) then num_repr v @ js ''ms''
      else num_toFixed 2 (num_divc v 1000) @ js ''s'')"

definition formatDurationCompact :: "jsnum option \<Rightarrow> jsstr" where
  "formatDurationCompact ms =
     (let v = or_zero ms in
      if num_le v (Fin 0) then [0x2014]
      else if num_lt v (Fin 60000) then num_toFixed 1 (num_divc v 1000) @ js ''s''
      else
        let m = num_floor (num_divc v 60000);
            s = num_floor (num_divc (num_modc v 60000) 1000)
        in num_repr m @ js ''m'' @ num_repr s @ js ''s'')"

definition formatTokens :: "jsnum option \<Rightarrow> jsstr" where
  "formatTokens n =
     (let v = or_zero n in
      if num_le (Fin 1000000) v then num_toFixed 1 (num_divc v 1000000) @ js ''M''
      else if num_le (Fin 1000) v then num_toFixed 1 (num_divc v 1000) @ js ''k''
      else num_repr v)"

section \<open>Times, ids and statuses\<close>

text \<open>\<open>parse\<close> is \<^verbatim>\<open>new Date(stamp)\<close>, \<open>None\<close> for an invalid date.\<close>

definition formatTime :: "(jsstr \<Rightarrow> 'date option) \<Rightarrow> ('date \<Rightarrow> jsstr) \<Rightarrow> jsstr option \<Rightarrow> jsstr" where
  "formatTime parse toLocale stamp =
     (case stamp of
        None \<Rightarrow> js ''-''
      | Some s \<Rightarrow> if s = [] then js ''-''
                 else case parse s of None \<Rightarrow> s | Some d \<Rightarrow> toLocale d)"

definition shortId :: "jsstr option \<Rightarrow> nat option \<Rightarrow> jsstr" where
  "shortId i n =
     (let n' = (case n of None \<Rightarrow> 10 | Some k \<Rightarrow> k) in
      case i of
        None \<Rightarrow> js ''-''
      | Some s \<Rightarrow> if s = [] then js ''-'' else if length s > n' then take n' s @ [0x2026] else s)"

definition statusTone :: "jsnum option \<Rightarrow> tone" where
  "statusTone status =
     (let s = or_zero status in
      if num_le (Fin 200) s \<and> num_lt s (Fin 300) then T_success
      else if num_le (Fin 400) s \<and> num_lt s (Fin 500) then T_warning
      else if num_le (Fin 500) s then T_destructive
      else T_muted)"

section \<open>The copy of the money functions\<close>

definition desktop_microToDisplay :: "jsnum \<Rightarrow> jsstr" where
  "desktop_microToDisplay micro =
     (let negative = num_lt micro (Fin 0);
          abs = num_abs micro;
          whole = num_floor (num_divc abs 1000000);
          remainder = num_modc abs 1000000;
          frac0 = num_floor (num_divc (num_add (num_mul remainder (Fin 100)) (num_divc (Fin 1000000) 2)) 1000000);
          (wholeOut, frac) =
            (if num_le (Fin 100) frac0 then (num_add whole (Fin 1), num_sub frac0 (Fin 100)) else (whole, frac0));
          fracStr = js_padStart 2 48 (num_repr frac);
          sign = (if negative \<and> (wholeOut \<noteq> Fin 0 \<or> frac \<noteq> Fin 0) then js ''-'' else [])
      in sign @ num_repr wholeOut @ js ''.'' @ fracStr)"

definition desktop_displayToMicro :: "jsstr \<Rightarrow> jsnum res" where
  "desktop_displayToMicro input =
     (case match_amount (js_trim input) of
        None \<Rightarrow> Inl (RangeError (js ''invalid decimal amount: \"'' @ input @ js ''\"''))
      | Some (sign, intPart, fracPart) \<Rightarrow>
          (let fracDigits = take 6 ((case fracPart of None \<Rightarrow> [] | Some f \<Rightarrow> f) @ js ''000000'');
               v = js_Number (intPart @ fracDigits)
           in Inr (if sign then num_neg v else v)))"

section \<open>Quotients of durations\<close>

text \<open>A dividend below \<open>2 ^ 37\<close> milliseconds (four years) and a divisor up to a minute leave the rounded
  quotient on the right side of every integer.\<close>

lemma floor_divc_small:
  assumes "0 \<le> a" and "a < 2 ^ 37" and "0 < c" and "c \<le> 60000"
  shows "num_floor (num_divc (num_int a) (of_int c)) = num_int (a div c)"
proof (cases "a mod c = 0")
  case True
  then have eq: "(of_int a :: rat) / of_int c = of_int (a div c)"
    using assms(3) by (auto simp: field_simps)
  have "a div c \<le> a div 1" using assms(1,3) by (intro zdiv_mono2) simp_all
  with assms have "safe (a div c)"
    by (simp add: safe_def abs_le_iff pos_imp_zdiv_nonneg_iff)
  then show ?thesis
    by (simp only: num_divc.simps eq round_double_int num_floor.simps floor_of_int)
next
  case False
  let ?x = "(of_int a :: rat) / of_int c" and ?q = "of_int (a div c) :: rat"
  let ?r = "of_int (a mod c) :: rat"
  have c: "(0::rat) < of_int c" using assms(3) by simp
  have "(of_int a :: rat) = of_int c * ?q + ?r"
    by (metis mult_div_mod_eq of_int_add of_int_mult)
  then have x: "?x = ?q + ?r / of_int c"
    using c by (simp add: add_divide_distrib)
  have "1 \<le> a mod c" and "a mod c \<le> c - 1"
    using False assms(3) pos_mod_bound [of c a] pos_mod_sign [of c a] by linarith+
  then have "(of_int 1 :: rat) \<le> ?r" and "?r \<le> of_int (c - 1)"
    by (simp_all only: of_int_le_iff)
  then have r: "1 / of_int c \<le> ?r / of_int c" "?r / of_int c \<le> 1 - 1 / of_int c"
    using c by (simp_all add: field_simps)
  have "(of_int a :: rat) < of_int (2 ^ 37)" using assms(2) by (simp only: of_int_less_iff)
  moreover have "?x \<le> of_int a"
    using assms(1,3) c by (simp add: divide_le_eq mult_le_cancel_left1)
  ultimately have "\<bar>?x\<bar> < 2 powi (36 + 1)"
    using assms(1) c by (simp add: power_int_def)
  from round_double_err [OF this] obtain d
    where d: "round_double ?x = Fin d" and err: "\<bar>d - ?x\<bar> \<le> 2 powi (36 - 53)"
    by auto
  have "(2::rat) powi (36 - 53) < 1 / 60000"
    by (simp add: power_int_def power_one_over field_simps)
  also have "\<dots> \<le> 1 / of_int c"
  proof -
    have "(of_int c :: rat) \<le> of_int 60000" using assms(4) by (simp only: of_int_le_iff)
    then show ?thesis using c by (simp add: field_simps)
  qed
  finally have "\<bar>d - ?x\<bar> < 1 / of_int c" using err by linarith
  with x r have "?q < d" and "d < ?q + 1" by linarith+
  then have "\<lfloor>d\<rfloor> = a div c" by (simp add: floor_unique)
  with d show ?thesis by simp
qed

section \<open>The two copies of the money functions\<close>

lemma desktop_microToDisplay_eq: "desktop_microToDisplay n = microToDisplay n"
  by (simp add: desktop_microToDisplay_def microToDisplay_def Let_def MICRO_PER_UNIT_def SCALE_def DECIMALS_def)

lemma desktop_displayToMicro_eq: "desktop_displayToMicro s = displayToMicro s"
  by (simp add: desktop_displayToMicro_def displayToMicro_def Let_def)

section \<open>Properties\<close>

text \<open>The desktop copy of the money functions agrees with the ones of the Control Panel on every
  input.\<close>

theorem desktop_money_agrees:
  "desktop_microToDisplay n = microToDisplay n \<and> desktop_displayToMicro s = displayToMicro s"
  by (simp add: desktop_microToDisplay_eq desktop_displayToMicro_eq)

text \<open>The tone of a status: every status falls in exactly one class, by its hundreds.\<close>

theorem statusTone_classes:
  "statusTone (Some (num_int n)) =
     (if 200 \<le> n \<and> n < 300 then T_success else if 400 \<le> n \<and> n < 500 then T_warning
      else if 500 \<le> n then T_destructive else T_muted)"
proof -
  have "num_le (Fin (of_int a)) (num_int n) \<longleftrightarrow> a \<le> n" "num_lt (num_int n) (Fin (of_int a)) \<longleftrightarrow> n < a" for a
    by auto
  from this [of 200] this [of 300] this [of 400] this [of 500] show ?thesis
    by (simp add: statusTone_def or_zero_def Let_def)
qed


text \<open>A duration of a minute or more is shown as its whole minutes and the whole seconds that remain;
  the seconds are always below sixty.\<close>

theorem duration_compact:
  assumes "60000 \<le> n" and "n < 2 ^ 37"
  shows "formatDurationCompact (Some (num_int n)) =
      digits10 (nat (n div 60000)) @ js ''m'' @ digits10 (nat (n mod 60000 div 1000)) @ js ''s'' \<and>
    n mod 60000 div 1000 < 60 \<and> 60000 * (n div 60000) + 1000 * (n mod 60000 div 1000) \<le> n"
proof -
  have le: "\<not> num_le (num_int n) (Fin 0)" "\<not> num_lt (num_int n) (Fin 60000)"
    using assms(1) by (simp_all add: of_int_le_0_iff)
  have "num_floor (num_divc (num_int n) (of_int 60000)) = num_int (n div 60000)"
    using assms by (intro floor_divc_small) simp_all
  moreover have "num_modc (num_int n) (of_int 60000) = num_int (n mod 60000)"
    using assms by (intro num_modc_int) simp_all
  moreover have "n mod 60000 < 60000" "0 \<le> n mod 60000" by simp_all
  then have "num_floor (num_divc (num_int (n mod 60000)) (of_int 1000)) = num_int (n mod 60000 div 1000)"
    by (intro floor_divc_small) simp_all
  moreover have "num_repr (num_int (n div 60000)) = digits10 (nat (n div 60000))"
    "num_repr (num_int (n mod 60000 div 1000)) = digits10 (nat (n mod 60000 div 1000))"
    using assms by (intro num_repr_int; simp add: pos_imp_zdiv_nonneg_iff)+
  ultimately have "formatDurationCompact (Some (num_int n)) =
      digits10 (nat (n div 60000)) @ js ''m'' @ digits10 (nat (n mod 60000 div 1000)) @ js ''s''"
    using le by (simp add: formatDurationCompact_def or_zero_def Let_def)
  moreover have "n mod 60000 div 1000 < 60"
    using pos_mod_bound [of 60000 n] by simp
  moreover have "60000 * (n div 60000) + 1000 * (n mod 60000 div 1000) \<le> n"
    using mult_div_mod_eq [of 60000 n] mult_div_mod_eq [of 1000 "n mod 60000"]
      pos_mod_sign [of 1000 "n mod 60000"] by linarith
  ultimately show ?thesis by blast
qed

theorem duration_compact_witness:
  "formatDurationCompact (Some (num_int 120000)) =
     digits10 (nat (120000 div 60000)) @ js ''m'' @ digits10 (nat (120000 mod 60000 div 1000)) @ js ''s''"
  using duration_compact [of 120000] by simp

text \<open>A token count just below a million is shown in thousands although it rounds to a million: the unit
  is chosen before rounding.\<close>

theorem formatTokens_rollover:
  "formatTokens (Some (num_int 999950)) = js ''1000.0k'' \<and> formatTokens (Some (num_int 1000000)) = js ''1.0M''"
  by code_simp

end
