(* ===== verification/Pagination.thy ===== *)
theory Pagination
  imports Js_Number
begin

text \<open>
  The pagination toolbar of the two applications (\<^verbatim>\<open>web/src/components/ui/pagination.tsx\<close> and
  \<^verbatim>\<open>desktop-ui/src/components/ui/pagination.tsx\<close>): the number of pages, the page that is shown, the window of page
  buttons and the targets of the four arrows.
\<close>

section \<open>Numbers of pages\<close>

definition totalPages :: "jsnum \<Rightarrow> jsnum \<Rightarrow> jsnum \<Rightarrow> jsnum" where
  "totalPages tot pageSize maxPage = num_max (Fin 1) (num_min (num_ceil (num_quot tot pageSize)) maxPage)"

definition safePage :: "jsnum \<Rightarrow> jsnum \<Rightarrow> jsnum" where
  "safePage page pages = num_min (num_max page (Fin 1)) pages"

section \<open>The window of pages\<close>

text \<open>An entry of the row: a page or an ellipsis. Page numbers are integers.\<close>

datatype page_item = Pg (page_no: int) | Ellipsis

definition buildPageWindow :: "int \<Rightarrow> int \<Rightarrow> page_item list" where
  "buildPageWindow current pages =
     (if pages \<le> 7 then map Pg [1..pages]
      else
        let radius = 2;
            start = max 2 (current - radius);
            end' = min (pages - 1) (current + radius)
        in [Pg 1] @ (if 2 < start then [Ellipsis] else []) @ map Pg [start..end'] @
           (if end' < pages - 1 then [Ellipsis] else []) @ [Pg pages])"

text \<open>The toolbar: its window and the targets of the first, previous, next and last buttons, \<open>None\<close> when one is
  disabled. The web version leaves the handler out, the desktop version disables the button. The result is \<open>None\<close>
  where the page or the number of pages is not an integer, which the callers rule out.\<close>

record toolbar =
  tb_window :: "page_item list"
  tb_first :: "int option"
  tb_prev :: "int option"
  tb_next :: "int option"
  tb_last :: "int option"

fun int_of :: "jsnum \<Rightarrow> int option" where
  "int_of (Fin x) = (if of_int \<lfloor>x\<rfloor> = x then Some \<lfloor>x\<rfloor> else None)"
| "int_of n = None"

definition web_Pagination :: "jsnum \<Rightarrow> jsnum \<Rightarrow> jsnum \<Rightarrow> jsnum \<Rightarrow> toolbar option" where
  "web_Pagination page pageSize tot maxPage =
     (let tp = totalPages tot pageSize maxPage
      in case (int_of (safePage page tp), int_of tp) of
           (Some s, Some t) \<Rightarrow> Some
             \<lparr>tb_window = buildPageWindow s t,
              tb_first = (if s > 1 then Some 1 else None),
              tb_prev = (if s > 1 then Some (s - 1) else None),
              tb_next = (if s < t then Some (s + 1) else None),
              tb_last = (if s < t then Some t else None)\<rparr>
         | _ \<Rightarrow> None)"

text \<open>A click on a disabled button has no effect.\<close>

definition click :: "bool \<Rightarrow> int \<Rightarrow> int option" where
  "click disabled target = (if disabled then None else Some target)"

definition desktop_Pagination :: "jsnum \<Rightarrow> jsnum \<Rightarrow> jsnum \<Rightarrow> jsnum \<Rightarrow> toolbar option" where
  "desktop_Pagination page pageSize tot maxPage =
     (let tp = totalPages tot pageSize maxPage
      in case (int_of (safePage page tp), int_of tp) of
           (Some s, Some t) \<Rightarrow> Some
             \<lparr>tb_window = buildPageWindow s t,
              tb_first = click (s \<le> 1) 1, tb_prev = click (s \<le> 1) (s - 1),
              tb_next = click (s \<ge> t) (s + 1), tb_last = click (s \<ge> t) t\<rparr>
         | _ \<Rightarrow> None)"

section \<open>The window is right\<close>

text \<open>Adjacent pages differ by one, and an ellipsis stands for at least one page between its neighbours.\<close>

fun gapless :: "page_item list \<Rightarrow> bool" where
  "gapless [Pg a] \<longleftrightarrow> True"
| "gapless (Pg a # Pg b # r) \<longleftrightarrow> b = a + 1 \<and> gapless (Pg b # r)"
| "gapless (Pg a # Ellipsis # Pg b # r) \<longleftrightarrow> a + 1 < b \<and> gapless (Pg b # r)"
| "gapless _ \<longleftrightarrow> False"

lemma gapless_upto: "s \<le> e \<Longrightarrow> gapless (Pg e # r) \<Longrightarrow> gapless (map Pg [s..e] @ r)"
proof (induction "nat (e - s)" arbitrary: s)
  case 0
  then have "s = e" by simp
  with 0 show ?case by simp
next
  case (Suc n)
  then have s: "s < e" by simp
  then have eq: "[s..e] = s # (s + 1) # [s + 2..e]" "[s + 1..e] = (s + 1) # [s + 2..e]"
    by (simp_all add: upto_rec1 add.commute)
  have "gapless (map Pg [s + 1..e] @ r)" using Suc s by (intro Suc(1)) simp_all
  then show ?case by (simp add: eq)
qed

lemma gapless_window:
  assumes "1 \<le> current" "current \<le> pages"
  shows "gapless (buildPageWindow current pages)"
proof (cases "pages \<le> 7")
  case True
  then show ?thesis using assms gapless_upto [of 1 pages "[]"] by (simp add: buildPageWindow_def)
next
  case False
  define s e where "s = max 2 (current - 2)" and "e = min (pages - 1) (current + 2)"
  have se: "2 \<le> s" "s \<le> e" "e \<le> pages - 1" using assms False by (auto simp: s_def e_def)
  have "gapless (Pg e # (if e < pages - 1 then [Ellipsis] else []) @ [Pg pages])"
    using se by auto
  from gapless_upto [OF se(2) this]
  have tail: "gapless (map Pg [s..e] @ (if e < pages - 1 then [Ellipsis] else []) @ [Pg pages])" .
  moreover obtain r where r: "map Pg [s..e] @ (if e < pages - 1 then [Ellipsis] else []) @ [Pg pages] = Pg s # r"
    using se by (simp add: upto_rec1)
  ultimately have "gapless ([Pg 1] @ (if 2 < s then [Ellipsis] else []) @ Pg s # r)" using se by auto
  with r False show ?thesis by (simp add: buildPageWindow_def s_def e_def Let_def)
qed

section \<open>The number of pages is exact\<close>

text \<open>A quotient that is not an integer is at least \<open>1 / n\<close> away from the next ones, so an error below that keeps its
  ceiling.\<close>

lemma ceiling_quotient_near:
  fixes d :: rat
  assumes n: "0 < n" and no: "(of_int t :: rat) / of_int n \<noteq> of_int \<lceil>(of_int t :: rat) / of_int n\<rceil>"
    and near: "\<bar>d - of_int t / of_int n\<bar> < 1 / of_int n"
  shows "\<lceil>d\<rceil> = \<lceil>(of_int t :: rat) / of_int n\<rceil>"
proof -
  define c where "c = \<lceil>(of_int t :: rat) / of_int n\<rceil>"
  have r: "0 < (of_int n :: rat)" using n by simp
  have c: "of_int (c - 1) < (of_int t :: rat) / of_int n" "(of_int t :: rat) / of_int n < of_int c"
    using no ceiling_correct [of "(of_int t :: rat) / of_int n"] by (auto simp: c_def less_le)
  have "of_int ((c - 1) * n) < (of_int t :: rat)" "(of_int t :: rat) < of_int (c * n)"
    using c r by (simp_all add: pos_less_divide_eq pos_divide_less_eq)
  then have "(c - 1) * n + 1 \<le> t" "t + 1 \<le> c * n" unfolding of_int_less_iff by simp_all
  then have "(of_int ((c - 1) * n + 1) :: rat) \<le> of_int t" "(of_int (t + 1) :: rat) \<le> of_int (c * n)"
    unfolding of_int_le_iff by simp_all
  then have "of_int (c - 1) \<le> (of_int t :: rat) / of_int n - 1 / of_int n"
    "(of_int t :: rat) / of_int n + 1 / of_int n \<le> of_int c"
    using r by (simp_all add: add_divide_distrib [symmetric] diff_divide_distrib [symmetric] pos_divide_le_eq pos_le_divide_eq distrib_right)
  with near have "of_int (c - 1) < d" "d \<le> of_int c" by (simp_all add: abs_less_iff)
  then show ?thesis unfolding c_def [symmetric] by (intro ceiling_unique) simp_all
qed

lemma quotient_ceiling_small:
  assumes "0 \<le> t" "1 \<le> n" "n \<le> 10 ^ 6" and small: "(of_int t :: rat) / of_int n < 1024"
  shows "\<exists>d. round_double (of_int t / of_int n) = Fin d \<and> \<lceil>d\<rceil> = \<lceil>(of_int t :: rat) / of_int n\<rceil>"
proof (cases "(of_int t :: rat) / of_int n = of_int \<lceil>(of_int t :: rat) / of_int n\<rceil>")
  case True
  define c where "c = \<lceil>(of_int t :: rat) / of_int n\<rceil>"
  have q: "(of_int t :: rat) / of_int n = of_int c" using True unfolding c_def .
  have "0 \<le> (of_int t :: rat) / of_int n" using assms by simp
  with small have "(of_int 0 :: rat) \<le> of_int c" "(of_int c :: rat) < of_int 1024" unfolding q by simp_all
  then have "safe c" unfolding of_int_le_iff of_int_less_iff safe_def by simp
  then show ?thesis unfolding q by simp
next
  case False
  have n: "0 < (of_int n :: rat)" "(of_int n :: rat) \<le> of_int (10 ^ 6)" using assms(2,3) by (simp, simp only: of_int_le_iff)
  have "\<bar>(of_int t :: rat) / of_int n\<bar> < 2 powi (9 + 1)" using small assms by (simp add: power_int_def)
  from round_double_err [OF this] obtain d where
    d: "round_double (of_int t / of_int n) = Fin d" "\<bar>d - of_int t / of_int n\<bar> \<le> 2 powi (9 - 53)" by auto
  have "(2::rat) powi (9 - 53) < 1 / of_int (10 ^ 6)" by (simp add: power_int_def power_one_over)
  also have "\<dots> \<le> 1 / of_int n" using n by (intro divide_left_mono) simp_all
  finally have "\<bar>d - of_int t / of_int n\<bar> < 1 / of_int n" using d(2) by (rule le_less_trans [rotated])
  moreover have "0 < n" using assms(2) by simp
  ultimately have "\<lceil>d\<rceil> = \<lceil>(of_int t :: rat) / of_int n\<rceil>" by (intro ceiling_quotient_near False)
  with d(1) show ?thesis by blast
qed

lemma quotient_ceiling:
  assumes "0 \<le> t" "t \<le> 2 ^ 53" "1 \<le> n" "n \<le> 10 ^ 6"
  shows "\<exists>q. num_ceil (num_quot (num_int t) (num_int n)) = num_int q \<and>
    min q 500 = min \<lceil>(of_int t :: rat) / of_int n\<rceil> 500"
proof (cases "(of_int t :: rat) / of_int n < 1024")
  case True
  from quotient_ceiling_small [OF assms(1,3,4) this] obtain d where
    "round_double (of_int t / of_int n) = Fin d" "\<lceil>d\<rceil> = \<lceil>(of_int t :: rat) / of_int n\<rceil>" by auto
  then show ?thesis using assms(3) by (intro exI [of _ "\<lceil>d\<rceil>"]) simp
next
  case False
  let ?x = "(of_int t :: rat) / of_int n"
  have n: "0 < (of_int n :: rat)" "1 \<le> (of_int n :: rat)" using assms(3) by simp_all
  have "(of_int t :: rat) \<le> of_int (2 ^ 53)" using assms(2) by (simp only: of_int_le_iff)
  also have "\<dots> \<le> of_int (2 ^ 53) * of_int n" using n by simp
  finally have "?x \<le> 2 ^ 53" using n by (simp add: pos_divide_le_eq)
  with False have "\<bar>?x\<bar> < 2 powi (53 + 1)" by (simp add: power_int_def)
  from round_double_err [OF this] obtain d where d: "round_double ?x = Fin d" "\<bar>d - ?x\<bar> \<le> 2 powi (53 - 53)" by auto
  with False have "1023 \<le> d" by (simp add: abs_le_iff)
  then have "500 \<le> \<lceil>d\<rceil>" by (simp add: le_ceiling_iff)
  moreover from False have "500 \<le> \<lceil>?x\<rceil>" by (simp add: le_ceiling_iff)
  ultimately show ?thesis using d(1) assms(3) by (intro exI [of _ "\<lceil>d\<rceil>"]) simp
qed

lemma totalPages_exact:
  assumes "0 \<le> t" "t \<le> 2 ^ 53" "1 \<le> n" "n \<le> 10 ^ 6"
  shows "totalPages (num_int t) (num_int n) (num_int 500) = num_int (max 1 (min \<lceil>(of_int t :: rat) / of_int n\<rceil> 500))"
proof -
  from quotient_ceiling [OF assms] obtain q where
    q: "num_ceil (num_quot (num_int t) (num_int n)) = num_int q"
       "min q 500 = min \<lceil>(of_int t :: rat) / of_int n\<rceil> 500" by blast
  have one: "Fin 1 = num_int 1" by simp
  show ?thesis unfolding totalPages_def q(1) num_min_int one num_max_int q(2) ..
qed

lemma safePage_int: "safePage (num_int p) (num_int m) = num_int (min (max p 1) m)"
proof -
  have one: "Fin 1 = num_int 1" by simp
  show ?thesis unfolding safePage_def one num_max_int num_min_int ..
qed

section \<open>Properties\<close>

text \<open>The row of pages. For a current page within range the window starts with page 1, ends with the last page,
  holds the current one and at most nine entries, and leaves out pages only at an ellipsis.\<close>

theorem window_spec:
  assumes "1 \<le> current" and "current \<le> pages"
  shows "gapless (buildPageWindow current pages) \<and> hd (buildPageWindow current pages) = Pg 1 \<and>
    last (buildPageWindow current pages) = Pg pages \<and> Pg current \<in> set (buildPageWindow current pages) \<and>
    length (buildPageWindow current pages) \<le> 9"
proof (cases "pages \<le> 7")
  case True
  with assms have "hd [1..pages] = 1" "last [1..pages] = pages" "[1..pages] \<noteq> []"
    by (simp add: upto_rec1, simp add: upto_rec2, simp)
  with True assms gapless_window [OF assms] show ?thesis by (auto simp: buildPageWindow_def hd_map last_map)
next
  case False
  then have "Pg current \<in> set (buildPageWindow current pages)"
    using assms by (cases "current = 1 \<or> current = pages") (auto simp: buildPageWindow_def Let_def)
  moreover have "length (buildPageWindow current pages) \<le> 9"
    using assms False by (auto simp: buildPageWindow_def Let_def)
  ultimately show ?thesis using False gapless_window [OF assms] by (simp add: buildPageWindow_def Let_def)
qed

theorem window_spec_witness:
  "gapless (buildPageWindow 7 20) \<and> length (buildPageWindow 7 20) \<le> 9 \<and>
   buildPageWindow 7 20 = [Pg 1, Ellipsis, Pg 5, Pg 6, Pg 7, Pg 8, Pg 9, Ellipsis, Pg 20]"
proof -
  have "buildPageWindow 7 20 = [Pg 1, Ellipsis, Pg 5, Pg 6, Pg 7, Pg 8, Pg 9, Ellipsis, Pg 20]" by code_simp
  with window_spec [of 7 20] show ?thesis by simp
qed

text \<open>C21: The toolbar. For a listing of \<open>t\<close> rows with \<open>n\<close> a page, both applications show the same toolbar, whatever
  page the address names: with \<open>m\<close> the number of pages, computed exactly although the division rounds and capped at
  500, and \<open>s\<close> the page clamped to it, the window is that of \<open>s\<close>, and every arrow leads to a page between 1 and
  \<open>m\<close> other than \<open>s\<close>.\<close>

theorem toolbar_spec:
  assumes "0 \<le> t" and "t \<le> 2 ^ 53" and "1 \<le> n" and "n \<le> 10 ^ 6"
    and m: "m = max 1 (min \<lceil>(of_int t :: rat) / of_int n\<rceil> 500)" and s: "s = min (max p 1) m"
  shows "\<exists>b. web_Pagination (num_int p) (num_int n) (num_int t) (num_int 500) = Some b \<and>
    desktop_Pagination (num_int p) (num_int n) (num_int t) (num_int 500) = Some b \<and>
    tb_window b = buildPageWindow s m \<and>
    (\<forall>q \<in> Option.these {tb_first b, tb_prev b, tb_next b, tb_last b}. 1 \<le> q \<and> q \<le> m \<and> q \<noteq> s)"
proof -
  have sm: "1 \<le> s" "s \<le> m" unfolding s m by simp_all
  have pages: "totalPages (num_int t) (num_int n) (num_int 500) = num_int m"
    unfolding m by (rule totalPages_exact [OF assms(1-4)])
  have safe: "safePage (num_int p) (num_int m) = num_int s" unfolding s by (rule safePage_int)
  show ?thesis
    unfolding web_Pagination_def desktop_Pagination_def pages Let_def safe
    using sm by (auto simp: click_def Option.these_def)
qed

theorem toolbar_spec_witness:
  "\<exists>b. web_Pagination (num_int 900) (num_int 20) (num_int 41) (num_int 500) = Some b \<and>
       desktop_Pagination (num_int 900) (num_int 20) (num_int 41) (num_int 500) = Some b \<and>
       tb_window b = [Pg 1, Pg 2, Pg 3]"
proof -
  have c: "\<lceil>(of_int 41 :: rat) / of_int 20\<rceil> = 3" by (rule ceiling_unique) simp_all
  have w: "buildPageWindow 3 3 = [Pg 1, Pg 2, Pg 3]" by code_simp
  from toolbar_spec [of 41 20 3 3 900] c w show ?thesis by (auto simp: w)
qed

end
