(* ===== verification/Desktop_Form.thy ===== *)
theory Desktop_Form
  imports Desktop_Api
begin

text \<open>
  What the configuration pages of the desktop application (\<^verbatim>\<open>desktop-ui/src/pages/Providers.tsx\<close>,
  \<^verbatim>\<open>Models.tsx\<close>, \<^verbatim>\<open>Routes.tsx\<close>) share: the submission of a form, the dialog that confirms a
  deletion (\<^verbatim>\<open>components/ui/confirm-modal.tsx\<close>), and the modal state of a page with its events.

  A handler runs to its end as one step: the state between its start and the answer of the gateway only
  disables buttons. The contract of a form is the locale \<open>save_form\<close>; each page interprets it.
\<close>

section \<open>Submitting a form\<close>

text \<open>The part of a form's state that tells how the last submission went.\<close>

record form_status =
  fs_pending :: bool
  fs_error :: "jsstr option"

text \<open>The body of \<^verbatim>\<open>try\<close>: the call, the toast of a form that has one, and the warning of the answer. An answer
  that is \<^verbatim>\<open>null\<close> makes \<^verbatim>\<open>res.warning\<close> throw.\<close>

definition save_call :: "toast option \<Rightarrow> json dact \<Rightarrow> unit dact" where
  "save_call done_toast call =
     dbind call (\<lambda>res.
     dbind (case done_toast of None \<Rightarrow> dlift (Inr ()) | Some t \<Rightarrow> show_toast t) (\<lambda>_.
     dbind (dlift (get_prop (Some res) (js ''warning''))) (\<lambda>wn.
     if truthy wn then show_toast (ToastWarning (val_String wn)) else dlift (Inr ()))))"

text \<open>\<open>checked\<close> is what the checks of \<^verbatim>\<open>onSubmit\<close> leave: a message, or the body to send. The first
  component of the result tells whether \<^verbatim>\<open>onSuccess\<close> is called.\<close>

definition submit_form :: "jsstr + json \<Rightarrow> (json \<Rightarrow> json dact) \<Rightarrow> toast option \<Rightarrow> gateway \<Rightarrow> desk \<Rightarrow>
    'f form_status_scheme \<Rightarrow> bool \<times> 'f form_status_scheme \<times> desk" where
  "submit_form checked call done_toast g d f =
     (case checked of
        Inl msg \<Rightarrow> (False, f\<lparr>fs_error := Some msg\<rparr>, d)
      | Inr body \<Rightarrow>
          (case save_call done_toast (call body) g d of
             (Inl e, d') \<Rightarrow> (False, f\<lparr>fs_error := Some (desk_error_message g e), fs_pending := False\<rparr>, d')
           | (Inr u, d') \<Rightarrow> (True, f\<lparr>fs_error := None, fs_pending := False\<rparr>, d')))"

section \<open>The contract of a form\<close>

text \<open>A submission reports what happened: it succeeds exactly when no error is left, at most one request is sent, a
  success has one that the gateway accepted, the draft is kept, and the outcome of an earlier submission has no
  influence.\<close>

locale save_form =
  fixes submit :: "gateway \<Rightarrow> desk \<Rightarrow> 'f form_status_scheme \<Rightarrow> bool \<times> 'f form_status_scheme \<times> desk"
  assumes reported: "submit g d f = (ok, f', d') \<Longrightarrow> ok \<longleftrightarrow> fs_error f' = None"
    and requests: "submit g d f = (ok, f', d') \<Longrightarrow> dk_sent d' = dk_sent d \<or> (\<exists>q. dk_sent d' = dk_sent d @ [q])"
    and accepted: "submit g d f = (True, f', d') \<Longrightarrow>
      \<exists>q r. dk_sent d' = dk_sent d @ [q] \<and> gw_fetch g (dk_sent d') = DResp r \<and> resp_ok r"
    and draft_kept: "submit g d f = (ok, f', d') \<Longrightarrow> \<exists>e b. f' = f\<lparr>fs_error := e, fs_pending := b\<rparr>"
    and status_free: "fst (submit g d (f\<lparr>fs_error := e, fs_pending := b\<rparr>)) = fst (submit g d f) \<and>
      snd (snd (submit g d (f\<lparr>fs_error := e, fs_pending := b\<rparr>))) = snd (snd (submit g d f))"
begin

text \<open>Together: what a user is told is what happened.\<close>

lemma outcome:
  assumes "submit g d f = (ok, f', d')"
  shows "(ok \<longleftrightarrow> fs_error f' = None) \<and> (\<exists>e b. f' = f\<lparr>fs_error := e, fs_pending := b\<rparr>) \<and>
    length (dk_sent d') \<le> Suc (length (dk_sent d)) \<and>
    (ok \<longrightarrow> (\<exists>q r. dk_sent d' = dk_sent d @ [q] \<and> gw_fetch g (dk_sent d') = DResp r \<and> resp_ok r))"
  using reported [OF assms] requests [OF assms] draft_kept [OF assms] accepted [of g d f f' d'] assms by auto

text \<open>A refusal is shown and the form stays open.\<close>

lemma refusal_shown:
  assumes "submit g d f = (ok, f', d')" and "gw_fetch g (dk_sent d') = DResp r" and "\<not> resp_ok r"
  shows "\<not> ok \<and> (\<exists>m. fs_error f' = Some m)"
  using assms accepted [of g d f f' d'] reported [OF assms(1)] by (cases ok) auto

text \<open>Submitting again after a failure is submitting the same draft.\<close>

lemma retry:
  assumes "submit g d f = (False, f', d')"
  shows "fst (submit g d' f') = fst (submit g d' f) \<and> snd (snd (submit g d' f')) = snd (snd (submit g d' f))"
  using draft_kept [OF assms] status_free by blast

end

text \<open>Toasts leave the requests alone.\<close>

lemma save_call_sent: "dk_sent (snd (save_call t call g d)) = dk_sent (snd (call g d))"
  by (auto simp: save_call_def dbind_def show_toast_def split: prod.splits sum.splits option.splits)

lemma save_call_Inr: "save_call t call g d = (Inr u, d') \<Longrightarrow> \<exists>v d1. call g d = (Inr v, d1)"
  by (auto simp: save_call_def dbind_def split: prod.splits sum.splits)

text \<open>A form whose checks do not read the status and whose calls keep the contract of a call keeps that of a form.\<close>

lemma save_form_intro:
  assumes call: "\<And>f body. api_call (call f body)"
    and free: "\<And>f e b. check (f\<lparr>fs_error := e, fs_pending := b\<rparr>) = check f"
      "\<And>f e b body. call (f\<lparr>fs_error := e, fs_pending := b\<rparr>) body = call f body"
  shows "save_form (\<lambda>g d f. submit_form (check f) (call f) (done_toast :: toast option) g d f)"
proof
  fix g d f ok f' d'
  assume run: "submit_form (check f) (call f) done_toast g d f = (ok, f', d')"
  show "ok \<longleftrightarrow> fs_error f' = None"
    using run by (auto simp: submit_form_def split: sum.splits prod.splits)
  have "dk_sent d' = dk_sent d \<or> (\<exists>body. dk_sent d' = dk_sent (snd (call f body g d)))"
    using run by (auto simp: submit_form_def save_call_sent [symmetric] split: sum.splits prod.splits)
       (metis save_call_sent snd_conv)+
  then show "dk_sent d' = dk_sent d \<or> (\<exists>q. dk_sent d' = dk_sent d @ [q])"
    using api_call.one_request [OF call] by (metis prod.collapse)
  show "\<exists>e b. f' = f\<lparr>fs_error := e, fs_pending := b\<rparr>"
  proof
    show "\<exists>b. f' = f\<lparr>fs_error := fs_error f', fs_pending := b\<rparr>"
      using run by (intro exI [of _ "fs_pending f'"]) (auto simp: submit_form_def split: sum.splits prod.splits)
  qed
next
  fix g d f f' d'
  assume run: "submit_form (check f) (call f) done_toast g d f = (True, f', d')"
  then obtain body u where "save_call done_toast (call f body) g d = (Inr u, d')"
    by (auto simp: submit_form_def split: sum.splits prod.splits)
  with save_call_Inr [OF this] save_call_sent [of done_toast "call f body" g d]
  obtain v d1 where "call f body g d = (Inr v, d1)" "dk_sent d' = dk_sent d1" by auto
  then show "\<exists>q r. dk_sent d' = dk_sent d @ [q] \<and> gw_fetch g (dk_sent d') = DResp r \<and> resp_ok r"
    using api_call.answered [OF call] by metis
next
  fix g d f e b
  show "fst (submit_form (check (f\<lparr>fs_error := e, fs_pending := b\<rparr>)) (call (f\<lparr>fs_error := e, fs_pending := b\<rparr>))
          done_toast g d (f\<lparr>fs_error := e, fs_pending := b\<rparr>)) = fst (submit_form (check f) (call f) done_toast g d f) \<and>
        snd (snd (submit_form (check (f\<lparr>fs_error := e, fs_pending := b\<rparr>)) (call (f\<lparr>fs_error := e, fs_pending := b\<rparr>))
          done_toast g d (f\<lparr>fs_error := e, fs_pending := b\<rparr>))) = snd (snd (submit_form (check f) (call f) done_toast g d f))"
    by (simp add: free submit_form_def split: sum.splits prod.splits)
qed

text \<open>The request of a submission: none while the checks fail, otherwise that of the call. Every page saves with one
  of two shapes of call.\<close>

lemma submit_sent:
  "dk_sent (snd (snd (submit_form checked call t g d f))) =
     (case checked of Inl msg \<Rightarrow> dk_sent d | Inr body \<Rightarrow> dk_sent (snd (call body g d)))"
proof (cases checked)
  case (Inr body)
  then have "dk_sent (snd (snd (submit_form checked call t g d f))) = dk_sent (snd (save_call t (call body) g d))"
    by (auto simp: submit_form_def split: prod.splits sum.splits)
  then show ?thesis using Inr by (simp add: save_call_sent)
qed (simp add: submit_form_def)

definition put_call :: "jsstr \<Rightarrow> jsstr \<Rightarrow> json \<Rightarrow> json dact" where
  "put_call dir name body = with_segment dir name (\<lambda>path. sendJSON D_PUT path (Some body))"

lemma put_call_sent:
  "dk_sent (snd (put_call dir name body g d)) =
     (case encodeURIComponent name of
        Inl e \<Rightarrow> dk_sent d
      | Inr seg \<Rightarrow> dk_sent d @ [\<lparr>dr_method = D_PUT, dr_path = BASE @ dir @ seg, dr_params = [], dr_body = Some (stringify body)\<rparr>])"
  by (auto simp: put_call_def with_segment_def dbind_def sendJSON_run Let_def split: sum.splits dfetch.splits)

lemma post_call_sent:
  "dk_sent (snd (sendJSON D_POST path (Some body) g d)) =
     dk_sent d @ [\<lparr>dr_method = D_POST, dr_path = BASE @ path, dr_params = [], dr_body = Some (stringify body)\<rparr>]"
  by (auto simp: sendJSON_run Let_def split: dfetch.splits)

section \<open>Pages with modals\<close>

record confirm =
  cf_pending :: bool
  cf_error :: "jsstr option"

definition fresh_confirm :: confirm where
  "fresh_confirm = \<lparr>cf_pending = False, cf_error = None\<rparr>"

text \<open>The state of a page that its modals and its list share. The dialog that confirms a deletion stays mounted
  while it is closed, so its state is part of the page.\<close>

record config_page =
  cp_rows :: json
  cp_loading :: bool
  cp_error :: "jsstr option"
  cp_createOpen :: bool
  cp_editRow :: "json option"
  cp_deleting :: "jsstr option"
  cp_confirm :: confirm

definition fresh_page :: config_page where
  "fresh_page = \<lparr>cp_rows = JArr [], cp_loading = True, cp_error = None, cp_createOpen = False, cp_editRow = None,
     cp_deleting = None, cp_confirm = fresh_confirm\<rparr>"

text \<open>\<^verbatim>\<open>Promise.all\<close> sends every request before it waits; it is rejected with the rejection that arrives first,
  which \<open>first\<close> chooses among them.\<close>

definition first_rejection :: "nat \<Rightarrow> jserror list \<Rightarrow> jserror" where
  "first_rejection first es = es ! (first mod length es)"

definition rejections :: "json res list \<Rightarrow> jserror list" where
  "rejections rs = concat (map (\<lambda>r. case r of Inl e \<Rightarrow> [e] | Inr v \<Rightarrow> []) rs)"

text \<open>While a page loads it shows placeholders, which unmounts the dialog and forgets its state.\<close>

definition start_load :: "'p config_page_scheme \<Rightarrow> 'p config_page_scheme" where
  "start_load p = p\<lparr>cp_loading := True, cp_confirm := fresh_confirm\<rparr>"

definition load_failed :: "gateway \<Rightarrow> jserror \<Rightarrow> 'p config_page_scheme \<Rightarrow> 'p config_page_scheme" where
  "load_failed g e p = p\<lparr>cp_error := Some (desk_error_message g e), cp_loading := False\<rparr>"

text \<open>\<^verbatim>\<open>handleConfirm\<close> with the page's \<^verbatim>\<open>onConfirm\<close>: the call, then the reload of the list, then the dialog is
  closed; a failure stays in the dialog.\<close>

definition handleConfirm :: "(jsstr \<Rightarrow> json dact) \<Rightarrow> (gateway \<Rightarrow> desk \<Rightarrow> 'p config_page_scheme \<Rightarrow> 'p config_page_scheme \<times> desk) \<Rightarrow>
    gateway \<Rightarrow> desk \<Rightarrow> 'p config_page_scheme \<Rightarrow> 'p config_page_scheme \<times> desk" where
  "handleConfirm del load g d p =
     (case cp_deleting p of
        None \<Rightarrow> (p\<lparr>cp_confirm := fresh_confirm\<rparr>, d)
      | Some n \<Rightarrow>
          (case del n g d of
             (Inl e, d') \<Rightarrow> (p\<lparr>cp_confirm := \<lparr>cf_pending = False, cf_error = Some (desk_error_message g e)\<rparr>\<rparr>, d')
           | (Inr v, d') \<Rightarrow> load g d' (p\<lparr>cp_deleting := None\<rparr>)))"

datatype page_event =
    OpenCreate | CloseCreate | OpenEdit json | CloseEdit
  | AskDelete jsstr | CancelDelete | ConfirmDelete
  | Created | Edited

text \<open>The handlers the page gives to its buttons and modals; \<open>Created\<close> and \<open>Edited\<close> are the \<^verbatim>\<open>onSuccess\<close> of
  the two forms.\<close>

fun page_step :: "(jsstr \<Rightarrow> json dact) \<Rightarrow> (gateway \<Rightarrow> desk \<Rightarrow> 'p config_page_scheme \<Rightarrow> 'p config_page_scheme \<times> desk) \<Rightarrow>
    gateway \<Rightarrow> page_event \<Rightarrow> 'p config_page_scheme \<times> desk \<Rightarrow> 'p config_page_scheme \<times> desk" where
  "page_step del load g OpenCreate (p, d) = (p\<lparr>cp_createOpen := True\<rparr>, d)"
| "page_step del load g CloseCreate (p, d) = (p\<lparr>cp_createOpen := False\<rparr>, d)"
| "page_step del load g (OpenEdit row) (p, d) = (p\<lparr>cp_editRow := Some row\<rparr>, d)"
| "page_step del load g CloseEdit (p, d) = (p\<lparr>cp_editRow := None\<rparr>, d)"
| "page_step del load g (AskDelete n) (p, d) = (p\<lparr>cp_deleting := Some n\<rparr>, d)"
| "page_step del load g CancelDelete (p, d) = (p\<lparr>cp_deleting := None\<rparr>, d)"
| "page_step del load g ConfirmDelete (p, d) = handleConfirm del load g d p"
| "page_step del load g Created (p, d) = load g d (p\<lparr>cp_createOpen := False\<rparr>)"
| "page_step del load g Edited (p, d) = load g d (p\<lparr>cp_editRow := None\<rparr>)"

definition page_run :: "(jsstr \<Rightarrow> json dact) \<Rightarrow> (gateway \<Rightarrow> desk \<Rightarrow> 'p config_page_scheme \<Rightarrow> 'p config_page_scheme \<times> desk) \<Rightarrow>
    gateway \<Rightarrow> page_event list \<Rightarrow> 'p config_page_scheme \<times> desk \<Rightarrow> 'p config_page_scheme \<times> desk" where
  "page_run del load g es s = fold (page_step del load g) es s"

section \<open>The contract of a page\<close>

text \<open>A page loads by reading only: every request of a load is a GET, the modals stay as they are, and the load
  ends.\<close>

locale config_page_load =
  fixes load :: "gateway \<Rightarrow> desk \<Rightarrow> 'p config_page_scheme \<Rightarrow> 'p config_page_scheme \<times> desk"
    and del :: "jsstr \<Rightarrow> json dact"
  assumes load_reads: "load g d p = (p', d') \<Longrightarrow>
      \<exists>qs. dk_sent d' = dk_sent d @ qs \<and> (\<forall>q \<in> set qs. dr_method q = D_GET)"
    and load_modals: "load g d p = (p', d') \<Longrightarrow> \<not> cp_loading p' \<and> cp_createOpen p' = cp_createOpen p \<and>
      cp_editRow p' = cp_editRow p \<and> cp_deleting p' = cp_deleting p \<and> cp_confirm p' = fresh_confirm"
    and del_one: "del n g d = (r, d') \<Longrightarrow> dk_sent d' = dk_sent d \<or> (\<exists>q. dk_sent d' = dk_sent d @ [q])"
    and del_answered: "del n g d = (Inr v, d') \<Longrightarrow>
      \<exists>q r. dk_sent d' = dk_sent d @ [q] \<and> gw_fetch g (dk_sent d') = DResp r \<and> resp_ok r"
begin

text \<open>The events of a page write only by a confirmed deletion.\<close>

lemma step_reads:
  assumes "page_step del load g ev (p, d) = (p', d')" and "ev \<noteq> ConfirmDelete"
  shows "\<exists>qs. dk_sent d' = dk_sent d @ qs \<and> (\<forall>q \<in> set qs. dr_method q = D_GET)"
  using assms load_reads by (cases ev) auto

text \<open>A confirmation closes the dialog exactly when the gateway accepted the deletion, or when there was nothing to
  delete; otherwise the dialog stays on the same row, with an error.\<close>

lemma confirm_outcome:
  assumes "page_step del load g ConfirmDelete (p, d) = (p', d')" and "cp_deleting p = Some n"
  shows "(\<exists>v d1. del n g d = (Inr v, d1) \<and> cp_deleting p' = None \<and> cp_confirm p' = fresh_confirm) \<or>
    (\<exists>e. fst (del n g d) = Inl e \<and> p' = p\<lparr>cp_confirm := \<lparr>cf_pending = False, cf_error = Some (desk_error_message g e)\<rparr>\<rparr>)"
  using assms load_modals by (auto simp: handleConfirm_def split: prod.splits sum.splits)

end

lemma api_reads:
  assumes "getJSON path ps g d = (r, d')"
  shows "\<exists>q. dk_sent d' = dk_sent d @ [q] \<and> dr_method q = D_GET"
  using assms by (auto simp: getJSON_run Let_def split: dfetch.splits)

end
