(* ===== verification/Desktop_Providers.thy ===== *)
theory Desktop_Providers
  imports Desktop_Form Desktop_Format
begin

text \<open>
  The providers page of the desktop application (\<^verbatim>\<open>desktop-ui/src/pages/Providers.tsx\<close>): loading the list with
  the health of the endpoints, the health badges, and the form that creates and edits a provider.

  \<^verbatim>\<open>crypto.randomUUID\<close> is a parameter: \<open>uuid n\<close> is the identifier of the \<open>n\<close>-th row the form makes. That
  two calls give different identifiers is the hypothesis \<open>inj uuid\<close> where a statement needs it.
\<close>

section \<open>Providers\<close>

definition PRESET_BRANDS :: "jsstr list" where
  "PRESET_BRANDS = map js [''openai'', ''tencent'', ''zhipu'', ''anthropic'', ''google'', ''azure'', ''deepseek'', ''bedrock'']"

definition CUSTOM_TYPE :: jsstr where
  "CUSTOM_TYPE = js ''_custom_''"

definition DEFAULT_TIMEOUTS :: json where
  "DEFAULT_TIMEOUTS = JObj [(js ''connect'', JNum (Fin 5000000000)), (js ''first_byte'', JNum (Fin 120000000000)),
     (js ''overall'', JNum (Fin 300000000000))]"

definition DEFAULT_WEIGHT :: json where
  "DEFAULT_WEIGHT = JNum (Fin 100)"

definition PLAIN_REF_PREFIX :: jsstr where
  "PLAIN_REF_PREFIX = js ''plain://''"

text \<open>The interfaces of \<^verbatim>\<open>lib/types.ts\<close>. The form hands the timeouts and the weight on without reading them, so
  they are any value; \<open>None\<close> is a missing field. A missing list of endpoints reads as an empty one.\<close>

record ProviderEndpoint =
  ep_id :: "jsstr option"
  ep_adapter :: jsstr
  ep_base_url :: jsstr
  ep_timeouts :: jsval

record Provider =
  pv_name :: jsstr
  pv_type :: jsstr
  pv_endpoints :: "ProviderEndpoint list"
  pv_api_key_ref :: jsstr
  pv_timeouts :: jsval
  pv_weight :: jsval

section \<open>The form\<close>

record EndpointRow =
  er_key :: jsstr
  er_id :: jsstr
  er_adapter :: jsstr
  er_base_url :: jsstr

datatype CredMode = Cred_ref | Cred_key

record provider_form = form_status +
  pf_name :: jsstr
  pf_typeSelect :: jsstr
  pf_customType :: jsstr
  pf_endpoints :: "EndpointRow list"
  pf_credMode :: CredMode
  pf_apiKeyRef :: jsstr
  pf_apiKey :: jsstr
  pf_uuids :: nat

definition newEndpointRow :: "jsstr \<Rightarrow> EndpointRow" where
  "newEndpointRow key = \<lparr>er_key = key, er_id = [], er_adapter = js ''openai'', er_base_url = []\<rparr>"

definition endpointToRow :: "jsstr \<Rightarrow> ProviderEndpoint \<Rightarrow> EndpointRow" where
  "endpointToRow key ep =
     \<lparr>er_key = key, er_id = (case ep_id ep of None \<Rightarrow> [] | Some i \<Rightarrow> i), er_adapter = ep_adapter ep,
      er_base_url = ep_base_url ep\<rparr>"

text \<open>The initial state: \<open>dv\<close> is the provider that is edited, \<open>None\<close> when one is created.\<close>

definition dv_type :: "Provider option \<Rightarrow> jsstr" where
  "dv_type dv = (case dv of None \<Rightarrow> [] | Some p \<Rightarrow> pv_type p)"

definition dv_api_key_ref :: "Provider option \<Rightarrow> jsstr" where
  "dv_api_key_ref dv = (case dv of None \<Rightarrow> [] | Some p \<Rightarrow> pv_api_key_ref p)"

definition dv_endpoints :: "Provider option \<Rightarrow> ProviderEndpoint list" where
  "dv_endpoints dv = (case dv of None \<Rightarrow> [] | Some p \<Rightarrow> pv_endpoints p)"

definition ProviderForm_init :: "(nat \<Rightarrow> jsstr) \<Rightarrow> Provider option \<Rightarrow> provider_form" where
  "ProviderForm_init uuid dv =
     (let dvType = dv_type dv;
          dvIsPreset = dvType \<in> set PRESET_BRANDS;
          dvApiKeyRef = dv_api_key_ref dv;
          rows = (if dv_endpoints dv \<noteq> [] then map2 endpointToRow (map uuid [0..<length (dv_endpoints dv)]) (dv_endpoints dv)
                  else [newEndpointRow (uuid 0)])
      in \<lparr>fs_pending = False, fs_error = None,
          pf_name = (case dv of None \<Rightarrow> [] | Some p \<Rightarrow> pv_name p),
          pf_typeSelect = (if dvIsPreset then dvType else if dvType \<noteq> [] then CUSTOM_TYPE else []),
          pf_customType = (if \<not> dvIsPreset \<and> dvType \<noteq> [] then dvType else []),
          pf_endpoints = rows,
          pf_credMode = (if js_startsWith dvApiKeyRef PLAIN_REF_PREFIX then Cred_key else Cred_ref),
          pf_apiKeyRef = (if js_startsWith dvApiKeyRef PLAIN_REF_PREFIX then [] else dvApiKeyRef),
          pf_apiKey = [],
          pf_uuids = length rows\<rparr>)"

text \<open>The inputs of the form. An input that is disabled or not shown has no event, so such an edit leaves the form
  as it is: the name of a stored provider, the custom type outside the custom brand, the remove button of the only
  endpoint, the credential input of the other mode. A select offers its options only.\<close>

datatype provider_edit =
    SetName jsstr | SetType jsstr | SetCustomType jsstr
  | SetAdapter jsstr jsstr | SetBaseUrl jsstr jsstr | RemoveEndpoint jsstr | AddEndpoint
  | SetCredMode CredMode | SetApiKeyRef jsstr | SetApiKey jsstr

definition patch_endpoint :: "jsstr \<Rightarrow> (EndpointRow \<Rightarrow> EndpointRow) \<Rightarrow> EndpointRow list \<Rightarrow> EndpointRow list" where
  "patch_endpoint key f arr = map (\<lambda>x. if er_key x = key then f x else x) arr"

fun edit_provider :: "(nat \<Rightarrow> jsstr) \<Rightarrow> Provider option \<Rightarrow> provider_edit \<Rightarrow> provider_form \<Rightarrow> provider_form" where
  "edit_provider uuid dv (SetName v) f = (if dv = None then f\<lparr>pf_name := v\<rparr> else f)"
| "edit_provider uuid dv (SetType v) f = (if v \<in> set (PRESET_BRANDS @ [CUSTOM_TYPE]) then f\<lparr>pf_typeSelect := v\<rparr> else f)"
| "edit_provider uuid dv (SetCustomType v) f = (if pf_typeSelect f = CUSTOM_TYPE then f\<lparr>pf_customType := v\<rparr> else f)"
| "edit_provider uuid dv (SetAdapter k v) f =
     (if v \<in> {js ''openai'', js ''claude''}
      then f\<lparr>pf_endpoints := patch_endpoint k (\<lambda>x. x\<lparr>er_adapter := v\<rparr>) (pf_endpoints f)\<rparr> else f)"
| "edit_provider uuid dv (SetBaseUrl k v) f =
     f\<lparr>pf_endpoints := patch_endpoint k (\<lambda>x. x\<lparr>er_base_url := v\<rparr>) (pf_endpoints f)\<rparr>"
| "edit_provider uuid dv (RemoveEndpoint k) f =
     (if length (pf_endpoints f) > 1
      then f\<lparr>pf_endpoints := filter (\<lambda>x. er_key x \<noteq> k) (pf_endpoints f)\<rparr> else f)"
| "edit_provider uuid dv AddEndpoint f =
     f\<lparr>pf_endpoints := pf_endpoints f @ [newEndpointRow (uuid (pf_uuids f))], pf_uuids := Suc (pf_uuids f)\<rparr>"
| "edit_provider uuid dv (SetCredMode m) f = f\<lparr>pf_credMode := m\<rparr>"
| "edit_provider uuid dv (SetApiKeyRef v) f = (if pf_credMode f = Cred_ref then f\<lparr>pf_apiKeyRef := v\<rparr> else f)"
| "edit_provider uuid dv (SetApiKey v) f = (if pf_credMode f = Cred_key then f\<lparr>pf_apiKey := v\<rparr> else f)"

definition edits_provider :: "(nat \<Rightarrow> jsstr) \<Rightarrow> Provider option \<Rightarrow> provider_edit list \<Rightarrow> provider_form" where
  "edits_provider uuid dv es = fold (edit_provider uuid dv) es (ProviderForm_init uuid dv)"

section \<open>Submitting\<close>

definition provider_typeValue :: "provider_form \<Rightarrow> jsstr" where
  "provider_typeValue f = (if pf_typeSelect f = CUSTOM_TYPE then js_trim (pf_customType f) else pf_typeSelect f)"

definition provider_ref :: "Provider option \<Rightarrow> provider_form \<Rightarrow> jsstr" where
  "provider_ref dv f =
     (if pf_credMode f = Cred_ref then js_trim (pf_apiKeyRef f)
      else if pf_apiKey f \<noteq> [] then PLAIN_REF_PREFIX @ pf_apiKey f
      else dv_api_key_ref dv)"

definition endpoint_body :: "EndpointRow \<Rightarrow> json" where
  "endpoint_body ep =
     JObj ((if er_id ep \<noteq> [] then [(js ''id'', JStr (er_id ep))] else []) @
           [(js ''adapter'', JStr (er_adapter ep)), (js ''base_url'', JStr (js_trim (er_base_url ep)))])"

text \<open>The checks of \<^verbatim>\<open>onSubmit\<close> and the body it builds.\<close>

definition incomplete_provider :: jsstr where
  "incomplete_provider = [0x8BF7, 0x5B8C, 0x6574, 0x586B, 0x5199, 0x540D, 0x79F0, 0x3001, 0x7C7B, 0x578B, 0x4E0E, 0x51ED,
     0x8BC1, 0x3002]"

definition no_endpoint :: jsstr where
  "no_endpoint = [0x81F3, 0x5C11, 0x9700, 0x8981, 0x4E00, 0x4E2A, 0x7AEF, 0x70B9, 0x3002]"

definition incomplete_endpoint :: jsstr where
  "incomplete_endpoint = [0x6BCF, 0x4E2A, 0x7AEF, 0x70B9, 0x90FD, 0x9700, 0x8981, 0x9009, 0x62E9, 0x534F, 0x8BAE, 0x5E76,
     0x586B, 0x5199, 0x57FA, 0x7840, 0x20, 0x55, 0x52, 0x4C, 0x3002]"

definition provider_body :: "Provider option \<Rightarrow> provider_form \<Rightarrow> jsstr + json" where
  "provider_body dv f =
     (if js_trim (pf_name f) = [] \<or> provider_typeValue f = [] \<or> provider_ref dv f = [] then Inl incomplete_provider
      else if length (pf_endpoints f) = 0 then Inl no_endpoint
      else if \<exists>ep \<in> set (pf_endpoints f). er_adapter ep = [] \<or> js_trim (er_base_url ep) = [] then Inl incomplete_endpoint
      else Inr (JObj
        [(js ''timeouts'', coalesce (Option.bind dv pv_timeouts) DEFAULT_TIMEOUTS),
         (js ''weight'', coalesce (Option.bind dv pv_weight) DEFAULT_WEIGHT),
         (js ''name'', JStr (js_trim (pf_name f))),
         (js ''type'', JStr (provider_typeValue f)),
         (js ''endpoints'', JArr (map endpoint_body (pf_endpoints f))),
         (js ''api_key_ref'', JStr (provider_ref dv f))]))"

definition provider_call :: "Provider option \<Rightarrow> provider_form \<Rightarrow> json \<Rightarrow> json dact" where
  "provider_call dv f body =
     (if dv \<noteq> None then desktop_updateProvider (js_trim (pf_name f)) body else desktop_createProvider body)"

definition provider_done :: "Provider option \<Rightarrow> toast" where
  "provider_done dv = ToastSuccess
     (if dv \<noteq> None then [0x4F9B, 0x5E94, 0x5546, 0x5DF2, 0x66F4, 0x65B0, 0x3002]
      else [0x4F9B, 0x5E94, 0x5546, 0x5DF2, 0x521B, 0x5EFA, 0x3002])"

definition ProviderForm_onSubmit :: "Provider option \<Rightarrow> gateway \<Rightarrow> desk \<Rightarrow> provider_form \<Rightarrow> bool \<times> provider_form \<times> desk" where
  "ProviderForm_onSubmit dv g d f =
     submit_form (provider_body dv f) (provider_call dv f) (Some (provider_done dv)) g d f"

section \<open>Loading the page\<close>

text \<open>\<^verbatim>\<open>for (const h of v)\<close>: an array gives its elements, a string its code points; anything else throws.\<close>

fun code_points :: "jsstr \<Rightarrow> jsstr list" where
  "code_points (h # l # r) = (if is_high h \<and> is_low l then [h, l] # code_points r else [h] # code_points (l # r))"
| "code_points [h] = [[h]]"
| "code_points [] = []"

fun iterate :: "json \<Rightarrow> json list res" where
  "iterate (JArr vs) = Inr vs"
| "iterate (JStr s) = Inr (map JStr (code_points s))"
| "iterate v = Inl TypeError"

text \<open>The map from provider names to the health of their endpoints, built by the loop.\<close>

type_synonym health_map = "jsval \<Rightarrow> json list option"

fun group_health :: "json list \<Rightarrow> health_map \<Rightarrow> health_map res" where
  "group_health [] m = Inr m"
| "group_health (h # hs) m =
     rbind (get_prop (Some h) (js ''provider'')) (\<lambda>k.
       group_health hs (m(k \<mapsto> (case m k of None \<Rightarrow> [] | Some l \<Rightarrow> l) @ [h])))"

record providers_page = config_page +
  pp_healthMap :: health_map

definition Providers_init :: providers_page where
  "Providers_init = config_page.extend fresh_page \<lparr>pp_healthMap = Map.empty\<rparr>"

text \<open>The rows are shown even when the health cannot be grouped; a failed read of the health counts as none.\<close>

definition Providers_load :: "gateway \<Rightarrow> desk \<Rightarrow> providers_page \<Rightarrow> providers_page \<times> desk" where
  "Providers_load g d p0 =
     (let p = start_load p0;
          (r1, d1) = listProviders g d;
          (r2, d2) = getProviderHealth g d1;
          health = (case r2 of Inl e \<Rightarrow> JArr [] | Inr h \<Rightarrow> h)
      in (case r1 of
            Inl e \<Rightarrow> load_failed g e p
          | Inr r \<Rightarrow>
              (case rbind (iterate health) (\<lambda>hs. group_health hs Map.empty) of
                 Inl e \<Rightarrow> load_failed g e (p\<lparr>cp_rows := r\<rparr>)
               | Inr m \<Rightarrow> p\<lparr>cp_rows := r, pp_healthMap := m, cp_error := None, cp_loading := False\<rparr>), d2))"

definition Providers_step :: "gateway \<Rightarrow> page_event \<Rightarrow> providers_page \<times> desk \<Rightarrow> providers_page \<times> desk" where
  "Providers_step = page_step desktop_deleteProvider Providers_load"

text \<open>What a row of the table is given.\<close>

definition row_health :: "providers_page \<Rightarrow> jsval \<Rightarrow> json list" where
  "row_health p name = (case pp_healthMap p name of None \<Rightarrow> [] | Some l \<Rightarrow> l)"

definition adapter_label :: "jsstr \<Rightarrow> jsstr" where
  "adapter_label a = (if a = js ''claude'' then js ''Anthropic'' else if a = js ''openai'' then js ''OpenAI'' else a)"

text \<open>The cells of a row: name, type and the labelled endpoints, \<open>None\<close> where a dash is shown.\<close>

definition provider_row :: "Provider \<Rightarrow> jsstr \<times> jsstr \<times> (jsstr \<times> jsstr) list option" where
  "provider_row p = (pv_name p, pv_type p,
     if length (pv_endpoints p) > 0 then Some (map (\<lambda>ep. (adapter_label (ep_adapter ep), ep_base_url ep)) (pv_endpoints p)) else None)"

section \<open>Health badges\<close>

record EndpointHealth =
  eh_breaker_state :: jsstr
  eh_attempted :: jsnum
  eh_selected :: jsnum
  eh_avg_duration_ms :: jsnum
  eh_last_seen :: "jsstr option"

record badge =
  bd_label :: jsstr
  bd_color :: jsstr
  bd_successRate :: "jsnum option"
  bd_duration :: "jsstr option"
  bd_lastSeen :: "jsstr option"

definition successRate :: "EndpointHealth \<Rightarrow> jsnum option" where
  "successRate h =
     (if num_lt (Fin 0) (eh_attempted h)
      then Some (num_round (num_mul (num_quot (eh_selected h) (eh_attempted h)) (Fin 100))) else None)"

definition health_badge :: "(jsstr \<Rightarrow> jsstr) \<Rightarrow> EndpointHealth \<Rightarrow> badge" where
  "health_badge formatTimeShort h =
     (let st = eh_breaker_state h in
      \<lparr>bd_label = (if st = js ''closed'' then [0x5065, 0x5EB7] else if st = js ''open'' then [0x7194, 0x65AD]
                   else if st = js ''half-open'' then [0x534A, 0x5F00] else [0x672A, 0x77E5]),
       bd_color = (if st = js ''closed'' then js ''bg-success/10 text-success''
                   else if st = js ''open'' then js ''bg-destructive/10 text-destructive''
                   else if st = js ''half-open'' then js ''bg-warning/10 text-warning''
                   else js ''bg-muted text-muted-foreground''),
       bd_successRate = successRate h,
       bd_duration = (if num_lt (Fin 0) (eh_attempted h) \<and> num_lt (Fin 0) (eh_avg_duration_ms h)
                      then Some (formatDuration (Some (eh_avg_duration_ms h))) else None),
       bd_lastSeen = (case eh_last_seen h of None \<Rightarrow> None | Some s \<Rightarrow> if s = [] then None else Some (formatTimeShort s))\<rparr>)"

text \<open>\<open>None\<close> stands for the note that the provider was not used yet.\<close>

definition HealthBadges :: "(jsstr \<Rightarrow> jsstr) \<Rightarrow> EndpointHealth list \<Rightarrow> badge list option" where
  "HealthBadges formatTimeShort health = (if length health = 0 then None else Some (map (health_badge formatTimeShort) health))"

section \<open>The contracts hold\<close>

lemma provider_call_contract: "api_call (provider_call dv f body)"
  by (simp add: provider_call_def desktop_updateProvider_def desktop_createProvider_def api_call_intros)

lemma provider_status_free [simp]:
  "provider_body dv (f\<lparr>fs_error := e, fs_pending := b\<rparr>) = provider_body dv f"
  "provider_call dv (f\<lparr>fs_error := e, fs_pending := b\<rparr>) = provider_call dv f"
  by (simp_all add: provider_body_def provider_typeValue_def provider_ref_def provider_call_def fun_eq_iff)

interpretation provider_form: save_form "ProviderForm_onSubmit dv" for dv
  unfolding ProviderForm_onSubmit_def [abs_def] by (intro save_form_intro provider_call_contract) simp_all

interpretation providers_page: config_page_load Providers_load desktop_deleteProvider
proof
  have contract: "api_call (desktop_deleteProvider n)" for n
    unfolding desktop_deleteProvider_def by (intro api_call_intros)
  fix n g d r d' assume "desktop_deleteProvider n g d = (r, d')"
  then show "dk_sent d' = dk_sent d \<or> (\<exists>q. dk_sent d' = dk_sent d @ [q])"
    using api_call.one_request [OF contract] by blast
  fix v assume "desktop_deleteProvider n g d = (Inr v, d')"
  then show "\<exists>q r. dk_sent d' = dk_sent d @ [q] \<and> gw_fetch g (dk_sent d') = DResp r \<and> resp_ok r"
    using api_call.answered [OF contract] by blast
next
  fix g d and p p' :: providers_page and d' assume run: "Providers_load g d p = (p', d')"
  obtain r1 d1 r2 d2 where calls: "listProviders g d = (r1, d1)" "getProviderHealth g d1 = (r2, d2)" by fastforce
  with run have "d' = d2" by (simp add: Providers_load_def Let_def)
  then show "\<exists>qs. dk_sent d' = dk_sent d @ qs \<and> (\<forall>q \<in> set qs. dr_method q = D_GET)"
    using api_reads [of _ _ g d r1 d1] api_reads [of _ _ g d1 r2 d2] calls
    by (force simp: listProviders_def getProviderHealth_def)
  show "\<not> cp_loading p' \<and> cp_createOpen p' = cp_createOpen p \<and> cp_editRow p' = cp_editRow p \<and>
      cp_deleting p' = cp_deleting p \<and> cp_confirm p' = fresh_confirm"
    using run calls by (auto simp: Providers_load_def Let_def start_load_def load_failed_def split: sum.splits)
qed

section \<open>Lemmas on the form\<close>

text \<open>The rows of the form carry distinct identifiers that were handed out before, there is always one, and a stored
  name is never edited.\<close>

definition provider_form_inv :: "(nat \<Rightarrow> jsstr) \<Rightarrow> Provider option \<Rightarrow> provider_form \<Rightarrow> bool" where
  "provider_form_inv uuid dv f \<longleftrightarrow>
     pf_endpoints f \<noteq> [] \<and> distinct (map er_key (pf_endpoints f)) \<and>
     set (map er_key (pf_endpoints f)) \<subseteq> uuid ` {..<pf_uuids f} \<and>
     (\<forall>p. dv = Some p \<longrightarrow> pf_name f = pv_name p)"

lemma map_key_patch:
  "(\<And>x. er_key (f x) = er_key x) \<Longrightarrow> map er_key (patch_endpoint k f arr) = map er_key arr"
  by (simp add: patch_endpoint_def)

lemma patch_endpoint_Nil: "patch_endpoint k f arr = [] \<longleftrightarrow> arr = []"
  by (simp add: patch_endpoint_def)

lemma filter_distinct_ne:
  assumes "distinct (map h xs)" "length xs > 1"
  shows "filter (\<lambda>x. h x \<noteq> k) xs \<noteq> []"
proof
  assume "filter (\<lambda>x. h x \<noteq> k) xs = []"
  then have "set (map h xs) \<subseteq> {k}" by (auto simp: filter_empty_conv)
  then have "card (set (map h xs)) \<le> 1" using card_mono [of "{k}"] by fastforce
  with assms show False by (metis distinct_card length_map not_less)
qed

lemma map_key_init: "map er_key (map2 endpointToRow ks eps) = take (length eps) ks"
  by (induction ks eps rule: list_induct2') (simp_all add: endpointToRow_def)

lemma provider_form_inv_init:
  assumes "inj uuid"
  shows "provider_form_inv uuid dv (ProviderForm_init uuid dv)"
proof -
  have "distinct (map uuid [0..<n])" for n using assms by (simp add: distinct_map inj_on_def)
  then show ?thesis
    by (auto simp: provider_form_inv_def ProviderForm_init_def Let_def newEndpointRow_def map_key_init
        simp del: map_map split: option.splits)
      (auto simp: dv_endpoints_def endpointToRow_def set_zip split: option.splits)
qed

lemma provider_form_inv_edit:
  assumes "inj uuid" "provider_form_inv uuid dv f"
  shows "provider_form_inv uuid dv (edit_provider uuid dv e f)"
proof (cases e)
  case (RemoveEndpoint k)
  then show ?thesis using assms filter_distinct_ne [of er_key "pf_endpoints f" k]
    by (auto simp: provider_form_inv_def distinct_map inj_on_def)
next
  case AddEndpoint
  have "uuid (pf_uuids f) \<notin> uuid ` {..<pf_uuids f}" using assms(1) by (auto simp: inj_def)
  then show ?thesis using assms AddEndpoint
    by (auto simp: provider_form_inv_def newEndpointRow_def lessThan_Suc)
qed (use assms in \<open>auto simp: provider_form_inv_def map_key_patch patch_endpoint_Nil simp del: set_map\<close>)

lemma provider_form_inv_edits:
  assumes "inj uuid"
  shows "provider_form_inv uuid dv (edits_provider uuid dv es)"
proof -
  have "provider_form_inv uuid dv f \<Longrightarrow> provider_form_inv uuid dv (fold (edit_provider uuid dv) es f)" for f
    using provider_form_inv_edit [OF assms] by (induction es arbitrary: f) simp_all
  then show ?thesis unfolding edits_provider_def using provider_form_inv_init [OF assms] by blast
qed

section \<open>Properties\<close>

lemma provider_call_sent:
  "dk_sent (snd (provider_call dv f body g d)) =
     (case dv of
        None \<Rightarrow> dk_sent d @ [\<lparr>dr_method = D_POST, dr_path = BASE @ js ''/providers'', dr_params = [], dr_body = Some (stringify body)\<rparr>]
      | Some p \<Rightarrow>
          (case encodeURIComponent (js_trim (pf_name f)) of
             Inl e \<Rightarrow> dk_sent d
           | Inr seg \<Rightarrow> dk_sent d @ [\<lparr>dr_method = D_PUT, dr_path = BASE @ js ''/providers/'' @ seg, dr_params = [],
                                    dr_body = Some (stringify body)\<rparr>]))"
  by (simp add: provider_call_def desktop_createProvider_def post_call_sent desktop_updateProvider_def
      put_call_def [symmetric] put_call_sent split: option.splits)

text \<open>What a save may touch. After any sequence of inputs the form has an endpoint, so the check for that
  never fails, and the save sends at most one request: a new provider is posted to the list; an edited one is put at
  the name it is stored under, with that name in the body, whatever was typed.\<close>

theorem provider_save_target:
  assumes "inj uuid" and f: "f = edits_provider uuid dv es"
    and run: "ProviderForm_onSubmit dv g d f = (ok, f', d')"
  shows "provider_body dv f \<noteq> Inl no_endpoint \<and>
    (dk_sent d' = dk_sent d \<or>
     (\<exists>q body. dk_sent d' = dk_sent d @ [q] \<and> provider_body dv f = Inr body \<and> dr_body q = Some (stringify body) \<and>
       (case dv of
          None \<Rightarrow> dr_method q = D_POST \<and> dr_path q = BASE @ js ''/providers''
        | Some p \<Rightarrow> dr_method q = D_PUT \<and>
            (\<exists>seg. encodeURIComponent (js_trim (pv_name p)) = Inr seg \<and> dr_path q = BASE @ js ''/providers/'' @ seg) \<and>
            opt_prop (Some body) (js ''name'') = Some (JStr (js_trim (pv_name p))))))"
proof -
  have inv: "provider_form_inv uuid dv f" unfolding f by (rule provider_form_inv_edits [OF assms(1)])
  then have "provider_body dv f \<noteq> Inl no_endpoint"
    by (auto simp: provider_body_def provider_form_inv_def no_endpoint_def incomplete_provider_def incomplete_endpoint_def)
  moreover have name: "pf_name f = pv_name p" if "dv = Some p" for p using inv that by (simp add: provider_form_inv_def)
  moreover have body: "opt_prop (Some body) (js ''name'') = Some (JStr (js_trim (pf_name f)))" if "provider_body dv f = Inr body" for body
    using that by (auto simp: provider_body_def split: if_splits)
  moreover have "dk_sent d' = (case provider_body dv f of Inl msg \<Rightarrow> dk_sent d | Inr body \<Rightarrow> dk_sent (snd (provider_call dv f body g d)))"
    using run submit_sent [of "provider_body dv f" "provider_call dv f" "Some (provider_done dv)" g d f]
    by (simp add: ProviderForm_onSubmit_def)
  ultimately show ?thesis
    by (cases dv) (auto simp: provider_call_sent split: sum.splits)
qed

definition demo_provider :: Provider where
  "demo_provider = \<lparr>pv_name = js ''local'', pv_type = js ''openai'',
     pv_endpoints = [\<lparr>ep_id = None, ep_adapter = js ''openai'', ep_base_url = js ''http://h'', ep_timeouts = Some DEFAULT_TIMEOUTS\<rparr>],
     pv_api_key_ref = js ''plain://k'', pv_timeouts = Some DEFAULT_TIMEOUTS, pv_weight = Some DEFAULT_WEIGHT\<rparr>"

theorem provider_save_target_witness:
  "provider_body (Some demo_provider) (edits_provider digits10 (Some demo_provider) [AddEndpoint, RemoveEndpoint (digits10 0)])
     \<noteq> Inl no_endpoint"
proof -
  have "inj digits10" by (rule injI) simp
  from provider_save_target [OF this refl] show ?thesis by (metis prod.collapse)
qed

text \<open>A provider as it is sent.\<close>

definition endpoint_json :: "ProviderEndpoint \<Rightarrow> json" where
  "endpoint_json ep =
     JObj ((case ep_id ep of None \<Rightarrow> [] | Some i \<Rightarrow> [(js ''id'', JStr i)]) @
           [(js ''adapter'', JStr (ep_adapter ep)), (js ''base_url'', JStr (ep_base_url ep))] @
           (case ep_timeouts ep of None \<Rightarrow> [] | Some t \<Rightarrow> [(js ''timeouts'', t)]))"

definition provider_json :: "Provider \<Rightarrow> json" where
  "provider_json p = JObj
     ((case pv_timeouts p of None \<Rightarrow> [] | Some t \<Rightarrow> [(js ''timeouts'', t)]) @
      (case pv_weight p of None \<Rightarrow> [] | Some w \<Rightarrow> [(js ''weight'', w)]) @
      [(js ''name'', JStr (pv_name p)), (js ''type'', JStr (pv_type p)),
       (js ''endpoints'', JArr (map endpoint_json (pv_endpoints p))), (js ''api_key_ref'', JStr (pv_api_key_ref p))])"

text \<open>The providers this form stores: complete, trimmed, with timeouts and a weight.\<close>

definition well_stored :: "Provider \<Rightarrow> bool" where
  "well_stored p \<longleftrightarrow>
     pv_name p \<noteq> [] \<and> js_trim (pv_name p) = pv_name p \<and>
     pv_type p \<noteq> [] \<and> (pv_type p \<in> set PRESET_BRANDS \<or> js_trim (pv_type p) = pv_type p) \<and>
     pv_api_key_ref p \<noteq> [] \<and> (js_startsWith (pv_api_key_ref p) PLAIN_REF_PREFIX \<or> js_trim (pv_api_key_ref p) = pv_api_key_ref p) \<and>
     \<not> is_nullish (pv_timeouts p) \<and> \<not> is_nullish (pv_weight p) \<and> pv_endpoints p \<noteq> [] \<and>
     list_all (\<lambda>ep. ep_id ep \<noteq> Some [] \<and> ep_adapter ep \<noteq> [] \<and> ep_base_url ep \<noteq> [] \<and>
        js_trim (ep_base_url ep) = ep_base_url ep) (pv_endpoints p)"

lemma custom_not_preset: "CUSTOM_TYPE \<notin> set PRESET_BRANDS"
  by (simp add: CUSTOM_TYPE_def PRESET_BRANDS_def)

lemma endpoint_body_row:
  "ep_id ep \<noteq> Some [] \<Longrightarrow> js_trim (ep_base_url ep) = ep_base_url ep \<Longrightarrow>
   endpoint_body (endpointToRow k ep) = endpoint_json (ep\<lparr>ep_timeouts := None\<rparr>)"
  by (auto simp: endpoint_body_def endpointToRow_def endpoint_json_def split: option.splits)

lemma map_endpoint_bodies:
  assumes "list_all (\<lambda>ep. ep_id ep \<noteq> Some [] \<and> ep_adapter ep \<noteq> [] \<and> ep_base_url ep \<noteq> [] \<and>
    js_trim (ep_base_url ep) = ep_base_url ep) eps" and "length ks = length eps"
  shows "map endpoint_body (map2 endpointToRow ks eps) = map (\<lambda>ep. endpoint_json (ep\<lparr>ep_timeouts := None\<rparr>)) eps \<and>
    (\<forall>r \<in> set (map2 endpointToRow ks eps). er_adapter r \<noteq> [] \<and> js_trim (er_base_url r) \<noteq> [])"
  using assms(2,1)
  by (induction ks eps rule: list_induct2) (auto simp: endpoint_body_row, auto simp: endpointToRow_def)

text \<open>C18: Saving without a change. Opening the form on a stored provider and submitting it puts the provider back at
  its name: name, type, credential (also one that was entered as a key and is not shown), weight, timeouts and
  endpoints are what they were, except that the timeouts of single endpoints are dropped.\<close>

theorem provider_resave:
  assumes "well_stored p" and "encodeURIComponent (pv_name p) = Inr seg"
  shows "dk_sent (snd (snd (ProviderForm_onSubmit (Some p) g d (ProviderForm_init uuid (Some p))))) =
    dk_sent d @ [\<lparr>dr_method = D_PUT, dr_path = BASE @ js ''/providers/'' @ seg, dr_params = [],
      dr_body = Some (stringify (provider_json
        (p\<lparr>pv_endpoints := map (\<lambda>ep. ep\<lparr>ep_timeouts := None\<rparr>) (pv_endpoints p)\<rparr>)))\<rparr>]"
proof -
  let ?f = "ProviderForm_init uuid (Some p)" and ?ks = "map uuid [0..<length (pv_endpoints p)]"
  have rows: "pf_endpoints ?f = map2 endpointToRow ?ks (pv_endpoints p)"
    using assms(1) by (simp add: ProviderForm_init_def Let_def dv_endpoints_def well_stored_def)
  have eps: "map endpoint_body (pf_endpoints ?f) = map (\<lambda>ep. endpoint_json (ep\<lparr>ep_timeouts := None\<rparr>)) (pv_endpoints p)"
    "\<forall>r \<in> set (pf_endpoints ?f). er_adapter r \<noteq> [] \<and> js_trim (er_base_url r) \<noteq> []" "pf_endpoints ?f \<noteq> []"
    using map_endpoint_bodies [of "pv_endpoints p" ?ks] assms(1) unfolding rows by (auto simp: well_stored_def zip_eq_Nil_iff)
  have name: "pf_name ?f = pv_name p" by (simp add: ProviderForm_init_def Let_def)
  have type: "provider_typeValue ?f = pv_type p"
    using assms(1) custom_not_preset
    by (auto simp: provider_typeValue_def ProviderForm_init_def Let_def dv_type_def well_stored_def)
  have ref: "provider_ref (Some p) ?f = pv_api_key_ref p"
    using assms(1) by (auto simp: provider_ref_def ProviderForm_init_def Let_def dv_api_key_ref_def well_stored_def)
  have kept: "coalesce v w = the v \<and> v = Some (the v)" if "\<not> is_nullish v" for v w
    using that by (cases v) (simp_all add: coalesce_def)
  obtain tm wt where tw: "pv_timeouts p = Some tm" "pv_weight p = Some wt"
    using assms(1) by (cases "pv_timeouts p"; cases "pv_weight p") (auto simp: well_stored_def)
  have "provider_body (Some p) ?f = Inr (provider_json (p\<lparr>pv_endpoints := map (\<lambda>ep. ep\<lparr>ep_timeouts := None\<rparr>) (pv_endpoints p)\<rparr>))"
    using assms(1) eps kept [of "pv_timeouts p" DEFAULT_TIMEOUTS] kept [of "pv_weight p" DEFAULT_WEIGHT] tw
    by (auto simp: provider_body_def name type ref provider_json_def well_stored_def comp_def)
  then show ?thesis
    using assms name by (simp add: ProviderForm_onSubmit_def submit_sent provider_call_sent well_stored_def)
qed

theorem provider_resave_witness:
  "dk_sent (snd (snd (ProviderForm_onSubmit (Some demo_provider) missing_gateway idle_desk
     (ProviderForm_init digits10 (Some demo_provider))))) =
   [\<lparr>dr_method = D_PUT, dr_path = BASE @ js ''/providers/'' @ js ''local'', dr_params = [],
     dr_body = Some (stringify (provider_json (demo_provider\<lparr>pv_endpoints :=
       [\<lparr>ep_id = None, ep_adapter = js ''openai'', ep_base_url = js ''http://h'', ep_timeouts = None\<rparr>]\<rparr>)))\<rparr>]"
proof -
  have trim: "js_trim (js ''local'') = js ''local''" "js_trim (js ''http://h'') = js ''http://h''"
    by (simp_all add: js_trim_id js_def js_ws_def)
  have "prefix (js ''plain://'') (js ''plain://k'')" by (simp add: js_def)
  then have "well_stored demo_provider"
    by (simp add: well_stored_def demo_provider_def PRESET_BRANDS_def trim js_startsWith_prefix PLAIN_REF_PREFIX_def
        DEFAULT_TIMEOUTS_def DEFAULT_WEIGHT_def)
  moreover have "encodeURIComponent (pv_name demo_provider) = Inr (js ''local'')" by code_simp
  ultimately show ?thesis
    using provider_resave [of demo_provider "js ''local''" missing_gateway idle_desk digits10]
    by (simp add: idle_desk_def demo_provider_def)
qed

text \<open>The health of a provider's endpoints: what the loop puts under a name are exactly the entries of that provider,
  in their order.\<close>

lemma group_health_spec:
  "group_health hs m = Inr m' \<Longrightarrow>
   (case m' k of None \<Rightarrow> [] | Some l \<Rightarrow> l) =
   (case m k of None \<Rightarrow> [] | Some l \<Rightarrow> l) @ filter (\<lambda>h. opt_prop (Some h) (js ''provider'') = k) hs"
proof (induction hs arbitrary: m)
  case (Cons h hs)
  from Cons.prems obtain v where v: "get_prop (Some h) (js ''provider'') = Inr v"
    and rest: "group_health hs (m(v \<mapsto> (case m v of None \<Rightarrow> [] | Some l \<Rightarrow> l) @ [h])) = Inr m'"
    by (auto simp: rbind_Inr_conv)
  have "opt_prop (Some h) (js ''provider'') = v" using v by (cases h) auto
  then show ?case using Cons.IH [OF rest] by (auto simp: split: option.splits)
qed simp

text \<open>Loading the page. When the list was read and the health is a list of objects, every row is given exactly
  the health entries of its provider, in the order of the answer; a failed read of the health leaves every row without.\<close>

theorem row_health_exact:
  assumes "listProviders g d = (Inr rows, d1)" and "getProviderHealth g d1 = (h, d2)"
    and "h = Inr (JArr hs) \<or> (\<exists>e. h = Inl e) \<and> hs = []" and "JNull \<notin> set hs"
  shows "cp_rows (fst (Providers_load g d p)) = rows \<and> cp_error (fst (Providers_load g d p)) = None \<and>
    row_health (fst (Providers_load g d p)) name = filter (\<lambda>x. opt_prop (Some x) (js ''provider'') = name) hs"
proof -
  have "\<exists>m. group_health hs m0 = Inr m" if "JNull \<notin> set hs" for m0 using that
  proof (induction hs arbitrary: m0)
    case (Cons x hs)
    then obtain v where "get_prop (Some x) (js ''provider'') = Inr v" by (cases x) auto
    then show ?case using Cons by simp
  qed simp
  then obtain m where m: "group_health hs Map.empty = Inr m" using assms(4) by blast
  have h: "(case h of Inl e \<Rightarrow> JArr [] | Inr x \<Rightarrow> x) = JArr hs" using assms(3) by auto
  show ?thesis using assms(1,2) h m group_health_spec [OF m, of name]
    by (simp add: Providers_load_def Let_def row_health_def)
qed

definition health_gateway :: gateway where
  "health_gateway = \<lparr>gw_fetch = (\<lambda>h. DResp \<lparr>dp_status = 200, dp_text = js ''[{\"provider\":\"a\"}]''\<rparr>), gw_message = (\<lambda>e. [])\<rparr>"

lemma parse_health: "json_parse (js ''[{\"provider\":\"a\"}]'') = Some (JArr [JObj [(js ''provider'', JStr (js ''a''))]])"
  by code_simp

theorem row_health_exact_witness:
  "row_health (fst (Providers_load health_gateway idle_desk Providers_init)) (Some (JStr (js ''a''))) =
     [JObj [(js ''provider'', JStr (js ''a''))]]"
proof -
  let ?hs = "[JObj [(js ''provider'', JStr (js ''a''))]]"
  have run: "fst (getJSON path ps health_gateway d) = Inr (JArr ?hs)" for path ps d
    by (simp add: getJSON_run health_gateway_def resp_ok_def parse_body_def parse_health Let_def)
  have "listProviders health_gateway idle_desk = (Inr (JArr ?hs), snd (listProviders health_gateway idle_desk))"
    using run by (simp add: listProviders_def prod_eq_iff)
  moreover have "getProviderHealth health_gateway d = (Inr (JArr ?hs), snd (getProviderHealth health_gateway d))" for d
    using run by (simp add: getProviderHealth_def prod_eq_iff)
  ultimately have "row_health (fst (Providers_load health_gateway idle_desk Providers_init)) (Some (JStr (js ''a''))) =
      filter (\<lambda>x. opt_prop (Some x) (js ''provider'') = Some (JStr (js ''a''))) ?hs"
    by (intro row_health_exact [THEN conjunct2, THEN conjunct2]) auto
  then show ?thesis by simp
qed

text \<open>The success rate of an endpoint with \<open>a\<close> attempts of which \<open>s\<close> were selected is a whole number from 0
  to 100 that is the percentage rounded to the nearest one, up to a millionth at a tie: the two roundings of the
  arithmetic do not show.\<close>

theorem success_rate_bounds:
  assumes "eh_attempted h = num_int a" and "eh_selected h = num_int s" and "0 \<le> s" and "s \<le> a" and "0 < a"
  shows "\<exists>r. successRate h = Some (num_int r) \<and> 0 \<le> r \<and> r \<le> 100 \<and>
    \<bar>of_int r - 100 * of_int s / of_int a\<bar> \<le> (1 / 2 + 1 / 10 ^ 6 :: rat)"
  using percent_round [OF assms(3-5)] assms by (auto simp: successRate_def)

theorem success_rate_bounds_witness:
  "\<exists>r. successRate \<lparr>eh_breaker_state = js ''open'', eh_attempted = num_int 3, eh_selected = num_int 2,
       eh_avg_duration_ms = num_int 5, eh_last_seen = None\<rparr> = Some (num_int r) \<and> 0 \<le> r \<and> r \<le> 100"
  using success_rate_bounds [of "\<lparr>eh_breaker_state = js ''open'', eh_attempted = num_int 3, eh_selected = num_int 2,
       eh_avg_duration_ms = num_int 5, eh_last_seen = None\<rparr>" 3 2] by auto

text \<open>The dialog that confirms a deletion. A confirmation sends the deletion of the chosen provider first; it
  closes the dialog and reads the list again exactly when the gateway accepted, and otherwise stays with the error. But
  the error is still there when the dialog is opened for another provider.\<close>

theorem delete_dialog:
  assumes "cp_deleting p = Some n"
  shows "((\<exists>v d1. desktop_deleteProvider n g d = (Inr v, d1)) \<longleftrightarrow>
      cp_deleting (fst (Providers_step g ConfirmDelete (p, d))) = None) \<and>
    (\<forall>e d'. desktop_deleteProvider n g d = (Inl e, d') \<longrightarrow>
      page_run desktop_deleteProvider Providers_load g [ConfirmDelete, CancelDelete, AskDelete m] (p, d) =
        (p\<lparr>cp_deleting := Some m, cp_confirm := \<lparr>cf_pending = False, cf_error = Some (desk_error_message g e)\<rparr>\<rparr>, d'))"
proof (intro conjI allI impI)
  obtain p' d' where step: "Providers_step g ConfirmDelete (p, d) = (p', d')" by fastforce
  from providers_page.confirm_outcome [OF step [unfolded Providers_step_def] assms] step assms
  show "(\<exists>v d1. desktop_deleteProvider n g d = (Inr v, d1)) \<longleftrightarrow> cp_deleting (fst (Providers_step g ConfirmDelete (p, d))) = None"
    by auto
  fix e d' assume "desktop_deleteProvider n g d = (Inl e, d')"
  with assms
  show "page_run desktop_deleteProvider Providers_load g [ConfirmDelete, CancelDelete, AskDelete m] (p, d) =
        (p\<lparr>cp_deleting := Some m, cp_confirm := \<lparr>cf_pending = False, cf_error = Some (desk_error_message g e)\<rparr>\<rparr>, d')"
    by (simp add: page_run_def handleConfirm_def)
qed

theorem delete_dialog_witness:
  "cp_deleting (fst (Providers_step missing_gateway ConfirmDelete (Providers_init\<lparr>cp_deleting := Some (js ''a'')\<rparr>, idle_desk))) \<noteq> None"
proof -
  have "encodeURIComponent (js ''a'') = Inr (js ''a'')" by code_simp
  then have "fst (desktop_deleteProvider (js ''a'') missing_gateway idle_desk) = Inl staleBackendError"
    by (simp add: desktop_deleteProvider_def with_segment_def dbind_def sendJSON_run missing_gateway_def Let_def
        resp_ok_def send_failure_def parse_404 split: dfetch.splits)
  then have "\<not> (\<exists>v d1. desktop_deleteProvider (js ''a'') missing_gateway idle_desk = (Inr v, d1))" by auto
  with delete_dialog [THEN conjunct1, of "Providers_init\<lparr>cp_deleting := Some (js ''a'')\<rparr>" "js ''a''" missing_gateway idle_desk]
  show ?thesis by simp
qed

end
