(* ===== verification/Desktop_Models.thy ===== *)
theory Desktop_Models
  imports Desktop_Form Desktop_Format
begin

text \<open>
  The models page of the desktop application (\<^verbatim>\<open>desktop-ui/src/pages/Models.tsx\<close>): loading it, and the form
  that creates and edits a model with its upstreams, prices and token limits. As on the providers page,
  \<open>uuid n\<close> is the identifier of the \<open>n\<close>-th row the form makes.
\<close>

section \<open>Models\<close>

definition CURRENCY :: jsstr where
  "CURRENCY = js ''USD''"

text \<open>The interfaces of \<^verbatim>\<open>lib/types.ts\<close>; \<open>None\<close> is a field that is missing or \<^verbatim>\<open>null\<close>, which the page does
  not tell apart. A missing list of upstreams reads as an empty one.\<close>

record Pricing =
  pr_prompt_per_1m :: "jsnum option"
  pr_completion_per_1m :: "jsnum option"
  pr_currency :: jsstr
  pr_cache_hit_multiplier :: "jsnum option"

record ModelUpstream =
  mu_provider :: jsstr
  mu_upstream_model :: jsstr
  mu_default_max_tokens :: "jsnum option"
  mu_pricing :: "Pricing option"

record Model =
  md_alias :: jsstr
  md_description :: "jsstr option"
  md_context_length :: "jsnum option"
  md_capabilities :: "jsstr list option"
  md_tags :: "jsstr list option"
  md_upstreams :: "ModelUpstream list"

record UpstreamDraft =
  ud_key :: jsstr
  ud_provider :: jsstr
  ud_upstream_model :: jsstr
  ud_max_tokens :: jsstr
  ud_prompt_price :: jsstr
  ud_completion_price :: jsstr
  ud_cache_hit_pct :: jsstr

definition newUpstream :: "jsstr \<Rightarrow> jsstr option \<Rightarrow> UpstreamDraft" where
  "newUpstream key provider =
     \<lparr>ud_key = key, ud_provider = (case provider of None \<Rightarrow> [] | Some p \<Rightarrow> p), ud_upstream_model = [],
      ud_max_tokens = [], ud_prompt_price = [], ud_completion_price = [], ud_cache_hit_pct = []\<rparr>"

definition price_text :: "jsnum option \<Rightarrow> jsstr" where
  "price_text v = (case v of None \<Rightarrow> [] | Some n \<Rightarrow> desktop_microToDisplay n)"

definition toDraft :: "jsstr \<Rightarrow> ModelUpstream \<Rightarrow> UpstreamDraft" where
  "toDraft key u =
     \<lparr>ud_key = key, ud_provider = mu_provider u, ud_upstream_model = mu_upstream_model u,
      ud_max_tokens = (case mu_default_max_tokens u of None \<Rightarrow> [] | Some n \<Rightarrow> if num_truthy n then num_repr n else []),
      ud_prompt_price = price_text (Option.bind (mu_pricing u) pr_prompt_per_1m),
      ud_completion_price = price_text (Option.bind (mu_pricing u) pr_completion_per_1m),
      ud_cache_hit_pct = (case Option.bind (mu_pricing u) pr_cache_hit_multiplier of
         None \<Rightarrow> []
       | Some c \<Rightarrow> if num_lt (Fin 0) c then num_repr (num_divc c 10000) else [])\<rparr>"

section \<open>The form\<close>

record model_form = form_status +
  mf_alias :: jsstr
  mf_description :: jsstr
  mf_contextLength :: jsstr
  mf_capabilities :: jsstr
  mf_tags :: jsstr
  mf_upstreams :: "UpstreamDraft list"
  mf_uuids :: nat

definition words_text :: "jsstr list option \<Rightarrow> jsstr" where
  "words_text ws = js_join (js '', '') (case ws of None \<Rightarrow> [] | Some l \<Rightarrow> l)"

text \<open>\<open>providers\<close> are the names of the providers the page has loaded.\<close>

definition first_name :: "jsstr list \<Rightarrow> jsstr option" where
  "first_name providers = (case providers of [] \<Rightarrow> None | p # ps \<Rightarrow> Some p)"

definition ModelForm_init :: "(nat \<Rightarrow> jsstr) \<Rightarrow> jsstr list \<Rightarrow> Model option \<Rightarrow> model_form" where
  "ModelForm_init uuid providers dv =
     (let ups = (case dv of None \<Rightarrow> [] | Some m \<Rightarrow> md_upstreams m);
          rows = (if length ups > 0 then map2 toDraft (map uuid [0..<length ups]) ups
                  else [newUpstream (uuid 0) (first_name providers)])
      in \<lparr>fs_pending = False, fs_error = None,
          mf_alias = (case dv of None \<Rightarrow> [] | Some m \<Rightarrow> md_alias m),
          mf_description = (case Option.bind dv md_description of None \<Rightarrow> [] | Some s \<Rightarrow> s),
          mf_contextLength = (case Option.bind dv md_context_length of
             None \<Rightarrow> [] | Some n \<Rightarrow> if num_truthy n then num_repr n else []),
          mf_capabilities = words_text (Option.bind dv md_capabilities),
          mf_tags = words_text (Option.bind dv md_tags),
          mf_upstreams = rows,
          mf_uuids = length rows\<rparr>)"

text \<open>The inputs; the alias of a stored model is disabled, and the provider is chosen from the loaded ones.\<close>

datatype upstream_edit = UpProvider jsstr | UpModel jsstr | UpMaxTokens jsstr | UpPromptPrice jsstr
  | UpCompletionPrice jsstr | UpCacheHitPct jsstr

fun patch_of :: "upstream_edit \<Rightarrow> UpstreamDraft \<Rightarrow> UpstreamDraft" where
  "patch_of (UpProvider v) u = u\<lparr>ud_provider := v\<rparr>"
| "patch_of (UpModel v) u = u\<lparr>ud_upstream_model := v\<rparr>"
| "patch_of (UpMaxTokens v) u = u\<lparr>ud_max_tokens := v\<rparr>"
| "patch_of (UpPromptPrice v) u = u\<lparr>ud_prompt_price := v\<rparr>"
| "patch_of (UpCompletionPrice v) u = u\<lparr>ud_completion_price := v\<rparr>"
| "patch_of (UpCacheHitPct v) u = u\<lparr>ud_cache_hit_pct := v\<rparr>"

datatype model_edit = SetAlias jsstr | SetDescription jsstr | SetContextLength jsstr | SetCapabilities jsstr | SetTags jsstr
  | PatchUpstream jsstr upstream_edit | RemoveUpstream jsstr | AddUpstream

definition patchUpstream :: "jsstr \<Rightarrow> upstream_edit \<Rightarrow> UpstreamDraft list \<Rightarrow> UpstreamDraft list" where
  "patchUpstream key e arr = map (\<lambda>u. if ud_key u = key then patch_of e u else u) arr"

fun edit_model :: "(nat \<Rightarrow> jsstr) \<Rightarrow> jsstr list \<Rightarrow> Model option \<Rightarrow> model_edit \<Rightarrow> model_form \<Rightarrow> model_form" where
  "edit_model uuid providers dv (SetAlias v) f = (if dv = None then f\<lparr>mf_alias := v\<rparr> else f)"
| "edit_model uuid providers dv (SetDescription v) f = f\<lparr>mf_description := v\<rparr>"
| "edit_model uuid providers dv (SetContextLength v) f = f\<lparr>mf_contextLength := v\<rparr>"
| "edit_model uuid providers dv (SetCapabilities v) f = f\<lparr>mf_capabilities := v\<rparr>"
| "edit_model uuid providers dv (SetTags v) f = f\<lparr>mf_tags := v\<rparr>"
| "edit_model uuid providers dv (PatchUpstream k e) f =
     (if (case e of UpProvider v \<Rightarrow> v \<in> set providers | _ \<Rightarrow> True)
      then f\<lparr>mf_upstreams := patchUpstream k e (mf_upstreams f)\<rparr> else f)"
| "edit_model uuid providers dv (RemoveUpstream k) f = f\<lparr>mf_upstreams := filter (\<lambda>x. ud_key x \<noteq> k) (mf_upstreams f)\<rparr>"
| "edit_model uuid providers dv AddUpstream f =
     f\<lparr>mf_upstreams := mf_upstreams f @ [newUpstream (uuid (mf_uuids f)) (first_name providers)], mf_uuids := Suc (mf_uuids f)\<rparr>"

definition edits_model :: "(nat \<Rightarrow> jsstr) \<Rightarrow> jsstr list \<Rightarrow> Model option \<Rightarrow> model_edit list \<Rightarrow> model_form" where
  "edits_model uuid providers dv es = fold (edit_model uuid providers dv) es (ModelForm_init uuid providers dv)"

section \<open>Submitting\<close>

definition parsePrice :: "jsstr \<Rightarrow> jsnum res" where
  "parsePrice v = (if js_trim v = [] then Inr (Fin 0) else desktop_displayToMicro v)"

definition upstream_incomplete :: jserror where
  "upstream_incomplete = PlainError [0x6BCF, 0x4E2A, 0x4E0A, 0x6E38, 0x90FD, 0x9700, 0x8981, 0x9009, 0x62E9, 0x4F9B, 0x5E94,
     0x5546, 0x5E76, 0x586B, 0x5199, 0x4E0A, 0x6E38, 0x6A21, 0x578B, 0x3002]"

definition cache_hit_invalid :: jserror where
  "cache_hit_invalid = PlainError [0x7F13, 0x5B58, 0x547D, 0x4E2D, 0x20, 0x25, 0x20, 0x5FC5, 0x987B, 0x662F, 0x20, 0x30, 0x2D,
     0x31, 0x30, 0x30, 0x20, 0x7684, 0x6570, 0x5B57, 0x3002]"

definition parse_upstream :: "UpstreamDraft \<Rightarrow> json res" where
  "parse_upstream u =
     (if ud_provider u = [] \<or> js_trim (ud_upstream_model u) = [] then Inl upstream_incomplete
      else
        let pct = (if js_trim (ud_cache_hit_pct u) = [] then Fin 0 else js_Number (ud_cache_hit_pct u))
        in if pct = NaN \<or> num_lt pct (Fin 0) \<or> num_lt (Fin 100) pct then Inl cache_hit_invalid
           else rbind (parsePrice (ud_prompt_price u)) (\<lambda>prompt.
                rbind (parsePrice (ud_completion_price u)) (\<lambda>completion.
                Inr (JObj
                  ([(js ''provider'', JStr (ud_provider u)), (js ''upstream_model'', JStr (js_trim (ud_upstream_model u)))] @
                   (if js_trim (ud_max_tokens u) \<noteq> [] then [(js ''default_max_tokens'', JNum (js_Number (ud_max_tokens u)))] else []) @
                   [(js ''pricing'', JObj
                      [(js ''prompt_per_1m'', JNum prompt), (js ''completion_per_1m'', JNum completion),
                       (js ''currency'', JStr CURRENCY),
                       (js ''cache_hit_multiplier'', JNum (num_round (num_mul pct (Fin 10000))))])])))))"

definition list_words :: "jsstr \<Rightarrow> json" where
  "list_words s = JArr (map JStr (filter (\<lambda>w. w \<noteq> []) (map js_trim (js_split 0x2C s))))"

text \<open>The message of an error of the parsing: that of a malformed price is replaced.\<close>

fun upstream_message :: "jserror \<Rightarrow> jsstr" where
  "upstream_message (RangeError m) = [0x4EF7, 0x683C, 0x5FC5, 0x987B, 0x662F, 0x5408, 0x6CD5, 0x6570, 0x5B57, 0xFF08, 0x5982,
     0x20, 0x32, 0x2E, 0x35, 0x30, 0xFF09, 0x3002]"
| "upstream_message (PlainError m) = m"
| "upstream_message e = []"

definition model_body :: "model_form \<Rightarrow> jsstr + json" where
  "model_body f =
     (if js_trim (mf_alias f) = [] then Inl [0x8BF7, 0x586B, 0x5199, 0x6A21, 0x578B, 0x522B, 0x540D, 0x3002]
      else if length (mf_upstreams f) = 0 then Inl [0x81F3, 0x5C11, 0x9700, 0x8981, 0x4E00, 0x4E2A, 0x4E0A, 0x6E38, 0x3002]
      else case rmap parse_upstream (mf_upstreams f) of
        Inl e \<Rightarrow> Inl (upstream_message e)
      | Inr parsed \<Rightarrow> Inr (JObj
          ([(js ''alias'', JStr (js_trim (mf_alias f)))] @
           (if js_trim (mf_description f) \<noteq> [] then [(js ''description'', JStr (js_trim (mf_description f)))] else []) @
           (if js_trim (mf_contextLength f) \<noteq> [] then [(js ''context_length'', JNum (js_Number (mf_contextLength f)))] else []) @
           (if js_trim (mf_capabilities f) \<noteq> [] then [(js ''capabilities'', list_words (mf_capabilities f))] else []) @
           (if js_trim (mf_tags f) \<noteq> [] then [(js ''tags'', list_words (mf_tags f))] else []) @
           [(js ''upstreams'', JArr parsed)])))"

definition model_call :: "Model option \<Rightarrow> model_form \<Rightarrow> json \<Rightarrow> json dact" where
  "model_call dv f body =
     (if dv \<noteq> None then desktop_updateModel (js_trim (mf_alias f)) body else desktop_createModel body)"

definition ModelForm_onSubmit :: "Model option \<Rightarrow> gateway \<Rightarrow> desk \<Rightarrow> model_form \<Rightarrow> bool \<times> model_form \<times> desk" where
  "ModelForm_onSubmit dv g d f = submit_form (model_body f) (model_call dv f) None g d f"

section \<open>Loading the page\<close>

record models_page = config_page +
  mp_providers :: json

definition Models_init :: models_page where
  "Models_init = config_page.extend fresh_page \<lparr>mp_providers = JArr []\<rparr>"

definition Models_load :: "nat \<Rightarrow> gateway \<Rightarrow> desk \<Rightarrow> models_page \<Rightarrow> models_page \<times> desk" where
  "Models_load first g d p0 =
     (let p = start_load p0;
          (r1, d1) = listModels g d;
          (r2, d2) = listProviders g d1
      in (case (r1, r2) of
            (Inr m, Inr ps) \<Rightarrow> p\<lparr>cp_rows := m, mp_providers := ps, cp_error := None, cp_loading := False\<rparr>
          | _ \<Rightarrow> load_failed g (first_rejection first (rejections [r1, r2])) p, d2))"

text \<open>\<^verbatim>\<open>v.length > 0\<close> of a list; the button that creates is shown only when there is something to choose from.\<close>

fun has_items :: "json \<Rightarrow> bool" where
  "has_items (JArr vs) = (vs \<noteq> [])"
| "has_items (JStr s) = (s \<noteq> [])"
| "has_items v = False"

definition Models_step :: "nat \<Rightarrow> gateway \<Rightarrow> page_event \<Rightarrow> models_page \<times> desk \<Rightarrow> models_page \<times> desk" where
  "Models_step first g ev s =
     (if ev = OpenCreate \<and> \<not> has_items (mp_providers (fst s)) then s
      else page_step desktop_deleteModel (Models_load first) g ev s)"

text \<open>The pill of an upstream in the table.\<close>

definition upstream_pill :: "ModelUpstream \<Rightarrow> jsstr" where
  "upstream_pill u =
     mu_provider u @ [0x20, 0xB7, 0x20] @ mu_upstream_model u @
     (case mu_pricing u of
        None \<Rightarrow> []
      | Some p \<Rightarrow> [0x20, 0xB7, 0x20] @ desktop_microToDisplay (or_zero (pr_prompt_per_1m p)) @ js ''/'' @
          desktop_microToDisplay (or_zero (pr_completion_per_1m p)) @ js '' per 1M'') @
     (case Option.bind (mu_pricing u) pr_cache_hit_multiplier of
        None \<Rightarrow> []
      | Some c \<Rightarrow> if num_truthy c then [0x20, 0xB7] @ js '' cache '' @ num_repr (num_divc c 10000) @ js ''%'' else [])"

definition model_row :: "Model \<Rightarrow> jsstr \<times> jsstr list option" where
  "model_row m = (md_alias m, if length (md_upstreams m) = 0 then None else Some (map upstream_pill (md_upstreams m)))"

section \<open>The contracts hold\<close>

lemma model_call_contract: "api_call (model_call dv f body)"
  by (simp add: model_call_def desktop_updateModel_def desktop_createModel_def api_call_intros)

lemma model_status_free [simp]:
  "model_body (f\<lparr>fs_error := e, fs_pending := b\<rparr>) = model_body f"
  "model_call dv (f\<lparr>fs_error := e, fs_pending := b\<rparr>) = model_call dv f"
  by (simp_all add: model_body_def model_call_def fun_eq_iff split: sum.splits)

interpretation model_form: save_form "ModelForm_onSubmit dv" for dv
  unfolding ModelForm_onSubmit_def [abs_def] by (intro save_form_intro model_call_contract) simp_all

interpretation models_page: config_page_load "Models_load first" desktop_deleteModel for first
proof
  fix n g d r d' assume "desktop_deleteModel n g d = (r, d')"
  then show "dk_sent d' = dk_sent d \<or> (\<exists>q. dk_sent d' = dk_sent d @ [q])"
    using desktop_deleteModel.one_request by blast
  fix v assume "desktop_deleteModel n g d = (Inr v, d')"
  then show "\<exists>q r. dk_sent d' = dk_sent d @ [q] \<and> gw_fetch g (dk_sent d') = DResp r \<and> resp_ok r"
    using desktop_deleteModel.answered by blast
next
  fix g d and p p' :: models_page and d' assume run: "Models_load first g d p = (p', d')"
  obtain r1 d1 r2 d2 where calls: "listModels g d = (r1, d1)" "listProviders g d1 = (r2, d2)" by fastforce
  with run have "d' = d2" by (simp add: Models_load_def Let_def)
  then show "\<exists>qs. dk_sent d' = dk_sent d @ qs \<and> (\<forall>q \<in> set qs. dr_method q = D_GET)"
    using api_reads [of _ _ g d r1 d1] api_reads [of _ _ g d1 r2 d2] calls
    by (force simp: listModels_def listProviders_def)
  show "\<not> cp_loading p' \<and> cp_createOpen p' = cp_createOpen p \<and> cp_editRow p' = cp_editRow p \<and>
      cp_deleting p' = cp_deleting p \<and> cp_confirm p' = fresh_confirm"
    using run calls by (auto simp: Models_load_def Let_def start_load_def load_failed_def split: sum.splits)
qed

section \<open>Lemmas on texts and numbers\<close>

definition well_worded :: "jsstr list option \<Rightarrow> bool" where
  "well_worded ws = (case ws of None \<Rightarrow> True
     | Some l \<Rightarrow> l \<noteq> [] \<and> list_all (\<lambda>w. w \<noteq> [] \<and> js_trim w = w \<and> 0x2C \<notin> set w) l)"

lemma words_text_roundtrip:
  assumes "well_worded ws"
  shows "(if js_trim (words_text ws) \<noteq> [] then [(k, list_words (words_text ws))] else []) =
    (case ws of None \<Rightarrow> [] | Some l \<Rightarrow> [(k, JArr (map JStr l))])"
proof (cases ws)
  case (Some l)
  with assms have l: "l \<noteq> []" "\<forall>w \<in> set l. w \<noteq> [] \<and> js_trim w = w \<and> 0x2C \<notin> set w"
    by (auto simp: well_worded_def list_all_iff)
  then have "filter (\<lambda>w. w \<noteq> []) l = l" by (simp add: filter_id_conv)
  then show ?thesis using l split_join_words [of l] join_words_trim [of l] Some by (simp add: words_text_def list_words_def)
qed (simp add: words_text_def)

text \<open>A positive integer as text and back.\<close>

definition pos_int :: "jsnum \<Rightarrow> bool" where
  "pos_int n = (case n of Fin x \<Rightarrow> of_int \<lfloor>x\<rfloor> = x \<and> 0 < x \<and> x \<le> 2 ^ 53 | _ \<Rightarrow> False)"

lemma pos_intE:
  assumes "pos_int n"
  obtains k where "n = num_int k" "0 < k" "k \<le> 2 ^ 53"
proof -
  obtain x where x: "n = Fin x" "of_int \<lfloor>x\<rfloor> = x" "0 < x" "x \<le> 2 ^ 53"
    using assms by (cases n) (auto simp: pos_int_def)
  have "(of_int 0 :: rat) < of_int \<lfloor>x\<rfloor>" "(of_int \<lfloor>x\<rfloor> :: rat) \<le> of_int (2 ^ 53)" unfolding x(2) using x by simp_all
  then have "0 < \<lfloor>x\<rfloor>" "\<lfloor>x\<rfloor> \<le> 2 ^ 53" unfolding of_int_less_iff of_int_le_iff by simp_all
  with x that show ?thesis by metis
qed

section \<open>Properties\<close>

text \<open>A model as it is sent.\<close>

definition sent_field :: "jsstr \<Rightarrow> ('a \<Rightarrow> json) \<Rightarrow> 'a option \<Rightarrow> fields" where
  "sent_field k enc v = (case v of None \<Rightarrow> [] | Some x \<Rightarrow> [(k, enc x)])"

definition pricing_json :: "Pricing \<Rightarrow> json" where
  "pricing_json p = JObj (sent_field (js ''prompt_per_1m'') JNum (pr_prompt_per_1m p) @
     sent_field (js ''completion_per_1m'') JNum (pr_completion_per_1m p) @ [(js ''currency'', JStr (pr_currency p))] @
     sent_field (js ''cache_hit_multiplier'') JNum (pr_cache_hit_multiplier p))"

definition upstream_json :: "ModelUpstream \<Rightarrow> json" where
  "upstream_json u = JObj ([(js ''provider'', JStr (mu_provider u)), (js ''upstream_model'', JStr (mu_upstream_model u))] @
     sent_field (js ''default_max_tokens'') JNum (mu_default_max_tokens u) @
     sent_field (js ''pricing'') pricing_json (mu_pricing u))"

definition model_json :: "Model \<Rightarrow> json" where
  "model_json m = JObj ([(js ''alias'', JStr (md_alias m))] @
     sent_field (js ''description'') JStr (md_description m) @
     sent_field (js ''context_length'') JNum (md_context_length m) @
     sent_field (js ''capabilities'') (\<lambda>l. JArr (map JStr l)) (md_capabilities m) @
     sent_field (js ''tags'') (\<lambda>l. JArr (map JStr l)) (md_tags m) @
     [(js ''upstreams'', JArr (map upstream_json (md_upstreams m)))])"

text \<open>A price in whole cents: rounded half away from zero.\<close>

fun cents_price :: "jsnum \<Rightarrow> jsnum" where
  "cents_price (Fin x) = num_int ((if x < 0 then - 1 else 1) * (10000 * ((\<bar>\<lfloor>x\<rfloor>\<bar> + 5000) div 10000)))"
| "cents_price n = n"

definition cents_upstream :: "ModelUpstream \<Rightarrow> ModelUpstream" where
  "cents_upstream u = u\<lparr>mu_pricing := map_option (\<lambda>p. p\<lparr>
     pr_prompt_per_1m := map_option cents_price (pr_prompt_per_1m p),
     pr_completion_per_1m := map_option cents_price (pr_completion_per_1m p)\<rparr>) (mu_pricing u)\<rparr>"

text \<open>The upstreams and models this form stores, with a whole percentage for cached tokens.\<close>

definition price_ok :: "jsnum option \<Rightarrow> bool" where
  "price_ok v = (case v of Some (Fin x) \<Rightarrow> of_int \<lfloor>x\<rfloor> = x \<and> \<bar>x\<bar> \<le> 2 ^ 53 - 5000 | _ \<Rightarrow> False)"

definition percent_ok :: "jsnum option \<Rightarrow> bool" where
  "percent_ok v = (case v of Some (Fin x) \<Rightarrow> x \<in> (\<lambda>k. of_nat (10000 * k)) ` {..100} | _ \<Rightarrow> False)"

definition upstream_ok :: "ModelUpstream \<Rightarrow> bool" where
  "upstream_ok u \<longleftrightarrow> mu_provider u \<noteq> [] \<and> mu_upstream_model u \<noteq> [] \<and> js_trim (mu_upstream_model u) = mu_upstream_model u \<and>
     (case mu_default_max_tokens u of None \<Rightarrow> True | Some n \<Rightarrow> pos_int n) \<and>
     (case mu_pricing u of None \<Rightarrow> False
      | Some p \<Rightarrow> price_ok (pr_prompt_per_1m p) \<and> price_ok (pr_completion_per_1m p) \<and> pr_currency p = CURRENCY \<and>
          percent_ok (pr_cache_hit_multiplier p))"

definition model_ok :: "Model \<Rightarrow> bool" where
  "model_ok m \<longleftrightarrow> md_alias m \<noteq> [] \<and> js_trim (md_alias m) = md_alias m \<and>
     (case md_description m of None \<Rightarrow> True | Some s \<Rightarrow> s \<noteq> [] \<and> js_trim s = s) \<and>
     (case md_context_length m of None \<Rightarrow> True | Some n \<Rightarrow> pos_int n) \<and>
     well_worded (md_capabilities m) \<and> well_worded (md_tags m) \<and>
     md_upstreams m \<noteq> [] \<and> list_all upstream_ok (md_upstreams m)"

lemma price_roundtrip:
  assumes "price_ok v"
  shows "\<exists>n. v = Some n \<and> js_trim (price_text v) \<noteq> [] \<and> parsePrice (price_text v) = Inr (cents_price n)"
proof -
  obtain x where x: "v = Some (Fin x)" "of_int \<lfloor>x\<rfloor> = x" "\<bar>x\<bar> \<le> 2 ^ 53 - 5000"
    using assms by (auto simp: price_ok_def split: option.splits jsnum.splits)
  define k where "k = \<lfloor>x\<rfloor>"
  have xk: "x = of_int k" unfolding k_def using x(2) [symmetric] .
  have "(of_int \<bar>k\<bar> :: rat) \<le> of_int (2 ^ 53 - 5000)" using x(3) by (simp add: xk)
  then have k: "\<bar>k\<bar> \<le> 2 ^ 53 - 5000" unfolding of_int_le_iff .
  have "10000 * cents \<bar>k\<bar> \<le> \<bar>k\<bar> + 5000" unfolding cents_def by linarith
  then have d: "displayToMicro (microToDisplay (num_int k)) = Inr (num_int ((if k < 0 then - 1 else 1) * (10000 * cents \<bar>k\<bar>)))"
    using k by (intro display_roundtrip) simp_all
  have "js_trim (microToDisplay (num_int k)) \<noteq> []"
  proof
    assume "js_trim (microToDisplay (num_int k)) = []"
    then have "displayToMicro (microToDisplay (num_int k)) = Inl (RangeError (js ''invalid decimal amount: \"'' @ microToDisplay (num_int k) @ js ''\"''))"
      by (simp add: displayToMicro_def match_amount_def match_unsigned_def js_def Let_def)
    with d show False by simp
  qed
  moreover have "cents_price (Fin x) = num_int ((if k < 0 then - 1 else 1) * (10000 * cents \<bar>k\<bar>))"
    by (simp add: xk cents_def)
  ultimately have "js_trim (price_text v) \<noteq> [] \<and> parsePrice (price_text v) = Inr (cents_price (Fin x))"
    using d x(1) unfolding xk
    by (simp only: price_text_def parsePrice_def desktop_microToDisplay_eq desktop_displayToMicro_eq option.case if_False) simp
  with x(1) show ?thesis by blast
qed

definition pct_value :: "UpstreamDraft \<Rightarrow> jsnum" where
  "pct_value u = (if js_trim (ud_cache_hit_pct u) = [] then Fin 0 else js_Number (ud_cache_hit_pct u))"

lemma percent_roundtrip:
  assumes "percent_ok c" and u: "ud_cache_hit_pct u = (case c of None \<Rightarrow> [] | Some c \<Rightarrow> if num_lt (Fin 0) c then num_repr (num_divc c 10000) else [])"
  shows "pct_value u \<noteq> NaN \<and> \<not> num_lt (pct_value u) (Fin 0) \<and> \<not> num_lt (Fin 100) (pct_value u) \<and>
    c = Some (num_round (num_mul (pct_value u) (Fin 10000)))"
proof -
  obtain k where k: "c = Some (num_int (10000 * int k))" "k \<le> 100"
    using assms(1) by (auto simp: percent_ok_def split: option.splits jsnum.splits)
  have int: "num_mul (num_int (int k)) (Fin 10000) = num_int (int k * 10000)"
    using num_mul_int [of "int k" 10000] k(2) by (simp add: safe_def)
  have "pct_value u = num_int (int k)"
  proof (cases "k = 0")
    case True
    then show ?thesis using u k by (simp add: pct_value_def)
  next
    case False
    have "num_divc (num_int (10000 * int k)) 10000 = num_int (int k)"
      using round_double_int [of "int k"] k(2) by (simp add: safe_def)
    then have "ud_cache_hit_pct u = num_repr (num_int (int k))" using u k False by simp
    moreover have "0 \<le> int k" "int k \<le> 2 ^ 53" using k(2) by simp_all
    ultimately show ?thesis using number_text_roundtrip [of "int k"] unfolding pct_value_def by metis
  qed
  moreover have "num_round (num_mul (num_int (int k)) (Fin 10000)) = num_int (10000 * int k)"
    unfolding int num_round_int by (simp add: mult.commute)
  ultimately show ?thesis using k by (simp del: num_round.simps)
qed

lemma parse_upstream_alt:
  "parse_upstream u =
     (if ud_provider u = [] \<or> js_trim (ud_upstream_model u) = [] then Inl upstream_incomplete
      else if pct_value u = NaN \<or> num_lt (pct_value u) (Fin 0) \<or> num_lt (Fin 100) (pct_value u) then Inl cache_hit_invalid
      else rbind (parsePrice (ud_prompt_price u)) (\<lambda>prompt.
           rbind (parsePrice (ud_completion_price u)) (\<lambda>completion.
           Inr (JObj
             ([(js ''provider'', JStr (ud_provider u)), (js ''upstream_model'', JStr (js_trim (ud_upstream_model u)))] @
              (if js_trim (ud_max_tokens u) \<noteq> [] then [(js ''default_max_tokens'', JNum (js_Number (ud_max_tokens u)))] else []) @
              [(js ''pricing'', JObj
                 [(js ''prompt_per_1m'', JNum prompt), (js ''completion_per_1m'', JNum completion),
                  (js ''currency'', JStr CURRENCY),
                  (js ''cache_hit_multiplier'', JNum (num_round (num_mul (pct_value u) (Fin 10000))))])])))))"
  by (simp only: parse_upstream_def pct_value_def Let_def)

text \<open>A positive number of tokens, as the form shows it and reads it.\<close>

definition count_text :: "jsnum option \<Rightarrow> jsstr" where
  "count_text v = (case v of None \<Rightarrow> [] | Some n \<Rightarrow> if num_truthy n then num_repr n else [])"

lemma count_roundtrip:
  assumes "case v of None \<Rightarrow> True | Some n \<Rightarrow> pos_int n"
  shows "(if js_trim (count_text v) \<noteq> [] then [(k, JNum (js_Number (count_text v)))] else []) = sent_field k JNum v"
proof (cases v)
  case (Some n)
  with assms obtain i where "n = num_int i" "0 < i" "i \<le> 2 ^ 53" by (auto elim: pos_intE)
  then show ?thesis using Some number_text_roundtrip [of i] by (simp add: count_text_def sent_field_def)
qed (simp add: count_text_def sent_field_def)

lemma upstream_roundtrip:
  assumes "upstream_ok u"
  shows "parse_upstream (toDraft key u) = Inr (upstream_json (cents_upstream u))"
proof -
  obtain p where p: "mu_pricing u = Some p" "price_ok (pr_prompt_per_1m p)" "price_ok (pr_completion_per_1m p)"
      "pr_currency p = CURRENCY" "percent_ok (pr_cache_hit_multiplier p)"
    using assms by (auto simp: upstream_ok_def split: option.splits)
  obtain a where a: "pr_prompt_per_1m p = Some a" "parsePrice (price_text (pr_prompt_per_1m p)) = Inr (cents_price a)"
    using price_roundtrip [OF p(2)] by blast
  obtain b where b: "pr_completion_per_1m p = Some b" "parsePrice (price_text (pr_completion_per_1m p)) = Inr (cents_price b)"
    using price_roundtrip [OF p(3)] by blast
  let ?d = "toDraft key u"
  have "ud_cache_hit_pct ?d = (case pr_cache_hit_multiplier p of None \<Rightarrow> [] | Some c \<Rightarrow> if num_lt (Fin 0) c then num_repr (num_divc c 10000) else [])"
    by (simp add: toDraft_def p(1))
  note c = percent_roundtrip [OF p(5) this]
  have tokens: "(if js_trim (ud_max_tokens ?d) \<noteq> [] then [(js ''default_max_tokens'', JNum (js_Number (ud_max_tokens ?d)))] else []) =
      sent_field (js ''default_max_tokens'') JNum (mu_default_max_tokens u)"
    using count_roundtrip [of "mu_default_max_tokens u" "js ''default_max_tokens''"] assms
    by (simp only: upstream_ok_def toDraft_def count_text_def UpstreamDraft.simps)
  have texts: "ud_provider ?d = mu_provider u" "ud_upstream_model ?d = mu_upstream_model u"
      "ud_prompt_price ?d = price_text (pr_prompt_per_1m p)" "ud_completion_price ?d = price_text (pr_completion_per_1m p)"
    by (simp_all add: toDraft_def p(1))
  have words: "mu_provider u \<noteq> []" "mu_upstream_model u \<noteq> []" "js_trim (mu_upstream_model u) = mu_upstream_model u"
    using assms by (simp_all add: upstream_ok_def)
  show ?thesis
    unfolding parse_upstream_alt tokens texts a(2) b(2) words(3) using c words(1,2)
    by (simp add: upstream_json_def cents_upstream_def pricing_json_def p(1,4) a(1) b(1) sent_field_def split: option.splits)
qed

lemma rmap_drafts:
  assumes "list_all upstream_ok us" and "length ks = length us"
  shows "rmap parse_upstream (map2 toDraft ks us) = Inr (map (\<lambda>u. upstream_json (cents_upstream u)) us)"
  using assms(2,1) by (induction ks us rule: list_induct2) (simp_all add: upstream_roundtrip)

lemma model_call_sent:
  "dk_sent (snd (model_call dv f body g d)) =
     (case dv of
        None \<Rightarrow> dk_sent d @ [\<lparr>dr_method = D_POST, dr_path = BASE @ js ''/models'', dr_params = [], dr_body = Some (stringify body)\<rparr>]
      | Some m \<Rightarrow>
          (case encodeURIComponent (js_trim (mf_alias f)) of
             Inl e \<Rightarrow> dk_sent d
           | Inr seg \<Rightarrow> dk_sent d @ [\<lparr>dr_method = D_PUT, dr_path = BASE @ js ''/models/'' @ seg, dr_params = [],
                                    dr_body = Some (stringify body)\<rparr>]))"
  by (simp add: model_call_def desktop_createModel_def post_call_sent desktop_updateModel_def
      put_call_def [symmetric] put_call_sent split: option.splits)

lemma model_body_resave:
  assumes "model_ok m"
  shows "model_body (ModelForm_init uuid ps (Some m)) = Inr (model_json (m\<lparr>md_upstreams := map cents_upstream (md_upstreams m)\<rparr>))"
proof -
  let ?f = "ModelForm_init uuid ps (Some m)"
  have ups: "rmap parse_upstream (mf_upstreams ?f) = Inr (map (\<lambda>u. upstream_json (cents_upstream u)) (md_upstreams m))"
    "length (mf_upstreams ?f) \<noteq> 0"
    using assms rmap_drafts [of "md_upstreams m" "map uuid [0..<length (md_upstreams m)]"]
    by (simp_all add: ModelForm_init_def Let_def model_ok_def)
  have texts: "mf_alias ?f = md_alias m" "mf_contextLength ?f = count_text (md_context_length m)"
      "mf_capabilities ?f = words_text (md_capabilities m)" "mf_tags ?f = words_text (md_tags m)"
      "mf_description ?f = (case md_description m of None \<Rightarrow> [] | Some s \<Rightarrow> s)"
    by (simp_all add: ModelForm_init_def Let_def count_text_def)
  have al: "md_alias m \<noteq> []" "js_trim (md_alias m) = md_alias m" using assms by (simp_all add: model_ok_def)
  have desc: "(if js_trim (mf_description ?f) \<noteq> [] then [(js ''description'', JStr (js_trim (mf_description ?f)))] else []) =
      sent_field (js ''description'') JStr (md_description m)"
    using assms by (auto simp: texts model_ok_def sent_field_def split: option.splits)
  have words: "(if js_trim (words_text ws) \<noteq> [] then [(k, list_words (words_text ws))] else []) =
      sent_field k (\<lambda>l. JArr (map JStr l)) ws" if "well_worded ws" for ws k
    using words_text_roundtrip [OF that, of k] by (simp only: sent_field_def)
  have worded: "well_worded (md_capabilities m)" "well_worded (md_tags m)"
      "case md_context_length m of None \<Rightarrow> True | Some n \<Rightarrow> pos_int n" using assms by (simp_all add: model_ok_def)
  show ?thesis
    unfolding model_body_def desc ups(1) texts(1-4) al(2) count_roundtrip [OF worded(3)] words [OF worded(1)] words [OF worded(2)]
    using ups(2) al(1) by (simp add: model_json_def comp_def)
qed

text \<open>Saving a model without a change. Opening the form on a stored model and submitting it puts the model back
  at its alias with every field as it was, except that each price is rounded to whole cents; a model whose prices are
  whole cents is sent as it is stored.\<close>

theorem model_resave:
  assumes "model_ok m" and "encodeURIComponent (md_alias m) = Inr seg"
  shows "dk_sent (snd (snd (ModelForm_onSubmit (Some m) g d (ModelForm_init uuid ps (Some m))))) =
      dk_sent d @ [\<lparr>dr_method = D_PUT, dr_path = BASE @ js ''/models/'' @ seg, dr_params = [],
        dr_body = Some (stringify (model_json (m\<lparr>md_upstreams := map cents_upstream (md_upstreams m)\<rparr>)))\<rparr>] \<and>
    ((\<forall>u \<in> set (md_upstreams m). \<forall>p. mu_pricing u = Some p \<longrightarrow>
        (\<exists>a b. pr_prompt_per_1m p = Some (num_int (10000 * a)) \<and> pr_completion_per_1m p = Some (num_int (10000 * b)))) \<longrightarrow>
     map cents_upstream (md_upstreams m) = md_upstreams m)"
proof (intro conjI impI)
  have "mf_alias (ModelForm_init uuid ps (Some m)) = md_alias m" by (simp add: ModelForm_init_def Let_def)
  then show "dk_sent (snd (snd (ModelForm_onSubmit (Some m) g d (ModelForm_init uuid ps (Some m))))) =
      dk_sent d @ [\<lparr>dr_method = D_PUT, dr_path = BASE @ js ''/models/'' @ seg, dr_params = [],
        dr_body = Some (stringify (model_json (m\<lparr>md_upstreams := map cents_upstream (md_upstreams m)\<rparr>)))\<rparr>]"
    using assms model_body_resave [OF assms(1)] by (simp add: ModelForm_onSubmit_def submit_sent model_call_sent model_ok_def)
next
  assume whole: "\<forall>u \<in> set (md_upstreams m). \<forall>p. mu_pricing u = Some p \<longrightarrow>
      (\<exists>a b. pr_prompt_per_1m p = Some (num_int (10000 * a)) \<and> pr_completion_per_1m p = Some (num_int (10000 * b)))"
  have same: "cents_price (num_int (10000 * a)) = num_int (10000 * a)" for a
  proof -
    have "(\<bar>10000 * a\<bar> + 5000) div 10000 = \<bar>a\<bar>" by (simp add: abs_mult)
    moreover have "\<lfloor>of_int (10000 * a) :: rat\<rfloor> = 10000 * a" by (rule floor_of_int)
    ultimately show ?thesis by (simp del: of_int_mult)
  qed
  have "cents_upstream u = u" if u: "u \<in> set (md_upstreams m)" for u
  proof (cases "mu_pricing u")
    case (Some p)
    with whole u obtain a b where "pr_prompt_per_1m p = Some (num_int (10000 * a))" "pr_completion_per_1m p = Some (num_int (10000 * b))"
      by blast
    then have "map_option cents_price (pr_prompt_per_1m p) = pr_prompt_per_1m p"
        "map_option cents_price (pr_completion_per_1m p) = pr_completion_per_1m p"
      by (simp_all only: option.map same)
    then show ?thesis by (simp add: cents_upstream_def Some)
  qed (simp add: cents_upstream_def)
  then show "map cents_upstream (md_upstreams m) = md_upstreams m" by (simp add: map_idI)
qed

definition demo_model :: Model where
  "demo_model = \<lparr>md_alias = js ''m'', md_description = None, md_context_length = Some (num_int 8000),
     md_capabilities = Some [js ''vision'', js ''tools''], md_tags = None,
     md_upstreams = [\<lparr>mu_provider = js ''local'', mu_upstream_model = js ''x'', mu_default_max_tokens = None,
       mu_pricing = Some \<lparr>pr_prompt_per_1m = Some (num_int 2500000), pr_completion_per_1m = Some (num_int 10000000),
         pr_currency = js ''USD'', pr_cache_hit_multiplier = Some (num_int 500000)\<rparr>\<rparr>]\<rparr>"

lemma demo_model_ok: "model_ok demo_model"
proof -
  have trim: "js_trim (js ''m'') = js ''m''" "js_trim (js ''x'') = js ''x''" "js_trim (js ''vision'') = js ''vision''"
      "js_trim (js ''tools'') = js ''tools''"
    by (simp_all add: js_trim_id js_def js_ws_def)
  have "percent_ok (Some (num_int 500000))" by (simp add: percent_ok_def image_def)
  moreover have "0x2C \<notin> set (js ''vision'')" "0x2C \<notin> set (js ''tools'')" by (simp_all add: js_def)
  ultimately show ?thesis
    by (simp add: model_ok_def demo_model_def trim pos_int_def well_worded_def upstream_ok_def price_ok_def CURRENCY_def)
qed

theorem model_resave_witness:
  "dk_sent (snd (snd (ModelForm_onSubmit (Some demo_model) missing_gateway idle_desk (ModelForm_init digits10 [] (Some demo_model))))) =
    [\<lparr>dr_method = D_PUT, dr_path = BASE @ js ''/models/'' @ js ''m'', dr_params = [], dr_body = Some (stringify (model_json demo_model))\<rparr>]"
proof -
  have enc: "encodeURIComponent (md_alias demo_model) = Inr (js ''m'')" by code_simp
  have "\<forall>u \<in> set (md_upstreams demo_model). \<forall>p. mu_pricing u = Some p \<longrightarrow>
      (\<exists>a b. pr_prompt_per_1m p = Some (num_int (10000 * a)) \<and> pr_completion_per_1m p = Some (num_int (10000 * b)))"
    by (auto simp: demo_model_def intro: exI [of _ 250] exI [of _ 1000])
  with model_resave [OF demo_model_ok enc] show ?thesis by (simp add: idle_desk_def)
qed

text \<open>The percentage of a draft that passes the checks gives a multiplier within its range.\<close>

lemma multiplier_range:
  assumes "pct \<noteq> NaN" "\<not> num_lt pct (Fin 0)" "\<not> num_lt (Fin 100) pct"
  shows "\<exists>k. num_round (num_mul pct (Fin 10000)) = num_int k \<and> 0 \<le> k \<and> k \<le> 1000000"
proof -
  obtain x where x: "pct = Fin x" "0 \<le> x" "x \<le> 100" using assms by (cases pct) auto
  have "\<bar>x * 10000\<bar> < 2 powi (19 + 1)" using x by (simp add: power_int_def)
  from round_double_err [OF this] obtain y where y: "round_double (x * 10000) = Fin y" "\<bar>y - x * 10000\<bar> \<le> 2 powi (19 - 53)" by auto
  have "(2::rat) powi (19 - 53) \<le> 1 / 4" by (simp add: power_int_def power_one_over)
  with y(2) have e: "\<bar>y - x * 10000\<bar> \<le> 1 / 4" by (rule order_trans)
  have b: "x * 10000 - 1 / 4 \<le> y" "y \<le> x * 10000 + 1 / 4" using e unfolding abs_le_iff by linarith+
  have "0 \<le> \<lfloor>y + 1 / 2\<rfloor>" using b x by (simp add: le_floor_iff)
  moreover have "\<lfloor>y + 1 / 2\<rfloor> < 1000001" using b x by (simp add: floor_less_iff)
  ultimately show ?thesis using x(1) y(1) by (intro exI [of _ "\<lfloor>y + 1 / 2\<rfloor>"]) simp
qed

text \<open>C19: What a model form can send. Whatever was typed, every upstream of a body that passes the checks names a
  provider and a model, and its multiplier for cached tokens is a whole number from 0 to a million; a malformed price or
  percentage sends nothing.\<close>

theorem upstream_body_wf:
  "(\<exists>msg. model_body f = Inl msg) \<or>
   (\<exists>body us. model_body f = Inr body \<and> opt_prop (Some body) (js ''upstreams'') = Some (JArr us) \<and> us \<noteq> [] \<and>
     (\<forall>u \<in> set us. \<exists>p m pr k. opt_prop (Some u) (js ''provider'') = Some (JStr p) \<and> p \<noteq> [] \<and>
        opt_prop (Some u) (js ''upstream_model'') = Some (JStr m) \<and> m \<noteq> [] \<and>
        opt_prop (Some u) (js ''pricing'') = Some pr \<and>
        opt_prop (Some pr) (js ''cache_hit_multiplier'') = Some (JNum (num_int k)) \<and> 0 \<le> k \<and> k \<le> 1000000))"
proof (cases "model_body f")
  case (Inr body)
  then obtain us where us: "rmap parse_upstream (mf_upstreams f) = Inr us" "mf_upstreams f \<noteq> []"
      "opt_prop (Some body) (js ''upstreams'') = Some (JArr us)"
    by (auto simp: model_body_def split: if_splits sum.splits)
  have all: "list_all2 (\<lambda>u v. parse_upstream u = Inr v) (mf_upstreams f) us" using us(1) by (simp add: rmap_Inr_conv)
  have one: "\<exists>p m pr k. opt_prop (Some v) (js ''provider'') = Some (JStr p) \<and> p \<noteq> [] \<and>
        opt_prop (Some v) (js ''upstream_model'') = Some (JStr m) \<and> m \<noteq> [] \<and>
        opt_prop (Some v) (js ''pricing'') = Some pr \<and>
        opt_prop (Some pr) (js ''cache_hit_multiplier'') = Some (JNum (num_int k)) \<and> 0 \<le> k \<and> k \<le> 1000000"
    if "parse_upstream u = Inr v" for u v
  proof -
    from that have ok: "pct_value u \<noteq> NaN" "\<not> num_lt (pct_value u) (Fin 0)" "\<not> num_lt (Fin 100) (pct_value u)"
      unfolding parse_upstream_alt by (auto split: if_splits)
    obtain k where k: "num_round (num_mul (pct_value u) (Fin 10000)) = num_int k" "0 \<le> k" "k \<le> 1000000"
      using multiplier_range [OF ok] by blast
    show ?thesis using that ok k unfolding parse_upstream_alt
      by (auto simp: rbind_Inr_conv split: if_splits)
  qed
  have "us \<noteq> []" using all us(2) by auto
  moreover have "\<forall>v \<in> set us. \<exists>u. parse_upstream u = Inr v" 
  proof
    fix v assume "v \<in> set us"
    then obtain i where "i < length us" "v = us ! i" by (auto simp: in_set_conv_nth)
    then show "\<exists>u. parse_upstream u = Inr v" using list_all2_nthD2 [OF all] by blast
  qed
  ultimately show ?thesis using Inr us(3) one by blast
qed simp

theorem upstream_body_wf_witness:
  "\<exists>body us. model_body (ModelForm_init digits10 [] (Some demo_model)) = Inr body \<and>
     opt_prop (Some body) (js ''upstreams'') = Some (JArr us) \<and> us \<noteq> []"
  using upstream_body_wf [of "ModelForm_init digits10 [] (Some demo_model)"] model_body_resave [OF demo_model_ok, of digits10 "[]"]
  by auto

end
