(* ===== verification/Desktop_Routes.thy ===== *)
theory Desktop_Routes
  imports Desktop_Models
begin

text \<open>
  The routes page of the desktop application (\<^verbatim>\<open>desktop-ui/src/pages/Routes.tsx\<close>): the labels of the
  strategies, loading the page, and the form that creates and edits a route. The candidates of a route are limited to
  the providers of the chosen model's upstreams.
\<close>

section \<open>Routes\<close>

definition STRATEGY_LABELS :: "(jsstr \<times> jsstr) list" where
  "STRATEGY_LABELS = [(js ''priority'', [0x4F18, 0x5148, 0x7EA7]), (js ''weighted'', [0x52A0, 0x6743]),
     (js ''round_robin'', [0x8F6E, 0x8BE2]), (js ''session_affinity'', [0x4F1A, 0x8BDD, 0x4EB2, 0x548C])]"

definition STRATEGIES :: "jsstr list" where
  "STRATEGIES = [js ''priority'', js ''weighted'', js ''round_robin'', js ''session_affinity'']"

text \<open>\<open>None\<close> where the lookup finds an inherited member of the object, which is no text.\<close>

definition strategyLabel :: "jsstr option \<Rightarrow> jsstr option" where
  "strategyLabel s =
     (let k = (case s of None \<Rightarrow> [] | Some x \<Rightarrow> x) in
      case map_of STRATEGY_LABELS k of
        Some l \<Rightarrow> Some l
      | None \<Rightarrow> if k \<in> set inherited_names then None else Some (case s of None \<Rightarrow> js ''-'' | Some x \<Rightarrow> x))"

record RouteProvider =
  rp_name :: jsstr
  rp_weight :: "jsnum option"

record Route =
  rt_model_alias :: jsstr
  rt_providers :: "RouteProvider list"
  rt_strategy :: jsstr

text \<open>What the form reads of a model: its alias and the providers of its upstreams, \<open>None\<close> when the list is
  missing.\<close>

record route_model =
  rm_alias :: jsstr
  rm_upstreams :: "jsstr list option"

section \<open>The form\<close>

record ProviderRowDraft =
  rd_key :: jsstr
  rd_name :: jsstr
  rd_weight :: jsstr

record route_form = form_status +
  rf_selectedModel :: jsstr
  rf_strategy :: jsstr
  rf_rows :: "ProviderRowDraft list"
  rf_uuids :: nat

definition draft_row :: "jsstr \<Rightarrow> RouteProvider \<Rightarrow> ProviderRowDraft" where
  "draft_row key p = \<lparr>rd_key = key, rd_name = rp_name p, rd_weight = (case rp_weight p of None \<Rightarrow> [] | Some w \<Rightarrow> num_repr w)\<rparr>"

definition RouteForm_init :: "(nat \<Rightarrow> jsstr) \<Rightarrow> Route option \<Rightarrow> route_form" where
  "RouteForm_init uuid dv =
     (let ps = (case dv of None \<Rightarrow> [] | Some r \<Rightarrow> rt_providers r) in
      \<lparr>fs_pending = False, fs_error = None,
       rf_selectedModel = (case dv of None \<Rightarrow> [] | Some r \<Rightarrow> rt_model_alias r),
       rf_strategy = (case dv of None \<Rightarrow> [] | Some r \<Rightarrow> rt_strategy r),
       rf_rows = map2 draft_row (map uuid [0..<length ps]) ps,
       rf_uuids = length ps\<rparr>)"

definition allowedProviders :: "route_model list \<Rightarrow> jsstr list \<Rightarrow> jsstr \<Rightarrow> jsstr list" where
  "allowedProviders models providers selectedModel =
     (if selectedModel = [] then providers
      else case find (\<lambda>m. rm_alias m = selectedModel) models of
        None \<Rightarrow> providers
      | Some m \<Rightarrow>
          (case rm_upstreams m of
             None \<Rightarrow> providers
           | Some names \<Rightarrow> filter (\<lambda>p. p \<in> set names) providers))"

text \<open>The inputs: the model can be chosen only while a route is created, from the loaded ones; a row chooses among the
  allowed providers of the moment.\<close>

datatype route_edit = SelectModel jsstr | SelectStrategy jsstr | RowName jsstr jsstr | RowWeight jsstr jsstr
  | RemoveRow jsstr | AddRow

definition patchRow :: "jsstr \<Rightarrow> (ProviderRowDraft \<Rightarrow> ProviderRowDraft) \<Rightarrow> ProviderRowDraft list \<Rightarrow> ProviderRowDraft list" where
  "patchRow key f arr = map (\<lambda>r. if rd_key r = key then f r else r) arr"

fun edit_route :: "(nat \<Rightarrow> jsstr) \<Rightarrow> route_model list \<Rightarrow> jsstr list \<Rightarrow> Route option \<Rightarrow> route_edit \<Rightarrow> route_form \<Rightarrow> route_form" where
  "edit_route uuid ms ps dv (SelectModel v) f =
     (if dv = None \<and> v \<in> rm_alias ` set ms then f\<lparr>rf_selectedModel := v\<rparr> else f)"
| "edit_route uuid ms ps dv (SelectStrategy v) f = (if v \<in> set STRATEGIES then f\<lparr>rf_strategy := v\<rparr> else f)"
| "edit_route uuid ms ps dv (RowName k v) f =
     (if v \<in> set (allowedProviders ms ps (rf_selectedModel f))
      then f\<lparr>rf_rows := patchRow k (\<lambda>r. r\<lparr>rd_name := v\<rparr>) (rf_rows f)\<rparr> else f)"
| "edit_route uuid ms ps dv (RowWeight k v) f = f\<lparr>rf_rows := patchRow k (\<lambda>r. r\<lparr>rd_weight := v\<rparr>) (rf_rows f)\<rparr>"
| "edit_route uuid ms ps dv (RemoveRow k) f = f\<lparr>rf_rows := filter (\<lambda>x. rd_key x \<noteq> k) (rf_rows f)\<rparr>"
| "edit_route uuid ms ps dv AddRow f =
     f\<lparr>rf_rows := rf_rows f @ [\<lparr>rd_key = uuid (rf_uuids f), rd_name = [], rd_weight = []\<rparr>], rf_uuids := Suc (rf_uuids f)\<rparr>"

definition edits_route :: "(nat \<Rightarrow> jsstr) \<Rightarrow> route_model list \<Rightarrow> jsstr list \<Rightarrow> Route option \<Rightarrow> route_edit list \<Rightarrow> route_form" where
  "edits_route uuid ms ps dv es = fold (edit_route uuid ms ps dv) es (RouteForm_init uuid dv)"

section \<open>Submitting\<close>

definition row_body :: "ProviderRowDraft \<Rightarrow> json" where
  "row_body r = JObj ((js ''name'', JStr (rd_name r)) #
     (if js_trim (rd_weight r) \<noteq> [] then [(js ''weight'', JNum (js_Number (rd_weight r)))] else []))"

definition route_body :: "route_form \<Rightarrow> jsstr + json" where
  "route_body f =
     (if rf_selectedModel f = [] then Inl [0x8BF7, 0x9009, 0x62E9, 0x6A21, 0x578B, 0x522B, 0x540D, 0x3002]
      else if rf_strategy f = [] then Inl [0x8BF7, 0x9009, 0x62E9, 0x7B56, 0x7565, 0x3002]
      else if length (rf_rows f) = 0 \<or> (\<exists>r \<in> set (rf_rows f). rd_name r = [])
      then Inl [0x81F3, 0x5C11, 0x9700, 0x8981, 0x4E00, 0x4E2A, 0x5019, 0x9009, 0x4F9B, 0x5E94, 0x5546, 0xFF0C, 0x4E14,
             0x6BCF, 0x884C, 0x90FD, 0x8981, 0x9009, 0x62E9, 0x4F9B, 0x5E94, 0x5546, 0x3002]
      else Inr (JObj [(js ''model_alias'', JStr (rf_selectedModel f)), (js ''strategy'', JStr (rf_strategy f)),
                      (js ''providers'', JArr (map row_body (rf_rows f)))]))"

definition route_call :: "Route option \<Rightarrow> route_form \<Rightarrow> json \<Rightarrow> json dact" where
  "route_call dv f body = (if dv \<noteq> None then desktop_updateRoute (rf_selectedModel f) body else createRoute body)"

definition RouteForm_onSubmit :: "Route option \<Rightarrow> gateway \<Rightarrow> desk \<Rightarrow> route_form \<Rightarrow> bool \<times> route_form \<times> desk" where
  "RouteForm_onSubmit dv g d f = submit_form (route_body f) (route_call dv f) None g d f"

section \<open>Loading the page\<close>

record routes_page = config_page +
  rp_models :: json
  rp_providers :: json
  rp_detailRow :: "json option"

definition Routes_init :: routes_page where
  "Routes_init = config_page.extend fresh_page \<lparr>rp_models = JArr [], rp_providers = JArr [], rp_detailRow = None\<rparr>"

definition Routes_load :: "nat \<Rightarrow> gateway \<Rightarrow> desk \<Rightarrow> routes_page \<Rightarrow> routes_page \<times> desk" where
  "Routes_load first g d p0 =
     (let p = start_load p0;
          (r1, d1) = listRoutes g d;
          (r2, d2) = listModels g d1;
          (r3, d3) = listProviders g d2
      in (case (r1, r2, r3) of
            (Inr r, Inr m, Inr ps) \<Rightarrow>
              p\<lparr>cp_rows := r, rp_models := m, rp_providers := ps, cp_error := None, cp_loading := False\<rparr>
          | _ \<Rightarrow> load_failed g (first_rejection first (rejections [r1, r2, r3])) p, d3))"

definition Routes_step :: "nat \<Rightarrow> gateway \<Rightarrow> page_event \<Rightarrow> routes_page \<times> desk \<Rightarrow> routes_page \<times> desk" where
  "Routes_step first g ev s =
     (if ev = OpenCreate \<and> \<not> has_items (rp_models (fst s)) then s
      else page_step desktop_deleteRoute (Routes_load first) g ev s)"

text \<open>The cells of a row: the alias, the label of the strategy (\<open>None\<close> for a dash) and a pill per candidate.\<close>

definition route_row :: "Route \<Rightarrow> jsstr \<times> jsstr option option \<times> jsstr list option" where
  "route_row r = (rt_model_alias r,
     if rt_strategy r \<noteq> [] then Some (strategyLabel (Some (rt_strategy r))) else None,
     if length (rt_providers r) = 0 then None
     else Some (map (\<lambda>p. rp_name p @ (case rp_weight p of None \<Rightarrow> [] | Some w \<Rightarrow> [0x20, 0xB7] @ num_repr w)) (rt_providers r)))"

text \<open>The buttons that open and close the details of a route.\<close>

definition show_detail :: "json option \<Rightarrow> routes_page \<Rightarrow> routes_page" where
  "show_detail row p = p\<lparr>rp_detailRow := row\<rparr>"

section \<open>The contracts hold\<close>

lemma route_call_contract: "api_call (route_call dv f body)"
  by (simp add: route_call_def desktop_updateRoute_def createRoute_def api_call_intros)

lemma route_status_free [simp]:
  "route_body (f\<lparr>fs_error := e, fs_pending := b\<rparr>) = route_body f"
  "route_call dv (f\<lparr>fs_error := e, fs_pending := b\<rparr>) = route_call dv f"
  by (simp_all add: route_body_def route_call_def fun_eq_iff)

interpretation route_form: save_form "RouteForm_onSubmit dv" for dv
  unfolding RouteForm_onSubmit_def [abs_def] by (intro save_form_intro route_call_contract) simp_all

interpretation routes_page: config_page_load "Routes_load first" desktop_deleteRoute for first
proof
  have contract: "api_call (desktop_deleteRoute n)" for n
    unfolding desktop_deleteRoute_def by (intro api_call_intros)
  fix n g d r d' assume "desktop_deleteRoute n g d = (r, d')"
  then show "dk_sent d' = dk_sent d \<or> (\<exists>q. dk_sent d' = dk_sent d @ [q])"
    using api_call.one_request [OF contract] by blast
  fix v assume "desktop_deleteRoute n g d = (Inr v, d')"
  then show "\<exists>q r. dk_sent d' = dk_sent d @ [q] \<and> gw_fetch g (dk_sent d') = DResp r \<and> resp_ok r"
    using api_call.answered [OF contract] by blast
next
  fix g d and p p' :: routes_page and d' assume run: "Routes_load first g d p = (p', d')"
  obtain r1 d1 r2 d2 r3 d3 where calls: "listRoutes g d = (r1, d1)" "listModels g d1 = (r2, d2)" "listProviders g d2 = (r3, d3)"
    by (metis surj_pair)
  with run have d': "d' = d3" by (simp add: Routes_load_def Let_def)
  obtain q1 q2 q3 where "dk_sent d1 = dk_sent d @ [q1]" "dk_sent d2 = dk_sent d1 @ [q2]" "dk_sent d3 = dk_sent d2 @ [q3]"
      "dr_method q1 = D_GET" "dr_method q2 = D_GET" "dr_method q3 = D_GET"
    using api_reads [of _ _ g d r1 d1] api_reads [of _ _ g d1 r2 d2] api_reads [of _ _ g d2 r3 d3] calls
    unfolding listRoutes_def listModels_def listProviders_def by metis
  then show "\<exists>qs. dk_sent d' = dk_sent d @ qs \<and> (\<forall>q \<in> set qs. dr_method q = D_GET)"
    unfolding d' by (intro exI [of _ "[q1, q2, q3]"]) simp
  show "\<not> cp_loading p' \<and> cp_createOpen p' = cp_createOpen p \<and> cp_editRow p' = cp_editRow p \<and>
      cp_deleting p' = cp_deleting p \<and> cp_confirm p' = fresh_confirm"
    using run calls by (auto simp: Routes_load_def Let_def start_load_def load_failed_def split: sum.splits)
qed

section \<open>Lemmas on the form\<close>

text \<open>While the model does not change, every named row is one of the stored ones or an allowed provider.\<close>

definition route_rows_inv :: "route_model list \<Rightarrow> jsstr list \<Rightarrow> Route \<Rightarrow> route_form \<Rightarrow> bool" where
  "route_rows_inv ms ps r f \<longleftrightarrow>
     rf_selectedModel f = rt_model_alias r \<and>
     (\<forall>row \<in> set (rf_rows f). rd_name row = [] \<or> rd_name row \<in> rp_name ` set (rt_providers r) \<or>
        rd_name row \<in> set (allowedProviders ms ps (rt_model_alias r)))"

lemma route_rows_inv_edit: "route_rows_inv ms ps r f \<Longrightarrow> route_rows_inv ms ps r (edit_route uuid ms ps (Some r) e f)"
  by (cases e) (auto simp: route_rows_inv_def patchRow_def)

lemma route_rows_inv_init: "route_rows_inv ms ps r (RouteForm_init uuid (Some r))"
  by (auto simp: route_rows_inv_def RouteForm_init_def draft_row_def set_zip Let_def)

lemma route_rows_inv_edits: "route_rows_inv ms ps r (edits_route uuid ms ps (Some r) es)"
proof -
  have "route_rows_inv ms ps r f \<Longrightarrow> route_rows_inv ms ps r (fold (edit_route uuid ms ps (Some r)) es f)" for f
    using route_rows_inv_edit by (induction es arbitrary: f) auto
  then show ?thesis unfolding edits_route_def using route_rows_inv_init by blast
qed

lemma route_call_sent:
  "dk_sent (snd (route_call dv f body g d)) =
     (case dv of
        None \<Rightarrow> dk_sent d @ [\<lparr>dr_method = D_POST, dr_path = BASE @ js ''/routes'', dr_params = [], dr_body = Some (stringify body)\<rparr>]
      | Some r \<Rightarrow>
          (case encodeURIComponent (rf_selectedModel f) of
             Inl e \<Rightarrow> dk_sent d
           | Inr seg \<Rightarrow> dk_sent d @ [\<lparr>dr_method = D_PUT, dr_path = BASE @ js ''/routes/'' @ seg, dr_params = [],
                                    dr_body = Some (stringify body)\<rparr>]))"
  by (simp add: route_call_def createRoute_def post_call_sent desktop_updateRoute_def
      put_call_def [symmetric] put_call_sent split: option.splits)

section \<open>Properties\<close>

lemma rows_body_names:
  "JArr (map row_body rows) = JArr us \<Longrightarrow> u \<in> set us \<Longrightarrow>
   \<exists>row \<in> set rows. opt_prop (Some u) (js ''name'') = Some (JStr (rd_name row))"
  by (fastforce simp: row_body_def)

text \<open>Editing a route. Whatever was typed, the save sends at most one request, a PUT at the alias the route is
  stored under, and every candidate in it is named and is one that was stored or a provider of one of the model's
  upstreams.\<close>

theorem route_candidates:
  assumes f: "f = edits_route uuid ms ps (Some r) es" and run: "RouteForm_onSubmit (Some r) g d f = (ok, f', d')"
  shows "dk_sent d' = dk_sent d \<or>
    (\<exists>q body us seg. dk_sent d' = dk_sent d @ [q] \<and> dr_method q = D_PUT \<and>
       encodeURIComponent (rt_model_alias r) = Inr seg \<and> dr_path q = BASE @ js ''/routes/'' @ seg \<and>
       dr_body q = Some (stringify body) \<and> opt_prop (Some body) (js ''providers'') = Some (JArr us) \<and> us \<noteq> [] \<and>
       (\<forall>u \<in> set us. \<exists>n. opt_prop (Some u) (js ''name'') = Some (JStr n) \<and> n \<noteq> [] \<and>
          (n \<in> rp_name ` set (rt_providers r) \<or> n \<in> set (allowedProviders ms ps (rt_model_alias r)))))"
proof -
  have inv: "route_rows_inv ms ps r f" unfolding f by (rule route_rows_inv_edits)
  then have al: "rf_selectedModel f = rt_model_alias r" by (simp add: route_rows_inv_def)
  have sent: "dk_sent d' = (case route_body f of Inl msg \<Rightarrow> dk_sent d | Inr body \<Rightarrow> dk_sent (snd (route_call (Some r) f body g d)))"
    using run submit_sent [of "route_body f" "route_call (Some r) f" None g d f] by (simp add: RouteForm_onSubmit_def)
  show ?thesis
  proof (cases "route_body f")
    case (Inr body)
    let ?q = "\<lambda>seg. \<lparr>dr_method = D_PUT, dr_path = BASE @ js ''/routes/'' @ seg, dr_params = [], dr_body = Some (stringify body)\<rparr>"
    show ?thesis
    proof (cases "encodeURIComponent (rt_model_alias r)")
      case (Inr seg)
      let ?us = "map row_body (rf_rows f)"
      from \<open>route_body f = Inr body\<close> have body: "opt_prop (Some body) (js ''providers'') = Some (JArr ?us)" "?us \<noteq> []"
          "\<forall>row \<in> set (rf_rows f). rd_name row \<noteq> []"
        by (auto simp: route_body_def split: if_splits)
      have "\<forall>u \<in> set ?us. \<exists>n. opt_prop (Some u) (js ''name'') = Some (JStr n) \<and> n \<noteq> [] \<and>
          (n \<in> rp_name ` set (rt_providers r) \<or> n \<in> set (allowedProviders ms ps (rt_model_alias r)))"
        using rows_body_names [of "rf_rows f" ?us] body(3) inv unfolding route_rows_inv_def by (metis (no_types, lifting))
      moreover have "dk_sent d' = dk_sent d @ [?q seg]"
        using sent Inr \<open>route_body f = Inr body\<close> by (simp add: route_call_sent al)
      ultimately show ?thesis using body Inr
        by (intro disjI2 exI [of _ "?q seg"] exI [of _ body] exI [of _ ?us] exI [of _ seg]) simp
    qed (use Inr sent in \<open>simp add: route_call_sent al\<close>)
  qed (use sent in simp)
qed

text \<open>A route as it is sent, and the routes this form stores.\<close>

definition route_json :: "Route \<Rightarrow> json" where
  "route_json r = JObj [(js ''model_alias'', JStr (rt_model_alias r)), (js ''strategy'', JStr (rt_strategy r)),
     (js ''providers'', JArr (map (\<lambda>p. JObj ((js ''name'', JStr (rp_name p)) # sent_field (js ''weight'') JNum (rp_weight p))) (rt_providers r)))]"

definition weight_ok :: "jsnum option \<Rightarrow> bool" where
  "weight_ok w = (case w of None \<Rightarrow> True | Some n \<Rightarrow> n = Fin 0 \<or> pos_int n)"

definition route_ok :: "Route \<Rightarrow> bool" where
  "route_ok r \<longleftrightarrow> rt_model_alias r \<noteq> [] \<and> rt_strategy r \<noteq> [] \<and> rt_providers r \<noteq> [] \<and>
     list_all (\<lambda>p. rp_name p \<noteq> [] \<and> weight_ok (rp_weight p)) (rt_providers r)"

lemma row_roundtrip:
  assumes "weight_ok (rp_weight p)"
  shows "row_body (draft_row k p) = JObj ((js ''name'', JStr (rp_name p)) # sent_field (js ''weight'') JNum (rp_weight p))"
proof (cases "rp_weight p")
  case (Some n)
  with assms obtain i where "n = num_int i" "0 \<le> i" "i \<le> 2 ^ 53"
    by (auto simp: weight_ok_def elim!: pos_intE intro: that [of 0] that less_imp_le)
  then show ?thesis using number_text_roundtrip [of i] Some unfolding row_body_def draft_row_def sent_field_def
    by (simp del: num_repr.simps)
qed (simp add: row_body_def draft_row_def sent_field_def)

text \<open>Saving a route without a change puts it back at its alias exactly as it is stored, weights included.\<close>

theorem route_resave:
  assumes "route_ok r" and "encodeURIComponent (rt_model_alias r) = Inr seg"
  shows "dk_sent (snd (snd (RouteForm_onSubmit (Some r) g d (RouteForm_init uuid (Some r))))) =
    dk_sent d @ [\<lparr>dr_method = D_PUT, dr_path = BASE @ js ''/routes/'' @ seg, dr_params = [],
      dr_body = Some (stringify (route_json r))\<rparr>]"
proof -
  let ?f = "RouteForm_init uuid (Some r)"
  have rows: "length ks = length ps \<Longrightarrow> list_all (\<lambda>p. rp_name p \<noteq> [] \<and> weight_ok (rp_weight p)) ps \<Longrightarrow>
      map row_body (map2 draft_row ks ps) = map (\<lambda>p. JObj ((js ''name'', JStr (rp_name p)) # sent_field (js ''weight'') JNum (rp_weight p))) ps \<and>
      (\<forall>row \<in> set (map2 draft_row ks ps). rd_name row \<noteq> [])" for ks ps
    by (induction ks ps rule: list_induct2) (auto simp: row_roundtrip, auto simp: draft_row_def)
  have init: "rf_selectedModel ?f = rt_model_alias r" "rf_strategy ?f = rt_strategy r"
      "rf_rows ?f = map2 draft_row (map uuid [0..<length (rt_providers r)]) (rt_providers r)"
    by (simp_all add: RouteForm_init_def Let_def)
  have "map row_body (rf_rows ?f) = map (\<lambda>p. JObj ((js ''name'', JStr (rp_name p)) # sent_field (js ''weight'') JNum (rp_weight p))) (rt_providers r)"
      "\<forall>row \<in> set (rf_rows ?f). rd_name row \<noteq> []" "length (rf_rows ?f) \<noteq> 0"
    using rows [of "map uuid [0..<length (rt_providers r)]" "rt_providers r"] assms(1) unfolding init(3) by (simp_all add: route_ok_def)
  then have "route_body ?f = Inr (route_json r)"
    using assms(1) by (auto simp: route_body_def init(1,2) route_json_def route_ok_def)
  then show ?thesis using assms(2) init(1) by (simp add: RouteForm_onSubmit_def submit_sent route_call_sent)
qed

definition demo_route :: Route where
  "demo_route = \<lparr>rt_model_alias = js ''m'', rt_providers = [\<lparr>rp_name = js ''a'', rp_weight = Some (num_int 3)\<rparr>],
     rt_strategy = js ''weighted''\<rparr>"

lemma demo_route_facts: "route_ok demo_route" "encodeURIComponent (rt_model_alias demo_route) = Inr (js ''m'')"
proof -
  show "route_ok demo_route" by (simp add: route_ok_def demo_route_def weight_ok_def pos_int_def)
  show "encodeURIComponent (rt_model_alias demo_route) = Inr (js ''m'')" by code_simp
qed

theorem route_resave_witness:
  "dk_sent (snd (snd (RouteForm_onSubmit (Some demo_route) missing_gateway idle_desk (RouteForm_init digits10 (Some demo_route))))) =
    [\<lparr>dr_method = D_PUT, dr_path = BASE @ js ''/routes/'' @ js ''m'', dr_params = [], dr_body = Some (stringify (route_json demo_route))\<rparr>]"
  using route_resave [OF demo_route_facts, of missing_gateway idle_desk digits10] by (simp add: idle_desk_def)

theorem route_candidates_witness:
  "\<exists>ok f' d'. RouteForm_onSubmit (Some demo_route) missing_gateway idle_desk (edits_route digits10 [] [js ''a''] (Some demo_route) []) = (ok, f', d') \<and>
     (dk_sent d' = [] \<or> (\<exists>q. dk_sent d' = [q] \<and> dr_method q = D_PUT))"
proof -
  obtain ok f' d' where run: "RouteForm_onSubmit (Some demo_route) missing_gateway idle_desk (edits_route digits10 [] [js ''a''] (Some demo_route) []) = (ok, f', d')"
    by (metis surj_pair)
  from route_candidates [OF refl run] run show ?thesis by (auto simp: idle_desk_def)
qed

text \<open>The limit holds only while the model stays: choosing another model keeps the rows, so a new route can be sent
  with a provider that none of the model's upstreams uses.\<close>

lemma stale_candidate:
  "let ms = [\<lparr>rm_alias = js ''a'', rm_upstreams = Some [js ''p'']\<rparr>, \<lparr>rm_alias = js ''b'', rm_upstreams = Some [js ''q'']\<rparr>];
       f = edits_route digits10 ms [js ''p'', js ''q''] None
             [SelectModel (js ''a''), SelectStrategy (js ''weighted''), AddRow, RowName (digits10 0) (js ''p''), SelectModel (js ''b'')]
   in allowedProviders ms [js ''p'', js ''q''] (rf_selectedModel f) = [js ''q''] \<and>
      route_body f = Inr (JObj [(js ''model_alias'', JStr (js ''b'')), (js ''strategy'', JStr (js ''weighted'')),
        (js ''providers'', JArr [JObj [(js ''name'', JStr (js ''p''))]])])"
  by (simp add: edits_route_def RouteForm_init_def allowedProviders_def patchRow_def STRATEGIES_def route_body_def row_body_def Let_def)

end
