(* ===== verification/Desktop_Lists.thy ===== *)
theory Desktop_Lists
  imports Desktop_Form Desktop_Format Pagination
begin

text \<open>
  The list pages of the desktop application (\<^verbatim>\<open>desktop-ui/src/pages/Sessions.tsx\<close>, \<^verbatim>\<open>RequestLogs.tsx\<close>,
  \<^verbatim>\<open>Prompts.tsx\<close>, \<^verbatim>\<open>Logs.tsx\<close>) as machines with requests in flight: an input changes the query, an effect
  sends a request for the new query, and the answers arrive later in any order.

  The first three pages apply every answer; the log page drops the answers of effects that were cleaned up. The
  statements compare the two.
\<close>

section \<open>Requests in flight\<close>

text \<open>What \<^verbatim>\<open>getJSON\<close> makes of an answer.\<close>

definition get_answer :: "dfetch \<Rightarrow> json res" where
  "get_answer a = (case a of DThrow e \<Rightarrow> Inl e | DResp r \<Rightarrow> if \<not> resp_ok r then Inl (get_failure r) else parse_body r)"

text \<open>The state of a list page: \<open>'q\<close> is its query, everything its effect depends on.\<close>

record 'q paged_list =
  lp_query :: 'q
  lp_rows :: jsval
  lp_total :: jsval
  lp_loading :: bool
  lp_error :: "jsstr option"
  lp_flight :: "(nat \<times> 'q) list"
  lp_next :: nat

definition start_fetch :: "'q paged_list \<Rightarrow> 'q paged_list" where
  "start_fetch p = p\<lparr>lp_loading := True, lp_flight := lp_flight p @ [(lp_next p, lp_query p)], lp_next := Suc (lp_next p)\<rparr>"

text \<open>The page when it is opened: the first effect has run.\<close>

definition open_list :: "'q \<Rightarrow> 'q paged_list" where
  "open_list q = start_fetch \<lparr>lp_query = q, lp_rows = Some (JArr []), lp_total = Some (JNum (Fin 0)), lp_loading = True,
     lp_error = None, lp_flight = [], lp_next = 0\<rparr>"

text \<open>The effect runs again only when a dependency changed.\<close>

definition set_query :: "'q \<Rightarrow> 'q paged_list \<Rightarrow> 'q paged_list" where
  "set_query q p = (if q = lp_query p then p else start_fetch (p\<lparr>lp_query := q\<rparr>))"

definition list_outcome :: "json res \<Rightarrow> (jsval \<times> jsval) res" where
  "list_outcome r = rbind r (\<lambda>body. rbind (get_prop (Some body) (js ''data'')) (\<lambda>rows.
     rbind (get_prop (Some body) (js ''total'')) (\<lambda>tot. Inr (rows, tot))))"

definition apply_answer :: "gateway \<Rightarrow> json res \<Rightarrow> 'q paged_list \<Rightarrow> 'q paged_list" where
  "apply_answer g r p =
     (case list_outcome r of
        Inl e \<Rightarrow> p\<lparr>lp_error := Some (desk_error_message g e), lp_loading := False\<rparr>
      | Inr (rows, tot) \<Rightarrow> p\<lparr>lp_rows := rows, lp_total := tot, lp_error := None, lp_loading := False\<rparr>)"

definition take_flight :: "nat \<Rightarrow> 'q paged_list \<Rightarrow> 'q paged_list" where
  "take_flight n p = p\<lparr>lp_flight := filter (\<lambda>(i, q). i \<noteq> n) (lp_flight p)\<rparr>"

datatype 'e list_event = Input 'e | Answer nat dfetch

fun list_step :: "('e \<Rightarrow> 'q \<Rightarrow> 'q) \<Rightarrow> gateway \<Rightarrow> 'e list_event \<Rightarrow> 'q paged_list \<Rightarrow> 'q paged_list" where
  "list_step upd g (Input e) p = set_query (upd e (lp_query p)) p"
| "list_step upd g (Answer n a) p =
     (if n \<in> fst ` set (lp_flight p) then apply_answer g (get_answer a) (take_flight n p) else p)"

definition list_run :: "('e \<Rightarrow> 'q \<Rightarrow> 'q) \<Rightarrow> gateway \<Rightarrow> 'e list_event list \<Rightarrow> 'q paged_list \<Rightarrow> 'q paged_list" where
  "list_run upd g evs p = fold (list_step upd g) evs p"

section \<open>Sessions\<close>

definition AGENTS :: "jsstr list" where
  "AGENTS = map js [''claude-code'', ''codex'', ''codebuddy'', ''workbuddy'', ''opencode'']"

definition toRFC3339 :: "jsstr \<Rightarrow> bool \<Rightarrow> jsstr option" where
  "toRFC3339 date endOfDay =
     (if date = [] then None
      else Some (date @ js ''T'' @ (if endOfDay then js ''23:59:59'' else js ''00:00:00'') @ js ''Z''))"

record sessions_query =
  sq_agent :: jsstr
  sq_from :: jsstr
  sq_to :: jsstr
  sq_page :: jsnum
  sq_pageSize :: jsnum
  sq_tick :: nat

definition Sessions_init :: "jsstr option \<Rightarrow> sessions_query" where
  "Sessions_init agent = \<lparr>sq_agent = (case agent of None \<Rightarrow> [] | Some a \<Rightarrow> a), sq_from = [], sq_to = [], sq_page = Fin 1,
     sq_pageSize = Fin 20, sq_tick = 0\<rparr>"

definition sessions_params :: "sessions_query \<Rightarrow> (jsstr \<times> jsval) list" where
  "sessions_params q =
     [(js ''agent_type'', Some (JStr (sq_agent q))), (js ''from'', map_option JStr (toRFC3339 (sq_from q) False)),
      (js ''to'', map_option JStr (toRFC3339 (sq_to q) True)), (js ''page'', Some (JNum (sq_page q))),
      (js ''page_size'', Some (JNum (sq_pageSize q)))]"

datatype sessions_input = SAgent jsstr | SFrom jsstr | STo jsstr | SPage jsnum | SPageSize jsnum | STick

fun sessions_update :: "sessions_input \<Rightarrow> sessions_query \<Rightarrow> sessions_query" where
  "sessions_update (SAgent v) q = q\<lparr>sq_agent := v, sq_page := Fin 1\<rparr>"
| "sessions_update (SFrom v) q = q\<lparr>sq_from := v, sq_page := Fin 1\<rparr>"
| "sessions_update (STo v) q = q\<lparr>sq_to := v, sq_page := Fin 1\<rparr>"
| "sessions_update (SPage n) q = q\<lparr>sq_page := n\<rparr>"
| "sessions_update (SPageSize n) q = q\<lparr>sq_pageSize := n, sq_page := Fin 1\<rparr>"
| "sessions_update STick q = q\<lparr>sq_tick := Suc (sq_tick q)\<rparr>"

text \<open>The two handlers that write; the first component tells whether the list is read again.\<close>

definition toggleFavorite :: "bool \<Rightarrow> jsstr \<Rightarrow> gateway \<Rightarrow> desk \<Rightarrow> bool \<times> desk" where
  "toggleFavorite favorited sid g d =
     (case (if favorited then unfavoriteSession sid else favoriteSession sid) g d of
        (Inr v, d') \<Rightarrow> (True, d')
      | (Inl e, d') \<Rightarrow> (False, snd (toast_error e g d')))"

definition deleteSession_confirmed :: "jsstr \<Rightarrow> gateway \<Rightarrow> desk \<Rightarrow> bool \<times> desk" where
  "deleteSession_confirmed sid g d =
     (case dbind (deleteSession sid) (\<lambda>res.
           dbind (dlift (get_prop (Some res) (js ''deleted''))) (\<lambda>n.
             show_toast (ToastSuccess ([0x5DF2, 0x5220, 0x9664, 0x20] @ val_String n @
               [0x20, 0x6761, 0x89C2, 0x6D4B, 0x8BB0, 0x5F55, 0x3002])))) g d of
        (Inr u, d') \<Rightarrow> (True, d')
      | (Inl e, d') \<Rightarrow> (False, snd (toast_error e g d')))"

section \<open>Request logs\<close>

record logs_query =
  rq_agent :: jsstr
  rq_provider :: jsstr
  rq_model :: jsstr
  rq_errorType :: jsstr
  rq_sessionID :: jsstr
  rq_requestID :: jsstr
  rq_from :: jsstr
  rq_to :: jsstr
  rq_page :: jsnum
  rq_pageSize :: jsnum

definition RequestLogs_init :: logs_query where
  "RequestLogs_init = \<lparr>rq_agent = [], rq_provider = [], rq_model = [], rq_errorType = [], rq_sessionID = [], rq_requestID = [],
     rq_from = [], rq_to = [], rq_page = Fin 1, rq_pageSize = Fin 20\<rparr>"

definition logs_params :: "logs_query \<Rightarrow> (jsstr \<times> jsval) list" where
  "logs_params q =
     [(js ''agent_type'', Some (JStr (rq_agent q))), (js ''provider'', Some (JStr (rq_provider q))),
      (js ''model_requested'', Some (JStr (rq_model q))), (js ''error_type'', Some (JStr (rq_errorType q))),
      (js ''session_id'', Some (JStr (rq_sessionID q))), (js ''request_id'', Some (JStr (rq_requestID q))),
      (js ''from'', map_option JStr (toRFC3339 (rq_from q) False)), (js ''to'', map_option JStr (toRFC3339 (rq_to q) True)),
      (js ''page'', Some (JNum (rq_page q))), (js ''page_size'', Some (JNum (rq_pageSize q)))]"

datatype logs_input = LAgent jsstr | LProvider jsstr | LModel jsstr | LErrorType jsstr | LSession jsstr | LRequest jsstr
  | LFrom jsstr | LTo jsstr | LPage jsnum | LPageSize jsnum

fun logs_update :: "logs_input \<Rightarrow> logs_query \<Rightarrow> logs_query" where
  "logs_update (LAgent v) q = q\<lparr>rq_agent := v, rq_page := Fin 1\<rparr>"
| "logs_update (LProvider v) q = q\<lparr>rq_provider := v, rq_page := Fin 1\<rparr>"
| "logs_update (LModel v) q = q\<lparr>rq_model := v, rq_page := Fin 1\<rparr>"
| "logs_update (LErrorType v) q = q\<lparr>rq_errorType := v, rq_page := Fin 1\<rparr>"
| "logs_update (LSession v) q = q\<lparr>rq_sessionID := v, rq_page := Fin 1\<rparr>"
| "logs_update (LRequest v) q = q\<lparr>rq_requestID := v, rq_page := Fin 1\<rparr>"
| "logs_update (LFrom v) q = q\<lparr>rq_from := v, rq_page := Fin 1\<rparr>"
| "logs_update (LTo v) q = q\<lparr>rq_to := v, rq_page := Fin 1\<rparr>"
| "logs_update (LPage n) q = q\<lparr>rq_page := n\<rparr>"
| "logs_update (LPageSize n) q = q\<lparr>rq_pageSize := n, rq_page := Fin 1\<rparr>"

text \<open>The status cell of a row: whether it is shown as an error, and its text.\<close>

definition log_status :: "jsstr \<Rightarrow> jsstr \<Rightarrow> bool \<times> jsstr" where
  "log_status error_type blocked_by =
     (if error_type \<noteq> [] \<or> blocked_by \<noteq> []
      then (True, if blocked_by \<noteq> [] then [0x62E6, 0x622A, 0x3A, 0x20] @ blocked_by else error_type)
      else (False, [0x6210, 0x529F]))"

section \<open>Prompts\<close>

record prompts_query =
  pq_q :: jsstr
  pq_tag :: jsstr
  pq_page :: jsnum
  pq_pageSize :: jsnum

definition Prompts_init :: prompts_query where
  "Prompts_init = \<lparr>pq_q = [], pq_tag = [], pq_page = Fin 1, pq_pageSize = Fin 20\<rparr>"

definition prompts_params :: "prompts_query \<Rightarrow> (jsstr \<times> jsval) list" where
  "prompts_params q = [(js ''q'', Some (JStr (pq_q q))), (js ''tag'', Some (JStr (pq_tag q))),
     (js ''page'', Some (JNum (pq_page q))), (js ''page_size'', Some (JNum (pq_pageSize q)))]"

datatype prompts_input = PText jsstr | PTag jsstr | PPage jsnum | PPageSize jsnum

fun prompts_update :: "prompts_input \<Rightarrow> prompts_query \<Rightarrow> prompts_query" where
  "prompts_update (PText v) q = q\<lparr>pq_q := v, pq_page := Fin 1\<rparr>"
| "prompts_update (PTag v) q = q\<lparr>pq_tag := v, pq_page := Fin 1\<rparr>"
| "prompts_update (PPage n) q = q\<lparr>pq_page := n\<rparr>"
| "prompts_update (PPageSize n) q = q\<lparr>pq_pageSize := n, pq_page := Fin 1\<rparr>"

text \<open>\<^verbatim>\<open>refresh\<close> after a write: the same query again. A deletion is reported by a toast either way.\<close>

definition deletePrompt_confirmed :: "jsnum \<Rightarrow> gateway \<Rightarrow> desk \<Rightarrow> prompts_query paged_list \<Rightarrow> prompts_query paged_list \<times> desk" where
  "deletePrompt_confirmed i g d p =
     (case dbind (deletePrompt i) (\<lambda>_. show_toast (ToastSuccess [0x5DF2, 0x5220, 0x9664, 0x3002])) g d of
        (Inr u, d') \<Rightarrow> (start_fetch p, d')
      | (Inl e, d') \<Rightarrow> (p, snd (toast_error e g d')))"

text \<open>What the page shows below its filters: the list comes with the pagination toolbar, the empty state without.\<close>

datatype prompts_view = PV_loading | PV_empty jsstr | PV_list json "toolbar option"

definition total_num :: "jsval \<Rightarrow> jsnum" where
  "total_num v = (case v of Some (JNum n) \<Rightarrow> n | _ \<Rightarrow> NaN)"

definition Prompts_view :: "prompts_query paged_list \<Rightarrow> prompts_view" where
  "Prompts_view p =
     (if lp_loading p then PV_loading
      else if lp_rows p = Some (JArr [])
      then PV_empty (if pq_q (lp_query p) \<noteq> [] \<or> pq_tag (lp_query p) \<noteq> []
                     then [0x6CA1, 0x6709, 0x5339, 0x914D, 0x7684, 0x6536, 0x85CF] else [0x8FD8, 0x6CA1, 0x6709, 0x6536, 0x85CF])
      else PV_list (coalesce (lp_rows p) JNull)
             (desktop_Pagination (pq_page (lp_query p)) (pq_pageSize (lp_query p)) (total_num (lp_total p)) (Fin 500)))"

text \<open>The preview of a prompt.\<close>

definition prompt_preview :: "jsstr \<Rightarrow> jsstr" where
  "prompt_preview content = (if length content > 500 then take 500 content @ [0x2026] else content)"

section \<open>Runtime logs\<close>

text \<open>An effect of this page is a generation: its first request and those of its timer. Choosing another tail cleans
  the effect up, so answers to requests of an earlier generation are dropped.\<close>

record logs_page =
  lg_lines :: json
  lg_tail :: jsnum
  lg_filter :: jsstr
  lg_error :: "jsstr option"
  lg_initialLoading :: bool
  lg_gen :: nat
  lg_flight :: "(nat \<times> nat \<times> jsnum) list"
  lg_next :: nat

definition fetchLogs :: "logs_page \<Rightarrow> logs_page" where
  "fetchLogs p = p\<lparr>lg_flight := lg_flight p @ [(lg_next p, lg_gen p, lg_tail p)], lg_next := Suc (lg_next p)\<rparr>"

definition Logs_init :: logs_page where
  "Logs_init = fetchLogs \<lparr>lg_lines = JArr [], lg_tail = Fin 500, lg_filter = [], lg_error = None, lg_initialLoading = True,
     lg_gen = 0, lg_flight = [], lg_next = 0\<rparr>"

datatype logs_event = SetTail jsnum | SetFilter jsstr | Poll | LogsAnswer nat dfetch

definition apply_logs :: "gateway \<Rightarrow> json res \<Rightarrow> logs_page \<Rightarrow> logs_page" where
  "apply_logs g r p =
     (case rbind r (\<lambda>body. get_prop (Some body) (js ''lines'')) of
        Inl e \<Rightarrow> p\<lparr>lg_error := Some (desk_error_message g e), lg_initialLoading := False\<rparr>
      | Inr ls \<Rightarrow> p\<lparr>lg_lines := coalesce ls (JArr []), lg_error := None, lg_initialLoading := False\<rparr>)"

fun logs_step :: "gateway \<Rightarrow> logs_event \<Rightarrow> logs_page \<Rightarrow> logs_page" where
  "logs_step g (SetTail n) p = (if n = lg_tail p then p else fetchLogs (p\<lparr>lg_tail := n, lg_gen := Suc (lg_gen p)\<rparr>))"
| "logs_step g (SetFilter s) p = p\<lparr>lg_filter := s\<rparr>"
| "logs_step g Poll p = fetchLogs p"
| "logs_step g (LogsAnswer n a) p =
     (case map_of (lg_flight p) n of
        None \<Rightarrow> p
      | Some (gen, t) \<Rightarrow>
          let p' = p\<lparr>lg_flight := filter (\<lambda>(i, x). i \<noteq> n) (lg_flight p)\<rparr>
          in if gen \<noteq> lg_gen p then p' else apply_logs g (get_answer a) p')"

text \<open>The lines that are shown, the newest first; \<open>lower\<close> is \<^verbatim>\<open>toLowerCase\<close>, whose tables are the engine's.\<close>

definition logs_visible :: "(jsstr \<Rightarrow> jsstr) \<Rightarrow> jsstr \<Rightarrow> jsstr list \<Rightarrow> jsstr list" where
  "logs_visible lower flt ls =
     (let kw = lower (js_trim flt);
          filtered = (if kw \<noteq> [] then filter (\<lambda>l. js_includes (lower l) kw) ls else ls)
      in rev filtered)"

section \<open>The contract of a query\<close>

text \<open>The requests in flight carry distinct numbers, and the latest one is for the query of the page.\<close>

definition flight_inv :: "'q paged_list \<Rightarrow> bool" where
  "flight_inv p \<longleftrightarrow> distinct (map fst (lp_flight p)) \<and> (\<forall>n \<in> fst ` set (lp_flight p). n < lp_next p) \<and>
     (lp_flight p \<noteq> [] \<longrightarrow> snd (last (lp_flight p)) = lp_query p)"

text \<open>Inputs that move within the list leave the rest alone; every other input starts again at page 1.\<close>

locale paged_query =
  fixes upd :: "'e \<Rightarrow> 'q \<Rightarrow> 'q" and moves :: "'e \<Rightarrow> bool" and page_of :: "'q \<Rightarrow> jsnum" and params :: "'q \<Rightarrow> (jsstr \<times> jsval) list"
  assumes restart: "\<not> moves e \<Longrightarrow> page_of (upd e q) = Fin 1"
    and sent_page: "map_of (params q) (js ''page'') = Some (Some (JNum (page_of q)))"
begin

lemma flight_inv_start: "flight_inv p \<Longrightarrow> flight_inv (start_fetch (p\<lparr>lp_query := q\<rparr>))"
  by (force simp: flight_inv_def start_fetch_def)

lemma flight_inv_open: "flight_inv (open_list q)"
  by (simp add: flight_inv_def open_list_def start_fetch_def)

text \<open>A request that follows an input that does not move is for page 1.\<close>

lemma restart_sent:
  assumes "\<not> moves e" and "upd e (lp_query p) \<noteq> lp_query p"
  shows "\<exists>n. lp_flight (list_step upd g (Input e) p) = lp_flight p @ [(n, upd e (lp_query p))] \<and>
    map_of (params (upd e (lp_query p))) (js ''page'') = Some (Some (JNum (Fin 1)))"
  using assms by (auto simp: set_query_def start_fetch_def restart sent_page)

end

text \<open>The answers of a run in the order of their arrival, with the query each was asked for.\<close>

fun answers :: "('e \<Rightarrow> 'q \<Rightarrow> 'q) \<Rightarrow> gateway \<Rightarrow> 'e list_event list \<Rightarrow> 'q paged_list \<Rightarrow> ('q \<times> dfetch) list" where
  "answers upd g [] p = []"
| "answers upd g (ev # evs) p =
     (case ev of
        Input e \<Rightarrow> []
      | Answer n a \<Rightarrow> (case map_of (lp_flight p) n of None \<Rightarrow> [] | Some q \<Rightarrow> [(q, a)])) @
     answers upd g evs (list_step upd g ev p)"

text \<open>Runs in which every answer is the one to the oldest request in flight.\<close>

fun in_order :: "('e \<Rightarrow> 'q \<Rightarrow> 'q) \<Rightarrow> gateway \<Rightarrow> 'e list_event list \<Rightarrow> 'q paged_list \<Rightarrow> bool" where
  "in_order upd g [] p \<longleftrightarrow> True"
| "in_order upd g (ev # evs) p \<longleftrightarrow>
     (case ev of Input e \<Rightarrow> True | Answer n a \<Rightarrow> lp_flight p \<noteq> [] \<and> fst (hd (lp_flight p)) = n) \<and>
     in_order upd g evs (list_step upd g ev p)"

text \<open>What the page shows is this answer.\<close>

definition shows_answer :: "gateway \<Rightarrow> dfetch \<Rightarrow> 'q paged_list \<Rightarrow> bool" where
  "shows_answer g a p \<longleftrightarrow> \<not> lp_loading p \<and>
     (case list_outcome (get_answer a) of
        Inl e \<Rightarrow> lp_error p = Some (desk_error_message g e)
      | Inr (rows, tot) \<Rightarrow> lp_rows p = rows \<and> lp_total p = tot \<and> lp_error p = None)"

lemma shows_apply: "shows_answer g a (apply_answer g (get_answer a) p)"
  by (auto simp: shows_answer_def apply_answer_def split: sum.splits)

lemma apply_answer_fields [simp]:
  "lp_query (apply_answer g r p) = lp_query p" "lp_flight (apply_answer g r p) = lp_flight p"
  "lp_next (apply_answer g r p) = lp_next p"
  by (auto simp: apply_answer_def split: sum.splits)

text \<open>While nothing is in flight the page shows the last answer, which was for its query.\<close>

definition settled :: "gateway \<Rightarrow> ('q \<times> dfetch) list \<Rightarrow> 'q paged_list \<Rightarrow> bool" where
  "settled g seen p \<longleftrightarrow> (lp_flight p = [] \<longrightarrow> seen \<noteq> [] \<and> fst (last seen) = lp_query p \<and> shows_answer g (snd (last seen)) p)"

context paged_query
begin

lemma settled_input:
  assumes "flight_inv p" "settled g seen p"
  shows "flight_inv (list_step upd g (Input e) p) \<and> settled g seen (list_step upd g (Input e) p)"
  using assms flight_inv_start by (auto simp: set_query_def settled_def start_fetch_def)

lemma settled_answer:
  assumes inv: "flight_inv p" and fl: "lp_flight p = (n, q) # rest"
  shows "flight_inv (list_step upd g (Answer n a) p) \<and> settled g (seen @ [(q, a)]) (list_step upd g (Answer n a) p)"
proof -
  have rest: "filter (\<lambda>(i, x). i \<noteq> n) (lp_flight p) = rest"
    using inv unfolding fl flight_inv_def by (auto simp: fl filter_id_conv image_iff)
  have step: "list_step upd g (Answer n a) p = apply_answer g (get_answer a) (take_flight n p)" by (simp add: fl)
  have flight: "lp_flight (list_step upd g (Answer n a) p) = rest" unfolding step by (simp add: take_flight_def rest)
  have "lp_query (take_flight n p) = lp_query p" "lp_next (take_flight n p) = lp_next p" by (simp_all add: take_flight_def)
  then have "flight_inv (list_step upd g (Answer n a) p)"
    using inv flight unfolding flight_inv_def step by (auto simp: fl)
  moreover have "settled g (seen @ [(q, a)]) (list_step upd g (Answer n a) p)"
    using inv flight shows_apply [of g a "take_flight n p"] unfolding settled_def flight_inv_def
    by (auto simp: fl step take_flight_def)
  ultimately show ?thesis ..
qed

lemma in_order_settled:
  assumes "in_order upd g evs p" "flight_inv p" "settled g seen p"
  shows "settled g (seen @ answers upd g evs p) (list_run upd g evs p)"
  using assms
proof (induction evs arbitrary: p seen)
  case Nil
  then show ?case by (simp add: list_run_def)
next
  case (Cons ev evs)
  show ?case
  proof (cases ev)
    case (Input e)
    with Cons settled_input [of p g seen e] show ?thesis by (simp add: list_run_def)
  next
    case (Answer n a)
    with Cons.prems obtain q rest where fl: "lp_flight p = (n, q) # rest" by (cases "lp_flight p") auto
    have "in_order upd g evs (list_step upd g ev p)" using Cons.prems(1) Answer by simp
    with settled_answer [OF Cons.prems(2) fl, of g a seen] Cons.IH [of "list_step upd g ev p" "seen @ [(q, a)]"] Answer fl
    show ?thesis by (simp add: list_run_def)
  qed
qed

lemma in_order_latest:
  assumes "in_order upd g evs (open_list q)" and "lp_flight (list_run upd g evs (open_list q)) = []"
  shows "\<exists>a. answers upd g evs (open_list q) \<noteq> [] \<and>
    last (answers upd g evs (open_list q)) = (lp_query (list_run upd g evs (open_list q)), a) \<and>
    shows_answer g a (list_run upd g evs (open_list q))"
proof -
  have "settled g [] (open_list q)" by (simp add: settled_def open_list_def start_fetch_def)
  from in_order_settled [OF assms(1) flight_inv_open this] assms(2) show ?thesis
    unfolding settled_def by (metis append_Nil prod.collapse)
qed

end

definition sessions_moves :: "sessions_input \<Rightarrow> bool" where
  "sessions_moves e = (case e of SPage n \<Rightarrow> True | STick \<Rightarrow> True | _ \<Rightarrow> False)"

definition logs_moves :: "logs_input \<Rightarrow> bool" where
  "logs_moves e = (case e of LPage n \<Rightarrow> True | _ \<Rightarrow> False)"

definition prompts_moves :: "prompts_input \<Rightarrow> bool" where
  "prompts_moves e = (case e of PPage n \<Rightarrow> True | _ \<Rightarrow> False)"

interpretation sessions: paged_query sessions_update sessions_moves sq_page sessions_params
proof
  show "sq_page (sessions_update e q) = Fin 1" if "\<not> sessions_moves e" for e q
    using that by (cases e) (simp_all add: sessions_moves_def)
qed (simp add: sessions_params_def)

interpretation request_logs: paged_query logs_update logs_moves rq_page logs_params
proof
  show "rq_page (logs_update e q) = Fin 1" if "\<not> logs_moves e" for e q
    using that by (cases e) (simp_all add: logs_moves_def)
qed (simp add: logs_params_def)

interpretation prompts: paged_query prompts_update prompts_moves pq_page prompts_params
proof
  show "pq_page (prompts_update e q) = Fin 1" if "\<not> prompts_moves e" for e q
    using that by (cases e) (simp_all add: prompts_moves_def)
qed (simp add: prompts_params_def)

section \<open>Properties\<close>

text \<open>The list pages catch up. However the filters and pages were changed in between, when the answers came in the
  order of the requests and none is outstanding, the sessions page and the request log page show the answer to the
  request for the filters and the page they display.\<close>

theorem lists_settle:
  assumes "in_order sessions_update g evs (open_list q)" and "lp_flight (list_run sessions_update g evs (open_list q)) = []"
    and "in_order logs_update g evs' (open_list q')" and "lp_flight (list_run logs_update g evs' (open_list q')) = []"
  shows "(\<exists>a. last (answers sessions_update g evs (open_list q)) = (lp_query (list_run sessions_update g evs (open_list q)), a) \<and>
       shows_answer g a (list_run sessions_update g evs (open_list q))) \<and>
    (\<exists>a. last (answers logs_update g evs' (open_list q')) = (lp_query (list_run logs_update g evs' (open_list q')), a) \<and>
       shows_answer g a (list_run logs_update g evs' (open_list q')))"
  using sessions.in_order_latest [OF assms(1,2)] request_logs.in_order_latest [OF assms(3,4)] by blast

theorem lists_settle_witness:
  "shows_answer missing_gateway (DThrow TypeError)
     (list_run sessions_update missing_gateway [Answer 0 (DThrow TypeError)] (open_list (Sessions_init None)))"
proof -
  have "answers sessions_update missing_gateway [Answer 0 (DThrow TypeError)] (open_list (Sessions_init None)) =
      [(Sessions_init None, DThrow TypeError)]"
    by (simp add: open_list_def start_fetch_def)
  with lists_settle [of missing_gateway "[Answer 0 (DThrow TypeError)]" "Sessions_init None" "[Answer 0 (DThrow TypeError)]" RequestLogs_init]
  show ?thesis
    by (auto simp: open_list_def start_fetch_def list_run_def take_flight_def)
qed

text \<open>The order matters: these pages do not cancel the request of an earlier query, so an answer that arrives late
  replaces the rows of the current one, and the page stays that way.\<close>

lemma late_answer_shown:
  assumes "sq_agent q \<noteq> v"
  shows "let p = list_run sessions_update g [Input (SAgent v), Answer 1 new, Answer 0 old] (open_list q)
    in lp_flight p = [] \<and> sq_agent (lp_query p) = v \<and> shows_answer g old p"
proof -
  have "sessions_update (SAgent v) q \<noteq> q"
  proof
    assume "sessions_update (SAgent v) q = q"
    then have "sq_agent (sessions_update (SAgent v) q) = sq_agent q" by (rule arg_cong)
    with assms show False by simp
  qed
  then have run: "list_run sessions_update g [Input (SAgent v), Answer 1 new, Answer 0 old] (open_list q) =
      apply_answer g (get_answer old) (take_flight 0 (apply_answer g (get_answer new) (take_flight 1
        (set_query (sessions_update (SAgent v) q) (open_list q)))))"
    by (simp add: list_run_def set_query_def open_list_def start_fetch_def take_flight_def)
  show ?thesis unfolding run Let_def using \<open>sessions_update (SAgent v) q \<noteq> q\<close>
    by (simp add: shows_apply take_flight_def set_query_def open_list_def start_fetch_def)
qed

text \<open>Changing a filter of a list starts again at its first page: on the three list pages, every input but those
  that choose a page or read the list again sends its request with page 1.\<close>

theorem filters_restart:
  "(\<not> sessions_moves es \<longrightarrow> map_of (sessions_params (sessions_update es qs)) (js ''page'') = Some (Some (JNum (Fin 1)))) \<and>
   (\<not> logs_moves el \<longrightarrow> map_of (logs_params (logs_update el ql)) (js ''page'') = Some (Some (JNum (Fin 1)))) \<and>
   (\<not> prompts_moves ep \<longrightarrow> map_of (prompts_params (prompts_update ep qp)) (js ''page'') = Some (Some (JNum (Fin 1))))"
  using sessions.restart [of es qs] sessions.sent_page [of "sessions_update es qs"]
    request_logs.restart [of el ql] request_logs.sent_page [of "logs_update el ql"]
    prompts.restart [of ep qp] prompts.sent_page [of "prompts_update ep qp"] by auto

theorem filters_restart_witness:
  "map_of (sessions_params (sessions_update (SAgent (js ''codex'')) (Sessions_init None))) (js ''page'') = Some (Some (JNum (Fin 1)))"
  using filters_restart [of "SAgent (js ''codex'')" "Sessions_init None"]
  by (simp add: sessions_moves_def)

text \<open>The requests of the current generation were made for the current tail.\<close>

definition logs_inv :: "logs_page \<Rightarrow> bool" where
  "logs_inv p \<longleftrightarrow> (\<forall>(n, gen, t) \<in> set (lg_flight p). gen \<le> lg_gen p \<and> (gen = lg_gen p \<longrightarrow> t = lg_tail p))"

lemma apply_logs_fields [simp]:
  "lg_flight (apply_logs g r p) = lg_flight p" "lg_gen (apply_logs g r p) = lg_gen p" "lg_tail (apply_logs g r p) = lg_tail p"
  by (auto simp: apply_logs_def split: sum.splits)

lemma logs_inv_step: "logs_inv p \<Longrightarrow> logs_inv (logs_step g ev p)"
  by (cases ev) (fastforce simp: logs_inv_def fetchLogs_def Let_def split: option.splits)+

lemma logs_inv_run: "logs_inv (fold (logs_step g) evs Logs_init)"
proof -
  have "logs_inv p \<Longrightarrow> logs_inv (fold (logs_step g) evs p)" for p
    using logs_inv_step by (induction evs arbitrary: p) simp_all
  then show ?thesis by (simp add: logs_inv_def Logs_init_def fetchLogs_def)
qed

text \<open>The log page shows no late answer. In every run, in whatever order answers arrive, an answer that changes the
  lines, the error or the loading state is one to a request for the number of lines that is chosen now.\<close>

theorem logs_current:
  assumes p: "p = fold (logs_step g) evs Logs_init" and p': "p' = logs_step g (LogsAnswer n a) p"
    and change: "(lg_lines p', lg_error p', lg_initialLoading p') \<noteq> (lg_lines p, lg_error p, lg_initialLoading p)"
  shows "\<exists>gen. map_of (lg_flight p) n = Some (gen, lg_tail p)"
proof -
  obtain gen t where m: "map_of (lg_flight p) n = Some (gen, t)" and gen: "gen = lg_gen p"
    using change unfolding p' by (auto simp: Let_def split: option.splits if_splits)
  have "logs_inv p" unfolding p by (rule logs_inv_run)
  moreover have "(n, gen, t) \<in> set (lg_flight p)" using m by (rule map_of_SomeD)
  ultimately have "t = lg_tail p" using gen by (auto simp: logs_inv_def)
  with m show ?thesis by simp
qed

theorem logs_current_witness:
  "\<exists>gen. map_of (lg_flight (fold (logs_step missing_gateway) [SetTail (Fin 200), Poll] Logs_init)) 2 = Some (gen, Fin 200)"
proof -
  obtain p where p: "p = fold (logs_step missing_gateway) [SetTail (Fin 200), Poll] Logs_init" by simp
  have load: "lg_initialLoading p" and fl: "map_of (lg_flight p) 2 = Some (lg_gen p, Fin 200)" and tl: "lg_tail p = Fin 200"
    unfolding p by (simp_all add: Logs_init_def fetchLogs_def)
  obtain p' where p': "p' = logs_step missing_gateway (LogsAnswer 2 (DThrow TypeError)) p" by simp
  have "\<not> lg_initialLoading p'"
    unfolding p' using fl by (simp add: apply_logs_def get_answer_def split: sum.splits)
  with load have "(lg_lines p', lg_error p', lg_initialLoading p') \<noteq> (lg_lines p, lg_error p, lg_initialLoading p)"
    by simp
  from logs_current [OF p p' this] show ?thesis unfolding p [symmetric] tl .
qed

text \<open>The lines that are shown are the received ones that contain the keyword, the newest first.\<close>

lemma logs_visible_spec:
  "rev (logs_visible lower flt ls) = filter (\<lambda>l. js_trim flt \<noteq> [] \<and> lower (js_trim flt) \<noteq> [] \<longrightarrow> sublist (lower (js_trim flt)) (lower l)) ls"
  if "lower [] = []"
  using that by (auto simp: logs_visible_def Let_def js_includes_sublist intro!: filter_cong)

text \<open>Deleting the only prompt of the last page asks for that page again and shows the empty state, which has no
  toolbar to get back to the prompts that are left.\<close>

lemma prompts_stranded:
  assumes "p = (open_list Prompts_init)\<lparr>lp_query := Prompts_init\<lparr>pq_page := Fin 2\<rparr>, lp_flight := [], lp_loading := False\<rparr>"
    and "get_answer a = Inr (JObj [(js ''data'', JArr []), (js ''total'', JNum (Fin 20))])"
  shows "\<exists>m. Prompts_view (list_step prompts_update g (Answer (lp_next p) a) (start_fetch p)) = PV_empty m \<and>
    lp_total (list_step prompts_update g (Answer (lp_next p) a) (start_fetch p)) = Some (JNum (Fin 20))"
  using assms by (simp add: Prompts_view_def apply_answer_def list_outcome_def start_fetch_def take_flight_def)

end
