(* ===== verification/Desktop_Viewer.thy ===== *)
theory Desktop_Viewer
  imports Desktop_Api Desktop_Format Trace_Desktop Json_Tree
begin

text \<open>
  The trace viewer of the desktop application (\<^verbatim>\<open>desktop-ui/src/pages/TraceViewer.tsx\<close>): the timeline of a
  session, the selected request with its baseline, the cache of rows, and the panels of a request.

  The page is a machine whose requests are answered later, in any order. A change of state and the effect it triggers
  are one step. Answers are typed as \<^verbatim>\<open>lib/types.ts\<close> declares them; a rejection is an error value.
\<close>

section \<open>Data\<close>

record TraceSummary =
  ts_id :: jsnum
  ts_request_id :: jsstr
  ts_client_request_id :: jsstr
  ts_session_id :: jsstr
  ts_trace_id :: jsstr
  ts_tenant :: jsstr
  ts_provider :: jsstr
  ts_model_requested :: jsstr
  ts_stream :: bool
  ts_agent_type :: jsstr
  ts_ingress_protocol :: jsstr
  ts_provider_endpoint :: jsstr
  ts_status_code :: jsnum
  ts_stop_reason :: jsstr
  ts_n_messages :: jsnum
  ts_n_tool_use :: jsnum
  ts_created_at :: jsstr

record TraceDetail = TraceDetailLike +
  td_summary :: TraceSummary
  td_error_raw :: jsstr

section \<open>The candidates\<close>

definition BASELINE_WINDOW :: nat where
  "BASELINE_WINDOW = 10"

fun find_index :: "('a \<Rightarrow> bool) \<Rightarrow> 'a list \<Rightarrow> nat option" where
  "find_index f [] = None"
| "find_index f (x # xs) = (if f x then Some 0 else map_option Suc (find_index f xs))"

text \<open>The rows above the selected one, the closest first. Ids are JSON numbers, so \<^verbatim>\<open>===\<close> is equality.\<close>

definition prevIds :: "TraceSummary list \<Rightarrow> jsnum option \<Rightarrow> jsnum list" where
  "prevIds timeline selectedId =
     (case find_index (\<lambda>t. Some (ts_id t) = selectedId) timeline of
        None \<Rightarrow> []
      | Some idx \<Rightarrow> if idx \<le> 0 then []
          else let start = idx - BASELINE_WINDOW
               in rev (map ts_id (take (idx - start) (drop start timeline))))"

section \<open>The machine\<close>

text \<open>One run of the effect that loads a row: the row itself first, then its candidates, each with its answer once
  there is one. Candidates that were cached are answered at once.\<close>

type_synonym slot = "jsnum \<times> TraceDetail res option"

record viewer =
  vw_session :: jsstr
  vw_timeline :: "TraceSummary list"
  vw_selectedId :: "jsnum option"
  vw_detail :: "TraceDetail option"
  vw_prevDetail :: "TraceDetail option"
  vw_loading :: bool
  vw_loadingDetail :: bool
  vw_error :: "jsstr option"
  vw_activeTab :: jsstr
  vw_cache :: "jsnum \<rightharpoonup> TraceDetail"
  vw_asked :: "(nat \<times> jsstr) list"
  vw_next :: nat
  vw_gen :: nat
  vw_jobs :: "nat \<rightharpoonup> slot list"

definition load_timeline :: "viewer \<Rightarrow> viewer" where
  "load_timeline p = p\<lparr>vw_loading := True, vw_asked := vw_asked p @ [(vw_next p, vw_session p)], vw_next := Suc (vw_next p)\<rparr>"

definition open_viewer :: "jsstr \<Rightarrow> viewer" where
  "open_viewer sessionId = load_timeline \<lparr>vw_session = sessionId, vw_timeline = [], vw_selectedId = None, vw_detail = None,
     vw_prevDetail = None, vw_loading = True, vw_loadingDetail = False, vw_error = None, vw_activeTab = js ''messages'',
     vw_cache = (\<lambda>_. None), vw_asked = [], vw_next = 0, vw_gen = 0, vw_jobs = (\<lambda>_. None)\<rparr>"

text \<open>The effect on the selected row. A new run cancels the one before: only the run with number \<open>vw_gen\<close> may change
  what is shown.\<close>

definition load_detail :: "viewer \<Rightarrow> viewer" where
  "load_detail p =
     (case vw_selectedId p of
        None \<Rightarrow> p\<lparr>vw_gen := Suc (vw_gen p), vw_detail := None, vw_prevDetail := None\<rparr>
      | Some i \<Rightarrow> p\<lparr>vw_gen := Suc (vw_gen p), vw_loadingDetail := True, vw_activeTab := js ''messages'',
          vw_jobs := (vw_jobs p)(Suc (vw_gen p) \<mapsto>
            (i, None) # map (\<lambda>j. (j, map_option Inr (vw_cache p j))) (prevIds (vw_timeline p) (vw_selectedId p)))\<rparr>)"

text \<open>\<^verbatim>\<open>Promise.all\<close>: rejected as soon as the row itself is, fulfilled when everything is answered. A candidate that
  failed counts as none.\<close>

definition good_answers :: "slot list \<Rightarrow> TraceDetail list" where
  "good_answers slots = concat (map (\<lambda>(i, a). case a of Some (Inr d) \<Rightarrow> [d] | _ \<Rightarrow> []) slots)"

definition detail_failed :: "gateway \<Rightarrow> jserror \<Rightarrow> viewer \<Rightarrow> viewer" where
  "detail_failed g e p = p\<lparr>vw_error := Some (desk_error_message g e), vw_loadingDetail := False\<rparr>"

definition finish_detail :: "gateway \<Rightarrow> nat \<Rightarrow> slot list \<Rightarrow> viewer \<Rightarrow> viewer" where
  "finish_detail g k slots p =
     (case slots of
        (i, Some (Inl e)) # cands \<Rightarrow> if k = 0 then detail_failed g e p else p
      | (i, Some (Inr cur)) # cands \<Rightarrow>
          if list_all (\<lambda>s. snd s \<noteq> None) cands
          then (case pickBaseline cur (good_answers cands) of
                  Inl e \<Rightarrow> detail_failed g e p
                | Inr prev \<Rightarrow> p\<lparr>vw_detail := Some cur, vw_prevDetail := prev, vw_loadingDetail := False\<rparr>)
          else p
      | _ \<Rightarrow> p)"

text \<open>The row that request \<open>k\<close> of run \<open>n\<close> asks for, while it is not answered.\<close>

definition awaited :: "viewer \<Rightarrow> nat \<Rightarrow> nat \<Rightarrow> jsnum option" where
  "awaited p n k =
     (case vw_jobs p n of
        None \<Rightarrow> None
      | Some slots \<Rightarrow> if k < length slots \<and> snd (slots ! k) = None then Some (fst (slots ! k)) else None)"

text \<open>An answer is cached even if its run was cancelled.\<close>

definition row_answer :: "gateway \<Rightarrow> nat \<Rightarrow> nat \<Rightarrow> TraceDetail res \<Rightarrow> viewer \<Rightarrow> viewer" where
  "row_answer g n k a p =
     (case awaited p n k of
        None \<Rightarrow> p
      | Some i \<Rightarrow>
          let slots = (the (vw_jobs p n))[k := (i, Some a)];
              p' = p\<lparr>vw_jobs := (vw_jobs p)(n \<mapsto> slots),
                      vw_cache := (case a of Inl e \<Rightarrow> vw_cache p | Inr d \<Rightarrow> (vw_cache p)(i \<mapsto> d))\<rparr>
          in if n \<noteq> vw_gen p then p' else finish_detail g k slots p')"

definition timeline_answer :: "gateway \<Rightarrow> TraceSummary list res \<Rightarrow> viewer \<Rightarrow> viewer" where
  "timeline_answer g r p =
     (case r of
        Inl e \<Rightarrow> p\<lparr>vw_error := Some (desk_error_message g e), vw_loading := False\<rparr>
      | Inr rows \<Rightarrow> load_detail (p\<lparr>vw_timeline := rows,
          vw_selectedId := (case rows of [] \<Rightarrow> None | t # ts \<Rightarrow> Some (ts_id t)), vw_loading := False\<rparr>))"

section \<open>What is shown\<close>

definition detail_tabs :: "TraceDetail \<Rightarrow> jsstr list" where
  "detail_tabs d = [js ''messages'', js ''request''] @
     (if truthy (td_response_raw d) then [js ''response''] else []) @
     (if td_error_raw d \<noteq> [] then [js ''error''] else [])"

datatype viewer_view =
    V_loading
  | V_error jsstr
  | V_empty jsstr
  | V_trace "(TraceDetail \<times> TraceDetail option \<times> jsstr) option"

text \<open>\<^verbatim>\<open>if (error)\<close>: an empty message is not shown.\<close>

definition TraceViewer_view :: "viewer \<Rightarrow> viewer_view" where
  "TraceViewer_view p =
     (if vw_loading p then V_loading
      else if vw_error p \<noteq> None \<and> vw_error p \<noteq> Some [] then V_error (the (vw_error p))
      else if vw_timeline p = [] then V_empty (shortId (Some (vw_session p)) (Some 16))
      else V_trace (if vw_loadingDetail p then None
                    else map_option (\<lambda>d. (d, vw_prevDetail p, vw_activeTab p)) (vw_detail p)))"

section \<open>The panels of a request\<close>

datatype detail_panel = PanelMessages "element list res" | PanelTree ParseResult | PanelText jsstr | PanelNone

definition detail_panel_of :: "TraceDetail \<Rightarrow> TraceDetail option \<Rightarrow> jsstr \<Rightarrow> detail_panel" where
  "detail_panel_of d prev tab =
     (if tab = js ''messages''
      then PanelMessages (desktop_TraceCategories (TraceDetailLike.truncate d) (map_option TraceDetailLike.truncate prev))
      else if tab = js ''request'' then PanelTree (parseJsonValue (td_request_raw d))
      else if tab = js ''response'' \<and> truthy (td_response_raw d) then PanelTree (parseJsonValue (td_response_raw d))
      else if tab = js ''error'' \<and> td_error_raw d \<noteq> [] then PanelText (td_error_raw d)
      else PanelNone)"

record RequestLogView =
  rl_id :: jsnum
  rl_tenant :: jsstr
  rl_group_name :: jsstr
  rl_api_key_id :: jsstr
  rl_provider :: jsstr
  rl_model_requested :: jsstr
  rl_model_resolved :: jsstr
  rl_stream :: bool
  rl_prompt_tokens :: jsnum
  rl_completion_tokens :: jsnum
  rl_total_tokens :: jsnum
  rl_ttft_ms :: jsnum
  rl_duration_ms :: jsnum
  rl_error_type :: jsstr
  rl_blocked_by :: jsstr
  rl_fallback :: bool
  rl_request_id :: jsstr
  rl_client_request_id :: jsstr
  rl_session_id :: jsstr
  rl_trace_id :: jsstr
  rl_session_source :: jsstr
  rl_agent_type :: jsstr
  rl_cache_hit :: bool
  rl_cache_tier :: jsstr
  rl_cache_source :: jsstr
  rl_cached_prompt_tokens :: jsnum
  rl_upstream_request_id :: jsstr
  rl_ingress_protocol :: jsstr
  rl_provider_endpoint :: jsstr
  rl_created_at :: jsstr

definition detail_isError :: "TraceDetail \<Rightarrow> bool" where
  "detail_isError d = num_le (Fin 400) (ts_status_code (td_summary d))"

text \<open>The six values; \<open>toLocale\<close> is the printing of the engine.\<close>

definition MetricsBar :: "(jsnum \<Rightarrow> jsstr) \<Rightarrow> RequestLogView option \<Rightarrow> bool \<Rightarrow> bool \<Rightarrow> (jsstr \<times> jsstr) list" where
  "MetricsBar toLocale metrics loading isError =
     (let m = (if isError then None else metrics);
          showLoading = loading \<and> \<not> isError;
          stat = (\<lambda>f. if showLoading then [0x2026] else case m of Some r \<Rightarrow> f r | None \<Rightarrow> [0x2014])
      in [(js ''Prompt Tokens'', stat (\<lambda>r. formatNumber toLocale (Some (rl_prompt_tokens r)))),
          (js ''Completion Tokens'', stat (\<lambda>r. formatNumber toLocale (Some (rl_completion_tokens r)))),
          (js ''Total Tokens'', stat (\<lambda>r. formatNumber toLocale (Some (rl_total_tokens r)))),
          (js ''TTFT'', stat (\<lambda>r. formatDuration (Some (rl_ttft_ms r)))),
          (js ''Duration'', stat (\<lambda>r. formatDuration (Some (rl_duration_ms r)))),
          (js ''Cache'', stat (\<lambda>r. if rl_cache_hit r then (if rl_cache_tier r \<noteq> [] then rl_cache_tier r else js ''hit'')
                                  else js ''miss''))])"

definition or_dash :: "jsstr \<Rightarrow> jsstr" where
  "or_dash s = (if s \<noteq> [] then s else [0x2014])"

definition MetadataCard :: "(jsstr \<Rightarrow> 'date option) \<Rightarrow> ('date \<Rightarrow> jsstr) \<Rightarrow> TraceDetail \<Rightarrow> (jsstr \<times> jsstr) list" where
  "MetadataCard parse toLocale d =
     (let t = td_summary d in
      [(js ''Provider'', ts_provider t), (js ''Stream'', if ts_stream t then [0x662F] else [0x5426]),
       (js ''Stop Reason'', or_dash (ts_stop_reason t)), (js ''Messages'', num_repr (ts_n_messages t)),
       (js ''Tool Uses'', num_repr (ts_n_tool_use t)), (js ''Tenant'', or_dash (ts_tenant t)),
       (js ''Trace ID'', shortId (Some (ts_trace_id t)) (Some 18)),
       (js ''Created At'', formatTime parse toLocale (Some (ts_created_at t)))])"

record DispatchStep =
  ds_id :: jsnum
  ds_request_id :: jsstr
  ds_ordinal :: jsnum
  ds_provider :: jsstr
  ds_endpoint :: jsstr
  ds_action :: jsstr
  ds_skip_reason :: jsstr
  ds_selection_outcome :: jsstr
  ds_error_type :: jsstr
  ds_upstream_request_id :: jsstr
  ds_duration_ms :: jsnum
  ds_created_at :: jsstr

definition step_badge :: "DispatchStep \<Rightarrow> tone \<times> jsstr" where
  "step_badge s =
     (if ds_action s = js ''skipped'' then (T_muted, [0x8DF3, 0x8FC7, 0x20, 0xB7, 0x20] @ ds_skip_reason s)
      else if ds_selection_outcome s = js ''selected'' then (T_success, [0x547D, 0x4E2D])
      else if ds_selection_outcome s = js ''retryable_failure''
      then (T_warning, [0x53EF, 0x91CD, 0x8BD5, 0x5931, 0x8D25, 0x20, 0xB7, 0x20] @ ds_error_type s)
      else (T_destructive, [0x7EC8, 0x6001, 0x5931, 0x8D25, 0x20, 0xB7, 0x20] @ ds_error_type s))"

text \<open>A step: its number, provider, endpoint, badge, duration, upstream id, and whether a line to the next one follows.\<close>

definition step_row :: "nat \<Rightarrow> nat \<Rightarrow> DispatchStep \<Rightarrow>
    jsstr \<times> jsstr \<times> jsstr option \<times> (tone \<times> jsstr) \<times> jsstr option \<times> jsstr option \<times> bool" where
  "step_row n i s =
     (num_repr (num_add (ds_ordinal s) (Fin 1)), ds_provider s,
      if ds_endpoint s \<noteq> [] then Some (js ''/'' @ ds_endpoint s) else None, step_badge s,
      if num_lt (Fin 0) (ds_duration_ms s) then Some (formatDuration (Some (ds_duration_ms s))) else None,
      if ds_upstream_request_id s \<noteq> [] then Some (js ''upstream: '' @ shortId (Some (ds_upstream_request_id s)) (Some 12)) else None,
      i \<noteq> n - 1)"

datatype dispatch_view = DP_loading | DP_none
  | DP_steps "(jsstr \<times> jsstr \<times> jsstr option \<times> (tone \<times> jsstr) \<times> jsstr option \<times> jsstr option \<times> bool) list"

definition DispatchPath_view :: "bool \<Rightarrow> DispatchStep list option \<Rightarrow> dispatch_view" where
  "DispatchPath_view loading steps =
     (if loading then DP_loading
      else case steps of
        None \<Rightarrow> DP_none
      | Some ss \<Rightarrow> if ss = [] then DP_none else DP_steps (map (\<lambda>(i, s). step_row (length ss) i s) (enumerate 0 ss)))"

section \<open>Data of a request that is loaded on its own\<close>

text \<open>\<^verbatim>\<open>DetailView\<close> and \<^verbatim>\<open>DispatchPath\<close> load by an effect on the request id that drops the answers of earlier runs.
  \<open>reset\<close> is what a run makes of the value it finds, \<open>arrived\<close> what it makes of its answer; the run number identifies
  the request.\<close>

record ('k, 'v) keyed_load =
  kl_key :: 'k
  kl_value :: 'v
  kl_loading :: bool
  kl_runs :: "'k list"

definition kl_start :: "('v \<Rightarrow> 'v) \<Rightarrow> ('k, 'v) keyed_load \<Rightarrow> ('k, 'v) keyed_load" where
  "kl_start reset p = p\<lparr>kl_loading := True, kl_value := reset (kl_value p), kl_runs := kl_runs p @ [kl_key p]\<rparr>"

definition kl_open :: "('v \<Rightarrow> 'v) \<Rightarrow> 'v \<Rightarrow> 'k \<Rightarrow> ('k, 'v) keyed_load" where
  "kl_open reset v k = kl_start reset \<lparr>kl_key = k, kl_value = v, kl_loading = True, kl_runs = []\<rparr>"

datatype ('k, 'a) keyed_event = Rekey 'k | Arrive nat "'a res"

fun kl_step :: "('v \<Rightarrow> 'v) \<Rightarrow> ('a res \<Rightarrow> 'v) \<Rightarrow> ('k, 'a) keyed_event \<Rightarrow> ('k, 'v) keyed_load \<Rightarrow> ('k, 'v) keyed_load" where
  "kl_step reset arrived (Rekey k) p = (if k = kl_key p then p else kl_start reset (p\<lparr>kl_key := k\<rparr>))"
| "kl_step reset arrived (Arrive n a) p =
     (if Suc n = length (kl_runs p) then p\<lparr>kl_value := arrived a, kl_loading := False\<rparr> else p)"

text \<open>\<^verbatim>\<open>r.data[0] ?? null\<close>, and \<^verbatim>\<open>null\<close> after a failure.\<close>

definition metrics_step :: "(jsstr, RequestLogView list) keyed_event \<Rightarrow> (jsstr, RequestLogView option) keyed_load \<Rightarrow>
    (jsstr, RequestLogView option) keyed_load" where
  "metrics_step = kl_step (\<lambda>_. None) (\<lambda>a. case a of Inr (r # rs) \<Rightarrow> Some r | _ \<Rightarrow> None)"

definition metrics_open :: "jsstr \<Rightarrow> (jsstr, RequestLogView option) keyed_load" where
  "metrics_open = kl_open (\<lambda>_. None) None"

definition dispatch_step :: "(jsstr, DispatchStep list) keyed_event \<Rightarrow> (jsstr, DispatchStep list option) keyed_load \<Rightarrow>
    (jsstr, DispatchStep list option) keyed_load" where
  "dispatch_step = kl_step (\<lambda>v. v) (\<lambda>a. case a of Inr ss \<Rightarrow> Some ss | Inl e \<Rightarrow> None)"

definition dispatch_open :: "jsstr \<Rightarrow> (jsstr, DispatchStep list option) keyed_load" where
  "dispatch_open = kl_open (\<lambda>v. v) None"

section \<open>Events\<close>

datatype viewer_event =
    OpenSession jsstr
  | TimelineAnswer nat "TraceSummary list res"
  | Select jsnum
  | RowAnswer nat nat "TraceDetail res"
  | SetTab jsstr

text \<open>The buttons of the timeline and of the tabs are there only while they are shown.\<close>

fun viewer_raw_step :: "gateway \<Rightarrow> viewer_event \<Rightarrow> viewer \<Rightarrow> viewer" where
  "viewer_raw_step g (OpenSession s) p = (if s = vw_session p then p else load_timeline (p\<lparr>vw_session := s\<rparr>))"
| "viewer_raw_step g (TimelineAnswer n r) p =
     (if n \<in> fst ` set (vw_asked p)
      then timeline_answer g r (p\<lparr>vw_asked := filter (\<lambda>(i, s). i \<noteq> n) (vw_asked p)\<rparr>) else p)"
| "viewer_raw_step g (Select i) p =
     (case TraceViewer_view p of
        V_trace t \<Rightarrow> if i \<in> ts_id ` set (vw_timeline p) \<and> vw_selectedId p \<noteq> Some i
                    then load_detail (p\<lparr>vw_selectedId := Some i\<rparr>) else p
      | _ \<Rightarrow> p)"
| "viewer_raw_step g (RowAnswer n k a) p = row_answer g n k a p"
| "viewer_raw_step g (SetTab v) p =
     (case TraceViewer_view p of
        V_trace (Some (d, prev, tab)) \<Rightarrow> if v \<in> set (detail_tabs d) then p\<lparr>vw_activeTab := v\<rparr> else p
      | _ \<Rightarrow> p)"

text \<open>The effect of \<^verbatim>\<open>DetailView\<close> that leaves a tab the request does not have.\<close>

definition snap_tab :: "viewer \<Rightarrow> viewer" where
  "snap_tab p =
     (case TraceViewer_view p of
        V_trace (Some (d, prev, tab)) \<Rightarrow> if tab \<in> set (detail_tabs d) then p else p\<lparr>vw_activeTab := js ''messages''\<rparr>
      | _ \<Rightarrow> p)"

definition viewer_step :: "gateway \<Rightarrow> viewer_event \<Rightarrow> viewer \<Rightarrow> viewer" where
  "viewer_step g ev p = snap_tab (viewer_raw_step g ev p)"

definition viewer_run :: "gateway \<Rightarrow> viewer_event list \<Rightarrow> viewer \<Rightarrow> viewer" where
  "viewer_run g evs p = fold (viewer_step g) evs p"

text \<open>The rows that were received in a run, each with the id it was asked for.\<close>

definition got :: "viewer \<Rightarrow> viewer_event \<Rightarrow> (jsnum \<times> TraceDetail) set" where
  "got p ev =
     (case ev of
        RowAnswer n k (Inr d) \<Rightarrow> (case awaited p n k of None \<Rightarrow> {} | Some i \<Rightarrow> {(i, d)})
      | _ \<Rightarrow> {})"

fun received :: "gateway \<Rightarrow> viewer_event list \<Rightarrow> viewer \<Rightarrow> (jsnum \<times> TraceDetail) set" where
  "received g [] p = {}"
| "received g (ev # evs) p = got p ev \<union> received g evs (viewer_step g ev p)"

section \<open>The invariant\<close>

text \<open>What is cached or held by a run was received for its row.\<close>

definition rows_inv :: "(jsnum \<times> TraceDetail) set \<Rightarrow> viewer \<Rightarrow> bool" where
  "rows_inv S p \<longleftrightarrow> (\<forall>i d. vw_cache p i = Some d \<longrightarrow> (i, d) \<in> S) \<and>
     (\<forall>n slots. vw_jobs p n = Some slots \<longrightarrow> n \<le> vw_gen p \<and> (\<forall>i d. (i, Some (Inr d)) \<in> set slots \<longrightarrow> (i, d) \<in> S))"

definition finished :: "slot list \<Rightarrow> bool" where
  "finished slots \<longleftrightarrow> (\<exists>e. snd (hd slots) = Some (Inl e)) \<or> (\<forall>s \<in> set slots. snd s \<noteq> None)"

text \<open>The current run is for the selected row and the rows above it, and while the placeholder is shown it waits for
  an answer.\<close>

definition run_inv :: "viewer \<Rightarrow> bool" where
  "run_inv p \<longleftrightarrow>
     (case vw_selectedId p of
        None \<Rightarrow> vw_jobs p (vw_gen p) = None
      | Some i \<Rightarrow> i \<in> ts_id ` set (vw_timeline p) \<and> (\<exists>slots. vw_jobs p (vw_gen p) = Some slots \<and> map fst slots = i # prevIds (vw_timeline p) (Some i) \<and>
          (vw_loadingDetail p \<longrightarrow> \<not> finished slots)))"

text \<open>The detail is that of the selected row, with a baseline among the rows above it.\<close>

definition detail_ok :: "(jsnum \<times> TraceDetail) set \<Rightarrow> viewer \<Rightarrow> TraceDetail \<Rightarrow> TraceDetail option \<Rightarrow> bool" where
  "detail_ok S p d prev \<longleftrightarrow> (\<exists>i. vw_selectedId p = Some i \<and> (i, d) \<in> S \<and>
     (\<exists>cands. pickBaseline d cands = Inr prev \<and> (\<forall>b \<in> set cands. \<exists>j \<in> set (prevIds (vw_timeline p) (Some i)). (j, b) \<in> S)))"

definition shown_inv :: "(jsnum \<times> TraceDetail) set \<Rightarrow> viewer \<Rightarrow> bool" where
  "shown_inv S p \<longleftrightarrow> (\<not> vw_loadingDetail p \<and> vw_error p = None \<longrightarrow> (vw_selectedId p \<noteq> None \<longrightarrow> vw_detail p \<noteq> None) \<and>
     (\<forall>d. vw_detail p = Some d \<longrightarrow> detail_ok S p d (vw_prevDetail p)))"

definition viewer_inv :: "(jsnum \<times> TraceDetail) set \<Rightarrow> viewer \<Rightarrow> bool" where
  "viewer_inv S p \<longleftrightarrow> rows_inv S p \<and> run_inv p \<and> shown_inv S p"

lemma viewer_inv_cong:
  assumes "vw_cache p' = vw_cache p" "vw_jobs p' = vw_jobs p" "vw_gen p' = vw_gen p" "vw_selectedId p' = vw_selectedId p"
    "vw_timeline p' = vw_timeline p" "vw_loadingDetail p' = vw_loadingDetail p" "vw_error p' = vw_error p"
    "vw_detail p' = vw_detail p" "vw_prevDetail p' = vw_prevDetail p"
  shows "viewer_inv S p' = viewer_inv S p"
  unfolding viewer_inv_def rows_inv_def run_inv_def shown_inv_def detail_ok_def assms ..

lemma viewer_inv_frame [simp]:
  "viewer_inv S (p\<lparr>vw_activeTab := t\<rparr>) = viewer_inv S p"
  "viewer_inv S (p\<lparr>vw_session := s\<rparr>) = viewer_inv S p"
  "viewer_inv S (p\<lparr>vw_asked := q\<rparr>) = viewer_inv S p"
  "viewer_inv S (p\<lparr>vw_loading := b\<rparr>) = viewer_inv S p"
  "viewer_inv S (load_timeline p) = viewer_inv S p"
  by (rule viewer_inv_cong; simp add: load_timeline_def)+

lemma viewer_inv_error: "viewer_inv S p \<Longrightarrow> viewer_inv S (p\<lparr>vw_error := Some m\<rparr>)"
  by (auto simp: viewer_inv_def rows_inv_def run_inv_def shown_inv_def split: option.splits)

lemma snap_tab_inv [simp]: "viewer_inv S (snap_tab p) = viewer_inv S p"
  by (auto simp: snap_tab_def split: viewer_view.splits option.splits)

lemma detail_ok_mono: "detail_ok S p d prev \<Longrightarrow> S \<subseteq> T \<Longrightarrow> detail_ok T p d prev"
  unfolding detail_ok_def by (meson subsetD)

lemma viewer_inv_mono:
  assumes "viewer_inv S p" and "S \<subseteq> T"
  shows "viewer_inv T p"
proof -
  have "rows_inv T p" using assms unfolding viewer_inv_def rows_inv_def by blast
  moreover have "shown_inv T p"
    using assms detail_ok_mono [OF _ assms(2)] unfolding viewer_inv_def shown_inv_def by blast
  ultimately show ?thesis using assms(1) by (simp add: viewer_inv_def)
qed

lemma cached_slot [simp]: "Some (Inr d) = map_option Inr x \<longleftrightarrow> x = Some d"
  by (cases x) auto

lemma load_detail_inv:
  assumes inv: "rows_inv S p" and sel: "\<And>i. vw_selectedId p = Some i \<Longrightarrow> i \<in> ts_id ` set (vw_timeline p)"
  shows "viewer_inv S (load_detail p)"
proof (cases "vw_selectedId p")
  case None
  have "vw_jobs p (Suc (vw_gen p)) = None"
    using inv unfolding rows_inv_def by (metis Suc_n_not_le_n option.exhaust)
  with None inv show ?thesis
    by (auto simp: viewer_inv_def rows_inv_def run_inv_def shown_inv_def load_detail_def intro: le_SucI)
next
  case (Some i)
  let ?cands = "map (\<lambda>j. (j, map_option Inr (vw_cache p j))) (prevIds (vw_timeline p) (Some i))"
  have "rows_inv S (load_detail p)"
    using inv Some by (auto simp: rows_inv_def load_detail_def intro: le_SucI)
  moreover have "map fst ((i, None) # ?cands) = i # prevIds (vw_timeline p) (Some i)" by (simp add: comp_def)
  ultimately show ?thesis
    using Some sel by (simp add: viewer_inv_def run_inv_def shown_inv_def load_detail_def finished_def)
qed

lemma run_inv_current:
  assumes "run_inv p" and "vw_jobs p (vw_gen p) = Some slots"
  obtains i where "vw_selectedId p = Some i" and "i \<in> ts_id ` set (vw_timeline p)" and "map fst slots = i # prevIds (vw_timeline p) (Some i)"
    and "vw_loadingDetail p \<Longrightarrow> \<not> finished slots"
  using assms by (auto simp: run_inv_def split: option.splits)

text \<open>Everything a list of answered slots holds was received.\<close>

lemma good_answers_received:
  assumes "b \<in> set (good_answers slots)" and "\<forall>i d. (i, Some (Inr d)) \<in> set slots \<longrightarrow> (i, d) \<in> S"
  shows "\<exists>j \<in> set (map fst slots). (j, b) \<in> S"
proof -
  obtain j where "(j, Some (Inr b)) \<in> set slots"
    using assms(1) by (auto simp: good_answers_def split: option.splits sum.splits)
  with assms(2) show ?thesis by force
qed

text \<open>An answer keeps what was received, and finishing the current run shows its row.\<close>

lemma awaited_slots:
  assumes "awaited p n k = Some i"
  obtains slots where "vw_jobs p n = Some slots" "k < length slots" "slots ! k = (i, None)"
  using assms by (auto simp: awaited_def prod_eq_iff split: option.splits if_splits)

lemma rows_inv_answer:
  fixes a :: "TraceDetail res"
  assumes inv: "rows_inv S p" and job: "vw_jobs p n = Some slots" and i: "slots ! k = (i, None)"
  defines "S' \<equiv> S \<union> (case a of Inl e \<Rightarrow> {} | Inr d \<Rightarrow> {(i, d)})"
  shows "rows_inv S' (p\<lparr>vw_jobs := (vw_jobs p)(n \<mapsto> slots[k := (i, Some a)]),
      vw_cache := (case a of Inl e \<Rightarrow> vw_cache p | Inr d \<Rightarrow> (vw_cache p)(i \<mapsto> d))\<rparr>)"
proof -
  have "(j, Some (Inr d)) \<in> set (slots[k := (i, Some a)]) \<Longrightarrow> (j, d) \<in> S'" for j d
    using set_update_subset_insert [of slots k "(i, Some a)"] inv job unfolding rows_inv_def S'_def by auto
  moreover have "m \<le> vw_gen p \<and> (\<forall>j d. (j, Some (Inr d)) \<in> set sl \<longrightarrow> (j, d) \<in> S')" if "vw_jobs p m = Some sl" for m sl
    using inv that unfolding rows_inv_def S'_def by blast
  ultimately show ?thesis
    using inv job unfolding rows_inv_def S'_def by (auto split: sum.splits)
qed

lemma finish_detail_inv:
  assumes rows: "rows_inv S p" and shown: "shown_inv S p" and job: "vw_jobs p (vw_gen p) = Some slots"
    and sel: "vw_selectedId p = Some i" "i \<in> ts_id ` set (vw_timeline p)" and ids: "map fst slots = i # prevIds (vw_timeline p) (Some i)"
    and failed: "vw_loadingDetail p \<Longrightarrow> k = 0 \<or> (\<forall>e. snd (hd slots) \<noteq> Some (Inl e))"
  shows "viewer_inv S (finish_detail g k slots p)"
proof -
  from ids obtain x cands where slots: "slots = (i, x) # cands" and cids: "map fst cands = prevIds (vw_timeline p) (Some i)"
    by (cases slots) (auto simp: prod_eq_iff)
  have recv: "\<forall>j d. (j, Some (Inr d)) \<in> set slots \<longrightarrow> (j, d) \<in> S" using rows job unfolding rows_inv_def by blast
  have keep: "viewer_inv S p" if "vw_loadingDetail p \<Longrightarrow> \<not> finished slots"
    using that rows shown job sel ids by (simp add: viewer_inv_def run_inv_def)
  have fail: "viewer_inv S (detail_failed g e p)" for e
    using rows job sel ids by (simp add: viewer_inv_def run_inv_def shown_inv_def rows_inv_def detail_failed_def)
  consider e where "x = Some (Inl e)" | cur where "x = Some (Inr cur)" "list_all (\<lambda>s. snd s \<noteq> None) cands"
    | cur where "x = Some (Inr cur)" "\<not> list_all (\<lambda>s. snd s \<noteq> None) cands" | "x = None"
    by (metis obj_sumE option.exhaust)
  then show ?thesis
  proof cases
    case (1 e)
    with failed fail keep show ?thesis by (cases "k = 0") (auto simp: finish_detail_def slots)
  next
    case (2 cur)
    show ?thesis
    proof (cases "pickBaseline cur (good_answers cands)")
      case (Inl e)
      with 2 fail show ?thesis by (simp add: finish_detail_def slots)
    next
      case (Inr prev)
      have "\<forall>b \<in> set (good_answers cands). \<exists>j \<in> set (prevIds (vw_timeline p) (Some i)). (j, b) \<in> S"
        using good_answers_received [of _ cands S] recv cids by (simp add: slots)
      moreover have "(i, cur) \<in> S" using recv 2 by (simp add: slots)
      ultimately have "detail_ok S p cur prev" using sel Inr by (auto simp: detail_ok_def)
      with rows job sel ids 2 Inr show ?thesis
        by (simp add: finish_detail_def slots viewer_inv_def run_inv_def shown_inv_def rows_inv_def detail_ok_def)
    qed
  next
    case (3 cur)
    then have "\<not> finished slots" by (auto simp: finished_def slots list_all_iff)
    with 3 keep show ?thesis by (simp add: finish_detail_def slots)
  next
    case 4
    then have "\<not> finished slots" by (simp add: finished_def slots)
    with 4 keep show ?thesis by (simp add: finish_detail_def slots)
  qed
qed

lemma row_answer_inv:
  fixes a :: "TraceDetail res"
  assumes inv: "viewer_inv S p" and aw: "awaited p n k = Some i"
  defines "S' \<equiv> S \<union> got p (RowAnswer n k a)"
  shows "viewer_inv S' (row_answer g n k a p)"
proof -
  obtain slots where job: "vw_jobs p n = Some slots" and k: "k < length slots" "slots ! k = (i, None)"
    using aw by (rule awaited_slots)
  let ?sl = "slots[k := (i, Some a)]"
  let ?p = "p\<lparr>vw_jobs := (vw_jobs p)(n \<mapsto> ?sl), vw_cache := (case a of Inl e \<Rightarrow> vw_cache p | Inr d \<Rightarrow> (vw_cache p)(i \<mapsto> d))\<rparr>"
  have S': "S' = S \<union> (case a of Inl e \<Rightarrow> {} | Inr d \<Rightarrow> {(i, d)})" unfolding S'_def got_def by (auto simp: aw split: sum.splits)
  have run: "row_answer g n k a p = (if n \<noteq> vw_gen p then ?p else finish_detail g k ?sl ?p)"
    by (simp add: row_answer_def aw job Let_def)
  have rows: "rows_inv S' ?p" using rows_inv_answer [OF _ job k(2)] inv unfolding S' viewer_inv_def by blast
  have "S \<subseteq> S'" by (auto simp: S'_def)
  with inv have big: "viewer_inv S' p" by (rule viewer_inv_mono)
  then have shown: "shown_inv S' ?p" by (simp add: viewer_inv_def shown_inv_def detail_ok_def)
  show ?thesis
  proof (cases "n = vw_gen p")
    case False
    have "run_inv p" using big by (simp add: viewer_inv_def)
    then have "run_inv ?p" using False by (simp add: run_inv_def split: option.splits)
    with rows shown run False show ?thesis by (simp add: viewer_inv_def)
  next
    case True
    have "run_inv p" using inv by (simp add: viewer_inv_def)
    with job True obtain i0 where sel: "vw_selectedId p = Some i0" "i0 \<in> ts_id ` set (vw_timeline p)" and ids: "map fst slots = i0 # prevIds (vw_timeline p) (Some i0)"
      and nf: "vw_loadingDetail p \<Longrightarrow> \<not> finished slots" by (metis run_inv_current)
    have ids': "map fst ?sl = i0 # prevIds (vw_timeline p) (Some i0)"
      using k ids by (metis fst_conv list_update_id map_update nth_map)
    have "k = 0 \<or> (\<forall>e. snd (hd ?sl) \<noteq> Some (Inl e))" if "vw_loadingDetail p"
      using nf [OF that] k by (cases slots; cases k) (auto simp: finished_def)
    with rows shown sel ids' True have "viewer_inv S' (finish_detail g k ?sl ?p)" by (intro finish_detail_inv) simp_all
    with run True show ?thesis by simp
  qed
qed

lemma viewer_step_inv:
  assumes "viewer_inv S p"
  shows "viewer_inv (S \<union> got p ev) (viewer_step g ev p)"
proof -
  have rows: "rows_inv S p" using assms by (simp add: viewer_inv_def)
  have "viewer_inv (S \<union> got p ev) (viewer_raw_step g ev p)"
  proof (cases ev)
    case (OpenSession s)
    with assms show ?thesis by (simp add: got_def)
  next
    case (TimelineAnswer n r)
    show ?thesis
    proof (cases r)
      case (Inl e)
      with TimelineAnswer assms viewer_inv_error show ?thesis by (simp add: got_def timeline_answer_def)
    next
      case (Inr rs)
      have "rows_inv S (p\<lparr>vw_asked := x, vw_timeline := rs, vw_selectedId := y, vw_loading := False\<rparr>)" for x y
        using rows by (simp add: rows_inv_def)
      then have "viewer_inv S (timeline_answer g r (p\<lparr>vw_asked := x\<rparr>))" for x
        unfolding timeline_answer_def Inr by (auto intro!: load_detail_inv split: list.splits)
      with TimelineAnswer assms show ?thesis by (simp add: got_def)
    qed
  next
    case (Select i)
    have "rows_inv S (p\<lparr>vw_selectedId := Some i\<rparr>)" using rows by (simp add: rows_inv_def)
    then have "i \<in> ts_id ` set (vw_timeline p) \<Longrightarrow> viewer_inv S (load_detail (p\<lparr>vw_selectedId := Some i\<rparr>))"
      by (rule load_detail_inv) simp
    with Select assms show ?thesis by (simp add: got_def split: viewer_view.split)
  next
    case (RowAnswer n k a)
    then show ?thesis
      using row_answer_inv [OF assms] assms by (cases "awaited p n k") (auto simp: row_answer_def got_def split: sum.splits)
  next
    case (SetTab v)
    with assms show ?thesis by (auto simp: got_def split: viewer_view.split option.split)
  qed
  then show ?thesis by (simp add: viewer_step_def)
qed

lemma viewer_run_inv: "viewer_inv S p \<Longrightarrow> viewer_inv (S \<union> received g evs p) (viewer_run g evs p)"
proof (induction evs arbitrary: S p)
  case (Cons ev evs)
  from Cons.IH [OF viewer_step_inv [OF Cons.prems, of ev g]] show ?case by (simp add: viewer_run_def Un_assoc)
qed (simp add: viewer_run_def)

lemma open_viewer_inv: "viewer_inv {} (open_viewer s)"
  by (simp add: open_viewer_def load_timeline_def viewer_inv_def rows_inv_def run_inv_def shown_inv_def)

lemma viewer_reach_inv: "viewer_inv (received g evs (open_viewer s)) (viewer_run g evs (open_viewer s))"
  using viewer_run_inv [OF open_viewer_inv] by simp

section \<open>Lemmas\<close>

lemma find_index_SomeD: "find_index f xs = Some n \<Longrightarrow> n < length xs \<and> take n xs = takeWhile (\<lambda>x. \<not> f x) xs"
  by (induction xs arbitrary: n) (auto split: if_splits)

lemma find_index_None: "find_index f xs = None \<longleftrightarrow> (\<forall>x \<in> set xs. \<not> f x)"
  by (induction xs) auto

lemma rev_take_window:
  assumes "n \<le> length xs"
  shows "rev (take (n - (n - w)) (drop (n - w) xs)) = take w (rev (take n xs))"
proof -
  have "take (n - (n - w)) (drop (n - w) xs) = drop (n - w) (take n xs)" by (simp add: take_drop)
  then have "rev (take (n - (n - w)) (drop (n - w) xs)) = take (n - (n - w)) (rev (take n xs))"
    using assms by (simp add: rev_drop)
  then show ?thesis by (cases "w \<le> n") simp_all
qed

text \<open>The view after a step has a tab the request has.\<close>

lemma snap_tab_view:
  assumes "TraceViewer_view (snap_tab p) = V_trace (Some (d, prev, tab))"
  shows "tab \<in> set (detail_tabs d)"
proof (cases "TraceViewer_view p")
  case (V_trace t)
  then show ?thesis using assms
    by (cases t) (auto simp: snap_tab_def TraceViewer_view_def detail_tabs_def split: if_splits)
qed (use assms in \<open>simp_all add: snap_tab_def\<close>)

lemma viewer_run_snapped:
  assumes "evs \<noteq> []"
  shows "\<exists>q. viewer_run g evs p = snap_tab q"
proof -
  obtain es e where "evs = es @ [e]" using assms by (metis rev_exhaust)
  then show ?thesis by (auto simp: viewer_run_def viewer_step_def)
qed

text \<open>An error stays.\<close>

lemma vw_error_frame [simp]:
  "vw_error (load_detail p) = vw_error p" "vw_error (snap_tab p) = vw_error p" "vw_error (load_timeline p) = vw_error p"
  by (auto simp: load_detail_def snap_tab_def load_timeline_def split: option.splits viewer_view.splits)

lemma viewer_step_error: "vw_error p \<noteq> None \<Longrightarrow> vw_error (viewer_step g ev p) \<noteq> None"
proof -
  assume e: "vw_error p \<noteq> None"
  have "vw_error (finish_detail g k sl q) \<noteq> None" if "vw_error q \<noteq> None" for k sl q
    using that by (auto simp: finish_detail_def detail_failed_def split: list.splits prod.splits option.splits sum.splits)
  then have "vw_error (row_answer g n k a p) \<noteq> None" for n k a
    using e by (simp add: row_answer_def Let_def split: option.split)
  with e show ?thesis
    by (cases ev) (auto simp: viewer_step_def timeline_answer_def split: sum.splits viewer_view.splits option.splits)
qed

lemma viewer_run_error: "vw_error p \<noteq> None \<Longrightarrow> vw_error (viewer_run g evs p) \<noteq> None"
proof (induction evs arbitrary: p)
  case (Cons ev evs)
  from Cons.IH [OF viewer_step_error [OF Cons.prems]] show ?case by (simp add: viewer_run_def)
qed (simp add: viewer_run_def)

text \<open>Answers to the current run leave it the current one and fill its slots.\<close>

definition settle_events :: "(jsnum \<Rightarrow> TraceDetail res) \<Rightarrow> viewer \<Rightarrow> viewer_event list" where
  "settle_events ans p =
     (let slots = the (vw_jobs p (vw_gen p))
      in map (\<lambda>k. RowAnswer (vw_gen p) k (ans (fst (slots ! k)))) [0..<length slots])"

lemma finish_detail_frame [simp]:
  "vw_gen (finish_detail g k sl p) = vw_gen p" "vw_jobs (finish_detail g k sl p) = vw_jobs p"
  "vw_selectedId (finish_detail g k sl p) = vw_selectedId p" "vw_timeline (finish_detail g k sl p) = vw_timeline p"
  "vw_loading (finish_detail g k sl p) = vw_loading p"
  by (auto simp: finish_detail_def detail_failed_def split: list.splits prod.splits option.splits sum.splits)

lemma snap_tab_frame [simp]:
  "vw_gen (snap_tab p) = vw_gen p" "vw_jobs (snap_tab p) = vw_jobs p" "vw_selectedId (snap_tab p) = vw_selectedId p"
  "vw_timeline (snap_tab p) = vw_timeline p" "vw_loading (snap_tab p) = vw_loading p"
  "vw_loadingDetail (snap_tab p) = vw_loadingDetail p" "vw_detail (snap_tab p) = vw_detail p"
  by (auto simp: snap_tab_def split: option.splits viewer_view.splits)

lemma row_answer_frame [simp]:
  "vw_gen (row_answer g n k a p) = vw_gen p" "vw_selectedId (row_answer g n k a p) = vw_selectedId p"
  "vw_timeline (row_answer g n k a p) = vw_timeline p" "vw_loading (row_answer g n k a p) = vw_loading p"
  by (auto simp: row_answer_def Let_def split: option.split)

lemma row_answer_slots:
  assumes "vw_jobs p n = Some slots"
  shows "\<exists>sl. vw_jobs (row_answer g n k a p) n = Some sl \<and> length sl = length slots \<and>
    (\<forall>j < length slots. snd (slots ! j) \<noteq> None \<or> j = k \<longrightarrow> snd (sl ! j) \<noteq> None)"
  using assms by (auto simp: row_answer_def awaited_def Let_def nth_list_update split: option.split)

lemma answers_fill:
  assumes "vw_jobs p n = Some slots"
  shows "\<exists>sl. vw_jobs (viewer_run g (map (\<lambda>k. RowAnswer n k (f k)) ks) p) n = Some sl \<and> length sl = length slots \<and>
    (\<forall>j < length slots. snd (slots ! j) \<noteq> None \<or> j \<in> set ks \<longrightarrow> snd (sl ! j) \<noteq> None)"
  using assms
proof (induction ks arbitrary: p slots)
  case Nil
  then show ?case by (simp add: viewer_run_def)
next
  case (Cons k ks)
  let ?q = "viewer_step g (RowAnswer n k (f k)) p"
  from row_answer_slots [OF Cons.prems, of g k "f k"] obtain sl where sl: "vw_jobs ?q n = Some sl" "length sl = length slots"
    "\<forall>j < length slots. snd (slots ! j) \<noteq> None \<or> j = k \<longrightarrow> snd (sl ! j) \<noteq> None"
    by (auto simp: viewer_step_def)
  from Cons.IH [OF sl(1)] sl show ?case by (fastforce simp: viewer_run_def)
qed

lemma answers_frame:
  "vw_gen (viewer_run g (map (\<lambda>k. RowAnswer n k (f k)) ks) p) = vw_gen p \<and>
   vw_selectedId (viewer_run g (map (\<lambda>k. RowAnswer n k (f k)) ks) p) = vw_selectedId p \<and>
   vw_loading (viewer_run g (map (\<lambda>k. RowAnswer n k (f k)) ks) p) = vw_loading p"
  by (induction ks arbitrary: p) (simp_all add: viewer_run_def viewer_step_def)

text \<open>A value that is shown is made of the answer to a request for the key it is shown with.\<close>

definition kl_inv :: "('a res \<Rightarrow> 'v) \<Rightarrow> ('k, 'a) keyed_event set \<Rightarrow> ('k, 'v) keyed_load \<Rightarrow> bool" where
  "kl_inv arrived E p \<longleftrightarrow> kl_runs p \<noteq> [] \<and> last (kl_runs p) = kl_key p \<and>
     (\<not> kl_loading p \<longrightarrow> (\<exists>a. Arrive (length (kl_runs p) - 1) a \<in> E \<and> kl_value p = arrived a))"

lemma kl_inv_step:
  assumes inv: "kl_inv arrived E p"
  shows "kl_inv arrived (insert ev E) (kl_step reset arrived ev p)"
proof (cases ev)
  case (Rekey k)
  with inv show ?thesis by (auto simp: kl_inv_def kl_start_def)
next
  case (Arrive n a)
  show ?thesis
  proof (cases "Suc n = length (kl_runs p)")
    case True
    then have "n = length (kl_runs p) - 1" by simp
    with inv Arrive True show ?thesis by (auto simp: kl_inv_def)
  next
    case False
    with inv Arrive show ?thesis by (auto simp: kl_inv_def)
  qed
qed

lemma kl_inv_run:
  "kl_inv arrived (set evs) (fold (kl_step reset arrived) evs (kl_open reset v k))"
proof -
  have "kl_inv arrived (E \<union> set evs) (fold (kl_step reset arrived) evs p)" if "kl_inv arrived E p" for E p
    using that
  proof (induction evs arbitrary: E p)
    case (Cons ev evs)
    from Cons.IH [OF kl_inv_step [OF Cons.prems, of ev]] show ?case by (simp add: Un_assoc)
  qed simp
  from this [of "{}"] show ?thesis by (simp add: kl_inv_def kl_open_def kl_start_def)
qed

lemma keyed_current:
  assumes "p = fold (kl_step reset arrived) evs (kl_open reset v k)" and "\<not> kl_loading p"
  shows "\<exists>n a. Arrive n a \<in> set evs \<and> n < length (kl_runs p) \<and> kl_runs p ! n = kl_key p \<and> kl_value p = arrived a"
proof -
  have "kl_inv arrived (set evs) p" unfolding assms(1) by (rule kl_inv_run)
  then show ?thesis using assms(2)
    by (auto simp: kl_inv_def last_conv_nth intro!: exI [of _ "length (kl_runs p) - 1"])
qed

section \<open>Properties\<close>

text \<open>C22: the trace viewer shows the request that is selected. In every run, in whatever order sessions are opened,
  rows selected and answers received, a request that is shown was received for the selected row, on one of its own
  tabs, and it is compared with the best of requests received for rows above it.\<close>

theorem viewer_shows_selected:
  assumes p: "p = viewer_run g evs (open_viewer s)" and view: "TraceViewer_view p = V_trace (Some (d, prev, tab))"
    and msg: "vw_error p \<noteq> Some []"
  shows "tab \<in> set (detail_tabs d) \<and> (\<exists>i. vw_selectedId p = Some i \<and> (i, d) \<in> received g evs (open_viewer s) \<and>
    (\<exists>cands. pickBaseline d cands = Inr prev \<and>
      (\<forall>b \<in> set cands. \<exists>j \<in> set (prevIds (vw_timeline p) (Some i)). (j, b) \<in> received g evs (open_viewer s))))"
proof -
  have "evs \<noteq> []" using view unfolding p
    by (cases evs) (auto simp: viewer_run_def open_viewer_def load_timeline_def TraceViewer_view_def)
  then have "tab \<in> set (detail_tabs d)" using viewer_run_snapped [of evs g "open_viewer s"] snap_tab_view view unfolding p by metis
  moreover have "shown_inv (received g evs (open_viewer s)) p"
    using viewer_reach_inv [of g evs s] unfolding p viewer_inv_def by blast
  then have "detail_ok (received g evs (open_viewer s)) p d prev"
    using view msg by (auto simp: TraceViewer_view_def shown_inv_def split: if_splits)
  ultimately show ?thesis unfolding detail_ok_def by blast
qed

definition demo_row :: "int \<Rightarrow> TraceSummary" where
  "demo_row i = \<lparr>ts_id = Fin (of_int i), ts_request_id = [], ts_client_request_id = [], ts_session_id = [], ts_trace_id = [],
     ts_tenant = [], ts_provider = [], ts_model_requested = [], ts_stream = False, ts_agent_type = [], ts_ingress_protocol = [],
     ts_provider_endpoint = [], ts_status_code = Fin 200, ts_stop_reason = [], ts_n_messages = Fin 0, ts_n_tool_use = Fin 0,
     ts_created_at = []\<rparr>"

definition demo_detail :: "int \<Rightarrow> TraceDetail" where
  "demo_detail i = \<lparr>td_messages = None, td_request_raw = None, td_response_raw = None, td_summary = demo_row i, td_error_raw = []\<rparr>"

definition demo_events :: "viewer_event list" where
  "demo_events = [TimelineAnswer 0 (Inr [demo_row 7, demo_row 8]), Select (Fin 8), RowAnswer 1 0 (Inr (demo_detail 7)),
     RowAnswer 2 1 (Inr (demo_detail 7)), RowAnswer 2 0 (Inr (demo_detail 8))]"

text \<open>The row that was selected first is answered late: it is not shown.\<close>

lemma demo_view:
  "TraceViewer_view (viewer_run missing_gateway demo_events (open_viewer [])) = V_trace (Some (demo_detail 8, None, js ''messages'')) \<and>
   vw_error (viewer_run missing_gateway demo_events (open_viewer [])) = None"
  by (simp add: demo_events_def viewer_run_def viewer_step_def open_viewer_def load_timeline_def timeline_answer_def
      load_detail_def prevIds_def BASELINE_WINDOW_def row_answer_def awaited_def finish_detail_def snap_tab_def
      TraceViewer_view_def detail_tabs_def demo_row_def demo_detail_def pickBaseline_def messagesOf_def good_answers_def
      Let_def)

theorem viewer_shows_selected_witness:
  "\<exists>i. vw_selectedId (viewer_run missing_gateway demo_events (open_viewer [])) = Some i \<and>
     (i, demo_detail 8) \<in> received missing_gateway demo_events (open_viewer [])"
  using viewer_shows_selected [OF refl conjunct1 [OF demo_view]] demo_view by auto

text \<open>C23: the detail of a request does not load for ever. In every state with a selected row, once the gateway has
  answered the requests of the current run, with rows or failures, the placeholder is gone, and unless something failed
  the selected request is shown.\<close>

theorem detail_settles:
  assumes p: "p = viewer_run g evs (open_viewer s)" and sel: "vw_selectedId p = Some i"
    and p': "p' = viewer_run g (settle_events ans p) p"
  shows "\<not> vw_loadingDetail p' \<and> vw_selectedId p' = Some i \<and>
    (vw_error p' = None \<and> \<not> vw_loading p' \<longrightarrow> (\<exists>d prev tab. TraceViewer_view p' = V_trace (Some (d, prev, tab))))"
proof -
  have inv: "viewer_inv (received g evs (open_viewer s)) p" unfolding p by (rule viewer_reach_inv)
  then obtain slots where job: "vw_jobs p (vw_gen p) = Some slots" using sel by (auto simp: viewer_inv_def run_inv_def)
  have ev: "settle_events ans p = map (\<lambda>k. RowAnswer (vw_gen p) k (ans (fst (slots ! k)))) [0..<length slots]"
    by (simp add: settle_events_def job)
  have frame: "vw_gen p' = vw_gen p" "vw_selectedId p' = vw_selectedId p"
    unfolding p' ev using answers_frame by metis+
  obtain sl where sl: "vw_jobs p' (vw_gen p) = Some sl" "length sl = length slots" "\<forall>j < length slots. snd (sl ! j) \<noteq> None"
    using answers_fill [OF job, of g "\<lambda>k. ans (fst (slots ! k))" "[0..<length slots]"] unfolding p' ev by auto
  have fin: "finished sl" unfolding finished_def using sl(2,3) by (metis in_set_conv_nth)
  from viewer_run_inv [OF inv] have inv': "\<exists>S. viewer_inv S p'" unfolding p' by blast
  then have run: "run_inv p'" by (auto simp: viewer_inv_def)
  have load: "\<not> vw_loadingDetail p'"
    using run_inv_current [OF run] sl(1) frame fin by metis
  have "vw_timeline p' \<noteq> []" using run sel frame by (auto simp: run_inv_def)
  moreover have "vw_error p' = None \<longrightarrow> (\<exists>d. vw_detail p' = Some d)"
    using inv' load sel frame by (auto simp: viewer_inv_def shown_inv_def)
  ultimately show ?thesis using load sel frame by (auto simp: TraceViewer_view_def)
qed

theorem detail_settles_witness:
  "\<not> vw_loadingDetail (viewer_run missing_gateway
       (settle_events (\<lambda>i. Inl TypeError) (viewer_run missing_gateway [TimelineAnswer 0 (Inr [demo_row 7])] (open_viewer [])))
       (viewer_run missing_gateway [TimelineAnswer 0 (Inr [demo_row 7])] (open_viewer [])))"
proof -
  have "vw_selectedId (viewer_run missing_gateway [TimelineAnswer 0 (Inr [demo_row 7])] (open_viewer [])) = Some (Fin 7)"
    by (simp add: viewer_run_def viewer_step_def open_viewer_def load_timeline_def timeline_answer_def load_detail_def demo_row_def)
  from detail_settles [OF refl this refl] show ?thesis by blast
qed

text \<open>A request is compared with the ten rows above it. The candidates are the rows before the first occurrence
  of the selected one, at most ten, the closest first; the row itself is never among them.\<close>

theorem prevIds_window:
  assumes "i \<in> ts_id ` set timeline"
  shows "prevIds timeline (Some i) = map ts_id (take 10 (rev (takeWhile (\<lambda>t. ts_id t \<noteq> i) timeline))) \<and>
    i \<notin> set (prevIds timeline (Some i)) \<and> length (prevIds timeline (Some i)) \<le> 10"
proof -
  obtain n where n: "find_index (\<lambda>t. Some (ts_id t) = Some i) timeline = Some n"
    using assms find_index_None [of "\<lambda>t. Some (ts_id t) = Some i" timeline] by fastforce
  from find_index_SomeD [OF n] have len: "n \<le> length timeline" and
    tw: "take n timeline = takeWhile (\<lambda>t. ts_id t \<noteq> i) timeline" by simp_all
  have eq: "prevIds timeline (Some i) = map ts_id (take 10 (rev (takeWhile (\<lambda>t. ts_id t \<noteq> i) timeline)))"
    using rev_take_window [OF len, of 10] n tw
    by (cases "n = 0") (simp_all add: prevIds_def BASELINE_WINDOW_def Let_def rev_map)
  moreover have "i \<notin> set (prevIds timeline (Some i))"
    unfolding eq by (auto dest!: in_set_takeD set_takeWhileD)
  ultimately show ?thesis by simp
qed

theorem prevIds_window_witness: "prevIds [demo_row 7, demo_row 8, demo_row 9] (Some (Fin 9)) = [Fin 8, Fin 7]"
proof -
  have "Fin 9 \<in> ts_id ` set [demo_row 7, demo_row 8, demo_row 9]" by (simp add: demo_row_def)
  from prevIds_window [OF this] show ?thesis by (simp add: demo_row_def)
qed

text \<open>The figures next to a request are its own. In every run, metrics or dispatch steps that are shown as loaded
  come from the answer to a request for the request id they are shown with, and a failed request has no metrics.\<close>

theorem panels_current:
  assumes "m = fold metrics_step mevs (metrics_open k)" and "\<not> kl_loading m"
    and "p = fold dispatch_step devs (dispatch_open k')" and "\<not> kl_loading p"
  shows "(\<exists>n a. Arrive n a \<in> set mevs \<and> n < length (kl_runs m) \<and> kl_runs m ! n = kl_key m \<and>
      kl_value m = (case a of Inr (r # rs) \<Rightarrow> Some r | _ \<Rightarrow> None)) \<and>
    (\<exists>n a. Arrive n a \<in> set devs \<and> n < length (kl_runs p) \<and> kl_runs p ! n = kl_key p \<and>
      kl_value p = (case a of Inr ss \<Rightarrow> Some ss | Inl e \<Rightarrow> None)) \<and>
    map snd (MetricsBar toLocale (kl_value m) (kl_loading m) True) = replicate 6 [0x2014]"
  using keyed_current [of m "\<lambda>_. None" _ mevs None k] keyed_current [of p "\<lambda>v. v" _ devs None k'] assms
  by (simp add: metrics_step_def metrics_open_def dispatch_step_def dispatch_open_def MetricsBar_def Let_def numeral_eq_Suc)

theorem panels_current_witness:
  "\<exists>n a. Arrive n a \<in> set [Rekey (js ''r2''), Arrive 0 (Inr []), Arrive (1 :: nat) (Inl TypeError :: DispatchStep list res)] \<and>
     kl_value (fold dispatch_step [Rekey (js ''r2''), Arrive 0 (Inr []), Arrive 1 (Inl TypeError)] (dispatch_open (js ''r1''))) =
       (case a of Inr ss \<Rightarrow> Some ss | Inl e \<Rightarrow> None)"
  using panels_current [of "fold metrics_step [Arrive 0 (Inl TypeError)] (metrics_open (js ''r1''))" "[Arrive 0 (Inl TypeError)]" "js ''r1''"
      "fold dispatch_step [Rekey (js ''r2''), Arrive 0 (Inr []), Arrive 1 (Inl TypeError)] (dispatch_open (js ''r1''))"
      "[Rekey (js ''r2''), Arrive 0 (Inr []), Arrive 1 (Inl TypeError)]" "js ''r1''" "\<lambda>_. []"]
  by (simp add: metrics_step_def metrics_open_def dispatch_step_def dispatch_open_def kl_open_def kl_start_def js_def) blast

text \<open>A failure ends the page: neither another row nor another session is shown after it, since the error is never
  taken back.\<close>

lemma viewer_stuck:
  assumes "vw_error p \<noteq> None" and "p' = viewer_run g evs p" and "vw_error p' \<noteq> Some []"
  shows "TraceViewer_view p' = V_loading \<or> (\<exists>m. TraceViewer_view p' = V_error m)"
  using viewer_run_error [OF assms(1), of g evs] assms(2,3) by (auto simp: TraceViewer_view_def)

text \<open>The answer to an earlier session is not dropped: it replaces the timeline of the session that is open.\<close>

lemma late_timeline:
  assumes "s \<noteq> s'"
  shows "let p = viewer_run g [OpenSession s', TimelineAnswer 1 (Inr new), TimelineAnswer 0 (Inr old)] (open_viewer s)
    in vw_session p = s' \<and> vw_timeline p = old \<and> vw_asked p = []"
proof -
  have frame: "vw_session (load_detail p) = vw_session p" "vw_timeline (load_detail p) = vw_timeline p"
    "vw_asked (load_detail p) = vw_asked p" "vw_session (snap_tab p) = vw_session p" "vw_timeline (snap_tab p) = vw_timeline p"
    "vw_asked (snap_tab p) = vw_asked p" for p
    by (auto simp: load_detail_def snap_tab_def split: option.splits viewer_view.splits)
  show ?thesis using assms
    by (simp add: viewer_run_def viewer_step_def open_viewer_def load_timeline_def timeline_answer_def frame Let_def)
qed

end
