(* ===== verification/Desktop_Overview.thy ===== *)
theory Desktop_Overview
  imports Desktop_Providers Desktop_Models Desktop_Routes Date_Range
begin

text \<open>
  The overview of the desktop application (\<^verbatim>\<open>desktop-ui/src/pages/Overview.tsx\<close>): its requests, the estimate of
  costs, the bars and rows it shows, and the card that leads through the setup. The presets are those of theory
  \<open>Date_Range\<close>. Answers are typed as \<^verbatim>\<open>lib/types.ts\<close> declares them.
\<close>

section \<open>Data\<close>

record AgentUsage =
  au_agent_type :: jsstr
  au_request_count :: jsnum
  au_prompt_tokens :: jsnum
  au_completion_tokens :: jsnum
  au_total_tokens :: jsnum
  au_duration_ms :: jsnum
  au_ttft_ms :: jsnum
  au_error_count :: jsnum

record DimensionUsage =
  du_key :: jsstr
  du_request_count :: jsnum
  du_prompt_tokens :: jsnum
  du_completion_tokens :: jsnum
  du_total_tokens :: jsnum
  du_duration_ms :: jsnum
  du_error_count :: jsnum

record ErrorUsage =
  eu_error_type :: jsstr
  eu_count :: jsnum

record OverviewScalars =
  os_total_requests :: jsnum
  os_error_count :: jsnum
  os_success_rate :: jsnum
  os_fallback_count :: jsnum
  os_fallback_rate :: jsnum
  os_stream_count :: jsnum
  os_stream_rate :: jsnum
  os_cache_hit_count :: jsnum
  os_cache_hit_rate :: jsnum
  os_avg_duration_ms :: jsnum
  os_avg_ttft_ms :: jsnum

record OverviewResult =
  or_agents :: "AgentUsage list"
  or_totals :: AgentUsage
  or_providers :: "DimensionUsage list"
  or_models :: "DimensionUsage list"
  or_errors :: "ErrorUsage list"
  or_scalars :: OverviewScalars

section \<open>Numbers\<close>

definition overview_MICRO_PER_UNIT :: rat where
  "overview_MICRO_PER_UNIT = 1000000"

text \<open>The width of a bar in percent.\<close>

definition Bar_pct :: "jsnum \<Rightarrow> jsnum \<Rightarrow> jsnum" where
  "Bar_pct val mx =
     (if num_lt (Fin 0) mx then num_max (Fin 2) (num_round (num_mul (num_quot val mx) (Fin 100))) else Fin 0)"

text \<open>\<^verbatim>\<open>Math.max(1, ...xs)\<close>.\<close>

definition max_of :: "jsnum list \<Rightarrow> jsnum" where
  "max_of xs = foldl num_max (Fin 1) xs"

text \<open>A price that is missing makes the product NaN.\<close>

definition price_num :: "jsnum option \<Rightarrow> jsnum" where
  "price_num p = (case p of None \<Rightarrow> NaN | Some x \<Rightarrow> x)"

definition estimateModelCostMicro :: "Model option \<Rightarrow> jsnum \<Rightarrow> jsnum \<Rightarrow> jsnum" where
  "estimateModelCostMicro model promptTokens completionTokens =
     (case model of
        None \<Rightarrow> Fin 0
      | Some m \<Rightarrow>
          (case md_upstreams m of
             [] \<Rightarrow> Fin 0
           | u # us \<Rightarrow>
               (case mu_pricing u of
                  None \<Rightarrow> Fin 0
                | Some p \<Rightarrow>
                    let promptCost = num_round (num_mul (num_divc promptTokens overview_MICRO_PER_UNIT) (price_num (pr_prompt_per_1m p)));
                        completionCost =
                          num_round (num_mul (num_divc completionTokens overview_MICRO_PER_UNIT) (price_num (pr_completion_per_1m p)))
                    in num_add promptCost completionCost)))"

definition model_config :: "Model list \<Rightarrow> jsstr \<Rightarrow> Model option" where
  "model_config modelConfigs key = find (\<lambda>c. md_alias c = key) modelConfigs"

definition model_cost :: "Model list \<Rightarrow> DimensionUsage \<Rightarrow> jsnum" where
  "model_cost modelConfigs m =
     estimateModelCostMicro (model_config modelConfigs (du_key m)) (du_prompt_tokens m) (du_completion_tokens m)"

definition totalCostMicro :: "Model list \<Rightarrow> DimensionUsage list \<Rightarrow> jsnum" where
  "totalCostMicro modelConfigs models = foldl (\<lambda>sum m. num_add sum (model_cost modelConfigs m)) (Fin 0) models"

text \<open>\<^verbatim>\<open>modelConfigs[0]?.upstreams[0]?.pricing?.currency ?? ""\<close>.\<close>

definition costCurrency :: "Model list \<Rightarrow> jsstr" where
  "costCurrency modelConfigs =
     (case modelConfigs of
        [] \<Rightarrow> []
      | c # cs \<Rightarrow> (case md_upstreams c of [] \<Rightarrow> [] | u # us \<Rightarrow> (case mu_pricing u of None \<Rightarrow> [] | Some p \<Rightarrow> pr_currency p)))"

section \<open>The setup card\<close>

record setup_state =
  ss_providers :: "Provider list"
  ss_models :: "Model list"
  ss_routes :: "Route list"

record setup_step =
  st_label :: jsstr
  st_done :: bool
  st_to :: jsstr

definition setupSteps :: "setup_state \<Rightarrow> setup_step list" where
  "setupSteps s =
     [\<lparr>st_label = [0x6DFB, 0x52A0, 0x4F9B, 0x5E94, 0x5546],
       st_done = list_ex (\<lambda>p. length (pv_endpoints p) > 0 \<and> pv_api_key_ref p \<noteq> [] \<and> pv_api_key_ref p \<noteq> js ''plain://'') (ss_providers s),
       st_to = js ''/providers''\<rparr>,
      \<lparr>st_label = [0x521B, 0x5EFA, 0x6A21, 0x578B], st_done = (length (ss_models s) > 0), st_to = js ''/models''\<rparr>,
      \<lparr>st_label = [0x914D, 0x7F6E, 0x8DEF, 0x7531], st_done = (length (ss_routes s) > 0), st_to = js ''/routes''\<rparr>]"

definition setupComplete :: "setup_state option \<Rightarrow> bool" where
  "setupComplete s = (case s of None \<Rightarrow> False | Some x \<Rightarrow> list_all st_done (setupSteps x))"

definition showSetupCard :: "setup_state option \<Rightarrow> bool" where
  "showSetupCard s = (s \<noteq> None \<and> \<not> setupComplete s)"

datatype step_mark = Mark_done | Mark_next nat | Mark_later nat

record setup_card =
  sc_progress :: jsstr
  sc_marks :: "(step_mark \<times> jsstr) list"
  sc_test_ready :: bool
  sc_hint :: jsstr
  sc_button :: jsstr

definition SetupCard :: "setup_step list \<Rightarrow> setup_card" where
  "SetupCard steps =
     (let nextStep = find (\<lambda>s. \<not> st_done s) steps;
          doneCount = length (filter st_done steps)
      in \<lparr>sc_progress = digits10 doneCount @ js ''/'' @ digits10 (length steps + 1),
          sc_marks = map (\<lambda>(i, s). (if st_done s then Mark_done else if nextStep = Some s then Mark_next (i + 1) else Mark_later (i + 1),
                                    st_label s)) (enumerate 0 steps),
          sc_test_ready = list_all st_done steps,
          sc_hint = (case nextStep of Some s \<Rightarrow> [0x4E0B, 0x4E00, 0x6B65, 0xFF1A] @ st_label s
                     | None \<Rightarrow> [0x914D, 0x7F6E, 0x5C31, 0x7EEA, 0xFF0C, 0x53D1, 0x4E00, 0x4E2A, 0x6D4B, 0x8BD5, 0x8BF7, 0x6C42, 0x9A8C, 0x8BC1, 0x94FE, 0x8DEF, 0x3002]),
          sc_button = (case nextStep of Some s \<Rightarrow> st_to s | None \<Rightarrow> js ''/playground'')\<rparr>)"

section \<open>Rows\<close>

text \<open>\<open>toLocale\<close> is the printing of numbers by the engine.\<close>

record dist_row =
  dr_key :: jsstr
  dr_suffix :: "jsstr option"
  dr_count :: jsstr
  dr_errors :: "jsstr option"
  dr_width :: jsnum

definition dist_row_of :: "(jsnum \<Rightarrow> jsstr) \<Rightarrow> jsnum \<Rightarrow> jsstr option \<Rightarrow> DimensionUsage \<Rightarrow> dist_row" where
  "dist_row_of toLocale maxReq sfx d =
     \<lparr>dr_key = du_key d, dr_suffix = (case sfx of Some t \<Rightarrow> if t \<noteq> [] then Some t else None | None \<Rightarrow> None),
      dr_count = formatNumber toLocale (Some (du_request_count d)) @ [0x20, 0x6B21],
      dr_errors = (if num_lt (Fin 0) (du_error_count d) then Some (formatNumber toLocale (Some (du_error_count d)) @ [0x20, 0x9519]) else None),
      dr_width = Bar_pct (du_request_count d) maxReq\<rparr>"

definition cost_suffix :: "Model list \<Rightarrow> DimensionUsage \<Rightarrow> jsstr option" where
  "cost_suffix modelConfigs m =
     (let cost = model_cost modelConfigs m
      in if num_lt (Fin 0) cost then Some ([0x2248, 0x20] @ costCurrency modelConfigs @ js '' '' @ desktop_microToDisplay cost) else None)"

definition provider_rows :: "(jsnum \<Rightarrow> jsstr) \<Rightarrow> DimensionUsage list \<Rightarrow> dist_row list" where
  "provider_rows toLocale ps = map (dist_row_of toLocale (max_of (map du_request_count ps)) None) ps"

definition model_rows :: "(jsnum \<Rightarrow> jsstr) \<Rightarrow> Model list \<Rightarrow> DimensionUsage list \<Rightarrow> dist_row list" where
  "model_rows toLocale modelConfigs ms =
     map (\<lambda>m. dist_row_of toLocale (max_of (map du_request_count ms)) (cost_suffix modelConfigs m) m) ms"

record agent_card =
  ac_label :: "jsstr option"
  ac_badge :: jsstr
  ac_requests :: jsstr
  ac_request_width :: jsnum
  ac_tokens :: "jsstr \<times> jsstr"
  ac_errors :: jsstr
  ac_error_width :: jsnum
  ac_duration :: jsstr
  ac_ttft :: jsstr
  ac_link :: "jsstr res"

definition agent_average :: "jsnum \<Rightarrow> jsnum \<Rightarrow> jsstr" where
  "agent_average v n = formatDuration (Some (if num_truthy n then num_quot v n else Fin 0))"

definition agent_cards :: "(jsnum \<Rightarrow> jsstr) \<Rightarrow> AgentUsage list \<Rightarrow> agent_card list" where
  "agent_cards toLocale as =
     (let maxReq = max_of (map au_request_count as); maxErr = max_of (map au_error_count as)
      in map (\<lambda>a. \<lparr>ac_label = agentLabel (au_agent_type a),
           ac_badge = (if au_agent_type a \<noteq> [] then au_agent_type a else js ''unknown''),
           ac_requests = formatNumber toLocale (Some (au_request_count a)), ac_request_width = Bar_pct (au_request_count a) maxReq,
           ac_tokens = (formatTokens (Some (au_prompt_tokens a)), formatTokens (Some (au_completion_tokens a))),
           ac_errors = formatNumber toLocale (Some (au_error_count a)), ac_error_width = Bar_pct (au_error_count a) maxErr,
           ac_duration = agent_average (au_duration_ms a) (au_request_count a),
           ac_ttft = agent_average (au_ttft_ms a) (au_request_count a),
           ac_link = rbind (encodeURIComponent (au_agent_type a)) (\<lambda>t. Inr (js ''/sessions?agent='' @ t))\<rparr>) as)"

definition ErrorRow :: "(jsnum \<Rightarrow> jsstr) \<Rightarrow> ErrorUsage \<Rightarrow> jsnum \<Rightarrow> jsstr \<times> jsstr" where
  "ErrorRow toLocale err tot =
     (let pct = (if num_lt (Fin 0) tot then num_round (num_mul (num_quot (eu_count err) tot) (Fin 100)) else Fin 0)
      in (eu_error_type err, formatNumber toLocale (Some (eu_count err)) @ [0x20, 0x6B21, 0x20, 0xB7, 0x20] @ num_repr pct @ js ''%''))"

text \<open>The six figures; the third component marks a warning.\<close>

definition stat_cards :: "(jsnum \<Rightarrow> jsstr) \<Rightarrow> OverviewScalars \<Rightarrow> AgentUsage \<Rightarrow> (jsstr \<times> jsstr \<times> bool) list" where
  "stat_cards toLocale scalars totals =
     [([0x603B, 0x8C03, 0x7528], formatNumber toLocale (Some (os_total_requests scalars)), False),
      ([0x6210, 0x529F, 0x7387], formatPercent (Some (os_success_rate scalars)),
        num_lt (os_success_rate scalars) (Fin 1) \<and> num_lt (Fin 0) (os_total_requests scalars)),
      ([0x5E73, 0x5747, 0x5EF6, 0x8FDF], formatDuration (Some (os_avg_duration_ms scalars)), False),
      ([0x5E73, 0x5747, 0x20, 0x54, 0x54, 0x46, 0x54], formatDuration (Some (os_avg_ttft_ms scalars)), False),
      ([0x8F93, 0x5165, 0x20, 0x54, 0x6F, 0x6B, 0x65, 0x6E], formatTokens (Some (au_prompt_tokens totals)), False),
      ([0x8F93, 0x51FA, 0x20, 0x54, 0x6F, 0x6B, 0x65, 0x6E], formatTokens (Some (au_completion_tokens totals)), False)]"

definition presetLabel :: "Preset \<Rightarrow> jsstr option" where
  "presetLabel p = map_of PRESETS p"

text \<open>\<open>fmtDay\<close> is \<^verbatim>\<open>toLocaleDateString\<close>.\<close>

definition rangeText :: "(date \<Rightarrow> jsstr) \<Rightarrow> zone \<Rightarrow> Preset \<Rightarrow> int \<Rightarrow> jsstr" where
  "rangeText fmtDay z p now =
     (case rangeFor z p now of
        (None, to) \<Rightarrow> [0x5168, 0x90E8, 0x65F6, 0x95F4]
      | (Some from, Some to) \<Rightarrow> fmtDay from @ [0x20, 0x81F3, 0x20] @ fmtDay to
      | (Some from, None) \<Rightarrow> fmtDay from @ [0x20, 0x81F3, 0x4ECA])"

section \<open>The page\<close>

text \<open>Requests in flight carry a number; the effects do not drop late answers.\<close>

record overview_page =
  ov_preset :: Preset
  ov_tick :: nat
  ov_data :: "OverviewResult option"
  ov_loading :: bool
  ov_refreshing :: bool
  ov_error :: "jsstr option"
  ov_setup :: "setup_state option"
  ov_flight :: "(nat \<times> Preset) list"
  ov_setups :: "nat list"
  ov_next :: nat

definition fetchData :: "overview_page \<Rightarrow> overview_page" where
  "fetchData p = p\<lparr>ov_refreshing := True, ov_flight := ov_flight p @ [(ov_next p, ov_preset p)], ov_next := Suc (ov_next p)\<rparr>"

definition fetchSetup :: "overview_page \<Rightarrow> overview_page" where
  "fetchSetup p = p\<lparr>ov_setups := ov_setups p @ [ov_next p], ov_next := Suc (ov_next p)\<rparr>"

definition Overview_init :: overview_page where
  "Overview_init = fetchSetup (fetchData \<lparr>ov_preset = P_today, ov_tick = 0, ov_data = None, ov_loading = True, ov_refreshing = False,
     ov_error = None, ov_setup = None, ov_flight = [], ov_setups = [], ov_next = 0\<rparr>)"

datatype overview_event =
    ChoosePreset Preset
  | Refresh
  | OverviewAnswer nat "OverviewResult res"
  | SetupAnswer nat "setup_state res"

definition apply_overview :: "gateway \<Rightarrow> OverviewResult res \<Rightarrow> overview_page \<Rightarrow> overview_page" where
  "apply_overview g r p =
     (case r of
        Inl e \<Rightarrow> p\<lparr>ov_error := Some (desk_error_message g e), ov_loading := False, ov_refreshing := False\<rparr>
      | Inr v \<Rightarrow> p\<lparr>ov_data := Some v, ov_error := None, ov_loading := False, ov_refreshing := False\<rparr>)"

text \<open>The refresh button is disabled while a refresh runs.\<close>

fun overview_step :: "gateway \<Rightarrow> overview_event \<Rightarrow> overview_page \<Rightarrow> overview_page" where
  "overview_step g (ChoosePreset v) p = (if v = ov_preset p then p else fetchData (p\<lparr>ov_preset := v\<rparr>))"
| "overview_step g Refresh p =
     (if ov_refreshing p then p else fetchSetup (fetchData (p\<lparr>ov_tick := Suc (ov_tick p)\<rparr>)))"
| "overview_step g (OverviewAnswer n r) p =
     (if n \<in> fst ` set (ov_flight p)
      then apply_overview g r (p\<lparr>ov_flight := filter (\<lambda>(i, v). i \<noteq> n) (ov_flight p)\<rparr>) else p)"
| "overview_step g (SetupAnswer n r) p =
     (if n \<in> set (ov_setups p)
      then p\<lparr>ov_setups := removeAll n (ov_setups p), ov_setup := (case r of Inl e \<Rightarrow> None | Inr v \<Rightarrow> Some v)\<rparr> else p)"

record overview_content =
  oc_setup :: "setup_card option"
  oc_cost_note :: bool
  oc_error :: "jsstr option"
  oc_range :: jsstr
  oc_refreshing :: bool
  oc_stats :: "(jsstr \<times> jsstr \<times> bool) list option"
  oc_dist :: "(dist_row list \<times> dist_row list) option"
  oc_agents :: "agent_card list + jsstr option"
  oc_errors :: "(jsstr \<times> jsstr) list"

datatype overview_view = OV_loading | OV_failed jsstr | OV_page overview_content

definition overview_content_of :: "(jsnum \<Rightarrow> jsstr) \<Rightarrow> (date \<Rightarrow> jsstr) \<Rightarrow> zone \<Rightarrow> int \<Rightarrow> overview_page \<Rightarrow> overview_content" where
  "overview_content_of toLocale fmtDay z now p =
     (let modelConfigs = (case ov_setup p of None \<Rightarrow> [] | Some s \<Rightarrow> ss_models s);
          agents = (case ov_data p of None \<Rightarrow> [] | Some r \<Rightarrow> or_agents r);
          providers = (case ov_data p of None \<Rightarrow> [] | Some r \<Rightarrow> or_providers r);
          models = (case ov_data p of None \<Rightarrow> [] | Some r \<Rightarrow> or_models r);
          errors = (case ov_data p of None \<Rightarrow> [] | Some r \<Rightarrow> or_errors r)
      in \<lparr>oc_setup = (if showSetupCard (ov_setup p) then map_option (\<lambda>s. SetupCard (setupSteps s)) (ov_setup p) else None),
          oc_cost_note = (costCurrency modelConfigs \<noteq> [] \<and> num_lt (Fin 0) (totalCostMicro modelConfigs models)),
          oc_error = (if ov_error p = Some [] then None else ov_error p),
          oc_range = rangeText fmtDay z (ov_preset p) now,
          oc_refreshing = ov_refreshing p,
          oc_stats = map_option (\<lambda>r. stat_cards toLocale (or_scalars r) (or_totals r)) (ov_data p),
          oc_dist = (if length providers > 0 \<or> length models > 0
                     then Some (provider_rows toLocale providers, model_rows toLocale modelConfigs models) else None),
          oc_agents = (if length agents = 0 then Inr (presetLabel (ov_preset p)) else Inl (agent_cards toLocale agents)),
          oc_errors = map (\<lambda>e. ErrorRow toLocale e (case ov_data p of None \<Rightarrow> Fin 0 | Some r \<Rightarrow> os_error_count (or_scalars r))) errors\<rparr>)"

definition Overview_view :: "(jsnum \<Rightarrow> jsstr) \<Rightarrow> (date \<Rightarrow> jsstr) \<Rightarrow> zone \<Rightarrow> int \<Rightarrow> overview_page \<Rightarrow> overview_view" where
  "Overview_view toLocale fmtDay z now p =
     (if ov_loading p then OV_loading
      else if ov_error p \<noteq> None \<and> ov_error p \<noteq> Some [] \<and> ov_data p = None then OV_failed (the (ov_error p))
      else OV_page (overview_content_of toLocale fmtDay z now p))"

section \<open>Lemmas\<close>

lemma max_of_int: "foldl num_max (num_int k) (map num_int xs) = num_int (foldl max k xs)"
  by (induction xs arbitrary: k) (simp_all add: num_max_int)

lemma foldl_max_ge: "(k :: int) \<le> foldl max k xs \<and> (\<forall>x \<in> set xs. x \<le> foldl max k xs)"
proof (induction xs arbitrary: k)
  case (Cons x xs)
  then have "max k x \<le> foldl max (max k x) xs" "\<forall>y \<in> set xs. y \<le> foldl max (max k x) xs" by blast+
  then show ?case by simp
qed simp

text \<open>The bar of one of the values the maximum was taken over.\<close>

lemma bar_width:
  assumes "\<forall>x \<in> set xs. 0 \<le> x" and "c \<in> set xs"
  shows "\<exists>r. Bar_pct (num_int c) (max_of (map num_int xs)) = num_int r \<and> 2 \<le> r \<and> r \<le> 100"
proof -
  let ?m = "foldl max 1 xs"
  have mx: "max_of (map num_int xs) = num_int ?m" using max_of_int [of 1 xs] by (simp add: max_of_def)
  have m: "1 \<le> ?m" "c \<le> ?m" using foldl_max_ge [of 1 xs] assms(2) by auto
  have "0 \<le> c" "0 < ?m" using assms m(1) by auto
  from percent_round [OF this(1) m(2) this(2)] obtain r where
    r: "num_round (num_mul (num_quot (num_int c) (num_int ?m)) (Fin 100)) = num_int r" "0 \<le> r" "r \<le> 100" by auto
  have "Bar_pct (num_int c) (max_of (map num_int xs)) = num_int (max 2 r)"
    unfolding mx Bar_pct_def r(1) using \<open>0 < ?m\<close> num_max_int [of 2 r] by simp
  moreover have "2 \<le> max 2 r" "max 2 r \<le> 100" using r(3) by simp_all
  ultimately show ?thesis by blast
qed

text \<open>Counts as the gateway reports them: whole numbers that are not negative.\<close>

definition counts :: "jsnum list \<Rightarrow> bool" where
  "counts xs \<longleftrightarrow> (\<exists>ns. xs = map num_int ns \<and> (\<forall>n \<in> set ns. 0 \<le> n))"

lemma counts_width:
  assumes "counts xs" and "x \<in> set xs"
  shows "\<exists>r. Bar_pct x (max_of xs) = num_int r \<and> 2 \<le> r \<and> r \<le> 100"
proof -
  obtain ns where ns: "xs = map num_int ns" "\<forall>n \<in> set ns. 0 \<le> n" using assms(1) unfolding counts_def by blast
  then obtain c where "x = num_int c" "c \<in> set ns" using assms(2) by auto
  then show ?thesis using bar_width [OF ns(2)] unfolding ns(1) by simp
qed

text \<open>The exact cost of a number of tokens at a price per million.\<close>

definition exact_cost :: "int \<Rightarrow> int \<Rightarrow> int \<Rightarrow> int \<Rightarrow> rat" where
  "exact_cost pt ct pp cp = of_int pt * of_int pp / 10 ^ 6 + of_int ct * of_int cp / 10 ^ 6"

text \<open>A usage whose model has prices: up to a million millions of tokens, up to a thousand units per million.\<close>

definition priced :: "Model list \<Rightarrow> DimensionUsage \<Rightarrow> rat \<Rightarrow> bool" where
  "priced cfgs m x \<longleftrightarrow> (\<exists>c u us p pt ct pp cp. model_config cfgs (du_key m) = Some c \<and> md_upstreams c = u # us \<and> mu_pricing u = Some p \<and>
     pr_prompt_per_1m p = Some (num_int pp) \<and> pr_completion_per_1m p = Some (num_int cp) \<and>
     du_prompt_tokens m = num_int pt \<and> du_completion_tokens m = num_int ct \<and> x = exact_cost pt ct pp cp \<and>
     0 \<le> pt \<and> pt \<le> 2 ^ 40 \<and> 0 \<le> ct \<and> ct \<le> 2 ^ 40 \<and> 0 \<le> pp \<and> pp \<le> 2 ^ 30 \<and> 0 \<le> cp \<and> cp \<le> 2 ^ 30)"

lemma model_cost_near:
  assumes "priced cfgs m x"
  shows "\<exists>c. model_cost cfgs m = num_int c \<and> 0 \<le> c \<and> \<bar>of_int c - x\<bar> \<le> 3 / 2"
proof -
  obtain mc u us p pt ct pp cp where cfg: "model_config cfgs (du_key m) = Some mc" "md_upstreams mc = u # us" "mu_pricing u = Some p"
      "pr_prompt_per_1m p = Some (num_int pp)" "pr_completion_per_1m p = Some (num_int cp)"
      "du_prompt_tokens m = num_int pt" "du_completion_tokens m = num_int ct"
    and x: "x = exact_cost pt ct pp cp"
    and b: "0 \<le> pt" "pt \<le> 2 ^ 40" "0 \<le> ct" "ct \<le> 2 ^ 40" "0 \<le> pp" "pp \<le> 2 ^ 30" "0 \<le> cp" "cp \<le> 2 ^ 30"
    using assms unfolding priced_def by blast
  obtain c1 where c1: "num_round (num_mul (num_divc (num_int pt) 1000000) (num_int pp)) = num_int c1"
      "\<bar>of_int c1 - of_int pt * of_int pp / 10 ^ 6\<bar> \<le> (3 / 4 :: rat)" "0 \<le> c1" "c1 \<le> 2 ^ 51"
    using scaled_round [OF b(1,2,5,6)] by blast
  obtain c2 where c2: "num_round (num_mul (num_divc (num_int ct) 1000000) (num_int cp)) = num_int c2"
      "\<bar>of_int c2 - of_int ct * of_int cp / 10 ^ 6\<bar> \<le> (3 / 4 :: rat)" "0 \<le> c2" "c2 \<le> 2 ^ 51"
    using scaled_round [OF b(3,4,7,8)] by blast
  have "safe (c1 + c2)" using c1(3,4) c2(3,4) by (simp add: safe_def)
  then have sum: "num_add (num_int c1) (num_int c2) = num_int (c1 + c2)" by (rule num_add_int)
  have "model_cost cfgs m = num_add (num_int c1) (num_int c2)"
    using cfg c1(1) c2(1) by (simp add: model_cost_def estimateModelCostMicro_def overview_MICRO_PER_UNIT_def price_num_def)
  then have "model_cost cfgs m = num_int (c1 + c2)" unfolding sum .
  moreover have "\<bar>of_int (c1 + c2) - x\<bar> \<le> 3 / 2"
    using near_bounds [OF c1(2)] near_bounds [OF c2(2)] unfolding x exact_cost_def abs_le_iff of_int_add by linarith
  ultimately show ?thesis using c1(3) c2(3) by (intro exI [of _ "c1 + c2"]) simp
qed

text \<open>Adding up whole numbers is exact as long as the sum is safe.\<close>

lemma sum_exact:
  assumes "\<forall>c \<in> set cs. 0 \<le> c" and "0 \<le> k" and "k + sum_list cs \<le> 2 ^ 53"
  shows "foldl num_add (num_int k) (map num_int cs) = num_int (k + sum_list cs)"
  using assms
proof (induction cs arbitrary: k)
  case (Cons c cs)
  have "0 \<le> sum_list cs" using Cons.prems(1) by (intro sum_list_nonneg) simp
  then have "safe (k + c)" using Cons.prems by (simp add: safe_def)
  then have "num_add (num_int k) (num_int c) = num_int (k + c)" by (rule num_add_int)
  then show ?case using Cons.IH [of "k + c"] Cons.prems by (simp add: add.assoc)
qed simp

section \<open>Properties\<close>

text \<open>The estimate of costs is accurate. For models with prices, the total of the overview is a whole number of
  micro-units that differs from the exact sum of tokens times price per million by at most one and a half micro-units
  for each model, although every product is computed with rounding.\<close>

theorem cost_estimate:
  assumes "list_all2 (priced cfgs) ms xs" and "sum_list xs + 3 / 2 * of_nat (length ms) \<le> 2 ^ 53"
  shows "\<exists>c. totalCostMicro cfgs ms = num_int c \<and> 0 \<le> c \<and> \<bar>of_int c - sum_list xs\<bar> \<le> 3 / 2 * of_nat (length ms)"
proof -
  have "\<exists>cs. map (model_cost cfgs) ms = map num_int cs \<and> (\<forall>c \<in> set cs. 0 \<le> c) \<and>
      \<bar>of_int (sum_list cs) - sum_list xs\<bar> \<le> 3 / 2 * of_nat (length ms)"
    using assms(1)
  proof (induction ms xs rule: list_all2_induct)
    case (Cons m ms x xs)
    then obtain cs where cs: "map (model_cost cfgs) ms = map num_int cs" "\<forall>c \<in> set cs. 0 \<le> c"
      "\<bar>of_int (sum_list cs) - sum_list xs\<bar> \<le> 3 / 2 * of_nat (length ms)" by blast
    obtain c where c: "model_cost cfgs m = num_int c" "0 \<le> c" "\<bar>of_int c - x\<bar> \<le> 3 / 2"
      using model_cost_near [OF Cons.hyps(1)] by blast
    have "\<bar>of_int (sum_list (c # cs)) - sum_list (x # xs)\<bar> \<le> 3 / 2 * of_nat (length (m # ms))"
      using near_bounds [OF c(3)] near_bounds [OF cs(3)] unfolding abs_le_iff by (simp add: algebra_simps)
    then show ?case using c cs by (intro exI [of _ "c # cs"]) simp
  qed simp
  then obtain cs where cs: "map (model_cost cfgs) ms = map num_int cs" "\<forall>c \<in> set cs. 0 \<le> c"
    "\<bar>of_int (sum_list cs) - sum_list xs\<bar> \<le> 3 / 2 * of_nat (length ms)" by blast
  have "(of_int (sum_list cs) :: rat) \<le> 2 ^ 53" using near_bounds [OF cs(3)] assms(2) by linarith
  then have "sum_list cs \<le> 2 ^ 53" by simp
  with sum_exact [OF cs(2), of 0] have "foldl num_add (Fin 0) (map (model_cost cfgs) ms) = num_int (sum_list cs)"
    unfolding cs(1) by simp
  moreover have "totalCostMicro cfgs ms = foldl num_add (Fin 0) (map (model_cost cfgs) ms)"
    by (simp add: totalCostMicro_def foldl_map)
  moreover have "0 \<le> sum_list cs" using cs(2) by (intro sum_list_nonneg) simp
  ultimately show ?thesis using cs(3) by auto
qed

definition cost_model :: Model where
  "cost_model = \<lparr>md_alias = js ''m'', md_description = None, md_context_length = None, md_capabilities = None, md_tags = None,
     md_upstreams = [\<lparr>mu_provider = js ''p'', mu_upstream_model = js ''u'', mu_default_max_tokens = None,
       mu_pricing = Some \<lparr>pr_prompt_per_1m = Some (num_int 3000000), pr_completion_per_1m = Some (num_int 15000000),
         pr_currency = js ''USD'', pr_cache_hit_multiplier = None\<rparr>\<rparr>]\<rparr>"

definition cost_usage :: DimensionUsage where
  "cost_usage = \<lparr>du_key = js ''m'', du_request_count = num_int 1, du_prompt_tokens = num_int 12345, du_completion_tokens = num_int 678,
     du_total_tokens = num_int 13023, du_duration_ms = num_int 10, du_error_count = num_int 0\<rparr>"

lemma cost_priced: "priced [cost_model] cost_usage (exact_cost 12345 678 3000000 15000000)"
  unfolding priced_def
  by (intro exI [of _ cost_model] exI [of _ "hd (md_upstreams cost_model)"] exI [of _ "[]"]
      exI [of _ "the (mu_pricing (hd (md_upstreams cost_model)))"] exI [of _ 12345] exI [of _ 678] exI [of _ 3000000] exI [of _ 15000000])
    (simp add: model_config_def cost_model_def cost_usage_def)

theorem cost_estimate_witness:
  "\<exists>c. totalCostMicro [cost_model] [cost_usage] = num_int c \<and> \<bar>of_int c - exact_cost 12345 678 3000000 15000000\<bar> \<le> 3 / 2"
proof -
  have "list_all2 (priced [cost_model]) [cost_usage] [exact_cost 12345 678 3000000 15000000]" by (simp add: cost_priced)
  moreover have "sum_list [exact_cost 12345 678 3000000 15000000] + 3 / 2 * of_nat (length [cost_usage]) \<le> (2 ^ 53 :: rat)"
    by (simp add: exact_cost_def)
  ultimately show ?thesis using cost_estimate [of "[cost_model]" "[cost_usage]" "[exact_cost 12345 678 3000000 15000000]"] by auto
qed

text \<open>Every bar of the overview fits. When the gateway reports counts, the width of each bar of the provider and
  model distributions and of the agent cards is a whole number of percent from 2 to 100.\<close>

theorem overview_bars:
  assumes "counts (map du_request_count ds)" and "counts (map au_request_count as)" and "counts (map au_error_count as)"
  shows "(\<forall>row \<in> set (provider_rows toLocale ds) \<union> set (model_rows toLocale cfgs ds). \<exists>r. dr_width row = num_int r \<and> 2 \<le> r \<and> r \<le> 100) \<and>
    (\<forall>card \<in> set (agent_cards toLocale as). (\<exists>r. ac_request_width card = num_int r \<and> 2 \<le> r \<and> r \<le> 100) \<and>
      (\<exists>r. ac_error_width card = num_int r \<and> 2 \<le> r \<and> r \<le> 100))"
  using counts_width [OF assms(1)] counts_width [OF assms(2)] counts_width [OF assms(3)]
  by (auto simp: provider_rows_def model_rows_def dist_row_of_def agent_cards_def Let_def)

theorem overview_bars_witness:
  "\<forall>row \<in> set (provider_rows (\<lambda>_. []) [cost_usage]) \<union> set (model_rows (\<lambda>_. []) [] [cost_usage]).
     \<exists>r. dr_width row = num_int r \<and> 2 \<le> r \<and> r \<le> 100"
proof -
  have "counts (map du_request_count [cost_usage])" unfolding counts_def cost_usage_def by (intro exI [of _ "[1]"]) simp
  moreover have "counts []" by (simp add: counts_def)
  ultimately show ?thesis using overview_bars [of "[cost_usage]" "[]" "\<lambda>_. []" "[]"] by simp
qed

text \<open>The setup card leads to the first step that is not done. It is gone once all three are, so its last step, the
  connectivity test, is never the one it leads to, and it is never marked ready.\<close>

lemma setup_card_next:
  assumes "showSetupCard (Some s)"
  shows "\<exists>st \<in> set (setupSteps s). \<not> st_done st \<and> sc_button (SetupCard (setupSteps s)) = st_to st \<and>
    \<not> sc_test_ready (SetupCard (setupSteps s)) \<and> sc_button (SetupCard (setupSteps s)) \<noteq> js ''/playground''"
proof -
  have nd: "\<not> list_all st_done (setupSteps s)" using assms by (simp add: showSetupCard_def setupComplete_def)
  then obtain st where st: "find (\<lambda>x. \<not> st_done x) (setupSteps s) = Some st"
    by (cases "find (\<lambda>x. \<not> st_done x) (setupSteps s)") (auto simp: find_None_iff list_all_iff)
  then have in_steps: "st \<in> set (setupSteps s)" "\<not> st_done st" by (auto simp: find_Some_iff)
  moreover have "st_to st \<noteq> js ''/playground''" using in_steps(1) by (auto simp: setupSteps_def js_def)
  ultimately show ?thesis using st nd by (auto simp: SetupCard_def Let_def)
qed

text \<open>An answer for the preset that was left arrives last and is shown under the new preset.\<close>

lemma late_overview:
  assumes "ov_preset p = P_today" and "ov_flight p = [(0, P_today)]" and "ov_next p = 2"
  shows "let p' = fold (overview_step g) [ChoosePreset P_month, OverviewAnswer 2 (Inr month), OverviewAnswer 0 (Inr today)] p
    in ov_preset p' = P_month \<and> ov_data p' = Some today \<and> ov_flight p' = []"
  using assms by (simp add: fetchData_def apply_overview_def)

end
