(* ===== verification/Desktop_Settings.thy ===== *)
theory Desktop_Settings
  imports Desktop_Form Desktop_Format Date_Range
begin

text \<open>
  The settings page of the desktop application (\<^verbatim>\<open>desktop-ui/src/pages/Settings.tsx\<close>): the form over the gateway
  settings, the card that purges observations, and the card of the API key. A handler runs to its end as one step.
\<close>

section \<open>Reading integers\<close>

definition num_isInteger :: "jsnum \<Rightarrow> bool" where
  "num_isInteger n = (case n of Fin x \<Rightarrow> of_int \<lfloor>x\<rfloor> = x | _ \<Rightarrow> False)"

definition radix_digit :: "nat \<Rightarrow> cunit \<Rightarrow> bool" where
  "radix_digit b c = (case radix_val c of None \<Rightarrow> False | Some d \<Rightarrow> d < b)"

text \<open>\<^verbatim>\<open>parseInt(s)\<close>: the longest prefix of digits after blanks and a sign, in base 16 after \<^verbatim>\<open>0x\<close>.\<close>

definition js_parseInt :: "jsstr \<Rightarrow> jsnum" where
  "js_parseInt s =
     (let t = js_trimStart s;
          neg = js_startsWith t (js ''-'');
          u = (if neg \<or> js_startsWith t (js ''+'') then drop 1 t else t);
          hex = js_startsWith u (js ''0x'') \<or> js_startsWith u (js ''0X'');
          b = (if hex then 16 else 10);
          ds = takeWhile (radix_digit b) (if hex then drop 2 u else u)
      in if ds = [] then NaN
         else let n = (of_nat (the (parse_radix b 0 ds)) :: rat) in round_double (if neg then - n else n))"

text \<open>\<^verbatim>\<open>new Date(n)\<close>.\<close>

definition date_of_num :: "jsnum \<Rightarrow> date" where
  "date_of_num n = (case n of Fin x \<Rightarrow> if \<bar>x\<bar> \<le> of_int max_time then Some (rat_trunc x) else None | _ \<Rightarrow> None)"

section \<open>The form\<close>

record SettingsView =
  sv_addr :: jsstr
  sv_session_headers :: "jsstr list option"
  sv_capture_payload_enabled :: bool
  sv_max_body_kb :: jsnum
  sv_retention_days :: jsnum

record settings_form =
  se_loading :: bool
  se_pending :: bool
  se_loadError :: "jsstr option"
  se_addr :: jsstr
  se_sessionHeaders :: jsstr
  se_capture :: jsstr
  se_maxBodyKB :: jsstr
  se_retentionDays :: jsstr

definition Settings_init :: settings_form where
  "Settings_init = \<lparr>se_loading = True, se_pending = False, se_loadError = None, se_addr = [], se_sessionHeaders = [],
     se_capture = js ''on'', se_maxBodyKB = js ''256'', se_retentionDays = js ''30''\<rparr>"

definition settings_loaded :: "gateway \<Rightarrow> SettingsView res \<Rightarrow> settings_form \<Rightarrow> settings_form" where
  "settings_loaded g r f =
     (case r of
        Inl e \<Rightarrow> f\<lparr>se_loadError := Some (desk_error_message g e), se_loading := False\<rparr>
      | Inr s \<Rightarrow> f\<lparr>se_addr := sv_addr s,
          se_sessionHeaders := js_join (js '', '') (case sv_session_headers s of None \<Rightarrow> [] | Some l \<Rightarrow> l),
          se_capture := (if sv_capture_payload_enabled s then js ''on'' else js ''off''),
          se_maxBodyKB := num_repr (sv_max_body_kb s), se_retentionDays := num_repr (sv_retention_days s),
          se_loadError := None, se_loading := False\<rparr>)"

datatype settings_edit = SetAddr jsstr | SetHeaders jsstr | SetCapture jsstr | SetMaxBody jsstr | SetRetention jsstr

fun edit_settings :: "settings_edit \<Rightarrow> settings_form \<Rightarrow> settings_form" where
  "edit_settings (SetAddr v) f = f\<lparr>se_addr := v\<rparr>"
| "edit_settings (SetHeaders v) f = f\<lparr>se_sessionHeaders := v\<rparr>"
| "edit_settings (SetCapture v) f = f\<lparr>se_capture := v\<rparr>"
| "edit_settings (SetMaxBody v) f = f\<lparr>se_maxBodyKB := v\<rparr>"
| "edit_settings (SetRetention v) f = f\<lparr>se_retentionDays := v\<rparr>"

definition settings_valid :: "settings_form \<Rightarrow> bool" where
  "settings_valid f =
     (let maxBodyN = js_Number (se_maxBodyKB f); retentionN = js_Number (se_retentionDays f)
      in js_trim (se_addr f) \<noteq> [] \<and> num_isInteger maxBodyN \<and> num_le (Fin 0) maxBodyN \<and>
         num_isInteger retentionN \<and> num_le (Fin 0) retentionN)"

definition header_words :: "jsstr \<Rightarrow> jsstr list" where
  "header_words s = filter (\<lambda>w. w \<noteq> []) (map js_trim (js_split 0x2C s))"

definition settings_json :: "jsstr \<Rightarrow> jsstr list \<Rightarrow> bool \<Rightarrow> jsnum \<Rightarrow> jsnum \<Rightarrow> json" where
  "settings_json addr headers capture maxBody retention =
     JObj [(js ''gateway'', JObj [(js ''addr'', JStr addr), (js ''session_headers'', JArr (map JStr headers))]),
           (js ''trace'', JObj [(js ''capture_payload_enabled'', JBool capture), (js ''max_body_kb'', JNum maxBody),
                                (js ''retention_days'', JNum retention)])]"

definition desktop_settings_body :: "settings_form \<Rightarrow> json" where
  "desktop_settings_body f =
     settings_json (js_trim (se_addr f)) (header_words (se_sessionHeaders f)) (se_capture f = js ''on'')
       (js_Number (se_maxBodyKB f)) (js_Number (se_retentionDays f))"

definition settings_onSave :: "gateway \<Rightarrow> desk \<Rightarrow> settings_form \<Rightarrow> settings_form \<times> desk" where
  "settings_onSave g d f =
     (if \<not> settings_valid f \<or> se_pending f then (f, d)
      else case save_call (Some (ToastSuccess [0x8BBE, 0x7F6E, 0x5DF2, 0x4FDD, 0x5B58, 0x3002])) (desktop_updateSettings (desktop_settings_body f)) g d of
        (Inr u, d') \<Rightarrow> (f\<lparr>se_pending := False\<rparr>, d')
      | (Inl e, d') \<Rightarrow> (f\<lparr>se_pending := False\<rparr>, snd (toast_error e g d')))"

section \<open>Purging\<close>

text \<open>\<^verbatim>\<open>parseInt(retentionDays) || 30\<close>: the property the page gives to the card.\<close>

definition cleanup_days :: "settings_form \<Rightarrow> jsnum" where
  "cleanup_days f = (let n = js_parseInt (se_retentionDays f) in if num_truthy n then n else Fin 30)"

definition purge_before :: "int \<Rightarrow> jsnum \<Rightarrow> jsstr res" where
  "purge_before now days = toISOString (date_of_num (num_sub (num_int now) (num_mul days (num_int 86400000))))"

definition purge_toast :: "jsstr \<Rightarrow> jsstr \<Rightarrow> json \<Rightarrow> unit dact" where
  "purge_toast pre post res =
     dbind (dlift (get_prop (Some res) (js ''deleted''))) (\<lambda>n. show_toast (ToastSuccess (pre @ val_String n @ post)))"

definition onPurge :: "int \<Rightarrow> jsnum \<Rightarrow> unit dact" where
  "onPurge now days =
     dcatch (dbind (dlift (purge_before now days)) (\<lambda>before.
       dbind (purgeObservation (Some before)) (purge_toast [0x5DF2, 0x6E05, 0x7406, 0x20] ([0x20, 0x6761, 0x8FC7, 0x671F, 0x89C2, 0x6D4B, 0x8BB0, 0x5F55, 0xFF08] @ num_repr days @ [0x20, 0x5929, 0x524D, 0xFF09, 0x3002]))))
       toast_error"

definition onClearAll :: "unit dact" where
  "onClearAll = dcatch (dbind (purgeObservation None) (purge_toast [0x5DF2, 0x6E05, 0x7A7A, 0x5168, 0x90E8, 0x20] [0x20, 0x6761, 0x89C2, 0x6D4B, 0x8BB0, 0x5F55, 0x3002])) toast_error"

section \<open>The API key\<close>

record APIKeyView =
  kv_key_id :: jsstr
  kv_key :: "jsstr option"
  kv_plaintext_known :: bool

record key_card =
  kc_view :: "APIKeyView option"
  kc_confirmOpen :: bool
  kc_rotatedKey :: "jsstr option"

definition key_card_init :: key_card where
  "key_card_init = \<lparr>kc_view = None, kc_confirmOpen = False, kc_rotatedKey = None\<rparr>"

text \<open>The events of the card; an answer to a rotation comes with the warning of the gateway, and \<open>ok\<close> tells whether the
  clipboard accepted the text.\<close>

datatype key_event =
    KeyLoaded "APIKeyView res"
  | AskRotate
  | CancelRotate
  | ConfirmRotate "(APIKeyView \<times> jsstr) res"
  | CopyKey bool
  | CopyRotated bool
  | CloseRotated

definition copy_toast :: "bool \<Rightarrow> toast" where
  "copy_toast ok = (if ok then ToastSuccess [0x5DF2, 0x590D, 0x5236, 0x5230, 0x526A, 0x8D34, 0x677F, 0x3002] else ToastError [0x590D, 0x5236, 0x5931, 0x8D25, 0xFF0C, 0x8BF7, 0x624B, 0x52A8, 0x9009, 0x62E9, 0x590D, 0x5236, 0x3002])"

text \<open>The buttons of a closed dialog and of a key that is not shown are not there.\<close>

definition known_key :: "key_card \<Rightarrow> jsstr option" where
  "known_key c = (case kc_view c of None \<Rightarrow> None
     | Some v \<Rightarrow> if kv_plaintext_known v \<and> kv_key v \<noteq> Some [] then kv_key v else None)"

fun key_step :: "gateway \<Rightarrow> key_event \<Rightarrow> key_card \<Rightarrow> key_card \<times> toast list" where
  "key_step g (KeyLoaded (Inl e)) c = (c, [ToastError (desk_error_message g e)])"
| "key_step g (KeyLoaded (Inr v)) c = (c\<lparr>kc_view := Some v\<rparr>, [])"
| "key_step g AskRotate c = (c\<lparr>kc_confirmOpen := True\<rparr>, [])"
| "key_step g CancelRotate c = (c\<lparr>kc_confirmOpen := False\<rparr>, [])"
| "key_step g (ConfirmRotate r) c =
     (if \<not> kc_confirmOpen c then (c, [])
      else case r of
        Inl e \<Rightarrow> (c\<lparr>kc_confirmOpen := False\<rparr>, [ToastError (desk_error_message g e)])
      | Inr (v, warning) \<Rightarrow> (c\<lparr>kc_confirmOpen := False, kc_view := Some v, kc_rotatedKey := kv_key v\<rparr>,
          if warning \<noteq> [] then [ToastWarning warning] else []))"
| "key_step g (CopyKey ok) c = (c, if known_key c = None then [] else [copy_toast ok])"
| "key_step g (CopyRotated ok) c =
     (c, case kc_rotatedKey c of None \<Rightarrow> [] | Some k \<Rightarrow> if k \<noteq> [] then [copy_toast ok] else [])"
| "key_step g CloseRotated c = (c\<lparr>kc_rotatedKey := None\<rparr>, [])"

section \<open>Lemmas\<close>

lemma parse_radix_digits:
  "list_all is_digit ds \<Longrightarrow> parse_radix 10 a ds = Some (a * 10 ^ length ds + dec_val ds)"
proof (induction ds arbitrary: a)
  case (Cons c cs)
  have c: "is_digit c" using Cons.prems by simp
  then have "radix_val c = Some (digit_val c)" "digit_val c < 10"
    by (auto simp: radix_val_def is_digit_def digit_val_def word_le_nat_alt Let_def)
  moreover have "dec_val (c # cs) = digit_val c * 10 ^ length cs + dec_val cs"
    using dec_val_append [of "[c]" cs] dec_val_snoc [of "[]" c] by simp
  ultimately show ?case using Cons by (simp add: algebra_simps)
qed simp

lemma header_words_join:
  assumes "\<forall>w \<in> set ws. w \<noteq> [] \<and> js_trim w = w \<and> 0x2C \<notin> set w"
  shows "header_words (js_join (js '', '') ws) = ws"
proof (cases "ws = []")
  case True
  then show ?thesis by (simp add: header_words_def js_trim_def js_trimStart_def)
next
  case False
  with split_join_words [of ws] assms show ?thesis by (auto simp: header_words_def filter_id_conv)
qed

lemma digit_radix: "is_digit c \<Longrightarrow> radix_digit 10 c"
  by (auto simp: radix_digit_def radix_val_def is_digit_def word_le_nat_alt Let_def)

lemma parseInt_digits:
  assumes "int n \<le> 2 ^ 53"
  shows "js_parseInt (digits10 n) = num_int (int n)"
proof -
  have ds: "\<And>c. c \<in> set (digits10 n) \<Longrightarrow> is_digit c" by (rule digits10_is_digit)
  have hd: "is_digit (hd (digits10 n))" by (rule ds) simp
  have trim: "js_trimStart (digits10 n) = digits10 n"
    unfolding js_trimStart_def using is_digit_not_ws [OF hd] by (cases "digits10 n") simp_all
  have sign: "\<not> js_startsWith (digits10 n) [c]" if "\<not> is_digit c" for c
    using hd that by (cases "digits10 n") auto
  have hex: "\<not> js_startsWith (digits10 n) [c, c']" if "\<not> is_digit c'" for c c'
  proof
    assume "js_startsWith (digits10 n) [c, c']"
    then have "c' \<in> set (digits10 n)" by (auto simp: js_startsWith_prefix prefix_def)
    with ds that show False by blast
  qed
  have all: "takeWhile (radix_digit 10) (digits10 n) = digits10 n"
    using ds digit_radix by (simp add: takeWhile_eq_all_conv)
  have "parse_radix 10 0 (digits10 n) = Some n"
    using parse_radix_digits [of "digits10 n" 0] ds by (simp add: list_all_iff)
  moreover have "round_double (of_nat n) = num_int (int n)"
    using round_double_int [of "int n"] assms by (simp add: safe_def)
  moreover have "\<not> is_digit 0x2D" "\<not> is_digit 0x2B" "\<not> is_digit 0x78" "\<not> is_digit 0x58" by (simp_all add: is_digit_def)
  ultimately show ?thesis using sign hex trim by (simp add: js_parseInt_def js_def Let_def all)
qed

section \<open>Properties\<close>

text \<open>Settings as the gateway stores them: a trimmed address, trimmed headers without commas, limits that are whole
  numbers.\<close>

definition settings_ok :: "SettingsView \<Rightarrow> bool" where
  "settings_ok s \<longleftrightarrow> sv_addr s \<noteq> [] \<and> js_trim (sv_addr s) = sv_addr s \<and>
     list_all (\<lambda>w. w \<noteq> [] \<and> js_trim w = w \<and> 0x2C \<notin> set w) (case sv_session_headers s of None \<Rightarrow> [] | Some l \<Rightarrow> l) \<and>
     (\<exists>m. sv_max_body_kb s = num_int m \<and> 0 \<le> m \<and> m \<le> 2 ^ 53) \<and> (\<exists>r. sv_retention_days s = num_int r \<and> 0 \<le> r \<and> r \<le> 2 ^ 53)"

text \<open>Opening the settings and saving them without a change puts back what was stored: the form is valid, and its
  one request carries every stored value.\<close>

theorem settings_resave:
  assumes ok: "settings_ok s" and f: "f = settings_loaded g (Inr s) f0" and "\<not> se_pending f0"
  shows "settings_valid f \<and> dk_sent (snd (settings_onSave g d f)) = dk_sent d @
    [\<lparr>dr_method = D_PUT, dr_path = BASE @ js ''/settings'', dr_params = [],
      dr_body = Some (stringify (settings_json (sv_addr s) (case sv_session_headers s of None \<Rightarrow> [] | Some l \<Rightarrow> l)
        (sv_capture_payload_enabled s) (sv_max_body_kb s) (sv_retention_days s)))\<rparr>]"
proof -
  obtain m r where m: "sv_max_body_kb s = num_int m" "0 \<le> m" "m \<le> 2 ^ 53"
    and r: "sv_retention_days s = num_int r" "0 \<le> r" "r \<le> 2 ^ 53" using ok unfolding settings_ok_def by blast
  have num: "js_Number (se_maxBodyKB f) = num_int m" "js_Number (se_retentionDays f) = num_int r"
    using number_text_roundtrip(3) [OF m(2,3)] number_text_roundtrip(3) [OF r(2,3)] m(1) r(1)
    by (simp_all add: f settings_loaded_def)
  have valid: "settings_valid f"
    using ok m r num by (auto simp: settings_valid_def settings_ok_def f settings_loaded_def num_isInteger_def le_less)
  have headers: "header_words (se_sessionHeaders f) = (case sv_session_headers s of None \<Rightarrow> [] | Some l \<Rightarrow> l)"
    using header_words_join [of "case sv_session_headers s of None \<Rightarrow> [] | Some l \<Rightarrow> l"] ok
    unfolding settings_ok_def list_all_iff by (simp add: f settings_loaded_def)
  have body: "desktop_settings_body f = settings_json (sv_addr s) (case sv_session_headers s of None \<Rightarrow> [] | Some l \<Rightarrow> l)
      (sv_capture_payload_enabled s) (sv_max_body_kb s) (sv_retention_days s)"
    using ok num m r headers by (simp add: desktop_settings_body_def settings_ok_def f settings_loaded_def js_def)
  have "dk_sent (snd (settings_onSave g d f)) = dk_sent (snd (desktop_updateSettings (desktop_settings_body f) g d))"
    using valid assms(3) save_call_sent [of "Some (ToastSuccess [0x8BBE, 0x7F6E, 0x5DF2, 0x4FDD, 0x5B58, 0x3002])" "desktop_updateSettings (desktop_settings_body f)" g d]
    by (auto simp: settings_onSave_def f settings_loaded_def toast_error_def show_toast_def split: prod.splits sum.splits)
  also have "\<dots> = dk_sent d @ [\<lparr>dr_method = D_PUT, dr_path = BASE @ js ''/settings'', dr_params = [], dr_body = Some (stringify (desktop_settings_body f))\<rparr>]"
    by (auto simp: desktop_updateSettings_def sendJSON_run Let_def split: dfetch.splits)
  finally show ?thesis using valid body by simp
qed

definition demo_settings :: SettingsView where
  "demo_settings = \<lparr>sv_addr = js ''127.0.0.1:8787'', sv_session_headers = Some [js ''X-Session''], sv_capture_payload_enabled = True,
     sv_max_body_kb = num_int 256, sv_retention_days = num_int 30\<rparr>"

theorem settings_resave_witness: "settings_valid (settings_loaded missing_gateway (Inr demo_settings) Settings_init)"
proof -
  have "settings_ok demo_settings"
    unfolding settings_ok_def demo_settings_def
    by (auto simp: js_def js_trim_def js_trimStart_def js_ws_def intro!: exI [of _ 256] exI [of _ 30])
  from settings_resave [OF this refl, of Settings_init missing_gateway idle_desk] show ?thesis by (simp add: Settings_init_def)
qed

text \<open>Purging respects the retention. When the retention is typed as a plain number of days from 1 to a million,
  the cutoff that the purge sends is exactly that many days before now, the number that saving the form stores.\<close>

theorem purge_cutoff:
  assumes typed: "se_retentionDays f = digits10 n" and n: "1 \<le> n" "n \<le> 10 ^ 6" and now: "0 \<le> now" "now \<le> 10 ^ 15"
  shows "purge_before now (cleanup_days f) = Inr (iso_text (now - int n * 86400000)) \<and>
    js_Number (se_retentionDays f) = num_int (int n)"
proof -
  have small: "int n \<le> 2 ^ 53" using n by simp
  have days: "cleanup_days f = num_int (int n)"
    using parseInt_digits [OF small] n(1) by (simp add: cleanup_days_def typed Let_def)
  have prod: "num_mul (num_int (int n)) (num_int 86400000) = num_int (int n * 86400000)"
    by (rule num_mul_int) (use n in \<open>simp add: safe_def\<close>)
  have "num_sub (num_int now) (num_int (int n * 86400000)) = num_add (num_int now) (num_int (- (int n * 86400000)))"
    by (simp add: num_sub_def)
  also have "\<dots> = num_int (now + - (int n * 86400000))"
    by (rule num_add_int) (use n now in \<open>simp add: safe_def\<close>)
  finally have diff: "num_sub (num_int now) (num_int (int n * 86400000)) = num_int (now - int n * 86400000)" by simp
  have bound: "\<bar>now - int n * 86400000\<bar> \<le> max_time" using n now by (simp add: max_time_def)
  then have "\<bar>of_int (now - int n * 86400000) :: rat\<bar> \<le> of_int max_time" unfolding of_int_abs [symmetric] by (simp only: of_int_le_iff)
  then have "date_of_num (num_int (now - int n * 86400000)) = Some (now - int n * 86400000)"
    by (simp only: date_of_num_def jsnum.case if_True rat_trunc_def floor_of_int ceiling_of_int) simp
  moreover have "js_Number (se_retentionDays f) = num_int (int n)"
    using number_text_roundtrip(3) [of "int n"] num_repr_int [of "int n"] small by (simp add: typed)
  ultimately show ?thesis unfolding purge_before_def days prod diff by (simp add: toISOString_def)
qed

theorem purge_cutoff_witness:
  "purge_before 1700000000000 (cleanup_days Settings_init) = Inr (iso_text (1700000000000 - 30 * 86400000))"
proof -
  have "se_retentionDays Settings_init = digits10 30" by (simp add: Settings_init_def js_def digits10_lt100 digit_chr_def)
  from purge_cutoff [OF this, of 1700000000000] show ?thesis by simp
qed

text \<open>Other texts are read differently by the two: an exponent stores a thousand days but purges after one, and a
  negative number, which cannot be saved, can be purged with and puts the cutoff into the future.\<close>

lemma purge_exponent:
  assumes "se_retentionDays f = js ''1e3''"
  shows "js_Number (se_retentionDays f) = num_int 1000 \<and> cleanup_days f = num_int 1"
proof
  show "js_Number (se_retentionDays f) = num_int 1000" unfolding assms by code_simp
  have "js_parseInt (js ''1e3'') = Fin 1" by code_simp
  then show "cleanup_days f = num_int 1" unfolding cleanup_days_def assms by simp
qed

lemma purge_negative:
  assumes "se_retentionDays f = js ''-5''"
  shows "\<not> settings_valid f \<and> purge_before 1700000000000 (cleanup_days f) = Inr (iso_text (1700000000000 + 5 * 86400000))"
proof
  have "js_Number (js ''-5'') = Fin (- 5)" by code_simp
  then show "\<not> settings_valid f" by (simp add: settings_valid_def assms)
  have "js_parseInt (js ''-5'') = Fin (- 5)" by code_simp
  then have "cleanup_days f = Fin (- 5)" by (simp add: cleanup_days_def assms)
  moreover have "num_sub (num_int 1700000000000) (num_mul (Fin (- 5)) (num_int 86400000)) = Fin 1700432000000" by code_simp
  moreover have "date_of_num (Fin 1700432000000) = Some 1700432000000" by code_simp
  ultimately show "purge_before 1700000000000 (cleanup_days f) = Inr (iso_text (1700000000000 + 5 * 86400000))"
    by (simp add: purge_before_def toISOString_def)
qed

text \<open>The key that is shown after a rotation is the new one. A confirmed rotation that the gateway accepts closes
  the dialog and shows its key, once in the dialog and in the card; a refused one reports the error and changes no key;
  without the confirmation no rotation happens.\<close>

theorem key_rotation:
  "(kc_confirmOpen c \<longrightarrow> key_step g (ConfirmRotate (Inr (v, warning))) c =
      (c\<lparr>kc_confirmOpen := False, kc_view := Some v, kc_rotatedKey := kv_key v\<rparr>, if warning \<noteq> [] then [ToastWarning warning] else []) \<and>
      (kv_plaintext_known v \<and> kv_key v = Some k \<and> k \<noteq> [] \<longrightarrow>
        known_key (fst (key_step g (ConfirmRotate (Inr (v, warning))) c)) = Some k)) \<and>
   (kc_confirmOpen c \<longrightarrow> key_step g (ConfirmRotate (Inl e)) c = (c\<lparr>kc_confirmOpen := False\<rparr>, [ToastError (desk_error_message g e)])) \<and>
   (\<not> kc_confirmOpen c \<longrightarrow> key_step g (ConfirmRotate r) c = (c, []))"
  by (simp add: known_key_def)

text \<open>The button that says copy and close only copies: the dialog with the new key stays open.\<close>

lemma copy_keeps_open: "kc_rotatedKey (fst (key_step g (CopyRotated ok) c)) = kc_rotatedKey c"
  by simp

end
