(* ===== verification/Desktop_Shell.thy ===== *)
theory Desktop_Shell
  imports Desktop_Form Desktop_Format
begin

text \<open>
  The frame of the desktop application and its small pages: the routes (\<^verbatim>\<open>desktop-ui/src/App.tsx\<close>), the sidebar
  (\<^verbatim>\<open>components/layout/sidebar.tsx\<close>), the tab strip (\<^verbatim>\<open>components/ui/tabs.tsx\<close>), the connectivity test
  (\<^verbatim>\<open>pages/Playground.tsx\<close>) and the dialog for prompt favourites (\<^verbatim>\<open>components/prompts/prompt-form-modal.tsx\<close>).
\<close>

section \<open>Navigation\<close>

definition sectionMatch :: "jsstr \<Rightarrow> jsstr \<Rightarrow> bool" where
  "sectionMatch href pathname = (pathname = href \<or> js_startsWith pathname (href @ js ''/''))"

record nav_item =
  nv_to :: jsstr
  nv_label :: jsstr
  nv_match :: "jsstr \<Rightarrow> bool"

definition section_item :: "jsstr \<Rightarrow> jsstr \<Rightarrow> nav_item" where
  "section_item href label = \<lparr>nv_to = href, nv_label = label, nv_match = sectionMatch href\<rparr>"

definition configItems :: "nav_item list" where
  "configItems =
     [\<lparr>nv_to = js ''/'', nv_label = [0x6982, 0x89C8], nv_match = (\<lambda>p. p = js ''/'')\<rparr>,
      section_item (js ''/providers'') [0x4F9B, 0x5E94, 0x5546], section_item (js ''/models'') [0x6A21, 0x578B],
      section_item (js ''/routes'') [0x8DEF, 0x7531], section_item (js ''/playground'') [0x8FDE, 0x901A, 0x6027, 0x6D4B, 0x8BD5],
      section_item (js ''/settings'') [0x8BBE, 0x7F6E]]"

definition observeItems :: "nav_item list" where
  "observeItems =
     [\<lparr>nv_to = js ''/sessions'', nv_label = [0x4F1A, 0x8BDD, 0x6D4F, 0x89C8, 0x5668],
       nv_match = (\<lambda>p. sectionMatch (js ''/sessions'') p \<or> sectionMatch (js ''/trace'') p)\<rparr>,
      section_item (js ''/request-logs'') [0x8BF7, 0x6C42, 0x65E5, 0x5FD7], section_item (js ''/prompts'') [0x50, 0x72, 0x6F, 0x6D, 0x70, 0x74, 0x20, 0x6536, 0x85CF],
      section_item (js ''/logs'') [0x8FD0, 0x884C, 0x65E5, 0x5FD7]]"

definition nav_items :: "nav_item list" where
  "nav_items = configItems @ observeItems"

text \<open>The links of the sidebar, each with whether it is highlighted.\<close>

definition SideNav :: "jsstr \<Rightarrow> (jsstr \<times> jsstr \<times> bool) list" where
  "SideNav pathname = map (\<lambda>it. (nv_to it, nv_label it, nv_match it pathname)) nav_items"

text \<open>The pages with a fixed path; the trace viewer has one path for each session id.\<close>

definition app_paths :: "jsstr list" where
  "app_paths = map js [''/'', ''/sessions'', ''/request-logs'', ''/logs'', ''/providers'', ''/models'', ''/routes'',
     ''/settings'', ''/playground'', ''/prompts'']"

definition trace_path :: "jsstr \<Rightarrow> jsstr" where
  "trace_path seg = js ''/trace/'' @ seg"

definition app_route :: "jsstr \<Rightarrow> bool" where
  "app_route p = (p \<in> set app_paths \<or> (\<exists>seg. seg \<noteq> [] \<and> 0x2F \<notin> set seg \<and> p = trace_path seg))"

text \<open>\<open>lower\<close> is \<^verbatim>\<open>toLowerCase\<close>. The result tells whether the default of the key is prevented.\<close>

definition app_onKeyDown :: "(jsstr \<Rightarrow> jsstr) \<Rightarrow> bool \<Rightarrow> bool \<Rightarrow> jsstr \<Rightarrow> gateway \<Rightarrow> desk \<Rightarrow> bool \<times> desk" where
  "app_onKeyDown lower ctrlKey metaKey key g d =
     (if (ctrlKey \<or> metaKey) \<and> lower key = js ''r'' then (True, snd (reloadConfigWithToast g d)) else (False, d))"

datatype sidebar_event = ReloadClick | RevealClick | QuitClick | QuitCancel | QuitConfirm

fun sidebar_step :: "gateway \<Rightarrow> sidebar_event \<Rightarrow> bool \<times> desk \<Rightarrow> bool \<times> desk" where
  "sidebar_step g ReloadClick (quitOpen, d) = (quitOpen, snd (reloadConfigWithToast g d))"
| "sidebar_step g RevealClick (quitOpen, d) = (quitOpen, snd (revealConfigFolderWithToast g d))"
| "sidebar_step g QuitClick (quitOpen, d) = (True, d)"
| "sidebar_step g QuitCancel (quitOpen, d) = (False, d)"
| "sidebar_step g QuitConfirm (quitOpen, d) = (if quitOpen then (False, snd (quitAppWithToast g d)) else (quitOpen, d))"

section \<open>Tabs\<close>

record tab_item =
  ti_value :: jsstr
  ti_disabled :: bool

definition tabs_initial :: "tab_item list \<Rightarrow> jsstr option \<Rightarrow> jsstr" where
  "tabs_initial items defaultValue =
     (case defaultValue of Some v \<Rightarrow> v | None \<Rightarrow> (case items of [] \<Rightarrow> [] | it # its \<Rightarrow> ti_value it))"

definition tabs_active :: "jsstr option \<Rightarrow> jsstr \<Rightarrow> jsstr" where
  "tabs_active val internal = (case val of Some v \<Rightarrow> v | None \<Rightarrow> internal)"

text \<open>The new internal state, and the value the parent is told.\<close>

definition tabs_click :: "jsstr option \<Rightarrow> jsstr \<Rightarrow> tab_item \<Rightarrow> jsstr \<times> jsstr option" where
  "tabs_click val internal it =
     (if ti_disabled it then (internal, None)
      else (if val = None then ti_value it else internal, Some (ti_value it)))"

section \<open>The connectivity test\<close>

record playground =
  pg_models :: "jsstr list option"
  pg_model :: jsstr
  pg_prompt :: jsstr
  pg_pending :: bool
  pg_result :: "json option"
  pg_error :: "jsstr option"

definition Playground_init :: playground where
  "Playground_init = \<lparr>pg_models = None, pg_model = [], pg_prompt = [0x4F60, 0x597D, 0xFF0C, 0x7528, 0x4E00, 0x53E5, 0x8BDD, 0x4ECB, 0x7ECD, 0x4F60, 0x81EA, 0x5DF1, 0x3002], pg_pending = False,
     pg_result = None, pg_error = None\<rparr>"

text \<open>The aliases of the models; a model that was chosen meanwhile stays.\<close>

definition playground_loaded :: "gateway \<Rightarrow> jsstr list res \<Rightarrow> playground \<Rightarrow> playground" where
  "playground_loaded g r p =
     (case r of
        Inl e \<Rightarrow> p\<lparr>pg_error := Some (desk_error_message g e)\<rparr>
      | Inr ms \<Rightarrow> p\<lparr>pg_models := Some ms,
          pg_model := (case ms of [] \<Rightarrow> pg_model p | a # as \<Rightarrow> if pg_model p \<noteq> [] then pg_model p else a)\<rparr>)"

definition playground_onSend :: "gateway \<Rightarrow> desk \<Rightarrow> playground \<Rightarrow> playground \<times> desk" where
  "playground_onSend g d p =
     (if pg_model p = [] \<or> js_trim (pg_prompt p) = [] \<or> pg_pending p then (p, d)
      else case playgroundChat (pg_model p) (js_trim (pg_prompt p)) g d of
        (Inr v, d') \<Rightarrow> (p\<lparr>pg_pending := False, pg_result := Some v, pg_error := None\<rparr>, d')
      | (Inl e, d') \<Rightarrow> (p\<lparr>pg_pending := False, pg_result := None, pg_error := Some (desk_error_message g e)\<rparr>, d'))"

record PlaygroundResult =
  pr_content :: jsstr
  pr_provider :: jsstr
  pr_model_resolved :: jsstr
  pr_fallback :: bool
  pr_latency_ms :: jsnum
  pr_finish_reason :: "jsstr option"
  pr_reasoning_content :: "jsstr option"
  pr_usage :: "(jsnum \<times> jsnum \<times> jsnum) option"

definition shown_text :: "jsstr option \<Rightarrow> jsstr option" where
  "shown_text s = (if s = Some [] then None else s)"

definition playground_description :: "PlaygroundResult \<Rightarrow> jsstr" where
  "playground_description r =
     [0x7ECF, 0x7531, 0x4F9B, 0x5E94, 0x5546, 0x300C] @ pr_provider r @ [0x300D, 0xB7, 0x20, 0x4E0A, 0x6E38, 0x6A21, 0x578B, 0x20] @ pr_model_resolved r @ [0x20, 0xB7, 0x20, 0x8017, 0x65F6] @ js '' '' @
     formatDurationCompact (Some (pr_latency_ms r)) @
     (if pr_fallback r then [0x20, 0xB7, 0x20, 0x53D1, 0x751F, 0x4E86, 0x5019, 0x9009, 0x56DE, 0x9000] else []) @
     (case pr_usage r of
        None \<Rightarrow> []
      | Some (pt, ct, tt) \<Rightarrow> [0x20, 0xB7, 0x20, 0x74, 0x6F, 0x6B, 0x65, 0x6E, 0x73, 0x20] @ formatTokens (Some tt) @ [0xFF08] @ formatTokens (Some pt) @ js ''/'' @ formatTokens (Some ct) @ [0xFF09]) @
     (case shown_text (pr_finish_reason r) of
        None \<Rightarrow> []
      | Some fr \<Rightarrow> [0x20, 0xB7, 0x20, 0x7ED3, 0x675F, 0x539F, 0x56E0, 0x20] @ fr @ (if fr = js ''length'' then [0xFF08, 0x8F93, 0x51FA, 0x8FBE, 0x4E0A, 0x9650, 0xFF09] else []))"

datatype playground_body = PB_content jsstr | PB_reasoning jsstr | PB_empty

definition playground_body_of :: "PlaygroundResult \<Rightarrow> playground_body" where
  "playground_body_of r =
     (if pr_content r \<noteq> [] then PB_content (pr_content r)
      else case shown_text (pr_reasoning_content r) of Some t \<Rightarrow> PB_reasoning t | None \<Rightarrow> PB_empty)"

section \<open>Prompt favourites\<close>

record PromptTemplate =
  pt_id :: jsnum
  pt_title :: jsstr
  pt_content :: jsstr
  pt_tags :: "jsstr list"
  pt_session_id :: "jsstr option"
  pt_source_trace_row_id :: "jsnum option"
  pt_note :: jsstr
  pt_created_at :: jsstr
  pt_updated_at :: jsstr

record prompt_initial =
  pi_content :: jsstr
  pi_session_id :: "jsstr option"
  pi_source_trace_row_id :: "jsnum option"

record prompt_form =
  pm_title :: jsstr
  pm_content :: jsstr
  pm_tags :: jsstr
  pm_note :: jsstr
  pm_pending :: bool

definition prompt_form_init :: prompt_form where
  "prompt_form_init = \<lparr>pm_title = [], pm_content = [], pm_tags = [], pm_note = [], pm_pending = False\<rparr>"

text \<open>The effect that seeds the form: it runs whenever the dialog opens, or another object is given to it.\<close>

definition prompt_seed :: "bool \<Rightarrow> PromptTemplate option \<Rightarrow> prompt_initial option \<Rightarrow> prompt_form \<Rightarrow> prompt_form" where
  "prompt_seed is_open editRow initial f =
     (if \<not> is_open then f
      else f\<lparr>pm_title := (case editRow of None \<Rightarrow> [] | Some r \<Rightarrow> pt_title r),
             pm_content := (case editRow of Some r \<Rightarrow> pt_content r
                            | None \<Rightarrow> (case initial of None \<Rightarrow> [] | Some i \<Rightarrow> pi_content i)),
             pm_tags := js_join (js '', '') (case editRow of None \<Rightarrow> [] | Some r \<Rightarrow> pt_tags r),
             pm_note := (case editRow of None \<Rightarrow> [] | Some r \<Rightarrow> pt_note r)\<rparr>)"

datatype prompt_edit = SetTitle jsstr | SetContent jsstr | SetTags jsstr | SetNote jsstr

fun edit_prompt :: "prompt_edit \<Rightarrow> prompt_form \<Rightarrow> prompt_form" where
  "edit_prompt (SetTitle v) f = f\<lparr>pm_title := v\<rparr>"
| "edit_prompt (SetContent v) f = f\<lparr>pm_content := v\<rparr>"
| "edit_prompt (SetTags v) f = f\<lparr>pm_tags := v\<rparr>"
| "edit_prompt (SetNote v) f = f\<lparr>pm_note := v\<rparr>"

definition prompt_tags :: "jsstr \<Rightarrow> jsstr list" where
  "prompt_tags s = filter (\<lambda>w. w \<noteq> []) (map js_trim (js_split 0x2C s))"

text \<open>Fields that are \<^verbatim>\<open>undefined\<close> are not sent.\<close>

definition prompt_json :: "jsstr \<Rightarrow> jsstr \<Rightarrow> jsstr list \<Rightarrow> jsstr \<Rightarrow> jsstr option \<Rightarrow> jsnum option \<Rightarrow> json" where
  "prompt_json title content tags note session row =
     JObj ([(js ''title'', JStr title), (js ''content'', JStr content), (js ''tags'', JArr (map JStr tags)), (js ''note'', JStr note)] @
       (case session of None \<Rightarrow> [] | Some s \<Rightarrow> [(js ''session_id'', JStr s)]) @
       (case row of None \<Rightarrow> [] | Some n \<Rightarrow> [(js ''source_trace_row_id'', JNum n)]))"

definition prompt_payload :: "PromptTemplate option \<Rightarrow> prompt_initial option \<Rightarrow> prompt_form \<Rightarrow> json" where
  "prompt_payload editRow initial f =
     prompt_json (js_trim (pm_title f)) (pm_content f) (prompt_tags (pm_tags f)) (pm_note f)
       (case editRow of Some r \<Rightarrow> pt_session_id r | None \<Rightarrow> Option.bind initial pi_session_id)
       (case editRow of Some r \<Rightarrow> pt_source_trace_row_id r | None \<Rightarrow> Option.bind initial pi_source_trace_row_id)"

text \<open>The first component tells whether \<^verbatim>\<open>onSaved\<close> and \<^verbatim>\<open>onClose\<close> are called.\<close>

definition prompt_onSubmit :: "PromptTemplate option \<Rightarrow> prompt_initial option \<Rightarrow> gateway \<Rightarrow> desk \<Rightarrow> prompt_form \<Rightarrow>
    bool \<times> prompt_form \<times> desk" where
  "prompt_onSubmit editRow initial g d f =
     (if js_trim (pm_title f) = [] \<or> js_trim (pm_content f) = [] \<or> pm_pending f then (False, f, d)
      else let payload = prompt_payload editRow initial f;
               call = (case editRow of
                         Some r \<Rightarrow> dbind (updatePrompt (pt_id r) payload) (\<lambda>_. show_toast (ToastSuccess [0x6536, 0x85CF, 0x5DF2, 0x66F4, 0x65B0, 0x3002]))
                       | None \<Rightarrow> dbind (createPrompt payload) (\<lambda>_. show_toast (ToastSuccess [0x5DF2, 0x6536, 0x85CF, 0x8BE5, 0x20, 0x70, 0x72, 0x6F, 0x6D, 0x70, 0x74, 0x3002])))
           in case call g d of
                (Inr u, d') \<Rightarrow> (True, f\<lparr>pm_pending := False\<rparr>, d')
              | (Inl e, d') \<Rightarrow> (False, f\<lparr>pm_pending := False\<rparr>, snd (toast_error e g d')))"

section \<open>Lemmas\<close>

text \<open>The first segment of a path.\<close>

definition head_seg :: "jsstr \<Rightarrow> jsstr option" where
  "head_seg p = (case p of [] \<Rightarrow> None | c # r \<Rightarrow> if c = 0x2F then Some (takeWhile (\<lambda>x. x \<noteq> 0x2F) r) else None)"

lemma sectionMatch_seg:
  assumes "0x2F \<notin> set h"
  shows "sectionMatch (0x2F # h) p \<longleftrightarrow> head_seg p = Some h"
proof
  have all: "takeWhile (\<lambda>x. x \<noteq> 0x2F) h = h" using assms by (auto simp: takeWhile_eq_all_conv)
  have more: "takeWhile (\<lambda>x. x \<noteq> 0x2F) (h @ 0x2F # r) = h" for r using assms by (subst takeWhile_append2) auto
  assume "sectionMatch (0x2F # h) p"
  then show "head_seg p = Some h" using all more
    by (auto simp: sectionMatch_def js_startsWith_prefix prefix_def head_seg_def js_def)
next
  assume h: "head_seg p = Some h"
  then obtain r where r: "p = 0x2F # r" "takeWhile (\<lambda>x. x \<noteq> 0x2F) r = h"
    by (auto simp: head_seg_def split: list.splits if_splits)
  obtain t where t: "r = h @ t" "t = dropWhile (\<lambda>x. x \<noteq> 0x2F) r" using r(2) by (metis takeWhile_dropWhile_id)
  show "sectionMatch (0x2F # h) p"
  proof (cases t)
    case Nil
    with t r show ?thesis by (simp add: sectionMatch_def)
  next
    case (Cons c t')
    then have "c = 0x2F" using t(2) hd_dropWhile [of "\<lambda>x. x \<noteq> 0x2F" r] by simp
    with Cons t(1) r(1) show ?thesis by (simp add: sectionMatch_def js_startsWith_prefix js_def)
  qed
qed

lemma root_seg: "p = js ''/'' \<Longrightarrow> head_seg p = Some []"
  by (simp add: head_seg_def js_def)

lemma trace_seg: "head_seg (trace_path seg) = Some (js ''trace'')"
  by (simp add: head_seg_def trace_path_def js_def)

text \<open>What each link of the sidebar matches, as the first segment of the path.\<close>

lemma nav_matches:
  "map nv_match nav_items = (\<lambda>p. p = js ''/'') #
     map (\<lambda>h p. head_seg p = Some h) (map js [''providers'', ''models'', ''routes'', ''playground'', ''settings'']) @
     (\<lambda>p. head_seg p = Some (js ''sessions'') \<or> head_seg p = Some (js ''trace'')) #
     map (\<lambda>h p. head_seg p = Some h) (map js [''request-logs'', ''prompts'', ''logs''])"
proof -
  have "sectionMatch (0x2F # h) = (\<lambda>p. head_seg p = Some h)" if "0x2F \<notin> set h" for h
    using sectionMatch_seg [OF that] by (intro ext)
  then show ?thesis by (simp add: nav_items_def configItems_def observeItems_def section_item_def js_def)
qed

definition nav_segs :: "jsstr list" where
  "nav_segs = [] # map js [''providers'', ''models'', ''routes'', ''playground'', ''settings''] @
     js ''sessions'' # js ''trace'' # map js [''request-logs'', ''prompts'', ''logs'']"

lemma distinct_nav_segs: "distinct nav_segs"
  by (simp add: nav_segs_def js_def)

lemma app_path_seg: "p \<in> set app_paths \<Longrightarrow> p = js ''/'' \<or> (\<exists>h \<in> set (tl nav_segs). head_seg p = Some h)"
proof -
  have seg: "head_seg (js (CHR ''/'' # h)) = Some (js h)" if "CHR ''/'' \<notin> set h" for h
  proof -
    have "x = CHR ''/''" if "(of_char x :: cunit) = 0x2F" for x
      using that js_inject [of "[x]" "''/''"] by (simp add: js_def)
    with that have "\<forall>x \<in> set h. (of_char x :: cunit) \<noteq> 0x2F" by blast
    then show ?thesis by (simp add: head_seg_def js_def takeWhile_eq_all_conv)
  qed
  assume "p \<in> set app_paths"
  then show ?thesis using seg unfolding app_paths_def nav_segs_def by auto
qed

lemma filter_one: "distinct hs \<Longrightarrow> length (filter (\<lambda>h. k = Some h) hs) \<le> 1"
  by (induction hs) (auto simp: filter_empty_conv)

section \<open>Properties\<close>

text \<open>The sidebar highlights one page. For every path at most one link is highlighted, and for every path the
  application has a page for, the trace viewer of any session included, exactly one.\<close>

theorem nav_unique:
  "length (filter (\<lambda>(to, label, active). active) (SideNav p)) \<le> 1 \<and>
   (app_route p \<longrightarrow> length (filter (\<lambda>(to, label, active). active) (SideNav p)) = 1)"
proof -
  have len: "length (filter (\<lambda>(to, label, active). active) (SideNav p)) = length (filter (\<lambda>m. m p) (map nv_match nav_items))"
    by (simp add: SideNav_def filter_map comp_def)
  have "length (filter (\<lambda>m. m p) (map nv_match nav_items)) \<le> length (filter (\<lambda>h. head_seg p = Some h) nav_segs)"
    unfolding nav_matches nav_segs_def using root_seg [of p] by (simp add: filter_map comp_def)
  also have "\<dots> \<le> 1" by (rule filter_one [OF distinct_nav_segs])
  finally have "length (filter (\<lambda>m. m p) (map nv_match nav_items)) \<le> 1" .
  moreover have "filter (\<lambda>m. m p) (map nv_match nav_items) \<noteq> []" if "app_route p"
  proof -
    have "p = js ''/'' \<or> (\<exists>h \<in> set (tl nav_segs). head_seg p = Some h)"
      using that app_path_seg trace_seg unfolding app_route_def nav_segs_def by auto
    then show ?thesis unfolding nav_matches nav_segs_def by (auto simp: filter_empty_conv)
  qed
  ultimately show ?thesis unfolding len using le_less_Suc_eq length_greater_0_conv by (metis One_nat_def Suc_leI le_antisym)
qed

theorem nav_unique_witness: "length (filter (\<lambda>(to, label, active). active) (SideNav (trace_path (js ''s1'')))) = 1"
proof -
  have "app_route (trace_path (js ''s1''))" unfolding app_route_def by (intro disjI2 exI [of _ "js ''s1''"]) (simp add: js_def)
  with nav_unique show ?thesis by blast
qed

text \<open>The connectivity test reports what happened. Sending does nothing without a model and a prompt; otherwise it
  sends one request with the trimmed prompt, and shows the answer when the gateway accepted it and an error otherwise,
  never both.\<close>

theorem playground_outcome:
  assumes run: "playground_onSend g d p = (p', d')" and "pg_model p \<noteq> []" and "js_trim (pg_prompt p) \<noteq> []" and "\<not> pg_pending p"
  shows "(\<exists>q. dk_sent d' = dk_sent d @ [q] \<and> dr_method q = D_POST \<and>
      dr_body q = Some (stringify (JObj [(js ''model'', JStr (pg_model p)), (js ''prompt'', JStr (js_trim (pg_prompt p)))]))) \<and>
    (pg_result p' = None \<longleftrightarrow> pg_error p' \<noteq> None) \<and>
    (pg_result p' \<noteq> None \<longrightarrow> (\<exists>r. gw_fetch g (dk_sent d') = DResp r \<and> resp_ok r)) \<and> \<not> pg_pending p'"
proof -
  obtain r d1 where call: "playgroundChat (pg_model p) (js_trim (pg_prompt p)) g d = (r, d1)" by fastforce
  have out: "p' = (case r of Inr v \<Rightarrow> p\<lparr>pg_pending := False, pg_result := Some v, pg_error := None\<rparr>
      | Inl e \<Rightarrow> p\<lparr>pg_pending := False, pg_result := None, pg_error := Some (desk_error_message g e)\<rparr>) \<and> d' = d1"
    using run assms(2-4) call by (auto simp: playground_onSend_def split: sum.splits)
  have sent: "dk_sent d1 = dk_sent d @ [\<lparr>dr_method = D_POST, dr_path = BASE @ js ''/playground/chat'', dr_params = [],
      dr_body = Some (stringify (JObj [(js ''model'', JStr (pg_model p)), (js ''prompt'', JStr (js_trim (pg_prompt p)))]))\<rparr>]"
    using post_call_sent [of "js ''/playground/chat''"] call unfolding playgroundChat_def by (metis snd_conv)
  have "\<exists>v. r = Inr v \<Longrightarrow> \<exists>x. gw_fetch g (dk_sent d1) = DResp x \<and> resp_ok x"
    using call sendJSON.answered unfolding playgroundChat_def by blast
  with out sent show ?thesis by (cases r) auto
qed

theorem playground_outcome_witness:
  "\<exists>p' d'. playground_onSend missing_gateway idle_desk (Playground_init\<lparr>pg_model := js ''m''\<rparr>) = (p', d') \<and>
     (pg_result p' = None \<longleftrightarrow> pg_error p' \<noteq> None)"
proof -
  let ?p = "Playground_init\<lparr>pg_model := js ''m''\<rparr>"
  obtain p' d' where run: "playground_onSend missing_gateway idle_desk ?p = (p', d')" by fastforce
  have "pg_model ?p \<noteq> []" "js_trim (pg_prompt ?p) \<noteq> []" "\<not> pg_pending ?p"
    by (simp_all add: Playground_init_def js_def js_trim_def js_trimStart_def js_ws_def)
  from playground_outcome [OF run this] have "(pg_result p' = None) = (pg_error p' \<noteq> None)" by (elim conjE)
  with run show ?thesis by (intro exI [of _ p'] exI [of _ d'] conjI)
qed

text \<open>A prompt as it is stored: a trimmed title, some content, trimmed tags without commas.\<close>

definition prompt_ok :: "PromptTemplate \<Rightarrow> bool" where
  "prompt_ok r \<longleftrightarrow> pt_title r \<noteq> [] \<and> js_trim (pt_title r) = pt_title r \<and> js_trim (pt_content r) \<noteq> [] \<and>
     list_all (\<lambda>w. w \<noteq> [] \<and> js_trim w = w \<and> 0x2C \<notin> set w) (pt_tags r)"

lemma prompt_tags_join:
  assumes "\<forall>w \<in> set ws. w \<noteq> [] \<and> js_trim w = w \<and> 0x2C \<notin> set w"
  shows "prompt_tags (js_join (js '', '') ws) = ws"
proof (cases "ws = []")
  case False
  with split_join_words [of ws] assms show ?thesis by (auto simp: prompt_tags_def filter_id_conv)
qed (simp add: prompt_tags_def js_trim_def js_trimStart_def)

text \<open>Editing a favourite without a change puts back what was stored: the dialog seeded with the row sends one
  request to that row, with its title, content, tags, note and provenance.\<close>

theorem prompt_resave:
  assumes ok: "prompt_ok r" and f: "f = prompt_seed True (Some r) initial f0" and "\<not> pm_pending f0"
  shows "dk_sent (snd (snd (prompt_onSubmit (Some r) initial g d f))) = dk_sent d @
    [\<lparr>dr_method = D_PUT, dr_path = BASE @ js ''/prompts/'' @ num_repr (pt_id r), dr_params = [],
      dr_body = Some (stringify (prompt_json (pt_title r) (pt_content r) (pt_tags r) (pt_note r) (pt_session_id r) (pt_source_trace_row_id r)))\<rparr>]"
proof -
  have tags: "prompt_tags (pm_tags f) = pt_tags r"
    using prompt_tags_join [of "pt_tags r"] ok by (simp add: f prompt_seed_def prompt_ok_def list_all_iff)
  have body: "prompt_payload (Some r) initial f =
      prompt_json (pt_title r) (pt_content r) (pt_tags r) (pt_note r) (pt_session_id r) (pt_source_trace_row_id r)"
    using ok tags by (simp add: prompt_payload_def f prompt_seed_def prompt_ok_def)
  have go: "js_trim (pm_title f) \<noteq> []" "js_trim (pm_content f) \<noteq> []" "\<not> pm_pending f"
    using ok assms(3) by (simp_all add: f prompt_seed_def prompt_ok_def)
  show ?thesis
    using go body by (auto simp: prompt_onSubmit_def updatePrompt_def dbind_def sendJSON_run toast_error_def show_toast_def Let_def
        split: prod.splits sum.splits dfetch.splits)
qed

definition demo_prompt :: PromptTemplate where
  "demo_prompt = \<lparr>pt_id = num_int 3, pt_title = js ''t'', pt_content = js ''c'', pt_tags = [js ''a'', js ''b''], pt_session_id = None,
     pt_source_trace_row_id = None, pt_note = [], pt_created_at = [], pt_updated_at = []\<rparr>"

theorem prompt_resave_witness:
  "length (dk_sent (snd (snd (prompt_onSubmit (Some demo_prompt) None missing_gateway idle_desk
     (prompt_seed True (Some demo_prompt) None prompt_form_init))))) = 1"
proof -
  have "prompt_ok demo_prompt" by (simp add: prompt_ok_def demo_prompt_def js_def js_trim_def js_trimStart_def js_ws_def)
  from prompt_resave [OF this refl, of prompt_form_init None missing_gateway idle_desk] show ?thesis
    by (simp add: prompt_form_init_def idle_desk_def)
qed

text \<open>In the trace viewer the prefill is a new object at every rendering, so a rendering while the dialog is open seeds
  the form again and what was typed is lost.\<close>

lemma reseed_loses_input: "pm_title (prompt_seed True None (Some i) (edit_prompt (SetTitle v) f)) = []"
  by (simp add: prompt_seed_def)

end
