(* ===== verification/Web_Form.thy ===== *)
theory Web_Form
  imports Actions_Access
begin

text \<open>
  What the forms of the Control Panel share. A form is a client component: React state for the controlled inputs,
  the text of the uncontrolled ones, and one Server Action that \<^verbatim>\<open>useActionState\<close> calls with the \<^verbatim>\<open>FormData\<close>
  of the mounted inputs in document order (\<^verbatim>\<open>web/src/components/ui.tsx\<close>, \<^verbatim>\<open>components/ui/select.tsx\<close>:
  a \<^verbatim>\<open>Select\<close> submits its value through a hidden input, a disabled input submits nothing).

  The contract of the Server Actions (\<open>admin_write\<close>) gives, once for all forms, what a user may conclude from what
  the form does: the locale \<open>action_form\<close>.
\<close>

section \<open>Submitting\<close>

text \<open>What a component does besides setting its state: it resets its uncontrolled inputs, shows a toast, calls the
  callback of the modal that holds it, reloads the server components.\<close>

datatype ui_effect = FormReset | ShowSuccess jsstr | OnSuccess | RouterRefresh

text \<open>The action and, after a success only, the effects of the form.\<close>

definition submit_action :: "(form \<Rightarrow> form_result act) \<Rightarrow> ui_effect list \<Rightarrow> form \<Rightarrow> (form_result \<times> ui_effect list) act" where
  "submit_action action fx fd = bnd (action fd) (\<lambda>r. ret (r, if is_ok r then fx else []))"

lemma submit_action_run:
  "submit_action action fx fd pf w =
     (case action fd pf w of (Inl e, w') \<Rightarrow> (Inl e, w') | (Inr r, w') \<Rightarrow> (Inr (r, if is_ok r then fx else []), w'))"
  by (auto simp: submit_action_def bnd_apply split: prod.splits sum.splits)

text \<open>The contract of a form: its action is one of the write actions. Then the effects of a success come only after
  the admin API accepted every request of the submission, and with the page marked stale; a failure has no effects
  and marks nothing.\<close>

locale action_form =
  fixes action :: "form \<Rightarrow> form_result act" and paths :: "(jsstr \<times> jsstr option) list"
  assumes contract: "admin_write (action fd) is_ok paths"
begin

lemma told:
  assumes "submit_action action fx fd pf w = (Inr (r, es), w')"
  shows "(is_ok r \<longrightarrow> es = fx \<and> w_revalidated w' = w_revalidated w @ paths \<and>
            (\<exists>rs. w_sent w' = w_sent w @ rs \<and> all_accepted pf (w_sent w) rs)) \<and>
         (\<not> is_ok r \<longrightarrow> es = [] \<and> w_revalidated w' = w_revalidated w)"
proof -
  from contract have at: "atomic_action (action fd) is_ok paths" by (simp add: admin_write_def)
  then have pa: "panel_action (action fd) is_ok paths" by (simp add: atomic_action_def)
  from assms have run: "action fd pf w = (Inr r, w')" and es: "es = (if is_ok r then fx else [])"
    by (auto simp: submit_action_run split: prod.splits sum.splits)
  obtain rs where "w_sent w' = w_sent w @ rs" using panel_action.sends [OF pa run] by blast
  then show ?thesis
    using panel_action.marks_ok [OF pa run] admin_write.accepts [OF contract run]
      atomic_action.silent [OF at run] es by auto
qed

lemma signed_out_sends_nothing:
  assumes "submit_action action fx fd pf w = (r, w')" and "client_of pf w = None"
  shows "w_sent w' = w_sent w"
proof -
  from contract have pa: "panel_action (action fd) is_ok paths" by (simp add: admin_write_def atomic_action_def)
  from assms(1) obtain r0 where "action fd pf w = (r0, w')"
    by (auto simp: submit_action_run split: prod.splits sum.splits)
  then show ?thesis using panel_action.no_client_sends_nothing [OF pa] assms(2) by blast
qed

end

section \<open>Form data\<close>

text \<open>Reading the entries of a form that is put together from parts.\<close>

lemma form_get_append: "form_get (f @ g) k = (case form_get f k of None \<Rightarrow> form_get g k | Some v \<Rightarrow> Some v)"
  by (auto simp: form_get_def map_add_def split: option.splits)

lemma form_get_Nil [simp]: "form_get [] k = None"
  by (simp add: form_get_def)

lemma form_get_Cons [simp]: "form_get ((k', v) # f) k = (if k = k' then Some v else form_get f k)"
  by (simp add: form_get_def)

lemma form_getAll_append: "form_getAll (f @ g) k = form_getAll f k @ form_getAll g k"
  by (simp add: form_getAll_def)

lemma form_getAll_Nil [simp]: "form_getAll [] k = []"
  by (simp add: form_getAll_def)

lemma form_getAll_Cons [simp]: "form_getAll ((k', v) # f) k = (if k' = k then v # form_getAll f k else form_getAll f k)"
  by (simp add: form_getAll_def)

lemma form_get_None: "k \<notin> fst ` set f \<Longrightarrow> form_get f k = None"
  by (simp add: form_get_def map_of_eq_None_iff)

lemma form_getAll_None: "k \<notin> fst ` set f \<Longrightarrow> form_getAll f k = []"
  by (induction f) auto

text \<open>Rows of inputs that repeat the same names: one entry per row and name.\<close>

lemma form_getAll_rows:
  "(\<And>x. x \<in> set xs \<Longrightarrow> form_getAll (row x) k = [cell x]) \<Longrightarrow>
   form_getAll (concat (map row xs)) k = map cell xs"
  by (induction xs) (auto simp: form_getAll_append)

lemma rows_names:
  assumes "\<And>x. fst ` set (row x) \<subseteq> K"
  shows "fst ` set (concat (map row xs)) \<subseteq> K"
  using assms by (induction xs) (simp_all add: image_Un)

lemma form_str_cong: "form_get f k = form_get g k \<Longrightarrow> form_str f k = form_str g k"
  by (simp add: form_str_def form_raw_def)

lemma form_str_Some: "form_get f k = Some s \<Longrightarrow> form_str f k = js_trim s"
  by (simp add: form_str_def form_raw_def)

lemma form_str_None: "form_get f k = None \<Longrightarrow> form_str f k = []"
  by (simp add: form_str_def form_raw_def)

end
