(* ===== verification/Web_Providers.thy ===== *)
theory Web_Providers
  imports Web_Form
begin

text \<open>
  The provider form of the Control Panel (\<^verbatim>\<open>providers/create-form.tsx\<close>) and the page that opens it
  (\<^verbatim>\<open>providers/client.tsx\<close>), together with the Server Actions it calls. The state of the form is a record of
  its \<^verbatim>\<open>useState\<close> values; the handlers are functions on it, and an inductive relation collects them with the
  guards under which the page offers them.
\<close>

section \<open>State\<close>

definition PRESET_BRANDS_web :: "jsstr list" where
  "PRESET_BRANDS_web = [js ''openai'', js ''tencent'', js ''zhipu'', js ''anthropic'', js ''google'', js ''azure'',
     js ''deepseek'', js ''bedrock'']"

definition DB_PROVIDER_REF_PREFIX :: jsstr where
  "DB_PROVIDER_REF_PREFIX = js ''db://provider/''"

datatype WebCredMode = RefMode | KeyMode

record WebEndpointRow =
  we_id :: jsstr
  we_adapter :: jsstr
  we_base_url :: jsstr

text \<open>\<open>pu_isEdit\<close>, \<open>pu_name\<close> and \<open>pu_ref\<close> come from the row that is edited and do not change.\<close>

record provider_ui =
  pu_isEdit :: bool
  pu_name :: jsstr
  pu_ref :: jsstr
  pu_selectedType :: jsstr
  pu_customType :: jsstr
  pu_showCustom :: bool
  pu_endpoints :: "WebEndpointRow list"
  pu_credMode :: WebCredMode
  pu_testing :: bool
  pu_testOutcome :: "ProviderTestOutcome option"
  pu_state :: "form_result option"

text \<open>The text in the uncontrolled inputs when the form is read.\<close>

record provider_typed =
  ty_name :: jsstr
  ty_api_key_ref :: jsstr
  ty_api_key :: jsstr

definition new_endpoint :: WebEndpointRow where
  "new_endpoint = \<lparr>we_id = [], we_adapter = js ''openai'', we_base_url = []\<rparr>"

text \<open>\<^verbatim>\<open>v ? String(v) : ""\<close>\<close>

definition text_or_empty :: "jsval \<Rightarrow> jsstr" where
  "text_or_empty v = (if truthy v then val_String v else [])"

text \<open>\<^verbatim>\<open>ep => ({ id: ep.id ?? "", ... })\<close>; the inputs show the fields as strings.\<close>

definition endpoint_of :: "json \<Rightarrow> WebEndpointRow res" where
  "endpoint_of ep =
     (let field = (\<lambda>k. rbind (get_prop (Some ep) k) (\<lambda>v. Inr (json_String (coalesce v (JStr [])))))
      in rbind (field (js ''id'')) (\<lambda>i. rbind (field (js ''adapter'')) (\<lambda>a. rbind (field (js ''base_url'')) (\<lambda>u.
         Inr \<lparr>we_id = i, we_adapter = a, we_base_url = u\<rparr>))))"

definition web_dv_endpoints :: "jsval \<Rightarrow> WebEndpointRow list res" where
  "web_dv_endpoints dv =
     (let v = opt_prop dv (js ''endpoints'') in
      if \<not> truthy v then Inr []
      else case v of Some (JArr eps) \<Rightarrow> rmap endpoint_of eps | _ \<Rightarrow> Inl TypeError)"

text \<open>The first rendering; \<open>None\<close> and \<^verbatim>\<open>null\<close> are the form for a new provider.\<close>

definition WebProviderForm_init :: "jsval \<Rightarrow> provider_ui res" where
  "WebProviderForm_init dv =
     (let dvType = text_or_empty (opt_prop dv (js ''type''));
          dvIsPreset = (dvType \<in> set PRESET_BRANDS_web);
          dvApiKeyRef = text_or_empty (opt_prop dv (js ''api_key_ref''))
      in rbind (web_dv_endpoints dv) (\<lambda>dvEndpoints. Inr
        \<lparr>pu_isEdit = truthy dv,
         pu_name = json_String (coalesce (opt_prop dv (js ''name'')) (JStr [])),
         pu_ref = dvApiKeyRef,
         pu_selectedType = (if dvIsPreset then dvType else []),
         pu_customType = (if \<not> dvIsPreset \<and> dvType \<noteq> [] then dvType else []),
         pu_showCustom = (\<not> dvIsPreset \<and> dvType \<noteq> []),
         pu_endpoints = (if dvEndpoints \<noteq> [] then dvEndpoints else [new_endpoint]),
         pu_credMode = (if js_startsWith dvApiKeyRef DB_PROVIDER_REF_PREFIX then KeyMode else RefMode),
         pu_testing = False, pu_testOutcome = None, pu_state = None\<rparr>))"

text \<open>The texts of the uncontrolled inputs as they are first shown.\<close>

definition provider_typed_defaults :: "jsval \<Rightarrow> provider_typed" where
  "provider_typed_defaults dv =
     \<lparr>ty_name = text_or_empty (opt_prop dv (js ''name'')),
      ty_api_key_ref = text_or_empty (opt_prop dv (js ''api_key_ref'')), ty_api_key = []\<rparr>"

section \<open>Handlers\<close>

definition typeValue :: "provider_ui \<Rightarrow> jsstr" where
  "typeValue ui = (if pu_selectedType ui \<noteq> [] then pu_selectedType ui else pu_customType ui)"

text \<open>The value the brand dropdown shows, and its \<^verbatim>\<open>onValueChange\<close>.\<close>

definition type_select_value :: "provider_ui \<Rightarrow> jsstr" where
  "type_select_value ui =
     (if pu_selectedType ui \<noteq> [] then pu_selectedType ui else if pu_showCustom ui then js ''_custom_'' else [])"

definition select_type :: "jsstr \<Rightarrow> provider_ui \<Rightarrow> provider_ui" where
  "select_type v ui =
     (if v = js ''_custom_'' then ui\<lparr>pu_selectedType := [], pu_showCustom := True\<rparr>
      else ui\<lparr>pu_selectedType := v, pu_customType := [], pu_showCustom := False\<rparr>)"

definition addEndpoint :: "provider_ui \<Rightarrow> provider_ui" where
  "addEndpoint ui = ui\<lparr>pu_endpoints := pu_endpoints ui @ [new_endpoint]\<rparr>"

definition removeEndpoint :: "nat \<Rightarrow> provider_ui \<Rightarrow> provider_ui" where
  "removeEndpoint index ui =
     ui\<lparr>pu_endpoints := map snd (filter (\<lambda>(i, ep). i \<noteq> index) (enumerate 0 (pu_endpoints ui)))\<rparr>"

definition edit_endpoint :: "nat \<Rightarrow> (WebEndpointRow \<Rightarrow> WebEndpointRow) \<Rightarrow> provider_ui \<Rightarrow> provider_ui" where
  "edit_endpoint i f ui =
     ui\<lparr>pu_endpoints := map (\<lambda>(j, ep). if j = i then f ep else ep) (enumerate 0 (pu_endpoints ui))\<rparr>"

section \<open>Form data\<close>

definition endpoint_entries :: "WebEndpointRow \<Rightarrow> form" where
  "endpoint_entries ep =
     [(js ''endpoint_id'', we_id ep), (js ''endpoint_adapter'', we_adapter ep), (js ''endpoint_base_url'', we_base_url ep)]"

text \<open>The mounted inputs in document order. In the edit form the visible name is disabled and a hidden input
  carries it; of the two credential inputs only that of the mode is mounted.\<close>

definition WebProviderForm_data :: "provider_ui \<Rightarrow> provider_typed \<Rightarrow> form" where
  "WebProviderForm_data ui ty =
     [(js ''name'', if pu_isEdit ui then pu_name ui else ty_name ty),
      (js ''_type_select'', type_select_value ui), (js ''type'', typeValue ui)] @
     concat (map endpoint_entries (pu_endpoints ui)) @
     (case pu_credMode ui of
        RefMode \<Rightarrow> [(js ''_cred_mode'', js ''ref''), (js ''api_key_ref'', ty_api_key_ref ty)]
      | KeyMode \<Rightarrow> [(js ''_cred_mode'', js ''key''), (js ''api_key'', ty_api_key ty)])"

section \<open>Connectivity test\<close>

definition js_endsWith :: "jsstr \<Rightarrow> jsstr \<Rightarrow> bool" where
  "js_endsWith s p \<longleftrightarrow> js_startsWith (rev s) (rev p)"

definition masked_ref :: "jsstr \<Rightarrow> bool" where
  "masked_ref ref \<longleftrightarrow> ref = js ''***'' \<or> js_endsWith ref (js ''://***'')"

text \<open>The specification read from the form, \<open>None\<close> when the first endpoint is not filled in.\<close>

definition test_spec :: "provider_ui \<Rightarrow> form \<Rightarrow> ProviderTestSpec option" where
  "test_spec ui fd =
     (let first = (\<lambda>k. js_trim (case str_at (form_getAll fd k) 0 of None \<Rightarrow> [] | Some s \<Rightarrow> s));
          adapterValue = first (js ''endpoint_adapter''); baseUrl = first (js ''endpoint_base_url'');
          name = form_str fd (js ''name''); key = form_str fd (js ''api_key''); ref = form_str fd (js ''api_key_ref'')
      in if adapterValue = [] \<or> baseUrl = [] then None
         else Some \<lparr>ts_name = (if pu_isEdit ui \<and> name \<noteq> [] then Some name else None),
           ts_adapter = adapterValue, ts_baseUrl = baseUrl,
           ts_apiKey = (if pu_credMode ui = KeyMode \<and> key \<noteq> [] then Some key else None),
           ts_apiKeyRef = (if pu_credMode ui = RefMode \<and> ref \<noteq> [] \<and> \<not> masked_ref ref then Some ref else None)\<rparr>)"

text \<open>Nothing is caught: when the action throws, the form keeps \<^verbatim>\<open>testing\<close>.\<close>

definition runFormTest :: "provider_ui \<Rightarrow> provider_typed \<Rightarrow> platform \<Rightarrow> world \<Rightarrow> provider_ui \<times> world" where
  "runFormTest ui ty pf w =
     (case test_spec ui (WebProviderForm_data ui ty) of
        None \<Rightarrow> (ui\<lparr>pu_testOutcome :=
                    Some (TestFail (JStr (pf_translate pf (js ''providers'') (js ''test.missingFields''))) None)\<rparr>, w)
      | Some spec \<Rightarrow>
          (let ui1 = ui\<lparr>pu_testing := True, pu_testOutcome := None\<rparr> in
           case testProviderConnection spec pf w of
             (Inl e, w') \<Rightarrow> (ui1, w')
           | (Inr outcome, w') \<Rightarrow> (ui1\<lparr>pu_testOutcome := Some outcome, pu_testing := False\<rparr>, w')))"

section \<open>Submission\<close>

definition WebProviderForm_action :: "bool \<Rightarrow> form \<Rightarrow> form_result act" where
  "WebProviderForm_action isEdit = (if isEdit then updateProvider else createProvider)"

definition WebProviderForm_effects :: "bool \<Rightarrow> ui_effect list" where
  "WebProviderForm_effects isEdit =
     [FormReset, ShowSuccess (if isEdit then js ''form.successUpdated'' else js ''form.successCreated''),
      OnSuccess, RouterRefresh]"

definition WebProviderForm_cleared :: "provider_ui \<Rightarrow> provider_ui" where
  "WebProviderForm_cleared ui = ui\<lparr>pu_selectedType := [], pu_customType := [], pu_showCustom := False,
     pu_endpoints := [new_endpoint], pu_credMode := RefMode\<rparr>"

definition WebProviderForm_submit :: "provider_ui \<Rightarrow> provider_typed \<Rightarrow> (provider_ui \<times> ui_effect list) act" where
  "WebProviderForm_submit ui ty =
     bnd (submit_action (WebProviderForm_action (pu_isEdit ui)) (WebProviderForm_effects (pu_isEdit ui)) (WebProviderForm_data ui ty))
       (\<lambda>(r, es). ret ((if is_ok r then WebProviderForm_cleared ui else ui)\<lparr>pu_state := Some r\<rparr>, es))"

section \<open>The page\<close>

text \<open>Which modal of \<^verbatim>\<open>providers/client.tsx\<close> is open; a form is mounted while its modal is.\<close>

record providers_page_ui =
  pp_createOpen :: bool
  pp_editRow :: jsval

datatype providers_page_event = OpenCreateModal | EditRow json | CreateClosed | EditClosed

fun providers_page_step :: "providers_page_event \<Rightarrow> providers_page_ui \<Rightarrow> providers_page_ui" where
  "providers_page_step OpenCreateModal p = p\<lparr>pp_createOpen := True\<rparr>"
| "providers_page_step (EditRow row) p = p\<lparr>pp_editRow := Some row\<rparr>"
| "providers_page_step CreateClosed p = p\<lparr>pp_createOpen := False\<rparr>"
| "providers_page_step EditClosed p = p\<lparr>pp_editRow := Some JNull\<rparr>"

section \<open>The events of the form\<close>

text \<open>A row can be removed only while there are two: otherwise its button is not rendered. The brand dropdown
  offers the presets and the custom entry. The test and the submission run against any platform and world.\<close>

inductive provider_event :: "provider_ui \<Rightarrow> provider_ui \<Rightarrow> bool" where
  ev_type: "v \<in> set PRESET_BRANDS_web \<or> v = js ''_custom_'' \<Longrightarrow> provider_event ui (select_type v ui)"
| ev_custom: "pu_showCustom ui \<Longrightarrow> provider_event ui (ui\<lparr>pu_customType := s\<rparr>)"
| ev_add: "provider_event ui (addEndpoint ui)"
| ev_remove: "1 < length (pu_endpoints ui) \<Longrightarrow> i < length (pu_endpoints ui) \<Longrightarrow> provider_event ui (removeEndpoint i ui)"
| ev_adapter: "v \<in> {js ''openai'', js ''claude''} \<Longrightarrow>
    provider_event ui (edit_endpoint i (\<lambda>ep. ep\<lparr>we_adapter := v\<rparr>) ui)"
| ev_base_url: "provider_event ui (edit_endpoint i (\<lambda>ep. ep\<lparr>we_base_url := s\<rparr>) ui)"
| ev_cred: "provider_event ui (ui\<lparr>pu_credMode := m\<rparr>)"
| ev_test: "runFormTest ui ty pf w = (ui', w') \<Longrightarrow> provider_event ui ui'"
| ev_submit: "WebProviderForm_submit ui ty pf w = (Inr (ui', es), w') \<Longrightarrow> provider_event ui ui'"

text \<open>The states of a form that was opened on a row.\<close>

inductive provider_reach :: "jsval \<Rightarrow> provider_ui \<Rightarrow> bool" for dv where
  opened: "WebProviderForm_init dv = Inr ui \<Longrightarrow> provider_reach dv ui"
| event: "provider_reach dv ui \<Longrightarrow> provider_event ui ui' \<Longrightarrow> provider_reach dv ui'"


section \<open>Invariant\<close>

text \<open>What the events keep: there is always an endpoint, the text of the custom type is on the screen or empty, a
  preset excludes the custom input, and what came from the row stays.\<close>

definition provider_ui_wf :: "jsval \<Rightarrow> provider_ui \<Rightarrow> bool" where
  "provider_ui_wf dv ui \<longleftrightarrow> pu_endpoints ui \<noteq> [] \<and>
     (pu_showCustom ui \<or> pu_customType ui = []) \<and> (pu_selectedType ui \<noteq> [] \<longrightarrow> \<not> pu_showCustom ui) \<and>
     pu_selectedType ui \<in> insert [] (set PRESET_BRANDS_web) \<and> pu_isEdit ui = truthy dv \<and>
     pu_name ui = json_String (coalesce (opt_prop dv (js ''name'')) (JStr [])) \<and>
     pu_ref ui = text_or_empty (opt_prop dv (js ''api_key_ref''))"

lemma preset_facts: "js ''_custom_'' \<notin> set PRESET_BRANDS_web" "[] \<notin> set PRESET_BRANDS_web"
  by (simp_all add: PRESET_BRANDS_web_def)

lemma init_wf: "WebProviderForm_init dv = Inr ui \<Longrightarrow> provider_ui_wf dv ui"
  by (cases "web_dv_endpoints dv") (auto simp: WebProviderForm_init_def provider_ui_wf_def Let_def rbind_def preset_facts
      split: if_splits)

lemma filter_enumerate_ne:
  assumes "1 < length xs"
  shows "filter (\<lambda>(i, x). i \<noteq> k) (enumerate 0 xs) \<noteq> []"
proof -
  define j :: nat where "j = (if k = 0 then 1 else 0)"
  then have "j < length xs" "j \<noteq> k" using assms by auto
  then have "(j, xs ! j) \<in> set (filter (\<lambda>(i, x). i \<noteq> k) (enumerate 0 xs))"
    by (auto simp: in_set_enumerate_eq)
  then show ?thesis by (metis empty_iff list.set(1))
qed

lemma runFormTest_ui:
  assumes "runFormTest ui ty pf w = (ui', w')"
  shows "ui' = ui\<lparr>pu_testing := pu_testing ui', pu_testOutcome := pu_testOutcome ui'\<rparr>"
  using assms by (auto simp: runFormTest_def Let_def split: option.splits prod.splits sum.splits)

lemma submit_ui:
  "WebProviderForm_submit ui ty pf w = (Inr (ui', es), w') \<Longrightarrow>
     \<exists>r. ui' = (if is_ok r then WebProviderForm_cleared ui else ui)\<lparr>pu_state := Some r\<rparr>"
  by (auto simp: WebProviderForm_submit_def bnd_apply split: prod.splits sum.splits)

lemma event_wf:
  assumes "provider_event ui ui'" "provider_ui_wf dv ui"
  shows "provider_ui_wf dv ui'"
  using assms
proof cases
  case (ev_remove i)
  then show ?thesis using assms(2) filter_enumerate_ne [of "pu_endpoints ui" i]
    by (simp add: provider_ui_wf_def removeEndpoint_def)
next
  case (ev_test ty pf w w')
  have "provider_ui_wf dv (ui\<lparr>pu_testing := b, pu_testOutcome := oc\<rparr>)" for b oc
    using assms(2) by (simp add: provider_ui_wf_def)
  then show ?thesis using runFormTest_ui [OF ev_test] by metis
next
  case (ev_submit ty pf w es w')
  from submit_ui [OF this] obtain r where
    ui': "ui' = (if is_ok r then WebProviderForm_cleared ui else ui)\<lparr>pu_state := Some r\<rparr>" by blast
  show ?thesis using assms(2) unfolding ui' by (cases "is_ok r") (simp_all add: provider_ui_wf_def WebProviderForm_cleared_def)
qed (auto simp: provider_ui_wf_def select_type_def addEndpoint_def edit_endpoint_def preset_facts
       dest: arg_cong [where f = length])

lemma reach_wf: "provider_reach dv ui \<Longrightarrow> provider_ui_wf dv ui"
  by (induction rule: provider_reach.induct) (auto intro: init_wf event_wf)

section \<open>What is sent\<close>

text \<open>The entries of the form, by name.\<close>

lemma endpoint_names: "fst ` set (concat (map endpoint_entries eps)) \<subseteq> {js ''endpoint_id'', js ''endpoint_adapter'', js ''endpoint_base_url''}"
  by (rule rows_names) (auto simp: endpoint_entries_def)

lemma endpoint_get_None:
  "k \<notin> {js ''endpoint_id'', js ''endpoint_adapter'', js ''endpoint_base_url''} \<Longrightarrow>
     form_get (concat (map endpoint_entries eps)) k = None"
  using endpoint_names [of eps] by (intro form_get_None) blast

lemma provider_entries:
  "form_get (WebProviderForm_data ui ty) (js ''name'') = Some (if pu_isEdit ui then pu_name ui else ty_name ty)"
  "form_get (WebProviderForm_data ui ty) (js ''type'') = Some (typeValue ui)"
  "form_get (WebProviderForm_data ui ty) (js ''weight'') = None"
  "form_get (WebProviderForm_data ui ty) (js ''api_key'') =
     (case pu_credMode ui of RefMode \<Rightarrow> None | KeyMode \<Rightarrow> Some (ty_api_key ty))"
  "form_get (WebProviderForm_data ui ty) (js ''api_key_ref'') =
     (case pu_credMode ui of RefMode \<Rightarrow> Some (ty_api_key_ref ty) | KeyMode \<Rightarrow> None)"
  by (simp_all add: WebProviderForm_data_def form_get_append endpoint_get_None split: WebCredMode.splits)

lemma web_provider_rows:
  "form_getAll (WebProviderForm_data ui ty) (js ''endpoint_adapter'') = map we_adapter (pu_endpoints ui)"
  "form_getAll (WebProviderForm_data ui ty) (js ''endpoint_base_url'') = map we_base_url (pu_endpoints ui)"
  "form_getAll (WebProviderForm_data ui ty) (js ''endpoint_id'') = map we_id (pu_endpoints ui)"
  by (simp_all add: WebProviderForm_data_def form_getAll_append form_getAll_rows [where cell = we_adapter]
      form_getAll_rows [where cell = we_base_url] form_getAll_rows [where cell = we_id] endpoint_entries_def
      split: WebCredMode.splits)

text \<open>The endpoints of the body: the rows on the screen.\<close>

definition shown_endpoints :: "provider_ui \<Rightarrow> json list" where
  "shown_endpoints ui =
     map (\<lambda>ep. JObj (when_field (js_trim (we_id ep) \<noteq> []) (js ''id'') (JStr (js_trim (we_id ep))) @
            [(js ''adapter'', JStr (js_trim (we_adapter ep))), (js ''base_url'', JStr (js_trim (we_base_url ep)))]))
       (filter (\<lambda>ep. js_trim (we_adapter ep) \<noteq> [] \<or> js_trim (we_base_url ep) \<noteq> []) (pu_endpoints ui))"


lemma collect_shown: "collectEndpoints (WebProviderForm_data ui ty) = shown_endpoints ui"
proof -
  let ?es = "pu_endpoints ui"
  let ?row = "\<lambda>ep. if js_trim (we_adapter ep) \<noteq> [] \<or> js_trim (we_base_url ep) \<noteq> []
      then Some (JObj (when_field (js_trim (we_id ep) \<noteq> []) (js ''id'') (JStr (js_trim (we_id ep))) @
            [(js ''adapter'', JStr (js_trim (we_adapter ep))), (js ''base_url'', JStr (js_trim (we_base_url ep)))]))
      else None"
  have "endpoint_row (map we_adapter ?es) (map we_base_url ?es) (map we_id ?es) n = ?row (?es ! n)"
    if "n < length ?es" for n
    using that by (simp add: endpoint_row_def str_at_def Let_def)
  then have "collectEndpoints (WebProviderForm_data ui ty) = List.map_filter ?row (map ((!) ?es) [0..<length ?es])"
    by (simp only: collectEndpoints_def Let_def web_provider_rows length_map map_filter_map) (rule map_filter_cong, simp)
  then show ?thesis
    by (simp add: map_nth shown_endpoints_def List.map_filter_def comp_def)
qed


text \<open>The form keeps the contract of the write actions.\<close>

interpretation provider_save: action_form "WebProviderForm_action e" "[(js ''/providers'', None)]" for e
  by (rule action_form.intro, cases e)
    (simp_all add: WebProviderForm_action_def createProvider.admin_write_axioms updateProvider.admin_write_axioms)

lemma WebProviderForm_submit_run:
  "WebProviderForm_submit ui ty pf w =
     (case WebProviderForm_action (pu_isEdit ui) (WebProviderForm_data ui ty) pf w of
        (Inl e, w') \<Rightarrow> (Inl e, w')
      | (Inr r, w') \<Rightarrow> (Inr ((if is_ok r then WebProviderForm_cleared ui else ui)\<lparr>pu_state := Some r\<rparr>,
                          if is_ok r then WebProviderForm_effects (pu_isEdit ui) else []), w'))"
  by (auto simp: WebProviderForm_submit_def submit_action_run bnd_apply split: prod.splits sum.splits)

lemma WebProviderForm_submit_sent:
  "w_sent (snd (WebProviderForm_submit ui ty pf w)) =
     w_sent (snd (WebProviderForm_action (pu_isEdit ui) (WebProviderForm_data ui ty) pf w))"
  by (auto simp: WebProviderForm_submit_run split: prod.splits sum.splits)

text \<open>An edit that carries no plaintext key is one request when there is something to change.\<close>

lemma updateProvider_patch_only:
  assumes "client_of pf w = Some c" "form_str f (js ''name'') = n" "n \<noteq> []" "form_str f (js ''api_key'') = []"
    and "provider_patch f \<noteq> []"
  shows "w_sent (snd (updateProvider f pf w)) =
    w_sent w @ [mk_req c PATCH (js ''/api/v1/providers/{name}'') [(js ''name'', JStr n)] [] (Some (JObj (provider_patch f)))]"
proof -
  let ?m = "send_checked c PATCH (js ''/api/v1/providers/{name}'') [(js ''name'', JStr n)] []
      (Some (JObj (provider_patch f))) (js ''update failed'')"
  obtain r w1 where m: "?m pf w = (r, w1)" by fastforce
  then have "w_sent w1 = w_sent w @ [mk_req c PATCH (js ''/api/v1/providers/{name}'') [(js ''name'', JStr n)] []
      (Some (JObj (provider_patch f)))]"
    using send_checked_sent [of c PATCH] by (metis snd_conv)
  with assms m show ?thesis
    by (auto simp: updateProvider_def Let_def attempt_sent bnd_apply split: sum.splits option.splits)
qed

section \<open>Properties\<close>

text \<open>C40: The provider form sends what it shows. In every state the form can reach, whatever was clicked, tested or
  submitted before, there is at least one endpoint; the endpoints of the request are the rows on the screen in order;
  the type is the chosen brand, else the visible custom text, else nothing; a key and a reference are never sent
  together; and an edit is always for the row it was opened on.\<close>

theorem provider_form_shown:
  assumes "provider_reach dv ui"
  shows "pu_endpoints ui \<noteq> [] \<and> collectEndpoints (WebProviderForm_data ui ty) = shown_endpoints ui \<and>
    form_raw (WebProviderForm_data ui ty) (js ''type'') =
      (if pu_selectedType ui \<noteq> [] then pu_selectedType ui else if pu_showCustom ui then pu_customType ui else []) \<and>
    (form_get (WebProviderForm_data ui ty) (js ''api_key'') = None \<or>
     form_get (WebProviderForm_data ui ty) (js ''api_key_ref'') = None) \<and>
    (truthy dv \<longrightarrow> form_get (WebProviderForm_data ui ty) (js ''name'') =
       Some (json_String (coalesce (opt_prop dv (js ''name'')) (JStr []))))"
  using reach_wf [OF assms]
  by (auto simp: provider_ui_wf_def collect_shown provider_entries form_raw_def typeValue_def split: WebCredMode.splits)

definition demo_provider_row :: json where
  "demo_provider_row = JObj [(js ''name'', JStr (js ''p1'')), (js ''type'', JStr (js ''acme'')),
     (js ''endpoints'', JArr [JObj [(js ''id'', JStr (js ''e1'')), (js ''adapter'', JStr (js ''openai'')),
        (js ''base_url'', JStr (js ''https://a''))]]),
     (js ''api_key_ref'', JStr (js ''env://***''))]"

definition demo_provider_ui :: provider_ui where
  "demo_provider_ui = \<lparr>pu_isEdit = True, pu_name = js ''p1'', pu_ref = js ''env://***'', pu_selectedType = [],
     pu_customType = js ''acme'', pu_showCustom = True,
     pu_endpoints = [\<lparr>we_id = js ''e1'', we_adapter = js ''openai'', we_base_url = js ''https://a''\<rparr>],
     pu_credMode = RefMode, pu_testing = False, pu_testOutcome = None, pu_state = None\<rparr>"

lemma demo_provider_init: "WebProviderForm_init (Some demo_provider_row) = Inr demo_provider_ui"
  by (simp add: WebProviderForm_init_def demo_provider_row_def demo_provider_ui_def web_dv_endpoints_def endpoint_of_def
      text_or_empty_def val_String_def Let_def rbind_def PRESET_BRANDS_web_def DB_PROVIDER_REF_PREFIX_def coalesce_def js_def)

theorem provider_form_shown_witness:
  "pu_endpoints (addEndpoint demo_provider_ui) \<noteq> [] \<and>
   form_get (WebProviderForm_data (addEndpoint demo_provider_ui) (provider_typed_defaults (Some demo_provider_row))) (js ''name'') =
     Some (js ''p1'') \<and>
   form_raw (WebProviderForm_data (addEndpoint demo_provider_ui) (provider_typed_defaults (Some demo_provider_row))) (js ''type'') =
     js ''acme''"
proof -
  have "provider_reach (Some demo_provider_row) (addEndpoint demo_provider_ui)"
    by (rule provider_reach.event [OF provider_reach.opened [OF demo_provider_init] ev_add])
  from provider_form_shown [OF this, of "provider_typed_defaults (Some demo_provider_row)"] show ?thesis
    by (auto simp: demo_provider_ui_def addEndpoint_def demo_provider_row_def coalesce_def)
qed

text \<open>Saving an edit that changed nothing sends back the credential reference that was shown, masked or not, unless it
  is empty or that of a stored key. The admin API lists references masked, so an unchanged save of a provider with a
  reference of the environment replaces that reference by its mask, which the comment in \<^verbatim>\<open>providers/actions.ts\<close> means
  to rule out; the connectivity test of the same form leaves a masked reference out.\<close>

theorem provider_resave_reference:
  assumes "WebProviderForm_init dv = Inr ui" and "truthy dv" and "client_of pf w = Some c"
    and "ref = text_or_empty (opt_prop dv (js ''api_key_ref''))"
    and "js_trim ref \<noteq> []" and "\<not> js_startsWith ref (js ''db://provider/'')"
    and "fd = WebProviderForm_data ui (provider_typed_defaults dv)" and "form_str fd (js ''name'') \<noteq> []"
  shows "(\<exists>body. w_sent (snd (WebProviderForm_submit ui (provider_typed_defaults dv) pf w)) = w_sent w @
        [mk_req c PATCH (js ''/api/v1/providers/{name}'') [(js ''name'', JStr (form_str fd (js ''name'')))] [] (Some (JObj body))] \<and>
        map_of body (js ''api_key_ref'') = Some (JStr (js_trim ref))) \<and>
     (\<forall>spec. test_spec ui fd = Some spec \<and> masked_ref (js_trim ref) \<longrightarrow> ts_apiKeyRef spec = None)"
proof -
  have ui: "pu_isEdit ui" "pu_credMode ui = RefMode"
    using assms(1,2,4,6) by (auto simp: WebProviderForm_init_def Let_def rbind_def DB_PROVIDER_REF_PREFIX_def split: sum.splits)
  have refs: "form_str fd (js ''api_key_ref'') = js_trim ref" "form_str fd (js ''api_key'') = []"
    using assms(4,7) ui by (auto simp: provider_entries provider_typed_defaults_def intro: form_str_Some form_str_None)
  then have body: "map_of (provider_patch fd) (js ''api_key_ref'') = Some (JStr (js_trim ref))"
    using assms(5) by (auto simp: provider_patch_def Let_def when_field_def)
  then have ne: "provider_patch fd \<noteq> []" by auto
  have "ts_apiKeyRef spec = None" if "test_spec ui fd = Some spec" "masked_ref (js_trim ref)" for spec
    using that by (auto simp: test_spec_def Let_def refs split: if_splits)
  with updateProvider_patch_only [OF assms(3) refl assms(8) refs(2) ne] body ui show ?thesis
    by (auto simp: WebProviderForm_submit_sent WebProviderForm_action_def assms(7))
qed

theorem provider_resave_reference_witness:
  "\<exists>body. w_sent (snd (WebProviderForm_submit demo_provider_ui (provider_typed_defaults (Some demo_provider_row)) sample_platform sample_world)) =
      w_sent sample_world @ [mk_req sample_client PATCH (js ''/api/v1/providers/{name}'')
        [(js ''name'', JStr (js ''p1''))] [] (Some (JObj body))] \<and>
     map_of body (js ''api_key_ref'') = Some (JStr (js ''env://***''))"
proof -
  let ?fd = "WebProviderForm_data demo_provider_ui (provider_typed_defaults (Some demo_provider_row))"
  have name: "form_str ?fd (js ''name'') = js ''p1''"
    by (simp add: form_str_def form_raw_def provider_entries demo_provider_ui_def) (simp add: form_eval)
  have ref: "text_or_empty (opt_prop (Some demo_provider_row) (js ''api_key_ref'')) = js ''env://***''"
    by (simp add: text_or_empty_def demo_provider_row_def val_String_def)
  have "js_trim (js ''env://***'') = js ''env://***''" "\<not> js_startsWith (js ''env://***'') (js ''db://provider/'')"
    by (simp_all add: form_eval)
  with provider_resave_reference [OF demo_provider_init _ sample_client_of ref [symmetric] _ _ refl] name show ?thesis
    by (simp add: demo_provider_row_def)
qed

end
