(* ===== verification/Web_Roles.thy ===== *)
theory Web_Roles
  imports Web_Form "HOL-Library.List_Lexorder" "HOL-Library.Multiset"
begin

text \<open>
  The role form of the Control Panel (\<^verbatim>\<open>roles/create-form.tsx\<close>) and the deletion of a role
  (\<^verbatim>\<open>roles/client.tsx\<close>), with the Server Actions they call: the permission matrix, what a submission grants,
  and which of the fields that the form offers have an effect.
\<close>

section \<open>State\<close>

record RoleRow =
  rr_id :: jsnum
  rr_name :: jsstr
  rr_scope_kind :: jsstr
  rr_is_builtin :: bool
  rr_description :: jsstr
  rr_permissions :: "jsstr list"

record PermissionItem =
  pi_perm :: jsstr
  pi_scope :: jsstr
  pi_label :: jsstr

text \<open>A \<^verbatim>\<open>Set\<close> of strings in the order of insertion.\<close>

definition set_of_list :: "jsstr list \<Rightarrow> jsstr list" where
  "set_of_list xs = rev (remdups (rev xs))"

definition set_toggle :: "jsstr \<Rightarrow> jsstr list \<Rightarrow> jsstr list" where
  "set_toggle p s = (if p \<in> set s then filter (\<lambda>q. q \<noteq> p) s else s @ [p])"

record role_ui =
  ru_row :: "RoleRow option"
  ru_scopeKind :: jsstr
  ru_description :: jsstr
  ru_checked :: "jsstr list"
  ru_wildcard :: bool
  ru_state :: "form_result option"

definition RoleForm_init :: "RoleRow option \<Rightarrow> role_ui" where
  "RoleForm_init dv =
     \<lparr>ru_row = dv,
      ru_scopeKind = (case dv of None \<Rightarrow> js ''tenant'' | Some r \<Rightarrow> rr_scope_kind r),
      ru_description = (case dv of None \<Rightarrow> [] | Some r \<Rightarrow> rr_description r),
      ru_checked = (case dv of None \<Rightarrow> [] | Some r \<Rightarrow> set_of_list (rr_permissions r)),
      ru_wildcard = (case dv of None \<Rightarrow> False | Some r \<Rightarrow> js ''*'' \<in> set (rr_permissions r)),
      ru_state = None\<rparr>"

section \<open>The permission matrix\<close>

text \<open>The \<^verbatim>\<open>Map\<close> from a resource to its permissions, in the order of insertion.\<close>

fun group_push :: "jsstr \<Rightarrow> 'p \<Rightarrow> (jsstr \<times> 'p list) list \<Rightarrow> (jsstr \<times> 'p list) list" where
  "group_push k p [] = [(k, [p])]"
| "group_push k p ((k', ps) # gs) = (if k' = k then (k', ps @ [p]) # gs else (k', ps) # group_push k p gs)"

definition perm_resource :: "'a PermissionItem_scheme \<Rightarrow> jsstr" where
  "perm_resource p = hd (js_split 0x2E (pi_perm p))"

definition groupPermissions :: "PermissionItem list \<Rightarrow> (jsstr \<times> PermissionItem list) list" where
  "groupPermissions perms = foldl (\<lambda>groups p. group_push (perm_resource p) p groups) [] perms"

definition ends_with :: "jsstr \<Rightarrow> PermissionItem \<Rightarrow> bool" where
  "ends_with sfx p \<longleftrightarrow> js_startsWith (rev (pi_perm p)) (rev sfx)"

text \<open>The rows of the grid: the resources in the order of \<^verbatim>\<open>Array.prototype.sort\<close> (by code units), each with
  its reads, its writes and the others.\<close>

definition grid_items :: "PermissionItem list \<Rightarrow> PermissionItem list" where
  "grid_items items =
     filter (ends_with (js ''.read'')) items @ filter (ends_with (js ''.write'')) items @
     filter (\<lambda>p. \<not> ends_with (js ''.read'') p \<and> \<not> ends_with (js ''.write'') p) items"

definition permission_grid :: "PermissionItem list \<Rightarrow> (jsstr \<times> PermissionItem list) list" where
  "permission_grid perms =
     (let grouped = groupPermissions perms;
          resources = sort (map fst grouped)
      in map (\<lambda>r. (r, grid_items (case map_of grouped r of None \<Rightarrow> [] | Some items \<Rightarrow> items))) resources)"

section \<open>Handlers\<close>

definition role_toggle :: "jsstr \<Rightarrow> role_ui \<Rightarrow> role_ui" where
  "role_toggle perm ui = ui\<lparr>ru_checked := set_toggle perm (ru_checked ui)\<rparr>"

definition toggleWildcard :: "role_ui \<Rightarrow> role_ui" where
  "toggleWildcard ui =
     ui\<lparr>ru_wildcard := \<not> ru_wildcard ui, ru_checked := (if \<not> ru_wildcard ui then [js ''*''] else [])\<rparr>"

definition permsValue :: "role_ui \<Rightarrow> jsstr" where
  "permsValue ui = (if ru_wildcard ui then js ''*'' else js_join (js '','') (ru_checked ui))"

definition ru_isEdit :: "role_ui \<Rightarrow> bool" where
  "ru_isEdit ui \<longleftrightarrow> ru_row ui \<noteq> None"

definition ru_builtin :: "role_ui \<Rightarrow> bool" where
  "ru_builtin ui = (case ru_row ui of None \<Rightarrow> False | Some r \<Rightarrow> rr_is_builtin r)"

text \<open>The inputs in document order; the name of a built-in role is disabled. \<open>typed\<close> is the text of the name.\<close>

definition RoleForm_data :: "role_ui \<Rightarrow> jsstr \<Rightarrow> form" where
  "RoleForm_data ui typed =
     (case ru_row ui of None \<Rightarrow> [] | Some r \<Rightarrow> [(js ''role_id'', num_repr (rr_id r))]) @
     (if ru_builtin ui then [] else [(js ''name'', typed)]) @
     [(js ''scope_kind'', ru_scopeKind ui), (js ''description'', ru_description ui), (js ''permissions'', permsValue ui)]"

definition RoleForm_action :: "bool \<Rightarrow> form \<Rightarrow> form_result act" where
  "RoleForm_action isEdit = (if isEdit then updateRole else createRole)"

text \<open>The effect runs when \<^verbatim>\<open>state?.ok\<close> has become true.\<close>

definition RoleForm_submit :: "role_ui \<Rightarrow> jsstr \<Rightarrow> (role_ui \<times> ui_effect list) act" where
  "RoleForm_submit ui typed =
     bnd (submit_action (RoleForm_action (ru_isEdit ui)) [FormReset, OnSuccess, RouterRefresh] (RoleForm_data ui typed))
       (\<lambda>(r, es). ret (ui\<lparr>ru_state := Some r\<rparr>, if ru_state ui = Some FormOk then [] else es))"

text \<open>The inputs that are rendered: the checkboxes of the grid while the wildcard is off, and the scope of a role
  that is not built in.\<close>

inductive role_event :: "PermissionItem list \<Rightarrow> role_ui \<Rightarrow> role_ui \<Rightarrow> bool" for perms where
  re_toggle: "\<not> ru_wildcard ui \<Longrightarrow> p \<in> set perms \<Longrightarrow> role_event perms ui (role_toggle (pi_perm p) ui)"
| re_wildcard: "role_event perms ui (toggleWildcard ui)"
| re_scope: "\<not> ru_builtin ui \<Longrightarrow> s \<in> {js ''global'', js ''tenant''} \<Longrightarrow> role_event perms ui (ui\<lparr>ru_scopeKind := s\<rparr>)"
| re_description: "role_event perms ui (ui\<lparr>ru_description := s\<rparr>)"
| re_submit: "RoleForm_submit ui typed pf w = (Inr (ui', es), w') \<Longrightarrow> role_event perms ui ui'"

inductive role_reach :: "PermissionItem list \<Rightarrow> RoleRow option \<Rightarrow> role_ui \<Rightarrow> bool" for perms dv where
  role_opened: "role_reach perms dv (RoleForm_init dv)"
| role_stepped: "role_reach perms dv ui \<Longrightarrow> role_event perms ui ui' \<Longrightarrow> role_reach perms dv ui'"

section \<open>Deleting a role\<close>

record delete_button =
  db_confirming :: bool
  db_deleting :: bool
  db_error :: "jsstr option"

text \<open>\<^verbatim>\<open>onConfirm\<close>; when the action throws, the button keeps \<^verbatim>\<open>deleting\<close>. The second component tells whether
  the list is reloaded.\<close>

definition role_onConfirm :: "jsnum \<Rightarrow> delete_button \<Rightarrow> platform \<Rightarrow> world \<Rightarrow> (delete_button \<times> ui_effect list) \<times> world" where
  "role_onConfirm rid b pf w =
     (let b1 = b\<lparr>db_deleting := True, db_error := None\<rparr> in
      case deleteRole rid pf w of
        (Inl e, w') \<Rightarrow> ((b1, []), w')
      | (Inr FormOk, w') \<Rightarrow> ((b1\<lparr>db_deleting := False, db_confirming := False\<rparr>,
            [ShowSuccess (js ''actions.deleted''), RouterRefresh]), w')
      | (Inr (FormErr m k), w') \<Rightarrow> ((b1\<lparr>db_deleting := False, db_error := Some m\<rparr>, []), w'))"

section \<open>Lemmas\<close>

interpretation role_save: action_form "RoleForm_action e" "[(js ''/roles'', None)]" for e
  by (rule action_form.intro, cases e)
    (simp_all add: RoleForm_action_def createRole.admin_write_axioms updateRole.admin_write_axioms)

subsection \<open>The grid\<close>

lemma group_push_keys: "map fst (group_push k p gs) = (if k \<in> fst ` set gs then map fst gs else map fst gs @ [k])"
  by (induction k p gs rule: group_push.induct) auto

lemma group_push_items: "mset (concat (map snd (group_push k p gs))) = add_mset p (mset (concat (map snd gs)))"
  by (induction k p gs rule: group_push.induct) auto

lemma group_push_all:
  "(\<And>r items x. (r, items) \<in> set gs \<Longrightarrow> x \<in> set items \<Longrightarrow> key x = r) \<Longrightarrow> k = key p \<Longrightarrow>
   (r, items) \<in> set (group_push k p gs) \<Longrightarrow> x \<in> set items \<Longrightarrow> key x = r"
proof (induction k p gs rule: group_push.induct)
  case (2 k p k' ps gs)
  then show ?case by (cases "k' = k") (auto, (metis list.set_intros(1) prod.inject | metis list.set_intros(2))+)
qed auto

lemma grouped:
  "distinct (map fst (groupPermissions perms)) \<and> mset (concat (map snd (groupPermissions perms))) = mset perms \<and>
   (\<forall>(r, items) \<in> set (groupPermissions perms). \<forall>x \<in> set items. perm_resource x = r)"
proof (induction perms rule: rev_induct)
  case (snoc p perms)
  let ?g = "groupPermissions perms"
  have g: "groupPermissions (perms @ [p]) = group_push (perm_resource p) p ?g" by (simp add: groupPermissions_def)
  have "distinct (map fst (groupPermissions (perms @ [p])))" unfolding g group_push_keys using snoc by auto
  moreover have "mset (concat (map snd (groupPermissions (perms @ [p])))) = mset (perms @ [p])"
    unfolding g group_push_items using snoc by simp
  moreover have "perm_resource x = r" if "(r, items) \<in> set (groupPermissions (perms @ [p]))" "x \<in> set items" for r items x
    using group_push_all [of ?g perm_resource, OF _ refl that(1) [unfolded g] that(2)] snoc by fast
  ultimately show ?case by fast
qed (simp add: groupPermissions_def)

lemma mset_three_way:
  "(\<And>x. \<not> (P x \<and> Q x)) \<Longrightarrow> mset (filter P xs @ filter Q xs @ filter (\<lambda>x. \<not> P x \<and> \<not> Q x) xs) = mset xs"
proof (induction xs)
  case (Cons x xs)
  then show ?case by (cases "P x"; cases "Q x") auto
qed simp

lemma grid_items_mset: "mset (grid_items items) = mset items"
  unfolding grid_items_def
proof (rule mset_three_way)
  show "\<not> (ends_with (js ''.read'') p \<and> ends_with (js ''.write'') p)" for p
    by (cases "rev (pi_perm p)") (simp_all add: ends_with_def js_def)
qed

lemma mset_concat_cong: "(\<And>x. x \<in> set xs \<Longrightarrow> mset (f x) = mset (g x)) \<Longrightarrow> mset (concat (map f xs)) = mset (concat (map g xs))"
  by (induction xs) auto

lemma mset_concat_sum: "mset (concat (map f xs)) = sum_mset (image_mset (\<lambda>x. mset (f x)) (mset xs))"
  by (induction xs) auto

lemma mset_concat_perm: "mset xs = mset ys \<Longrightarrow> mset (concat (map f xs)) = mset (concat (map f ys))"
  by (simp only: mset_concat_sum)


lemma grid_shows_all: "mset (concat (map snd (permission_grid perms))) = mset perms"
proof -
  let ?g = "groupPermissions perms"
  let ?at = "\<lambda>r. case map_of ?g r of None \<Rightarrow> [] | Some items \<Rightarrow> items"
  have at: "?at (fst x) = snd x" if "x \<in> set ?g" for x
  proof -
    have "map_of ?g (fst x) = Some (snd x)" using grouped [of perms] that by (intro map_of_is_SomeI) auto
    then show ?thesis by simp
  qed
  have "mset (concat (map snd (permission_grid perms))) = mset (concat (map (\<lambda>r. grid_items (?at r)) (sort (map fst ?g))))"
    by (simp add: permission_grid_def Let_def comp_def)
  also have "\<dots> = mset (concat (map (\<lambda>r. grid_items (?at r)) (map fst ?g)))"
    by (rule mset_concat_perm) simp
  also have "\<dots> = mset (concat (map snd ?g))"
    unfolding map_map comp_def by (rule mset_concat_cong) (simp add: grid_items_mset at)
  finally show ?thesis using grouped by metis
qed

lemma grid_resources:
  "sorted (map fst (permission_grid perms)) \<and> distinct (map fst (permission_grid perms)) \<and>
   (\<forall>(r, items) \<in> set (permission_grid perms). \<forall>x \<in> set items. perm_resource x = r)"
proof -
  let ?g = "groupPermissions perms"
  have keys: "map fst (permission_grid perms) = sort (map fst ?g)" by (simp add: permission_grid_def Let_def comp_def)
  have "set (grid_items items) = set items" for items by (metis grid_items_mset set_mset_mset)
  moreover have "Some items = map_of ?g r \<Longrightarrow> \<forall>x\<in>set items. perm_resource x = r" for r items
    using grouped [of perms] map_of_SomeD [of ?g r items] by fastforce
  ultimately have "\<forall>(r, items) \<in> set (permission_grid perms). \<forall>x \<in> set items. perm_resource x = r"
    by (auto simp: permission_grid_def Let_def split: option.splits)
  then show ?thesis unfolding keys using grouped [of perms] by simp
qed

subsection \<open>The permissions of a submission\<close>

lemma set_of_list_facts [simp]: "set (set_of_list xs) = set xs" "distinct (set_of_list xs)"
  by (simp_all add: set_of_list_def)

lemma set_toggle_facts:
  "set (set_toggle p s) = (if p \<in> set s then set s - {p} else insert p (set s))"
  "distinct s \<Longrightarrow> distinct (set_toggle p s)"
  by (auto simp: set_toggle_def)

text \<open>The names of permissions: not empty, no commas, no white space.\<close>

definition perm_name :: "jsstr \<Rightarrow> bool" where
  "perm_name p \<longleftrightarrow> p \<noteq> [] \<and> 0x2C \<notin> set p \<and> list_all (\<lambda>c. \<not> js_ws c) p"

lemma split_join_names:
  assumes "\<forall>w \<in> set ws. 0x2C \<notin> set w" "ws \<noteq> []"
  shows "js_split 0x2C (js_join (js '','') ws) = ws"
  using assms
proof (induction ws rule: induct_list012)
  case (3 x y zs)
  then show ?case by (simp add: js_def js_split_append_sep js_split_id)
qed (simp_all add: js_split_id)

lemma set_join_names: "set (js_join (js '','') ws) \<subseteq> insert 0x2C (\<Union>w \<in> set ws. set w)"
  by (induction ws rule: induct_list012) (auto simp: js_def)

lemma perms_roundtrip:
  assumes "list_all perm_name ps"
  shows "role_permissions (js_trim (js_join (js '','') ps)) = ps"
proof (cases "ps = []")
  case False
  let ?j = "js_join (js '','') ps"
  have comma: "\<not> js_ws 0x2C" by (simp add: js_ws_def)
  have "\<not> js_ws c" if "c \<in> set ?j" for c
    using subsetD [OF set_join_names that] assms comma by (auto simp: perm_name_def list_all_iff)
  then have trim: "js_trim ?j = ?j" by (intro js_trim_id) auto
  obtain w ws where ps: "ps = w # ws" using False by (cases ps) auto
  then have "?j \<noteq> []" using assms by (cases ws) (auto simp: perm_name_def)
  moreover have "js_split 0x2C ?j = ps" using False assms by (intro split_join_names) (auto simp: perm_name_def list_all_iff)
  moreover have "filter (\<lambda>s. s \<noteq> []) ps = ps" using assms by (auto simp: filter_id_conv list_all_iff perm_name_def)
  ultimately show ?thesis by (simp add: role_permissions_def trim)
qed (simp add: role_permissions_def)

text \<open>What a submission would grant.\<close>

definition granted :: "role_ui \<Rightarrow> jsstr \<Rightarrow> jsstr list" where
  "granted ui typed = role_permissions (form_str (RoleForm_data ui typed) (js ''permissions''))"

lemma role_entries:
  "form_get (RoleForm_data ui typed) (js ''permissions'') = Some (permsValue ui)"
  "form_get (RoleForm_data ui typed) (js ''description'') = Some (ru_description ui)"
  "form_get (RoleForm_data ui typed) (js ''scope_kind'') = Some (ru_scopeKind ui)"
  "form_get (RoleForm_data ui typed) (js ''role_id'') = map_option (\<lambda>r. num_repr (rr_id r)) (ru_row ui)"
  "form_get (RoleForm_data ui typed) (js ''name'') = (if ru_builtin ui then None else Some typed)"
  by (simp_all add: RoleForm_data_def form_get_append split: option.splits)

lemma star_granted: "role_permissions (js_trim (js ''*'')) = [js ''*'']"
  by (simp add: role_permissions_def form_eval)

lemma granted_eq:
  assumes "ru_wildcard ui \<or> list_all perm_name (ru_checked ui)"
  shows "granted ui typed = (if ru_wildcard ui then [js ''*''] else ru_checked ui)"
  using assms by (auto simp: granted_def form_str_Some [OF role_entries(1)] permsValue_def star_granted perms_roundtrip)

text \<open>The invariant of the form, for a catalogue of proper names without the wildcard.\<close>

definition catalogue :: "PermissionItem list \<Rightarrow> bool" where
  "catalogue perms \<longleftrightarrow> (\<forall>p \<in> set perms. perm_name (pi_perm p) \<and> pi_perm p \<noteq> js ''*'')"

definition role_ui_wf :: "RoleRow option \<Rightarrow> role_ui \<Rightarrow> bool" where
  "role_ui_wf dv ui \<longleftrightarrow> ru_row ui = dv \<and> distinct (ru_checked ui) \<and> list_all perm_name (ru_checked ui) \<and>
     (ru_wildcard ui \<longleftrightarrow> js ''*'' \<in> set (ru_checked ui))"

lemma star_name: "perm_name (js ''*'')"
  by (simp add: perm_name_def js_def js_ws_def)

lemma role_init_wf:
  "(\<And>r. dv = Some r \<Longrightarrow> list_all perm_name (rr_permissions r)) \<Longrightarrow> role_ui_wf dv (RoleForm_init dv)"
  by (auto simp: role_ui_wf_def RoleForm_init_def list_all_iff split: option.splits)

lemma role_submit_ui:
  "RoleForm_submit ui typed pf w = (Inr (ui', es), w') \<Longrightarrow> \<exists>r. ui' = ui\<lparr>ru_state := Some r\<rparr>"
  by (auto simp: RoleForm_submit_def bnd_apply split: prod.splits sum.splits)

lemma role_event_wf:
  assumes "role_event perms ui ui'" "catalogue perms" "role_ui_wf dv ui"
  shows "role_ui_wf dv ui'"
  using assms
proof cases
  case (re_toggle p)
  then show ?thesis using assms(2,3)
    by (auto simp: role_ui_wf_def role_toggle_def set_toggle_facts catalogue_def list_all_iff)
next
  case re_submit
  then show ?thesis using assms(3) role_submit_ui [OF re_submit] by (auto simp: role_ui_wf_def)
qed (auto simp: role_ui_wf_def toggleWildcard_def star_name)

lemma role_reach_wf:
  assumes "role_reach perms dv ui" "catalogue perms" "\<And>r. dv = Some r \<Longrightarrow> list_all perm_name (rr_permissions r)"
  shows "role_ui_wf dv ui"
  using assms(1) by induction (auto intro: role_init_wf role_event_wf assms)


subsection \<open>Submissions\<close>

lemma RoleForm_submit_world:
  "snd (RoleForm_submit ui typed pf w) = snd (RoleForm_action (ru_isEdit ui) (RoleForm_data ui typed) pf w)"
  by (auto simp: RoleForm_submit_def submit_action_run bnd_apply split: prod.splits sum.splits)

text \<open>Saving an edit reads the identifier, the description and the permissions, and nothing else.\<close>

lemma updateRole_cong:
  assumes "form_get f (js ''role_id'') = form_get g (js ''role_id'')"
    and "form_get f (js ''description'') = form_get g (js ''description'')"
    and "form_get f (js ''permissions'') = form_get g (js ''permissions'')"
  shows "updateRole f = updateRole g"
  using form_str_cong [OF assms(2)] form_str_cong [OF assms(3)] assms(1) by (simp add: updateRole_def form_num_def)

section \<open>Properties\<close>

text \<open>The permission matrix shows every permission of the catalogue exactly once, whatever the order the
  backend lists them in: in the row of its resource, with the rows in order and no resource twice.\<close>

theorem role_permission_grid:
  "mset (concat (map snd (permission_grid perms))) = mset perms \<and>
   sorted (map fst (permission_grid perms)) \<and> distinct (map fst (permission_grid perms)) \<and>
   (\<forall>r items p. (r, items) \<in> set (permission_grid perms) \<and> p \<in> set items \<longrightarrow> perm_resource p = r)"
  using grid_shows_all [of perms] grid_resources [of perms] by fast

theorem role_permission_grid_witness:
  "mset (concat (map snd (permission_grid
       [\<lparr>pi_perm = js ''route.write'', pi_scope = [], pi_label = []\<rparr>, \<lparr>pi_perm = js ''model.read'', pi_scope = [], pi_label = []\<rparr>]))) =
     {#\<lparr>pi_perm = js ''route.write'', pi_scope = [], pi_label = []\<rparr>, \<lparr>pi_perm = js ''model.read'', pi_scope = [], pi_label = []\<rparr>#}"
  using role_permission_grid [of "[\<lparr>pi_perm = js ''route.write'', pi_scope = [], pi_label = []\<rparr>,
      \<lparr>pi_perm = js ''model.read'', pi_scope = [], pi_label = []\<rparr>]"] by simp

text \<open>C34: What a role form grants. In every state the form can reach, a submission grants the checked permissions,
  without repetition, or everything exactly when the wildcard box is on; and a click on the box of a permission
  changes that permission and no other.\<close>

theorem role_form_grants:
  assumes "role_reach perms dv ui" and "catalogue perms"
    and "\<And>r. dv = Some r \<Longrightarrow> list_all perm_name (rr_permissions r)"
  shows "granted ui typed = (if ru_wildcard ui then [js ''*''] else ru_checked ui) \<and> distinct (granted ui typed) \<and>
    (js ''*'' \<in> set (granted ui typed) \<longleftrightarrow> ru_wildcard ui) \<and>
    (\<forall>p \<in> set perms. \<not> ru_wildcard ui \<longrightarrow> set (granted (role_toggle (pi_perm p) ui) typed) =
       (if pi_perm p \<in> set (granted ui typed) then set (granted ui typed) - {pi_perm p}
        else insert (pi_perm p) (set (granted ui typed))))"
proof -
  have wf: "role_ui_wf dv ui" by (rule role_reach_wf [OF assms])
  then have g: "granted ui typed = (if ru_wildcard ui then [js ''*''] else ru_checked ui)"
    by (intro granted_eq) (simp add: role_ui_wf_def)
  have "set (granted (role_toggle (pi_perm p) ui) typed) = set (set_toggle (pi_perm p) (ru_checked ui))"
    if "p \<in> set perms" "\<not> ru_wildcard ui" for p
  proof -
    have "role_ui_wf dv (role_toggle (pi_perm p) ui)"
      by (rule role_event_wf [OF re_toggle [OF that(2,1)] assms(2) wf])
    then show ?thesis using that(2) by (subst granted_eq) (simp_all add: role_ui_wf_def role_toggle_def)
  qed
  then show ?thesis using wf by (auto simp: g role_ui_wf_def set_toggle_facts)
qed

theorem role_form_grants_witness:
  "granted (toggleWildcard (RoleForm_init None)) (js ''ops'') = [js ''*'']"
proof -
  have "role_reach [] None (toggleWildcard (RoleForm_init None))"
    by (rule role_stepped [OF role_opened re_wildcard])
  from role_form_grants [OF this, of "js ''ops''"] show ?thesis
    by (simp add: catalogue_def toggleWildcard_def RoleForm_init_def)
qed

text \<open>The edit form of a role offers fields that it does not save. For a role that is not built in it shows an
  editable name and scope, but whatever is typed and chosen there the same request is sent; and emptying the
  description leaves it out of the request, so it cannot be removed.\<close>

theorem role_edit_ignores:
  assumes "ru_row ui = Some r"
  shows "snd (RoleForm_submit (ui\<lparr>ru_scopeKind := s\<rparr>) typed' pf w) = snd (RoleForm_submit ui typed pf w) \<and>
    (rr_id r = num_int k \<and> 0 < k \<and> k \<le> 2 ^ 53 \<and> js_trim (ru_description ui) = [] \<and> client_of pf w = Some c \<longrightarrow>
     w_sent (snd (RoleForm_submit ui typed pf w)) = w_sent w @ [mk_req c PATCH (js ''/api/v1/roles/{id}'')
        [(js ''id'', JNum (rr_id r))] [] (Some (JObj [(js ''permissions'', JArr (map JStr (granted ui typed)))]))])"
proof -
  have e: "ru_isEdit ui" "ru_isEdit (ui\<lparr>ru_scopeKind := s\<rparr>)" using assms by (simp_all add: ru_isEdit_def)
  have "updateRole (RoleForm_data (ui\<lparr>ru_scopeKind := s\<rparr>) typed') = updateRole (RoleForm_data ui typed)"
    by (rule updateRole_cong) (simp_all add: role_entries permsValue_def)
  moreover have "w_sent (snd (updateRole (RoleForm_data ui typed) pf w)) = w_sent w @
      [mk_req c PATCH (js ''/api/v1/roles/{id}'') [(js ''id'', JNum (rr_id r))] []
        (Some (JObj [(js ''permissions'', JArr (map JStr (granted ui typed)))]))]"
    if "rr_id r = num_int k" "0 < k" "k \<le> 2 ^ 53" "js_trim (ru_description ui) = []" "client_of pf w = Some c"
  proof -
    have "form_num (RoleForm_data ui typed) (js ''role_id'') = num_int k"
      using that(1,2,3) number_text_roundtrip(3) [of k] by (simp add: form_num_def role_entries assms)
    moreover have "form_str (RoleForm_data ui typed) (js ''description'') = []"
      using form_str_Some [OF role_entries(2)] that(4) by simp
    ultimately show ?thesis using that
      by (simp add: updateRole_def Let_def granted_def try_write_attempt attempt_unwrap_run role_catch_def bnd_apply
          split: fetch_outcome.splits sum.splits)
  qed
  ultimately show ?thesis by (simp add: RoleForm_submit_world RoleForm_action_def e)
qed

definition demo_role :: RoleRow where
  "demo_role = \<lparr>rr_id = num_int 7, rr_name = js ''ops'', rr_scope_kind = js ''tenant'', rr_is_builtin = False,
     rr_description = js ''old'', rr_permissions = [js ''*'']\<rparr>"

theorem role_edit_ignores_witness:
  "w_sent (snd (RoleForm_submit ((RoleForm_init (Some demo_role))\<lparr>ru_description := [], ru_scopeKind := js ''global''\<rparr>)
       (js ''renamed'') sample_platform sample_world)) =
   w_sent sample_world @ [mk_req sample_client PATCH (js ''/api/v1/roles/{id}'') [(js ''id'', JNum (num_int 7))] []
     (Some (JObj [(js ''permissions'', JArr (map JStr (granted ((RoleForm_init (Some demo_role))\<lparr>ru_description := []\<rparr>) [])))]))]"
proof -
  let ?ui = "(RoleForm_init (Some demo_role))\<lparr>ru_description := []\<rparr>"
  have row: "ru_row ?ui = Some demo_role" "rr_id demo_role = num_int 7" by (simp_all add: RoleForm_init_def demo_role_def)
  from role_edit_ignores [OF row(1), of "js ''global''" "js ''renamed''" sample_platform sample_world "[]" 7 sample_client] row(2)
  show ?thesis by simp
qed

end
