(* ===== verification/Web_Filters.thy ===== *)
theory Web_Filters
  imports Web_Form Pages_Usage
begin

text \<open>
  The filter bars of the Control Panel: request logs (\<^verbatim>\<open>request-logs/client.tsx\<close>), audit
  (\<^verbatim>\<open>audit/client.tsx\<close>) and usage (\<^verbatim>\<open>usage/client.tsx\<close>). A filter bar writes the address of the page, and the server-rendered page
  reads it: the lemmas compose the two, so that they speak of the query the admin API is asked. An address is its
  list of search parameters, as the pages take it.
\<close>

section \<open>Search parameters\<close>

text \<open>\<^verbatim>\<open>URLSearchParams.set\<close>: the first entry of the name gets the value and the others are removed; a new name is
  appended. \<^verbatim>\<open>delete\<close> removes all.\<close>

fun usp_set :: "jsstr \<Rightarrow> jsstr \<Rightarrow> form \<Rightarrow> form" where
  "usp_set k v [] = [(k, v)]"
| "usp_set k v ((k', v') # ps) = (if k' = k then (k, v) # filter (\<lambda>(k'', _). k'' \<noteq> k) ps else (k', v') # usp_set k v ps)"

definition usp_delete :: "jsstr \<Rightarrow> form \<Rightarrow> form" where
  "usp_delete k ps = filter (\<lambda>(k', _). k' \<noteq> k) ps"

text \<open>\<^verbatim>\<open>if (val) params.set(key, String(val))\<close>, \<open>None\<close> for \<^verbatim>\<open>null\<close>; several in a row.\<close>

definition set_if :: "form \<Rightarrow> jsstr \<times> jsstr option \<Rightarrow> form" where
  "set_if ps kv = (case snd kv of None \<Rightarrow> ps | Some s \<Rightarrow> if s = [] then ps else usp_set (fst kv) s ps)"

definition set_all :: "(jsstr \<times> jsstr option) list \<Rightarrow> form \<Rightarrow> form" where
  "set_all kvs ps = foldl set_if ps kvs"

text \<open>The fields \<^verbatim>\<open>from\<close> and \<^verbatim>\<open>to\<close>: local times, written to the address as UTC.\<close>

definition time_entry :: "(jsstr \<Rightarrow> date) \<Rightarrow> form \<Rightarrow> jsstr \<Rightarrow> jsstr option res" where
  "time_entry parse fd k =
     (case form_get fd k of
        None \<Rightarrow> Inr None
      | Some s \<Rightarrow> if s = [] then Inr None else rbind (localDatetimeToRfc3339 parse s) (\<lambda>u. Inr (Some u)))"

section \<open>Request logs\<close>

text \<open>The state of the bar: the environment and the box for requests without an application.\<close>

record logs_bar =
  lb_environment :: jsstr
  lb_unattributed :: bool

definition logs_bar_init :: "form \<Rightarrow> logs_bar" where
  "logs_bar_init sp = \<lparr>lb_environment = form_raw sp (js ''environment''),
     lb_unattributed = (form_get sp (js ''unattributed'') = Some (js ''true''))\<rparr>"

text \<open>The entries of the form; \<open>typed\<close> gives the text of an uncontrolled input. The field of the tenant is rendered
  for a super-admin, that of the application is disabled by the box, and a box submits \<^verbatim>\<open>on\<close>.\<close>

definition logs_form :: "bool \<Rightarrow> logs_bar \<Rightarrow> (jsstr \<Rightarrow> jsstr) \<Rightarrow> form" where
  "logs_form isSuperAdmin b typed =
     (let field = (\<lambda>k. [(k, typed k)]) in
      field (js ''from'') @ field (js ''to'') @ (if isSuperAdmin then field (js ''tenant'') else []) @
      field (js ''group_name'') @ field (js ''api_key_id'') @
      (if lb_unattributed b then [] else field (js ''application_id'')) @
      [(js ''environment'', lb_environment b)] @
      (if lb_unattributed b then [(js ''unattributed'', js ''on'')] else []) @
      field (js ''provider'') @ field (js ''model_requested'') @ field (js ''error_type'') @ field (js ''blocked_by'') @
      field (js ''stream'') @ field (js ''fallback'') @ field (js ''session_id'') @ field (js ''ingress_protocol''))"

definition logs_applyFilter :: "(jsstr \<Rightarrow> date) \<Rightarrow> jsnum \<Rightarrow> bool \<Rightarrow> form \<Rightarrow> form res" where
  "logs_applyFilter parse pageSize unattributed fd =
     rbind (time_entry parse fd (js ''from'')) (\<lambda>from. rbind (time_entry parse fd (js ''to'')) (\<lambda>to.
     let entry = (\<lambda>k. (k, form_get fd k))
     in Inr (set_all ([(js ''from'', from), (js ''to'', to), entry (js ''tenant''), entry (js ''group_name''),
           entry (js ''api_key_id''), entry (js ''provider''), entry (js ''model_requested''), entry (js ''error_type''),
           entry (js ''blocked_by''), entry (js ''stream''), entry (js ''fallback''), entry (js ''session_id''),
           entry (js ''ingress_protocol''), entry (js ''environment'')] @
          (if unattributed then [(js ''unattributed'', Some (js ''true''))] else [entry (js ''application_id'')]))
         [(js ''page_size'', num_repr pageSize)])))"

datatype page_move = ToPage jsnum | ToPageSize jsnum

text \<open>\<^verbatim>\<open>pushParams\<close>, the same in the request logs and the audit.\<close>

definition pushParams :: "page_move \<Rightarrow> form \<Rightarrow> form" where
  "pushParams move sp =
     (case move of
        ToPageSize s \<Rightarrow> usp_set (js ''page'') (js ''1'') (usp_set (js ''page_size'') (num_repr s) sp)
      | ToPage p \<Rightarrow> usp_set (js ''page'') (num_repr p) sp)"

definition logs_hasFilters :: "logs_bar \<Rightarrow> form \<Rightarrow> bool" where
  "logs_hasFilters b sp \<longleftrightarrow>
     list_ex (\<lambda>k. form_raw sp k \<noteq> []) [js ''from'', js ''to'', js ''tenant'', js ''group_name'', js ''api_key_id'', js ''provider'',
       js ''model_requested'', js ''error_type'', js ''blocked_by'', js ''stream'', js ''fallback'', js ''session_id'',
       js ''ingress_protocol'', js ''application_id''] \<or> lb_environment b \<noteq> [] \<or> lb_unattributed b"

section \<open>Audit\<close>

definition audit_form :: "jsstr \<Rightarrow> (jsstr \<Rightarrow> jsstr) \<Rightarrow> form" where
  "audit_form actionValue typed =
     [(js ''from'', typed (js ''from'')), (js ''to'', typed (js ''to'')),
      (js ''resource_type'', typed (js ''resource_type'')), (js ''action'', actionValue)]"

text \<open>Here \<^verbatim>\<open>params.set\<close> runs whenever the field is filled in, also with a time that does not parse.\<close>

definition set_time :: "(jsstr \<Rightarrow> date) \<Rightarrow> form \<Rightarrow> jsstr \<Rightarrow> form \<Rightarrow> form res" where
  "set_time parse fd k ps =
     rbind (time_entry parse fd k) (\<lambda>t. Inr (case t of None \<Rightarrow> ps | Some u \<Rightarrow> usp_set k u ps))"

definition audit_applyFilter :: "(jsstr \<Rightarrow> date) \<Rightarrow> jsnum \<Rightarrow> form \<Rightarrow> form res" where
  "audit_applyFilter parse pageSize fd =
     rbind (set_time parse fd (js ''from'') [(js ''page_size'', num_repr pageSize)]) (\<lambda>ps.
     rbind (set_time parse fd (js ''to'') ps) (\<lambda>ps'.
     Inr (set_all [(js ''resource_type'', form_get fd (js ''resource_type'')), (js ''action'', form_get fd (js ''action''))] ps')))"

definition audit_filters :: "form \<Rightarrow> fields" where
  "audit_filters sp = when_param sp (js ''resource_type'') @ when_param sp (js ''action'')"

section \<open>Usage\<close>

record usage_bar =
  ub_environment :: jsstr
  ub_unattributed :: bool
  ub_dimension :: jsstr
  ub_tenant :: jsstr

definition usage_form :: "bool \<Rightarrow> usage_bar \<Rightarrow> (jsstr \<Rightarrow> jsstr) \<Rightarrow> form" where
  "usage_form isSuperAdmin b typed =
     (let field = (\<lambda>k. [(k, typed k)]) in
      field (js ''from'') @ field (js ''to'') @ (if isSuperAdmin then [(js ''tenant'', ub_tenant b)] else []) @
      field (js ''provider'') @ field (js ''model'') @
      (if ub_unattributed b then [] else field (js ''application_id'')) @ [(js ''environment'', ub_environment b)] @
      (if ub_unattributed b then [(js ''unattributed'', js ''on'')] else []) @ [(js ''group_by'', ub_dimension b)])"

definition usage_applyFilter :: "(jsstr \<Rightarrow> date) \<Rightarrow> usage_bar \<Rightarrow> form \<Rightarrow> form res" where
  "usage_applyFilter parse b fd =
     rbind (set_time parse fd (js ''from'') []) (\<lambda>ps.
     rbind (set_time parse fd (js ''to'') ps) (\<lambda>ps'.
     let entry = (\<lambda>k. (k, form_get fd k))
     in Inr (set_all ([entry (js ''tenant''), entry (js ''provider''), entry (js ''model''), entry (js ''group_by''),
           (js ''environment'', Some (ub_environment b))] @
          (if ub_unattributed b then [(js ''unattributed'', Some (js ''true''))] else [entry (js ''application_id'')])) ps')))"

section \<open>Lemmas\<close>

lemma form_get_filter: "form_get (filter (\<lambda>(k'', _). k'' \<noteq> k) ps) k' = (if k' = k then None else form_get ps k')"
  by (induction ps) auto

lemma form_get_usp_set [simp]: "form_get (usp_set k v ps) k' = (if k' = k then Some v else form_get ps k')"
  by (induction k v ps rule: usp_set.induct) (auto simp: form_get_filter)

lemma form_get_usp_delete [simp]: "form_get (usp_delete k ps) k' = (if k' = k then None else form_get ps k')"
  unfolding usp_delete_def by (rule form_get_filter)

lemma form_get_set_if:
  "form_get (set_if ps (k, v)) k' = (if k' = k \<and> v \<noteq> None \<and> v \<noteq> Some [] then v else form_get ps k')"
  by (auto simp: set_if_def split: option.splits)

text \<open>An entry of the address after several settings of different names.\<close>

lemma form_get_set_all:
  "distinct (map fst kvs) \<Longrightarrow> form_get (set_all kvs ps) k =
     (case map_of kvs k of None \<Rightarrow> form_get ps k | Some v \<Rightarrow> if v = None \<or> v = Some [] then form_get ps k else v)"
proof (induction kvs arbitrary: ps)
  case (Cons kv kvs)
  obtain k1 v1 where kv: "kv = (k1, v1)" by (cases kv)
  have "form_get (set_all (kv # kvs) ps) k = form_get (set_all kvs (set_if ps kv)) k" by (simp add: set_all_def)
  also have "\<dots> = (case map_of kvs k of None \<Rightarrow> form_get (set_if ps kv) k
      | Some v \<Rightarrow> if v = None \<or> v = Some [] then form_get (set_if ps kv) k else v)"
    using Cons by simp
  finally show ?case using Cons.prems
    by (cases "k = k1") (auto simp: kv form_get_set_if map_of_eq_None_iff [THEN iffD2] split: option.splits)
qed (simp add: set_all_def)

text \<open>The text of a filter that may be empty, as the page reads it.\<close>

lemma form_raw_entry: "form_get ps k = (if v = None \<or> v = Some [] then None else v) \<Longrightarrow>
    form_raw ps k = (case v of None \<Rightarrow> [] | Some s \<Rightarrow> s)"
  by (auto simp: form_raw_def split: option.splits)

section \<open>Moving between pages\<close>

text \<open>The interface between a paged list and its page: the query reads the address except for the position. Then
  moving keeps the query, and a new page size starts at the first page.\<close>

locale paged_filters =
  fixes query :: "form \<Rightarrow> fields"
  assumes position_free: "(\<And>k. k \<notin> {js ''page'', js ''page_size''} \<Longrightarrow> form_get sp k = form_get sp' k) \<Longrightarrow> query sp = query sp'"
begin

lemma move_keeps: "query (pushParams m sp) = query sp"
  by (rule position_free) (auto simp: pushParams_def split: page_move.splits)

lemma move_position:
  assumes "1 \<le> n" "n \<le> 2 ^ 53"
  shows "page_number (pushParams (ToPage (num_int n)) sp) (js ''page'') 1 = num_int n"
    "page_number (pushParams (ToPageSize (num_int n)) sp) (js ''page_size'') 20 = num_int n"
    "page_number (pushParams (ToPageSize (num_int n)) sp) (js ''page'') 1 = num_int 1"
proof -
  have n: "num_repr (num_int n) \<noteq> []" "js_Number (num_repr (num_int n)) = num_int n"
    using number_text_roundtrip [of n] assms by auto
  have "digits10 (nat 1) = js ''1''" by code_simp
  then have one: "js_Number (js ''1'') = num_int 1"
    using number_text_roundtrip(3) [of 1] num_repr_int [of 1] by simp
  show "page_number (pushParams (ToPage (num_int n)) sp) (js ''page'') 1 = num_int n"
    "page_number (pushParams (ToPageSize (num_int n)) sp) (js ''page_size'') 20 = num_int n"
    "page_number (pushParams (ToPageSize (num_int n)) sp) (js ''page'') 1 = num_int 1"
    using assms n one by (simp_all add: page_number_def pushParams_def form_raw_def)
qed

end

lemma raw_cong: "form_get sp k = form_get sp' k \<Longrightarrow> form_raw sp k = form_raw sp' k"
  by (simp add: form_raw_def)

interpretation logs_list: paged_filters "log_filters isSuperAdmin" for isSuperAdmin
proof
  fix sp sp' assume eq: "\<And>k. k \<notin> {js ''page'', js ''page_size''} \<Longrightarrow> form_get sp k = form_get sp' k"
  have "form_raw sp k = form_raw sp' k" if "k \<notin> {js ''page'', js ''page_size''}" for k using raw_cong [OF eq [OF that]] .
  with eq show "log_filters isSuperAdmin sp = log_filters isSuperAdmin sp'" by (simp add: log_filters_def when_param_def)
qed

interpretation audit_list: paged_filters audit_filters
proof
  fix sp sp' assume eq: "\<And>k. k \<notin> {js ''page'', js ''page_size''} \<Longrightarrow> form_get sp k = form_get sp' k"
  have "form_raw sp k = form_raw sp' k" if "k \<notin> {js ''page'', js ''page_size''}" for k using raw_cong [OF eq [OF that]] .
  then show "audit_filters sp = audit_filters sp'" by (simp add: audit_filters_def when_param_def)
qed


section \<open>What a filter bar asks for\<close>

text \<open>The entries of a time field.\<close>

lemma time_entry_Inr:
  assumes "time_entry parse fd k = Inr t"
  shows "t = None \<or> (\<exists>s u. form_get fd k = Some s \<and> s \<noteq> [] \<and> localDatetimeToRfc3339 parse s = Inr u \<and> t = Some u)"
  using assms by (auto simp: time_entry_def rbind_def split: option.splits if_splits sum.splits)

text \<open>The address that the request log filters write, entry by entry.\<close>

lemma logs_entries:
  assumes "logs_applyFilter parse pageSize (lb_unattributed b) (logs_form sa b typed) = Inr ps"
  shows "\<And>k. k \<in> {js ''group_name'', js ''api_key_id'', js ''provider'', js ''model_requested'', js ''error_type'', js ''blocked_by'',
      js ''stream'', js ''fallback'', js ''session_id'', js ''ingress_protocol''} \<Longrightarrow> form_raw ps k = typed k"
    and "form_raw ps (js ''tenant'') = (if sa then typed (js ''tenant'') else [])"
    and "form_raw ps (js ''environment'') = lb_environment b"
    and "form_raw ps (js ''application_id'') = (if lb_unattributed b then [] else typed (js ''application_id''))"
    and "form_get ps (js ''unattributed'') = (if lb_unattributed b then Some (js ''true'') else None)"
    and "form_raw ps (js ''agent_type'') = []"
    and "form_get ps (js ''page'') = None" and "form_get ps (js ''page_size'') = Some (num_repr pageSize)"
proof -
  let ?fd = "logs_form sa b typed"
  let ?entry = "\<lambda>k. (k, form_get ?fd k)"
  obtain f t where ft: "time_entry parse ?fd (js ''from'') = Inr f" "time_entry parse ?fd (js ''to'') = Inr t"
    using assms by (auto simp: logs_applyFilter_def rbind_def split: sum.splits)
  define kvs where "kvs = [(js ''from'', f), (js ''to'', t), ?entry (js ''tenant''), ?entry (js ''group_name''),
           ?entry (js ''api_key_id''), ?entry (js ''provider''), ?entry (js ''model_requested''), ?entry (js ''error_type''),
           ?entry (js ''blocked_by''), ?entry (js ''stream''), ?entry (js ''fallback''), ?entry (js ''session_id''),
           ?entry (js ''ingress_protocol''), ?entry (js ''environment'')] @
          (if lb_unattributed b then [(js ''unattributed'', Some (js ''true''))] else [?entry (js ''application_id'')])"
  have ps: "ps = set_all kvs [(js ''page_size'', num_repr pageSize)]"
    using assms ft by (simp add: logs_applyFilter_def rbind_def kvs_def Let_def)
  have "distinct (map fst kvs)" by (simp add: kvs_def)
  note get = form_get_set_all [OF this, of "[(js ''page_size'', num_repr pageSize)]", folded ps]
  have fd: "form_get ?fd k = Some (typed k)" if "k \<in> {js ''group_name'', js ''api_key_id'', js ''provider'',
      js ''model_requested'', js ''error_type'', js ''blocked_by'', js ''stream'', js ''fallback'', js ''session_id'', js ''ingress_protocol''}" for k
    using that by (auto simp: logs_form_def Let_def)
  have "map_of kvs k = Some (Some (typed k)) \<and> k \<noteq> js ''page_size''" if "k \<in> {js ''group_name'', js ''api_key_id'',
      js ''provider'', js ''model_requested'', js ''error_type'', js ''blocked_by'', js ''stream'', js ''fallback'', js ''session_id'',
      js ''ingress_protocol''}" for k
    using that fd [OF that] by (auto simp: kvs_def)
  then show "form_raw ps k = typed k" if "k \<in> {js ''group_name'', js ''api_key_id'', js ''provider'', js ''model_requested'',
      js ''error_type'', js ''blocked_by'', js ''stream'', js ''fallback'', js ''session_id'', js ''ingress_protocol''}" for k
    using that get [of k] by (auto simp: form_raw_def)
  have tenant: "form_get ?fd (js ''tenant'') = (if sa then Some (typed (js ''tenant'')) else None)"
    and env: "form_get ?fd (js ''environment'') = Some (lb_environment b)"
    and app: "form_get ?fd (js ''application_id'') = (if lb_unattributed b then None else Some (typed (js ''application_id'')))"
    by (simp_all add: logs_form_def Let_def)
  have "map_of kvs (js ''tenant'') = Some (form_get ?fd (js ''tenant''))"
    "map_of kvs (js ''environment'') = Some (form_get ?fd (js ''environment''))"
    "map_of kvs (js ''application_id'') = (if lb_unattributed b then None else Some (form_get ?fd (js ''application_id'')))"
    "map_of kvs (js ''unattributed'') = (if lb_unattributed b then Some (Some (js ''true'')) else None)"
    "map_of kvs (js ''agent_type'') = None" "map_of kvs (js ''page'') = None" "map_of kvs (js ''page_size'') = None"
    by (simp_all add: kvs_def)
  then show "form_raw ps (js ''tenant'') = (if sa then typed (js ''tenant'') else [])"
    "form_raw ps (js ''environment'') = lb_environment b"
    "form_raw ps (js ''application_id'') = (if lb_unattributed b then [] else typed (js ''application_id''))"
    "form_get ps (js ''unattributed'') = (if lb_unattributed b then Some (js ''true'') else None)"
    "form_raw ps (js ''agent_type'') = []" "form_get ps (js ''page'') = None" "form_get ps (js ''page_size'') = Some (num_repr pageSize)"
    using get by (auto simp: form_raw_def tenant env app)
qed


lemma set_time_get:
  assumes "set_time parse fd k ps = Inr ps'"
  shows "k' \<noteq> k \<Longrightarrow> form_get ps' k' = form_get ps k'"
  using assms by (auto simp: set_time_def rbind_def split: sum.splits option.splits)

text \<open>The audit asks for the type and the action of its bar, from the first page on, with the page size that was
  chosen before.\<close>

lemma audit_filter_asked:
  assumes "audit_applyFilter parse pageSize (audit_form a typed) = Inr ps"
  shows "audit_filters ps = when_field (typed (js ''resource_type'') \<noteq> []) (js ''resource_type'') (JStr (typed (js ''resource_type''))) @
      when_field (a \<noteq> []) (js ''action'') (JStr a)"
    and "form_get ps (js ''page'') = None" and "form_get ps (js ''page_size'') = Some (num_repr pageSize)"
proof -
  let ?fd = "audit_form a typed"
  let ?kvs = "[(js ''resource_type'', form_get ?fd (js ''resource_type'')), (js ''action'', form_get ?fd (js ''action''))]"
  obtain p1 p2 where 1: "set_time parse ?fd (js ''from'') [(js ''page_size'', num_repr pageSize)] = Inr p1"
    and 2: "set_time parse ?fd (js ''to'') p1 = Inr p2" and ps: "ps = set_all ?kvs p2"
    using assms by (auto simp: audit_applyFilter_def rbind_def split: sum.splits)
  have p2: "form_get p2 k = (if k = js ''page_size'' then Some (num_repr pageSize) else None)"
    if "k \<noteq> js ''from''" "k \<noteq> js ''to''" for k
    using set_time_get [OF 1, of k] set_time_get [OF 2, of k] that by simp
  have "distinct (map fst ?kvs)" by simp
  note get = form_get_set_all [OF this, of p2, folded ps]
  have fd: "form_get ?fd (js ''resource_type'') = Some (typed (js ''resource_type''))" "form_get ?fd (js ''action'') = Some a"
    by (simp_all add: audit_form_def)
  show "form_get ps (js ''page'') = None" "form_get ps (js ''page_size'') = Some (num_repr pageSize)"
    using get p2 by simp_all
  have "form_raw ps (js ''resource_type'') = typed (js ''resource_type'')" "form_raw ps (js ''action'') = a"
    using get p2 by (simp_all add: form_raw_def fd)
  then show "audit_filters ps = when_field (typed (js ''resource_type'') \<noteq> []) (js ''resource_type'') (JStr (typed (js ''resource_type''))) @
      when_field (a \<noteq> []) (js ''action'') (JStr a)"
    by (simp add: audit_filters_def when_param_def)
qed

text \<open>The usage page reads the dimension and the filters of the bar back from the address.\<close>

lemma usage_entries:
  assumes "usage_applyFilter parse b (usage_form sa b typed) = Inr ps"
  shows "form_raw ps (js ''tenant'') = (if sa then ub_tenant b else [])"
    and "form_raw ps (js ''provider'') = typed (js ''provider'')" and "form_raw ps (js ''model'') = typed (js ''model'')"
    and "form_raw ps (js ''group_by'') = ub_dimension b" and "form_raw ps (js ''environment'') = ub_environment b"
    and "form_raw ps (js ''application_id'') = (if ub_unattributed b then [] else typed (js ''application_id''))"
    and "form_get ps (js ''unattributed'') = (if ub_unattributed b then Some (js ''true'') else None)"
    and "form_get ps (js ''cursor'') = None"
proof -
  let ?fd = "usage_form sa b typed"
  let ?entry = "\<lambda>k. (k, form_get ?fd k)"
  define kvs where "kvs = [?entry (js ''tenant''), ?entry (js ''provider''), ?entry (js ''model''), ?entry (js ''group_by''),
           (js ''environment'', Some (ub_environment b))] @
          (if ub_unattributed b then [(js ''unattributed'', Some (js ''true''))] else [?entry (js ''application_id'')])"
  obtain p1 p2 where 1: "set_time parse ?fd (js ''from'') [] = Inr p1"
    and 2: "set_time parse ?fd (js ''to'') p1 = Inr p2" and ps: "ps = set_all kvs p2"
    using assms by (auto simp: usage_applyFilter_def rbind_def kvs_def Let_def split: sum.splits)
  have p2: "form_get p2 k = None" if "k \<noteq> js ''from''" "k \<noteq> js ''to''" for k
    using set_time_get [OF 1, of k] set_time_get [OF 2, of k] that by simp
  have "distinct (map fst kvs)" by (simp add: kvs_def)
  note get = form_get_set_all [OF this, of p2, folded ps]
  have fd: "form_get ?fd (js ''tenant'') = (if sa then Some (ub_tenant b) else None)"
    "form_get ?fd (js ''provider'') = Some (typed (js ''provider''))" "form_get ?fd (js ''model'') = Some (typed (js ''model''))"
    "form_get ?fd (js ''group_by'') = Some (ub_dimension b)"
    "form_get ?fd (js ''application_id'') = (if ub_unattributed b then None else Some (typed (js ''application_id'')))"
    by (simp_all add: usage_form_def Let_def)
  have kv: "map_of kvs (js ''tenant'') = Some (form_get ?fd (js ''tenant''))"
    "map_of kvs (js ''provider'') = Some (form_get ?fd (js ''provider''))" "map_of kvs (js ''model'') = Some (form_get ?fd (js ''model''))"
    "map_of kvs (js ''group_by'') = Some (form_get ?fd (js ''group_by''))" "map_of kvs (js ''environment'') = Some (Some (ub_environment b))"
    "map_of kvs (js ''application_id'') = (if ub_unattributed b then None else Some (form_get ?fd (js ''application_id'')))"
    "map_of kvs (js ''unattributed'') = (if ub_unattributed b then Some (Some (js ''true'')) else None)" "map_of kvs (js ''cursor'') = None"
    by (simp_all add: kvs_def)
  show "form_raw ps (js ''tenant'') = (if sa then ub_tenant b else [])"
    "form_raw ps (js ''provider'') = typed (js ''provider'')" "form_raw ps (js ''model'') = typed (js ''model'')"
    "form_raw ps (js ''group_by'') = ub_dimension b" "form_raw ps (js ''environment'') = ub_environment b"
    "form_raw ps (js ''application_id'') = (if ub_unattributed b then [] else typed (js ''application_id''))"
    "form_get ps (js ''unattributed'') = (if ub_unattributed b then Some (js ''true'') else None)" "form_get ps (js ''cursor'') = None"
    using get p2 kv fd by (simp_all add: form_raw_def)
qed

section \<open>The question on the screen\<close>

text \<open>What the bar says. A time field that is empty or no time stands for the default of the page; the
  application counts only while the box is off, the tenant only for a super-admin.\<close>

definition asked_time :: "(jsstr \<Rightarrow> date) \<Rightarrow> jsstr \<Rightarrow> int \<Rightarrow> jsstr" where
  "asked_time parse txt d =
     iso_text (if txt = [] then d else case parse txt of None \<Rightarrow> d | Some t \<Rightarrow> t)"

definition logs_question :: "(jsstr \<Rightarrow> date) \<Rightarrow> bool \<Rightarrow> logs_bar \<Rightarrow> (jsstr \<Rightarrow> jsstr) \<Rightarrow> int \<Rightarrow> int \<Rightarrow> fields" where
  "logs_question parse sa b typed t0 now =
     (let field = (\<lambda>k v. when_field (v \<noteq> []) k (JStr v)); text = (\<lambda>k. field k (typed k))
      in [(js ''from'', JStr (asked_time parse (typed (js ''from'')) t0)),
          (js ''to'', JStr (asked_time parse (typed (js ''to'')) now))] @
         (if sa then text (js ''tenant'') else []) @ text (js ''group_name'') @ text (js ''api_key_id'') @
         text (js ''provider'') @ text (js ''model_requested'') @ text (js ''error_type'') @ text (js ''blocked_by'') @
         text (js ''stream'') @ text (js ''fallback'') @ text (js ''session_id'') @ text (js ''ingress_protocol'') @
         when_field (\<not> lb_unattributed b \<and> typed (js ''application_id'') \<noteq> []) (js ''application_id'')
           (JNum (js_Number (typed (js ''application_id'')))) @
         field (js ''environment'') (lb_environment b) @ when_field (lb_unattributed b) (js ''unattributed'') (JBool True))"

text \<open>The position after a move: a page of the same size, or the first page of another size.\<close>

fun moved :: "jsnum \<times> jsnum \<Rightarrow> page_move \<Rightarrow> jsnum \<times> jsnum" where
  "moved (p, z) (ToPage n) = (n, z)"
| "moved (p, z) (ToPageSize n) = (num_int 1, n)"

definition valid_move :: "page_move \<Rightarrow> bool" where
  "valid_move m \<longleftrightarrow> (\<exists>n. 1 \<le> n \<and> n \<le> 2 ^ 53 \<and> (m = ToPage (num_int n) \<or> m = ToPageSize (num_int n)))"

definition push_all :: "page_move list \<Rightarrow> form \<Rightarrow> form" where
  "push_all ms sp = foldl (\<lambda>sp m. pushParams m sp) sp ms"

definition position_of :: "form \<Rightarrow> jsnum \<times> jsnum" where
  "position_of sp = (page_number sp (js ''page'') 1, page_number sp (js ''page_size'') 20)"

lemma push_position: "valid_move m \<Longrightarrow> position_of (pushParams m sp) = moved (position_of sp) m"
  using logs_list.move_position
  by (auto simp: valid_move_def position_of_def) (simp_all add: page_number_def pushParams_def form_raw_def)

lemma push_all_position:
  "\<forall>m\<in>set ms. valid_move m \<Longrightarrow> position_of (push_all ms sp) = foldl moved (position_of sp) ms"
  by (induction ms arbitrary: sp) (simp_all add: push_all_def push_position)

lemma push_all_get:
  "k \<notin> {js ''page'', js ''page_size''} \<Longrightarrow> form_get (push_all ms sp) k = form_get sp k"
  by (induction ms arbitrary: sp) (auto simp: push_all_def pushParams_def split: page_move.splits)

lemma push_all_filters: "log_filters sa (push_all ms sp) = log_filters sa sp"
  by (rule logs_list.position_free) (rule push_all_get)

lemma iso_text_nonempty: "iso_text t \<noteq> []"
  by (simp add: iso_text_def Let_def)

lemma time_entry_logs:
  assumes "form_get fd k = Some s"
  shows "time_entry parse fd k = Inr (if s = [] then None else
     Some (case parse s of None \<Rightarrow> [] | Some t \<Rightarrow> iso_text t))"
  using assms by (auto simp: time_entry_def localDatetimeToRfc3339_def rbind_def toISOString_def split: option.splits)

lemma logs_times:
  assumes "logs_applyFilter parse pageSize u (logs_form sa b typed) = Inr ps" "k \<in> {js ''from'', js ''to''}"
  shows "time_or ps k (Some t) = Inr (asked_time parse (typed k) t)"
proof -
  let ?fd = "logs_form sa b typed"
  define v where "v k = (if typed k = [] then None else Some (case parse (typed k) of None \<Rightarrow> [] | Some t \<Rightarrow> iso_text t))" for k
  let ?entry = "\<lambda>k. (k, form_get ?fd k)"
  have fd: "form_get ?fd (js ''from'') = Some (typed (js ''from''))" "form_get ?fd (js ''to'') = Some (typed (js ''to''))"
    by (simp_all add: logs_form_def Let_def)
  note ft = time_entry_logs [OF fd(1), of parse, folded v_def] time_entry_logs [OF fd(2), of parse, folded v_def]
  define kvs where "kvs = [(js ''from'', v (js ''from'')), (js ''to'', v (js ''to'')), ?entry (js ''tenant''), ?entry (js ''group_name''),
           ?entry (js ''api_key_id''), ?entry (js ''provider''), ?entry (js ''model_requested''), ?entry (js ''error_type''),
           ?entry (js ''blocked_by''), ?entry (js ''stream''), ?entry (js ''fallback''), ?entry (js ''session_id''),
           ?entry (js ''ingress_protocol''), ?entry (js ''environment'')] @
          (if u then [(js ''unattributed'', Some (js ''true''))] else [?entry (js ''application_id'')])"
  have ps: "ps = set_all kvs [(js ''page_size'', num_repr pageSize)]"
    using assms(1) by (simp add: logs_applyFilter_def ft rbind_def kvs_def Let_def)
  have "distinct (map fst kvs)" by (simp add: kvs_def)
  note get = form_get_set_all [OF this, of "[(js ''page_size'', num_repr pageSize)]", folded ps]
  have "map_of kvs (js ''from'') = Some (v (js ''from''))" "map_of kvs (js ''to'') = Some (v (js ''to''))"
    by (simp_all add: kvs_def)
  with assms(2) have "map_of kvs k = Some (v k)" "k \<noteq> js ''page_size''" by auto
  with get [of k] have "form_get ps k = (if v k = Some [] then None else v k)" by (simp add: form_get_def split: if_splits)
  then show ?thesis
    by (cases "typed k = []"; cases "parse (typed k)")
      (simp_all add: v_def time_or_def asked_time_def toISOString_def iso_text_nonempty)
qed

lemma request_logs_sent:
  assumes "session_of pf w = Some s" "client_of pf w = Some c" "time_or sp (js ''from'') (thirtyDaysAgo now) = Inr f"
    "time_or sp (js ''to'') (Some now) = Inr t"
  shows "\<exists>rest. w_sent (snd (RequestLogsPage now sp pf w)) = w_sent w @
      mk_req c GET (js ''/api/v1/request-logs'') []
        (window_query (page_number sp (js ''page'') 1) (page_number sp (js ''page_size'') 20) f t @
         log_filters (sd_role s = Some (js ''super-admin'')) sp) None # rest \<and>
      (\<forall>q\<in>set rest. rq_path q = js ''/api/v1/providers'')"
proof -
  have err: "w_sent (snd (page_error e pf w1)) = w_sent w1" for e w1
    by (simp add: page_error_run split: jserror.splits)
  show ?thesis
    unfolding RequestLogsPage_def getSession_bnd [OF assms(1)] Let_def assms(3,4) bnd_lift_Inr page_try_run
      client_run [OF assms(2)]
    by (auto simp: bnd_apply read_json_run Let_def err mk_req_def split: fetch_outcome.splits sum.splits prod.splits)
qed

section \<open>Properties\<close>

text \<open>C35: The request log answers the question on the screen. After the filter bar is applied and after any moves
  between pages and page sizes, opening the page first asks the admin API for the request logs of exactly the filters
  that are filled in: from and to as the instants of the local times entered (the last thirty days where a field is
  empty or no time), every other field with its text, the tenant only for a super-admin, the application only while
  the box for requests without one is off. The position is the first page with the page size chosen before, then
  where the moves lead, a new page size starting at the first page. The only other request is the list of providers.\<close>

theorem logs_filter_asked:
  assumes "logs_applyFilter parse (num_int n) (lb_unattributed b) (logs_form sa b typed) = Inr ps"
    and "1 \<le> n" "n \<le> 2 ^ 53" and "\<forall>m\<in>set ms. valid_move m"
    and "session_of pf w = Some s" "sa = (sd_role s = Some (js ''super-admin''))" "client_of pf w = Some c"
    and "thirtyDaysAgo now = Some t0"
  shows "\<exists>p z rest. (p, z) = foldl moved (num_int 1, num_int n) ms \<and>
    w_sent (snd (RequestLogsPage now (push_all ms ps) pf w)) = w_sent w @
      mk_req c GET (js ''/api/v1/request-logs'') []
        ([(js ''page'', JNum p), (js ''page_size'', JNum z)] @ logs_question parse sa b typed t0 now) None # rest \<and>
    (\<forall>q\<in>set rest. rq_path q = js ''/api/v1/providers'')"
proof -
  note e = logs_entries [OF assms(1)]
  let ?sp = "push_all ms ps"
  obtain p z where pz: "(p, z) = foldl moved (num_int 1, num_int n) ms" by (metis surj_pair)
  have "position_of ps = (num_int 1, num_int n)"
    using assms(2,3) number_text_roundtrip [of n] by (simp add: position_of_def page_number_def form_raw_def e(7,8))
  with push_all_position [OF assms(4), of ps] pz have pos: "page_number ?sp (js ''page'') 1 = p"
    "page_number ?sp (js ''page_size'') 20 = z"
    unfolding position_of_def by (metis Pair_inject)+
  have "time_or ?sp k d = time_or ps k d" if "k \<in> {js ''from'', js ''to''}" for k d
    using that push_all_get [of k ms ps] by (auto simp: time_or_def)
  then have times: "time_or ?sp (js ''from'') (thirtyDaysAgo now) = Inr (asked_time parse (typed (js ''from'')) t0)"
    "time_or ?sp (js ''to'') (Some now) = Inr (asked_time parse (typed (js ''to'')) now)"
    using logs_times [OF assms(1)] assms(8) by auto
  have ne: "asked_time parse x d \<noteq> []" for x d by (simp add: asked_time_def iso_text_nonempty)
  have "window_query p z (asked_time parse (typed (js ''from'')) t0) (asked_time parse (typed (js ''to'')) now) @ log_filters sa ps =
      [(js ''page'', JNum p), (js ''page_size'', JNum z)] @ logs_question parse sa b typed t0 now"
    by (simp add: logs_question_def window_query_def ne log_filters_def when_param_def e(1-6) Let_def)
  with request_logs_sent [OF assms(5,7) times] pz show ?thesis
    unfolding pos push_all_filters assms(6) [symmetric] by (intro exI [of _ p] exI [of _ z]) simp
qed

theorem logs_filter_asked_witness:
  "\<exists>ps rest. logs_applyFilter (\<lambda>s. if s = js ''2024-05-01T00:00'' then Some 86400000 else None) (num_int 50) False
      (logs_form False \<lparr>lb_environment = js ''prod'', lb_unattributed = False\<rparr>
         (\<lambda>k. if k = js ''from'' then js ''2024-05-01T00:00'' else if k = js ''provider'' then js ''p'' else [])) = Inr ps \<and>
     w_sent (snd (RequestLogsPage 0 (pushParams (ToPage (num_int 3)) ps) sample_platform sample_world)) =
       mk_req sample_client GET (js ''/api/v1/request-logs'') []
         [(js ''page'', JNum (num_int 3)), (js ''page_size'', JNum (num_int 50)),
          (js ''from'', JStr (iso_text 86400000)), (js ''to'', JStr (iso_text 0)),
          (js ''provider'', JStr (js ''p'')), (js ''environment'', JStr (js ''prod''))] None # rest"
proof -
  let ?b = "\<lparr>lb_environment = js ''prod'', lb_unattributed = False\<rparr>"
  let ?t = "\<lambda>k. if k = js ''from'' then js ''2024-05-01T00:00'' else if k = js ''provider'' then js ''p'' else []"
  let ?parse = "\<lambda>s. if s = js ''2024-05-01T00:00'' then Some 86400000 else None"
  have fd: "form_get (logs_form False ?b ?t) (js ''from'') = Some (js ''2024-05-01T00:00'')"
    "form_get (logs_form False ?b ?t) (js ''to'') = Some []"
    by (simp_all add: logs_form_def Let_def)
  obtain ps where run: "logs_applyFilter ?parse (num_int 50) (lb_unattributed ?b) (logs_form False ?b ?t) = Inr ps"
    by (simp add: logs_applyFilter_def time_entry_logs [OF fd(1)] time_entry_logs [OF fd(2)] rbind_def Let_def)
  have "valid_move (ToPage (num_int 3))" unfolding valid_move_def by (rule exI [of _ 3]) simp
  then have ms: "\<forall>m\<in>set [ToPage (num_int 3)]. valid_move m" by simp
  have sa: "False = (sd_role (empty_session\<lparr>sd_token := Some (js ''tok'')\<rparr>) = Some (js ''super-admin''))"
    by (simp add: empty_session_def)
  have t0: "thirtyDaysAgo 0 = Some (- 2592000000)" by (simp add: thirtyDaysAgo_def TimeClip_def max_time_def)
  have "logs_question ?parse False ?b ?t (- 2592000000) 0 = [(js ''from'', JStr (iso_text 86400000)), (js ''to'', JStr (iso_text 0)),
          (js ''provider'', JStr (js ''p'')), (js ''environment'', JStr (js ''prod''))]"
    by (simp add: logs_question_def asked_time_def Let_def)
  with logs_filter_asked [OF run _ _ ms sample_session sa sample_client_of t0] run
  show ?thesis by (auto simp: push_all_def sample_world_def)
qed

end
