(* ===== verification/Web_Tables.thy ===== *)
theory Web_Tables
  imports Web_Form
begin

text \<open>
  The destructive actions of the tables of the Control Panel: a row is chosen, a dialog asks
  (\<^verbatim>\<open>components/modal.tsx\<close>, \<^verbatim>\<open>ConfirmModal\<close>), and the Server Action runs. The tables of providers, routes,
  plugins, operators, groups, applications, tenants and API keys, and the two pages of models, have the same three
  state variables and the same handler, so there is one model with the action of the table as its argument; it keeps
  the answer of the action under way, because the dialog can be closed and opened again before it arrives.
\<close>

section \<open>The dialog of a table\<close>

text \<open>\<open>cu_flight\<close> is the row and the answer that has not been delivered yet. \<open>cu_failed\<close> is not a variable of the
  program: it names the row whose action gave the error, for the statements below.\<close>

record 'r confirm_ui =
  cu_target :: "'r option"
  cu_loading :: bool
  cu_error :: "jsstr option"
  cu_flight :: "('r \<times> form_result) option"
  cu_failed :: "'r option"

definition confirm_init :: "'r confirm_ui" where
  "confirm_init = \<lparr>cu_target = None, cu_loading = False, cu_error = None, cu_flight = None, cu_failed = None\<rparr>"

text \<open>The button of a row. All tables but the models page also clear the error (\<open>clears\<close>).\<close>

definition confirm_open :: "bool \<Rightarrow> 'r \<Rightarrow> 'r confirm_ui \<Rightarrow> 'r confirm_ui" where
  "confirm_open clears r ui =
     (if clears then ui\<lparr>cu_target := Some r, cu_error := None\<rparr> else ui\<lparr>cu_target := Some r\<rparr>)"

definition confirm_cancel :: "'r confirm_ui \<Rightarrow> 'r confirm_ui" where
  "confirm_cancel ui = ui\<lparr>cu_target := None\<rparr>"

text \<open>\<^verbatim>\<open>confirmDelete\<close>, \<^verbatim>\<open>confirmDisable\<close>, \<^verbatim>\<open>confirmRevoke\<close> up to the \<^verbatim>\<open>await\<close>: the button is disabled while
  loading. An action that throws leaves the table loading.\<close>

definition confirm_start :: "('r \<Rightarrow> form_result act) \<Rightarrow> platform \<Rightarrow> 'r confirm_ui \<Rightarrow> world \<Rightarrow> 'r confirm_ui \<times> world" where
  "confirm_start act pf ui w =
     (if cu_loading ui then (ui, w)
      else case cu_target ui of
        None \<Rightarrow> (ui, w)
      | Some r \<Rightarrow>
          (let ui1 = ui\<lparr>cu_loading := True, cu_error := None\<rparr> in
           case act r pf w of
             (Inl e, w') \<Rightarrow> (ui1, w')
           | (Inr res, w') \<Rightarrow> (ui1\<lparr>cu_flight := Some (r, res)\<rparr>, w')))"

text \<open>The rest of the handler, when the answer arrives.\<close>

definition confirm_settle :: "'r confirm_ui \<Rightarrow> 'r confirm_ui \<times> ui_effect list" where
  "confirm_settle ui =
     (case cu_flight ui of
        None \<Rightarrow> (ui, [])
      | Some (r, FormOk) \<Rightarrow> (ui\<lparr>cu_target := None, cu_loading := False, cu_flight := None\<rparr>, [RouterRefresh])
      | Some (r, FormErr m k) \<Rightarrow>
          (ui\<lparr>cu_error := Some m, cu_failed := Some r, cu_loading := False, cu_flight := None\<rparr>, []))"

text \<open>A handler is the code before its \<^verbatim>\<open>await\<close>, which calls the Server Action, and the code after it, which runs
  when the answer arrives; anything may happen between the two.\<close>

type_synonym 'r handler =
  "(platform \<Rightarrow> 'r confirm_ui \<Rightarrow> world \<Rightarrow> 'r confirm_ui \<times> world) \<times> ('r confirm_ui \<Rightarrow> 'r confirm_ui \<times> ui_effect list)"

definition confirm_handler :: "('r \<Rightarrow> form_result act) \<Rightarrow> 'r handler" where
  "confirm_handler act = (confirm_start act, confirm_settle)"

text \<open>Runs of a table. The dialog covers the page, so with the pointer a row can be chosen only while none is; \<open>calm\<close> runs do not
  close the dialog while an action is under way. Meanwhile the rest of the panel may send requests of its own.\<close>

inductive confirm_run :: "bool \<Rightarrow> bool \<Rightarrow> 'r handler \<Rightarrow> platform \<Rightarrow> 'r confirm_ui \<Rightarrow> world \<Rightarrow> bool"
  for clears calm h pf where
  cr_init: "confirm_run clears calm h pf confirm_init w"
| cr_open: "confirm_run clears calm h pf ui w \<Longrightarrow> cu_target ui = None \<Longrightarrow>
    confirm_run clears calm h pf (confirm_open clears r ui) w"
| cr_cancel: "confirm_run clears calm h pf ui w \<Longrightarrow> \<not> (calm \<and> cu_loading ui) \<Longrightarrow>
    confirm_run clears calm h pf (confirm_cancel ui) w"
| cr_start: "confirm_run clears calm h pf ui w \<Longrightarrow> fst h pf ui w = (ui', w') \<Longrightarrow>
    confirm_run clears calm h pf ui' w'"
| cr_settle: "confirm_run clears calm h pf ui w \<Longrightarrow> snd h ui = (ui', es) \<Longrightarrow>
    confirm_run clears calm h pf ui' w"
| cr_other: "confirm_run clears calm h pf ui w \<Longrightarrow> prefix (w_sent w) (w_sent w') \<Longrightarrow>
    confirm_run clears calm h pf ui w'"

section \<open>The tables\<close>

text \<open>\<^verbatim>\<open>String(row.name ?? "")\<close>\<close>

definition row_text :: "json \<Rightarrow> jsstr \<Rightarrow> jsstr" where
  "row_text row k = json_String (coalesce (opt_prop (Some row) k) (JStr []))"

definition providers_delete :: "json \<Rightarrow> form_result act" where
  "providers_delete row = deleteProvider (row_text row (js ''name''))"

definition groups_delete :: "json \<Rightarrow> form_result act" where
  "groups_delete row = deleteGroup (row_text row (js ''name''))"

definition groups_disable :: "json \<Rightarrow> form_result act" where
  "groups_disable row = setGroupEnabled (row_text row (js ''name'')) False"

definition applications_delete :: "json \<Rightarrow> form_result act" where
  "applications_delete row = deleteApplication (row_text row (js ''name''))"

definition applications_disable :: "json \<Rightarrow> form_result act" where
  "applications_disable row = setApplicationEnabled (row_text row (js ''name'')) False"

definition tenants_disable :: "json \<Rightarrow> form_result act" where
  "tenants_disable row = setTenantEnabled (row_text row (js ''name'')) False"

definition keys_revoke :: "json \<Rightarrow> form_result act" where
  "keys_revoke row = revokeAPIKey (row_text row (js ''key_id''))"

text \<open>The rows of the other tables have a declared type: the alias of a route or a model, the name and the optional
  scope of a plugin, the identifier of an operator.\<close>

definition plugins_delete :: "jsstr \<times> jsstr option \<Rightarrow> form_result act" where
  "plugins_delete row = deletePlugin (fst row) (case snd row of None \<Rightarrow> [] | Some s \<Rightarrow> s)"

record OperatorRow =
  op_id :: jsnum
  op_email :: jsstr
  op_role :: jsstr
  op_tenant_id :: "jsnum option"

definition operators_delete :: "OperatorRow \<Rightarrow> form_result act" where
  "operators_delete row = deleteOperator (op_id row)"

text \<open>The delete button of the last super-admin is not rendered.\<close>

definition operators_deletable :: "OperatorRow list \<Rightarrow> OperatorRow \<Rightarrow> bool" where
  "operators_deletable rows row \<longleftrightarrow>
     \<not> (op_role row = js ''super-admin'' \<and> length (filter (\<lambda>r. op_role r = js ''super-admin'') rows) \<le> 1)"

text \<open>\<^verbatim>\<open>enable(row)\<close> of the groups, applications and tenants: the result of the action is dropped, and the list is
  reloaded in any case. \<open>None\<close> is an action that throws, which leaves the button disabled.\<close>

definition enable_row :: "form_result act \<Rightarrow> platform \<Rightarrow> world \<Rightarrow> ui_effect list option \<times> world" where
  "enable_row action pf w =
     (case action pf w of (Inl e, w') \<Rightarrow> (None, w') | (Inr res, w') \<Rightarrow> (Some [RouterRefresh], w'))"

text \<open>\<^verbatim>\<open>runTest\<close> of the providers table: the toast of a connectivity test of a saved provider.\<close>

datatype test_toast = TestSuccessToast jsval | TestErrorToast jsstr

definition runTest :: "jsstr \<Rightarrow> platform \<Rightarrow> world \<Rightarrow> test_toast option \<times> world" where
  "runTest name pf w =
     (case testProvider name pf w of
        (Inl e, w') \<Rightarrow> (None, w')
      | (Inr (TestOk latency status), w') \<Rightarrow> (Some (TestSuccessToast latency), w')
      | (Inr (TestFail err key), w') \<Rightarrow>
          (Some (TestErrorToast (case key of Some k \<Rightarrow> if k \<noteq> [] then pf_translate pf (js ''errors'') k else json_String err
             | None \<Rightarrow> json_String err)), w'))"

section \<open>Contract\<close>

text \<open>A table whose action is one of the write actions. Confirming runs the action of the row in the dialog, and
  nothing else; an answer under way is that of a run of the action of its row, and its requests are in the history.\<close>

lemma confirm_start_world:
  "snd (confirm_start act pf ui w) =
     (if cu_loading ui then w else case cu_target ui of None \<Rightarrow> w | Some r \<Rightarrow> snd (act r pf w))"
  by (auto simp: confirm_start_def Let_def split: option.splits prod.splits sum.splits)

definition run_of :: "('r \<Rightarrow> form_result act) \<Rightarrow> platform \<Rightarrow> world \<Rightarrow> 'r \<Rightarrow> form_result \<Rightarrow> world \<Rightarrow> world \<Rightarrow> bool" where
  "run_of act pf w r res w0 w1 \<longleftrightarrow> act r pf w0 = (Inr res, w1) \<and> prefix (w_sent w1) (w_sent w)"

locale confirm_table =
  fixes act :: "'r \<Rightarrow> form_result act" and paths :: "(jsstr \<times> jsstr option) list"
  assumes contract: "admin_write (act r) is_ok paths"
begin

lemma run_extends:
  assumes "act r pf w = (res, w')"
  shows "prefix (w_sent w) (w_sent w')"
proof -
  have pa: "panel_action (act r) is_ok paths" using contract by (simp add: admin_write_def atomic_action_def)
  show ?thesis by (rule panel_action.sent_prefix [OF pa assms])
qed

lemma start_extends: "fst (confirm_handler act) pf ui w = (ui', w') \<Longrightarrow> prefix (w_sent w) (w_sent w')"
  using run_extends
  by (auto simp: confirm_handler_def confirm_start_def Let_def split: if_splits option.splits prod.splits sum.splits)

lemma flight_run:
  assumes "confirm_run clears calm (confirm_handler act) pf ui w" "cu_flight ui = Some (r, res)"
  shows "\<exists>w0 w1. run_of act pf w r res w0 w1"
  using assms
proof (induction rule: confirm_run.induct)
  case (cr_start ui w ui' w')
  show ?case
  proof (cases "cu_flight ui' = cu_flight ui")
    case True
    with cr_start.IH cr_start.prems start_extends [OF cr_start.hyps(2)] show ?thesis
      unfolding run_of_def using prefix_order.trans by metis
  next
    case False
    with cr_start.hyps(2) cr_start.prems have "act r pf w = (Inr res, w')"
      by (auto simp: confirm_handler_def confirm_start_def Let_def split: if_splits option.splits prod.splits sum.splits)
    then show ?thesis unfolding run_of_def by (intro exI [of _ w] exI [of _ w']) simp
  qed
next
  case (cr_settle ui w ui' es)
  then have "cu_flight ui' = cu_flight ui"
    by (auto simp: confirm_handler_def confirm_settle_def split: option.splits prod.splits form_result.splits)
  with cr_settle show ?case by simp
next
  case (cr_other ui w w')
  then show ?case unfolding run_of_def using prefix_order.trans by metis
qed (simp_all add: confirm_init_def confirm_open_def confirm_cancel_def split: if_splits)

lemma run_accepted:
  assumes "act r pf w0 = (Inr FormOk, w1)"
  shows "(\<exists>rs. w_sent w1 = w_sent w0 @ rs \<and> all_accepted pf (w_sent w0) rs) \<and> w_revalidated w1 = w_revalidated w0 @ paths"
proof -
  have pa: "panel_action (act r) is_ok paths" using contract by (simp add: admin_write_def atomic_action_def)
  obtain rs where "w_sent w1 = w_sent w0 @ rs" using panel_action.sends [OF pa assms] by blast
  then show ?thesis using admin_write.accepts [OF contract assms] panel_action.marks_ok [OF pa assms] by auto
qed

lemma run_refused:
  assumes "act r pf w0 = (Inr (FormErr m k), w1)"
  shows "w_revalidated w1 = w_revalidated w0"
proof -
  have at: "atomic_action (act r) is_ok paths" using contract by (simp add: admin_write_def)
  from atomic_action.silent [OF at assms] show ?thesis by simp
qed

text \<open>What the answer does to the dialog, and what it stands for.\<close>

lemma settle_told:
  assumes "confirm_run clears calm (confirm_handler act) pf ui w" and "confirm_settle ui = (ui', es)"
  shows "case cu_flight ui of
      None \<Rightarrow> ui' = ui \<and> es = []
    | Some (r, res) \<Rightarrow> \<not> cu_loading ui' \<and> (\<exists>w0 w1. run_of act pf w r res w0 w1 \<and>
        (case res of
           FormOk \<Rightarrow> es = [RouterRefresh] \<and> cu_target ui' = None \<and> w_revalidated w1 = w_revalidated w0 @ paths \<and>
             (\<exists>rs. w_sent w1 = w_sent w0 @ rs \<and> all_accepted pf (w_sent w0) rs)
         | FormErr m k \<Rightarrow> es = [] \<and> cu_target ui' = cu_target ui \<and> cu_error ui' = Some m \<and>
             w_revalidated w1 = w_revalidated w0))"
proof (cases "cu_flight ui")
  case None
  with assms(2) show ?thesis by (simp add: confirm_settle_def)
next
  case (Some f)
  obtain r res where f: "f = (r, res)" by (cases f)
  from flight_run [OF assms(1)] Some f obtain w0 w1 where run: "run_of act pf w r res w0 w1" by blast
  then have act: "act r pf w0 = (Inr res, w1)" by (simp add: run_of_def)
  show ?thesis
  proof (cases res)
    case FormOk
    have settled: "ui' = ui\<lparr>cu_target := None, cu_loading := False, cu_flight := None\<rparr>" "es = [RouterRefresh]"
      using assms(2) Some f FormOk by (simp_all add: confirm_settle_def)
    from run_accepted [of r pf w0 w1] act FormOk have
      "w_revalidated w1 = w_revalidated w0 @ paths \<and> (\<exists>rs. w_sent w1 = w_sent w0 @ rs \<and> all_accepted pf (w_sent w0) rs)" by simp
    with run settled Some f FormOk show ?thesis by (simp, intro exI [of _ w0] exI [of _ w1]) simp
  next
    case (FormErr m k)
    have settled: "ui' = ui\<lparr>cu_error := Some m, cu_failed := Some r, cu_loading := False, cu_flight := None\<rparr>" "es = []"
      using assms(2) Some f FormErr by (simp_all add: confirm_settle_def)
    from run_refused [of r pf w0 m k w1] act FormErr have "w_revalidated w1 = w_revalidated w0" by simp
    with run settled Some f FormErr show ?thesis by (simp, intro exI [of _ w0] exI [of _ w1]) simp
  qed
qed

end

lemma confirm_tableI: "(\<And>r. admin_write (act r) is_ok paths) \<Longrightarrow> confirm_table act paths"
  by (rule confirm_table.intro)

interpretation providers_dialog: confirm_table providers_delete "[(js ''/providers'', None)]"
  by (rule confirm_tableI) (simp only: providers_delete_def deleteProvider.admin_write_axioms)

interpretation groups_dialog: confirm_table groups_delete "[(js ''/groups'', None)]"
  by (rule confirm_tableI) (simp only: groups_delete_def deleteGroup.admin_write_axioms)

interpretation groups_disable_dialog: confirm_table groups_disable "[(js ''/groups'', None)]"
  by (rule confirm_tableI) (simp only: groups_disable_def setGroupEnabled.admin_write_axioms)

interpretation applications_dialog: confirm_table applications_delete "[(js ''/applications'', None)]"
  by (rule confirm_tableI) (simp only: applications_delete_def deleteApplication.admin_write_axioms)

interpretation applications_disable_dialog: confirm_table applications_disable "[(js ''/applications'', None)]"
  by (rule confirm_tableI) (simp only: applications_disable_def setApplicationEnabled.admin_write_axioms)

interpretation tenants_dialog: confirm_table tenants_disable "[(js ''/tenants'', None)]"
  by (rule confirm_tableI) (simp only: tenants_disable_def setTenantEnabled.admin_write_axioms)

interpretation keys_dialog: confirm_table keys_revoke "[(js ''/api-keys'', None)]"
  by (rule confirm_tableI) (simp only: keys_revoke_def revokeAPIKey.admin_write_axioms)

interpretation plugins_dialog: confirm_table plugins_delete "[(js ''/plugins'', None)]"
  by (rule confirm_tableI) (simp only: plugins_delete_def deletePlugin.admin_write_axioms)

interpretation operators_dialog: confirm_table operators_delete "[(js ''/operators'', None)]"
  by (rule confirm_tableI) (simp only: operators_delete_def deleteOperator.admin_write_axioms)

interpretation routes_dialog: confirm_table deleteRoute "[(js ''/routes'', None)]"
  by (rule confirm_tableI) (rule deleteRoute.admin_write_axioms)

interpretation models_dialog: confirm_table deleteModel "[(js ''/models'', None)]"
  by (rule confirm_tableI) (rule deleteModel.admin_write_axioms)

section \<open>Lemmas\<close>




text \<open>The list page has no delete button for the only super-admin of the rows.\<close>

lemma last_super_admin_kept:
  assumes "filter (\<lambda>r. op_role r = js ''super-admin'') rows = [row]"
  shows "\<not> operators_deletable rows row"
proof -
  have "row \<in> set (filter (\<lambda>r. op_role r = js ''super-admin'') rows)" unfolding assms by simp
  then have "op_role row = js ''super-admin''" by simp
  then show ?thesis by (simp add: operators_deletable_def assms)
qed

text \<open>Enabling a row: whether the admin API refused the change cannot be seen.\<close>

lemma enable_outcome_hidden:
  assumes "act1 pf w = (Inr FormOk, w1)" and "act2 pf w = (Inr (FormErr m k), w2)"
  shows "fst (enable_row act1 pf w) = fst (enable_row act2 pf w)"
  using assms by (simp add: enable_row_def)

section \<open>Properties\<close>



text \<open>The models page keeps an old error. It does not clear the error when a model is chosen, so after a refused
  deletion was cancelled, the dialog of any other model opens with the refusal of the first, although nothing was
  asked for it; the other tables open with no error.\<close>

theorem models_stale_error:
  assumes "deleteModel m1 pf w = (Inr (FormErr msg k), w1)"
    and "ui = fst (confirm_settle (fst (confirm_start deleteModel pf (confirm_open False m1 confirm_init) w)))"
  shows "cu_target (confirm_open False m2 (confirm_cancel ui)) = Some m2 \<and>
    cu_error (confirm_open False m2 (confirm_cancel ui)) = Some msg \<and>
    cu_error (confirm_open True m2 (confirm_cancel ui)) = None"
  using assms by (simp add: confirm_start_def confirm_settle_def confirm_open_def confirm_cancel_def confirm_init_def Let_def)

theorem models_stale_error_witness:
  "\<exists>ui. cu_target (confirm_open False (js ''m2'') ui) = Some (js ''m2'') \<and>
     cu_error (confirm_open False (js ''m2'') ui) = Some (js ''in use'')"
proof -
  define pf where "pf = sample_platform\<lparr>pf_fetch := \<lambda>_. FetchResult \<lparr>fr_data = None,
    fr_error = Some (JObj [(js ''error'', JObj [(js ''message'', JStr (js ''in use''))])]), fr_status = 409\<rparr>\<rparr>"
  have "client_of pf sample_world = Some sample_client" by (simp add: pf_def)
  moreover have "mapBackendError (js ''in use'') = \<lparr>me_key = None, me_fallback = js ''in use''\<rparr>"
    by (simp add: mapBackendError_def js_def)
  ultimately have "\<exists>w1. deleteModel (js ''m1'') pf sample_world = (Inr (FormErr (js ''in use'') None), w1)"
    unfolding deleteModel_def
    by (simp add: guarded_send_run after_call_def pf_def refused_def envelope_def mapped_result_def)
  then obtain w1 where "deleteModel (js ''m1'') pf sample_world = (Inr (FormErr (js ''in use'') None), w1)" ..
  from models_stale_error [OF this refl, of "js ''m2''"] show ?thesis by blast
qed

text \<open>An answer that arrives after its dialog was closed is delivered to whatever dialog is open then: a success
  closes the dialog of another row without doing anything for it, and a refusal is shown there as its error.\<close>

theorem late_delete_answer:
  assumes "\<not> cu_loading ui" and "cu_target ui = Some r1" and "act r1 pf w = (Inr res, w1)"
    and "confirm_start act pf ui w = (ui1, w')" and "ui2 = confirm_open clears r2 (confirm_cancel ui1)"
  shows "w' = w1 \<and> cu_target ui2 = Some r2 \<and>
    (res = FormOk \<longrightarrow> cu_target (fst (confirm_settle ui2)) = None) \<and>
    (\<forall>m k. res = FormErr m k \<longrightarrow> cu_target (fst (confirm_settle ui2)) = Some r2 \<and> cu_error (fst (confirm_settle ui2)) = Some m)"
  using assms by (cases res) (auto simp: confirm_start_def confirm_settle_def confirm_open_def confirm_cancel_def Let_def)

theorem late_delete_answer_witness:
  "cu_target (fst (confirm_settle (confirm_open True (js ''b'') (confirm_cancel
     (fst (confirm_start (\<lambda>r. ret FormOk) sample_platform (confirm_open True (js ''a'') confirm_init) sample_world)))))) = None"
proof -
  let ?ui = "confirm_open True (js ''a'') confirm_init"
  obtain ui1 w' where s: "confirm_start (\<lambda>r. ret FormOk) sample_platform ?ui sample_world = (ui1, w')" by fastforce
  have "\<not> cu_loading ?ui" "cu_target ?ui = Some (js ''a'')" by (simp_all add: confirm_open_def confirm_init_def)
  from late_delete_answer [OF this ret_apply s refl] s show ?thesis by simp
qed

end
