(* ===== verification/Web_History.thy ===== *)
theory Web_History
  imports Web_Form
begin

text \<open>
  The page of configuration snapshots (\<^verbatim>\<open>config/history/client.tsx\<close>) with the Server Actions it calls: the
  difference of a version to the one shown as current, the preview of a version as a candidate, and the rollback with
  its confirmation.
\<close>

section \<open>Rows\<close>

text \<open>Only the version of a row takes part; \<open>latestVersion\<close> is that of the first row of the page.\<close>

definition latestVersion :: "jsnum list \<Rightarrow> jsnum option" where
  "latestVersion rows = (case rows of [] \<Rightarrow> None | v # vs \<Rightarrow> Some v)"

text \<open>\<^verbatim>\<open>latestVersion === row.version\<close>, where a version is a number of the answer and never \<^verbatim>\<open>NaN\<close>: the row has the label of the current version and no rollback button.\<close>

definition isLatest :: "jsnum list \<Rightarrow> jsnum \<Rightarrow> bool" where
  "isLatest rows v \<longleftrightarrow> (case latestVersion rows of None \<Rightarrow> False | Some l \<Rightarrow> l = v)"

datatype diff_state = DiffIdle | DiffLoaded "json list" "json list" | DiffError jsstr

datatype preview_state = PreviewIdle | PreviewLoaded jsval | PreviewError jsstr

text \<open>\<^verbatim>\<open>...(v ?? [])\<close> for a value declared as a list: what is no list throws.\<close>

fun spread :: "jsval \<Rightarrow> json list res" where
  "spread None = Inr []"
| "spread (Some JNull) = Inr []"
| "spread (Some (JArr xs)) = Inr xs"
| "spread (Some v) = Inl TypeError"

text \<open>The four lists of a kind of change, one after the other.\<close>

definition spread_kinds :: "(jsstr \<Rightarrow> jsval res) \<Rightarrow> jsstr \<Rightarrow> json list res" where
  "spread_kinds field kind =
     rbind (rmap (\<lambda>k. rbind (field (kind @ k)) spread) [js ''_providers'', js ''_models'', js ''_routes'', js ''_plugins''])
       (\<lambda>xss. Inr (concat xss))"

definition viewDiff :: "jsnum list \<Rightarrow> jsnum \<Rightarrow> platform \<Rightarrow> world \<Rightarrow> diff_state \<times> world" where
  "viewDiff rows v pf w =
     (case latestVersion rows of
        None \<Rightarrow> (DiffLoaded [] [], w)
      | Some latest \<Rightarrow>
          if latest = v then (DiffLoaded [] [], w)
          else case diffAction v latest pf w of
            (Inl e, w') \<Rightarrow> (DiffError (pf_translate pf (js ''config-history'') (js ''diff.error'')), w')
          | (Inr data, w') \<Rightarrow>
              (case rbind (spread_kinds (get_prop data) (js ''added'')) (\<lambda>added.
                    rbind (spread_kinds (get_prop data) (js ''deleted'')) (\<lambda>removed. Inr (added, removed))) of
                 Inl e \<Rightarrow> (DiffError (pf_translate pf (js ''config-history'') (js ''diff.error'')), w')
               | Inr (added, removed) \<Rightarrow> (DiffLoaded added removed, w')))"



text \<open>What the preview shows of a result: the two lists of names.\<close>

definition PreviewView_names :: "jsval \<Rightarrow> (json list \<times> json list) res" where
  "PreviewView_names result =
     rbind (get_prop result (js ''diff'')) (\<lambda>d.
     let field = (\<lambda>k. Inr (opt_prop d k)) in
     rbind (spread_kinds field (js ''added'')) (\<lambda>added. rbind (spread_kinds field (js ''removed'')) (\<lambda>removed.
     Inr (added, removed))))"

section \<open>Rollback\<close>

text \<open>The rows of the page are its props: a rollback marks the page stale, and the rows that the server renders then
  arrive with the end of the transition, until which the buttons are disabled (\<open>hu_pending\<close>).\<close>

record history_ui =
  hu_rows :: "jsnum list"
  hu_confirm :: "jsnum option"
  hu_pending :: bool


text \<open>The rollback button of a row, rendered for all rows but the first version.\<close>

definition onRollback :: "jsnum \<Rightarrow> history_ui \<Rightarrow> history_ui option" where
  "onRollback v ui =
     (if v \<in> set (hu_rows ui) \<and> \<not> isLatest (hu_rows ui) v \<and> \<not> hu_pending ui then Some (ui\<lparr>hu_confirm := Some v\<rparr>) else None)"


text \<open>The address of the next page.\<close>

definition history_loadMore :: "jsstr \<Rightarrow> form" where
  "history_loadMore nextCursor = (if nextCursor \<noteq> [] then [(js ''cursor'', nextCursor)] else [])"


section \<open>Lemmas\<close>








text \<open>The other handlers never ask for a rollback.\<close>

definition is_rollback :: "areq \<Rightarrow> bool" where
  "is_rollback q \<longleftrightarrow> rq_path q = js ''/api/v1/config/rollback''"

lemma is_rollback_mk [simp]: "is_rollback (mk_req c m path params query body) \<longleftrightarrow> path = js ''/api/v1/config/rollback''"
  by (simp add: is_rollback_def mk_req_def)







text \<open>The first row of every page counts as the current version. Whatever page of the history is shown, its
  first row is labelled current, cannot be rolled back to, and its difference is reported as empty without asking the
  admin API; on a later page that row is an old version.\<close>

lemma history_first_row:
  "hu_rows ui = v # rows \<Longrightarrow>
     isLatest (hu_rows ui) v \<and> onRollback v ui = None \<and> viewDiff (hu_rows ui) v pf w = (DiffLoaded [] [], w)"
  by (simp add: isLatest_def latestVersion_def onRollback_def viewDiff_def)

section \<open>Properties\<close>



end
