(* ===== verification/Web_Config.thy ===== *)
theory Web_Config
  imports Web_Form
begin

text \<open>
  The forms of the Control Panel with rows of inputs: models (\<^verbatim>\<open>models/create-form.tsx\<close>,
  \<^verbatim>\<open>models/upstream-row.tsx\<close>) and routes (\<^verbatim>\<open>routes/route-form.tsx\<close>, \<^verbatim>\<open>routes/route-provider-row.tsx\<close>), and the
  plugin form (\<^verbatim>\<open>plugins/plugin-form.tsx\<close>), composed with their Server Actions. Both row forms keep the rows and
  the providers chosen in them as two parallel arrays; the locale \<open>row_store\<close> states what a form wants, rows that
  own their provider, and the two arrays implement it.
\<close>

section \<open>Rows with a provider\<close>

text \<open>\<^verbatim>\<open>rows\<close> with their keys (from \<^verbatim>\<open>crypto.randomUUID\<close>) and \<^verbatim>\<open>providerValues\<close>; \<open>'d\<close> is what else a row has.\<close>

record 'd keyed_rows =
  kr_rows :: "(jsstr \<times> 'd) list"
  kr_providers :: "jsstr list"

definition keyed_add :: "jsstr \<Rightarrow> 'd \<Rightarrow> 'd keyed_rows \<Rightarrow> 'd keyed_rows" where
  "keyed_add key d u = u\<lparr>kr_rows := kr_rows u @ [(key, d)], kr_providers := kr_providers u @ [[]]\<rparr>"

text \<open>\<^verbatim>\<open>findIndex\<close>, \<open>None\<close> for \<open>-1\<close>.\<close>

fun row_index :: "('a \<Rightarrow> bool) \<Rightarrow> 'a list \<Rightarrow> nat option" where
  "row_index P [] = None"
| "row_index P (x # xs) = (if P x then Some 0 else map_option Suc (row_index P xs))"

definition drop_index :: "nat \<Rightarrow> 'a list \<Rightarrow> 'a list" where
  "drop_index i xs = map snd (filter (\<lambda>(idx, _). idx \<noteq> i) (enumerate 0 xs))"

definition keyed_remove :: "jsstr \<Rightarrow> 'd keyed_rows \<Rightarrow> 'd keyed_rows" where
  "keyed_remove key u =
     (case row_index (\<lambda>r. fst r = key) (kr_rows u) of
        None \<Rightarrow> u
      | Some i \<Rightarrow> u\<lparr>kr_rows := filter (\<lambda>r. fst r \<noteq> key) (kr_rows u), kr_providers := drop_index i (kr_providers u)\<rparr>)"

definition keyed_choose :: "nat \<Rightarrow> jsstr \<Rightarrow> 'd keyed_rows \<Rightarrow> 'd keyed_rows" where
  "keyed_choose index v u =
     u\<lparr>kr_providers := map (\<lambda>(idx, x). if idx = index then v else x) (enumerate 0 (kr_providers u))\<rparr>"

text \<open>What is rendered: each row with \<^verbatim>\<open>providerValues[index] ?? ""\<close>.\<close>

definition keyed_view :: "'d keyed_rows \<Rightarrow> (jsstr \<times> 'd \<times> jsstr) list" where
  "keyed_view u = map (\<lambda>(i, k, d). (k, d, case str_at (kr_providers u) i of None \<Rightarrow> [] | Some p \<Rightarrow> p))
     (enumerate 0 (kr_rows u))"

definition keyed_wf :: "'d keyed_rows \<Rightarrow> bool" where
  "keyed_wf u \<longleftrightarrow> length (kr_providers u) = length (kr_rows u) \<and> distinct (map fst (kr_rows u))"

text \<open>What a form wants of its rows: a list of rows that own their provider.\<close>

locale row_store =
  fixes wf :: "'s \<Rightarrow> bool" and view :: "'s \<Rightarrow> (jsstr \<times> 'd \<times> jsstr) list"
    and add :: "jsstr \<Rightarrow> 'd \<Rightarrow> 's \<Rightarrow> 's" and remove :: "jsstr \<Rightarrow> 's \<Rightarrow> 's" and pick :: "nat \<Rightarrow> jsstr \<Rightarrow> 's \<Rightarrow> 's"
  assumes distinct_keys: "wf s \<Longrightarrow> distinct (map fst (view s))"
    and add_law: "wf s \<Longrightarrow> k \<notin> fst ` set (view s) \<Longrightarrow> wf (add k d s) \<and> view (add k d s) = view s @ [(k, d, [])]"
    and remove_law: "wf s \<Longrightarrow> wf (remove k s) \<and> view (remove k s) = filter (\<lambda>r. fst r \<noteq> k) (view s)"
    and pick_law: "wf s \<Longrightarrow> wf (pick i v s) \<and>
      view (pick i v s) = map (\<lambda>(j, k, d, p). (k, d, if j = i then v else p)) (enumerate 0 (view s))"
begin

text \<open>Removing a row leaves every other row with its data and its provider.\<close>

lemma remove_keeps_others:
  assumes "wf s" and "(k, d, p) \<in> set (view s)" and "k' \<noteq> k"
  shows "(k, d, p) \<in> set (view (remove k' s)) \<and> k' \<notin> fst ` set (view (remove k' s))"
  using remove_law [OF assms(1), of k'] assms(2,3) by auto

text \<open>Adding a row and removing it again changes nothing.\<close>

lemma add_remove:
  assumes "wf s" and "k \<notin> fst ` set (view s)"
  shows "view (remove k (add k d s)) = view s"
proof -
  have "wf (add k d s)" "view (add k d s) = view s @ [(k, d, [])]" using add_law [OF assms] by auto
  moreover have "filter (\<lambda>r. fst r \<noteq> k) (view s) = view s" using assms(2) by (auto simp: filter_id_conv)
  ultimately show ?thesis using remove_law by simp
qed

end

subsection \<open>The arrays implement the rows\<close>

lemma view_zip:
  assumes "length (kr_providers u) = length (kr_rows u)"
  shows "keyed_view u = map2 (\<lambda>(k, d) p. (k, d, p)) (kr_rows u) (kr_providers u)"
  using assms by (intro nth_equalityI) (auto simp: keyed_view_def str_at_def nth_enumerate_eq split: prod.splits)

lemma view_keys: "map fst (keyed_view u) = map fst (kr_rows u)"
  by (rule nth_equalityI) (auto simp: keyed_view_def nth_enumerate_eq split: prod.splits)

lemma drop_index_Cons_0: "drop_index 0 (x # xs) = xs"
proof -
  have "filter (\<lambda>(idx, _). idx \<noteq> 0) (enumerate (Suc 0) xs) = enumerate (Suc 0) xs"
    by (auto simp: filter_id_conv in_set_enumerate_eq)
  then show ?thesis by (simp add: drop_index_def)
qed

lemma drop_index_Suc: "drop_index (Suc i) (x # xs) = x # drop_index i xs"
proof -
  have "filter (\<lambda>(idx, _). idx \<noteq> Suc i) (enumerate (Suc 0) xs) =
      map (\<lambda>(n, y). (Suc n, y)) (filter (\<lambda>(idx, _). idx \<noteq> i) (enumerate 0 xs))"
    by (simp add: enumerate_Suc_eq filter_map comp_def split_def)
  then show ?thesis by (simp add: drop_index_def comp_def split_def)
qed

lemma remove_parallel:
  assumes "length ps = length rows" "distinct (map fst rows)" "row_index (\<lambda>r. fst r = key) rows = Some i"
  shows "zip (filter (\<lambda>r. fst r \<noteq> key) rows) (drop_index i ps) = filter (\<lambda>(r, _). fst r \<noteq> key) (zip rows ps) \<and>
    length (drop_index i ps) = length (filter (\<lambda>r. fst r \<noteq> key) rows)"
  using assms
proof (induction rows arbitrary: ps i)
  case (Cons r rows)
  then obtain p ps' where ps: "ps = p # ps'" "length ps' = length rows" by (cases ps) auto
  show ?case
  proof (cases "fst r = key")
    case True
    then have other: "fst x \<noteq> key" if "x \<in> set rows" for x
    proof -
      have "fst r \<notin> fst ` set rows" using Cons.prems(2) by simp
      with True that show ?thesis by (metis imageI)
    qed
    then have "filter (\<lambda>r. fst r \<noteq> key) rows = rows" by (simp add: filter_id_conv)
    moreover have "filter (\<lambda>(r, _). fst r \<noteq> key) (zip rows ps') = zip rows ps'"
      using other by (auto simp: filter_id_conv dest!: set_zip_leftD)
    ultimately show ?thesis using True Cons.prems ps by (simp add: drop_index_Cons_0)
  next
    case False
    then obtain j where j: "i = Suc j" "row_index (\<lambda>r. fst r = key) rows = Some j" using Cons.prems(3) by auto
    with Cons.IH [OF ps(2) _ j(2)] Cons.prems(2) False ps show ?thesis by (simp add: drop_index_Suc)
  qed
qed simp

lemma row_index_None: "row_index P xs = None \<longleftrightarrow> (\<forall>x\<in>set xs. \<not> P x)"
  by (induction xs) auto

lemma keyed_remove_view:
  assumes "keyed_wf u"
  shows "keyed_wf (keyed_remove k u) \<and> keyed_view (keyed_remove k u) = filter (\<lambda>r. fst r \<noteq> k) (keyed_view u)"
proof (cases "row_index (\<lambda>r. fst r = k) (kr_rows u)")
  case None
  then have "k \<notin> set (map fst (keyed_view u))" unfolding view_keys by (auto simp: row_index_None)
  then have "filter (\<lambda>r. fst r \<noteq> k) (keyed_view u) = keyed_view u" by (auto simp: filter_id_conv)
  with None assms show ?thesis by (simp add: keyed_remove_def)
next
  case (Some i)
  let ?f = "filter (\<lambda>r. fst r \<noteq> k) (kr_rows u)" and ?p = "drop_index i (kr_providers u)"
  have par: "zip ?f ?p = filter (\<lambda>(r, _). fst r \<noteq> k) (zip (kr_rows u) (kr_providers u))" "length ?p = length ?f"
    using remove_parallel [OF _ _ Some, of "kr_providers u"] assms by (simp_all add: keyed_wf_def)
  have v: "keyed_remove k u = u\<lparr>kr_rows := ?f, kr_providers := ?p\<rparr>" by (simp add: keyed_remove_def Some)
  have "keyed_view (keyed_remove k u) = map (\<lambda>((k, d), p). (k, d, p)) (zip ?f ?p)"
    by (simp add: v view_zip par(2) split_def)
  also have "\<dots> = filter (\<lambda>r. fst r \<noteq> k) (map (\<lambda>((k, d), p). (k, d, p)) (zip (kr_rows u) (kr_providers u)))"
    by (simp add: par(1) filter_map comp_def split_def)
  also have "\<dots> = filter (\<lambda>r. fst r \<noteq> k) (keyed_view u)"
    using assms by (simp add: keyed_wf_def view_zip split_def)
  finally show ?thesis using assms par(2) by (auto simp: v keyed_wf_def intro: distinct_map_filter)
qed

lemma keyed_add_view:
  assumes "keyed_wf u" "k \<notin> fst ` set (keyed_view u)"
  shows "keyed_wf (keyed_add k d u) \<and> keyed_view (keyed_add k d u) = keyed_view u @ [(k, d, [])]"
proof -
  have "k \<notin> fst ` set (kr_rows u)" using assms(2) view_keys [of u] by (metis image_set)
  then show ?thesis using assms(1) by (auto simp: keyed_wf_def keyed_add_def view_zip)
qed

lemma keyed_choose_view:
  assumes "keyed_wf u"
  shows "keyed_wf (keyed_choose i v u) \<and>
    keyed_view (keyed_choose i v u) = map (\<lambda>(j, k, d, p). (k, d, if j = i then v else p)) (enumerate 0 (keyed_view u))"
proof -
  have "keyed_view (keyed_choose i v u) = map (\<lambda>(j, k, d, p). (k, d, if j = i then v else p)) (enumerate 0 (keyed_view u))"
    using assms
    by (intro nth_equalityI) (auto simp: keyed_wf_def keyed_choose_def view_zip nth_enumerate_eq split: prod.splits)
  then show ?thesis using assms by (simp add: keyed_wf_def keyed_choose_def)
qed

interpretation keyed: row_store keyed_wf keyed_view keyed_add keyed_remove keyed_choose
proof
  show "distinct (map fst (keyed_view s))" if "keyed_wf s" for s :: "'d keyed_rows"
    using that by (simp add: view_keys keyed_wf_def)
qed (fact keyed_add_view keyed_remove_view keyed_choose_view)+


section \<open>Routes\<close>

record WebRouteProvider =
  wrp_name :: jsstr
  wrp_weight :: "jsnum option"

record WebRoute =
  wr_model_alias :: jsstr
  wr_providers :: "WebRouteProvider list"
  wr_strategy :: "jsstr option"

record route_ui =
  wrf_row :: "WebRoute option"
  wrf_rows :: "jsstr keyed_rows"
  wrf_selectedModel :: jsstr
  wrf_strategy :: jsstr

text \<open>\<^verbatim>\<open>defaultValues?.providers?.[index]\<close>: the weight a row at a position starts with. The input of a row takes its
  default when the row is mounted; the second component of a row is that text.\<close>

definition default_weight :: "WebRoute option \<Rightarrow> nat \<Rightarrow> jsstr" where
  "default_weight dv i =
     (case dv of None \<Rightarrow> []
      | Some r \<Rightarrow> if i < length (wr_providers r)
                 then (case wrp_weight (wr_providers r ! i) of None \<Rightarrow> [] | Some n \<Rightarrow> num_repr n) else [])"

text \<open>The keys of the first rows come from \<open>uuid\<close>.\<close>

definition WebRouteForm_init :: "(nat \<Rightarrow> jsstr) \<Rightarrow> WebRoute option \<Rightarrow> route_ui" where
  "WebRouteForm_init uuid dv =
     (let ps = (case dv of None \<Rightarrow> [] | Some r \<Rightarrow> wr_providers r) in
      \<lparr>wrf_row = dv,
       wrf_rows = \<lparr>kr_rows = map (\<lambda>i. (uuid i, default_weight dv i)) [0..<length ps], kr_providers = map wrp_name ps\<rparr>,
       wrf_selectedModel = (case dv of None \<Rightarrow> [] | Some r \<Rightarrow> wr_model_alias r),
       wrf_strategy = (case dv of None \<Rightarrow> [] | Some r \<Rightarrow> (case wr_strategy r of None \<Rightarrow> [] | Some s \<Rightarrow> s))\<rparr>)"

text \<open>A new row is mounted at the end.\<close>

definition route_addRow :: "jsstr \<Rightarrow> route_ui \<Rightarrow> route_ui" where
  "route_addRow key ui =
     ui\<lparr>wrf_rows := keyed_add key (default_weight (wrf_row ui) (length (kr_rows (wrf_rows ui)))) (wrf_rows ui)\<rparr>"

definition route_removeRow :: "jsstr \<Rightarrow> route_ui \<Rightarrow> route_ui" where
  "route_removeRow key ui = ui\<lparr>wrf_rows := keyed_remove key (wrf_rows ui)\<rparr>"

text \<open>The providers a row offers: those of the upstreams of the selected model, when it is known and has any list of
  them; a model is its alias and the providers of its upstreams, if declared.\<close>

definition web_allowedProviders :: "(jsstr \<times> jsstr list option) list \<Rightarrow> jsstr list \<Rightarrow> jsstr \<Rightarrow> jsstr list" where
  "web_allowedProviders models providers selectedModel =
     (if selectedModel = [] then providers
      else case find (\<lambda>m. fst m = selectedModel) models of
        Some (a, Some upstreams) \<Rightarrow> filter (\<lambda>p. p \<in> set upstreams) providers
      | _ \<Rightarrow> providers)"

text \<open>The weight of a row: what was typed into it, else the text it was mounted with.\<close>

definition row_weight :: "(jsstr \<Rightarrow> jsstr option) \<Rightarrow> jsstr \<Rightarrow> jsstr \<Rightarrow> jsstr" where
  "row_weight typed key d = (case typed key of Some s \<Rightarrow> s | None \<Rightarrow> d)"

definition WebRouteForm_data :: "route_ui \<Rightarrow> (jsstr \<Rightarrow> jsstr option) \<Rightarrow> form" where
  "WebRouteForm_data ui typed =
     [(js ''model_alias'', case wrf_row ui of Some r \<Rightarrow> wr_model_alias r | None \<Rightarrow> wrf_selectedModel ui),
      (js ''strategy'', wrf_strategy ui)] @
     concat (map (\<lambda>(k, d, p). [(js ''route_provider_name'', p), (js ''route_provider_weight'', row_weight typed k d)])
       (keyed_view (wrf_rows ui)))"

definition WebRouteForm_action :: "bool \<Rightarrow> form \<Rightarrow> form_result act" where
  "WebRouteForm_action isEdit = (if isEdit then updateRoute else upsertRoute)"

text \<open>After a success the providers are cleared, the rows stay.\<close>

definition WebRouteForm_submit :: "route_ui \<Rightarrow> (jsstr \<Rightarrow> jsstr option) \<Rightarrow> (route_ui \<times> form_result \<times> ui_effect list) act" where
  "WebRouteForm_submit ui typed =
     bnd (submit_action (WebRouteForm_action (wrf_row ui \<noteq> None)) [FormReset, OnSuccess, RouterRefresh] (WebRouteForm_data ui typed))
       (\<lambda>(r, es). ret (if is_ok r then ui\<lparr>wrf_rows := (wrf_rows ui)\<lparr>kr_providers := []\<rparr>\<rparr> else ui, r, es))"

interpretation route_save: action_form "WebRouteForm_action e" "[(js ''/routes'', None)]" for e
  by (rule action_form.intro, cases e)
    (simp_all add: WebRouteForm_action_def upsertRoute.admin_write_axioms updateRoute.admin_write_axioms)

text \<open>The providers of the body: the rows on the screen that name one.\<close>

definition weight_entry :: "jsstr \<Rightarrow> jsstr \<Rightarrow> json" where
  "weight_entry name raw = JObj ([(js ''name'', JStr name)] @
     when_field (raw \<noteq> [] \<and> js_Number raw \<noteq> NaN) (js ''weight'') (JNum (js_Number raw)))"

lemma route_providers_rows:
  assumes "form_getAll f (js ''route_provider_name'') = map fst rows" "form_getAll f (js ''route_provider_weight'') = map snd rows"
  shows "route_providers f = map (\<lambda>(n, wt). weight_entry n wt) (filter (\<lambda>(n, wt). n \<noteq> []) rows)"
proof -
  have "map (route_provider (map snd rows)) (zip (map fst rows) [0..<length rows]) = map (\<lambda>(n, wt). (n, weight_entry n wt)) rows"
    by (rule nth_equalityI) (auto simp: route_provider_def str_at_def nonempty_def weight_entry_def Let_def split: prod.splits)
  then have "route_providers f = map snd (filter (\<lambda>(name, p). name \<noteq> []) (map (\<lambda>(n, wt). (n, weight_entry n wt)) rows))"
    by (simp only: route_providers_def assms Let_def length_map)
  then show ?thesis by (simp add: filter_map comp_def split_def)
qed

lemma route_form_providers:
  "route_providers (WebRouteForm_data ui typed) =
     map (\<lambda>(n, wt). weight_entry n wt) (filter (\<lambda>(n, wt). n \<noteq> [])
       (map (\<lambda>(k, d, p). (p, row_weight typed k d)) (keyed_view (wrf_rows ui))))"
proof (rule route_providers_rows)
  let ?rows = "keyed_view (wrf_rows ui)"
  let ?row = "\<lambda>(k, d, p). [(js ''route_provider_name'', p), (js ''route_provider_weight'', row_weight typed k d)]"
  have "form_getAll (concat (map ?row ?rows)) (js ''route_provider_name'') = map (\<lambda>(k, d, p). p) ?rows"
    "form_getAll (concat (map ?row ?rows)) (js ''route_provider_weight'') = map (\<lambda>(k, d, p). row_weight typed k d) ?rows"
    by (rule form_getAll_rows, auto)+
  then show "form_getAll (WebRouteForm_data ui typed) (js ''route_provider_name'') =
      map fst (map (\<lambda>(k, d, p). (p, row_weight typed k d)) ?rows)"
    "form_getAll (WebRouteForm_data ui typed) (js ''route_provider_weight'') =
      map snd (map (\<lambda>(k, d, p). (p, row_weight typed k d)) ?rows)"
    by (simp_all add: WebRouteForm_data_def form_getAll_append comp_def split_def)
qed

lemma route_init_view:
  assumes "inj uuid"
  shows "keyed_wf (wrf_rows (WebRouteForm_init uuid (Some r))) \<and> keyed_view (wrf_rows (WebRouteForm_init uuid (Some r))) =
    map (\<lambda>i. (uuid i, default_weight (Some r) i, wrp_name (wr_providers r ! i))) [0..<length (wr_providers r)]"
proof -
  have "distinct (map uuid [0..<n])" for n using assms by (simp add: distinct_map inj_on_def)
  then have wf: "keyed_wf (wrf_rows (WebRouteForm_init uuid (Some r)))"
    by (simp add: keyed_wf_def WebRouteForm_init_def Let_def comp_def)
  then have "keyed_view (wrf_rows (WebRouteForm_init uuid (Some r))) =
      map (\<lambda>i. (uuid i, default_weight (Some r) i, wrp_name (wr_providers r ! i))) [0..<length (wr_providers r)]"
    unfolding keyed_wf_def by (intro nth_equalityI) (auto simp: view_zip WebRouteForm_init_def Let_def)
  with wf show ?thesis by simp
qed

text \<open>The providers that are stored, as the body of a request lists them.\<close>

definition stored_providers :: "WebRoute \<Rightarrow> json list" where
  "stored_providers r = map (\<lambda>p. JObj ([(js ''name'', JStr (wrp_name p))] @
     (case wrp_weight p of None \<Rightarrow> [] | Some n \<Rightarrow> [(js ''weight'', JNum n)]))) (wr_providers r)"

definition web_route_ok :: "WebRoute \<Rightarrow> bool" where
  "web_route_ok r \<longleftrightarrow> js_trim (wr_model_alias r) = wr_model_alias r \<and> wr_model_alias r \<noteq> [] \<and>
     (\<forall>s. wr_strategy r = Some s \<longrightarrow> js_trim s = s) \<and>
     (\<forall>p\<in>set (wr_providers r). wrp_name p \<noteq> [] \<and>
        (\<forall>n. wrp_weight p = Some n \<longrightarrow> (\<exists>k. n = num_int k \<and> 0 \<le> k \<and> k \<le> 2 ^ 53)))"

lemma weight_roundtrip:
  assumes "\<And>n. wrp_weight p = Some n \<Longrightarrow> \<exists>k. n = num_int k \<and> 0 \<le> k \<and> k \<le> 2 ^ 53"
  shows "weight_entry (wrp_name p) (case wrp_weight p of None \<Rightarrow> [] | Some n \<Rightarrow> num_repr n) =
    JObj ([(js ''name'', JStr (wrp_name p))] @ (case wrp_weight p of None \<Rightarrow> [] | Some n \<Rightarrow> [(js ''weight'', JNum n)]))"
proof (cases "wrp_weight p")
  case (Some n)
  with assms obtain k where k: "n = num_int k" "0 \<le> k" "k \<le> 2 ^ 53" by auto
  from number_text_roundtrip(1,3) [OF k(2,3)] show ?thesis by (simp add: Some weight_entry_def k(1))
qed (simp add: weight_entry_def)

lemma route_untouched:
  assumes "inj uuid" and "web_route_ok r"
  shows "route_providers (WebRouteForm_data (WebRouteForm_init uuid (Some r)) (\<lambda>_. None)) = stored_providers r"
proof -
  let ?ps = "wr_providers r"
  let ?pair = "\<lambda>i. (wrp_name (?ps ! i), default_weight (Some r) i)"
  have rows: "map (\<lambda>(k, d, p). (p, row_weight (\<lambda>_. None) k d)) (keyed_view (wrf_rows (WebRouteForm_init uuid (Some r)))) =
      map ?pair [0..<length ?ps]"
    using route_init_view [OF assms(1), of r] by (simp add: row_weight_def)
  have "filter (\<lambda>(n, wt). n \<noteq> []) (map ?pair [0..<length ?ps]) = map ?pair [0..<length ?ps]"
    using assms(2) by (auto simp: filter_id_conv web_route_ok_def)
  then have "route_providers (WebRouteForm_data (WebRouteForm_init uuid (Some r)) (\<lambda>_. None)) =
      map (\<lambda>i. weight_entry (wrp_name (?ps ! i)) (default_weight (Some r) i)) [0..<length ?ps]"
    unfolding route_form_providers rows by simp
  also have "\<dots> = stored_providers r"
  proof (rule nth_equalityI)
    fix i assume "i < length (map (\<lambda>i. weight_entry (wrp_name (?ps ! i)) (default_weight (Some r) i)) [0..<length ?ps])"
    then have i: "i < length ?ps" by simp
    then have "\<exists>k. n = num_int k \<and> 0 \<le> k \<and> k \<le> 2 ^ 53" if "wrp_weight (?ps ! i) = Some n" for n
      using assms(2) that by (auto simp: web_route_ok_def)
    with weight_roundtrip [of "?ps ! i"] i
    show "map (\<lambda>i. weight_entry (wrp_name (?ps ! i)) (default_weight (Some r) i)) [0..<length ?ps] ! i = stored_providers r ! i"
      by (simp add: default_weight_def stored_providers_def)
  qed (simp add: stored_providers_def)
  finally show ?thesis .
qed


lemma updateRoute_sent:
  assumes "client_of pf w = Some c" and "form_str f (js ''model_alias'') = a" and "a \<noteq> []"
  shows "w_sent (snd (updateRoute f pf w)) = w_sent w @ [mk_req c PATCH (js ''/api/v1/routes/{alias}'') [(js ''alias'', JStr a)] []
    (Some (JObj ([(js ''providers'', JArr (route_providers f))] @
       when_field (form_str f (js ''strategy'') \<noteq> []) (js ''strategy'') (JStr (form_str f (js ''strategy''))))))]"
  using assms(2,3) by (simp add: updateRoute_def Let_def guarded_send_run [OF assms(1)])

lemma WebRouteForm_submit_sent:
  "w_sent (snd (WebRouteForm_submit ui typed pf w)) =
     w_sent (snd (WebRouteForm_action (wrf_row ui \<noteq> None) (WebRouteForm_data ui typed) pf w))"
  by (auto simp: WebRouteForm_submit_def submit_action_run bnd_apply split: prod.splits sum.splits)

section \<open>Plugins\<close>

record WebPlugin =
  wg_name :: jsstr
  wg_phase :: "jsstr option"
  wg_enabled :: "bool option"
  wg_scope :: "jsstr option"
  wg_params :: "json option"

record plugin_ui =
  pg_row :: "WebPlugin option"
  pg_paramsText :: jsstr
  pg_paramsError :: "jsstr option"
  pg_phase :: jsstr

definition PluginForm_init :: "WebPlugin option \<Rightarrow> plugin_ui" where
  "PluginForm_init dv =
     \<lparr>pg_row = dv,
      pg_paramsText = (case dv of None \<Rightarrow> []
        | Some g \<Rightarrow> if truthy (wg_params g) then stringify_pretty 0 (the (wg_params g)) else []),
      pg_paramsError = None,
      pg_phase = (case dv of None \<Rightarrow> [] | Some g \<Rightarrow> (case wg_phase g of None \<Rightarrow> [] | Some p \<Rightarrow> p))\<rparr>"

definition handleParamsChange :: "platform \<Rightarrow> jsstr \<Rightarrow> plugin_ui \<Rightarrow> plugin_ui" where
  "handleParamsChange pf value ui =
     ui\<lparr>pg_paramsText := value,
        pg_paramsError := (if js_trim value = [] then None
          else case json_parse value of Some v \<Rightarrow> None | None \<Rightarrow> Some (pf_message pf SyntaxError))\<rparr>"

text \<open>The texts of the uncontrolled inputs: the name (of a new plugin), the box and the scope.\<close>

record plugin_typed =
  gt_name :: jsstr
  gt_enabled :: bool
  gt_scope :: jsstr

definition PluginForm_data :: "plugin_ui \<Rightarrow> plugin_typed \<Rightarrow> form" where
  "PluginForm_data ui ty =
     [(js ''name'', case pg_row ui of Some g \<Rightarrow> wg_name g | None \<Rightarrow> gt_name ty), (js ''phase'', pg_phase ui)] @
     (if gt_enabled ty then [(js ''enabled'', js ''true'')] else []) @
     [(js ''scope'', gt_scope ty), (js ''params_text'', pg_paramsText ui), (js ''params_json'', pg_paramsText ui)]"

definition PluginForm_action :: "bool \<Rightarrow> form \<Rightarrow> form_result act" where
  "PluginForm_action isEdit = (if isEdit then updatePlugin else upsertPlugin)"

definition PluginForm_submit :: "plugin_ui \<Rightarrow> plugin_typed \<Rightarrow> (form_result \<times> ui_effect list) act" where
  "PluginForm_submit ui ty =
     submit_action (PluginForm_action (pg_row ui \<noteq> None)) [FormReset, OnSuccess, RouterRefresh] (PluginForm_data ui ty)"

interpretation plugin_save: action_form "PluginForm_action e" "[(js ''/plugins'', None)]" for e
  by (rule action_form.intro, cases e)
    (simp_all add: PluginForm_action_def upsertPlugin.admin_write_axioms updatePlugin.admin_write_axioms)

lemma plugin_entries:
  "form_get (PluginForm_data ui ty) (js ''name'') = Some (case pg_row ui of Some g \<Rightarrow> wg_name g | None \<Rightarrow> gt_name ty)"
  "form_get (PluginForm_data ui ty) (js ''scope'') = Some (gt_scope ty)"
  "form_get (PluginForm_data ui ty) (js ''phase'') = Some (pg_phase ui)"
  "form_get (PluginForm_data ui ty) (js ''enabled'') = (if gt_enabled ty then Some (js ''true'') else None)"
  "form_get (PluginForm_data ui ty) (js ''params_json'') = Some (pg_paramsText ui)"
  by (simp_all add: PluginForm_data_def)

section \<open>Properties\<close>

text \<open>C28: The parallel arrays of the model and route forms implement rows that own their provider. From any state
  with as many providers as rows and distinct keys, adding a row appends one without a provider, removing a row
  removes it with its provider and leaves all others theirs, and choosing a provider changes it in one row; and these
  states are kept.\<close>

theorem keyed_rows_refine:
  assumes "keyed_wf u"
  shows "keyed_wf (keyed_remove k u) \<and> keyed_view (keyed_remove k u) = filter (\<lambda>r. fst r \<noteq> k) (keyed_view u) \<and>
    keyed_wf (keyed_choose i v u) \<and>
    keyed_view (keyed_choose i v u) = map (\<lambda>(j, k, d, p). (k, d, if j = i then v else p)) (enumerate 0 (keyed_view u)) \<and>
    (k \<notin> fst ` set (keyed_view u) \<longrightarrow>
       keyed_wf (keyed_add k d u) \<and> keyed_view (keyed_add k d u) = keyed_view u @ [(k, d, [])] \<and>
       keyed_view (keyed_remove k (keyed_add k d u)) = keyed_view u)"
  using keyed.remove_law [OF assms] keyed.pick_law [OF assms] keyed.add_law [OF assms] keyed.add_remove [OF assms] by blast

theorem keyed_rows_refine_witness:
  "keyed_view (keyed_remove (js ''a'') \<lparr>kr_rows = [(js ''a'', 1 :: nat), (js ''b'', 2)], kr_providers = [js ''p'', js ''q'']\<rparr>) =
     [(js ''b'', 2, js ''q'')]"
proof -
  let ?u = "\<lparr>kr_rows = [(js ''a'', 1 :: nat), (js ''b'', 2)], kr_providers = [js ''p'', js ''q'']\<rparr>"
  have "keyed_wf ?u" by (simp add: keyed_wf_def)
  from keyed_rows_refine [OF this, of "js ''a''"] show ?thesis by (simp add: keyed_view_def str_at_def)
qed

text \<open>C36: Saving a route without a change puts back its providers in order with their weights, and its strategy.\<close>

theorem web_route_resave:
  assumes "inj uuid" and "web_route_ok r" and "client_of pf w = Some c"
  shows "w_sent (snd (WebRouteForm_submit (WebRouteForm_init uuid (Some r)) (\<lambda>_. None) pf w)) =
    w_sent w @ [mk_req c PATCH (js ''/api/v1/routes/{alias}'') [(js ''alias'', JStr (wr_model_alias r))] []
      (Some (JObj ([(js ''providers'', JArr (stored_providers r))] @
        (case wr_strategy r of None \<Rightarrow> [] | Some s \<Rightarrow> when_field (s \<noteq> []) (js ''strategy'') (JStr s)))))]"
proof -
  let ?ui = "WebRouteForm_init uuid (Some r)"
  let ?fd = "WebRouteForm_data ?ui (\<lambda>_. None)"
  have "form_str ?fd (js ''model_alias'') = wr_model_alias r" "wr_model_alias r \<noteq> []"
    using assms(2) by (simp_all add: form_str_def form_raw_def WebRouteForm_data_def WebRouteForm_init_def web_route_ok_def Let_def)
  moreover have "form_str ?fd (js ''strategy'') = (case wr_strategy r of None \<Rightarrow> [] | Some s \<Rightarrow> s)"
    using assms(2) by (auto simp: form_str_def form_raw_def WebRouteForm_data_def WebRouteForm_init_def web_route_ok_def Let_def split: option.splits)
  ultimately show ?thesis
    using updateRoute_sent [OF assms(3), of ?fd] route_untouched [OF assms(1,2)]
    by (simp add: WebRouteForm_submit_sent WebRouteForm_action_def WebRouteForm_init_def [of uuid "Some r", THEN arg_cong [of _ _ wrf_row]] Let_def split: option.splits)
qed

definition web_demo_route :: WebRoute where
  "web_demo_route = \<lparr>wr_model_alias = js ''m'', wr_providers = [\<lparr>wrp_name = js ''a'', wrp_weight = Some (num_int 3)\<rparr>,
     \<lparr>wrp_name = js ''b'', wrp_weight = Some (num_int 7)\<rparr>], wr_strategy = Some (js ''weighted'')\<rparr>"

lemma web_demo_route_ok: "web_route_ok web_demo_route"
  by (auto simp: web_route_ok_def web_demo_route_def form_eval intro: exI [of _ 3] exI [of _ 7])

theorem web_route_resave_witness:
  "w_sent (snd (WebRouteForm_submit (WebRouteForm_init digits10 (Some web_demo_route)) (\<lambda>_. None) sample_platform sample_world)) =
    w_sent sample_world @ [mk_req sample_client PATCH (js ''/api/v1/routes/{alias}'') [(js ''alias'', JStr (js ''m''))] []
      (Some (JObj [(js ''providers'', JArr [JObj [(js ''name'', JStr (js ''a'')), (js ''weight'', JNum (num_int 3))],
         JObj [(js ''name'', JStr (js ''b'')), (js ''weight'', JNum (num_int 7))]]), (js ''strategy'', JStr (js ''weighted''))]))]"
proof -
  have "inj digits10" by (rule injI) simp
  from web_route_resave [OF this web_demo_route_ok sample_client_of] show ?thesis
    by (simp add: web_demo_route_def stored_providers_def)
qed

text \<open>A new row of the route form can start with the weight of another provider. After the first provider of
  an edited route was removed, the next row that is added has no provider but the weight of the last stored
  one, and that weight is saved with whatever provider is chosen for it.\<close>

theorem route_new_row_weight:
  assumes "inj uuid" and "wr_providers r \<noteq> []" and "wrp_weight (last (wr_providers r)) = Some n" and "k \<notin> range uuid"
    and "ui = route_addRow k (route_removeRow (uuid 0) (WebRouteForm_init uuid (Some r)))"
  shows "last (keyed_view (wrf_rows ui)) = (k, num_repr n, [])"
proof -
  let ?ui0 = "WebRouteForm_init uuid (Some r)" and ?n = "length (wr_providers r)"
  have wf: "keyed_wf (wrf_rows ?ui0)" and view: "keyed_view (wrf_rows ?ui0) =
      map (\<lambda>i. (uuid i, default_weight (Some r) i, wrp_name (wr_providers r ! i))) [0..<?n]"
    using route_init_view [OF assms(1)] by auto
  let ?ui1 = "route_removeRow (uuid 0) ?ui0"
  have ui1: "keyed_wf (wrf_rows ?ui1)" "keyed_view (wrf_rows ?ui1) = filter (\<lambda>r. fst r \<noteq> uuid 0) (keyed_view (wrf_rows ?ui0))"
    using keyed.remove_law [OF wf] by (simp_all add: route_removeRow_def)
  have "[0..<?n] = 0 # [1..<?n]" using assms(2) by (simp add: upt_conv_Cons)
  moreover have "filter (\<lambda>i. uuid i \<noteq> uuid 0) [1..<?n] = [1..<?n]" using assms(1) by (auto simp: filter_id_conv inj_eq)
  ultimately have "filter (\<lambda>i. uuid i \<noteq> uuid 0) [0..<?n] = [1..<?n]" by simp
  then have len: "length (kr_rows (wrf_rows ?ui1)) = ?n - 1"
    using arg_cong [OF view_keys [of "wrf_rows ?ui1"], of length] ui1(2) by (simp add: view filter_map comp_def)
  have "k \<notin> fst ` set (keyed_view (wrf_rows ?ui1))" using assms(4) by (auto simp: ui1(2) view)
  moreover have "wrf_row ?ui1 = Some r" by (simp add: route_removeRow_def WebRouteForm_init_def Let_def)
  ultimately have "keyed_view (wrf_rows ui) = keyed_view (wrf_rows ?ui1) @ [(k, default_weight (Some r) (?n - 1), [])]"
    using keyed.add_law [OF ui1(1)] by (simp add: assms(5) route_addRow_def len)
  then show ?thesis using assms(2,3) by (simp add: default_weight_def last_conv_nth)
qed

theorem route_new_row_weight_witness:
  "last (keyed_view (wrf_rows (route_addRow (js ''new'') (route_removeRow (digits10 0) (WebRouteForm_init digits10 (Some web_demo_route)))))) =
     (js ''new'', num_repr (num_int 7), [])"
proof -
  have "inj digits10" by (rule injI) simp
  moreover have "js ''new'' \<notin> range digits10"
  proof
    assume "js ''new'' \<in> range digits10"
    then obtain m where "js ''new'' = digits10 m" by blast
    then have "list_all is_digit (js ''new'')" by (simp add: list_all_iff digits10_is_digit)
    then show False by (simp add: js_def is_digit_def)
  qed
  ultimately show ?thesis
    using route_new_row_weight [of digits10 web_demo_route "num_int 7" "js ''new''", OF _ _ _ _ refl]
    by (simp add: web_demo_route_def)
qed

text \<open>Which plugin an edit changes. The edit form locks the name but not the scope, and the request names the
  plugin by both: whatever scope is typed, the request goes to the plugin of that name and scope, so an edited scope
  changes another plugin, or none, instead of moving the one that was opened. Text that is no JSON is refused
  without a request.\<close>

theorem plugin_edit_target:
  assumes "pg_row ui = Some g" and "js_trim (wg_name g) = n" and "n \<noteq> []" and "client_of pf w = Some c"
  shows "(\<forall>params. plugin_params (js_trim (pg_paramsText ui)) = Inr params \<longrightarrow>
      w_sent (snd (PluginForm_submit ui ty pf w)) = w_sent w @
        [mk_req c PATCH (js ''/api/v1/plugins/{name}'') [(js ''name'', JStr n)]
          (when_field (js_trim (gt_scope ty) \<noteq> []) (js ''scope'') (JStr (js_trim (gt_scope ty))))
          (Some (JObj (when_field (js_trim (pg_phase ui) \<noteq> []) (js ''phase'') (JStr (js_trim (pg_phase ui))) @
             [(js ''enabled'', JBool (gt_enabled ty))] @ params)))]) \<and>
    (json_parse (js_trim (pg_paramsText ui)) = None \<and> js_trim (pg_paramsText ui) \<noteq> [] \<longrightarrow>
      PluginForm_submit ui ty pf w = (Inr (fail_mapped (js ''invalid params JSON''), []), w))"
proof -
  let ?fd = "PluginForm_data ui ty"
  have strs: "form_str ?fd (js ''name'') = n" "form_str ?fd (js ''scope'') = js_trim (gt_scope ty)"
    "form_str ?fd (js ''phase'') = js_trim (pg_phase ui)" "form_str ?fd (js ''params_json'') = js_trim (pg_paramsText ui)"
    using assms(1,2) by (simp_all add: form_str_def form_raw_def plugin_entries)
  have sent: "w_sent (snd (PluginForm_submit ui ty pf w)) = w_sent (snd (updatePlugin ?fd pf w))"
    using assms(1) by (auto simp: PluginForm_submit_def submit_action_run PluginForm_action_def split: prod.splits sum.splits)
  show ?thesis
    using assms(1,3) unfolding sent
    by (auto simp: updatePlugin_def Let_def strs plugin_entries guarded_send_run [OF assms(4)] PluginForm_submit_def
        PluginForm_action_def submit_action_run plugin_params_def)
qed

theorem plugin_edit_target_witness:
  "\<exists>body. w_sent (snd (PluginForm_submit (PluginForm_init (Some \<lparr>wg_name = js ''ratelimit'', wg_phase = Some (js ''pre''),
       wg_enabled = Some True, wg_scope = Some (js ''acme''), wg_params = None\<rparr>))
       \<lparr>gt_name = [], gt_enabled = True, gt_scope = js ''other''\<rparr> sample_platform sample_world)) =
     w_sent sample_world @ [mk_req sample_client PATCH (js ''/api/v1/plugins/{name}'') [(js ''name'', JStr (js ''ratelimit''))]
       [(js ''scope'', JStr (js ''other''))] (Some (JObj body))]"
proof -
  let ?g = "\<lparr>wg_name = js ''ratelimit'', wg_phase = Some (js ''pre''), wg_enabled = Some True, wg_scope = Some (js ''acme''), wg_params = None\<rparr>"
  let ?ty = "\<lparr>gt_name = [], gt_enabled = True, gt_scope = js ''other''\<rparr>"
  have row: "pg_row (PluginForm_init (Some ?g)) = Some ?g" by (simp add: PluginForm_init_def)
  have n: "js_trim (wg_name ?g) = js ''ratelimit''" "js_trim (js ''other'') = js ''other''" by (simp_all add: form_eval)
  have "plugin_params (js_trim (pg_paramsText (PluginForm_init (Some ?g)))) = Inr []"
    by (simp add: PluginForm_init_def plugin_params_def)
  with plugin_edit_target [OF row n(1) _ sample_client_of, of ?ty] n(2) show ?thesis by auto
qed

end
