(* ===== verification/Web_Models.thy ===== *)
theory Web_Models
  imports Web_Config
begin

text \<open>
  The model form of the Control Panel (\<^verbatim>\<open>models/create-form.tsx\<close>, \<^verbatim>\<open>models/upstream-row.tsx\<close>) on the rows of
  \<open>Web_Config\<close>, composed with \<^verbatim>\<open>models/actions.ts\<close>: each upstream of a request comes from one row of the screen,
  and what an unchanged save does to the stored upstreams.
\<close>

section \<open>State\<close>

record WebPricing =
  wp_prompt_per_1m :: "jsnum option"
  wp_completion_per_1m :: "jsnum option"
  wp_cache_hit_multiplier :: "jsnum option"

record WebUpstream =
  wu_provider :: jsstr
  wu_upstream_model :: jsstr
  wu_default_max_tokens :: "jsnum option"
  wu_pricing :: "WebPricing option"

record WebModel =
  wm_alias :: jsstr
  wm_description :: "jsstr option"
  wm_context_length :: "jsnum option"
  wm_capabilities :: "jsstr list option"
  wm_tags :: "jsstr list option"
  wm_upstreams :: "WebUpstream list option"

text \<open>The texts of the uncontrolled inputs of a row and of the form.\<close>

record upstream_cells =
  uc_model :: jsstr
  uc_max_tokens :: jsstr
  uc_prompt :: jsstr
  uc_completion :: jsstr
  uc_cache :: jsstr

record model_typed =
  mt_alias :: jsstr
  mt_description :: jsstr
  mt_context_length :: jsstr
  mt_capabilities :: jsstr
  mt_tags :: jsstr

text \<open>A row remembers the index of its upstream, \<open>None\<close> for \<open>-1\<close>.\<close>

record model_form_ui =
  mf_row :: "WebModel option"
  mf_rows :: "nat option keyed_rows"

definition upstreamDefaults :: "WebModel option \<Rightarrow> WebUpstream list" where
  "upstreamDefaults dv = (case dv of None \<Rightarrow> [] | Some m \<Rightarrow> (case wm_upstreams m of None \<Rightarrow> [] | Some us \<Rightarrow> us))"

definition WebModelForm_init :: "(nat \<Rightarrow> jsstr) \<Rightarrow> WebModel option \<Rightarrow> model_form_ui" where
  "WebModelForm_init uuid dv =
     \<lparr>mf_row = dv,
      mf_rows = \<lparr>kr_rows = map (\<lambda>i. (uuid i, Some i)) [0..<length (upstreamDefaults dv)],
                 kr_providers = map wu_provider (upstreamDefaults dv)\<rparr>\<rparr>"

definition model_addRow :: "jsstr \<Rightarrow> model_form_ui \<Rightarrow> model_form_ui" where
  "model_addRow key ui = ui\<lparr>mf_rows := keyed_add key None (mf_rows ui)\<rparr>"

definition model_removeRow :: "jsstr \<Rightarrow> model_form_ui \<Rightarrow> model_form_ui" where
  "model_removeRow key ui = ui\<lparr>mf_rows := keyed_remove key (mf_rows ui)\<rparr>"

definition model_onProviderChange :: "nat \<Rightarrow> jsstr \<Rightarrow> model_form_ui \<Rightarrow> model_form_ui" where
  "model_onProviderChange index v ui = ui\<lparr>mf_rows := keyed_choose index v (mf_rows ui)\<rparr>"

section \<open>Rows\<close>

definition price_default :: "jsnum option \<Rightarrow> jsstr" where
  "price_default v = (case v of None \<Rightarrow> [] | Some n \<Rightarrow> microToDisplay n)"

text \<open>The texts a row starts with, \<^verbatim>\<open>UpstreamRow\<close>.\<close>

definition upstream_defaults :: "WebUpstream option \<Rightarrow> upstream_cells" where
  "upstream_defaults d =
     (case d of
        None \<Rightarrow> \<lparr>uc_model = [], uc_max_tokens = [], uc_prompt = [], uc_completion = [], uc_cache = []\<rparr>
      | Some u \<Rightarrow>
         \<lparr>uc_model = wu_upstream_model u,
          uc_max_tokens = (case wu_default_max_tokens u of Some n \<Rightarrow> if num_truthy n then num_repr n else [] | None \<Rightarrow> []),
          uc_prompt = (case wu_pricing u of None \<Rightarrow> [] | Some p \<Rightarrow> price_default (wp_prompt_per_1m p)),
          uc_completion = (case wu_pricing u of None \<Rightarrow> [] | Some p \<Rightarrow> price_default (wp_completion_per_1m p)),
          uc_cache = (case wu_pricing u of None \<Rightarrow> []
            | Some p \<Rightarrow> (case wp_cache_hit_multiplier p of None \<Rightarrow> []
               | Some c \<Rightarrow> if num_lt (Fin 0) c then num_repr (num_divc c 10000) else []))\<rparr>)"

definition row_default :: "model_form_ui \<Rightarrow> nat option \<Rightarrow> upstream_cells" where
  "row_default ui idx =
     upstream_defaults (case idx of None \<Rightarrow> None
       | Some i \<Rightarrow> if i < length (upstreamDefaults (mf_row ui)) then Some (upstreamDefaults (mf_row ui) ! i) else None)"

definition upstream_entries :: "jsstr \<Rightarrow> upstream_cells \<Rightarrow> form" where
  "upstream_entries provider c =
     [(js ''upstream_provider'', provider), (js ''upstream_model'', uc_model c), (js ''upstream_max_tokens'', uc_max_tokens c),
      (js ''upstream_prompt_price'', uc_prompt c), (js ''upstream_completion_price'', uc_completion c),
      (js ''upstream_cache_hit_multiplier'', uc_cache c)]"

text \<open>\<open>edits\<close> gives, for the key of a row, what was typed over its defaults.\<close>

definition WebModelForm_data :: "model_form_ui \<Rightarrow> model_typed \<Rightarrow> (jsstr \<Rightarrow> upstream_cells \<Rightarrow> upstream_cells) \<Rightarrow> form" where
  "WebModelForm_data ui ty edits =
     [(js ''alias'', case mf_row ui of Some m \<Rightarrow> wm_alias m | None \<Rightarrow> mt_alias ty), (js ''description'', mt_description ty),
      (js ''context_length'', mt_context_length ty), (js ''capabilities'', mt_capabilities ty), (js ''tags'', mt_tags ty)] @
     concat (map (\<lambda>(k, idx, p). upstream_entries p (edits k (row_default ui idx))) (keyed_view (mf_rows ui)))"

text \<open>The texts the form starts with.\<close>

definition model_typed_defaults :: "WebModel option \<Rightarrow> model_typed" where
  "model_typed_defaults dv =
     (let words = (\<lambda>l. js_join (js '', '') (case l of None \<Rightarrow> [] | Some ws \<Rightarrow> ws)) in
      case dv of
        None \<Rightarrow> \<lparr>mt_alias = [], mt_description = [], mt_context_length = [], mt_capabilities = [], mt_tags = []\<rparr>
      | Some m \<Rightarrow>
         \<lparr>mt_alias = wm_alias m, mt_description = (case wm_description m of None \<Rightarrow> [] | Some s \<Rightarrow> s),
          mt_context_length = (case wm_context_length m of Some n \<Rightarrow> if num_truthy n then num_repr n else [] | None \<Rightarrow> []),
          mt_capabilities = words (wm_capabilities m), mt_tags = words (wm_tags m)\<rparr>)"

definition WebModelForm_action :: "bool \<Rightarrow> form \<Rightarrow> form_result act" where
  "WebModelForm_action isEdit = (if isEdit then updateModel else createModel)"

text \<open>After a success the providers are cleared, the rows stay.\<close>

definition WebModelForm_submit ::
  "model_form_ui \<Rightarrow> model_typed \<Rightarrow> (jsstr \<Rightarrow> upstream_cells \<Rightarrow> upstream_cells) \<Rightarrow> (model_form_ui \<times> form_result \<times> ui_effect list) act" where
  "WebModelForm_submit ui ty edits =
     bnd (submit_action (WebModelForm_action (mf_row ui \<noteq> None)) [FormReset, OnSuccess, RouterRefresh] (WebModelForm_data ui ty edits))
       (\<lambda>(r, es). ret (if is_ok r then ui\<lparr>mf_rows := (mf_rows ui)\<lparr>kr_providers := []\<rparr>\<rparr> else ui, r, es))"

interpretation model_save: action_form "WebModelForm_action e" "[(js ''/models'', None)]" for e
  by (rule action_form.intro, cases e)
    (simp_all add: WebModelForm_action_def createModel.admin_write_axioms updateModel.admin_write_axioms)

section \<open>Lemmas\<close>

text \<open>The upstream of one row.\<close>

definition row_upstream :: "jsstr \<Rightarrow> upstream_cells \<Rightarrow> json res" where
  "row_upstream p c = model_upstream [uc_model c] [uc_max_tokens c] [uc_prompt c] [uc_completion c] [uc_cache c] (p, 0)"

lemma model_upstream_row:
  assumes "i < length cs"
  shows "model_upstream (map uc_model cs) (map uc_max_tokens cs) (map uc_prompt cs) (map uc_completion cs) (map uc_cache cs) (p, i) =
    row_upstream p (cs ! i)"
  using assms by (simp add: model_upstream_def row_upstream_def str_at_def Let_def)

lemma rmap_nth_cong:
  assumes "length xs = length ys" "\<And>i. i < length xs \<Longrightarrow> f (xs ! i) = g (ys ! i)"
  shows "rmap f xs = rmap g ys"
  using assms
proof (induction xs ys rule: list_induct2)
  case (Cons x xs y ys)
  have "f x = g y" using Cons.prems [of 0] by simp
  moreover have "rmap f xs = rmap g ys" using Cons.prems [of "Suc i" for i] by (intro Cons.IH) auto
  ultimately show ?case by simp
qed simp

text \<open>Every upstream of the body comes from the row of the same position, with that row's provider.\<close>

lemma model_form_upstreams:
  "model_upstreams (WebModelForm_data ui ty edits) =
     rmap (\<lambda>(k, idx, p). row_upstream p (edits k (row_default ui idx))) (keyed_view (mf_rows ui))"
proof -
  let ?v = "keyed_view (mf_rows ui)"
  let ?row = "\<lambda>(k, idx, p). upstream_entries p (edits k (row_default ui idx))"
  define cs where "cs = map (\<lambda>(k, idx, p). edits k (row_default ui idx)) ?v"
  define ps where "ps = map (\<lambda>(k, idx, p). p) ?v"
  have all: "form_getAll (WebModelForm_data ui ty edits) name = map cell ?v"
    if "\<And>x. form_getAll (?row x) name = [cell x]"
      "name \<notin> {js ''alias'', js ''description'', js ''context_length'', js ''capabilities'', js ''tags''}" for name cell
    using that form_getAll_rows [of ?v ?row name cell] by (auto simp: WebModelForm_data_def form_getAll_append)
  have "form_getAll (WebModelForm_data ui ty edits) (js ''upstream_provider'') = ps"
    unfolding ps_def by (rule all) (auto simp: upstream_entries_def)
  moreover have "form_getAll (WebModelForm_data ui ty edits) (js ''upstream_model'') = map uc_model cs"
    unfolding cs_def map_map comp_def by (rule all) (auto simp: upstream_entries_def)
  moreover have "form_getAll (WebModelForm_data ui ty edits) (js ''upstream_max_tokens'') = map uc_max_tokens cs"
    unfolding cs_def map_map comp_def by (rule all) (auto simp: upstream_entries_def)
  moreover have "form_getAll (WebModelForm_data ui ty edits) (js ''upstream_prompt_price'') = map uc_prompt cs"
    unfolding cs_def map_map comp_def by (rule all) (auto simp: upstream_entries_def)
  moreover have "form_getAll (WebModelForm_data ui ty edits) (js ''upstream_completion_price'') = map uc_completion cs"
    unfolding cs_def map_map comp_def by (rule all) (auto simp: upstream_entries_def)
  moreover have "form_getAll (WebModelForm_data ui ty edits) (js ''upstream_cache_hit_multiplier'') = map uc_cache cs"
    unfolding cs_def map_map comp_def by (rule all) (auto simp: upstream_entries_def)
  ultimately have "model_upstreams (WebModelForm_data ui ty edits) =
      rmap (model_upstream (map uc_model cs) (map uc_max_tokens cs) (map uc_prompt cs) (map uc_completion cs) (map uc_cache cs))
        (zip ps [0..<length ps])"
    by (simp only: model_upstreams_def Let_def)
  also have "\<dots> = rmap (\<lambda>(k, idx, p). row_upstream p (edits k (row_default ui idx))) ?v"
  proof (rule rmap_nth_cong)
    have cs: "length cs = length ?v" "\<And>i. i < length ?v \<Longrightarrow> cs ! i = (case ?v ! i of (k, idx, p) \<Rightarrow> edits k (row_default ui idx))"
      by (simp_all add: cs_def)
    show "model_upstream (map uc_model cs) (map uc_max_tokens cs) (map uc_prompt cs) (map uc_completion cs) (map uc_cache cs)
        (zip ps [0..<length ps] ! i) = (case ?v ! i of (k, idx, p) \<Rightarrow> row_upstream p (edits k (row_default ui idx)))"
      if "i < length (zip ps [0..<length ps])" for i
      using that by (auto simp: ps_def model_upstream_row cs split: prod.splits)
  qed (simp add: ps_def)
  finally show ?thesis .
qed


subsection \<open>Saving without a change\<close>

text \<open>A price as the form saves it again: in whole cents, a missing one as zero.\<close>

definition cents_of :: "int \<Rightarrow> int" where
  "cents_of k = 10000 * ((k + 5000) div 10000)"

definition saved_price :: "jsnum option \<Rightarrow> jsnum" where
  "saved_price v = (case v of Some (Fin x) \<Rightarrow> num_int (cents_of \<lfloor>x\<rfloor>) | _ \<Rightarrow> Fin 0)"

definition saved_upstream :: "WebUpstream \<Rightarrow> json" where
  "saved_upstream u = JObj ([(js ''provider'', JStr (wu_provider u)), (js ''upstream_model'', JStr (wu_upstream_model u))] @
     (case wu_default_max_tokens u of Some n \<Rightarrow> when_field (num_lt (Fin 0) n) (js ''default_max_tokens'') (JNum n) | None \<Rightarrow> []) @
     (case wu_pricing u of None \<Rightarrow> []
      | Some p \<Rightarrow> if wp_prompt_per_1m p = None \<and> wp_completion_per_1m p = None then []
          else [(js ''pricing'', JObj ([(js ''prompt_per_1m'', JNum (saved_price (wp_prompt_per_1m p))),
             (js ''completion_per_1m'', JNum (saved_price (wp_completion_per_1m p))), (js ''currency'', JStr (js ''USD''))] @
             (case wp_cache_hit_multiplier p of Some c \<Rightarrow> when_field (num_lt (Fin 0) c) (js ''cache_hit_multiplier'') (JNum c) | None \<Rightarrow> [])))]))"

text \<open>The upstreams the admin API stores: counts and prices are integers, the share of cached tokens a whole
  percentage.\<close>

definition stored_price :: "jsnum option \<Rightarrow> bool" where
  "stored_price v \<longleftrightarrow> v = None \<or> (\<exists>k. v = Some (num_int k) \<and> 0 \<le> k \<and> k \<le> 2 ^ 53 - 5000)"

definition stored_upstream :: "WebUpstream \<Rightarrow> bool" where
  "stored_upstream u \<longleftrightarrow>
     (wu_default_max_tokens u = None \<or> (\<exists>k. wu_default_max_tokens u = Some (num_int k) \<and> 0 \<le> k \<and> k \<le> 2 ^ 53)) \<and>
     (\<forall>p. wu_pricing u = Some p \<longrightarrow> stored_price (wp_prompt_per_1m p) \<and> stored_price (wp_completion_per_1m p) \<and>
        (wp_cache_hit_multiplier p = None \<or> (\<exists>q. wp_cache_hit_multiplier p = Some (num_int (10000 * q)) \<and> 0 \<le> q \<and> q \<le> 100)))"

lemma price_cell:
  assumes "stored_price v"
  shows "price_of (Some (js_trim (price_default v))) = Inr (saved_price v)"
    and "nonempty (Some (js_trim (price_default v))) \<longleftrightarrow> v \<noteq> None"
proof -
  have "price_of (Some (js_trim (price_default v))) = Inr (saved_price v) \<and> (nonempty (Some (js_trim (price_default v))) \<longleftrightarrow> v \<noteq> None)"
  proof (cases v)
    case (Some n)
    with assms obtain k where k: "n = num_int k" "0 \<le> k" "k \<le> 2 ^ 53 - 5000" by (auto simp: stored_price_def)
    let ?c = "cents k"
    have c: "0 \<le> ?c" "10000 * ?c \<le> k + 5000" using k by (auto simp: cents_def)
    have str: "microToDisplay (num_int k) = amount_str False (digits10 (nat (?c div 100))) (Some (two_digits (?c mod 100)))"
      using microToDisplay_cents [of k] k by (simp add: display_cents_amount_str)
    have trim: "js_trim (microToDisplay (num_int k)) = microToDisplay (num_int k)"
      unfolding str by (rule amount_str_trim) (simp_all add: two_digits_spec)
    have ne: "microToDisplay (num_int k) \<noteq> []" unfolding str by (simp add: amount_str_alt digit_str_def)
    have "displayToMicro (microToDisplay (num_int k)) = Inr (num_int (10000 * ?c))"
      using display_roundtrip [of k] k c(2) by simp
    then show ?thesis using trim ne by (simp add: Some k(1) price_default_def price_of_def nonempty_def saved_price_def cents_of_def cents_def)
  qed (simp add: price_default_def price_of_def nonempty_def saved_price_def)
  then show "price_of (Some (js_trim (price_default v))) = Inr (saved_price v)"
    "nonempty (Some (js_trim (price_default v))) \<longleftrightarrow> v \<noteq> None" by simp_all
qed

lemma cache_cell:
  assumes "c = None \<or> (\<exists>q. c = Some (num_int (10000 * q)) \<and> 0 \<le> q \<and> q \<le> 100)"
  shows "cache_multiplier (js_Number (js_trim (case c of None \<Rightarrow> [] | Some c \<Rightarrow> if num_lt (Fin 0) c then num_repr (num_divc c 10000) else []))) =
    (case c of Some c \<Rightarrow> when_field (num_lt (Fin 0) c) (js ''cache_hit_multiplier'') (JNum c) | None \<Rightarrow> [])"
proof -
  have zero: "cache_multiplier (js_Number []) = []"
    by (simp add: cache_multiplier_def js_Number_def)
  show ?thesis
  proof (cases "\<exists>q. c = Some (num_int (10000 * q)) \<and> 0 < q \<and> q \<le> 100")
    case True
    then obtain q where q: "c = Some (num_int (10000 * q))" "0 < q" "q \<le> 100" by blast
    have "num_divc (num_int (10000 * q)) 10000 = num_int q"
      using round_double_int [of q] q by (simp add: safe_def)
    then have "js_Number (js_trim (num_repr (num_divc (num_int (10000 * q)) 10000))) = num_int q"
      using number_text_roundtrip [of q] q by simp
    moreover have "num_mul (num_int q) (Fin 10000) = num_int (q * 10000)"
      using num_mul_int [of q 10000] q by (simp add: safe_def)
    ultimately show ?thesis using q by (simp add: q(1) cache_multiplier_def num_min_def num_max_def)
  next
    case False
    then have "c = None \<or> c = Some (num_int 0)" using assms by (metis mult_zero_right order_le_less)
    then show ?thesis using zero by auto
  qed
qed

lemma max_tokens_cell:
  assumes "v = None \<or> (\<exists>k. v = Some (num_int k) \<and> 0 \<le> k \<and> k \<le> 2 ^ 53)"
  shows "when_field (num_lt (Fin 0) (js_Number (case v of Some n \<Rightarrow> if num_truthy n then num_repr n else [] | None \<Rightarrow> [])))
      (js ''default_max_tokens'') (JNum (js_Number (case v of Some n \<Rightarrow> if num_truthy n then num_repr n else [] | None \<Rightarrow> []))) =
    (case v of Some n \<Rightarrow> when_field (num_lt (Fin 0) n) (js ''default_max_tokens'') (JNum n) | None \<Rightarrow> [])"
proof -
  have "js_Number [] = Fin 0" by (simp add: js_Number_def)
  then show ?thesis using assms number_text_roundtrip(3) by (auto simp: when_field_def split: if_splits)
qed

lemma row_upstream_saved:
  assumes "stored_upstream u"
  shows "row_upstream (wu_provider u) (upstream_defaults (Some u)) = Inr (saved_upstream u)"
proof -
  note mt = max_tokens_cell [of "wu_default_max_tokens u"]
  show ?thesis
  proof (cases "wu_pricing u")
    case None
    with assms mt show ?thesis
      by (simp add: row_upstream_def model_upstream_def str_at_def upstream_defaults_def saved_upstream_def Let_def
          upstream_pricing_def nonempty_def rbind_def stored_upstream_def)
  next
    case (Some p)
    then have p: "stored_price (wp_prompt_per_1m p)" "stored_price (wp_completion_per_1m p)"
      using assms by (auto simp: stored_upstream_def)
    have c: "wp_cache_hit_multiplier p = None \<or> (\<exists>q. wp_cache_hit_multiplier p = Some (num_int (10000 * q)) \<and> 0 \<le> q \<and> q \<le> 100)"
      using assms Some by (auto simp: stored_upstream_def)
    from assms mt show ?thesis
      by (simp add: row_upstream_def model_upstream_def str_at_def upstream_defaults_def saved_upstream_def Let_def Some
          upstream_pricing_def price_cell [OF p(1)] price_cell [OF p(2)] cache_cell [OF c] rbind_def stored_upstream_def)
  qed
qed


lemma model_init_view:
  assumes "inj uuid"
  shows "keyed_view (mf_rows (WebModelForm_init uuid dv)) =
    map (\<lambda>i. (uuid i, Some i, wu_provider (upstreamDefaults dv ! i))) [0..<length (upstreamDefaults dv)]"
  by (rule nth_equalityI) (auto simp: view_zip WebModelForm_init_def)

lemma rmap_Inr: "(\<And>x. x \<in> set xs \<Longrightarrow> f x = Inr (g x)) \<Longrightarrow> rmap f xs = Inr (map g xs)"
  by (induction xs) (auto simp: rbind_def)

lemma model_untouched:
  assumes "inj uuid" and "list_all stored_upstream (upstreamDefaults dv)"
  shows "model_upstreams (WebModelForm_data (WebModelForm_init uuid dv) ty (\<lambda>_ c. c)) =
    Inr (map saved_upstream (upstreamDefaults dv))"
proof -
  let ?us = "upstreamDefaults dv" and ?ui = "WebModelForm_init uuid dv"
  have d: "row_default ?ui (Some i) = upstream_defaults (Some (?us ! i))" if "i < length ?us" for i
    using that by (simp add: row_default_def WebModelForm_init_def)
  have "rmap (\<lambda>(k, idx, p). row_upstream p (row_default ?ui idx)) (keyed_view (mf_rows ?ui)) =
      rmap (\<lambda>u. row_upstream (wu_provider u) (upstream_defaults (Some u))) ?us"
    by (rule rmap_nth_cong) (auto simp: model_init_view [OF assms(1)] d)
  also have "\<dots> = Inr (map saved_upstream ?us)"
    using assms(2) by (intro rmap_Inr row_upstream_saved) (simp add: list_all_iff)
  finally show ?thesis unfolding model_form_upstreams .
qed

lemma updateModel_sent:
  assumes "client_of pf w = Some c" and "form_str f (js ''alias'') = a" and "a \<noteq> []" and "model_upstreams f = Inr us"
  shows "\<exists>body. w_sent (snd (updateModel f pf w)) =
      w_sent w @ [mk_req c PATCH (js ''/api/v1/models/{alias}'') [(js ''alias'', JStr a)] [] (Some (JObj body))] \<and>
    map_of body (js ''upstreams'') = Some (JArr us)"
proof -
  let ?raw = "form_str f (js ''context_length'')"
  let ?cl = "if ?raw \<noteq> [] then (if num_lt (Fin 0) (js_Number ?raw) then js_Number ?raw else Fin 0) else Fin 0"
  let ?body = "[(js ''description'', JStr (form_str f (js ''description''))),
     (js ''capabilities'', JArr (map JStr (parseList (form_raw f (js ''capabilities''))))),
     (js ''tags'', JArr (map JStr (parseList (form_raw f (js ''tags''))))), (js ''upstreams'', JArr us), (js ''context_length'', JNum ?cl)]"
  have "updateModel f = guarded_write [(js ''/models'', None)] (\<lambda>client.
      send_checked client PATCH (js ''/api/v1/models/{alias}'') [(js ''alias'', JStr a)] [] (Some (JObj ?body)) (js ''update failed''))"
    using assms(2-) by (simp only: updateModel_def Let_def if_False sum.case)
  then have "w_sent (snd (updateModel f pf w)) =
      w_sent w @ [mk_req c PATCH (js ''/api/v1/models/{alias}'') [(js ''alias'', JStr a)] [] (Some (JObj ?body))]"
    by (simp only: guarded_send_run [OF assms(1)] after_call_sent) simp
  then show ?thesis by (intro exI [of _ ?body]) simp
qed

section \<open>Properties\<close>

text \<open>Saving a model without a change. The form is opened on a model and submitted untouched: one request
  replaces the upstreams by the stored ones in order, each with its provider, model, limit of tokens and share of
  cached tokens, but with its prices rounded to whole cents. A price that is not a
  whole number of cents per million tokens is therefore changed by the save: 0.075 becomes 0.08.\<close>

theorem web_model_resave:
  assumes "inj uuid" and "list_all stored_upstream (upstreamDefaults (Some m))" and "client_of pf w = Some c"
    and "js_trim (wm_alias m) = wm_alias m" and "wm_alias m \<noteq> []"
  shows "\<exists>body. w_sent (snd (WebModelForm_submit (WebModelForm_init uuid (Some m)) (model_typed_defaults (Some m)) (\<lambda>_ c. c) pf w)) =
      w_sent w @ [mk_req c PATCH (js ''/api/v1/models/{alias}'') [(js ''alias'', JStr (wm_alias m))] [] (Some (JObj body))] \<and>
    map_of body (js ''upstreams'') = Some (JArr (map saved_upstream (upstreamDefaults (Some m))))"
proof -
  let ?fd = "WebModelForm_data (WebModelForm_init uuid (Some m)) (model_typed_defaults (Some m)) (\<lambda>_ c. c)"
  have "form_str ?fd (js ''alias'') = wm_alias m"
    using assms(4) by (simp add: form_str_def form_raw_def WebModelForm_data_def WebModelForm_init_def)
  from updateModel_sent [OF assms(3) this assms(5) model_untouched [OF assms(1,2)]]
  show ?thesis
    by (simp add: WebModelForm_submit_def submit_action_run bnd_apply WebModelForm_action_def WebModelForm_init_def split: prod.splits sum.splits)
       (metis (no_types, lifting) snd_conv)
qed

definition demo_model_row :: WebModel where
  "demo_model_row = \<lparr>wm_alias = js ''m'', wm_description = None, wm_context_length = None, wm_capabilities = None, wm_tags = None,
     wm_upstreams = Some [\<lparr>wu_provider = js ''p'', wu_upstream_model = js ''u'', wu_default_max_tokens = None,
       wu_pricing = Some \<lparr>wp_prompt_per_1m = Some (num_int 75000), wp_completion_per_1m = Some (num_int 300000), wp_cache_hit_multiplier = None\<rparr>\<rparr>]\<rparr>"

theorem web_model_resave_witness:
  "\<exists>body. w_sent (snd (WebModelForm_submit (WebModelForm_init digits10 (Some demo_model_row)) (model_typed_defaults (Some demo_model_row))
        (\<lambda>_ c. c) sample_platform sample_world)) =
      w_sent sample_world @ [mk_req sample_client PATCH (js ''/api/v1/models/{alias}'') [(js ''alias'', JStr (js ''m''))] [] (Some (JObj body))] \<and>
    map_of body (js ''upstreams'') = Some (JArr [JObj [(js ''provider'', JStr (js ''p'')), (js ''upstream_model'', JStr (js ''u'')),
      (js ''pricing'', JObj [(js ''prompt_per_1m'', JNum (num_int 80000)), (js ''completion_per_1m'', JNum (num_int 300000)),
        (js ''currency'', JStr (js ''USD''))])]])"
proof -
  have "inj digits10" by (rule injI) simp
  moreover have "list_all stored_upstream (upstreamDefaults (Some demo_model_row))"
    by (auto simp: upstreamDefaults_def demo_model_row_def stored_upstream_def stored_price_def intro: exI [of _ 75000] exI [of _ 300000])
  moreover have "js_trim (wm_alias demo_model_row) = wm_alias demo_model_row" "wm_alias demo_model_row \<noteq> []"
    by (simp_all add: demo_model_row_def form_eval)
  moreover have "map saved_upstream (upstreamDefaults (Some demo_model_row)) =
      [JObj [(js ''provider'', JStr (js ''p'')), (js ''upstream_model'', JStr (js ''u'')),
      (js ''pricing'', JObj [(js ''prompt_per_1m'', JNum (num_int 80000)), (js ''completion_per_1m'', JNum (num_int 300000)),
        (js ''currency'', JStr (js ''USD''))])]]"
    by (simp add: upstreamDefaults_def demo_model_row_def saved_upstream_def saved_price_def cents_of_def)
  moreover have "wm_alias demo_model_row = js ''m''" by (simp add: demo_model_row_def)
  ultimately show ?thesis using web_model_resave [OF _ _ sample_client_of] by metis
qed

end
