(* ===== verification/Web_Keys.thy ===== *)
theory Web_Keys
  imports Web_Form
begin

text \<open>
  The API key page of the Control Panel: the list of several choices (\<^verbatim>\<open>components/multi-select.tsx\<close>), the form
  (\<^verbatim>\<open>api-keys/create-form.tsx\<close>) and the dialogs around it (\<^verbatim>\<open>api-keys/client.tsx\<close>). The lemmas say which
  parts of a key an edit can change, and when the secret of a new key is shown.
\<close>

section \<open>The list of several choices\<close>

definition allSelected :: "jsstr list \<Rightarrow> jsstr list \<Rightarrow> bool" where
  "allSelected options value \<longleftrightarrow> 0 < length options \<and> length value = length options"

definition ms_toggle :: "jsstr \<Rightarrow> jsstr list \<Rightarrow> jsstr list" where
  "ms_toggle v value = (if v \<in> set value then filter (\<lambda>u. u \<noteq> v) value else value @ [v])"

definition ms_toggleAll :: "jsstr list \<Rightarrow> jsstr list \<Rightarrow> jsstr list" where
  "ms_toggleAll options value = (if allSelected options value then [] else options)"

definition ms_remove :: "jsstr \<Rightarrow> jsstr list \<Rightarrow> jsstr list" where
  "ms_remove v value = filter (\<lambda>u. u \<noteq> v) value"

section \<open>The form\<close>

record WebKey =
  wk_key_id :: jsstr
  wk_group_id :: "jsnum option"
  wk_application_id :: "jsnum option"
  wk_environment :: "jsstr option"
  wk_allowed_models :: "jsstr list option"

datatype identity_field = GroupId | ApplicationId | EnvironmentId

definition identityFields :: "identity_field list" where
  "identityFields = [GroupId, ApplicationId, EnvironmentId]"

fun identity_name :: "identity_field \<Rightarrow> jsstr" where
  "identity_name GroupId = js ''group_id''"
| "identity_name ApplicationId = js ''application_id''"
| "identity_name EnvironmentId = js ''environment''"

text \<open>\<^verbatim>\<open>String(defaultValues?.group_id ?? "")\<close> and the like, and whether the stored value is truthy.\<close>

fun identity_text :: "WebKey \<Rightarrow> identity_field \<Rightarrow> jsstr" where
  "identity_text k GroupId = (case wk_group_id k of None \<Rightarrow> [] | Some n \<Rightarrow> num_repr n)"
| "identity_text k ApplicationId = (case wk_application_id k of None \<Rightarrow> [] | Some n \<Rightarrow> num_repr n)"
| "identity_text k EnvironmentId = (case wk_environment k of None \<Rightarrow> [] | Some s \<Rightarrow> s)"

fun identity_stored :: "WebKey \<Rightarrow> identity_field \<Rightarrow> bool" where
  "identity_stored k GroupId = (case wk_group_id k of None \<Rightarrow> False | Some n \<Rightarrow> num_truthy n)"
| "identity_stored k ApplicationId = (case wk_application_id k of None \<Rightarrow> False | Some n \<Rightarrow> num_truthy n)"
| "identity_stored k EnvironmentId = (case wk_environment k of None \<Rightarrow> False | Some s \<Rightarrow> s \<noteq> [])"

definition key_bound :: "WebKey option \<Rightarrow> bool" where
  "key_bound row = (case row of None \<Rightarrow> False | Some k \<Rightarrow> list_all (identity_stored k) identityFields)"

definition dvModels :: "WebKey option \<Rightarrow> jsstr list" where
  "dvModels row = (case row of None \<Rightarrow> [] | Some k \<Rightarrow> (case wk_allowed_models k of None \<Rightarrow> [] | Some ms \<Rightarrow> ms))"

record key_ui =
  ku_row :: "WebKey option"
  ku_selectedModels :: "jsstr list"
  ku_identity :: "identity_field \<Rightarrow> jsstr"

definition APIKeyForm_init :: "WebKey option \<Rightarrow> key_ui" where
  "APIKeyForm_init row =
     \<lparr>ku_row = row, ku_selectedModels = dvModels row,
      ku_identity = (\<lambda>f. case row of None \<Rightarrow> [] | Some k \<Rightarrow> identity_text k f)\<rparr>"

text \<open>A part of the identity that is stored is shown as text; the others are selects.\<close>

definition identity_fixed :: "key_ui \<Rightarrow> identity_field \<Rightarrow> bool" where
  "identity_fixed ui f = (case ku_row ui of None \<Rightarrow> False | Some k \<Rightarrow> identity_stored k f)"

text \<open>What the user can do. The models are offered only when there are any.\<close>

datatype key_input = ToggleModel jsstr | ToggleAllModels | RemoveModel jsstr | ChooseIdentity identity_field jsstr

definition key_input_step :: "jsstr list \<Rightarrow> key_ui \<Rightarrow> key_input \<Rightarrow> key_ui" where
  "key_input_step models ui i =
     (case i of
        ToggleModel v \<Rightarrow> if v \<in> set models then ui\<lparr>ku_selectedModels := ms_toggle v (ku_selectedModels ui)\<rparr> else ui
      | ToggleAllModels \<Rightarrow> if models \<noteq> [] then ui\<lparr>ku_selectedModels := ms_toggleAll models (ku_selectedModels ui)\<rparr> else ui
      | RemoveModel v \<Rightarrow> if models \<noteq> [] then ui\<lparr>ku_selectedModels := ms_remove v (ku_selectedModels ui)\<rparr> else ui
      | ChooseIdentity f s \<Rightarrow> if identity_fixed ui f then ui else ui\<lparr>ku_identity := (ku_identity ui)(f := s)\<rparr>)"

text \<open>The entries of the form; \<open>keyId\<close> is the text of the input that only a new key has enabled.\<close>

definition identity_entries :: "key_ui \<Rightarrow> form" where
  "identity_entries ui =
     concat (map (\<lambda>f. if identity_fixed ui f \<and> key_bound (ku_row ui) then [] else [(identity_name f, ku_identity ui f)])
       identityFields)"

definition APIKeyForm_data :: "jsstr list \<Rightarrow> key_ui \<Rightarrow> jsstr \<Rightarrow> form" where
  "APIKeyForm_data models ui keyId =
     (case ku_row ui of
        Some k \<Rightarrow> [(js ''key_id'', wk_key_id k),
          (js ''had_models'', if dvModels (Some k) \<noteq> [] then js ''true'' else js ''false'')] @
          (if key_bound (Some k) then [] else [(js ''bind_identity'', js ''true'')])
      | None \<Rightarrow> [(js ''key_id'', keyId)]) @
     identity_entries ui @
     (if models \<noteq> [] then map (\<lambda>v. (js ''allowed_models'', v)) (ku_selectedModels ui) else [])"

definition key_submittable :: "key_ui \<Rightarrow> bool" where
  "key_submittable ui = list_all (\<lambda>f. ku_identity ui f \<noteq> []) identityFields"

text \<open>A submission: the new state, the result and the secret of a new key, and the effects of a success.\<close>

definition APIKeyForm_submit :: "jsstr list \<Rightarrow> key_ui \<Rightarrow> jsstr \<Rightarrow> (key_ui \<times> key_result \<times> ui_effect list) act" where
  "APIKeyForm_submit models ui keyId =
     (let fd = APIKeyForm_data models ui keyId;
          settled = (\<lambda>r. if is_ok r then ui\<lparr>ku_selectedModels := dvModels (ku_row ui)\<rparr> else ui)
      in case ku_row ui of
           Some k \<Rightarrow> bnd (updateAPIKey fd) (\<lambda>r.
             ret (settled r, (r, None), if is_ok r then [FormReset, ShowSuccess (js ''actions.saved''), OnSuccess, RouterRefresh] else []))
         | None \<Rightarrow> bnd (createAPIKey fd) (\<lambda>(r, key).
             ret (settled r, (r, key), if is_ok r then [FormReset, OnSuccess, RouterRefresh] else [])))"

section \<open>The dialogs\<close>

text \<open>The page keeps the dialog for a new key, the secret that was returned and the row that is edited. A form exists
  while its dialog is open, so the answer to a submission is applied only if the form that sent it is still there:
  \<open>kp_form\<close> numbers the forms for new keys.\<close>

record keys_page =
  kp_createOpen :: bool
  kp_createdKey :: "jsstr option"
  kp_form :: nat
  kp_edit :: "WebKey option"

definition APIKeysPageClient_init :: keys_page where
  "APIKeysPageClient_init = \<lparr>kp_createOpen = False, kp_createdKey = None, kp_form = 0, kp_edit = None\<rparr>"

definition handleCreated :: "jsval \<Rightarrow> keys_page \<Rightarrow> keys_page" where
  "handleCreated plaintext p = (case plaintext of Some (JStr s) \<Rightarrow> if s \<noteq> [] then p\<lparr>kp_createdKey := Some s\<rparr> else p | _ \<Rightarrow> p)"

datatype keys_event = OpenNewKey | CloseForm | Dismiss | KeySaved | OpenKeyEdit WebKey | CloseKeyEdit | Answered nat jsval

text \<open>\<open>CloseForm\<close> is the cancel button or the frame of the dialog with the form; \<open>Dismiss\<close> is the frame of the dialog
  with the secret, which has an empty handler; \<open>KeySaved\<close> is its button. An answer carries the number of its form.\<close>

definition keys_page_step :: "keys_page \<Rightarrow> keys_event \<Rightarrow> keys_page" where
  "keys_page_step p e =
     (case e of
        OpenNewKey \<Rightarrow> if kp_createOpen p then p else p\<lparr>kp_createOpen := True, kp_form := Suc (kp_form p)\<rparr>
      | CloseForm \<Rightarrow> if kp_createOpen p \<and> kp_createdKey p = None then p\<lparr>kp_createOpen := False, kp_createdKey := None\<rparr> else p
      | Dismiss \<Rightarrow> p
      | KeySaved \<Rightarrow> if kp_createOpen p \<and> kp_createdKey p \<noteq> None then p\<lparr>kp_createOpen := False, kp_createdKey := None\<rparr> else p
      | OpenKeyEdit k \<Rightarrow> p\<lparr>kp_edit := Some k\<rparr>
      | CloseKeyEdit \<Rightarrow> p\<lparr>kp_edit := None\<rparr>
      | Answered n key \<Rightarrow> if kp_createOpen p \<and> kp_createdKey p = None \<and> n = kp_form p then handleCreated key p else p)"

datatype create_modal = NoModal | CreateForm nat | KeyReveal jsstr

definition CreateModalPanel :: "keys_page \<Rightarrow> create_modal" where
  "CreateModalPanel p = (if \<not> kp_createOpen p then NoModal
     else case kp_createdKey p of None \<Rightarrow> CreateForm (kp_form p) | Some s \<Rightarrow> KeyReveal s)"

definition keys_page_run :: "keys_event list \<Rightarrow> keys_page" where
  "keys_page_run es = foldl keys_page_step APIKeysPageClient_init es"

section \<open>Lemmas\<close>

lemma identity_cases: "(\<forall>f. P f) \<longleftrightarrow> P GroupId \<and> P ApplicationId \<and> P EnvironmentId"
  using identity_field.exhaust by (metis (full_types))

lemma key_bound_Some: "key_bound (Some k) \<longleftrightarrow> (\<forall>f. identity_stored k f)"
  using identity_cases [of "identity_stored k"] by (simp add: key_bound_def identityFields_def)

text \<open>The entries of the form by name.\<close>

lemma get_models: "k \<noteq> js ''allowed_models'' \<Longrightarrow> form_get (map (\<lambda>v. (js ''allowed_models'', v)) vs) k = None"
  by (induction vs) auto

lemma getAll_models: "form_getAll (map (\<lambda>v. (js ''allowed_models'', v)) vs) (js ''allowed_models'') = vs"
  by (induction vs) auto

lemma get_identity:
  "form_get (identity_entries ui) (identity_name f) =
     (if identity_fixed ui f \<and> key_bound (ku_row ui) then None else Some (ku_identity ui f))"
  by (cases f) (auto simp: identity_entries_def identityFields_def form_get_append split: if_splits)

lemma identity_entry_names: "fst ` set (identity_entries ui) \<subseteq> {js ''group_id'', js ''application_id'', js ''environment''}"
  by (auto simp: identity_entries_def identityFields_def)

lemma get_identity_other:
  "k \<notin> {js ''group_id'', js ''application_id'', js ''environment''} \<Longrightarrow> form_get (identity_entries ui) k = None"
  using identity_entry_names [of ui] by (intro form_get_None) blast

lemma edit_entries:
  assumes "ku_row ui = Some k"
  shows "form_get (APIKeyForm_data models ui keyId) (js ''key_id'') = Some (wk_key_id k)"
    "form_get (APIKeyForm_data models ui keyId) (js ''had_models'') = Some (if dvModels (Some k) \<noteq> [] then js ''true'' else js ''false'')"
    "form_get (APIKeyForm_data models ui keyId) (js ''bind_identity'') = (if key_bound (Some k) then None else Some (js ''true''))"
    "form_get (APIKeyForm_data models ui keyId) (identity_name f) =
       (if identity_fixed ui f \<and> key_bound (Some k) then None else Some (ku_identity ui f))"
    "form_getAll (APIKeyForm_data models ui keyId) (js ''allowed_models'') = (if models \<noteq> [] then ku_selectedModels ui else [])"
proof -
  have none: "form_getAll (identity_entries ui) (js ''allowed_models'') = []"
    using identity_entry_names [of ui] by (intro form_getAll_None) (auto simp: subset_iff)
  show "form_getAll (APIKeyForm_data models ui keyId) (js ''allowed_models'') = (if models \<noteq> [] then ku_selectedModels ui else [])"
    by (simp add: APIKeyForm_data_def assms form_getAll_append none getAll_models)
  have "identity_name f \<notin> {js ''key_id'', js ''had_models'', js ''bind_identity'', js ''allowed_models''}" by (cases f) simp_all
  then show "form_get (APIKeyForm_data models ui keyId) (identity_name f) =
       (if identity_fixed ui f \<and> key_bound (Some k) then None else Some (ku_identity ui f))"
    by (simp add: APIKeyForm_data_def assms form_get_append get_identity get_models split: option.splits)
qed (simp_all add: APIKeyForm_data_def assms form_get_append get_identity_other get_models)

subsection \<open>Inputs\<close>

definition key_ui_wf :: "WebKey option \<Rightarrow> key_ui \<Rightarrow> bool" where
  "key_ui_wf row ui \<longleftrightarrow> ku_row ui = row \<and> (\<forall>f. identity_fixed ui f \<longrightarrow> ku_identity ui f = ku_identity (APIKeyForm_init row) f)"

lemma key_init_wf: "key_ui_wf row (APIKeyForm_init row)"
  by (simp add: key_ui_wf_def APIKeyForm_init_def)

lemma key_input_wf: "key_ui_wf row ui \<Longrightarrow> key_ui_wf row (key_input_step models ui i)"
  by (auto simp: key_ui_wf_def key_input_step_def identity_fixed_def split: key_input.splits option.splits)

lemma key_inputs_wf: "key_ui_wf row ui \<Longrightarrow> key_ui_wf row (foldl (key_input_step models) ui is)"
  by (induction "is" arbitrary: ui) (auto intro: key_input_wf)

text \<open>The entries an edit submits, after any inputs.\<close>

lemma edited_entries:
  assumes "key_ui_wf (Some k) ui"
  shows "identity_stored k f \<Longrightarrow> \<not> key_bound (Some k) \<Longrightarrow>
      form_get (APIKeyForm_data models ui keyId) (identity_name f) = Some (identity_text k f)"
    and "key_bound (Some k) \<Longrightarrow> form_get (APIKeyForm_data models ui keyId) (identity_name f) = None"
  using assms edit_entries(4) [of ui k models keyId f]
  by (auto simp: key_ui_wf_def identity_fixed_def APIKeyForm_init_def key_bound_Some)

lemma updateAPIKey_sent:
  assumes "client_of pf w = Some c"
  shows "w_sent (snd (updateAPIKey fd pf w)) = w_sent w @ [mk_req c PATCH (js ''/api/v1/api-keys/{key_id}'')
    [(js ''key_id'', JStr (form_str fd (js ''key_id'')))] [] (Some (JObj (api_key_patch fd)))]"
proof -
  have "w_sent (snd (formError e pf w1)) = w_sent w1" for e w1
    using toFormError_sent [where e = e and pf = pf and w = w1]
    by (cases "toFormError e pf w1"; cases "fst (toFormError e pf w1)") (simp_all add: formError_def bnd_apply)
  then show ?thesis
    by (simp add: updateAPIKey_def try_write_attempt attempt_unwrap_run [OF assms] Let_def split: fetch_outcome.splits sum.splits)
qed

lemma APIKeyForm_submit_sent:
  assumes "ku_row ui = Some k" and "client_of pf w = Some c"
  shows "w_sent (snd (APIKeyForm_submit models ui keyId pf w)) = w_sent w @ [mk_req c PATCH (js ''/api/v1/api-keys/{key_id}'')
    [(js ''key_id'', JStr (js_trim (wk_key_id k)))] [] (Some (JObj (api_key_patch (APIKeyForm_data models ui keyId))))]"
  using updateAPIKey_sent [OF assms(2), of "APIKeyForm_data models ui keyId"] assms(1) edit_entries(1) [OF assms(1)]
  by (auto simp: APIKeyForm_submit_def bnd_apply Let_def form_str_def form_raw_def split: prod.splits sum.splits)

subsection \<open>The dialogs\<close>

text \<open>A secret is kept only while the dialog is open, and comes from an answer.\<close>

lemma created_open: "kp_createdKey (keys_page_run es) \<noteq> None \<longrightarrow> kp_createOpen (keys_page_run es)"
  by (induction es rule: rev_induct)
    (auto simp: keys_page_run_def APIKeysPageClient_init_def keys_page_step_def handleCreated_def
      split: keys_event.splits option.splits json.splits)

lemma created_answered:
  "kp_createdKey (keys_page_run es) = Some s \<Longrightarrow> \<exists>n. Answered n (Some (JStr s)) \<in> set es"
proof (induction es rule: rev_induct)
  case (snoc e es)
  let ?p = "keys_page_run es"
  have p: "keys_page_run (es @ [e]) = keys_page_step ?p e" by (simp add: keys_page_run_def)
  have "kp_createdKey ?p = Some s \<or> (\<exists>n. e = Answered n (Some (JStr s)))"
    using snoc.prems unfolding p
    by (auto simp: keys_page_step_def handleCreated_def split: keys_event.splits option.splits json.splits if_splits)
  then show ?case using snoc.IH by auto
qed (simp add: keys_page_run_def APIKeysPageClient_init_def)

text \<open>A form that was closed does not come back: its number is smaller than that of every later form.\<close>

definition form_gone :: "nat \<Rightarrow> keys_page \<Rightarrow> bool" where
  "form_gone n p \<longleftrightarrow> n < kp_form p \<or> n = kp_form p \<and> \<not> kp_createOpen p"

lemma form_gone_step: "form_gone n p \<Longrightarrow> form_gone n (keys_page_step p e)"
  by (auto simp: form_gone_def keys_page_step_def handleCreated_def split: keys_event.splits option.splits json.splits)

lemma form_gone_run: "form_gone n p \<Longrightarrow> form_gone n (foldl keys_page_step p es)"
  by (induction es arbitrary: p) (auto intro: form_gone_step)

lemma gone_ignored: "form_gone n p \<Longrightarrow> keys_page_step p (Answered n key) = p"
  by (auto simp: form_gone_def keys_page_step_def)

section \<open>Properties\<close>

text \<open>C31: What an edit of an API key can change. Whatever is entered, the request goes to the key that was opened. For a
  key whose identity is complete it carries the models and nothing else; otherwise it completes the identity, and
  every part that was stored is sent as it was.\<close>

theorem key_edit_scope:
  assumes "client_of pf w = Some c" and ui: "ui = foldl (key_input_step models) (APIKeyForm_init (Some k)) is"
  shows "\<exists>patch. w_sent (snd (APIKeyForm_submit models ui keyId pf w)) = w_sent w @ [mk_req c PATCH (js ''/api/v1/api-keys/{key_id}'')
       [(js ''key_id'', JStr (js_trim (wk_key_id k)))] [] (Some (JObj patch))] \<and>
    (key_bound (Some k) \<longrightarrow> map fst patch = [js ''allowed_models'']) \<and>
    (\<not> key_bound (Some k) \<longrightarrow> (\<forall>f. identity_name f \<in> fst ` set patch) \<and>
       (\<forall>n. wk_group_id k = Some (num_int n) \<and> 0 < n \<and> n \<le> 2 ^ 53 \<longrightarrow> map_of patch (js ''group_id'') = Some (JNum (num_int n))) \<and>
       (\<forall>n. wk_application_id k = Some (num_int n) \<and> 0 < n \<and> n \<le> 2 ^ 53 \<longrightarrow>
          map_of patch (js ''application_id'') = Some (JNum (num_int n))) \<and>
       (\<forall>s. wk_environment k = Some s \<and> s \<noteq> [] \<longrightarrow> map_of patch (js ''environment'') = Some (JStr s)))"
proof (intro exI conjI)
  let ?fd = "APIKeyForm_data models ui keyId"
  let ?patch = "api_key_patch ?fd"
  have wf: "key_ui_wf (Some k) ui" unfolding ui by (rule key_inputs_wf [OF key_init_wf])
  then have row: "ku_row ui = Some k" by (simp add: key_ui_wf_def)
  note e = edit_entries [OF row, of models keyId]
  show "w_sent (snd (APIKeyForm_submit models ui keyId pf w)) = w_sent w @ [mk_req c PATCH (js ''/api/v1/api-keys/{key_id}'')
       [(js ''key_id'', JStr (js_trim (wk_key_id k)))] [] (Some (JObj ?patch))]"
    by (rule APIKeyForm_submit_sent [OF row assms(1)])
  show "key_bound (Some k) \<longrightarrow> map fst ?patch = [js ''allowed_models'']"
    by (simp add: api_key_patch_def e(3) when_field_def Let_def)
  have bind: "map_of ?patch (identity_name f) = Some (case f of
        EnvironmentId \<Rightarrow> JStr (form_raw ?fd (js ''environment'')) | _ \<Rightarrow> JNum (form_num ?fd (identity_name f)))"
    if "\<not> key_bound (Some k)" for f
    using that by (cases f) (simp_all add: api_key_patch_def e(3) when_field_def Let_def)
  have names: "identity_name f \<in> fst ` set ?patch" if "\<not> key_bound (Some k)" for f
    using bind [OF that, of f] by (metis map_of_eq_None_iff option.distinct(1))
  have num: "num_truthy (num_int n) \<and> js_Number (num_repr (num_int n)) = num_int n" if "0 < n" "n \<le> 2 ^ 53" for n
    using that number_text_roundtrip(3) [of n] by simp
  show "\<not> key_bound (Some k) \<longrightarrow> (\<forall>f. identity_name f \<in> fst ` set ?patch) \<and>
       (\<forall>n. wk_group_id k = Some (num_int n) \<and> 0 < n \<and> n \<le> 2 ^ 53 \<longrightarrow> map_of ?patch (js ''group_id'') = Some (JNum (num_int n))) \<and>
       (\<forall>n. wk_application_id k = Some (num_int n) \<and> 0 < n \<and> n \<le> 2 ^ 53 \<longrightarrow>
          map_of ?patch (js ''application_id'') = Some (JNum (num_int n))) \<and>
       (\<forall>s. wk_environment k = Some s \<and> s \<noteq> [] \<longrightarrow> map_of ?patch (js ''environment'') = Some (JStr s))"
    using bind [of GroupId] bind [of ApplicationId] bind [of EnvironmentId] edited_entries(1) [OF wf, of GroupId models keyId]
      edited_entries(1) [OF wf, of ApplicationId models keyId] edited_entries(1) [OF wf, of EnvironmentId models keyId]
    by (auto simp: form_num_def form_raw_def num simp del: num_repr.simps intro: names)
qed

definition demo_key :: WebKey where
  "demo_key = \<lparr>wk_key_id = js ''ci'', wk_group_id = Some (num_int 4), wk_application_id = None, wk_environment = None,
     wk_allowed_models = Some [js ''gpt'']\<rparr>"

theorem key_edit_scope_witness:
  "\<exists>patch. w_sent (snd (APIKeyForm_submit [js ''gpt''] (foldl (key_input_step [js ''gpt'']) (APIKeyForm_init (Some demo_key))
       [ChooseIdentity GroupId (js ''9''), ChooseIdentity ApplicationId (js ''2'')]) [] sample_platform sample_world)) =
     w_sent sample_world @ [mk_req sample_client PATCH (js ''/api/v1/api-keys/{key_id}'')
       [(js ''key_id'', JStr (js_trim (js ''ci'')))] [] (Some (JObj patch))] \<and>
     map_of patch (js ''group_id'') = Some (JNum (num_int 4))"
proof -
  have "\<not> key_bound (Some demo_key)" "wk_group_id demo_key = Some (num_int 4)" "wk_key_id demo_key = js ''ci''"
    by (simp_all add: key_bound_def demo_key_def identityFields_def)
  with key_edit_scope [OF sample_client_of refl, of "[js ''gpt'']" demo_key
      "[ChooseIdentity GroupId (js ''9''), ChooseIdentity ApplicationId (js ''2'')]" "[]"]
  show ?thesis by auto
qed

text \<open>The models of a key after an edit that changes nothing. The request of a key with a complete identity carries the
  stored models when the page has models to offer; when it has none, or when the key was not restricted, it carries
  an empty list.\<close>

theorem key_resave_models:
  assumes "client_of pf w = Some c" and "key_bound (Some k)"
  shows "w_sent (snd (APIKeyForm_submit models (APIKeyForm_init (Some k)) keyId pf w)) =
     w_sent w @ [mk_req c PATCH (js ''/api/v1/api-keys/{key_id}'') [(js ''key_id'', JStr (js_trim (wk_key_id k)))] []
       (Some (JObj [(js ''allowed_models'', JArr (if models = [] then []
          else map JStr (filter (\<lambda>m. m \<noteq> []) (dvModels (Some k)))))]))]"
proof -
  let ?ui = "APIKeyForm_init (Some k)"
  have row: "ku_row ?ui = Some k" by (simp add: APIKeyForm_init_def)
  note e = edit_entries [OF row, of models keyId]
  have "api_key_patch (APIKeyForm_data models ?ui keyId) = [(js ''allowed_models'', JArr (if models = [] then []
      else map JStr (filter (\<lambda>m. m \<noteq> []) (dvModels (Some k)))))]"
    using assms(2) by (simp add: api_key_patch_def e(3,5) when_field_def Let_def) (simp add: APIKeyForm_init_def)
  then show ?thesis using APIKeyForm_submit_sent [OF row assms(1), of models keyId] by simp
qed

definition bound_key :: WebKey where
  "bound_key = \<lparr>wk_key_id = js ''ci'', wk_group_id = Some (num_int 4), wk_application_id = Some (num_int 2),
     wk_environment = Some (js ''prod''), wk_allowed_models = None\<rparr>"

theorem key_resave_models_witness:
  "w_sent (snd (APIKeyForm_submit [js ''gpt''] (APIKeyForm_init (Some bound_key)) [] sample_platform sample_world)) =
     w_sent sample_world @ [mk_req sample_client PATCH (js ''/api/v1/api-keys/{key_id}'') [(js ''key_id'', JStr (js_trim (js ''ci'')))] []
       (Some (JObj [(js ''allowed_models'', JArr [])]))]"
proof -
  have "key_bound (Some bound_key)" by (simp add: key_bound_def bound_key_def identityFields_def)
  from key_resave_models [OF sample_client_of this] show ?thesis by (simp add: dvModels_def bound_key_def)
qed

text \<open>C32: The secret of a new API key. It is shown when the answer reaches the form that asked for it, and only a secret
  that an answer carried is shown; then every event but the button that confirms it leaves it on the screen. When
  the form was closed before its answer arrives, the key exists and its secret is never shown.\<close>

theorem key_secret_shown:
  "(\<forall>(s :: jsstr) n. CreateModalPanel (keys_page_run es) = CreateForm n \<and> s \<noteq> [] \<longrightarrow>
      CreateModalPanel (keys_page_step (keys_page_run es) (Answered n (Some (JStr s)))) = KeyReveal s) \<and>
   (\<forall>s. CreateModalPanel (keys_page_run es) = KeyReveal s \<longrightarrow> (\<exists>n. Answered n (Some (JStr s)) \<in> set es) \<and>
      (\<forall>e. e \<noteq> KeySaved \<longrightarrow> CreateModalPanel (keys_page_step (keys_page_run es) e) = KeyReveal s) \<and>
      CreateModalPanel (keys_page_step (keys_page_run es) KeySaved) = NoModal) \<and>
   (\<forall>n later key. CreateModalPanel (keys_page_run es) = CreateForm n \<longrightarrow>
      keys_page_run (es @ [CloseForm] @ later @ [Answered n key]) = keys_page_run (es @ [CloseForm] @ later))"
proof (intro conjI allI impI)
  let ?p = "keys_page_run es"
  fix s :: jsstr and n assume "CreateModalPanel ?p = CreateForm n \<and> s \<noteq> []"
  then show "CreateModalPanel (keys_page_step ?p (Answered n (Some (JStr s)))) = KeyReveal s"
    by (auto simp: CreateModalPanel_def keys_page_step_def handleCreated_def split: if_splits option.splits)
next
  fix s assume "CreateModalPanel (keys_page_run es) = KeyReveal s"
  then show "\<exists>n. Answered n (Some (JStr s)) \<in> set es"
    by (intro created_answered) (auto simp: CreateModalPanel_def split: if_splits option.splits)
next
  fix s e assume "CreateModalPanel (keys_page_run es) = KeyReveal s" "e \<noteq> KeySaved"
  then show "CreateModalPanel (keys_page_step (keys_page_run es) e) = KeyReveal s"
    by (auto simp: CreateModalPanel_def keys_page_step_def split: if_splits option.splits keys_event.splits)
next
  fix s assume "CreateModalPanel (keys_page_run es) = KeyReveal s"
  then show "CreateModalPanel (keys_page_step (keys_page_run es) KeySaved) = NoModal"
    by (auto simp: CreateModalPanel_def keys_page_step_def split: if_splits option.splits)
next
  fix n later key assume "CreateModalPanel (keys_page_run es) = CreateForm n"
  then have "form_gone n (keys_page_step (keys_page_run es) CloseForm)"
    by (auto simp: form_gone_def CreateModalPanel_def keys_page_step_def split: if_splits option.splits)
  from gone_ignored [OF form_gone_run [OF this]]
  show "keys_page_run (es @ [CloseForm] @ later @ [Answered n key]) = keys_page_run (es @ [CloseForm] @ later)"
    by (simp add: keys_page_run_def)
qed

theorem key_secret_shown_witness:
  "CreateModalPanel (keys_page_step (keys_page_run [OpenNewKey]) (Answered 1 (Some (JStr (js ''sk''))))) = KeyReveal (js ''sk'') \<and>
   CreateModalPanel (keys_page_run [OpenNewKey, CloseForm, Answered 1 (Some (JStr (js ''sk'')))]) = NoModal"
proof -
  have "CreateModalPanel (keys_page_run [OpenNewKey]) = CreateForm 1"
    by (simp add: CreateModalPanel_def keys_page_run_def APIKeysPageClient_init_def keys_page_step_def)
  moreover have "CreateModalPanel (keys_page_run [OpenNewKey, CloseForm]) = NoModal"
    by (simp add: CreateModalPanel_def keys_page_run_def APIKeysPageClient_init_def keys_page_step_def)
  ultimately show ?thesis
    using key_secret_shown [of "[OpenNewKey]"] spec [OF spec [OF spec [OF conjunct2 [OF conjunct2 [OF key_secret_shown [of "[OpenNewKey]"]]], of 1], of "[]"], of "Some (JStr (js ''sk''))"]
    by simp
qed

end
