(* ===== verification/Web_Org.thy ===== *)
theory Web_Org
  imports Web_Form
begin

text \<open>
  The forms of the organisation pages of the Control Panel: groups (\<^verbatim>\<open>groups/form.tsx\<close>), tenants
  (\<^verbatim>\<open>tenants/form.tsx\<close>), applications (\<^verbatim>\<open>applications/form.tsx\<close>), operators (\<^verbatim>\<open>operators/create-form.tsx\<close>),
  quotas (\<^verbatim>\<open>quotas/client.tsx\<close>), gateway settings (\<^verbatim>\<open>settings/client.tsx\<close>) and the dialog for the own
  password (\<^verbatim>\<open>components/change-password-button.tsx\<close>), each with the Server Action it calls. Texts of uncontrolled
  inputs are arguments.
\<close>

section \<open>Groups, tenants, applications\<close>

definition GroupForm_data :: "jsstr \<Rightarrow> form" where
  "GroupForm_data name = [(js ''name'', name)]"

definition GroupForm_submit :: "jsstr \<Rightarrow> (form_result \<times> ui_effect list) act" where
  "GroupForm_submit name = submit_action createGroup [FormReset, OnSuccess, RouterRefresh] (GroupForm_data name)"

definition TenantForm_data :: "jsstr \<Rightarrow> form" where
  "TenantForm_data name = [(js ''name'', name)]"

definition TenantForm_submit :: "jsstr \<Rightarrow> (form_result \<times> ui_effect list) act" where
  "TenantForm_submit name = submit_action createTenant [FormReset, OnSuccess, RouterRefresh] (TenantForm_data name)"

text \<open>The owner is chosen among the groups, by name.\<close>

definition groupOptions :: "json list \<Rightarrow> jsstr list" where
  "groupOptions groups = map (\<lambda>g. json_String (coalesce (opt_prop (Some g) (js ''name'')) (JStr []))) groups"

definition ApplicationForm_data :: "jsstr \<Rightarrow> jsstr \<Rightarrow> form" where
  "ApplicationForm_data ownerGroup name = [(js ''name'', name), (js ''owner_group'', ownerGroup)]"

definition ApplicationForm_submit :: "jsstr \<Rightarrow> jsstr \<Rightarrow> (form_result \<times> ui_effect list) act" where
  "ApplicationForm_submit ownerGroup name =
     submit_action createApplication [FormReset, OnSuccess, RouterRefresh] (ApplicationForm_data ownerGroup name)"

section \<open>Operators\<close>

record WebOperator =
  wo_id :: jsnum
  wo_email :: jsstr
  wo_tenant_id :: "jsnum option"

record RoleOption =
  ro_id :: jsnum
  ro_name :: jsstr
  ro_scope_kind :: jsstr

record operator_ui =
  ou_row :: "WebOperator option"
  ou_roleId :: jsstr
  ou_tenantId :: jsstr

definition OperatorForm_init :: "WebOperator option \<Rightarrow> operator_ui" where
  "OperatorForm_init dv =
     \<lparr>ou_row = dv, ou_roleId = [],
      ou_tenantId = (case dv of None \<Rightarrow> [] | Some u \<Rightarrow> (case wo_tenant_id u of None \<Rightarrow> [] | Some n \<Rightarrow> num_repr n))\<rparr>"

definition selectedRole :: "RoleOption list \<Rightarrow> operator_ui \<Rightarrow> RoleOption option" where
  "selectedRole roles ui = find (\<lambda>r. num_repr (ro_id r) = ou_roleId ui) roles"

definition builtin_role :: "RoleOption \<Rightarrow> bool" where
  "builtin_role r \<longleftrightarrow> ro_name r = js ''super-admin'' \<or> ro_name r = js ''tenant-admin''"

text \<open>The built-in roles come first, with translated labels.\<close>

definition roleOptions :: "(jsstr \<Rightarrow> jsstr) \<Rightarrow> RoleOption list \<Rightarrow> (jsstr \<times> jsstr) list" where
  "roleOptions t roles =
     map (\<lambda>r. (num_repr (ro_id r), if ro_name r = js ''super-admin'' then t (js ''roles.super-admin'')
        else if ro_name r = js ''tenant-admin'' then t (js ''roles.tenant-admin'') else ro_name r)) (filter builtin_role roles) @
     map (\<lambda>r. (num_repr (ro_id r), ro_name r)) (filter (\<lambda>r. \<not> builtin_role r) roles)"

definition tenant_shown :: "RoleOption list \<Rightarrow> operator_ui \<Rightarrow> bool" where
  "tenant_shown roles ui = (case selectedRole roles ui of None \<Rightarrow> False | Some r \<Rightarrow> ro_scope_kind r = js ''tenant'')"

text \<open>The inputs: a role among the options, for a new operator only; a tenant while its select is shown.\<close>

datatype operator_input = ChooseRole jsstr | ChooseTenant jsstr

definition operator_step :: "RoleOption list \<Rightarrow> jsnum list \<Rightarrow> operator_ui \<Rightarrow> operator_input \<Rightarrow> operator_ui" where
  "operator_step roles tenants ui i =
     (case i of
        ChooseRole v \<Rightarrow> if ou_row ui = None \<and> v \<in> fst ` set (roleOptions id roles) then ui\<lparr>ou_roleId := v\<rparr> else ui
      | ChooseTenant v \<Rightarrow> if tenant_shown roles ui \<and> v \<in> num_repr ` set tenants then ui\<lparr>ou_tenantId := v\<rparr> else ui)"

definition OperatorForm_data :: "RoleOption list \<Rightarrow> operator_ui \<Rightarrow> jsstr \<Rightarrow> jsstr \<Rightarrow> form" where
  "OperatorForm_data roles ui email password =
     (case ou_row ui of None \<Rightarrow> [] | Some u \<Rightarrow> [(js ''id'', num_repr (wo_id u))]) @
     [(js ''email'', email), (js ''password'', password), (js ''role_id'', ou_roleId ui)] @
     (if ou_row ui = None then [(js ''_role_select'', ou_roleId ui)] else []) @
     (if tenant_shown roles ui then [(js ''tenant_id'', ou_tenantId ui)] else [])"

definition OperatorForm_action :: "bool \<Rightarrow> form \<Rightarrow> form_result act" where
  "OperatorForm_action isEdit = (if isEdit then updateOperator else createOperator)"

definition OperatorForm_submit :: "RoleOption list \<Rightarrow> operator_ui \<Rightarrow> jsstr \<Rightarrow> jsstr \<Rightarrow> (form_result \<times> ui_effect list) act" where
  "OperatorForm_submit roles ui email password =
     submit_action (OperatorForm_action (ou_row ui \<noteq> None)) [FormReset, OnSuccess, RouterRefresh] (OperatorForm_data roles ui email password)"

section \<open>Quotas\<close>

text \<open>The defaults of the dialog: the scope of the page and its currency. A success also closes the dialog.\<close>

definition topup_defaults :: "jsstr \<Rightarrow> jsstr \<Rightarrow> jsstr \<times> jsstr" where
  "topup_defaults scope currency = (scope, if currency = [] then js ''USD'' else currency)"

definition topup_data :: "jsstr \<Rightarrow> jsstr \<Rightarrow> jsstr \<Rightarrow> form" where
  "topup_data scope qty currency = [(js ''scope'', scope), (js ''amount'', qty), (js ''currency'', currency)]"

definition topup_submit :: "jsstr \<Rightarrow> jsstr \<Rightarrow> jsstr \<Rightarrow> (form_result \<times> ui_effect list) act" where
  "topup_submit scope qty currency = submit_action topupQuota [FormReset, OnSuccess, RouterRefresh] (topup_data scope qty currency)"

section \<open>Gateway settings\<close>

record TraceSettings =
  ts_capture_payload_enabled :: "bool option"
  ts_max_body_kb :: "jsnum option"
  ts_retention_days :: "jsnum option"

record GatewaySettings =
  gs_trace :: "TraceSettings option"
  gs_anthropic_disabled :: "bool option option"

text \<open>The fields of the form: two boxes, submitted as \<^verbatim>\<open>true\<close> when they are checked, and two numbers.\<close>

record settings_fields =
  sf_capture :: bool
  sf_max_body_kb :: jsstr
  sf_retention_days :: jsstr
  sf_anthropic :: bool

definition trace_or_empty :: "GatewaySettings \<Rightarrow> TraceSettings" where
  "trace_or_empty g = (case gs_trace g of Some t \<Rightarrow> t
     | None \<Rightarrow> \<lparr>ts_capture_payload_enabled = None, ts_max_body_kb = None, ts_retention_days = None\<rparr>)"

definition num_or :: "jsnum \<Rightarrow> jsnum option \<Rightarrow> jsnum" where
  "num_or d v = (case v of None \<Rightarrow> d | Some n \<Rightarrow> n)"

definition SettingsClient_init :: "GatewaySettings \<Rightarrow> settings_fields" where
  "SettingsClient_init g =
     \<lparr>sf_capture = (ts_capture_payload_enabled (trace_or_empty g) = Some True),
      sf_max_body_kb = num_repr (num_or (num_int 0) (ts_max_body_kb (trace_or_empty g))),
      sf_retention_days = num_repr (num_or (num_int 7) (ts_retention_days (trace_or_empty g))),
      sf_anthropic = (gs_anthropic_disabled g = Some (Some True))\<rparr>"

definition SettingsClient_data :: "settings_fields \<Rightarrow> form" where
  "SettingsClient_data s =
     (if sf_capture s then [(js ''capture_enabled'', js ''true'')] else []) @
     [(js ''max_body_kb'', sf_max_body_kb s), (js ''retention_days'', sf_retention_days s)] @
     (if sf_anthropic s then [(js ''anthropic_disabled'', js ''true'')] else [])"

definition SettingsClient_submit :: "settings_fields \<Rightarrow> form_result act" where
  "SettingsClient_submit s = updateSettings (SettingsClient_data s)"

section \<open>The own password\<close>

text \<open>The dialog: whether it is open, the last result, the message of success and whether the timer that closes it is
  running.\<close>

record password_ui =
  pw_open :: bool
  pw_state :: "form_result option"
  pw_success :: bool
  pw_timer :: bool

definition ChangePasswordButton_init :: password_ui where
  "ChangePasswordButton_init = \<lparr>pw_open = False, pw_state = None, pw_success = False, pw_timer = False\<rparr>"

text \<open>The effect and its cleanup, which React runs before the effect runs again.\<close>

definition pw_effect :: "password_ui \<Rightarrow> password_ui" where
  "pw_effect ui = (if pw_state ui = Some FormOk \<and> \<not> pw_success ui then ui\<lparr>pw_success := True, pw_timer := True\<rparr> else ui)"

definition pw_cleanup :: "password_ui \<Rightarrow> password_ui" where
  "pw_cleanup ui = ui\<lparr>pw_timer := False\<rparr>"

text \<open>What happens after a rendering in which \<^verbatim>\<open>state\<close> or \<^verbatim>\<open>success\<close> is new: cleanup and effect, and once more when
  the effect has changed \<^verbatim>\<open>success\<close>.\<close>

function pw_settle :: "password_ui \<Rightarrow> password_ui" where
  "pw_settle ui = (let u = pw_effect (pw_cleanup ui) in if pw_success u = pw_success ui then u else pw_settle u)"
  by pat_completeness auto

termination pw_settle
  by (relation "measure (\<lambda>ui. if pw_success ui then 0 else 1)") (auto simp: pw_effect_def pw_cleanup_def)

declare pw_settle.simps [simp del]

datatype password_event = OpenPassword | PasswordAnswer form_result | ClosePassword | TimerFires

text \<open>\<^verbatim>\<open>handleSubmit\<close> runs the action, whose answer is a new \<^verbatim>\<open>state\<close>; \<^verbatim>\<open>handleClose\<close> stops the timer and resets the
  dialog, and so does the timer. The button stays on the page, so an answer is taken whether the dialog is open or not.\<close>

definition password_step :: "password_ui \<Rightarrow> password_event \<Rightarrow> password_ui" where
  "password_step ui e =
     (let shut = (\<lambda>u. let u' = u\<lparr>pw_open := False, pw_success := False, pw_timer := False\<rparr>
                      in if pw_success u then pw_settle u' else u')
      in case e of
           OpenPassword \<Rightarrow> ui\<lparr>pw_open := True\<rparr>
         | PasswordAnswer r \<Rightarrow> pw_settle (ui\<lparr>pw_state := Some r\<rparr>)
         | ClosePassword \<Rightarrow> shut ui
         | TimerFires \<Rightarrow> if pw_timer ui then shut ui else ui)"

definition password_run :: "password_event list \<Rightarrow> password_ui" where
  "password_run es = foldl password_step ChangePasswordButton_init es"

section \<open>The contract\<close>

interpretation group_save: action_form createGroup "[(js ''/groups'', None)]"
  by (rule action_form.intro) (rule createGroup.admin_write_axioms)

interpretation tenant_save: action_form createTenant "[(js ''/tenants'', None)]"
  by (rule action_form.intro) (rule createTenant.admin_write_axioms)

interpretation application_save: action_form createApplication "[(js ''/applications'', None)]"
  by (rule action_form.intro) (rule createApplication.admin_write_axioms)

interpretation operator_save: action_form "OperatorForm_action e" "[(js ''/operators'', None)]" for e
  by (rule action_form.intro, cases e)
    (simp_all add: OperatorForm_action_def createOperator.admin_write_axioms updateOperator.admin_write_axioms)

interpretation quota_topup: action_form topupQuota "[(js ''/quotas'', None)]"
  by (rule action_form.intro) (rule topupQuota.admin_write_axioms)

interpretation password_change: action_form changePassword "[]"
  by (rule action_form.intro) (rule changePassword.admin_write_axioms)

section \<open>Lemmas\<close>

subsection \<open>Operators\<close>

text \<open>What inputs keep: the row; the role is one of the list or none; the tenant is one of the list or the stored one.\<close>

definition operator_wf :: "RoleOption list \<Rightarrow> jsnum list \<Rightarrow> WebOperator option \<Rightarrow> operator_ui \<Rightarrow> bool" where
  "operator_wf roles tenants dv ui \<longleftrightarrow> ou_row ui = dv \<and> (dv \<noteq> None \<longrightarrow> ou_roleId ui = []) \<and>
     (ou_roleId ui = [] \<or> selectedRole roles ui \<noteq> None) \<and>
     ou_tenantId ui \<in> insert (ou_tenantId (OperatorForm_init dv)) (num_repr ` set tenants)"

lemma role_option_values: "fst ` set (roleOptions t roles) = num_repr ` ro_id ` set roles"
  by (auto simp: roleOptions_def image_Un image_image)

lemma selectedRole_listed: "v \<in> num_repr ` ro_id ` set roles \<Longrightarrow> selectedRole roles (ui\<lparr>ou_roleId := v\<rparr>) \<noteq> None"
  by (auto simp: selectedRole_def find_None_iff)

lemma operator_init_wf: "operator_wf roles tenants dv (OperatorForm_init dv)"
  by (simp add: operator_wf_def OperatorForm_init_def)

lemma operator_step_wf: "operator_wf roles tenants dv ui \<Longrightarrow> operator_wf roles tenants dv (operator_step roles tenants ui i)"
  using selectedRole_listed [of _ roles ui]
  by (auto simp: operator_wf_def operator_step_def role_option_values selectedRole_def split: operator_input.splits)

lemma operator_inputs_wf:
  "operator_wf roles tenants dv ui \<Longrightarrow> operator_wf roles tenants dv (foldl (operator_step roles tenants) ui is)"
  by (induction "is" arbitrary: ui) (auto intro: operator_step_wf)

text \<open>The identifiers of a page.\<close>

definition id_number :: "jsnum \<Rightarrow> bool" where
  "id_number n \<longleftrightarrow> (\<exists>k. n = num_int k \<and> 0 < k \<and> k \<le> 2 ^ 53)"

lemma id_text:
  assumes "id_number n"
  shows "num_repr n \<noteq> []" "js_trim (num_repr n) = num_repr n" "js_Number (num_repr n) = n" "num_truthy n"
  using assms number_text_roundtrip by (auto simp: id_number_def)

lemma operator_entries:
  "form_get (OperatorForm_data roles ui email password) (js ''email'') = Some email"
  "form_get (OperatorForm_data roles ui email password) (js ''password'') = Some password"
  "form_get (OperatorForm_data roles ui email password) (js ''role_id'') = Some (ou_roleId ui)"
  "form_get (OperatorForm_data roles ui email password) (js ''tenant_id'') =
     (if tenant_shown roles ui then Some (ou_tenantId ui) else None)"
  "form_get (OperatorForm_data roles ui email password) (js ''id'') = map_option (\<lambda>u. num_repr (wo_id u)) (ou_row ui)"
  by (auto simp: OperatorForm_data_def form_get_append split: option.splits)

lemma OperatorForm_submit_world:
  "snd (OperatorForm_submit roles ui email password pf w) =
     snd (OperatorForm_action (ou_row ui \<noteq> None) (OperatorForm_data roles ui email password) pf w)"
  by (auto simp: OperatorForm_submit_def submit_action_run split: prod.splits sum.splits)

subsection \<open>Gateway settings\<close>

lemma updateSettings_sent:
  assumes "client_of pf w = Some c"
  shows "w_sent (snd (updateSettings f pf w)) =
    w_sent w @ [mk_req c PUT (js ''/api/v1/gateway-settings'') [] [] (Some (settings_body f))]"
proof -
  have "serverAdminClient pf w = (Inr c, w)"
    using serverAdminClient_run [of pf w] assms by auto
  then show ?thesis
    by (auto simp: updateSettings_def guarded_write_attempt attempt_def bnd_apply call_def Let_def
        check_error_def rbind_def split: fetch_outcome.splits sum.splits option.splits)
qed

subsection \<open>The password dialog\<close>

lemma pw_settle_eq:
  "pw_settle ui = ui\<lparr>pw_success := (pw_success ui \<or> pw_state ui = Some FormOk), pw_timer := False\<rparr>"
  by (cases "pw_state ui = Some FormOk \<and> \<not> pw_success ui")
    (simp_all add: pw_settle.simps pw_effect_def pw_cleanup_def Let_def)

lemma password_inv: "\<not> pw_timer (password_run es) \<and> (pw_state (password_run es) = Some FormOk \<longrightarrow> pw_success (password_run es))"
  by (induction es rule: rev_induct)
    (auto simp: password_run_def ChangePasswordButton_init_def password_step_def pw_settle_eq Let_def split: password_event.splits)

text \<open>A new password is sent without the blanks around it, but signing in sends what is typed: a password with such a
  blank cannot be used as it was chosen.\<close>

lemma password_blanks:
  assumes "client_of pf w = Some c" and "js_trim p \<noteq> []"
  shows "w_sent (snd (changePassword [(js ''password'', p)] pf w)) = w_sent w @ [mk_req c POST (js ''/api/v1/operators/me/password'') [] []
      (Some (JObj [(js ''password'', JStr (js_trim p))]))]"
    and "rq_body (login_req u [(js ''email'', e), (js ''password'', p)]) = Some (JObj [(js ''email'', JStr e), (js ''password'', JStr p)])"
  using assms(2)
  by (simp_all add: changePassword_def form_str_def form_raw_def Let_def guarded_send_run [OF assms(1)] login_req_def mk_req_def)

section \<open>Properties\<close>

text \<open>What the operator form sends: for a new operator one creation, when an address, a password and a role are given, with
  the tenant when the role belongs to one and one was chosen; for an edit one update of the operator with the address
  and the password that are filled in, when one of them is.\<close>

definition operator_requests :: "admin_client \<Rightarrow> RoleOption list \<Rightarrow> WebOperator option \<Rightarrow> operator_ui \<Rightarrow> jsstr \<Rightarrow> jsstr \<Rightarrow> areq list" where
  "operator_requests c roles dv ui email password =
     (let field = (\<lambda>k v. when_field (v \<noteq> []) k (JStr v)) in
      case dv of
        None \<Rightarrow>
          (case selectedRole roles ui of
             None \<Rightarrow> []
           | Some r \<Rightarrow>
               if email = [] \<or> password = [] then []
               else [mk_req c POST (js ''/api/v1/operators'') [] []
                 (Some (JObj ([(js ''email'', JStr email), (js ''password'', JStr password), (js ''role_id'', JNum (ro_id r))] @
                    when_field (ro_scope_kind r = js ''tenant'' \<and> ou_tenantId ui \<noteq> []) (js ''tenant_id'')
                      (JNum (js_Number (ou_tenantId ui))))))])
      | Some u \<Rightarrow>
          if email = [] \<and> password = [] then []
          else [mk_req c PUT (js ''/api/v1/operators/{id}'') [(js ''id'', JNum (wo_id u))] []
            (Some (JObj (field (js ''email'') email @ field (js ''password'') password)))])"

text \<open>C33: What the operator form sends, whatever was chosen and typed. A new operator gets the role that is selected, and
  a tenant exactly when that role belongs to a tenant and one was chosen; without an address, a password or a role
  nothing is sent. An edit goes to the operator it was opened for and sends the address and the password that are
  filled in, an empty password keeping the old one, and never a role or a tenant; with neither nothing is sent.\<close>

theorem operator_form_requests:
  assumes "client_of pf w = Some c" and "list_all id_number tenants" and "\<forall>r \<in> set roles. id_number (ro_id r)"
    and "\<forall>u. dv = Some u \<longrightarrow> id_number (wo_id u)"
    and "ui = foldl (operator_step roles tenants) (OperatorForm_init dv) is"
  shows "w_sent (snd (OperatorForm_submit roles ui email password pf w)) =
    w_sent w @ operator_requests c roles dv ui (js_trim email) (js_trim password)"
proof -
  have wf: "operator_wf roles tenants dv ui" unfolding assms(5) by (rule operator_inputs_wf [OF operator_init_wf])
  then have row: "ou_row ui = dv" by (simp add: operator_wf_def)
  let ?fd = "OperatorForm_data roles ui email password"
  have [simp]: "js_trim [] = []" by (simp add: form_eval)
  have str: "form_str ?fd (js ''email'') = js_trim email" "form_str ?fd (js ''password'') = js_trim password"
    "form_str ?fd (js ''role_id'') = js_trim (ou_roleId ui)"
    "form_str ?fd (js ''tenant_id'') = (if tenant_shown roles ui then js_trim (ou_tenantId ui) else [])"
    using form_str_Some [OF operator_entries(1)] form_str_Some [OF operator_entries(2)] form_str_Some [OF operator_entries(3)]
      form_str_Some [of ?fd "js ''tenant_id''"] form_str_None [of ?fd "js ''tenant_id''"] by (simp_all add: operator_entries)
  show ?thesis
  proof (cases dv)
    case None
    have none: "ou_roleId ui = []" if "selectedRole roles ui = None" using wf that by (auto simp: operator_wf_def)
    have sel: "num_repr (ro_id r) = ou_roleId ui" "id_number (ro_id r)" if "selectedRole roles ui = Some r" for r
      using that assms(3) by (auto simp: selectedRole_def find_Some_iff)
    have tenant: "js_trim (ou_tenantId ui) = ou_tenantId ui"
      using wf None assms(2) id_text(2) by (auto simp: operator_wf_def OperatorForm_init_def list_all_iff form_eval)
    show ?thesis
    proof (cases "selectedRole roles ui")
      case None
      with none \<open>dv = None\<close> show ?thesis
        by (simp add: OperatorForm_submit_world OperatorForm_action_def row createOperator_def str Let_def operator_requests_def)
    next
      case (Some r)
      with \<open>dv = None\<close> sel [OF Some] id_text [of "ro_id r"] tenant show ?thesis
        by (auto simp: OperatorForm_submit_world OperatorForm_action_def row createOperator_def str Let_def
            guarded_send_run [OF assms(1)] tenant_shown_def when_field_def operator_requests_def)
    qed
  next
    case (Some u)
    have id: "id_number (wo_id u)" using assms(4) Some by simp
    have "form_num ?fd (js ''id'') = wo_id u" using Some id id_text(3) by (simp add: form_num_def operator_entries row)
    moreover have "ou_roleId ui = []" using wf Some by (simp add: operator_wf_def)
    then have "selectedRole roles ui = None" using assms(3) id_text(1) by (auto simp: selectedRole_def find_None_iff)
    ultimately show ?thesis using Some id_text(4) [OF id]
      by (simp add: OperatorForm_submit_world OperatorForm_action_def row updateOperator_def str Let_def guarded_send_run [OF assms(1)]
          tenant_shown_def operator_requests_def)
  qed
qed

definition demo_roles :: "RoleOption list" where
  "demo_roles = [\<lparr>ro_id = num_int 1, ro_name = js ''super-admin'', ro_scope_kind = js ''global''\<rparr>,
     \<lparr>ro_id = num_int 2, ro_name = js ''tenant-admin'', ro_scope_kind = js ''tenant''\<rparr>]"

text \<open>A tenant administrator for tenant 5, and an edit that keeps the password.\<close>

lemma demo_operator:
  fixes ui defines "ui \<equiv> foldl (operator_step demo_roles [num_int 5]) (OperatorForm_init None)
     [ChooseRole (num_repr (num_int 2)), ChooseTenant (num_repr (num_int 5))]"
  shows "selectedRole demo_roles ui = Some \<lparr>ro_id = num_int 2, ro_name = js ''tenant-admin'', ro_scope_kind = js ''tenant''\<rparr>"
    "ou_tenantId ui = num_repr (num_int 5)"
proof -
  have ne: "num_repr (num_int 1) \<noteq> num_repr (num_int 2)"
    using number_text_roundtrip(3) [of 1] number_text_roundtrip(3) [of 2] by force
  show "selectedRole demo_roles ui = Some \<lparr>ro_id = num_int 2, ro_name = js ''tenant-admin'', ro_scope_kind = js ''tenant''\<rparr>"
    "ou_tenantId ui = num_repr (num_int 5)"
    using ne by (simp_all add: ui_def operator_step_def OperatorForm_init_def demo_roles_def roleOptions_def builtin_role_def
        tenant_shown_def selectedRole_def del: num_repr.simps)
qed

theorem operator_form_requests_witness:
  "w_sent (snd (OperatorForm_submit demo_roles (foldl (operator_step demo_roles [num_int 5]) (OperatorForm_init None)
       [ChooseRole (num_repr (num_int 2)), ChooseTenant (num_repr (num_int 5))]) (js ''a@b'') (js ''secret'') sample_platform sample_world)) =
     [mk_req sample_client POST (js ''/api/v1/operators'') [] [] (Some (JObj [(js ''email'', JStr (js ''a@b'')),
        (js ''password'', JStr (js ''secret'')), (js ''role_id'', JNum (num_int 2)), (js ''tenant_id'', JNum (num_int 5))]))] \<and>
   w_sent (snd (OperatorForm_submit demo_roles (foldl (operator_step demo_roles []) (OperatorForm_init
       (Some \<lparr>wo_id = num_int 7, wo_email = js ''a@b'', wo_tenant_id = None\<rparr>)) []) (js ''c@d'') [] sample_platform sample_world)) =
     [mk_req sample_client PUT (js ''/api/v1/operators/{id}'') [(js ''id'', JNum (num_int 7))] []
        (Some (JObj [(js ''email'', JStr (js ''c@d''))]))]"
proof
  have ids: "list_all id_number [num_int 5]" "\<forall>r \<in> set demo_roles. id_number (ro_id r)" "id_number (num_int 7)"
    by (auto simp: id_number_def demo_roles_def intro: exI [of _ 1] exI [of _ 2] exI [of _ 5] exI [of _ 7])
  have trim: "js_trim (js ''a@b'') = js ''a@b''" "js_trim (js ''secret'') = js ''secret''" "js_trim (js ''c@d'') = js ''c@d''" "js_trim [] = []"
    by (simp_all add: form_eval)
  have sent: "w_sent sample_world = []" by (simp add: sample_world_def)
  have five: "num_repr (num_int 5) \<noteq> []" "js_Number (num_repr (num_int 5)) = num_int 5" using number_text_roundtrip [of 5] by auto
  show "w_sent (snd (OperatorForm_submit demo_roles (foldl (operator_step demo_roles [num_int 5]) (OperatorForm_init None)
       [ChooseRole (num_repr (num_int 2)), ChooseTenant (num_repr (num_int 5))]) (js ''a@b'') (js ''secret'') sample_platform sample_world)) =
     [mk_req sample_client POST (js ''/api/v1/operators'') [] [] (Some (JObj [(js ''email'', JStr (js ''a@b'')),
        (js ''password'', JStr (js ''secret'')), (js ''role_id'', JNum (num_int 2)), (js ''tenant_id'', JNum (num_int 5))]))]"
    (is "w_sent (snd (OperatorForm_submit _ ?ui _ _ _ _)) = [?q]")
  proof -
    have "\<forall>u. None = Some u \<longrightarrow> id_number (wo_id u)" by simp
    from operator_form_requests [OF sample_client_of ids(1,2) this refl, of "[ChooseRole (num_repr (num_int 2)),
        ChooseTenant (num_repr (num_int 5))]" "js ''a@b''" "js ''secret''"]
    have "w_sent (snd (OperatorForm_submit demo_roles ?ui (js ''a@b'') (js ''secret'') sample_platform sample_world)) =
        operator_requests sample_client demo_roles None ?ui (js ''a@b'') (js ''secret'')"
      unfolding trim sent append_Nil .
    also have "\<dots> = [?q]"
      unfolding operator_requests_def Let_def option.case demo_operator
      using five by (simp add: when_field_def del: num_repr.simps)
    finally show ?thesis .
  qed
  show "w_sent (snd (OperatorForm_submit demo_roles (foldl (operator_step demo_roles []) (OperatorForm_init
       (Some \<lparr>wo_id = num_int 7, wo_email = js ''a@b'', wo_tenant_id = None\<rparr>)) []) (js ''c@d'') [] sample_platform sample_world)) =
     [mk_req sample_client PUT (js ''/api/v1/operators/{id}'') [(js ''id'', JNum (num_int 7))] []
        (Some (JObj [(js ''email'', JStr (js ''c@d''))]))]"
    using operator_form_requests [OF sample_client_of _ ids(2) _ refl, of "[]" "Some \<lparr>wo_id = num_int 7, wo_email = js ''a@b'', wo_tenant_id = None\<rparr>"
        "[]" "js ''c@d''" "[]"] ids(3)
    by (simp add: operator_requests_def trim sent Let_def)
qed

text \<open>Saving the gateway settings without a change puts back the stored values, and the documented defaults for values
  that are not stored.\<close>

theorem panel_settings_resave:
  assumes "client_of pf w = Some c"
    and "num_or (num_int 0) (ts_max_body_kb (trace_or_empty g)) = num_int kb" "0 \<le> kb" "kb \<le> 2 ^ 53"
    and "num_or (num_int 7) (ts_retention_days (trace_or_empty g)) = num_int days" "0 \<le> days" "days \<le> 2 ^ 53"
  shows "w_sent (snd (SettingsClient_submit (SettingsClient_init g) pf w)) = w_sent w @ [mk_req c PUT (js ''/api/v1/gateway-settings'') [] []
    (Some (JObj [(js ''trace'', JObj [(js ''capture_payload_enabled'', JBool (ts_capture_payload_enabled (trace_or_empty g) = Some True)),
        (js ''max_body_kb'', JNum (num_int kb)), (js ''retention_days'', JNum (num_int days))]),
      (js ''ingress'', JObj [(js ''anthropic_disabled'', JBool (gs_anthropic_disabled g = Some (Some True)))])]))]"
proof -
  let ?fd = "SettingsClient_data (SettingsClient_init g)"
  have get: "form_get ?fd (js ''max_body_kb'') = Some (num_repr (num_int kb))" "form_get ?fd (js ''retention_days'') = Some (num_repr (num_int days))"
    "form_get ?fd (js ''capture_enabled'') = (if ts_capture_payload_enabled (trace_or_empty g) = Some True then Some (js ''true'') else None)"
    "form_get ?fd (js ''anthropic_disabled'') = (if gs_anthropic_disabled g = Some (Some True) then Some (js ''true'') else None)"
    using assms(2,5) by (simp_all add: SettingsClient_data_def SettingsClient_init_def form_get_append)
  have "settings_body ?fd = JObj [(js ''trace'', JObj [(js ''capture_payload_enabled'', JBool (ts_capture_payload_enabled (trace_or_empty g) = Some True)),
        (js ''max_body_kb'', JNum (num_int kb)), (js ''retention_days'', JNum (num_int days))]),
      (js ''ingress'', JObj [(js ''anthropic_disabled'', JBool (gs_anthropic_disabled g = Some (Some True)))])]"
    using number_text_roundtrip(3) [OF assms(3,4)] number_text_roundtrip(3) [OF assms(6,7)]
    by (simp add: settings_body_def setting_num_def get Let_def del: num_repr.simps)
  then show ?thesis by (simp add: SettingsClient_submit_def updateSettings_sent [OF assms(1)])
qed

theorem panel_settings_resave_witness:
  "w_sent (snd (SettingsClient_submit (SettingsClient_init \<lparr>gs_trace = None, gs_anthropic_disabled = Some (Some True)\<rparr>) sample_platform sample_world)) =
    w_sent sample_world @ [mk_req sample_client PUT (js ''/api/v1/gateway-settings'') [] []
    (Some (JObj [(js ''trace'', JObj [(js ''capture_payload_enabled'', JBool False),
        (js ''max_body_kb'', JNum (num_int 0)), (js ''retention_days'', JNum (num_int 7))]),
      (js ''ingress'', JObj [(js ''anthropic_disabled'', JBool True)])]))]"
  using panel_settings_resave [OF sample_client_of, of "\<lparr>gs_trace = None, gs_anthropic_disabled = Some (Some True)\<rparr>" 0 7]
  by (simp add: num_or_def trace_or_empty_def)

text \<open>The dialog for the own password does not close itself. In every run the timer that a success sets is stopped
  before it can fire, by the cleanup of the effect that set it: the dialog closes only by its buttons, and after a
  success it is opened again with the message of success, before anything is submitted.\<close>

theorem password_dialog_stays:
  "\<not> pw_timer (password_run es) \<and> password_run (es @ [TimerFires]) = password_run es \<and>
   (pw_state (password_run es) = Some FormOk \<longrightarrow> pw_success (password_run (es @ [ClosePassword, OpenPassword])))"
  using password_inv [of es]
  by (auto simp: password_run_def password_step_def pw_settle_eq Let_def)

theorem password_dialog_stays_witness:
  "pw_success (password_run [OpenPassword, PasswordAnswer FormOk, ClosePassword, OpenPassword]) \<and>
   pw_open (password_run [OpenPassword, PasswordAnswer FormOk, TimerFires])"
proof -
  have "pw_state (password_run [OpenPassword, PasswordAnswer FormOk]) = Some FormOk"
    "pw_open (password_run [OpenPassword, PasswordAnswer FormOk])"
    by (simp_all add: password_run_def password_step_def pw_settle_eq Let_def ChangePasswordButton_init_def)
  then show ?thesis using password_dialog_stays [of "[OpenPassword, PasswordAnswer FormOk]"] by simp
qed

end
