(* ===== verification/Web_Budgets.thy ===== *)
theory Web_Budgets
  imports Web_Filters
begin

text \<open>
  The budget page of the Control Panel: the form of a policy (\<^verbatim>\<open>budgets/form.tsx\<close>), the form that resolves a
  reservation (\<^verbatim>\<open>budgets/resolve-form.tsx\<close>), the addresses the page moves between (\<^verbatim>\<open>budgets/client.tsx\<close>) and
  the keyboard of the dialogs (\<^verbatim>\<open>components/modal.tsx\<close>). The lemmas compose the forms with the Server Actions: which
  request follows a confirmation.
\<close>

section \<open>Policies\<close>

record BudgetPolicy =
  bp_id :: jsnum
  bp_version :: jsnum
  bp_enabled :: bool
  bp_limit :: jsnum

record budget_ui =
  bu_policy :: "BudgetPolicy option"
  bu_scope :: jsstr
  bu_environment :: jsstr
  bu_period :: jsstr
  bu_currency :: jsstr
  bu_mode :: jsstr
  bu_enabled :: jsstr
  bu_limit :: jsstr
  bu_confirmation :: "form option"
  bu_error :: jsstr

definition bool_text :: "bool \<Rightarrow> jsstr" where
  "bool_text b = (if b then js ''true'' else js ''false'')"

definition BudgetForm_init :: "BudgetPolicy option \<Rightarrow> budget_ui" where
  "BudgetForm_init policy =
     \<lparr>bu_policy = policy, bu_scope = js ''tenant'', bu_environment = js ''prod'', bu_period = js ''monthly'',
      bu_currency = js ''usd'', bu_mode = js ''enforce'',
      bu_enabled = bool_text (case policy of None \<Rightarrow> True | Some p \<Rightarrow> bp_enabled p),
      bu_limit = (case policy of None \<Rightarrow> [] | Some p \<Rightarrow> microToDisplay (bp_limit p)),
      bu_confirmation = None, bu_error = []\<rparr>"

text \<open>The inputs; a select offers a fixed list.\<close>

datatype budget_input = SetScope jsstr | SetEnvironment jsstr | SetPeriod jsstr | SetCurrency jsstr | SetMode jsstr
  | SetEnabledText jsstr | SetLimit jsstr

definition scope_kinds :: "jsstr list" where
  "scope_kinds = [js ''tenant'', js ''group'', js ''application'', js ''application_env'', js ''key'']"

definition budget_input_step :: "budget_ui \<Rightarrow> budget_input \<Rightarrow> budget_ui" where
  "budget_input_step ui i =
     (case i of
        SetScope v \<Rightarrow> if v \<in> set scope_kinds then ui\<lparr>bu_scope := v\<rparr> else ui
      | SetEnvironment v \<Rightarrow> if v \<in> {js ''dev'', js ''staging'', js ''prod''} then ui\<lparr>bu_environment := v\<rparr> else ui
      | SetPeriod v \<Rightarrow> if v \<in> {js ''daily'', js ''weekly'', js ''monthly''} then ui\<lparr>bu_period := v\<rparr> else ui
      | SetCurrency v \<Rightarrow> if v \<in> {js ''usd'', js ''cny''} then ui\<lparr>bu_currency := v\<rparr> else ui
      | SetMode v \<Rightarrow> if v \<in> {js ''enforce'', js ''soft''} then ui\<lparr>bu_mode := v\<rparr> else ui
      | SetEnabledText v \<Rightarrow> if v \<in> {js ''true'', js ''false''} then ui\<lparr>bu_enabled := v\<rparr> else ui
      | SetLimit v \<Rightarrow> ui\<lparr>bu_limit := v\<rparr>)"

text \<open>The entries of the form; \<open>typed\<close> gives the uncontrolled inputs (name, reference, time zone, thresholds).\<close>

definition BudgetForm_data :: "budget_ui \<Rightarrow> (jsstr \<Rightarrow> jsstr) \<Rightarrow> form" where
  "BudgetForm_data ui typed =
     (case bu_policy ui of
        Some p \<Rightarrow> [(js ''enabled'', bu_enabled ui), (js ''limitChanged'', bool_text (bu_limit ui \<noteq> microToDisplay (bp_limit p)))]
      | None \<Rightarrow> [(js ''name'', typed (js ''name'')), (js ''scope_kind'', bu_scope ui)] @
          (if bu_scope ui \<noteq> js ''tenant'' then [(js ''scope_ref'', typed (js ''scope_ref''))] else []) @
          (if bu_scope ui = js ''application_env'' then [(js ''environment'', bu_environment ui)] else []) @
          [(js ''period'', bu_period ui), (js ''timezone'', typed (js ''timezone'')), (js ''currency'', bu_currency ui),
           (js ''mode'', bu_mode ui), (js ''thresholds'', typed (js ''thresholds''))]) @
     [(js ''limit'', bu_limit ui)]"

text \<open>\<^verbatim>\<open>result.errorKey ? te(result.errorKey) : result.error\<close>\<close>

definition result_text :: "(jsstr \<Rightarrow> jsstr) \<Rightarrow> jsstr \<Rightarrow> jsstr option \<Rightarrow> jsstr" where
  "result_text te m k = (case k of Some key \<Rightarrow> if key = [] then m else te key | None \<Rightarrow> m)"

definition budget_action :: "jsstr \<Rightarrow> BudgetPolicy option \<Rightarrow> form \<Rightarrow> form_result act" where
  "budget_action tenant policy form =
     (case policy of Some p \<Rightarrow> updateBudget tenant (bp_id p) (bp_version p) form | None \<Rightarrow> createBudget tenant form)"

definition budget_save :: "(jsstr \<Rightarrow> jsstr) \<Rightarrow> jsstr \<Rightarrow> form \<Rightarrow> budget_ui \<Rightarrow> (budget_ui \<times> ui_effect list) act" where
  "budget_save te tenant form ui =
     bnd (submit_action (budget_action tenant (bu_policy ui)) [ShowSuccess (js ''saved''), RouterRefresh, OnSuccess] form) (\<lambda>(r, es).
       ret (ui\<lparr>bu_error := (case r of FormOk \<Rightarrow> [] | FormErr m k \<Rightarrow> result_text te m k)\<rparr>, es))"

definition BudgetForm_onSubmit :: "(jsstr \<Rightarrow> jsstr) \<Rightarrow> jsstr \<Rightarrow> (jsstr \<Rightarrow> jsstr) \<Rightarrow> budget_ui \<Rightarrow> (budget_ui \<times> ui_effect list) act" where
  "BudgetForm_onSubmit te tenant typed ui =
     (let form = BudgetForm_data ui typed in
      if bu_policy ui \<noteq> None then ret (ui\<lparr>bu_confirmation := Some form\<rparr>, []) else budget_save te tenant form ui)"

definition BudgetForm_onConfirm :: "(jsstr \<Rightarrow> jsstr) \<Rightarrow> jsstr \<Rightarrow> budget_ui \<Rightarrow> (budget_ui \<times> ui_effect list) act" where
  "BudgetForm_onConfirm te tenant ui =
     (case bu_confirmation ui of None \<Rightarrow> ret (ui, []) | Some form \<Rightarrow> budget_save te tenant form ui)"

definition BudgetForm_onCancel :: "bool \<Rightarrow> budget_ui \<Rightarrow> budget_ui" where
  "BudgetForm_onCancel pending ui = (if pending then ui else ui\<lparr>bu_confirmation := None, bu_error := []\<rparr>)"

section \<open>Reservations\<close>

record Reservation =
  rv_id :: jsstr
  rv_version :: jsnum
  rv_status :: jsstr

record resolve_ui =
  rs_action :: jsstr
  rs_confirmation :: "form option"
  rs_error :: jsstr

definition ResolveForm_init :: resolve_ui where
  "ResolveForm_init = \<lparr>rs_action = js ''settle'', rs_confirmation = None, rs_error = []\<rparr>"

definition resolve_actions :: "Reservation \<Rightarrow> jsstr list" where
  "resolve_actions rv = (if rv_status rv = js ''released_unknown'' then [js ''settle'']
     else [js ''settle'', js ''release'', js ''release_unknown''])"

definition ResolveForm_data :: "resolve_ui \<Rightarrow> (jsstr \<Rightarrow> jsstr) \<Rightarrow> form" where
  "ResolveForm_data ui typed =
     [(js ''action'', rs_action ui)] @ (if rs_action ui = js ''settle'' then [(js ''actual'', typed (js ''actual''))] else []) @
     [(js ''reason'', typed (js ''reason'')), (js ''evidence'', typed (js ''evidence''))]"

datatype resolve_input = ChooseResolution jsstr | Review "jsstr \<Rightarrow> jsstr" | CancelReview

definition resolve_step :: "Reservation \<Rightarrow> resolve_ui \<Rightarrow> resolve_input \<Rightarrow> resolve_ui" where
  "resolve_step rv ui i =
     (case i of
        ChooseResolution v \<Rightarrow> if v \<in> set (resolve_actions rv) then ui\<lparr>rs_action := v\<rparr> else ui
      | Review typed \<Rightarrow> ui\<lparr>rs_confirmation := Some (ResolveForm_data ui typed)\<rparr>
      | CancelReview \<Rightarrow> ui\<lparr>rs_confirmation := None, rs_error := []\<rparr>)"

definition ResolveForm_resolve :: "(jsstr \<Rightarrow> jsstr) \<Rightarrow> jsstr \<Rightarrow> Reservation \<Rightarrow> resolve_ui \<Rightarrow> (resolve_ui \<times> ui_effect list) act" where
  "ResolveForm_resolve te tenant rv ui =
     (case rs_confirmation ui of
        None \<Rightarrow> ret (ui, [])
      | Some form \<Rightarrow>
          bnd (submit_action (resolveReservation tenant (rv_id rv) (rv_version rv)) [ShowSuccess (js ''resolved''), RouterRefresh, OnSuccess] form) (\<lambda>(r, es).
            ret (ui\<lparr>rs_error := (case r of FormOk \<Rightarrow> [] | FormErr m k \<Rightarrow> result_text te m k)\<rparr>, es)))"

text \<open>The keys of the title, the message and the button of the confirmation.\<close>

definition resolve_dialog :: "resolve_ui \<Rightarrow> jsstr \<times> jsstr \<times> jsstr" where
  "resolve_dialog ui =
     (if rs_action ui = js ''release_unknown'' then js ''riskTitle'' else js ''confirmResolve'',
      if rs_action ui = js ''release_unknown'' then js ''riskNote'' else if rs_action ui = js ''release'' then js ''releaseNote'' else js ''settleNote'',
      js ''resolution.'' @ rs_action ui)"

section \<open>The page\<close>

text \<open>\<^verbatim>\<open>navigate\<close>: every move forgets the cursor and then sets or deletes the given entries.\<close>

definition budget_navigate :: "(jsstr \<times> jsstr) list \<Rightarrow> form \<Rightarrow> form" where
  "budget_navigate changes sp =
     foldl (\<lambda>q (k, v). if v \<noteq> [] then usp_set k v q else usp_delete k q) (usp_delete (js ''cursor'') sp) changes"

definition budget_selected :: "bool \<Rightarrow> jsstr \<Rightarrow> bool" where
  "budget_selected global tenant \<longleftrightarrow> \<not> global \<or> tenant \<noteq> []"

definition tenantOptions :: "jsstr list \<Rightarrow> jsstr \<Rightarrow> jsstr list" where
  "tenantOptions tenants tenant = rev (remdups (rev (tenants @ (if tenant \<noteq> [] then [tenant] else []))))"

definition resolve_button :: "bool \<Rightarrow> Reservation \<Rightarrow> bool" where
  "resolve_button canResolve rv \<longleftrightarrow> canResolve \<and> (rv_status rv = js ''unknown'' \<or> rv_status rv = js ''released_unknown'')"

section \<open>Dialogs and the keyboard\<close>

text \<open>Every open \<^verbatim>\<open>Modal\<close> listens to the document, so a key reaches the handlers of all that are open.\<close>

definition Modal_keydown :: "('s \<Rightarrow> 's) list \<Rightarrow> jsstr \<Rightarrow> 's \<Rightarrow> 's" where
  "Modal_keydown onCloses key s = (if key = js ''Escape'' then foldl (\<lambda>s h. h s) s onCloses else s)"

text \<open>The dialogs around the form of a policy: the confirmation, while it is open, inside the dialog of the page.\<close>

definition budget_dialogs :: "bool \<Rightarrow> budget_ui option \<Rightarrow> (budget_ui option \<Rightarrow> budget_ui option) list" where
  "budget_dialogs pending s =
     (case s of None \<Rightarrow> []
      | Some ui \<Rightarrow> (if bu_confirmation ui \<noteq> None then [map_option (BudgetForm_onCancel pending)] else []) @ [\<lambda>_. None])"

section \<open>The contract\<close>

interpretation budget_form: action_form "budget_action t p" budget_pages for t p
  by (rule action_form.intro, cases p)
    (simp_all add: budget_action_def createBudget.admin_write_axioms updateBudget.admin_write_axioms)

interpretation resolve_form: action_form "resolveReservation t i v" budget_pages for t i v
  by (rule action_form.intro) (rule resolveReservation.admin_write_axioms)

section \<open>Lemmas\<close>

text \<open>What an admitted budget write sends.\<close>

lemma budget_write_sent:
  assumes "session_of pf w = Some s" and "may_write s permission" and "js_trim tenant \<noteq> []" and "client_of pf w = Some c"
  shows "w_sent (snd (budget_write tenant permission body (\<lambda>client b. send_unwrap client m path params query (g b)) pf w)) =
    w_sent w @ (case body of Inl e \<Rightarrow> [] | Inr b \<Rightarrow> [mk_req c m path params query (g b)])"
proof -
  have err: "w_sent (snd (actionError e pf w1)) = w_sent w1" for e w1
    using tame_handlerD(1) [OF tame_actionError, of e pf w1] by (metis prod.collapse)
  show ?thesis
    using assms(1-3)
    by (cases body) (simp_all add: budget_write_run writeGuard_run attempt_unwrap_run [OF assms(4)] Let_def err
        split: fetch_outcome.splits sum.splits)
qed

lemma budget_save_world:
  "snd (budget_save te tenant form ui pf w) = snd (budget_action tenant (bu_policy ui) form pf w)"
  by (auto simp: budget_save_def submit_action_run bnd_apply split: prod.splits sum.splits)

lemma resolve_world:
  "rs_confirmation ui = Some form \<Longrightarrow>
   snd (ResolveForm_resolve te tenant rv ui pf w) = snd (resolveReservation tenant (rv_id rv) (rv_version rv) form pf w)"
  by (auto simp: ResolveForm_resolve_def submit_action_run bnd_apply split: prod.splits sum.splits)

text \<open>What inputs keep.\<close>

definition budget_ui_wf :: "BudgetPolicy option \<Rightarrow> budget_ui \<Rightarrow> bool" where
  "budget_ui_wf policy ui \<longleftrightarrow> bu_policy ui = policy \<and> bu_scope ui \<in> set scope_kinds \<and>
     bu_environment ui \<in> {js ''dev'', js ''staging'', js ''prod''} \<and> bu_enabled ui \<in> {js ''true'', js ''false''}"

lemma budget_init_wf: "budget_ui_wf policy (BudgetForm_init policy)"
  by (simp add: budget_ui_wf_def BudgetForm_init_def scope_kinds_def bool_text_def)

lemma budget_input_wf: "budget_ui_wf policy ui \<Longrightarrow> budget_ui_wf policy (budget_input_step ui i)"
  by (auto simp: budget_ui_wf_def budget_input_step_def split: budget_input.splits)

lemma budget_inputs_wf: "budget_ui_wf policy ui \<Longrightarrow> budget_ui_wf policy (foldl budget_input_step ui is)"
  by (induction "is" arbitrary: ui) (auto intro: budget_input_wf)

lemma budget_inputs_confirmation:
  "bu_confirmation (foldl budget_input_step ui is) = bu_confirmation ui \<and> bu_policy (foldl budget_input_step ui is) = bu_policy ui"
  by (induction "is" arbitrary: ui) (auto simp: budget_input_step_def split: budget_input.splits)

lemma resolve_action_listed: "rs_action (foldl (resolve_step rv) ResolveForm_init is) \<in> set (resolve_actions rv)"
  by (induction "is" rule: rev_induct)
    (auto simp: ResolveForm_init_def resolve_actions_def resolve_step_def split: resolve_input.splits)

lemma choose_keeps_review:
  "rs_confirmation (foldl (resolve_step rv) ui (map ChooseResolution vs)) = rs_confirmation ui"
  by (induction vs arbitrary: ui) (auto simp: resolve_step_def)

text \<open>Changing the resolution behind the dialog, which the keyboard can reach, changes the text of the dialog and not
  what it sends.\<close>

lemma resolve_dialog_mismatch:
  assumes "rv_status rv \<noteq> js ''released_unknown''"
  shows "\<exists>vs. let ui = foldl (resolve_step rv) (resolve_step rv ResolveForm_init (Review typed)) (map ChooseResolution vs)
     in snd (snd (resolve_dialog ui)) = js ''resolution.release'' \<and> rs_confirmation ui = Some (ResolveForm_data ResolveForm_init typed)"
  using assms by (intro exI [of _ "[js ''release'']"])
    (simp add: Let_def resolve_step_def resolve_actions_def resolve_dialog_def js_def)

text \<open>The escape key closes the page's dialog with the confirmation inside it, also while a request is under way.\<close>

lemma escape_closes_edit:
  "s \<noteq> None \<Longrightarrow> Modal_keydown (budget_dialogs pending s) (js ''Escape'') s = None"
  by (auto simp: Modal_keydown_def budget_dialogs_def)

text \<open>The entries of an address after a move.\<close>

lemma budget_navigate_entries:
  assumes "distinct (map fst changes)"
  shows "form_get (budget_navigate changes sp) k =
    (case map_of changes k of Some v \<Rightarrow> if v = [] then None else Some v
     | None \<Rightarrow> if k = js ''cursor'' then None else form_get sp k)"
proof -
  have "form_get (foldl (\<lambda>q (k, v). if v \<noteq> [] then usp_set k v q else usp_delete k q) q0 changes) k =
      (case map_of changes k of Some v \<Rightarrow> if v = [] then None else Some v | None \<Rightarrow> form_get q0 k)" for q0
    using assms
  proof (induction changes arbitrary: q0)
    case (Cons kv changes)
    have "map_of changes (fst kv) = None" using Cons.prems by (simp add: map_of_eq_None_iff)
    then show ?case using Cons by (cases kv) (auto split: option.splits)
  qed simp
  then show ?thesis by (simp add: budget_navigate_def split: option.split)
qed

section \<open>Properties\<close>

text \<open>C29: An edit of a budget is sent as it was confirmed. Submitting the form sends nothing and opens the confirmation;
  confirming sends one request with the version and the state of the policy: without a limit when the text of the limit
  was not changed, with the limit when it was changed to an amount. A changed text that is no amount sends nothing.
  What is entered after the submission has no influence.\<close>

theorem budget_edit_confirmed:
  assumes "session_of pf w = Some s" and "may_write s (js ''budget.write'')" and "js_trim tenant \<noteq> []" and "client_of pf w = Some c"
    and "ui = foldl budget_input_step (BudgetForm_init (Some p)) ins"
  shows "\<exists>ui'. BudgetForm_onSubmit te tenant typed ui pf w = (Inr (ui', []), w) \<and>
    w_sent (snd (BudgetForm_onConfirm te tenant (foldl budget_input_step ui' later) pf w)) = w_sent w @
      (let base = [(js ''version'', JNum (bp_version p)), (js ''enabled'', JBool (bu_enabled ui = js ''true''))];
           patch = (\<lambda>b. mk_req c PATCH (js ''/api/v1/budgets/{id}'') [(js ''id'', JNum (bp_id p))] [(js ''tenant'', JStr tenant)] (Some (JObj b)))
       in if bu_limit ui = microToDisplay (bp_limit p) then [patch base]
          else case amount (Some (bu_limit ui)) of Inl e \<Rightarrow> [] | Inr v \<Rightarrow> [patch (base @ [(js ''limit'', JNum v)])])"
proof -
  have row: "bu_policy ui = Some p"
    using budget_inputs_wf [OF budget_init_wf, of "Some p" ins] assms(5) by (simp add: budget_ui_wf_def)
  let ?form = "BudgetForm_data ui typed"
  let ?ui' = "ui\<lparr>bu_confirmation := Some ?form\<rparr>"
  let ?later = "foldl budget_input_step ?ui' later"
  have get: "form_get ?form (js ''enabled'') = Some (bu_enabled ui)"
    "form_get ?form (js ''limitChanged'') = Some (bool_text (bu_limit ui \<noteq> microToDisplay (bp_limit p)))"
    "form_get ?form (js ''limit'') = Some (bu_limit ui)"
    by (simp_all add: BudgetForm_data_def row)
  have "bu_confirmation ?later = Some ?form" "bu_policy ?later = Some p"
    using budget_inputs_confirmation [of ?ui' later] row by simp_all
  then have "w_sent (snd (BudgetForm_onConfirm te tenant ?later pf w)) = w_sent (snd (updateBudget tenant (bp_id p) (bp_version p) ?form pf w))"
    by (simp add: BudgetForm_onConfirm_def budget_save_world budget_action_def)
  also have "\<dots> = w_sent w @ (case budget_patch (bp_version p) ?form of Inl e \<Rightarrow> []
      | Inr b \<Rightarrow> [mk_req c PATCH (js ''/api/v1/budgets/{id}'') [(js ''id'', JNum (bp_id p))] [(js ''tenant'', JStr tenant)] (Some (JObj b))])"
    unfolding updateBudget_def by (rule budget_write_sent [OF assms(1-4)])
  finally show ?thesis
    by (intro exI [of _ ?ui'])
      (auto simp: BudgetForm_onSubmit_def row Let_def budget_patch_def get bool_text_def rbind_def split: sum.splits)
qed

definition demo_policy :: BudgetPolicy where
  "demo_policy = \<lparr>bp_id = num_int 7, bp_version = num_int 3, bp_enabled = True, bp_limit = num_int 12345\<rparr>"

theorem budget_edit_confirmed_witness:
  "\<exists>ui'. BudgetForm_onSubmit id (js ''acme'') (\<lambda>_. []) (foldl budget_input_step (BudgetForm_init (Some demo_policy)) [SetEnabledText (js ''false'')])
       admin_platform sample_world = (Inr (ui', []), sample_world) \<and>
     w_sent (snd (BudgetForm_onConfirm id (js ''acme'') (foldl budget_input_step ui' [SetLimit (js ''9'')]) admin_platform sample_world)) =
       w_sent sample_world @ [mk_req sample_client PATCH (js ''/api/v1/budgets/{id}'') [(js ''id'', JNum (num_int 7))] [(js ''tenant'', JStr (js ''acme''))]
         (Some (JObj [(js ''version'', JNum (num_int 3)), (js ''enabled'', JBool False)]))]"
proof -
  have "js_trim (js ''acme'') \<noteq> []" by (simp add: form_eval)
  moreover have "budget_input_step (BudgetForm_init (Some demo_policy)) (SetEnabledText (js ''false'')) =
      (BudgetForm_init (Some demo_policy))\<lparr>bu_enabled := js ''false''\<rparr>" by (simp add: budget_input_step_def)
  ultimately show ?thesis
    using budget_edit_confirmed [OF admin_session_of admin_may_write _ admin_client_of refl, where tenant = "js ''acme''" and te = id and
        typed = "\<lambda>_. []" and ins = "[SetEnabledText (js ''false'')]" and p = demo_policy and later = "[SetLimit (js ''9'')]"]
    by (simp add: BudgetForm_init_def) (simp add: demo_policy_def)
qed

text \<open>A new budget names what it limits. Whatever was chosen before, the body has a reference exactly for a scope below
  the tenant and an environment exactly for the environments of an application, and an amount that is no amount sends
  nothing.\<close>

theorem budget_create_scope:
  assumes "ui = foldl budget_input_step (BudgetForm_init None) is"
  shows "bu_scope ui \<in> set scope_kinds \<and> bu_environment ui \<in> {js ''dev'', js ''staging'', js ''prod''} \<and>
    budget_body (BudgetForm_data ui typed) = rbind (amount (Some (bu_limit ui))) (\<lambda>limit.
      Inr [(js ''name'', JStr (js_trim (typed (js ''name'')))), (js ''scope_kind'', JStr (bu_scope ui)),
           (js ''scope_ref'', JStr (if bu_scope ui = js ''tenant'' then [] else js_trim (typed (js ''scope_ref'')))),
           (js ''environment'', JStr (if bu_scope ui = js ''application_env'' then bu_environment ui else [])),
           (js ''period'', JStr (bu_period ui)), (js ''timezone'', JStr (js_trim (typed (js ''timezone'')))),
           (js ''currency'', JStr (bu_currency ui)), (js ''limit'', JNum limit), (js ''mode'', JStr (bu_mode ui)),
           (js ''thresholds'', JArr (budget_thresholds (typed (js ''thresholds''))))])"
proof -
  have wf: "budget_ui_wf None ui" using budget_inputs_wf [OF budget_init_wf, of None "is"] assms by simp
  have "js_trim [] = []" by (simp add: form_eval)
  with wf show ?thesis
    by (auto simp: budget_ui_wf_def budget_body_def BudgetForm_data_def form_get_append form_str_def form_raw_def form_String_def)
qed

theorem budget_create_scope_witness:
  "budget_body (BudgetForm_data (foldl budget_input_step (BudgetForm_init None) [SetScope (js ''application_env''), SetScope (js ''tenant'')]) (\<lambda>_. [])) =
     rbind (amount (Some [])) (\<lambda>limit. Inr [(js ''name'', JStr []), (js ''scope_kind'', JStr (js ''tenant'')), (js ''scope_ref'', JStr []),
       (js ''environment'', JStr []), (js ''period'', JStr (js ''monthly'')), (js ''timezone'', JStr []), (js ''currency'', JStr (js ''usd'')),
       (js ''limit'', JNum limit), (js ''mode'', JStr (js ''enforce'')), (js ''thresholds'', JArr (budget_thresholds []))])"
proof -
  let ?is = "[SetScope (js ''application_env''), SetScope (js ''tenant'')]"
  have "js_trim [] = []" by (simp add: form_eval)
  moreover have "foldl budget_input_step (BudgetForm_init None) ?is = BudgetForm_init None"
    by (simp add: budget_input_step_def scope_kinds_def BudgetForm_init_def)
  ultimately show ?thesis
    using budget_create_scope [OF refl, of ?is "\<lambda>_. []"] by (simp add: BudgetForm_init_def)
qed

text \<open>C30: Resolving a reservation sends what was reviewed. The request carries the resolution, the reason and the evidence
  of the form at the moment of the review, and an amount exactly for a settlement; the resolution is one that the
  status of the reservation allows, and it is the one the dialog names.\<close>

theorem resolve_reviewed:
  assumes "session_of pf w = Some s" and "may_write s (js ''budget.resolve'')" and "js_trim tenant \<noteq> []" and "client_of pf w = Some c"
    and "ui = foldl (resolve_step rv) ResolveForm_init is" and "ui' = resolve_step rv ui (Review typed)"
  shows "rs_action ui \<in> set (resolve_actions rv) \<and> snd (snd (resolve_dialog ui')) = js ''resolution.'' @ rs_action ui \<and>
    w_sent (snd (ResolveForm_resolve te tenant rv (foldl (resolve_step rv) ui' (map ChooseResolution vs)) pf w)) = w_sent w @
      (let base = [(js ''version'', JNum (rv_version rv)), (js ''action'', JStr (rs_action ui)),
             (js ''reason'', JStr (js_trim (typed (js ''reason'')))), (js ''evidence'', JStr (js_trim (typed (js ''evidence''))))];
           post = (\<lambda>b. mk_req c POST (js ''/api/v1/billing-reservations/{id}/resolve'') [(js ''id'', JStr (rv_id rv))]
             [(js ''tenant'', JStr tenant)] (Some (JObj b)))
       in if rs_action ui \<noteq> js ''settle'' then [post base]
          else case amount (Some (typed (js ''actual''))) of Inl e \<Rightarrow> [] | Inr v \<Rightarrow> [post (base @ [(js ''actual'', JNum v)])])"
proof -
  let ?form = "ResolveForm_data ui typed"
  let ?late = "foldl (resolve_step rv) ui' (map ChooseResolution vs)"
  have conf: "rs_confirmation ?late = Some ?form" using assms(6) by (simp add: choose_keeps_review) (simp add: resolve_step_def)
  have act: "rs_action ui' = rs_action ui" using assms(6) by (simp add: resolve_step_def)
  have get: "form_String ?form (js ''action'') = rs_action ui" "form_str ?form (js ''reason'') = js_trim (typed (js ''reason''))"
    "form_str ?form (js ''evidence'') = js_trim (typed (js ''evidence''))"
    "rs_action ui = js ''settle'' \<Longrightarrow> form_get ?form (js ''actual'') = Some (typed (js ''actual''))"
    by (simp_all add: ResolveForm_data_def form_String_def form_str_def form_raw_def)
  have "w_sent (snd (ResolveForm_resolve te tenant rv ?late pf w)) = w_sent w @ (case resolution_body (rv_version rv) ?form of Inl e \<Rightarrow> []
      | Inr b \<Rightarrow> [mk_req c POST (js ''/api/v1/billing-reservations/{id}/resolve'') [(js ''id'', JStr (rv_id rv))] [(js ''tenant'', JStr tenant)] (Some (JObj b))])"
    unfolding resolve_world [OF conf] resolveReservation_def by (rule budget_write_sent [OF assms(1-4)])
  moreover have "rs_action ui \<in> set (resolve_actions rv)" unfolding assms(5) by (rule resolve_action_listed)
  ultimately show ?thesis
    by (cases "rs_action ui = js ''settle''"; cases "amount (Some (typed (js ''actual'')))")
      (simp_all add: resolution_body_def get Let_def rbind_def resolve_dialog_def act)
qed

theorem resolve_reviewed_witness:
  "w_sent (snd (ResolveForm_resolve id (js ''acme'') \<lparr>rv_id = js ''r'', rv_version = num_int 2, rv_status = js ''unknown''\<rparr>
      (foldl (resolve_step \<lparr>rv_id = js ''r'', rv_version = num_int 2, rv_status = js ''unknown''\<rparr>)
        (resolve_step \<lparr>rv_id = js ''r'', rv_version = num_int 2, rv_status = js ''unknown''\<rparr>
          (ResolveForm_init\<lparr>rs_action := js ''release''\<rparr>) (Review (\<lambda>_. []))) (map ChooseResolution [js ''settle'']))
      admin_platform sample_world)) =
    w_sent sample_world @ [mk_req sample_client POST (js ''/api/v1/billing-reservations/{id}/resolve'') [(js ''id'', JStr (js ''r''))]
      [(js ''tenant'', JStr (js ''acme''))] (Some (JObj [(js ''version'', JNum (num_int 2)), (js ''action'', JStr (js ''release'')),
        (js ''reason'', JStr []), (js ''evidence'', JStr [])]))]"
proof -
  let ?rv = "\<lparr>rv_id = js ''r'', rv_version = num_int 2, rv_status = js ''unknown''\<rparr>"
  have t: "js_trim (js ''acme'') \<noteq> []" "js_trim [] = []" by (simp_all add: form_eval)
  have ui: "ResolveForm_init\<lparr>rs_action := js ''release''\<rparr> = foldl (resolve_step ?rv) ResolveForm_init [ChooseResolution (js ''release'')]"
    by (simp add: resolve_step_def resolve_actions_def)
  show ?thesis
    using resolve_reviewed [OF admin_session_of admin_may_write t(1) admin_client_of ui refl, where te = id and typed = "\<lambda>_. []" and vs = "[js ''settle'']"]
    by (simp add: t(2))
qed

end
