(* ===== verification/Web_Views.thy ===== *)
theory Web_Views
  imports Web_Models Web_Roles Web_Filters
begin

text \<open>
  What the Control Panel computes from the rows it shows: the model catalogue (\<^verbatim>\<open>model-catalog/client.tsx\<close>,
  \<^verbatim>\<open>model-catalog/model-card.tsx\<close>, \<^verbatim>\<open>model-catalog/[alias]/client.tsx\<close>, and the same code in
  \<^verbatim>\<open>models/client.tsx\<close> and \<^verbatim>\<open>models/model-card.tsx\<close>), the summary and the trend of the usage page
  (\<^verbatim>\<open>usage/summary.tsx\<close>, \<^verbatim>\<open>usage/timeseries-chart.tsx\<close>, \<^verbatim>\<open>usage/table.tsx\<close>), the overview
  (\<^verbatim>\<open>overview/client.tsx\<close>) and the rows of the request log (\<^verbatim>\<open>request-logs/table.tsx\<close>).

  \<open>t\<close> translates a key, \<open>loc\<close> is \<^verbatim>\<open>toLocaleString\<close> and \<open>lower\<close> is \<^verbatim>\<open>toLowerCase\<close>, whose tables belong to the
  engine.
\<close>

section \<open>The model catalogue\<close>

definition model_caps :: "WebModel \<Rightarrow> jsstr list" where
  "model_caps m = (case wm_capabilities m of None \<Rightarrow> [] | Some cs \<Rightarrow> cs)"

definition allCapabilities :: "WebModel list \<Rightarrow> jsstr list" where
  "allCapabilities models = sort (set_of_list (concat (map model_caps models)))"

definition haystack :: "(jsstr \<Rightarrow> jsstr) \<Rightarrow> WebModel \<Rightarrow> jsstr" where
  "haystack lower m =
     lower (js_join (js '' '') ([wm_alias m, case wm_description m of None \<Rightarrow> [] | Some d \<Rightarrow> d] @
       (case wm_tags m of None \<Rightarrow> [] | Some ts \<Rightarrow> ts)))"

definition filtered :: "(jsstr \<Rightarrow> jsstr) \<Rightarrow> jsstr \<Rightarrow> jsstr \<Rightarrow> WebModel list \<Rightarrow> WebModel list" where
  "filtered lower query capability models =
     (let q = lower (js_trim query)
      in filter (\<lambda>m. if capability \<noteq> [] \<and> capability \<notin> set (model_caps m) then False
           else if q = [] then True else js_includes (haystack lower m) q) models)"

definition applyParam :: "jsstr \<Rightarrow> jsstr \<Rightarrow> form \<Rightarrow> form" where
  "applyParam key v sp = (if v \<noteq> [] then usp_set key v sp else usp_delete key sp)"

text \<open>The lowest price of a prompt among the upstreams that have one.\<close>

definition startingPrice :: "WebModel \<Rightarrow> jsnum option" where
  "startingPrice m =
     foldl (\<lambda>mn v. case mn of None \<Rightarrow> Some v | Some x \<Rightarrow> if num_lt v x then Some v else mn) None
       (List.map_filter (\<lambda>u. case wu_pricing u of None \<Rightarrow> None | Some p \<Rightarrow> wp_prompt_per_1m p)
         (case wm_upstreams m of None \<Rightarrow> [] | Some us \<Rightarrow> us))"

text \<open>The label of a capability; a name that every object inherits is not considered.\<close>

definition capabilityLabel :: "(jsstr \<Rightarrow> jsstr) \<Rightarrow> jsstr \<Rightarrow> jsstr" where
  "capabilityLabel t c =
     (if c \<in> {js ''vision'', js ''function_calling'', js ''streaming'', js ''code''} then t (js ''capabilities.'' @ c) else c)"

definition dash :: jsstr where
  "dash = [0x2014]"

record model_card =
  mc_title :: jsstr
  mc_providers :: nat
  mc_description :: jsstr
  mc_chips :: "jsstr list"
  mc_more :: "nat option"
  mc_context :: "jsstr option"
  mc_price :: "jsstr option"

definition context_text :: "(jsnum \<Rightarrow> jsstr) \<Rightarrow> WebModel \<Rightarrow> jsstr option" where
  "context_text loc m = (case wm_context_length m of None \<Rightarrow> None | Some n \<Rightarrow> if num_truthy n then Some (loc n) else None)"

definition description_text :: "(jsstr \<Rightarrow> jsstr) \<Rightarrow> WebModel \<Rightarrow> jsstr" where
  "description_text t m = (case wm_description m of Some d \<Rightarrow> if d = [] then t (js ''card.noDescription'') else d
     | None \<Rightarrow> t (js ''card.noDescription''))"

definition ModelCard :: "(jsstr \<Rightarrow> jsstr) \<Rightarrow> (jsnum \<Rightarrow> jsstr) \<Rightarrow> WebModel \<Rightarrow> model_card" where
  "ModelCard t loc m =
     \<lparr>mc_title = wm_alias m,
      mc_providers = length (case wm_upstreams m of None \<Rightarrow> [] | Some us \<Rightarrow> us),
      mc_description = description_text t m,
      mc_chips = map (capabilityLabel t) (take 4 (model_caps m)),
      mc_more = (if length (model_caps m) > 4 then Some (length (model_caps m) - 4) else None),
      mc_context = context_text loc m,
      mc_price = map_option microToDisplay (startingPrice m)\<rparr>"

text \<open>A row of the detail page.\<close>

definition detail_price :: "jsnum option \<Rightarrow> jsstr" where
  "detail_price v = (case v of None \<Rightarrow> dash | Some n \<Rightarrow> microToDisplay n)"

definition upstream_detail :: "(jsnum \<Rightarrow> jsstr) \<Rightarrow> WebUpstream \<Rightarrow> jsstr list" where
  "upstream_detail loc u =
     [wu_provider u, wu_upstream_model u,
      detail_price (case wu_pricing u of None \<Rightarrow> None | Some p \<Rightarrow> wp_prompt_per_1m p),
      detail_price (case wu_pricing u of None \<Rightarrow> None | Some p \<Rightarrow> wp_completion_per_1m p),
      case wu_default_max_tokens u of None \<Rightarrow> dash | Some n \<Rightarrow> if num_truthy n then loc n else dash]"

section \<open>Usage\<close>

text \<open>A row of the aggregated usage, with the types of the admin API.\<close>

record UsageRow =
  ur_group_key :: "jsstr option"
  ur_currency :: "jsstr option"
  ur_cost :: "jsnum option"
  ur_request_count :: "jsnum option"
  ur_prompt_tokens :: "jsnum option"
  ur_completion_tokens :: "jsnum option"

definition num0 :: "jsnum option \<Rightarrow> jsnum" where
  "num0 v = (case v of None \<Rightarrow> Fin 0 | Some n \<Rightarrow> n)"

definition sum_rows :: "(UsageRow \<Rightarrow> jsnum option) \<Rightarrow> UsageRow list \<Rightarrow> jsnum" where
  "sum_rows f rows = foldl (\<lambda>s r. num_add s (num0 (f r))) (Fin 0) rows"

definition row_currency :: "UsageRow \<Rightarrow> jsstr" where
  "row_currency r = (case ur_currency r of None \<Rightarrow> [] | Some c \<Rightarrow> c)"

definition byCurrency :: "UsageRow list \<Rightarrow> (jsstr \<times> UsageRow list) list" where
  "byCurrency rows = foldl (\<lambda>gs r. group_push (row_currency r) r gs) [] rows"

text \<open>\<^verbatim>\<open>sort((a, b) => cost(b) - cost(a))\<close>: a row goes behind those the comparison puts before it.\<close>

definition row_cost :: "UsageRow \<Rightarrow> jsnum" where
  "row_cost r = num0 (ur_cost r)"

fun cost_insert :: "UsageRow \<Rightarrow> UsageRow list \<Rightarrow> UsageRow list" where
  "cost_insert x [] = [x]"
| "cost_insert x (y # ys) = (if num_lt (num_sub (row_cost x) (row_cost y)) (Fin 0) then y # cost_insert x ys else x # y # ys)"

definition top_rows :: "UsageRow list \<Rightarrow> UsageRow list" where
  "top_rows rows = take 5 (foldr cost_insert rows [])"

definition usage_bar_width :: "jsnum \<Rightarrow> UsageRow \<Rightarrow> jsnum" where
  "usage_bar_width maxCost r = (if num_lt (Fin 0) maxCost then num_mul (num_quot (row_cost r) maxCost) (Fin 100) else Fin 0)"

record usage_bar_row =
  bar_key :: jsstr
  bar_pct :: "jsnum option"
  bar_cost :: jsstr
  bar_requests :: jsstr

record currency_block =
  cb_total :: jsstr
  cb_rows :: "usage_bar_row list"

definition cost_text :: "(jsstr \<Rightarrow> jsstr) \<Rightarrow> jsstr \<Rightarrow> jsnum \<Rightarrow> jsstr" where
  "cost_text t currency n = (if currency = [] then t (js ''identity.unknownCurrency'') else microToDisplay n @ js '' '' @ currency)"

definition currency_section :: "(jsstr \<Rightarrow> jsstr) \<Rightarrow> (jsnum \<Rightarrow> jsstr) \<Rightarrow> jsstr \<times> UsageRow list \<Rightarrow> currency_block" where
  "currency_section t loc g =
     (let tops = top_rows (snd g); maxCost = (case tops of [] \<Rightarrow> Fin 0 | r # _ \<Rightarrow> row_cost r)
      in \<lparr>cb_total = cost_text t (fst g) (sum_rows ur_cost (snd g)),
          cb_rows = map (\<lambda>r. \<lparr>
            bar_key = (case ur_group_key r of Some k \<Rightarrow> if k = [] then t (js ''identity.unattributed'') else k
              | None \<Rightarrow> t (js ''identity.unattributed'')),
            bar_pct = (if fst g = [] then None else Some (usage_bar_width maxCost r)),
            bar_cost = cost_text t (fst g) (row_cost r),
            bar_requests = loc (num0 (ur_request_count r)) @ js '' '' @ t (js ''summary.requests'')\<rparr>) tops\<rparr>)"

definition UsageSummary :: "(jsstr \<Rightarrow> jsstr) \<Rightarrow> (jsnum \<Rightarrow> jsstr) \<Rightarrow> UsageRow list \<Rightarrow> jsstr list \<times> currency_block list" where
  "UsageSummary t loc rows =
     (map (\<lambda>f. loc (sum_rows f rows)) [ur_request_count, ur_prompt_tokens, ur_completion_tokens],
      map (currency_section t loc) (byCurrency rows))"

text \<open>The trend has one chart per currency, \<open>None\<close> for the buckets without one; each chart gets its own buckets.\<close>

definition chart_currencies :: "UsageRow list \<Rightarrow> jsstr list" where
  "chart_currencies rows = set_of_list (map row_currency rows)"

definition UsageTimeseriesChart :: "UsageRow list \<Rightarrow> (jsstr \<times> (jsnum \<times> jsnum \<times> jsnum) list) option list" where
  "UsageTimeseriesChart rows =
     (if rows = [] then [Some ([], [])]
      else map (\<lambda>c. if c = [] then None else Some (c, map (\<lambda>r. (num0 (ur_cost r),
          num_add (num0 (ur_prompt_tokens r)) (num0 (ur_completion_tokens r)), num0 (ur_request_count r)))
          (filter (\<lambda>r. ur_currency r = Some c) rows))) (chart_currencies rows))"

text \<open>The next page of the table.\<close>

definition usage_goNext :: "jsstr \<Rightarrow> form \<Rightarrow> form" where
  "usage_goNext nextCursor sp = usp_set (js ''cursor'') nextCursor sp"

section \<open>The overview\<close>

fun overview_num :: "jsval \<Rightarrow> jsnum" where
  "overview_num (Some (JNum (Fin x))) = Fin x"
| "overview_num v = Fin 0"

text \<open>A card: the number as text, a dash for anything else; some are marked when the number is positive.\<close>

definition stat_value :: "(jsnum \<Rightarrow> jsstr) \<Rightarrow> jsval \<Rightarrow> jsstr \<Rightarrow> jsstr" where
  "stat_value shown obj k = (case opt_prop obj k of Some (JNum n) \<Rightarrow> shown n | _ \<Rightarrow> dash)"

definition stat_warn :: "jsval \<Rightarrow> jsstr \<Rightarrow> bool" where
  "stat_warn obj k = (case opt_prop obj k of Some (JNum n) \<Rightarrow> num_lt (Fin 0) n | _ \<Rightarrow> False)"

definition OverviewPageClient_cards :: "(jsnum \<Rightarrow> jsstr) \<Rightarrow> jsval \<Rightarrow> (jsstr \<times> bool) list" where
  "OverviewPageClient_cards loc data =
     (let nodes = opt_prop data (js ''nodes''); stats = opt_prop data (js ''recent_stats'')
      in [(stat_value num_repr nodes (js ''online''), False), (stat_value num_repr stats (js ''total_requests''), False),
          (stat_value num_repr stats (js ''total_errors''), stat_warn stats (js ''total_errors'')),
          (stat_value num_repr stats (js ''total_blocked''), stat_warn stats (js ''total_blocked'')),
          (stat_value loc stats (js ''total_tokens_in''), False), (stat_value loc stats (js ''total_tokens_out''), False)])"

definition agent_cells :: "(jsnum \<Rightarrow> jsstr) \<Rightarrow> json \<Rightarrow> jsstr list \<times> bool" where
  "agent_cells loc row =
     (let n = (\<lambda>k. overview_num (opt_prop (Some row) k)); a = opt_prop (Some row) (js ''agent_type'')
      in ((if truthy a then json_String (the a) else dash) #
            map (\<lambda>k. loc (n k)) [js ''request_count'', js ''prompt_tokens'', js ''completion_tokens'', js ''total_tokens'', js ''error_count''],
          num_lt (Fin 0) (n (js ''error_count''))))"

definition tenant_cells :: "(jsnum \<Rightarrow> jsstr) \<Rightarrow> (jsstr \<Rightarrow> jsstr) \<Rightarrow> json \<Rightarrow> jsstr list" where
  "tenant_cells loc upper row =
     (let n = (\<lambda>k. overview_num (opt_prop (Some row) k))
      in [json_String (coalesce (opt_prop (Some row) (js ''group_key'')) (JStr dash)), loc (n (js ''request_count'')),
          loc (num_add (n (js ''prompt_tokens'')) (n (js ''completion_tokens''))),
          microToDisplay (n (js ''cost'')) @ js '' '' @
            (case opt_prop (Some row) (js ''currency'') of Some (JStr c) \<Rightarrow> if c = [] then dash else upper c | _ \<Rightarrow> dash)])"

section \<open>The request log\<close>

text \<open>The badge of the protocol: \<open>None\<close> when the provider is not known, otherwise whether its adapter speaks the
  protocol of the request.\<close>

definition passthrough :: "(jsstr \<times> jsstr) list \<Rightarrow> jsstr \<Rightarrow> jsstr option \<Rightarrow> bool option" where
  "passthrough providerAdapters proto provider =
     (case (case provider of None \<Rightarrow> None | Some p \<Rightarrow> if p = [] then None else map_of providerAdapters p) of
        None \<Rightarrow> None
      | Some adapter \<Rightarrow> if adapter = [] then None
          else Some (proto = js ''anthropic'' \<and> adapter = js ''claude'' \<or> proto = js ''openai'' \<and> adapter = js ''openai''))"

datatype log_outcome = LogSuccess | LogBlocked jsstr | LogError jsstr

definition status_cell :: "jsstr option \<Rightarrow> jsstr option \<Rightarrow> log_outcome" where
  "status_cell error blocked =
     (let e = (case error of None \<Rightarrow> [] | Some s \<Rightarrow> s); b = (case blocked of None \<Rightarrow> [] | Some s \<Rightarrow> s)
      in if e = [] \<and> b = [] then LogSuccess else if b \<noteq> [] then LogBlocked b else LogError e)"

definition session_cell :: "jsstr \<Rightarrow> (jsstr \<times> jsstr) res" where
  "session_cell v = rbind (encodeURIComponent v) (\<lambda>u.
     Inr (js ''/request-logs/sessions/'' @ u, if length v > 12 then take 10 v @ [0x2026] else v))"

section \<open>Lemmas\<close>

subsection \<open>The catalogue\<close>

lemma set_set_of_list [simp]: "set (set_of_list xs) = set xs"
  by (simp add: set_of_list_def)

lemma distinct_set_of_list [simp]: "distinct (set_of_list xs)"
  by (simp add: set_of_list_def)

lemma chips_spec:
  "sorted (allCapabilities models)" "distinct (allCapabilities models)"
  "c \<in> set (allCapabilities models) \<longleftrightarrow> (\<exists>m \<in> set models. c \<in> set (model_caps m))"
  by (auto simp: allCapabilities_def)

lemma least_price_step:
  "\<forall>v \<in> set vs. \<exists>x. v = Fin x \<Longrightarrow> mn = Some (Fin a) \<Longrightarrow>
   \<exists>b. foldl (\<lambda>mn v. case mn of None \<Rightarrow> Some v | Some x \<Rightarrow> if num_lt v x then Some v else mn) mn vs = Some (Fin b) \<and>
     (b = a \<or> Fin b \<in> set vs) \<and> b \<le> a \<and> (\<forall>x. Fin x \<in> set vs \<longrightarrow> b \<le> x)"
proof (induction vs arbitrary: mn a)
  case (Cons v vs)
  from Cons.prems(1) obtain x where x: "v = Fin x" by auto
  let ?mn = "if x < a then Some (Fin x) else Some (Fin a)"
  have "\<exists>b. foldl (\<lambda>mn v. case mn of None \<Rightarrow> Some v | Some x \<Rightarrow> if num_lt v x then Some v else mn) ?mn vs = Some (Fin b) \<and>
     (b = min a x \<or> Fin b \<in> set vs) \<and> b \<le> min a x \<and> (\<forall>x. Fin x \<in> set vs \<longrightarrow> b \<le> x)"
    using Cons.IH [of ?mn "min a x"] Cons.prems(1) by (cases "x < a") (auto simp: min_def)
  then show ?case using Cons.prems(2) by (auto simp: x min_def split: if_splits)
qed simp

subsection \<open>Usage\<close>

lemma set_of_list_snoc: "set_of_list (xs @ [x]) = (if x \<in> set xs then set_of_list xs else set_of_list xs @ [x])"
  by (simp add: set_of_list_def)

text \<open>Pushing into groups that are listed by their keys.\<close>

lemma group_push_map:
  "distinct ks \<Longrightarrow> group_push k p (map (\<lambda>k'. (k', f k')) ks) =
     (if k \<in> set ks then map (\<lambda>k'. (k', if k' = k then f k' @ [p] else f k')) ks
      else map (\<lambda>k'. (k', f k')) ks @ [(k, [p])])"
  by (induction ks) auto

lemma byCurrency_filter: "byCurrency rows = map (\<lambda>k. (k, filter (\<lambda>r. row_currency r = k) rows)) (chart_currencies rows)"
proof (induction rows rule: rev_induct)
  case (snoc r rows)
  have "byCurrency (rows @ [r]) = group_push (row_currency r) r (byCurrency rows)" by (simp add: byCurrency_def)
  also have "\<dots> = map (\<lambda>k. (k, filter (\<lambda>r. row_currency r = k) (rows @ [r]))) (chart_currencies (rows @ [r]))"
  proof (cases "row_currency r \<in> set (map row_currency rows)")
    case False
    then have "filter (\<lambda>x. row_currency x = row_currency r) rows = []" by (metis (mono_tags, lifting) filter_False image_eqI set_map)
    with False show ?thesis
      by (auto simp: snoc group_push_map chart_currencies_def set_of_list_snoc)
  qed (auto simp: snoc group_push_map chart_currencies_def set_of_list_snoc)
  finally show ?case .
qed (simp add: byCurrency_def chart_currencies_def set_of_list_def)

text \<open>Costs as the admin API reports them: whole numbers of micro-units.\<close>

definition whole_cost :: "UsageRow \<Rightarrow> bool" where
  "whole_cost r \<longleftrightarrow> (\<exists>c. row_cost r = num_int c \<and> 0 \<le> c \<and> c \<le> 2 ^ 52)"

definition cost_rat :: "UsageRow \<Rightarrow> rat" where
  "cost_rat r = (case row_cost r of Fin x \<Rightarrow> x | _ \<Rightarrow> 0)"

lemma cost_compare:
  assumes "whole_cost x" "whole_cost y"
  shows "num_lt (num_sub (row_cost x) (row_cost y)) (Fin 0) \<longleftrightarrow> cost_rat x < cost_rat y"
proof -
  obtain a b where ab: "row_cost x = num_int a" "0 \<le> a" "a \<le> 2 ^ 52" "row_cost y = num_int b" "0 \<le> b" "b \<le> 2 ^ 52"
    using assms by (auto simp: whole_cost_def)
  have "num_sub (num_int a) (num_int b) = num_int (a - b)"
    using num_add_int [of a "- b"] ab by (simp add: num_sub_def safe_def)
  then show ?thesis using ab by (simp add: cost_rat_def)
qed

lemma cost_insert_mset: "mset (cost_insert x ys) = add_mset x (mset ys)"
  by (induction x ys rule: cost_insert.induct) auto

lemma cost_insert_sorted:
  "whole_cost x \<Longrightarrow> \<forall>y \<in> set ys. whole_cost y \<Longrightarrow> sorted_wrt (\<lambda>a b. cost_rat b \<le> cost_rat a) ys \<Longrightarrow>
   sorted_wrt (\<lambda>a b. cost_rat b \<le> cost_rat a) (cost_insert x ys)"
proof (induction x ys rule: cost_insert.induct)
  case (2 x y ys)
  have "set (cost_insert x ys) = insert x (set ys)" using arg_cong [OF cost_insert_mset [of x ys], of set_mset] by simp
  with 2 show ?case by (auto simp: cost_compare)
qed simp

lemma cost_sort:
  assumes "\<forall>r \<in> set rows. whole_cost r"
  shows "mset (foldr cost_insert rows []) = mset rows \<and> sorted_wrt (\<lambda>a b. cost_rat b \<le> cost_rat a) (foldr cost_insert rows [])"
  using assms
proof (induction rows)
  case (Cons r rows)
  have "set (foldr cost_insert rows []) = set rows" using Cons by (metis list.set_intros(2) set_mset_mset)
  with Cons show ?case by (simp add: cost_insert_mset cost_insert_sorted)
qed simp

text \<open>The rows at the top are the most expensive ones.\<close>

lemma top_rows_spec:
  assumes "\<forall>r \<in> set rows. whole_cost r"
  shows "length (top_rows rows) = min 5 (length rows)" "sorted_wrt (\<lambda>a b. cost_rat b \<le> cost_rat a) (top_rows rows)"
    "\<exists>rest. mset rows = mset (top_rows rows @ rest) \<and> (\<forall>a \<in> set (top_rows rows). \<forall>b \<in> set rest. cost_rat b \<le> cost_rat a)"
proof -
  let ?s = "foldr cost_insert rows []"
  note s = cost_sort [OF assms]
  then have "length ?s = length rows" by (metis mset_eq_length)
  then show "length (top_rows rows) = min 5 (length rows)" by (simp add: top_rows_def min.commute)
  have "sorted_wrt (\<lambda>a b. cost_rat b \<le> cost_rat a) (take 5 ?s @ drop 5 ?s)" using s by simp
  then show "sorted_wrt (\<lambda>a b. cost_rat b \<le> cost_rat a) (top_rows rows)"
    "\<exists>rest. mset rows = mset (top_rows rows @ rest) \<and> (\<forall>a \<in> set (top_rows rows). \<forall>b \<in> set rest. cost_rat b \<le> cost_rat a)"
    unfolding sorted_wrt_append top_rows_def using s by (auto intro!: exI [of _ "drop 5 ?s"] simp flip: mset_append)
qed

text \<open>The total of whole costs is exact up to the largest safe number.\<close>

lemma sum_rows_exact:
  assumes "\<forall>r \<in> set rows. whole_cost r" and "sum_list (map cost_rat rows) \<le> 2 ^ 53"
  shows "sum_rows ur_cost rows = Fin (sum_list (map cost_rat rows))"
proof -
  have "foldl (\<lambda>s r. num_add s (num0 (ur_cost r))) (num_int a) rows = Fin (of_int a + sum_list (map cost_rat rows))"
    if "0 \<le> a" "of_int a + sum_list (map cost_rat rows) \<le> (2 :: rat) ^ 53" for a
    using that assms(1)
  proof (induction rows arbitrary: a)
    case (Cons r rows)
    obtain c where c: "row_cost r = num_int c" "0 \<le> c" using Cons.prems(3) by (auto simp: whole_cost_def)
    have "0 \<le> sum_list (map cost_rat rows)"
      using Cons.prems(3) by (intro sum_list_nonneg) (auto simp: whole_cost_def cost_rat_def)
    moreover have "cost_rat r = of_int c" using c by (simp add: cost_rat_def)
    ultimately have "of_int (a + c) \<le> (2 :: rat) ^ 53" using Cons.prems(2) by simp
    then have "a + c \<le> 2 ^ 53" by (metis of_int_le_iff of_int_numeral of_int_power)
    then have "num_add (num_int a) (num_int c) = num_int (a + c)" using c(2) Cons.prems(1) by (intro num_add_int) (simp add: safe_def)
    with Cons.IH [of "a + c"] Cons.prems c show ?case by (simp add: row_cost_def cost_rat_def add.assoc)
  qed simp
  from this [of 0] assms(2) show ?thesis by (simp add: sum_rows_def)
qed

section \<open>Properties\<close>

text \<open>The capability filters of the model catalogue. The chips are the capabilities of the models, each once and in
  order; a chip writes an address that keeps the search and is read back as that capability, and without a search it
  shows exactly the models that have it, at least one; a search only narrows what is shown.\<close>

theorem catalogue_chips:
  assumes "lower [] = []"
  shows "sorted (allCapabilities models) \<and> distinct (allCapabilities models) \<and>
    (\<forall>c \<in> set (allCapabilities models). c \<noteq> [] \<longrightarrow>
       form_raw (applyParam (js ''capability'') c sp) (js ''capability'') = c \<and>
       form_get (applyParam (js ''capability'') c sp) (js ''q'') = form_get sp (js ''q'') \<and>
       filtered lower [] c models = filter (\<lambda>m. c \<in> set (model_caps m)) models \<and> filtered lower [] c models \<noteq> []) \<and>
    (\<forall>q c. set (filtered lower q c models) \<subseteq> set (filtered lower [] c models))"
proof -
  have [simp]: "js_trim [] = []" by (simp add: form_eval)
  have f: "filtered lower [] c models = filter (\<lambda>m. c \<noteq> [] \<longrightarrow> c \<in> set (model_caps m)) models" for c
    by (auto simp: filtered_def assms intro: filter_cong)
  show ?thesis
    by (auto simp: chips_spec f applyParam_def form_raw_def filter_empty_conv) (auto simp: filtered_def Let_def split: if_splits)
qed

theorem catalogue_chips_witness:
  "filtered id [] (js ''code'') [\<lparr>wm_alias = js ''m'', wm_description = None, wm_context_length = None,
     wm_capabilities = Some [js ''code''], wm_tags = None, wm_upstreams = None\<rparr>] \<noteq> []"
proof -
  let ?m = "\<lparr>wm_alias = js ''m'', wm_description = None, wm_context_length = None,
     wm_capabilities = Some [js ''code''], wm_tags = None, wm_upstreams = None\<rparr>"
  have "js ''code'' \<in> set (allCapabilities [?m])" by (simp add: chips_spec model_caps_def)
  moreover have "js ''code'' \<noteq> []" by simp
  ultimately show ?thesis using catalogue_chips [of id "[?m]" "[]"] by (metis id_apply)
qed

text \<open>The price on the card of a model is the least price of a prompt among its upstreams, and there is none exactly
  when no upstream has one.\<close>

theorem starting_price_least:
  assumes "prices = List.map_filter (\<lambda>u. case wu_pricing u of None \<Rightarrow> None | Some p \<Rightarrow> wp_prompt_per_1m p)
      (case wm_upstreams m of None \<Rightarrow> [] | Some us \<Rightarrow> us)" and "\<forall>v \<in> set prices. \<exists>x. v = Fin x"
  shows "case startingPrice m of None \<Rightarrow> prices = []
    | Some p \<Rightarrow> p \<in> set prices \<and> (\<forall>v \<in> set prices. \<not> num_lt v p) \<and> mc_price (ModelCard t loc m) = Some (microToDisplay p)"
proof (cases prices)
  case Nil
  with assms(1) show ?thesis by (simp add: startingPrice_def)
next
  case (Cons v vs)
  with assms(2) obtain a where a: "v = Fin a" by auto
  have "startingPrice m = foldl (\<lambda>mn v. case mn of None \<Rightarrow> Some v | Some x \<Rightarrow> if num_lt v x then Some v else mn) None prices"
    unfolding startingPrice_def assms(1) ..
  then obtain b where b: "startingPrice m = Some (Fin b)" "b = a \<or> Fin b \<in> set vs" "b \<le> a" "\<forall>x. Fin x \<in> set vs \<longrightarrow> b \<le> x"
    using least_price_step [of vs "Some (Fin a)" a] assms(2) Cons a by auto
  moreover have "\<not> num_lt v' (Fin b)" if "v' \<in> set prices" for v'
    using that assms(2) b(3,4) Cons a by fastforce
  ultimately show ?thesis using Cons a by (auto simp: ModelCard_def)
qed

definition priced_model :: WebModel where
  "priced_model = \<lparr>wm_alias = js ''m'', wm_description = None, wm_context_length = None, wm_capabilities = None, wm_tags = None,
     wm_upstreams = Some (map (\<lambda>p. \<lparr>wu_provider = js ''p'', wu_upstream_model = js ''x'', wu_default_max_tokens = None,
       wu_pricing = Some \<lparr>wp_prompt_per_1m = p, wp_completion_per_1m = None, wp_cache_hit_multiplier = None\<rparr>\<rparr>)
       [Some (num_int 5), None, Some (num_int 3)])\<rparr>"

theorem starting_price_least_witness:
  "startingPrice priced_model = Some (num_int 3) \<and> mc_price (ModelCard id num_repr priced_model) = Some (microToDisplay (num_int 3))"
proof -
  have p: "[num_int 5, num_int 3] = List.map_filter (\<lambda>u. case wu_pricing u of None \<Rightarrow> None | Some p \<Rightarrow> wp_prompt_per_1m p)
      (case wm_upstreams priced_model of None \<Rightarrow> [] | Some us \<Rightarrow> us)"
    by (simp add: priced_model_def map_filter_simps)
  have "startingPrice priced_model = Some (num_int 3)"
    by (simp add: startingPrice_def p [symmetric])
  with starting_price_least [OF p, of id num_repr] show ?thesis by simp
qed

text \<open>C37: The summary of the usage. Every row is counted in exactly the block of its currency; the total of a block is the
  exact sum of its costs; its bars are the at most five most expensive rows, the most expensive first, and each bar is
  as long, in percent of the first, as its share of the cost of the first, within a millionth.\<close>

theorem usage_summary_spec:
  assumes "\<forall>r \<in> set rows. whole_cost r" and "(c, rs) \<in> set (byCurrency rows)" and "sum_list (map cost_rat rs) \<le> 2 ^ 53"
  shows "distinct (map fst (byCurrency rows)) \<and> rs = filter (\<lambda>r. row_currency r = c) rows \<and> rs \<noteq> [] \<and>
    cb_total (currency_section t loc (c, rs)) = cost_text t c (Fin (sum_list (map cost_rat rs))) \<and>
    length (top_rows rs) = min 5 (length rs) \<and> sorted_wrt (\<lambda>a b. cost_rat b \<le> cost_rat a) (top_rows rs) \<and>
    (\<exists>rest. mset rs = mset (top_rows rs @ rest) \<and> (\<forall>a \<in> set (top_rows rs). \<forall>b \<in> set rest. cost_rat b \<le> cost_rat a)) \<and>
    (\<forall>r \<in> set (top_rows rs). 0 < cost_rat (hd (top_rows rs)) \<longrightarrow>
       (\<exists>y. usage_bar_width (row_cost (hd (top_rows rs))) r = Fin y \<and> \<bar>y - 100 * (cost_rat r / cost_rat (hd (top_rows rs)))\<bar> \<le> 1 / 10 ^ 6))"
proof -
  have rs: "rs = filter (\<lambda>r. row_currency r = c) rows" and c: "c \<in> row_currency ` set rows"
    using assms(2) by (auto simp: byCurrency_filter chart_currencies_def)
  have whole: "\<forall>r \<in> set rs. whole_cost r" using assms(1) rs by auto
  note top = top_rows_spec [OF whole]
  have sub: "set (top_rows rs) \<subseteq> set rs" using top(3) by (metis set_append set_mset_mset Un_upper1)
  have width: "\<exists>y. usage_bar_width (row_cost (hd (top_rows rs))) r = Fin y \<and> \<bar>y - 100 * (cost_rat r / cost_rat (hd (top_rows rs)))\<bar> \<le> 1 / 10 ^ 6"
    if r: "r \<in> set (top_rows rs)" and pos: "0 < cost_rat (hd (top_rows rs))" for r
  proof -
    from r obtain h hs where h: "top_rows rs = h # hs" by (cases "top_rows rs") auto
    then have le: "cost_rat r \<le> cost_rat h" using top(2) r by auto
    obtain m where m: "row_cost h = num_int m" using whole sub h by (auto simp: whole_cost_def)
    obtain k where k: "row_cost r = num_int k" "0 \<le> k" using whole sub r by (auto simp: whole_cost_def)
    have "0 < m" "k \<le> m" using pos le m k h by (simp_all add: cost_rat_def)
    from percent_near [OF k(2) this(2,1)] show ?thesis
      using \<open>0 < m\<close> by (simp add: h usage_bar_width_def m k cost_rat_def)
  qed
  have "distinct (map fst (byCurrency rows))" by (simp add: byCurrency_filter chart_currencies_def comp_def)
  moreover have "rs \<noteq> []" using rs c by (auto simp: filter_empty_conv)
  moreover have "cb_total (currency_section t loc (c, rs)) = cost_text t c (Fin (sum_list (map cost_rat rs)))"
    by (simp add: currency_section_def Let_def sum_rows_exact [OF whole assms(3)])
  ultimately show ?thesis using rs top width by blast
qed

definition usage_sample :: "UsageRow list" where
  "usage_sample = map (\<lambda>(k, c). \<lparr>ur_group_key = Some k, ur_currency = Some (js ''usd''), ur_cost = Some (num_int c), ur_request_count = None,
     ur_prompt_tokens = None, ur_completion_tokens = None\<rparr>) [(js ''a'', 3), (js ''b'', 9)]"

theorem usage_summary_spec_witness:
  "cb_total (currency_section id num_repr (js ''usd'', usage_sample)) = cost_text id (js ''usd'') (Fin 12) \<and>
   length (top_rows usage_sample) = 2"
proof -
  have c: "row_cost r = num_int 3 \<or> row_cost r = num_int 9" if "r \<in> set usage_sample" for r
    using that by (auto simp: usage_sample_def row_cost_def num0_def)
  have whole: "whole_cost r" if "r \<in> set usage_sample" for r
    unfolding whole_cost_def using c [OF that] by (elim disjE) (rule exI, erule conjI, simp)+
  have cur: "row_currency r = js ''usd''" if "r \<in> set usage_sample" for r
    using that by (auto simp: usage_sample_def row_currency_def)
  have "(js ''usd'', usage_sample) \<in> set (byCurrency usage_sample)"
  proof -
    have "filter (\<lambda>r. row_currency r = js ''usd'') usage_sample = usage_sample" using cur by (simp add: filter_id_conv)
    moreover have "js ''usd'' \<in> set (chart_currencies usage_sample)"
      by (simp add: chart_currencies_def usage_sample_def row_currency_def)
    ultimately show ?thesis by (force simp: byCurrency_filter)
  qed
  moreover have sum: "sum_list (map cost_rat usage_sample) = 12" "length usage_sample = 2"
    by (simp_all add: usage_sample_def cost_rat_def row_cost_def num0_def)
  ultimately show ?thesis
    using usage_summary_spec [of usage_sample "js ''usd''" usage_sample id num_repr] whole by simp
qed

end
