(* ===== verification/Web_Rows.thy ===== *)
theory Web_Rows
  imports Web_Tables Web_Views Pages_Config
begin

text \<open>
  The tables of the Control Panel row by row: the cells of each table, the details a row opens, and the handlers of its
  buttons, each with the Server Action of the table (\<^verbatim>\<open>providers-table.tsx\<close>, \<^verbatim>\<open>routes-table.tsx\<close>,
  \<^verbatim>\<open>plugins-table.tsx\<close>, \<^verbatim>\<open>operators-table.tsx\<close>, the \<^verbatim>\<open>table.tsx\<close> of groups, applications, tenants,
  API keys, audit, data plane nodes, usage and request logs, \<^verbatim>\<open>roles/client.tsx\<close>, \<^verbatim>\<open>quotas/client.tsx\<close>,
  \<^verbatim>\<open>config/history/client.tsx\<close>, \<^verbatim>\<open>models/client.tsx\<close>, \<^verbatim>\<open>models/[alias]/client.tsx\<close>).

  The rows of most tables are records of unknown values (\<open>json\<close>), the others have a declared type. \<open>t\<close> translates a
  key, \<open>time\<close> is \<^verbatim>\<open>new Date(v).toLocaleString()\<close>, \<open>loc\<close> is \<^verbatim>\<open>toLocaleString\<close>.
\<close>

section \<open>Cells\<close>

text \<open>A raw value is left to the renderer; a muted text stands for a missing value; a marked one has a colour.\<close>

datatype cell = RawCell jsval | TextCell jsstr | MutedCell jsstr | MarkedCell jsstr jsstr | ListCell "cell list"

definition raw_cell :: "json \<Rightarrow> jsstr \<Rightarrow> cell" where
  "raw_cell row k = RawCell (opt_prop (Some row) k)"

definition dash_cell :: cell where
  "dash_cell = MutedCell dash"

definition cell_or_dash :: "json \<Rightarrow> jsstr \<Rightarrow> cell" where
  "cell_or_dash row k = (if is_nullish (opt_prop (Some row) k) then dash_cell else raw_cell row k)"

definition time_cell :: "(json \<Rightarrow> jsstr) \<Rightarrow> json \<Rightarrow> jsstr \<Rightarrow> cell" where
  "time_cell time row k =
     (let v = opt_prop (Some row) k in if truthy v then TextCell (time (the v)) else dash_cell)"

definition enabled_cell :: "(jsstr \<Rightarrow> jsstr) \<Rightarrow> json \<Rightarrow> cell" where
  "enabled_cell t row =
     (if truthy (opt_prop (Some row) (js ''enabled'')) then MarkedCell (js ''foreground'') (t (js ''status.enabled''))
      else MarkedCell (js ''destructive'') (t (js ''status.disabled'')))"

definition GroupsTable_cells :: "(jsstr \<Rightarrow> jsstr) \<Rightarrow> json \<Rightarrow> cell list" where
  "GroupsTable_cells t row = [raw_cell row (js ''id''), raw_cell row (js ''name''), enabled_cell t row]"

definition ApplicationsTable_cells :: "(jsstr \<Rightarrow> jsstr) \<Rightarrow> json \<Rightarrow> cell list" where
  "ApplicationsTable_cells t row =
     [raw_cell row (js ''id''), raw_cell row (js ''name''), raw_cell row (js ''owner_group_name''), enabled_cell t row]"

definition TenantsTable_cells :: "(jsstr \<Rightarrow> jsstr) \<Rightarrow> json \<Rightarrow> cell list" where
  "TenantsTable_cells t row = [raw_cell row (js ''id''), raw_cell row (js ''name''), enabled_cell t row]"

text \<open>The endpoints have the declared type, a list of records with an optional adapter.\<close>

definition adapter_badge :: "json \<Rightarrow> cell" where
  "adapter_badge ep =
     (let v = coalesce (opt_prop (Some ep) (js ''adapter'')) (JStr []) in
      if v = JStr (js ''claude'') then MarkedCell (js ''warning'') (js ''Anthropic'')
      else if v = JStr (js ''openai'') then MarkedCell (js ''info'') (js ''OpenAI'')
      else MarkedCell (js ''info'') (json_String v))"

definition ProvidersTable_cells :: "json \<Rightarrow> cell list" where
  "ProvidersTable_cells row =
     [raw_cell row (js ''name''), raw_cell row (js ''type''),
      case opt_prop (Some row) (js ''endpoints'') of
        Some (JArr eps) \<Rightarrow> if eps = [] then dash_cell else ListCell (map adapter_badge eps)
      | _ \<Rightarrow> dash_cell,
      raw_cell row (js ''base_url'')]"

definition APIKeysTable_cells :: "(jsstr \<Rightarrow> jsstr) \<Rightarrow> json \<Rightarrow> cell list" where
  "APIKeysTable_cells t row =
     (let u = JStr (t (js ''identity.unbound'')); e = opt_prop (Some row) (js ''environment'')
      in [raw_cell row (js ''key_id''), TextCell (json_String (coalesce (opt_prop (Some row) (js ''group_id'')) u)),
          TextCell (json_String (coalesce (opt_prop (Some row) (js ''application_id'')) u)),
          TextCell (json_String (if truthy e then the e else u))])"

text \<open>The label of the edit button of a key.\<close>

definition key_edit_label :: "(jsstr \<Rightarrow> jsstr) \<Rightarrow> (jsstr \<Rightarrow> jsstr) \<Rightarrow> json \<Rightarrow> jsstr" where
  "key_edit_label tCommon tK row =
     (if truthy (opt_prop (Some row) (js ''group_id'')) \<and> truthy (opt_prop (Some row) (js ''application_id'')) \<and>
         truthy (opt_prop (Some row) (js ''environment''))
      then tCommon (js ''actions.edit'') else tK (js ''identity.completeBinding''))"

definition strategy_cell :: "(jsstr \<Rightarrow> jsstr) \<Rightarrow> WebRoute \<Rightarrow> cell" where
  "strategy_cell t r =
     (case wr_strategy r of Some s \<Rightarrow> if s = [] then MutedCell (js ''-'') else TextCell (t (js ''strategy.'' @ s))
      | None \<Rightarrow> MutedCell (js ''-''))"

definition route_providers_cell :: "(jsstr \<Rightarrow> jsstr) \<Rightarrow> jsstr \<Rightarrow> WebRoute \<Rightarrow> cell" where
  "route_providers_cell t sep r =
     (if wr_providers r = [] then MutedCell (t (js ''actions.noProviders''))
      else ListCell (map (\<lambda>p. TextCell (wrp_name p @ (case wrp_weight p of None \<Rightarrow> [] | Some n \<Rightarrow> sep @ num_repr n))) (wr_providers r)))"

definition RoutesTable_cells :: "(jsstr \<Rightarrow> jsstr) \<Rightarrow> WebRoute \<Rightarrow> cell list" where
  "RoutesTable_cells t r = [TextCell (wr_model_alias r), strategy_cell t r, route_providers_cell t [0x20, 0xB7] r]"

definition route_detail :: "(jsstr \<Rightarrow> jsstr) \<Rightarrow> WebRoute \<Rightarrow> cell list" where
  "route_detail t r =
     [TextCell (wr_model_alias r),
      TextCell (case wr_strategy r of Some s \<Rightarrow> if s = [] then js ''-'' else t (js ''strategy.'' @ s) | None \<Rightarrow> js ''-''),
      route_providers_cell t ([0x20, 0xB7] @ js '' weight: '') r]"

definition phase_text :: "(jsstr \<Rightarrow> jsstr) \<Rightarrow> jsstr \<Rightarrow> jsstr" where
  "phase_text t v = (if v = js ''pre'' then t (js ''phase.pre'') else t (js ''phase.post''))"

definition PluginsTable_cells :: "(jsstr \<Rightarrow> jsstr) \<Rightarrow> WebPlugin \<Rightarrow> cell list" where
  "PluginsTable_cells t g =
     [TextCell (wg_name g),
      case wg_phase g of Some v \<Rightarrow> if v = [] then dash_cell else TextCell (phase_text t v) | None \<Rightarrow> dash_cell,
      if wg_enabled g = Some True then MarkedCell (js ''success'') (js ''Yes'') else MarkedCell (js ''secondary'') (js ''No''),
      case wg_scope g of Some s \<Rightarrow> if s = [] then MutedCell (js ''global'') else TextCell s | None \<Rightarrow> MutedCell (js ''global'')]"

definition plugin_detail :: "(jsstr \<Rightarrow> jsstr) \<Rightarrow> WebPlugin \<Rightarrow> jsstr list" where
  "plugin_detail t g =
     [wg_name g,
      case wg_phase g of Some v \<Rightarrow> if v = [] then dash else phase_text t v | None \<Rightarrow> dash,
      if wg_enabled g = Some True then js ''Yes'' else js ''No'',
      case wg_scope g of Some s \<Rightarrow> if s = [] then js ''global'' else s | None \<Rightarrow> js ''global'',
      stringify_pretty 0 (coalesce (wg_params g) (JObj []))]"

definition OperatorsTable_cells :: "(jsstr \<Rightarrow> jsstr) \<Rightarrow> OperatorRow \<Rightarrow> cell list" where
  "OperatorsTable_cells t r =
     [TextCell (num_repr (op_id r)), TextCell (op_email r), TextCell (t (js ''roles.'' @ op_role r)),
      TextCell (case op_tenant_id r of None \<Rightarrow> dash | Some n \<Rightarrow> num_repr n)]"

definition audit_action_cell :: "(jsstr \<Rightarrow> jsstr) \<Rightarrow> json \<Rightarrow> cell" where
  "audit_action_cell t row =
     (let v = opt_prop (Some row) (js ''action'') in
      if \<not> truthy v then dash_cell
      else MarkedCell (if the v = JStr (js ''delete'') then js ''destructive'' else if the v = JStr (js ''create'') then js ''success''
          else if the v = JStr (js ''read'') then js ''secondary'' else js ''info'')
        (t (js ''actions.'' @ json_String (the v))))"

definition AuditTable_cells :: "(jsstr \<Rightarrow> jsstr) \<Rightarrow> (json \<Rightarrow> jsstr) \<Rightarrow> json \<Rightarrow> cell list" where
  "AuditTable_cells t time row =
     [time_cell time row (js ''created_at''), cell_or_dash row (js ''operator_id''), cell_or_dash row (js ''tenant''),
      cell_or_dash row (js ''resource_type''), cell_or_dash row (js ''resource_id''), audit_action_cell t row]"

text \<open>The commit of a data plane node is a text, as its cast says; a translation that is missing is empty.\<close>

definition node_version_cell :: "json \<Rightarrow> cell" where
  "node_version_cell row =
     ListCell (raw_cell row (js ''version'') #
       (case opt_prop (Some row) (js ''commit'') of
          Some (JStr c) \<Rightarrow> if c \<noteq> [] \<and> c \<noteq> js ''unknown'' then [TextCell (take 8 c)] else []
        | _ \<Rightarrow> []))"

definition node_status_cell :: "(jsstr \<Rightarrow> jsstr) \<Rightarrow> json \<Rightarrow> cell" where
  "node_status_cell t row =
     (let s = json_String (coalesce (opt_prop (Some row) (js ''status'')) (JStr (js ''unknown'')));
          label = t (js ''status.'' @ s)
      in MarkedCell (if s = js ''online'' then js ''success'' else if s = js ''offline'' then js ''destructive''
            else if s = js ''draining'' then js ''warning'' else [])
          (if label = [] then s else label))"

definition DataPlaneNodesTable_cells :: "(jsstr \<Rightarrow> jsstr) \<Rightarrow> (json \<Rightarrow> jsstr) \<Rightarrow> (json \<Rightarrow> jsstr) \<Rightarrow> json \<Rightarrow> cell list" where
  "DataPlaneNodesTable_cells t loc time row =
     [raw_cell row (js ''instance_id''), raw_cell row (js ''hostname''), raw_cell row (js ''addr''), node_version_cell row,
      TextCell (let v = opt_prop (Some row) (js ''config_generation'') in if is_nullish v then dash else loc (the v)),
      node_status_cell t row, time_cell time row (js ''started_at''), time_cell time row (js ''last_heartbeat_at'')]"

text \<open>The tables of the usage records and of the request log. Costs and session identifiers have the type their cast
  says; a session whose identifier cannot be escaped makes the rendering throw.\<close>

definition number_cell :: "(json \<Rightarrow> jsstr) \<Rightarrow> json \<Rightarrow> jsstr \<Rightarrow> cell" where
  "number_cell loc row k =
     (let v = opt_prop (Some row) k in if is_nullish v then dash_cell else TextCell (loc (the v)))"

definition application_cell :: "(jsstr \<Rightarrow> jsstr) \<Rightarrow> json \<Rightarrow> cell" where
  "application_cell t row =
     TextCell (json_String (coalesce (opt_prop (Some row) (js ''application_id'')) (JStr (t (js ''identity.unattributed'')))))"

definition text_or :: "json \<Rightarrow> jsstr \<Rightarrow> jsstr \<Rightarrow> jsstr" where
  "text_or row k d = (let v = opt_prop (Some row) k in if truthy v then json_String (the v) else d)"

definition usage_cost_cell :: "(jsstr \<Rightarrow> jsstr) \<Rightarrow> json \<Rightarrow> cell" where
  "usage_cost_cell t row =
     (case opt_prop (Some row) (js ''cost'') of
        Some (JNum n) \<Rightarrow> TextCell (microToDisplay n @ js '' '' @ text_or row (js ''currency'') (t (js ''identity.unknownCurrency'')))
      | _ \<Rightarrow> dash_cell)"

definition UsageTable_cells :: "(jsstr \<Rightarrow> jsstr) \<Rightarrow> (json \<Rightarrow> jsstr) \<Rightarrow> (json \<Rightarrow> jsstr) \<Rightarrow> json \<Rightarrow> cell list" where
  "UsageTable_cells t loc time row =
     [time_cell time row (js ''created_at''), cell_or_dash row (js ''tenant''), application_cell t row,
      TextCell (text_or row (js ''environment'') (t (js ''identity.unattributed''))),
      cell_or_dash row (js ''model''), cell_or_dash row (js ''provider''),
      number_cell loc row (js ''prompt_tokens''), number_cell loc row (js ''completion_tokens''), usage_cost_cell t row]"

definition string_prop :: "json \<Rightarrow> jsstr \<Rightarrow> jsstr option" where
  "string_prop row k = (case opt_prop (Some row) k of Some (JStr s) \<Rightarrow> Some s | _ \<Rightarrow> None)"

definition protocol_cell :: "(jsstr \<Rightarrow> jsstr) \<Rightarrow> (jsstr \<times> jsstr) list \<Rightarrow> json \<Rightarrow> cell" where
  "protocol_cell t providerAdapters row =
     (case string_prop row (js ''ingress_protocol'') of
        Some proto \<Rightarrow>
          if proto = [] then dash_cell
          else ListCell (TextCell proto #
            (case passthrough providerAdapters proto (string_prop row (js ''provider'')) of
               None \<Rightarrow> []
             | Some b \<Rightarrow> [if b then MarkedCell (js ''success'') (t (js ''badges.passthrough''))
                 else MarkedCell (js ''muted'') (t (js ''badges.translated''))]))
      | None \<Rightarrow> dash_cell)"

definition outcome_cell :: "(jsstr \<Rightarrow> jsstr) \<Rightarrow> json \<Rightarrow> cell" where
  "outcome_cell t row =
     (case status_cell (string_prop row (js ''error_type'')) (string_prop row (js ''blocked_by'')) of
        LogSuccess \<Rightarrow> MarkedCell (js ''success'') (t (js ''status.success''))
      | LogBlocked b \<Rightarrow> MarkedCell (js ''destructive'') (t (js ''columns.blockedBy'') @ js '': '' @ b)
      | LogError e \<Rightarrow> MarkedCell (js ''destructive'') e)"

definition log_session_cell :: "json \<Rightarrow> cell res" where
  "log_session_cell row =
     (case string_prop row (js ''session_id'') of
        Some v \<Rightarrow> if v = [] then Inr dash_cell else rbind (session_cell v) (\<lambda>(href, s). Inr (MarkedCell href s))
      | None \<Rightarrow> Inr dash_cell)"

definition RequestLogsTable_cells :: "(jsstr \<Rightarrow> jsstr) \<Rightarrow> (json \<Rightarrow> jsstr) \<Rightarrow> (json \<Rightarrow> jsstr) \<Rightarrow> (jsstr \<times> jsstr) list \<Rightarrow> json \<Rightarrow> cell list res" where
  "RequestLogsTable_cells t loc time providerAdapters row =
     rbind (log_session_cell row) (\<lambda>s. Inr
       [time_cell time row (js ''created_at''), raw_cell row (js ''tenant''), application_cell t row,
        TextCell (text_or row (js ''environment'') (t (js ''identity.unattributed''))), cell_or_dash row (js ''provider''),
        protocol_cell t providerAdapters row, cell_or_dash row (js ''model_requested''), number_cell loc row (js ''total_tokens''),
        number_cell loc row (js ''ttft_ms''), number_cell loc row (js ''duration_ms''), outcome_cell t row, s])"

text \<open>The roles, the balance of the quota page and the versions of the configuration.\<close>

definition RolesPage_cells :: "(jsstr \<Rightarrow> jsstr) \<Rightarrow> RoleRow \<Rightarrow> cell list" where
  "RolesPage_cells t r =
     [ListCell (TextCell (rr_name r) # (if rr_is_builtin r then [MutedCell (t (js ''builtin''))] else [])),
      if rr_scope_kind r = js ''global'' then MarkedCell (js ''info'') (t (js ''scope.global''))
      else MarkedCell (js ''secondary'') (t (js ''scope.tenant'')),
      MutedCell (digits10 (length (rr_permissions r)) @
        (if js ''*'' \<in> set (rr_permissions r) then js '' ('' @ t (js ''wildcard'') @ js '')'' else [])),
      MutedCell (if rr_description r = [] then dash else rr_description r)]"

definition quota_cells :: "jsstr \<Rightarrow> jsnum \<Rightarrow> jsstr \<Rightarrow> jsstr list option" where
  "quota_cells scope balance currency =
     (if scope = [] then None else Some [scope, microToDisplay balance, if currency = [] then dash else currency])"

definition snapshot_cells :: "(jsstr \<Rightarrow> jsstr) \<Rightarrow> (jsstr \<Rightarrow> jsstr) \<Rightarrow> bool \<Rightarrow> jsnum \<times> jsstr option \<Rightarrow> cell list" where
  "snapshot_cells t time isLatest row =
     [ListCell (TextCell (js ''v'' @ num_repr (fst row)) # (if isLatest then [TextCell (t (js ''labels.current''))] else [])),
      TextCell (case snd row of None \<Rightarrow> dash | Some s \<Rightarrow> if s = [] then dash else time s)]"

definition DiffView :: "(jsstr \<Rightarrow> jsstr) \<Rightarrow> jsstr list \<Rightarrow> jsstr list \<Rightarrow> cell list" where
  "DiffView t new_names old_names =
     [MarkedCell (js ''success'') (js ''+ '' @ digits10 (length new_names) @ js '' '' @ t (js ''diff.added'')),
      MarkedCell (js ''destructive'') ([0x2212, 0x20] @ digits10 (length old_names) @ js '' '' @ t (js ''diff.removed''))] @
     (if new_names \<noteq> [] \<or> old_names \<noteq> [] then
        map (\<lambda>n. MarkedCell (js ''success'') (js ''+ '' @ n)) new_names @
        map (\<lambda>n. MarkedCell (js ''destructive'') ([0x2212, 0x20] @ n)) old_names
      else [MutedCell (t (js ''diff.noChanges''))])"

section \<open>Handlers\<close>












text \<open>The page of one model leaves for the list after a deletion: its handler pushes a path instead of reloading.\<close>

definition ModelDetailClient_confirmDelete ::
  "(platform \<Rightarrow> jsstr confirm_ui \<Rightarrow> world \<Rightarrow> jsstr confirm_ui \<times> world) \<times> (jsstr confirm_ui \<Rightarrow> jsstr confirm_ui \<times> jsstr option)" where
  "ModelDetailClient_confirmDelete =
     (confirm_start deleteModel,
      \<lambda>ui. let (ui', es) = confirm_settle ui in (ui', if es = [] then None else Some (js ''/models'')))"

definition GroupsTable_enable :: "json \<Rightarrow> platform \<Rightarrow> world \<Rightarrow> ui_effect list option \<times> world" where
  "GroupsTable_enable row = enable_row (setGroupEnabled (row_text row (js ''name'')) True)"

definition ApplicationsTable_enable :: "json \<Rightarrow> platform \<Rightarrow> world \<Rightarrow> ui_effect list option \<times> world" where
  "ApplicationsTable_enable row = enable_row (setApplicationEnabled (row_text row (js ''name'')) True)"

definition TenantsTable_enable :: "json \<Rightarrow> platform \<Rightarrow> world \<Rightarrow> ui_effect list option \<times> world" where
  "TenantsTable_enable row = enable_row (setTenantEnabled (row_text row (js ''name'')) True)"

text \<open>\<^verbatim>\<open>goNext\<close>: the path of the page and its search parameters with the next cursor.\<close>

definition goNext :: "jsstr \<Rightarrow> jsstr \<Rightarrow> form \<Rightarrow> jsstr \<times> form" where
  "goNext path nextCursor sp = (path, usp_set (js ''cursor'') nextCursor sp)"

definition ProvidersTable_goNext where "ProvidersTable_goNext = goNext (js ''/providers'')"
definition GroupsTable_goNext where "GroupsTable_goNext = goNext (js ''/groups'')"
definition ApplicationsTable_goNext where "ApplicationsTable_goNext = goNext (js ''/applications'')"
definition TenantsTable_goNext where "TenantsTable_goNext = goNext (js ''/tenants'')"
definition APIKeysTable_goNext where "APIKeysTable_goNext = goNext (js ''/api-keys'')"
definition PluginsTable_goNext where "PluginsTable_goNext = goNext (js ''/plugins'')"
definition RoutesTable_goNext where "RoutesTable_goNext = goNext (js ''/routes'')"

text \<open>The routes of the lists that a table pages through: the page that the path opens, and the next button of the table
  that the page renders.\<close>

definition list_screens :: "(jsstr \<times> (form \<Rightarrow> page act) \<times> (jsstr \<Rightarrow> form \<Rightarrow> jsstr \<times> form)) list" where
  "list_screens =
     [(js ''/providers'', ProvidersPage, ProvidersTable_goNext), (js ''/tenants'', TenantsPage, TenantsTable_goNext),
      (js ''/groups'', GroupsPage, GroupsTable_goNext), (js ''/plugins'', PluginsPage, PluginsTable_goNext)]"

text \<open>Reading a list to its end with the button: opening the page of an address, its rows and cursor, then the address
  that the button pushes. \<open>n\<close> bounds the number of pages.\<close>

definition shown_prop :: "props \<Rightarrow> jsstr \<Rightarrow> jsval" where
  "shown_prop ps k = (case map_of ps k of Some v \<Rightarrow> v | None \<Rightarrow> None)"

fun walk_list :: "nat \<Rightarrow> jsstr \<times> form \<Rightarrow> json list act" where
  "walk_list 0 addr = ret []"
| "walk_list (Suc n) (path, sp) =
     (case map_of list_screens path of
        None \<Rightarrow> ret []
      | Some (page, next) \<Rightarrow>
          bnd (page sp) (\<lambda>p.
            case p of
              Shown name ps \<Rightarrow>
                (case (shown_prop ps (js ''rows''), shown_prop ps (js ''nextCursor'')) of
                   (Some (JArr rows), Some (JStr c)) \<Rightarrow>
                     if c = [] then ret rows
                     else bnd (walk_list n (next c sp)) (\<lambda>rest. ret (rows @ rest))
                 | _ \<Rightarrow> ret [])
            | _ \<Rightarrow> ret []))"

section \<open>Lemmas\<close>



text \<open>A request of the log is marked as a success exactly when it has neither an error nor a block.\<close>

lemma outcome_cell_success:
  "outcome_cell t row = MarkedCell (js ''success'') (t (js ''status.success'')) \<longleftrightarrow>
     (string_prop row (js ''error_type'') \<in> {None, Some []} \<and> string_prop row (js ''blocked_by'') \<in> {None, Some []})"
  by (auto simp: outcome_cell_def status_cell_def Let_def js_def split: option.splits if_splits)

text \<open>The details of a plugin and its row agree.\<close>

lemma plugin_detail_row:
  "take 4 (plugin_detail t g) =
     map (\<lambda>x. case x of TextCell s \<Rightarrow> s | MutedCell s \<Rightarrow> s | MarkedCell v s \<Rightarrow> s | _ \<Rightarrow> []) (PluginsTable_cells t g)"
  by (auto simp: plugin_detail_def PluginsTable_cells_def dash_cell_def split: option.splits)

text \<open>A key whose edit button asks to complete the binding is one with an unbound cell, or with the identifier zero.\<close>

lemma key_label_bound:
  assumes "key_edit_label tCommon tK row = tCommon (js ''actions.edit'')" and "tCommon (js ''actions.edit'') \<noteq> tK (js ''identity.completeBinding'')"
  shows "\<not> is_nullish (opt_prop (Some row) (js ''group_id'')) \<and> \<not> is_nullish (opt_prop (Some row) (js ''application_id''))"
proof -
  have "truthy v \<Longrightarrow> \<not> is_nullish v" for v by (cases v rule: is_nullish.cases) auto
  with assms show ?thesis by (auto simp: key_edit_label_def split: if_splits)
qed

text \<open>The admin API serves a list in pages: each answer has its rows and the cursor of the next, the last none.\<close>

fun served :: "platform \<Rightarrow> admin_client \<Rightarrow> jsstr \<Rightarrow> form \<Rightarrow> (json list \<times> jsstr) list \<Rightarrow> bool" where
  "served pf c path sp [] \<longleftrightarrow> False"
| "served pf c path sp ((rows, next) # rest) \<longleftrightarrow>
     (\<forall>h. pf_fetch pf (h @ [mk_req c GET path [] (list_query sp) None]) = FetchResult \<lparr>
        fr_data = Some (JObj [(js ''data'', JArr rows), (js ''next_cursor'', JStr next)]), fr_error = None, fr_status = 200\<rparr>) \<and>
     (if next = [] then rest = [] else served pf c path (usp_set (js ''cursor'') next sp) rest)"

lemma list_query_next:
  "c \<noteq> [] \<Longrightarrow> list_query (usp_set (js ''cursor'') c sp) = (js ''cursor'', JStr c) #
     when_field (form_raw sp (js ''limit'') \<noteq> []) (js ''limit'') (JNum (js_Number (form_raw sp (js ''limit''))))"
  by (simp add: list_query_def when_param_def when_field_def form_raw_def js_def)

lemmas goNext_defs = ProvidersTable_goNext_def TenantsTable_goNext_def GroupsTable_goNext_def PluginsTable_goNext_def

text \<open>The API path of each list.\<close>

definition list_api :: "(jsstr \<times> jsstr) list" where
  "list_api = [(js ''/providers'', js ''/api/v1/providers''), (js ''/tenants'', js ''/api/v1/tenants''),
     (js ''/groups'', js ''/api/v1/groups''), (js ''/plugins'', js ''/api/v1/plugins'')]"

lemma list_screen:
  assumes "(href, path) \<in> set list_api"
  obtains page name where "map_of list_screens href = Some (page, goNext href)" "(page, path, name) \<in> set list_pages"
  using assms by (auto simp: list_api_def list_screens_def list_pages_def goNext_defs)

lemma walk_list_complete:
  assumes "(href, path) \<in> set list_api" and "client_of pf w = Some c" and "served pf c path sp chain"
  shows "\<exists>rs. walk_list (length chain) (href, sp) pf w = (Inr (concat (map fst chain)), w\<lparr>w_sent := w_sent w @ rs\<rparr>) \<and>
     length rs = length chain"
  using assms(2,3)
proof (induction chain arbitrary: sp w)
  case (Cons x chain)
  obtain rows nxt where x: "x = (rows, nxt)" by (cases x)
  obtain page name where scr: "map_of list_screens href = Some (page, goNext href)" and mem: "(page, path, name) \<in> set list_pages"
    by (rule list_screen [OF assms(1)])
  let ?r = "mk_req c GET path [] (list_query sp) None"
  let ?w = "w\<lparr>w_sent := w_sent w @ [?r]\<rparr>"
  have f: "pf_fetch pf (w_sent w @ [?r]) = FetchResult \<lparr>
      fr_data = Some (JObj [(js ''data'', JArr rows), (js ''next_cursor'', JStr nxt)]), fr_error = None, fr_status = 200\<rparr>"
    using Cons.prems(2) x by simp
  have run: "page sp pf w = (Inr (Shown name [(js ''rows'', Some (JArr rows)), (js ''nextCursor'', Some (JStr nxt))]), ?w)"
    using list_pages_outcome [OF mem Cons.prems(1) f] by (simp add: response_ok_def coalesce_def js_def)
  show ?case
  proof (cases "nxt = []")
    case True
    with Cons.prems(2) x have "chain = []" by simp
    with True x run scr show ?thesis by (intro exI [of _ "[?r]"]) (simp add: bnd_apply shown_prop_def js_def)
  next
    case False
    have "client_of pf ?w = Some c" using Cons.prems(1) by simp
    moreover have "served pf c path (usp_set (js ''cursor'') nxt sp) chain" using Cons.prems(2) x False by simp
    ultimately obtain rs where "walk_list (length chain) (href, usp_set (js ''cursor'') nxt sp) pf ?w =
        (Inr (concat (map fst chain)), ?w\<lparr>w_sent := w_sent ?w @ rs\<rparr>)" "length rs = length chain"
      using Cons.IH by blast
    with False x run scr show ?thesis
      by (intro exI [of _ "?r # rs"]) (simp add: bnd_apply shown_prop_def js_def goNext_def)
  qed
qed simp

section \<open>Properties\<close>


text \<open>C26: The lists of providers, tenants, groups and plugins can be read to their end. When the admin API serves such a
  list in a finite chain of pages, opening the page of the list and following the address that its next button pushes,
  from any search parameters, shows exactly the rows of all pages in their order, with one request for each page.\<close>

theorem table_pages_complete:
  assumes "(href, path) \<in> {(js ''/providers'', js ''/api/v1/providers''), (js ''/tenants'', js ''/api/v1/tenants''),
      (js ''/groups'', js ''/api/v1/groups''), (js ''/plugins'', js ''/api/v1/plugins'')}"
    and "client_of pf w = Some c" and "served pf c path sp chain"
  shows "\<exists>rs. walk_list (length chain) (href, sp) pf w = (Inr (concat (map fst chain)), w\<lparr>w_sent := w_sent w @ rs\<rparr>) \<and>
     length rs = length chain"
proof -
  have "(href, path) \<in> set list_api" using assms(1) by (auto simp: list_api_def)
  from walk_list_complete [OF this assms(2,3)] show ?thesis .
qed

theorem table_pages_complete_witness:
  "\<exists>pf w. walk_list 2 (js ''/groups'', []) pf w =
     (Inr [JNum (num_int 1), JNum (num_int 2)], w\<lparr>w_sent := w_sent (snd (walk_list 2 (js ''/groups'', []) pf w))\<rparr>)"
proof -
  define reply where "reply = (\<lambda>n next. FetchResult \<lparr>fr_data = Some (JObj [(js ''data'', JArr [JNum (num_int n)]), (js ''next_cursor'', JStr next)]),
    fr_error = None, fr_status = 200\<rparr>)"
  define q where "q = mk_req sample_client GET (js ''/api/v1/groups'') [] (list_query []) None"
  define pf where "pf = sample_platform\<lparr>pf_fetch := \<lambda>h. if last h = q then reply 1 (js ''b'') else reply 2 []\<rparr>"
  have "list_query [] = []" "list_query (usp_set (js ''cursor'') (js ''b'') []) \<noteq> []"
    by (simp_all add: list_query_def when_param_def when_field_def form_raw_def form_get_def js_def)
  then have "mk_req sample_client GET (js ''/api/v1/groups'') [] (list_query (usp_set (js ''cursor'') (js ''b'') [])) None \<noteq> q"
    by (simp add: q_def mk_req_def)
  then have "served pf sample_client (js ''/api/v1/groups'') [] [([JNum (num_int 1)], js ''b''), ([JNum (num_int 2)], [])]"
    by (simp add: pf_def reply_def q_def js_def)
  moreover have "client_of pf sample_world = Some sample_client" by (simp add: pf_def)
  ultimately obtain rs where "walk_list (length [([JNum (num_int 1)], js ''b''), ([JNum (num_int 2)], [])]) (js ''/groups'', []) pf sample_world =
      (Inr (concat (map fst [([JNum (num_int 1)], js ''b''), ([JNum (num_int 2)], [])])), sample_world\<lparr>w_sent := w_sent sample_world @ rs\<rparr>)"
    using table_pages_complete [of "js ''/groups''" "js ''/api/v1/groups''"] by blast
  then show ?thesis by (intro exI [of _ pf] exI [of _ sample_world]) (simp add: numeral_2_eq_2)
qed

end
