(* ===== verification/Web_Budget_Rows.thy ===== *)
theory Web_Budget_Rows
  imports Web_Budgets Web_Rows
begin

text \<open>
  What the budget pages show: the rows of policies, events and reservations (\<^verbatim>\<open>budgets/client.tsx\<close>) and the page of
  one budget with its accounts (\<^verbatim>\<open>budgets/[id]/page.tsx\<close>). \<open>t\<close> translates a key, \<open>upper\<close> is \<^verbatim>\<open>toUpperCase\<close>,
  \<open>time\<close> formats a time stamp in UTC; the rows have the types of the admin API.
\<close>

section \<open>Rows\<close>

record PolicyRow =
  py_id :: jsnum
  py_name :: jsstr
  py_scope_kind :: jsstr
  py_scope_ref :: jsstr
  py_environment :: jsstr
  py_period :: jsstr
  py_timezone :: jsstr
  py_limit :: jsnum
  py_currency :: jsstr
  py_mode :: jsstr
  py_enabled :: bool
  py_thresholds :: "jsnum list"
  py_created_at :: jsstr
  py_version :: jsnum

record BudgetEvent =
  be_created_at :: jsstr
  be_kind :: jsstr
  be_account_id :: "jsnum option"
  be_threshold :: jsnum
  be_amount :: jsnum
  be_reservation_id :: jsstr
  be_operator_id :: "jsnum option"
  be_reason :: jsstr
  be_evidence :: jsstr

record ReservationRow =
  vr_request_id :: jsstr
  vr_created_at :: jsstr
  vr_status :: jsstr
  vr_estimate :: jsnum
  vr_actual :: "jsnum option"
  vr_currency :: jsstr
  vr_reason :: jsstr

record BudgetAccount =
  ba_id :: jsnum
  ba_period_start :: jsstr
  ba_period_end :: jsstr
  ba_limit :: jsnum
  ba_committed :: jsnum
  ba_reserved :: jsnum
  ba_released :: jsnum
  ba_available :: jsnum
  ba_currency :: jsstr

definition budget_money :: "(jsstr \<Rightarrow> jsstr) \<Rightarrow> (jsstr \<Rightarrow> jsstr) \<Rightarrow> jsnum \<Rightarrow> jsstr option \<Rightarrow> jsstr" where
  "budget_money t upper v currency =
     microToDisplay v @ js '' '' @
     (case currency of None \<Rightarrow> t (js ''unknownCurrency'')
      | Some c \<Rightarrow> if upper c = [] then t (js ''unknownCurrency'') else upper c)"

definition none_or :: "(jsstr \<Rightarrow> jsstr) \<Rightarrow> jsstr \<Rightarrow> jsstr" where
  "none_or t s = (if s = [] then t (js ''none'') else s)"

definition id_or_none :: "(jsstr \<Rightarrow> jsstr) \<Rightarrow> jsnum option \<Rightarrow> jsstr" where
  "id_or_none t v = (case v of None \<Rightarrow> t (js ''none'') | Some n \<Rightarrow> num_repr n)"

text \<open>The link to the accounts of a policy; it carries the tenant for an operator of every tenant.\<close>

definition accounts_href :: "bool \<Rightarrow> jsstr \<Rightarrow> PolicyRow \<Rightarrow> jsstr res" where
  "accounts_href global tenant p =
     (if global then rbind (encodeURIComponent tenant) (\<lambda>u. Inr (js ''/budgets/'' @ num_repr (py_id p) @ js ''?tenant='' @ u))
      else Inr (js ''/budgets/'' @ num_repr (py_id p)))"

definition policy_cells :: "(jsstr \<Rightarrow> jsstr) \<Rightarrow> (jsstr \<Rightarrow> jsstr) \<Rightarrow> PolicyRow \<Rightarrow> cell list" where
  "policy_cells t upper p =
     [TextCell (py_name p),
      ListCell (TextCell (t (js ''scope.'' @ py_scope_kind p)) #
        (if py_scope_ref p = [] then [] else [MutedCell (py_scope_ref p @ js '' '' @ py_environment p)])),
      ListCell [TextCell (t (js ''period.'' @ py_period p)), MutedCell (py_timezone p)],
      TextCell (budget_money t upper (py_limit p) (Some (py_currency p))),
      MarkedCell (if py_mode p = js ''enforce'' then js ''info'' else js ''outline'') (t (js ''mode.'' @ py_mode p)),
      MarkedCell (if py_enabled p then js ''success'' else js ''outline'') (t (js ''enabled.'' @ bool_text (py_enabled p)))]"

text \<open>\<open>has\<close> is \<^verbatim>\<open>t.has\<close>: whether the catalogue has a key.\<close>

definition event_cells :: "(jsstr \<Rightarrow> jsstr) \<Rightarrow> (jsstr \<Rightarrow> bool) \<Rightarrow> (jsstr \<Rightarrow> jsstr) \<Rightarrow> (jsstr \<Rightarrow> jsstr) \<Rightarrow> BudgetEvent \<Rightarrow> jsstr list" where
  "event_cells t has_key upper time e =
     [time (be_created_at e),
      if has_key (js ''eventKind.'' @ be_kind e) then t (js ''eventKind.'' @ be_kind e) else be_kind e,
      id_or_none t (be_account_id e),
      if num_truthy (be_threshold e) then num_repr (be_threshold e) @ js ''%'' else t (js ''none''),
      budget_money t upper (be_amount e) None]"

definition event_detail :: "(jsstr \<Rightarrow> jsstr) \<Rightarrow> BudgetEvent \<Rightarrow> jsstr list" where
  "event_detail t e =
     [none_or t (be_reservation_id e), id_or_none t (be_operator_id e), none_or t (be_reason e), none_or t (be_evidence e)]"

definition unsettled :: "jsstr \<Rightarrow> bool" where
  "unsettled status \<longleftrightarrow> status = js ''unknown'' \<or> status = js ''released_unknown''"

definition reservation_cells :: "(jsstr \<Rightarrow> jsstr) \<Rightarrow> (jsstr \<Rightarrow> jsstr) \<Rightarrow> (jsstr \<Rightarrow> jsstr) \<Rightarrow> ReservationRow \<Rightarrow> cell list" where
  "reservation_cells t upper time r =
     [ListCell [TextCell (vr_request_id r), MutedCell (time (vr_created_at r))],
      MarkedCell (if unsettled (vr_status r) then js ''warning'' else js ''outline'') (t (js ''status.'' @ vr_status r)),
      TextCell (budget_money t upper (vr_estimate r) (Some (vr_currency r))),
      TextCell (case vr_actual r of None \<Rightarrow> t (js ''unknownAmount'') | Some n \<Rightarrow> budget_money t upper n (Some (vr_currency r))),
      TextCell (none_or t (vr_reason r))]"

section \<open>The page of one budget\<close>

definition policy_detail :: "(jsstr \<Rightarrow> jsstr) \<Rightarrow> (jsstr \<Rightarrow> jsstr) \<Rightarrow> (jsstr \<Rightarrow> jsstr) \<Rightarrow> PolicyRow \<Rightarrow> jsstr list" where
  "policy_detail t upper time p =
     [t (js ''scope.'' @ py_scope_kind p) @ js '' '' @ py_scope_ref p @ js '' '' @ py_environment p,
      t (js ''period.'' @ py_period p) @ [0x20, 0xB7, 0x20] @ py_timezone p,
      budget_money t upper (py_limit p) (Some (py_currency p)),
      t (js ''mode.'' @ py_mode p),
      none_or t (js_join (js '', '') (map (\<lambda>v. num_repr v @ js ''%'') (py_thresholds p))),
      t (js ''enabled.'' @ bool_text (py_enabled p)),
      time (py_created_at p),
      num_repr (py_version p)]"

definition account_cells :: "(jsstr \<Rightarrow> jsstr) \<Rightarrow> (jsstr \<Rightarrow> jsstr) \<Rightarrow> (jsstr \<Rightarrow> jsstr) \<Rightarrow> BudgetAccount \<Rightarrow> cell list" where
  "account_cells t upper time a =
     (let money = (\<lambda>v. budget_money t upper v (Some (ba_currency a)))
      in [TextCell (num_repr (ba_id a)), ListCell [TextCell (time (ba_period_start a)), MutedCell (time (ba_period_end a))]] @
         map (\<lambda>f. MarkedCell (js ''foreground'') (money (f a))) [ba_limit, ba_committed, ba_reserved, ba_released] @
         [MarkedCell (if num_lt (ba_available a) (Fin 0) then js ''destructive'' else js ''foreground'') (money (ba_available a))])"

section \<open>Lemmas\<close>

text \<open>The tenant in the link to the accounts is read back as it was.\<close>

lemma accounts_link:
  assumes "accounts_href True tenant p = Inr h"
  shows "\<exists>u. h = js ''/budgets/'' @ num_repr (py_id p) @ js ''?tenant='' @ u \<and> decodeURIComponent u = Inr tenant"
  using assms by (auto simp: accounts_href_def rbind_Inr_conv intro: decode_encode)

text \<open>The amounts of the events are always shown without their currency.\<close>

lemma event_currency_unknown:
  "last (event_cells t has_key upper time e) = microToDisplay (be_amount e) @ js '' '' @ t (js ''unknownCurrency'')"
  by (simp add: event_cells_def budget_money_def)

text \<open>A reservation is marked exactly when an operator who may resolve reservations is offered to.\<close>

lemma marked_resolvable:
  "rv_status rv = vr_status r \<Longrightarrow>
   reservation_cells t upper time r ! 1 = MarkedCell (js ''warning'') (t (js ''status.'' @ vr_status r)) \<longleftrightarrow> resolve_button True rv"
  by (simp add: reservation_cells_def resolve_button_def unsettled_def js_def)

end
