(* ===== verification/Web_Trace.thy ===== *)
theory Web_Trace
  imports Web_Rows Desktop_Format
begin

text \<open>
  The trace pages of the Control Panel: the list of sessions (\<^verbatim>\<open>trace/client.tsx\<close>), the session with its requests and
  the panel beside them (\<^verbatim>\<open>trace/sessions/[session_id]/client.tsx\<close>), the raw view of a request
  (\<^verbatim>\<open>[req]/detail-client.tsx\<close>) and the session of the request log
  (\<^verbatim>\<open>request-logs/sessions/[session_id]/client.tsx\<close>).

  The panel is loaded by a Server Action. The framework runs the Server Actions of a page one after the other, so
  answers come in the order of the calls; what an answer carries is an argument of the step.
\<close>

section \<open>The list of sessions\<close>

definition web_formatTokens :: "jsnum \<Rightarrow> jsstr" where
  "web_formatTokens n =
     (if num_le (Fin 1000000) n then num_toFixed 1 (num_divc n 1000000) @ js ''M''
      else if num_le (Fin 1000) n then num_toFixed 1 (num_divc n 1000) @ js ''k''
      else num_repr n)"

definition trace_formatDuration :: "jsnum \<Rightarrow> jsstr" where
  "trace_formatDuration ms =
     (if num_le ms (Fin 0) then [0x2014]
      else if num_lt ms (Fin 60000) then num_toFixed 1 (num_divc ms 1000) @ js ''s''
      else
        let m = num_floor (num_divc ms 60000);
            s = num_floor (num_divc (num_modc ms 60000) 1000)
        in num_repr m @ js ''m'' @ num_repr s @ js ''s'')"

record SessionSummary =
  ss_session_id :: jsstr
  ss_agent_type :: jsstr
  ss_request_count :: jsnum
  ss_prompt_tokens :: jsnum
  ss_completion_tokens :: jsnum
  ss_total_tokens :: jsnum
  ss_duration_ms :: jsnum
  ss_cost :: jsnum

text \<open>The cells of a session up to its cost; the first is the link.\<close>

definition session_cells :: "SessionSummary \<Rightarrow> (jsstr \<times> jsstr list) res" where
  "session_cells s =
     rbind (encodeURIComponent (ss_session_id s)) (\<lambda>u.
     Inr (js ''/trace/sessions/'' @ u,
       [ss_session_id s, if ss_agent_type s = [] then [0x2014] else ss_agent_type s, num_repr (ss_request_count s),
        web_formatTokens (ss_total_tokens s),
        js ''('' @ web_formatTokens (ss_prompt_tokens s) @ js ''/'' @ web_formatTokens (ss_completion_tokens s) @ js '')'',
        trace_formatDuration (ss_duration_ms s),
        if num_lt (Fin 0) (ss_cost s) then microToDisplay (ss_cost s) else [0x2014]]))"

text \<open>The filter by agent: the address with the chosen type, or without one.\<close>

definition agentOptions :: "jsstr list" where
  "agentOptions = [js ''claude-code'', js ''codex'', js ''codebuddy'', js ''workbuddy'', js ''opencode'']"

definition agent_filter :: "jsstr \<Rightarrow> form \<Rightarrow> form" where
  "agent_filter v sp = (if v \<noteq> [] then usp_set (js ''agent_type'') v sp else usp_delete (js ''agent_type'') sp)"

section \<open>The session\<close>

text \<open>The bar above the requests; \<open>shown\<close> is the formatter of \<^verbatim>\<open>formatDateTime\<close>.\<close>

record SessionStats =
  st_agent_type :: jsstr
  st_started_at :: jsstr
  st_request_count :: jsnum
  st_prompt_tokens :: jsnum
  st_completion_tokens :: jsnum
  st_total_tokens :: jsnum

definition stats_bar :: "(jsstr \<Rightarrow> jsstr) \<Rightarrow> jsstr \<Rightarrow> SessionStats \<Rightarrow> jsnum option \<Rightarrow> (jsstr \<times> jsstr) list" where
  "stats_bar shown sessionID st cost =
     [(js ''sessions.session'', sessionID)] @
     (if st_agent_type st = [] then [] else [(js ''detail.statsBar.agent'', st_agent_type st)]) @
     [(js ''detail.statsBar.startedAt'', shown (st_started_at st)), (js ''detail.statsBar.requestCount'', num_repr (st_request_count st)),
      (js ''detail.statsBar.inputTokens'', num_repr (st_prompt_tokens st)), (js ''detail.statsBar.outputTokens'', num_repr (st_completion_tokens st)),
      (js ''detail.statsBar.totalTokens'', num_repr (st_total_tokens st))] @
     (case cost of None \<Rightarrow> [] | Some c \<Rightarrow> if num_lt (Fin 0) c then [(js ''sessions.cost'', microToDisplay c)] else [])"

record TraceRow =
  tr_id :: "jsnum option"
  tr_request_id :: "jsstr option"
  tr_status_code :: "jsnum option"

record MetaRow =
  mr_request_id :: "jsstr option"
  mr_status_code :: "jsnum option"
  mr_duration_ms :: "jsnum option"
  mr_model_requested :: "jsstr option"

record session_request =
  sq_seq :: nat
  sq_rowID :: jsnum
  sq_model :: jsstr
  sq_status :: jsnum
  sq_durationMs :: jsnum

definition meta_at :: "MetaRow list \<Rightarrow> nat \<Rightarrow> MetaRow option" where
  "meta_at metaRows i = (if i < length metaRows then Some (metaRows ! i) else None)"

definition session_requests :: "TraceRow list \<Rightarrow> MetaRow list \<Rightarrow> session_request list" where
  "session_requests traceRows metaRows =
     map (\<lambda>(i, tr). let meta = meta_at metaRows i in
       \<lparr>sq_seq = Suc i,
        sq_rowID = (case tr_id tr of None \<Rightarrow> Fin 0 | Some n \<Rightarrow> n),
        sq_model = (case meta of None \<Rightarrow> [] | Some m \<Rightarrow> (case mr_model_requested m of None \<Rightarrow> [] | Some s \<Rightarrow> s)),
        sq_status = (case tr_status_code tr of Some n \<Rightarrow> n
           | None \<Rightarrow> (case meta of None \<Rightarrow> Fin 0 | Some m \<Rightarrow> (case mr_status_code m of None \<Rightarrow> Fin 0 | Some n \<Rightarrow> n))),
        sq_durationMs = (case meta of None \<Rightarrow> Fin 0 | Some m \<Rightarrow> (case mr_duration_ms m of None \<Rightarrow> Fin 0 | Some n \<Rightarrow> n))\<rparr>)
       (enumerate 0 traceRows)"

datatype trace_panel = PanelLoading | PanelLoaded jsval jsval | PanelError | PanelForbidden

text \<open>The state of the page. \<open>su_flight\<close> are the calls that are not answered yet, the oldest first, and \<open>su_shown\<close> the
  call whose answer the panel holds.\<close>

record session_ui =
  su_selectedSeq :: nat
  su_panel :: trace_panel
  su_flight :: "(jsnum \<times> jsnum) list"
  su_shown :: "(jsnum \<times> jsnum) option"

definition SessionDetailClient_init :: "session_request list \<Rightarrow> session_ui" where
  "SessionDetailClient_init requests =
     \<lparr>su_selectedSeq = (if requests \<noteq> [] then 1 else 0), su_panel = PanelLoading, su_flight = [], su_shown = None\<rparr>"

text \<open>\<^verbatim>\<open>loadSelected\<close> up to the call, and what it does with the answer; \<open>None\<close> is a call that throws.\<close>

definition loadSelected :: "jsnum \<times> jsnum \<Rightarrow> session_ui \<Rightarrow> session_ui" where
  "loadSelected rows ui = ui\<lparr>su_panel := PanelLoading, su_flight := su_flight ui @ [rows]\<rparr>"

definition panel_of :: "pair_result option \<Rightarrow> trace_panel" where
  "panel_of r = (case r of Some (PairOk c p) \<Rightarrow> PanelLoaded c p | Some (PairFail forbidden) \<Rightarrow> if forbidden then PanelForbidden else PanelError
     | None \<Rightarrow> PanelError)"

text \<open>The effect on mount, whose timer of zero milliseconds counts as run before the first click.\<close>

definition session_mount :: "session_request list \<Rightarrow> session_ui" where
  "session_mount requests =
     (case requests of
        [] \<Rightarrow> SessionDetailClient_init requests
      | r # _ \<Rightarrow> if num_truthy (sq_rowID r) then loadSelected (sq_rowID r, Fin 0) (SessionDetailClient_init requests)
          else SessionDetailClient_init requests)"

text \<open>The rows that \<^verbatim>\<open>onSelect\<close> asks for: the selected one and the one before it.\<close>

definition rows_of :: "session_request list \<Rightarrow> nat \<Rightarrow> jsnum \<times> jsnum" where
  "rows_of requests seq =
     (let idx = seq - 1 in
      (if idx < length requests then sq_rowID (requests ! idx) else Fin 0,
       if 0 < idx then sq_rowID (requests ! (idx - 1)) else Fin 0))"

definition session_onSelect :: "session_request list \<Rightarrow> nat \<Rightarrow> session_ui \<Rightarrow> session_ui" where
  "session_onSelect requests seq ui =
     (if seq = su_selectedSeq ui then ui else loadSelected (rows_of requests seq) (ui\<lparr>su_selectedSeq := seq\<rparr>))"

datatype session_event = SelectRow nat | PanelAnswer "pair_result option"

text \<open>A row without an identifier is disabled.\<close>

definition session_page_step :: "session_request list \<Rightarrow> session_ui \<Rightarrow> session_event \<Rightarrow> session_ui" where
  "session_page_step requests ui e =
     (case e of
        SelectRow seq \<Rightarrow>
          if 1 \<le> seq \<and> seq \<le> length requests \<and> num_truthy (sq_rowID (requests ! (seq - 1))) then session_onSelect requests seq ui else ui
      | PanelAnswer r \<Rightarrow>
          (case su_flight ui of [] \<Rightarrow> ui
           | q # qs \<Rightarrow> ui\<lparr>su_panel := panel_of r, su_flight := qs, su_shown := Some q\<rparr>))"

definition session_page_run :: "session_request list \<Rightarrow> session_event list \<Rightarrow> session_ui" where
  "session_page_run requests es = foldl (session_page_step requests) (session_mount requests) es"

text \<open>The cells of a row of the list, and whether it is marked as good.\<close>

definition request_cells :: "session_request \<Rightarrow> bool \<times> jsstr list" where
  "request_cells r =
     (num_le (Fin 200) (sq_status r) \<and> num_lt (sq_status r) (Fin 300),
      [js ''#'' @ digits10 (sq_seq r), if num_truthy (sq_status r) then num_repr (sq_status r) else [0x2014],
       if sq_model r = [] then [0x2014] else sq_model r,
       if num_truthy (sq_durationMs r) then num_toFixed 1 (num_divc (sq_durationMs r) 1000) @ js ''s'' else [0x2014]])"

section \<open>The raw view\<close>

definition raw_empty :: "jsval \<Rightarrow> bool" where
  "raw_empty v = (case v of None \<Rightarrow> True | Some JNull \<Rightarrow> True | Some (JStr s) \<Rightarrow> s = [] | Some (JArr vs) \<Rightarrow> vs = []
     | Some (JObj kvs) \<Rightarrow> kvs = [] | _ \<Rightarrow> False)"

text \<open>The text of a block, \<open>None\<close> for the placeholder.\<close>

definition RawBlock :: "bool \<Rightarrow> jsval \<Rightarrow> jsstr option" where
  "RawBlock as_text v =
     (if raw_empty v then None else Some (if as_text then json_String (the v) else stringify_pretty 0 (the v)))"

text \<open>The identity above a request.\<close>

definition TraceIdentity :: "(jsstr \<Rightarrow> jsstr) \<Rightarrow> jsnum option \<Rightarrow> jsstr option \<Rightarrow> jsstr list" where
  "TraceIdentity ti application environment =
     [case application of None \<Rightarrow> ti (js ''unattributed'') | Some n \<Rightarrow> num_repr n,
      case environment of None \<Rightarrow> ti (js ''unattributed'') | Some e \<Rightarrow> if e = [] then ti (js ''unattributed'') else e]"

section \<open>The session of the request log\<close>

text \<open>The cells of a request before its status.\<close>

definition timeline_cells :: "(jsstr \<Rightarrow> jsstr) \<Rightarrow> (json \<Rightarrow> jsstr) \<Rightarrow> (json \<Rightarrow> jsstr) \<Rightarrow> json \<Rightarrow> cell list" where
  "timeline_cells tIdentity loc time row =
     [time_cell time row (js ''created_at''),
      TextCell (json_String (coalesce (opt_prop (Some row) (js ''application_id'')) (JStr (tIdentity (js ''unattributed''))))),
      TextCell (text_or row (js ''environment'') (tIdentity (js ''unattributed''))),
      cell_or_dash row (js ''provider''), cell_or_dash row (js ''model_requested''),
      number_cell loc row (js ''total_tokens''), number_cell loc row (js ''ttft_ms''), number_cell loc row (js ''duration_ms'')]"

record RequestEntry =
  re_error_type :: "jsstr option"
  re_blocked_by :: "jsstr option"
  re_fallback :: "bool option"
  re_created_at :: "jsstr option"

definition filled :: "jsstr option \<Rightarrow> bool" where
  "filled v = (case v of None \<Rightarrow> False | Some s \<Rightarrow> s \<noteq> [])"

definition entry_failed :: "RequestEntry \<Rightarrow> bool" where
  "entry_failed r \<longleftrightarrow> filled (re_error_type r) \<or> filled (re_blocked_by r)"

text \<open>The time between the first and the last request; \<open>time\<close> reads a time stamp.\<close>

definition session_spanMs :: "(jsstr \<Rightarrow> jsnum) \<Rightarrow> RequestEntry list \<Rightarrow> jsnum" where
  "session_spanMs time requests =
     (let times = map (\<lambda>r. time (the (re_created_at r))) (filter (\<lambda>r. filled (re_created_at r)) requests)
      in if length times \<ge> 2 then num_sub (foldl num_max NegInf times) (foldl num_min PosInf times) else Fin 0)"

definition log_formatDuration :: "jsnum \<Rightarrow> jsstr" where
  "log_formatDuration ms =
     (if num_le ms (Fin 0) then [0x2014]
      else if num_lt ms (Fin 60000) then num_toFixed 1 (num_divc ms 1000) @ js ''s''
      else if num_lt ms (Fin 3600000) then num_toFixed 1 (num_divc ms 60000) @ js ''m''
      else num_toFixed 1 (num_divc ms 3600000) @ js ''h'')"

text \<open>The cards: requests, tokens, cost, errors, fallbacks, span; two are marked when they are not zero.\<close>

definition session_cards :: "(jsnum \<Rightarrow> jsstr) \<Rightarrow> (jsstr \<Rightarrow> jsnum) \<Rightarrow> RequestEntry list \<Rightarrow> jsnum option \<Rightarrow> jsnum option \<Rightarrow> jsnum option
    \<Rightarrow> (jsstr \<times> bool) list" where
  "session_cards loc time requests prompt completion cost =
     (let errors = length (filter entry_failed requests); fallbacks = length (filter (\<lambda>r. re_fallback r = Some True) requests);
          n0 = (\<lambda>v. case v of None \<Rightarrow> Fin 0 | Some n \<Rightarrow> n)
      in [(digits10 (length requests), False), (loc (num_add (n0 prompt) (n0 completion)), False), (microToDisplay (n0 cost), False),
          (digits10 errors, 0 < errors), (digits10 fallbacks, 0 < fallbacks), (log_formatDuration (session_spanMs time requests), False)])"

datatype timeline_status = TimelineFailed jsstr | TimelineFallback jsstr | TimelineSuccess jsstr

definition timeline_cell :: "(jsstr \<Rightarrow> jsstr) \<Rightarrow> RequestEntry \<Rightarrow> timeline_status" where
  "timeline_cell t r =
     (if entry_failed r then
        TimelineFailed (if filled (re_blocked_by r) then t (js ''timeline.fallback'') @ js '': '' @ the (re_blocked_by r) else the (re_error_type r))
      else if re_fallback r = Some True then TimelineFallback (t (js ''timeline.fallback''))
      else TimelineSuccess (t (js ''timeline.success'')))"

section \<open>Lemmas\<close>

text \<open>The formats of the list are those of the desktop application.\<close>

lemma trace_formats_agree:
  "web_formatTokens n = formatTokens (Some n)" "trace_formatDuration n = formatDurationCompact (Some n)"
  by (simp_all add: web_formatTokens_def formatTokens_def trace_formatDuration_def formatDurationCompact_def or_zero_def Let_def)

text \<open>A blocked request that was never sent to another provider is labelled as a fallback.\<close>

lemma blocked_labelled_fallback:
  assumes "filled (re_blocked_by r)" and "re_fallback r = Some False"
  shows "timeline_cell t r = TimelineFailed (t (js ''timeline.fallback'') @ js '': '' @ the (re_blocked_by r))"
  using assms by (simp add: timeline_cell_def entry_failed_def)

text \<open>The list takes the model and the duration of the request at the same position of the log. When the trace of an
  earlier request was not captured, a row shows those of another request.\<close>

lemma meta_by_position:
  assumes "i < length traceRows" and "i < length metaRows"
  shows "sq_model (session_requests traceRows metaRows ! i) =
     (case mr_model_requested (metaRows ! i) of None \<Rightarrow> [] | Some s \<Rightarrow> s)"
  using assms by (simp add: session_requests_def meta_at_def nth_enumerate_eq)

lemma meta_shifted:
  "\<exists>traceRows metaRows. tr_request_id (traceRows ! 0) = mr_request_id (metaRows ! 1) \<and> length traceRows = 1 \<and>
     sq_model (session_requests traceRows metaRows ! 0) \<noteq> (case mr_model_requested (metaRows ! 1) of None \<Rightarrow> [] | Some s \<Rightarrow> s)"
  by (intro exI [of _ "[\<lparr>tr_id = Some (num_int 9), tr_request_id = Some (js ''b''), tr_status_code = None\<rparr>]"]
      exI [of _ "[\<lparr>mr_request_id = Some (js ''a''), mr_status_code = None, mr_duration_ms = None, mr_model_requested = Some (js ''x'')\<rparr>,
        \<lparr>mr_request_id = Some (js ''b''), mr_status_code = None, mr_duration_ms = None, mr_model_requested = Some (js ''y'')\<rparr>]"])
    (simp add: session_requests_def meta_at_def js_def)

text \<open>A session without captured requests keeps the message that it is loading.\<close>

lemma empty_session_loading: "su_panel (session_page_run [] es) = PanelLoading"
proof -
  have "foldl (session_page_step []) (session_mount []) es = session_mount []"
    by (induction es) (auto simp: session_page_step_def session_mount_def SessionDetailClient_init_def split: session_event.splits)
  then show ?thesis by (simp add: session_page_run_def session_mount_def SessionDetailClient_init_def)
qed

text \<open>While calls are outstanding the panel may hold the answer for a row that was left.\<close>

lemma left_row_shown:
  assumes "session_page_step requests ui (SelectRow a) = ui1" and "session_page_step requests ui1 (SelectRow b) = ui2"
    and "a \<noteq> su_selectedSeq ui" and "b \<noteq> a" and "su_flight ui = []"
    and "1 \<le> a \<and> a \<le> length requests \<and> num_truthy (sq_rowID (requests ! (a - 1)))"
    and "1 \<le> b \<and> b \<le> length requests \<and> num_truthy (sq_rowID (requests ! (b - 1)))"
  shows "su_selectedSeq (session_page_step requests ui2 (PanelAnswer r)) = b \<and>
    su_shown (session_page_step requests ui2 (PanelAnswer r)) = Some (rows_of requests a)"
  using assms by (auto simp: session_page_step_def session_onSelect_def loadSelected_def)

subsection \<open>Settling\<close>

text \<open>The last call that was made is the one for the selected row.\<close>

definition session_wf :: "session_request list \<Rightarrow> session_ui \<Rightarrow> bool" where
  "session_wf requests ui \<longleftrightarrow>
     (if su_flight ui = [] then su_shown ui = Some (rows_of requests (su_selectedSeq ui)) \<and> su_panel ui \<noteq> PanelLoading
      else last (su_flight ui) = rows_of requests (su_selectedSeq ui))"

lemma panel_of_done: "panel_of r \<noteq> PanelLoading"
  by (auto simp: panel_of_def split: option.splits pair_result.splits)

lemma session_mount_wf:
  assumes "requests \<noteq> []" and "num_truthy (sq_rowID (hd requests))"
  shows "session_wf requests (session_mount requests)"
  using assms by (cases requests)
    (simp_all add: session_wf_def session_mount_def loadSelected_def SessionDetailClient_init_def rows_of_def)

lemma session_page_step_wf: "session_wf requests ui \<Longrightarrow> session_wf requests (session_page_step requests ui e)"
  by (auto simp: session_wf_def session_page_step_def session_onSelect_def loadSelected_def panel_of_done
      split: session_event.splits list.splits if_splits)

lemma session_page_run_wf:
  assumes "requests \<noteq> []" and "num_truthy (sq_rowID (hd requests))"
  shows "session_wf requests (session_page_run requests es)"
  unfolding session_page_run_def
  by (induction es rule: rev_induct) (simp_all add: session_mount_wf [OF assms] session_page_step_wf)

text \<open>The filter by agent asks the list page for that agent, and only for that.\<close>

lemma agent_filter_read:
  "form_get (agent_filter v sp) k = (if k = js ''agent_type'' then (if v = [] then None else Some v) else form_get sp k)"
  by (simp add: agent_filter_def)

section \<open>Properties\<close>

text \<open>The panel of a session settles on the selected request. However the rows are clicked while answers arrive,
  once every call is answered the panel is not loading any more and holds the answer for the selected row, with the
  row before it as the baseline.\<close>

theorem session_panel_settles:
  assumes "requests \<noteq> []" and "num_truthy (sq_rowID (hd requests))" and "su_flight (session_page_run requests es) = []"
  shows "su_panel (session_page_run requests es) \<noteq> PanelLoading \<and>
    su_shown (session_page_run requests es) = Some (rows_of requests (su_selectedSeq (session_page_run requests es)))"
  using session_page_run_wf [OF assms(1,2), of es] assms(3) by (simp add: session_wf_def)

theorem session_panel_settles_witness:
  "su_shown (session_page_run [\<lparr>sq_seq = 1, sq_rowID = num_int 4, sq_model = [], sq_status = Fin 0, sq_durationMs = Fin 0\<rparr>,
      \<lparr>sq_seq = 2, sq_rowID = num_int 6, sq_model = [], sq_status = Fin 0, sq_durationMs = Fin 0\<rparr>]
      [SelectRow 2, PanelAnswer None, PanelAnswer None]) = Some (num_int 6, num_int 4)"
proof -
  let ?rs = "[\<lparr>sq_seq = 1, sq_rowID = num_int 4, sq_model = [], sq_status = Fin 0, sq_durationMs = Fin 0\<rparr>,
      \<lparr>sq_seq = 2, sq_rowID = num_int 6, sq_model = [], sq_status = Fin 0, sq_durationMs = Fin 0\<rparr>]"
  let ?es = "[SelectRow 2, PanelAnswer None, PanelAnswer None]"
  have "su_flight (session_page_run ?rs ?es) = []" "su_selectedSeq (session_page_run ?rs ?es) = 2"
    by (simp_all add: session_page_run_def session_mount_def session_page_step_def session_onSelect_def loadSelected_def SessionDetailClient_init_def)
  with session_panel_settles [of ?rs ?es] show ?thesis by (simp add: rows_of_def)
qed

end
