(* ===== verification/Spec2Isabelle.thy ===== *)
theory Spec2Isabelle
  imports Panel Pages_Config Pages_Usage Trace_Desktop Desktop_Api Json_Tree Desktop_Format Pagination
    Desktop_Providers Desktop_Models Desktop_Routes Desktop_Lists Desktop_Viewer
    Desktop_Overview Desktop_Settings Desktop_Shell
    Web_Providers Web_Roles Web_Filters Web_Tables Web_History Web_Models
    Web_Keys Web_Org Web_Budget_Rows Web_Rows Web_Trace
begin

text \<open>
  Verification of the TypeScript of voxeltoad, a gateway for language models.

  \<^bold>\<open>The program.\<close> The gateway itself is written in Go and is seen here only through its admin API. Its TypeScript
  is (1) the Control Panel \<^verbatim>\<open>src/web\<close>, a Next.js application whose Server Actions and server-rendered pages talk to
  the admin API with the token of an encrypted session cookie; (2) the admin client of the SDK \<^verbatim>\<open>src/sdk/typescript\<close>
  that the panel uses; (3) the desktop application \<^verbatim>\<open>src/desktop-ui\<close>, which talks to a local gateway and shows
  sessions, traces and costs. An operation of the panel goes: form or address, validation, client of the session, one or
  more requests, then a result for the form, a redirect, a notice or the properties of a client component; a success
  marks pages stale.

  \<^bold>\<open>The language.\<close> \<open>Js_Prelude\<close>: strings as lists of UTF-16 code units, errors as values (\<open>jserror\<close>, results
  \<open>'a res\<close>), string methods. \<open>Js_Number\<close>: binary64 numbers as exact rationals with a rounding function, their
  arithmetic, printing and parsing. \<open>Js_Json\<close>: values, property access, \<^verbatim>\<open>JSON.stringify\<close> and a total parser.
  \<open>Js_Uri\<close>: percent escapes over UTF-8 and that decoding undoes encoding. \<open>Js_Date\<close>: the Gregorian calendar of
  the language specification, with the lemma that a day is determined by its year, month and date, and dates in a time
  zone that is a parameter.

  \<^bold>\<open>The server side.\<close> \<open>Server\<close> models \<^verbatim>\<open>sdk/typescript/src/admin.ts\<close> and \<^verbatim>\<open>web/src/lib\<close>
  (\<^verbatim>\<open>session.ts\<close>, \<^verbatim>\<open>permissions.ts\<close>, \<^verbatim>\<open>admin.ts\<close>, \<^verbatim>\<open>i18n-errors.ts\<close>, \<^verbatim>\<open>errors.ts\<close>). A computation has type
  \<open>'a act\<close>: it reads a \<open>platform\<close> (environment, HTTP client, cookie sealing, translations: what is not in the
  repository) and passes a \<open>world\<close> (cookie, requests sent, pages marked stale), returning a value or a thrown
  error. The HTTP client is a function of the whole history of requests, so the backend may keep any state.
  \<open>Money\<close> models \<^verbatim>\<open>web/src/lib/money.ts\<close> on binary64 numbers: exactness, rounding and the round trip.

  \<^bold>\<open>The actions.\<close> \<open>Admin_Write\<close> holds what the Server Actions share and their contract as three locales
  (\<open>panel_action\<close>, \<open>atomic_action\<close>, \<open>admin_write\<close>). \<open>Actions_Org\<close> (groups, tenants, applications, operators,
  quotas, settings, password), \<open>Actions_Config\<close> (providers, models, routes, plugins) and \<open>Actions_Access\<close> (roles, API
  keys, budgets, configuration history, trace details, sign-in) have one definition per function of the
  \<^verbatim>\<open>actions.ts\<close> files and interpret the strongest locale each action satisfies; their lemmas give validation,
  bodies, amounts, permission guards, what a 401 does, and the two exceptions to the contract.

  \<^bold>\<open>The pages.\<close> \<open>Date_Range\<close> models \<^verbatim>\<open>overview/range.ts\<close>, the presets of the desktop overview and
  \<^verbatim>\<open>lib/datetime.ts\<close>: each preset covers exactly the local days it names, and both applications agree.
  \<open>Page_Load\<close> holds what the pages share and their contract as two locales (\<open>page_load\<close>: only reads, through the
  session's client; \<open>guarded_page\<close>: no 401 or 403 escapes). \<open>Pages_Config\<close> and \<open>Pages_Usage\<close> have one definition
  per \<^verbatim>\<open>page.tsx\<close> of the dashboard and interpret the contract for each.

  \<^bold>\<open>The panel as a system.\<close> \<open>Panel\<close> models the layout and the navigation, collects every action, every page, sign-in
  and sign-out as the events of an inductive step relation, and proves by induction on runs: where tokens come from, a
  refinement of an abstract session automaton, that reported successes are real, that signing out is final, where a
  401 leads, and which pages are stale.

  \<^bold>\<open>Traces and the libraries of the desktop.\<close> \<open>Trace\<close> models \<^verbatim>\<open>web/src/components/trace/trace-categories.tsx\<close> (stream
  reassembly, analysis against a baseline, blocks, the component tree); \<open>Trace_Desktop\<close>
  transcribes the port of the desktop function by function on its own, with the choice of the baseline, and relates
  each function to the original: the analyses and trees agree, and where the message rows differ is stated. \<open>Desktop_Api\<close> (\<^verbatim>\<open>lib/api.ts\<close>,
  \<^verbatim>\<open>lib/app-actions.ts\<close>), \<open>Desktop_Format\<close> (\<^verbatim>\<open>lib/format.ts\<close>) and \<open>Json_Tree\<close>
  (\<^verbatim>\<open>lib/json-tree.ts\<close>) model the libraries of the desktop application. \<open>Pagination\<close> models the toolbar that both
  applications have and shows that they are the same function.

  \<^bold>\<open>The pages of the desktop.\<close> A page is a record of its React state; requests are computations over a \<open>desk\<close> (the
  requests sent so far), and where answers can arrive out of order the requests in flight are part of the state and
  the events say which of them is answered. \<open>Desktop_Form\<close> holds the submission of a form, the confirmation dialog and
  the loading of a page as locales (\<open>save_form\<close>, \<open>config_page_load\<close>), which \<open>Desktop_Providers\<close>,
  \<open>Desktop_Models\<close> and \<open>Desktop_Routes\<close> interpret; the random keys of the rows are an injective parameter \<open>uuid\<close>.
  \<open>Desktop_Lists\<close> models sessions, request logs, prompts and runtime logs with the locale \<open>paged_query\<close>;
  \<open>Desktop_Viewer\<close> the trace viewer with its cache and its baseline; \<open>Desktop_Overview\<close>, \<open>Desktop_Settings\<close> and
  \<open>Desktop_Shell\<close> the figures, the settings with purging and the key, and the sidebar, routes, connectivity test and
  prompt dialog. Their lemmas say what a save sends, that saving without a change puts back what was stored, and which
  answers may be shown.

  \<^bold>\<open>The client components of the panel.\<close> A form is its React state, the text of its uncontrolled inputs and the
  \<^verbatim>\<open>FormData\<close> of the mounted inputs in document order, handed to the Server Action of the theories above, so the
  statements speak of the requests that reach the admin API. \<open>Web_Form\<close> holds the locale \<open>action_form\<close>, interpreted for
  every form; \<open>Web_Providers\<close>, \<open>Web_Roles\<close>, \<open>Web_Config\<close> (routes and plugins), \<open>Web_Models\<close>, \<open>Web_Keys\<close>,
  \<open>Web_Org\<close> (groups, tenants, applications, operators, quotas, settings, password) and \<open>Web_Budgets\<close> model the forms
  of \<^verbatim>\<open>web/src/app/[locale]/(dashboard)\<close>; the locale \<open>row_store\<close> is the contract of the dynamic rows, which the
  parallel arrays of the model and route forms implement. \<open>Web_Tables\<close> has the dialog before a destructive action as a step relation with
  the action under way and the locale \<open>confirm_table\<close>, interpreted for every table: confirming and the arrival of the answer are two steps
  with anything between them; \<open>Web_Rows\<close> the cells and the handlers of each table and reading the lists of providers,
  tenants, groups and plugins to their end through the addresses that the next button pushes, \<open>Web_Budget_Rows\<close> the rows of the budget pages; \<open>Web_History\<close> the configuration history; \<open>Web_Filters\<close> the filter bars
  (locale \<open>paged_filters\<close>) composed with the pages that read their addresses; \<open>Web_Views\<close> the model catalogue, the
  usage summary and the overview; \<open>Web_Trace\<close> the trace pages. The last section of this theory collects what all
  forms tell.

  \<^bold>\<open>Bounds and fuel.\<close> Numbers are unbounded rationals rounded to 53 bits, exact up to 2^53; statements about amounts
  and token counts carry that bound. Time values are clipped at 8.64e15 milliseconds as in the language; the
  statements about presets assume a clock at least 100 days away from the ends. The only loops that may not end are
  those over cursors on the API key page; they take fuel, \<open>None\<close> is not yet finished, and fuel for the longest chain
  of pages is shown to be enough. Following the next button of a table is bounded by a number of pages, and the length
  of the chain is shown to be enough. \<^verbatim>\<open>Promise.all\<close> sends its requests in order; which of several rejections is
  reported is an argument, so the statements hold for every order.

  Browser events are explicit sequences: a statement about a form or a page holds after every list of inputs, or in
  every state that its step relation reaches.

  \<^bold>\<open>Not modelled.\<close> Markup, style classes, charts and copy buttons, and the widgets below the components (selects,
  toasts, tables, badges), of which only the values they submit or show are used; focus and scrolling; the configuration of internationalisation and middleware; the generated types of
  the admin API; the thin wrapper of the data-plane SDK; and the Go backend, which is the parameter behind the HTTP
  client. Search parameters and form entries are taken with the types the code declares for them.
\<close>

section \<open>Properties of the desktop forms\<close>

text \<open>C20: what the three forms of the desktop application tell is what happened. A submission succeeds exactly when
  it leaves no error, it sends at most one request and keeps the draft, and a success means that the gateway accepted
  that request; so after a failure the same draft can be sent again.\<close>

theorem desktop_saves_reported:
  "(\<forall>ok f' d'. ProviderForm_onSubmit pv g d pf = (ok, f', d') \<longrightarrow> (ok \<longleftrightarrow> fs_error f' = None) \<and>
      (\<exists>e b. f' = pf\<lparr>fs_error := e, fs_pending := b\<rparr>) \<and> length (dk_sent d') \<le> Suc (length (dk_sent d)) \<and>
      (ok \<longrightarrow> (\<exists>q r. dk_sent d' = dk_sent d @ [q] \<and> gw_fetch g (dk_sent d') = DResp r \<and> resp_ok r))) \<and>
   (\<forall>ok f' d'. ModelForm_onSubmit mv g d mf = (ok, f', d') \<longrightarrow> (ok \<longleftrightarrow> fs_error f' = None) \<and>
      (\<exists>e b. f' = mf\<lparr>fs_error := e, fs_pending := b\<rparr>) \<and> length (dk_sent d') \<le> Suc (length (dk_sent d)) \<and>
      (ok \<longrightarrow> (\<exists>q r. dk_sent d' = dk_sent d @ [q] \<and> gw_fetch g (dk_sent d') = DResp r \<and> resp_ok r))) \<and>
   (\<forall>ok f' d'. RouteForm_onSubmit rv g d rf = (ok, f', d') \<longrightarrow> (ok \<longleftrightarrow> fs_error f' = None) \<and>
      (\<exists>e b. f' = rf\<lparr>fs_error := e, fs_pending := b\<rparr>) \<and> length (dk_sent d') \<le> Suc (length (dk_sent d)) \<and>
      (ok \<longrightarrow> (\<exists>q r. dk_sent d' = dk_sent d @ [q] \<and> gw_fetch g (dk_sent d') = DResp r \<and> resp_ok r)))"
  by (rule conjI [OF _ conjI];
      (intro allI impI, (rule provider_form.outcome | rule model_form.outcome | rule route_form.outcome), assumption))

theorem desktop_saves_reported_witness:
  "\<exists>ok f' d'. RouteForm_onSubmit (Some demo_route) missing_gateway idle_desk (RouteForm_init digits10 (Some demo_route)) = (ok, f', d') \<and>
     length (dk_sent d') \<le> 1 \<and> (ok \<longleftrightarrow> fs_error f' = None)"
proof -
  obtain ok f' d' where run: "RouteForm_onSubmit (Some demo_route) missing_gateway idle_desk (RouteForm_init digits10 (Some demo_route)) = (ok, f', d')"
    by (metis surj_pair)
  with desktop_saves_reported [where rv = "Some demo_route" and g = missing_gateway and d = idle_desk and
      rf = "RouteForm_init digits10 (Some demo_route)"]
  show ?thesis by (auto simp: idle_desk_def)
qed

section \<open>Properties of the forms of the panel\<close>

text \<open>What a submission with effects stands for: every request of it was accepted and the page of the form is marked
  stale.\<close>

definition save_told :: "'a act \<Rightarrow> ('a \<Rightarrow> ui_effect list) \<Rightarrow> jsstr \<Rightarrow> bool" where
  "save_told submit effects path \<longleftrightarrow> (\<forall>pf w x w'. submit pf w = (Inr x, w') \<and> effects x \<noteq> [] \<longrightarrow>
     w_revalidated w' = w_revalidated w @ [(path, None)] \<and>
     (\<exists>rs. w_sent w' = w_sent w @ rs \<and> all_accepted pf (w_sent w) rs))"

lemma save_told_action:
  assumes "action_form action [(path, None)]"
  shows "save_told (submit_action action fx fd) snd path"
proof -
  have "w_revalidated w' = w_revalidated w @ [(path, None)] \<and> (\<exists>rs. w_sent w' = w_sent w @ rs \<and> all_accepted pf (w_sent w) rs)"
    if "submit_action action fx fd pf w = (Inr (r, es), w')" "es \<noteq> []" for pf w w' r es
    using action_form.told [OF assms that(1)] that(2) by (cases "is_ok r") simp_all
  then show ?thesis by (auto simp: save_told_def)
qed

lemma save_told_bnd:
  assumes "save_told submit snd path" and "\<And>x. effects (k x) \<noteq> [] \<Longrightarrow> snd x \<noteq> []"
  shows "save_told (bnd submit (\<lambda>x. ret (k x))) effects path"
  using assms unfolding save_told_def by (fastforce simp: bnd_apply split: prod.splits sum.splits)

text \<open>C24: what the forms of the Control Panel tell is what happened. For whatever state and input of the forms for
  providers, roles, models, routes, plugins, groups, tenants, applications, operators and quotas: when a submission
  resets the form, closes its dialog or reloads the list, the admin API accepted every request of that submission and
  the page of the list is marked stale.\<close>

theorem web_saves_reported:
  "save_told (WebProviderForm_submit pu pt) snd (js ''/providers'') \<and> save_told (RoleForm_submit ru rt) snd (js ''/roles'') \<and>
   save_told (WebModelForm_submit mu mt edits) (\<lambda>(_, _, es). es) (js ''/models'') \<and>
   save_told (WebRouteForm_submit rf wt) (\<lambda>(_, _, es). es) (js ''/routes'') \<and>
   save_told (PluginForm_submit gu gt) snd (js ''/plugins'') \<and> save_told (GroupForm_submit gn) snd (js ''/groups'') \<and>
   save_told (TenantForm_submit tn) snd (js ''/tenants'') \<and> save_told (ApplicationForm_submit og an) snd (js ''/applications'') \<and>
   save_told (OperatorForm_submit roles ou email password) snd (js ''/operators'') \<and>
   save_told (topup_submit scope qty cur) snd (js ''/quotas'')"
proof (intro conjI)
  show "save_told (WebProviderForm_submit pu pt) snd (js ''/providers'')"
    unfolding WebProviderForm_submit_def case_prod_beta
    by (rule save_told_bnd [OF save_told_action [OF provider_save.action_form_axioms]]) simp
  show "save_told (RoleForm_submit ru rt) snd (js ''/roles'')"
    unfolding RoleForm_submit_def case_prod_beta
    by (rule save_told_bnd [OF save_told_action [OF role_save.action_form_axioms]]) (simp split: if_splits)
  show "save_told (WebModelForm_submit mu mt edits) (\<lambda>(_, _, es). es) (js ''/models'')"
    unfolding WebModelForm_submit_def case_prod_beta
    by (rule save_told_bnd [OF save_told_action [OF model_save.action_form_axioms]]) simp
  show "save_told (WebRouteForm_submit rf wt) (\<lambda>(_, _, es). es) (js ''/routes'')"
    unfolding WebRouteForm_submit_def case_prod_beta
    by (rule save_told_bnd [OF save_told_action [OF route_save.action_form_axioms]]) simp
qed (simp_all add: PluginForm_submit_def GroupForm_submit_def TenantForm_submit_def ApplicationForm_submit_def
    OperatorForm_submit_def topup_submit_def save_told_action plugin_save.action_form_axioms group_save.action_form_axioms
    tenant_save.action_form_axioms application_save.action_form_axioms operator_save.action_form_axioms
    quota_topup.action_form_axioms)

end
